(* ===== verification/Pystr.thy ===== *)
theory Pystr imports Main "HOL-Library.Char_ord" begin

text \<open>
  The part of Python's \<open>str\<close> and \<open>bytes\<close> the program uses. A string is the list of its UTF-8
  bytes: concatenation, comparison and hashing commute with the encoding. Character classes that
  the program tests (\<open>strip\<close>, \<open>lower\<close>, hexadecimal digits, digits) are the ASCII ones.
\<close>

type_synonym str = string

abbreviation code_of :: "char \<Rightarrow> nat" where
  "code_of c \<equiv> of_char c"

text \<open>The exceptions a Python function may end in, as far as its callers tell them apart.\<close>

datatype py_error = ValueError str | TypeError str | OtherError str

definition is_ascii :: "str \<Rightarrow> bool" where
  "is_ascii s \<longleftrightarrow> (\<forall>c \<in> set s. code_of c < 128)"

definition is_space :: "char \<Rightarrow> bool" where
  "is_space c \<longleftrightarrow> (9 \<le> code_of c \<and> code_of c \<le> 13) \<or> (28 \<le> code_of c \<and> code_of c \<le> 32)"

definition strip :: "str \<Rightarrow> str" where
  "strip s = rev (dropWhile is_space (rev (dropWhile is_space s)))"

definition lower_char :: "char \<Rightarrow> char" where
  "lower_char c = (if 65 \<le> code_of c \<and> code_of c \<le> 90 then char_of (code_of c + 32) else c)"

definition lower :: "str \<Rightarrow> str" where
  "lower s = map lower_char s"

fun startswith :: "str \<Rightarrow> str \<Rightarrow> bool" where
  "startswith s [] = True"
| "startswith [] (p # ps) = False"
| "startswith (c # s) (p # ps) = (c = p \<and> startswith s ps)"

definition removeprefix :: "str \<Rightarrow> str \<Rightarrow> str" where
  "removeprefix p s = (if startswith s p then drop (length p) s else s)"

lemma startswith_append [simp]: "startswith (p @ s) p"
  by (induction p) auto

lemma startswith_iff: "startswith s p \<longleftrightarrow> (\<exists>r. s = p @ r)"
  by (induction s p rule: startswith.induct) auto

lemma removeprefix_append [simp]: "removeprefix p (p @ s) = s"
  by (simp add: removeprefix_def)

text \<open>
  \<open>hmac.compare_digest\<close> on strings raises \<open>TypeError\<close> (here \<open>None\<close>) unless both are ASCII.
\<close>

definition compare_digest :: "str \<Rightarrow> str \<Rightarrow> bool option" where
  "compare_digest a b = (if is_ascii a \<and> is_ascii b then Some (a = b) else None)"

lemma compare_digest_True [simp]: "compare_digest a b = Some True \<longleftrightarrow> is_ascii a \<and> a = b"
  by (auto simp: compare_digest_def)

section \<open>Hexadecimal\<close>

definition hex_digit :: "nat \<Rightarrow> char" where
  "hex_digit n = (if n < 10 then char_of (48 + n) else char_of (87 + n))"

definition hex_value :: "char \<Rightarrow> nat option" where
  "hex_value c =
     (let n = code_of c
      in if 48 \<le> n \<and> n \<le> 57 then Some (n - 48)
         else if 97 \<le> n \<and> n \<le> 102 then Some (n - 87)
         else if 65 \<le> n \<and> n \<le> 70 then Some (n - 55) else None)"

lemma code_char_small [simp]: "n < 256 \<Longrightarrow> code_of (char_of n :: char) = n"
  by simp

lemma hex_value_digit [simp]: "n < 16 \<Longrightarrow> hex_value (hex_digit n) = Some n"
  by (simp add: hex_digit_def hex_value_def Let_def)

lemma code_of_less [simp]: "code_of c < 256"
  by (metis char_of_char mod_less_divisor of_char_of zero_less_numeral)

definition hex_byte :: "char \<Rightarrow> str" where
  "hex_byte c = [hex_digit (code_of c div 16), hex_digit (code_of c mod 16)]"

definition to_hex :: "str \<Rightarrow> str" where
  "to_hex bs = concat (map hex_byte bs)"

text \<open>\<open>bytes.fromhex\<close>: pairs of digits, white space allowed between them; \<open>None\<close> is \<open>ValueError\<close>.\<close>

fun fromhex :: "str \<Rightarrow> str option" where
  "fromhex [] = Some []"
| "fromhex (c # cs) =
     (if is_space c \<and> (code_of c \<le> 13 \<or> code_of c = 32) then fromhex cs
      else case cs of [] \<Rightarrow> None
        | d # ds \<Rightarrow> (case (hex_value c, hex_value d) of
            (Some h, Some l) \<Rightarrow> map_option (\<lambda>r. char_of (16 * h + l) # r) (fromhex ds)
          | _ \<Rightarrow> None))"

lemma hex_digit_not_space: "n < 16 \<Longrightarrow> \<not> is_space (hex_digit n)"
  by (simp add: is_space_def hex_digit_def)

lemma fromhex_to_hex [simp]: "fromhex (to_hex bs) = Some bs"
proof (induction bs)
  case (Cons c bs)
  have "code_of c div 16 < 16" using code_of_less [of c] by linarith
  moreover have "16 * (code_of c div 16) + code_of c mod 16 = code_of c" by simp
  moreover have "char_of (code_of c) = c" by simp
  ultimately show ?case using Cons by (simp add: to_hex_def hex_byte_def hex_digit_not_space)
qed (simp add: to_hex_def)

lemma to_hex_inj: "to_hex a = to_hex b \<longleftrightarrow> a = b"
  by (metis fromhex_to_hex option.inject)

section \<open>Decimal numbers\<close>

fun show_nat :: "nat \<Rightarrow> str" where
  "show_nat n = (if n < 10 then [char_of (48 + n)] else show_nat (n div 10) @ [char_of (48 + n mod 10)])"

declare show_nat.simps [simp del]

definition show_int :: "int \<Rightarrow> str" where
  "show_int i = (if i < 0 then CHR ''-'' # show_nat (nat (- i)) else show_nat (nat i))"

definition digit_value :: "char \<Rightarrow> nat" where
  "digit_value c = code_of c - 48"

definition read_nat :: "str \<Rightarrow> nat" where
  "read_nat s = foldl (\<lambda>n c. 10 * n + digit_value c) 0 s"

lemma read_show_nat [simp]: "read_nat (show_nat n) = n"
proof (induction n rule: show_nat.induct)
  case (1 n)
  show ?case
  proof (cases "n < 10")
    case True
    then show ?thesis by (subst show_nat.simps) (simp add: read_nat_def digit_value_def)
  next
    case False
    with 1 have "read_nat (show_nat (n div 10)) = n div 10" by simp
    with False show ?thesis
      by (subst show_nat.simps) (simp add: read_nat_def digit_value_def)
  qed
qed

definition is_digit :: "char \<Rightarrow> bool" where
  "is_digit c \<longleftrightarrow> 48 \<le> code_of c \<and> code_of c \<le> 57"

lemma show_nat_digits: "c \<in> set (show_nat n) \<Longrightarrow> is_digit c"
proof (induction n rule: show_nat.induct)
  case (1 n)
  have small: "k < 10 \<Longrightarrow> is_digit (char_of (48 + k))" for k :: nat
    by (simp add: is_digit_def)
  from 1 show ?case
    by (subst (asm) (2) show_nat.simps) (auto simp: small split: if_splits)
qed

end
