(* ===== verification/Float64.thy ===== *)
theory Float64 imports Main "HOL-Library.Log_Nat" Complex_Main begin

text \<open>
  Python's \<open>float\<close> (IEEE binary64, round to nearest, ties to even) over exact rationals:
  \<open>fl64\<close> rounds an exact result to the nearest representable number, subnormals included, and each
  arithmetic operation is the exact one followed by \<open>fl64\<close>. Finite values only: overflow to
  infinity is left to the type \<open>pyfloat\<close> of the values that arrive from the network, and signed
  zeros are identified. The locale \<open>rounding\<close> states what the numeric components rely on; the
  binary64 rounding interprets it.
\<close>

section \<open>Rounding to a multiple of a power of two\<close>

definition rne :: "rat \<Rightarrow> int" where
  "rne x = (let f = \<lfloor>x\<rfloor>; d = x - of_int f
            in if d < 1/2 then f else if 1/2 < d then f + 1 else if even f then f else f + 1)"

lemma rne_of_int [simp]: "rne (of_int n) = n"
  by (simp add: rne_def)

lemma rne_bounds: "\<lfloor>x\<rfloor> \<le> rne x \<and> rne x \<le> \<lfloor>x\<rfloor> + 1"
  by (simp add: rne_def Let_def)

lemma rne_error: "\<bar>of_int (rne x) - x\<bar> \<le> 1/2"
proof -
  define f where "f = \<lfloor>x\<rfloor>"
  have "of_int f \<le> x" "x < of_int f + 1" by (simp_all add: f_def) linarith
  then show ?thesis by (auto simp: rne_def Let_def f_def [symmetric] abs_le_iff)
qed

lemma rne_mono: "x \<le> y \<Longrightarrow> rne x \<le> rne y"
proof -
  assume le: "x \<le> y"
  then have "\<lfloor>x\<rfloor> \<le> \<lfloor>y\<rfloor>" by (rule floor_mono)
  then consider "\<lfloor>x\<rfloor> = \<lfloor>y\<rfloor>" | "\<lfloor>x\<rfloor> + 1 \<le> \<lfloor>y\<rfloor>" by linarith
  then show ?thesis
  proof cases
    case 1
    with le show ?thesis by (auto simp: rne_def Let_def)
  next
    case 2
    then show ?thesis using rne_bounds [of x] rne_bounds [of y] by linarith
  qed
qed

lemma rne_minus: "rne (- x) = - rne x"
proof (cases "x = of_int \<lfloor>x\<rfloor>")
  case True
  then obtain n where n: "x = of_int n" ..
  have "rne (- of_int n) = - n" using rne_of_int [of "- n"] by simp
  then show ?thesis by (simp add: n)
next
  case False
  then have lt: "of_int \<lfloor>x\<rfloor> < x" using of_int_floor_le [of x] by linarith
  have "x < of_int \<lfloor>x\<rfloor> + 1" by linarith
  with lt have "\<lfloor>- x\<rfloor> = - \<lfloor>x\<rfloor> - 1" by (intro floor_unique) simp_all
  then show ?thesis by (auto simp: rne_def Let_def)
qed

section \<open>The exponent of a rational\<close>

definition expo :: "rat \<Rightarrow> int" where
  "expo x = (let (p, q) = quotient_of \<bar>x\<bar>; k = bitlen p - bitlen q
             in if 2 powi k \<le> \<bar>x\<bar> then k else k - 1)"

definition ulp_exp :: "rat \<Rightarrow> int" where
  "ulp_exp x = max (expo x - 52) (-1074)"

definition fl64 :: "rat \<Rightarrow> rat" where
  "fl64 x = (if x = 0 then 0 else of_int (rne (x / 2 powi ulp_exp x)) * 2 powi ulp_exp x)"

lemma two_powi_pos [simp]: "(0::rat) < 2 powi k"
  by (simp add: zero_less_power_int)

lemma two_powi_add: "(2::rat) powi (a + b) = 2 powi a * 2 powi b"
  by (simp add: power_int_add)

lemma two_powi_mono: "a \<le> b \<Longrightarrow> (2::rat) powi a \<le> 2 powi b"
  by (rule power_int_increasing) auto

lemma two_powi_less_iff [simp]: "(2::rat) powi a < 2 powi b \<longleftrightarrow> a < b"
  using two_powi_mono [of b a] power_int_strict_increasing [of a b "2::rat"] by fastforce

lemma bitlen_rat: "0 < n \<Longrightarrow> 2 powi (bitlen n - 1) \<le> (of_int n :: rat) \<and> (of_int n :: rat) < 2 powi bitlen n"
proof -
  assume n: "0 < n"
  then have b: "0 < bitlen n" by (simp add: bitlen_def floorlog_def add_pos_nonneg)
  have "2 ^ nat (bitlen n - 1) \<le> n" "n < 2 ^ nat (bitlen n)"
    using bitlen_bounds [OF n] by auto
  then have "(2::rat) ^ nat (bitlen n - 1) \<le> of_int n" "of_int n < (2::rat) ^ nat (bitlen n)"
    by (metis of_int_le_iff of_int_numeral of_int_power)
       (metis \<open>n < 2 ^ nat (bitlen n)\<close> of_int_less_iff of_int_numeral of_int_power)
  with b show ?thesis by (simp add: power_int_def)
qed

lemma expo_bounds:
  assumes "x \<noteq> 0"
  shows "2 powi expo x \<le> \<bar>x\<bar>" and "\<bar>x\<bar> < 2 powi (expo x + 1)"
proof -
  obtain p q where pq: "quotient_of \<bar>x\<bar> = (p, q)" by force
  then have q: "0 < q" and xpq: "\<bar>x\<bar> = of_int p / of_int q"
    by (simp_all add: quotient_of_denom_pos quotient_of_div)
  with assms have p: "0 < p"
    by (metis of_int_0_less_iff zero_less_abs_iff zero_less_divide_iff order_less_asym)
  define k where "k = bitlen p - bitlen q"
  have bp: "2 powi (bitlen p - 1) \<le> (of_int p :: rat)" "of_int p < (2::rat) powi bitlen p"
    and bq: "2 powi (bitlen q - 1) \<le> (of_int q :: rat)" "of_int q < (2::rat) powi bitlen q"
    using bitlen_rat [OF p] bitlen_rat [OF q] by auto
  have "\<bar>x\<bar> * of_int q = of_int p" using q by (simp add: xpq)
  have lo: "2 powi (k - 1) \<le> \<bar>x\<bar>"
  proof -
    have "2 powi (k - 1) * of_int q \<le> (2::rat) powi (k - 1) * 2 powi bitlen q"
      using bq by (intro mult_left_mono) auto
    also have "\<dots> = 2 powi (bitlen p - 1)" by (simp add: k_def flip: two_powi_add)
    also have "\<dots> \<le> of_int p" by (rule bp)
    finally show ?thesis using q by (simp add: xpq le_divide_eq)
  qed
  have hi: "\<bar>x\<bar> < 2 powi (k + 1)"
  proof -
    have "of_int p < (2::rat) powi bitlen p" by (rule bp)
    also have "\<dots> = 2 powi (k + 1) * 2 powi (bitlen q - 1)" by (simp add: k_def flip: two_powi_add)
    also have "\<dots> \<le> 2 powi (k + 1) * of_int q" using bq by (intro mult_left_mono) auto
    finally show ?thesis using q by (simp add: xpq divide_less_eq)
  qed
  show "2 powi expo x \<le> \<bar>x\<bar>" using lo by (simp add: expo_def pq k_def Let_def)
  show "\<bar>x\<bar> < 2 powi (expo x + 1)" using hi by (simp add: expo_def pq k_def [symmetric] Let_def)
qed

lemma expo_unique: "2 powi e \<le> \<bar>x\<bar> \<Longrightarrow> \<bar>x\<bar> < 2 powi (e + 1) \<Longrightarrow> expo x = e"
proof -
  assume a: "2 powi e \<le> \<bar>x\<bar>" "\<bar>x\<bar> < 2 powi (e + 1)"
  have "(0::rat) < 2 powi e" by simp
  with a(1) have "0 < \<bar>x\<bar>" by linarith
  then have "x \<noteq> 0" by simp
  from expo_bounds [OF this] a have "(2::rat) powi e < 2 powi (expo x + 1)" "(2::rat) powi expo x < 2 powi (e + 1)"
    by linarith+
  then show ?thesis by simp
qed

lemma ulp_exp_bounds:
  assumes "x \<noteq> 0"
  shows "\<bar>x\<bar> < 2 powi (ulp_exp x + 53)"
    and "-1074 < ulp_exp x \<Longrightarrow> 2 powi (ulp_exp x + 52) \<le> \<bar>x\<bar>"
    and "-1074 \<le> ulp_exp x"
proof -
  have "\<bar>x\<bar> < 2 powi (expo x + 1)" by (rule expo_bounds [OF assms])
  also have "\<dots> \<le> 2 powi (ulp_exp x + 53)" by (rule two_powi_mono) (simp add: ulp_exp_def)
  finally show "\<bar>x\<bar> < 2 powi (ulp_exp x + 53)" .
  show "-1074 \<le> ulp_exp x" by (simp add: ulp_exp_def)
  assume "-1074 < ulp_exp x"
  then have "ulp_exp x + 52 = expo x" by (auto simp: ulp_exp_def max_def split: if_splits)
  then show "2 powi (ulp_exp x + 52) \<le> \<bar>x\<bar>" using expo_bounds [OF assms] by simp
qed

lemma expo_mono: "x \<noteq> 0 \<Longrightarrow> \<bar>x\<bar> \<le> \<bar>y\<bar> \<Longrightarrow> expo x \<le> expo y"
proof -
  assume a: "x \<noteq> 0" "\<bar>x\<bar> \<le> \<bar>y\<bar>"
  then have "y \<noteq> 0" by auto
  from expo_bounds(1) [OF a(1)] expo_bounds(2) [OF this] a(2)
  have "(2::rat) powi expo x < 2 powi (expo y + 1)" by linarith
  then show ?thesis by simp
qed

lemma ulp_exp_mono: "x \<noteq> 0 \<Longrightarrow> \<bar>x\<bar> \<le> \<bar>y\<bar> \<Longrightarrow> ulp_exp x \<le> ulp_exp y"
  using expo_mono by (force simp: ulp_exp_def)

lemma expo_minus [simp]: "expo (- x) = expo x"
  by (simp add: expo_def)

lemma ulp_exp_minus [simp]: "ulp_exp (- x) = ulp_exp x"
  by (simp add: ulp_exp_def)

section \<open>Laws of the rounding\<close>

lemma fl64_0 [simp]: "fl64 0 = 0"
  by (simp add: fl64_def)

lemma fl64_minus: "fl64 (- x) = - fl64 x"
  by (simp add: fl64_def rne_minus)

lemma fl64_nonneg: "0 \<le> x \<Longrightarrow> 0 \<le> fl64 x"
proof -
  assume x: "0 \<le> x"
  have "rne 0 \<le> rne (x / 2 powi ulp_exp x)" using x by (intro rne_mono) simp
  then show ?thesis using rne_of_int [of 0] by (simp add: fl64_def)
qed

lemma fl64_le_power:
  assumes "0 < x"
  shows "fl64 x \<le> 2 powi (ulp_exp x + 53)"
proof -
  let ?e = "ulp_exp x"
  have "x < 2 powi (?e + 53)" using ulp_exp_bounds(1) [of x] assms by simp
  then have "x / 2 powi ?e \<le> of_int (2 ^ 53)"
    by (simp add: power_int_add divide_le_eq mult.commute)
  then have "rne (x / 2 powi ?e) \<le> 2 ^ 53" using rne_mono rne_of_int by metis
  then have "of_int (rne (x / 2 powi ?e)) \<le> (2::rat) ^ 53"
    by (metis of_int_le_iff of_int_numeral of_int_power)
  then show ?thesis using assms by (simp add: fl64_def power_int_add mult.commute)
qed

lemma fl64_ge_power:
  assumes "0 < x" and "-1074 < ulp_exp x"
  shows "2 powi (ulp_exp x + 52) \<le> fl64 x"
proof -
  let ?e = "ulp_exp x"
  have "2 powi (?e + 52) \<le> x" using ulp_exp_bounds(2) [of x] assms by simp
  then have "of_int (2 ^ 52) \<le> x / 2 powi ?e"
    by (simp add: power_int_add le_divide_eq mult.commute)
  then have "2 ^ 52 \<le> rne (x / 2 powi ?e)" using rne_mono rne_of_int by metis
  then have "(2::rat) ^ 52 \<le> of_int (rne (x / 2 powi ?e))"
    by (metis of_int_le_iff of_int_numeral of_int_power)
  then show ?thesis using assms by (simp add: fl64_def power_int_add mult.commute)
qed

lemma fl64_mono_pos:
  assumes "0 < x" "x \<le> y"
  shows "fl64 x \<le> fl64 y"
proof (cases "ulp_exp x = ulp_exp y")
  case True
  have "x / 2 powi ulp_exp y \<le> y / 2 powi ulp_exp y"
    using assms by (intro divide_right_mono) (simp_all add: less_imp_le)
  then show ?thesis using assms True by (simp add: fl64_def rne_mono mult_right_mono less_imp_le)
next
  case False
  then have lt: "ulp_exp x < ulp_exp y" using ulp_exp_mono [of x y] assms by simp
  moreover have "-1074 \<le> ulp_exp x" using ulp_exp_bounds(3) [of x] assms by simp
  ultimately have "2 powi (ulp_exp y + 52) \<le> fl64 y" using assms by (intro fl64_ge_power) auto
  moreover have "fl64 x \<le> 2 powi (ulp_exp x + 53)" using assms by (intro fl64_le_power)
  moreover have "(2::rat) powi (ulp_exp x + 53) \<le> 2 powi (ulp_exp y + 52)"
    using lt by (intro two_powi_mono) simp
  ultimately show ?thesis by linarith
qed

lemma fl64_mono: "x \<le> y \<Longrightarrow> fl64 x \<le> fl64 y"
proof -
  assume le: "x \<le> y"
  consider "0 < x" | "y < 0" | "x \<le> 0" "0 \<le> y" by linarith
  then show ?thesis
  proof cases
    case 1
    with le show ?thesis by (simp add: fl64_mono_pos)
  next
    case 2
    with le have "fl64 (- y) \<le> fl64 (- x)" by (intro fl64_mono_pos) auto
    then show ?thesis by (simp add: fl64_minus)
  next
    case 3
    then have "0 \<le> fl64 (- x)" "0 \<le> fl64 y" by (auto intro: fl64_nonneg)
    then show ?thesis by (simp add: fl64_minus)
  qed
qed

lemma fl64_exact:
  assumes m: "\<bar>m\<bar> \<le> 2 ^ 53" and e: "-1074 \<le> e"
  shows "fl64 (of_int m * 2 powi e) = of_int m * 2 powi e"
proof (cases "m = 0")
  case False
  let ?x = "of_int m * 2 powi e :: rat"
  have nz: "?x \<noteq> 0" using False by simp
  have "of_int \<bar>m\<bar> \<le> (of_int (2 ^ 53) :: rat)" using m by (simp only: of_int_le_iff)
  then have "\<bar>?x\<bar> \<le> 2 ^ 53 * 2 powi e" by (simp add: abs_mult mult_right_mono less_imp_le)
  then have ub: "\<bar>?x\<bar> \<le> 2 powi (e + 53)" by (simp add: power_int_add mult.commute)
  have ue: "ulp_exp ?x \<le> e + 1"
  proof (cases "ulp_exp ?x = -1074")
    case False
    then have "2 powi (ulp_exp ?x + 52) \<le> \<bar>?x\<bar>"
      using ulp_exp_bounds [OF nz] by simp
    with ub have "\<not> (2::rat) powi (e + 53) < 2 powi (ulp_exp ?x + 52)" by linarith
    then show ?thesis by simp
  qed (use e in simp)
  have "\<exists>n. ?x / 2 powi ulp_exp ?x = of_int n"
  proof (cases "ulp_exp ?x \<le> e")
    case True
    then have "?x / 2 powi ulp_exp ?x = of_int m * 2 powi (e - ulp_exp ?x)"
      by (simp add: power_int_diff)
    also have "\<dots> = of_int (m * 2 ^ nat (e - ulp_exp ?x))"
      using True by (simp add: power_int_def)
    finally show ?thesis by blast
  next
    case False
    with ue have e1: "ulp_exp ?x = e + 1" by simp
    with e have "2 powi (e + 53) \<le> \<bar>?x\<bar>" using ulp_exp_bounds(2) [OF nz] by (simp add: ac_simps)
    with ub have "\<bar>?x\<bar> = 2 powi (e + 53)" by linarith
    then have "\<bar>?x / 2 powi (e + 1)\<bar> = 2 ^ 52" by (simp add: power_int_add abs_mult mult.commute)
    then have "?x / 2 powi (e + 1) = of_int (2 ^ 52) \<or> ?x / 2 powi (e + 1) = of_int (- (2 ^ 52))"
      by (auto simp: abs_if split: if_splits)
    then show ?thesis unfolding e1 by blast
  qed
  then obtain n where n: "?x / 2 powi ulp_exp ?x = of_int n" ..
  then have "fl64 ?x = of_int n * 2 powi ulp_exp ?x" using nz by (simp only: fl64_def rne_of_int if_False)
  also have "\<dots> = ?x" by (simp flip: n)
  finally show ?thesis .
qed simp

lemma fl64_of_int: "\<bar>n\<bar> \<le> 2 ^ 53 \<Longrightarrow> fl64 (of_int n) = of_int n"
  using fl64_exact [of n 0] by simp

lemma fl64_1 [simp]: "fl64 1 = 1"
  using fl64_of_int [of 1] by simp

lemma fl64_numeral [simp]: "(numeral k :: int) \<le> 2 ^ 53 \<Longrightarrow> fl64 (numeral k) = numeral k"
  using fl64_of_int [of "numeral k"] by simp

lemma fl64_idem [simp]: "fl64 (fl64 x) = fl64 x"
proof (cases "x = 0")
  case False
  let ?e = "ulp_exp x" and ?m = "rne (x / 2 powi ulp_exp x)"
  have "\<bar>x\<bar> / 2 powi ?e \<le> 2 ^ 53"
    using ulp_exp_bounds(1) [OF False]
    by (simp add: power_int_add divide_le_eq mult.commute less_imp_le)
  then have "\<bar>x / 2 powi ?e\<bar> \<le> 2 ^ 53" by (simp add: abs_divide)
  then have "x / 2 powi ?e \<le> 2 ^ 53" "- (2 ^ 53) \<le> x / 2 powi ?e" by linarith+
  then have "x / 2 powi ?e \<le> of_int (2 ^ 53)" "of_int (- (2 ^ 53)) \<le> x / 2 powi ?e" by simp_all
  then have "?m \<le> 2 ^ 53" "- (2 ^ 53) \<le> ?m" using rne_mono rne_of_int by metis+
  then have "\<bar>?m\<bar> \<le> 2 ^ 53" by linarith
  then show ?thesis
    using fl64_exact [of ?m ?e] ulp_exp_bounds(3) [OF False] False by (simp add: fl64_def)
qed simp

lemma fl64_error: "\<bar>fl64 x - x\<bar> \<le> 2 powi (ulp_exp x - 1)"
proof (cases "x = 0")
  case False
  let ?e = "ulp_exp x"
  have "fl64 x - x = (of_int (rne (x / 2 powi ?e)) - x / 2 powi ?e) * 2 powi ?e"
    using False by (simp add: fl64_def algebra_simps)
  then have "\<bar>fl64 x - x\<bar> \<le> 1 / 2 * 2 powi ?e"
    using rne_error [of "x / 2 powi ?e"] by (simp add: abs_mult mult_right_mono less_imp_le)
  then show ?thesis by (simp add: power_int_diff)
qed (simp add: less_imp_le)

text \<open>Relative to the argument: half a unit in the last place, or half the smallest subnormal.\<close>

lemma fl64_rel_error: "\<bar>fl64 x - x\<bar> \<le> \<bar>x\<bar> * 2 powi (-53) + 2 powi (-1075)"
proof (cases "x = 0")
  case False
  have "2 powi expo x \<le> \<bar>x\<bar>" by (rule expo_bounds [OF False])
  then have "(2::rat) powi (expo x - 53) \<le> \<bar>x\<bar> * 2 powi (-53)"
    by (simp add: power_int_diff power_int_minus field_simps)
  moreover have "(2::rat) powi (ulp_exp x - 1) \<le> 2 powi (expo x - 53) + 2 powi (-1075)"
    by (auto simp: ulp_exp_def max_def less_imp_le)
  ultimately show ?thesis using fl64_error [of x] by linarith
qed (simp add: less_imp_le)

section \<open>The interface the numeric components rely on\<close>

locale rounding =
  fixes rnd :: "rat \<Rightarrow> rat"
  assumes rnd_mono: "x \<le> y \<Longrightarrow> rnd x \<le> rnd y"
    and rnd_idem: "rnd (rnd x) = rnd x"
    and rnd_of_int: "\<bar>n\<bar> \<le> 2 ^ 53 \<Longrightarrow> rnd (of_int n) = of_int n"
begin

definition exact :: "rat \<Rightarrow> bool" where
  "exact x \<longleftrightarrow> rnd x = x"

lemma exact_rnd [simp, intro]: "exact (rnd x)"
  by (simp add: exact_def rnd_idem)

lemma exact_of_int: "\<bar>n\<bar> \<le> 2 ^ 53 \<Longrightarrow> exact (of_int n)"
  by (simp add: exact_def rnd_of_int)

lemma rnd_le: "exact b \<Longrightarrow> x \<le> b \<Longrightarrow> rnd x \<le> b"
  by (metis exact_def rnd_mono)

lemma rnd_ge: "exact a \<Longrightarrow> a \<le> x \<Longrightarrow> a \<le> rnd x"
  by (metis exact_def rnd_mono)

lemma exact_0 [simp]: "exact 0" and exact_1 [simp]: "exact 1"
  using exact_of_int [of 0] exact_of_int [of 1] by simp_all

lemma exact_numeral: "(numeral k :: int) \<le> 2 ^ 53 \<Longrightarrow> exact (numeral k)"
  using exact_of_int [of "numeral k"] by simp

lemma rnd_nonneg: "0 \<le> x \<Longrightarrow> 0 \<le> rnd x"
  by (rule rnd_ge) simp_all

lemma rnd_percent: "0 \<le> x \<Longrightarrow> x \<le> 100 \<Longrightarrow> 0 \<le> rnd x \<and> rnd x \<le> 100"
  by (simp add: rnd_nonneg rnd_le exact_numeral)

lemma rnd_sum_mono: "x \<le> x' \<Longrightarrow> y \<le> y' \<Longrightarrow> rnd (rnd x + rnd y) \<le> rnd (rnd x' + rnd y')"
  by (intro rnd_mono add_mono)

text \<open>A rounded weighted sum of two values in \<open>[0, h]\<close> stays below its value at \<open>(h, h)\<close>.\<close>

lemma rnd_blend:
  assumes "0 \<le> a" "0 \<le> b" "0 \<le> x" "x \<le> h" "0 \<le> y" "y \<le> h"
  shows "0 \<le> rnd (rnd (a * x) + rnd (b * y))"
    and "rnd (rnd (a * x) + rnd (b * y)) \<le> rnd (rnd (a * h) + rnd (b * h))"
  using assms by (auto intro!: rnd_nonneg add_nonneg_nonneg rnd_sum_mono mult_left_mono)

end

interpretation f64: rounding fl64
  by unfold_locales (simp_all add: fl64_mono fl64_of_int)

section \<open>The operations Python offers on floats\<close>

definition fadd :: "rat \<Rightarrow> rat \<Rightarrow> rat" where "fadd x y = fl64 (x + y)"
definition fsub :: "rat \<Rightarrow> rat \<Rightarrow> rat" where "fsub x y = fl64 (x - y)"
definition fmul :: "rat \<Rightarrow> rat \<Rightarrow> rat" where "fmul x y = fl64 (x * y)"
definition fdiv :: "rat \<Rightarrow> rat \<Rightarrow> rat" where "fdiv x y = fl64 (x / y)"

lemmas fop_defs = fadd_def fsub_def fmul_def fdiv_def

text \<open>
  \<open>statistics.fmean\<close> divides the correctly rounded sum (\<open>math.fsum\<close>) by the count; the built-in
  \<open>sum\<close> over floats is compensated (Neumaier) since Python 3.12.
\<close>

definition fmean :: "rat list \<Rightarrow> rat" where
  "fmean xs = fdiv (fl64 (sum_list xs)) (of_nat (length xs))"

fun neumaier :: "rat \<Rightarrow> rat \<Rightarrow> rat list \<Rightarrow> rat" where
  "neumaier hi c [] = fadd hi c"
| "neumaier hi c (x # xs) =
     (let t = fadd hi x
      in neumaier t (fadd c (if \<bar>x\<bar> \<le> \<bar>hi\<bar> then fadd (fsub hi t) x else fadd (fsub x t) hi)) xs)"

fun py_sum :: "rat list \<Rightarrow> rat" where
  "py_sum [] = 0"
| "py_sum (x # xs) = neumaier x 0 xs"

section \<open>Untrusted floats\<close>

datatype pyfloat = Fin rat | PosInf | NegInf | NaN

fun py_lt :: "pyfloat \<Rightarrow> pyfloat \<Rightarrow> bool" where
  "py_lt (Fin x) (Fin y) = (x < y)"
| "py_lt NaN _ = False"
| "py_lt _ NaN = False"
| "py_lt PosInf _ = False"
| "py_lt _ NegInf = False"
| "py_lt _ _ = True"

text \<open>The built-ins \<open>max(a, b)\<close> and \<open>min(a, b)\<close> keep \<open>a\<close> unless \<open>b\<close> is strictly better.\<close>

definition py_max :: "pyfloat \<Rightarrow> pyfloat \<Rightarrow> pyfloat" where
  "py_max a b = (if py_lt a b then b else a)"

definition py_min :: "pyfloat \<Rightarrow> pyfloat \<Rightarrow> pyfloat" where
  "py_min a b = (if py_lt b a then b else a)"

definition is_nan :: "pyfloat \<Rightarrow> bool" where
  "is_nan v \<longleftrightarrow> v = NaN"

definition in_range :: "rat \<Rightarrow> rat \<Rightarrow> pyfloat \<Rightarrow> bool" where
  "in_range lo hi v \<longleftrightarrow> (case v of Fin x \<Rightarrow> lo \<le> x \<and> x \<le> hi | _ \<Rightarrow> False)"

lemma clamp_in_range:
  "lo \<le> hi \<Longrightarrow> v \<noteq> NaN \<Longrightarrow> in_range lo hi (py_max (Fin lo) (py_min (Fin hi) v))"
  by (cases v) (auto simp: py_max_def py_min_def in_range_def)

lemma fmean_bounds:
  assumes "xs \<noteq> []" "\<And>x. x \<in> set xs \<Longrightarrow> 0 \<le> x \<and> x \<le> 100" "length xs < 2 ^ 40"
  shows "0 \<le> fmean xs \<and> fmean xs \<le> 100"
proof -
  let ?n = "of_nat (length xs) :: rat"
  have n: "0 < ?n" using assms(1) by simp
  have lo: "0 \<le> sum_list xs" using assms(2) by (simp add: sum_list_nonneg)
  have "sum_list xs \<le> of_nat (length xs) * 100"
    using assms(2)
  proof (induction xs)
    case (Cons x xs)
    then have "x \<le> 100" "sum_list xs \<le> of_nat (length xs) * 100" by auto
    then show ?case by (simp add: algebra_simps)
  qed simp
  then have hi: "sum_list xs \<le> of_int (100 * int (length xs))" by (simp add: mult.commute)
  have ex: "f64.exact (of_int (100 * int (length xs)))"
    using assms(3) by (intro f64.exact_of_int) simp
  have "0 \<le> fl64 (sum_list xs)" "fl64 (sum_list xs) \<le> of_int (100 * int (length xs))"
    using lo hi ex by (auto intro: f64.rnd_nonneg f64.rnd_le)
  then have "0 \<le> fl64 (sum_list xs) / ?n" "fl64 (sum_list xs) / ?n \<le> 100"
    using n by (simp_all add: divide_le_eq mult.commute)
  then show ?thesis unfolding fmean_def fdiv_def by (rule f64.rnd_percent)
qed

end
