(* ===== verification/Prelude.thy ===== *)
theory Prelude imports Main "HOL-Library.List_Lexorder" "HOL-Library.Char_ord" "HOL-Library.Product_Lexorder" begin

text \<open>
  Shared vocabulary of the development: SQL tables as lists of rows with the three statement
  shapes the orchestrator uses (\<open>SELECT .. WHERE\<close>, \<open>UPDATE .. WHERE\<close>, \<open>DELETE .. WHERE\<close>), primary
  keys as a locale, and the small list facts that several components use.

  Times are microseconds since the epoch, as an \<open>int\<close>; a handler that reads the wall clock
  several times takes a \<open>clock\<close>, whose value at \<open>i\<close> is what the \<open>i\<close>-th reading of that request returns.
\<close>

named_theorems sql_simps \<comment> \<open>rewriting of table statements\<close>
named_theorems frame \<comment> \<open>what an operation leaves unchanged\<close>

type_synonym time = int
type_synonym clock = "nat \<Rightarrow> time"

definition seconds :: "int \<Rightarrow> time" where
  "seconds n = n * 1000000"

section \<open>Table statements\<close>

definition select_where :: "('r \<Rightarrow> bool) \<Rightarrow> 'r list \<Rightarrow> 'r list" where
  "select_where P t = filter P t"

definition update_where :: "('r \<Rightarrow> bool) \<Rightarrow> ('r \<Rightarrow> 'r) \<Rightarrow> 'r list \<Rightarrow> 'r list" where
  "update_where P f t = map (\<lambda>r. if P r then f r else r) t"

definition delete_where :: "('r \<Rightarrow> bool) \<Rightarrow> 'r list \<Rightarrow> 'r list" where
  "delete_where P t = filter (\<lambda>r. \<not> P r) t"

definition fetchone :: "'r list \<Rightarrow> 'r option" where
  "fetchone t = (case t of [] \<Rightarrow> None | r # _ \<Rightarrow> Some r)"

lemma fetchone_simps [simp]: "fetchone [] = None" "fetchone (r # t) = Some r"
  by (simp_all add: fetchone_def)

lemma fetchone_eq_None [simp]: "fetchone t = None \<longleftrightarrow> t = []"
  by (cases t) auto

lemma fetchone_Some_in: "fetchone t = Some r \<Longrightarrow> r \<in> set t"
  by (cases t) auto

lemma length_update_where [simp, sql_simps]: "length (update_where P f t) = length t"
  by (simp add: update_where_def)

lemma update_where_Nil [simp, sql_simps]: "update_where P f [] = []"
  by (simp add: update_where_def)

lemma update_where_Cons [simp, sql_simps]:
  "update_where P f (r # t) = (if P r then f r else r) # update_where P f t"
  by (simp add: update_where_def)

lemma update_where_append [simp, sql_simps]:
  "update_where P f (t @ u) = update_where P f t @ update_where P f u"
  by (simp add: update_where_def)

lemma set_update_where: "set (update_where P f t) = (\<lambda>r. if P r then f r else r) ` set t"
  by (simp add: update_where_def)

lemma in_update_whereE:
  assumes "r \<in> set (update_where P f t)"
  obtains (same) "r \<in> set t" "\<not> P r" | (changed) r0 where "r0 \<in> set t" "P r0" "r = f r0"
  using assms by (auto simp: set_update_where split: if_splits)

lemma update_where_none: "(\<And>r. r \<in> set t \<Longrightarrow> \<not> P r) \<Longrightarrow> update_where P f t = t"
  by (induction t) auto

lemma set_delete_where [simp, sql_simps]: "set (delete_where P t) = {r \<in> set t. \<not> P r}"
  by (auto simp: delete_where_def)

lemma set_select_where [simp, sql_simps]: "set (select_where P t) = {r \<in> set t. P r}"
  by (auto simp: select_where_def)

lemma delete_where_append [simp, sql_simps]:
  "delete_where P (t @ u) = delete_where P t @ delete_where P u"
  by (simp add: delete_where_def)

lemma map_update_where:
  "(\<And>r. P r \<Longrightarrow> g (f r) = g r) \<Longrightarrow> map g (update_where P f t) = map g t"
  by (induction t) auto

section \<open>Tables with a primary key\<close>

text \<open>
  The interface a keyed table offers its clients: at most one row per key, found by the key and
  kept by every statement that does not write the key column.
\<close>

locale keyed_table =
  fixes key :: "'r \<Rightarrow> 'k"
begin

definition lookup :: "'k \<Rightarrow> 'r list \<Rightarrow> 'r option" where
  "lookup k t = fetchone (select_where (\<lambda>r. key r = k) t)"

definition unique_keys :: "'r list \<Rightarrow> bool" where
  "unique_keys t \<longleftrightarrow> distinct (map key t)"

lemma lookup_Some_in: "lookup k t = Some r \<Longrightarrow> r \<in> set t \<and> key r = k"
  by (auto simp: lookup_def dest!: fetchone_Some_in)

lemma lookup_None: "lookup k t = None \<longleftrightarrow> k \<notin> key ` set t"
  by (auto simp: lookup_def select_where_def filter_empty_conv)

lemma lookup_unique: "unique_keys t \<Longrightarrow> r \<in> set t \<Longrightarrow> lookup (key r) t = Some r"
  by (induction t) (auto simp: lookup_def unique_keys_def select_where_def image_iff)

lemma unique_keys_eq:
  "unique_keys t \<Longrightarrow> r \<in> set t \<Longrightarrow> r' \<in> set t \<Longrightarrow> key r = key r' \<Longrightarrow> r = r'"
  by (metis lookup_unique option.inject)

lemma unique_keys_insert: "unique_keys (t @ [r]) \<longleftrightarrow> unique_keys t \<and> key r \<notin> key ` set t"
  by (auto simp: unique_keys_def)

lemma unique_keys_update:
  "(\<And>r. P r \<Longrightarrow> key (f r) = key r) \<Longrightarrow> unique_keys (update_where P f t) = unique_keys t"
  by (simp add: unique_keys_def map_update_where)

lemma unique_keys_delete: "unique_keys t \<Longrightarrow> unique_keys (delete_where P t)"
  by (simp add: unique_keys_def delete_where_def distinct_map_filter)

lemma keys_update:
  "(\<And>r. P r \<Longrightarrow> key (f r) = key r) \<Longrightarrow> key ` set (update_where P f t) = key ` set t"
  by (metis list.set_map map_update_where)

lemma lookup_update:
  assumes "\<And>r. P r \<Longrightarrow> key (f r) = key r"
  shows "lookup k (update_where P f t) = map_option (\<lambda>r. if P r then f r else r) (lookup k t)"
  by (induction t) (auto simp: lookup_def select_where_def assms)

lemma lookup_replace:
  assumes "key p \<in> key ` set t"
  shows "lookup k (update_where (\<lambda>q. key q = key p) (\<lambda>_. p) t) = (if k = key p then Some p else lookup k t)"
proof (cases "lookup k t")
  case None
  then have "k \<noteq> key p" using assms by (auto simp: lookup_None)
  with None show ?thesis by (subst lookup_update) simp_all
next
  case (Some r)
  then have "key r = k" by (simp add: lookup_Some_in)
  with Some show ?thesis by (subst lookup_update) auto
qed

lemma lookup_delete_same: "lookup k (delete_where (\<lambda>r. key r = k) t) = None"
  by (auto simp: lookup_None)

lemma lookup_delete_other:
  "k' \<noteq> k \<Longrightarrow> lookup k' (delete_where (\<lambda>r. key r = k) t) = lookup k' t"
  by (induction t) (auto simp: lookup_def select_where_def delete_where_def)

lemma lookup_append:
  "lookup k (t @ [r]) = (case lookup k t of Some x \<Rightarrow> Some x | None \<Rightarrow> if key r = k then Some r else None)"
  by (induction t) (auto simp: lookup_def select_where_def split: option.splits)

end

section \<open>Lists\<close>

lemma find_filter: "find P xs = fetchone (filter P xs)"
  by (induction xs) auto

end
