(* ===== verification/Hashing.thy ===== *)
theory Hashing imports Pystr Float64 Prelude begin

text \<open>
  \<open>src/contracts/hashing.py\<close>: the canonical JSON encoding and the hash taken of it. JSON values are
  a datatype, \<open>dumps\<close> is \<open>json.dumps\<close> with \<open>separators=(",", ":")\<close> and \<open>ensure_ascii=False\<close>,
  \<open>dumps_ascii\<close> the same with the default \<open>ensure_ascii=True\<close>. Two primitives of the platform are
  parameters: the SHA-256 hex digest and the decimal printing of a finite float (\<open>repr\<close>).
  The lemmas show that strings and lists of strings can be read back from their encoding, which is
  what makes the audit hash cover each field separately.
\<close>

datatype json =
    JNull | JBool bool | JInt int | JFloat pyfloat | JStr str
  | JList "json list" | JObj "(str \<times> json) list"

type_synonym dict = "(str \<times> json) list"

definition dict_get :: "dict \<Rightarrow> str \<Rightarrow> json option" where
  "dict_get d k = map_of d k"

section \<open>Escaping\<close>

definition esc_char :: "char \<Rightarrow> str" where
  "esc_char c =
     (let n = code_of c in
      if n = 34 then [CHR 0x5C, CHR 0x22]
      else if n = 92 then [CHR 0x5C, CHR 0x5C]
      else if n = 10 then [CHR 0x5C, CHR ''n'']
      else if n = 13 then [CHR 0x5C, CHR ''r'']
      else if n = 9 then [CHR 0x5C, CHR ''t'']
      else if n = 8 then [CHR 0x5C, CHR ''b'']
      else if n = 12 then [CHR 0x5C, CHR ''f'']
      else if n < 32 then [CHR 0x5C, CHR ''u'', CHR ''0'', CHR ''0'', hex_digit (n div 16), hex_digit (n mod 16)]
      else [c])"

definition quote :: "str \<Rightarrow> str" where
  "quote s = CHR 0x22 # concat (map esc_char s) @ [CHR 0x22]"

fun join :: "str \<Rightarrow> str list \<Rightarrow> str" where
  "join sep [] = []"
| "join sep [x] = x"
| "join sep (x # y # ys) = x @ sep @ join sep (y # ys)"

definition float_text :: "(rat \<Rightarrow> str) \<Rightarrow> pyfloat \<Rightarrow> str" where
  "float_text float_repr v =
     (case v of Fin x \<Rightarrow> float_repr x | PosInf \<Rightarrow> ''Infinity'' | NegInf \<Rightarrow> ''-Infinity'' | NaN \<Rightarrow> ''NaN'')"

fun dumps_with :: "(str \<Rightarrow> str) \<Rightarrow> (rat \<Rightarrow> str) \<Rightarrow> json \<Rightarrow> str" where
  "dumps_with q fr JNull = ''null''"
| "dumps_with q fr (JBool b) = (if b then ''true'' else ''false'')"
| "dumps_with q fr (JInt i) = show_int i"
| "dumps_with q fr (JFloat v) = float_text fr v"
| "dumps_with q fr (JStr s) = q s"
| "dumps_with q fr (JList xs) = CHR ''['' # join '','' (map (dumps_with q fr) xs) @ '']''"
| "dumps_with q fr (JObj kvs) =
     CHR ''{'' # join '','' (map (\<lambda>(k, v). q k @ '':'' @ dumps_with q fr v) kvs) @ ''}''"

definition dumps :: "(rat \<Rightarrow> str) \<Rightarrow> json \<Rightarrow> str" where
  "dumps fr j = dumps_with quote fr j"

fun sort_keys :: "json \<Rightarrow> json" where
  "sort_keys (JList xs) = JList (map sort_keys xs)"
| "sort_keys (JObj kvs) = JObj (sort_key fst (map (\<lambda>(k, v). (k, sort_keys v)) kvs))"
| "sort_keys j = j"

definition canonical_bytes :: "(rat \<Rightarrow> str) \<Rightarrow> json \<Rightarrow> str" where
  "canonical_bytes float_repr obj = dumps float_repr (sort_keys obj)"

definition sha256_hex :: "(str \<Rightarrow> str) \<Rightarrow> (rat \<Rightarrow> str) \<Rightarrow> json \<Rightarrow> str" where
  "sha256_hex sha256 float_repr obj = sha256 (canonical_bytes float_repr obj)"

section \<open>The default encoding, for the size limit\<close>

fun code_points :: "str \<Rightarrow> nat list" where
  "code_points [] = []"
| "code_points (a # s) =
     (let n = code_of a; cont = (\<lambda>c. code_of c mod 64) in
      if n < 128 then n # code_points s
      else case s of
        [] \<Rightarrow> [n]
      | b # s1 \<Rightarrow>
          if n < 224 then ((n - 192) * 64 + cont b) # code_points s1
          else case s1 of
            [] \<Rightarrow> [n]
          | c # s2 \<Rightarrow>
              if n < 240 then ((n - 224) * 4096 + cont b * 64 + cont c) # code_points s2
              else case s2 of
                [] \<Rightarrow> [n]
              | d # s3 \<Rightarrow> ((n - 240) * 262144 + cont b * 4096 + cont c * 64 + cont d) # code_points s3)"

definition u_escape :: "nat \<Rightarrow> str" where
  "u_escape n = [CHR 0x5C, CHR ''u'', hex_digit (n div 4096 mod 16), hex_digit (n div 256 mod 16),
                 hex_digit (n div 16 mod 16), hex_digit (n mod 16)]"

definition esc_code_point :: "nat \<Rightarrow> str" where
  "esc_code_point n =
     (if n < 127 then esc_char (char_of n)
      else if n < 65536 then u_escape n
      else u_escape (55296 + (n - 65536) div 1024) @ u_escape (56320 + (n - 65536) mod 1024))"

definition quote_ascii :: "str \<Rightarrow> str" where
  "quote_ascii s = CHR 0x22 # concat (map esc_code_point (code_points s)) @ [CHR 0x22]"

definition dumps_ascii :: "(rat \<Rightarrow> str) \<Rightarrow> json \<Rightarrow> str" where
  "dumps_ascii fr j = dumps_with quote_ascii fr j"

section \<open>Reading strings back\<close>

fun unesc :: "str \<Rightarrow> (str \<times> str) option" where
  "unesc [] = None"
| "unesc (c # s) =
     (if c = CHR 0x22 then Some ([], s)
      else if c = CHR 0x5C then
        (case s of
          [] \<Rightarrow> None
        | e # t \<Rightarrow>
            if e = CHR ''u'' then
              (case t of a # b # h # l # r \<Rightarrow>
                 (case (hex_value h, hex_value l) of
                   (Some x, Some y) \<Rightarrow> map_option (map_prod (Cons (char_of (16 * x + y))) id) (unesc r)
                 | _ \<Rightarrow> None)
               | _ \<Rightarrow> None)
            else map_option (map_prod (Cons
                   (if e = CHR ''n'' then CHR 0x0A else if e = CHR ''r'' then CHR 0x0D
                    else if e = CHR ''t'' then CHR 0x09 else if e = CHR ''b'' then CHR 0x08
                    else if e = CHR ''f'' then CHR 0x0C else e)) id) (unesc t))
      else map_option (map_prod (Cons c) id) (unesc s))"

lemma code_of_eq_iff: "n < 256 \<Longrightarrow> code_of c = n \<longleftrightarrow> c = char_of n"
  by (metis char_of_char code_char_small)

lemma char_consts:
  "char_of (34::nat) = CHR 0x22" "char_of (92::nat) = CHR 0x5C" "char_of (10::nat) = CHR 0x0A"
  "char_of (13::nat) = CHR 0x0D" "char_of (9::nat) = CHR 0x09" "char_of (8::nat) = CHR 0x08"
  "char_of (12::nat) = CHR 0x0C"
  by code_simp+

lemma unesc_esc_char: "unesc (esc_char c @ s) = map_option (map_prod (Cons c) id) (unesc s)"
proof -
  consider "code_of c \<in> {34, 92, 10, 13, 9, 8, 12}"
    | "code_of c \<notin> {34, 92, 10, 13, 9, 8, 12}" "code_of c < 32"
    | "code_of c \<notin> {34, 92}" "32 \<le> code_of c"
    by fastforce
  then show ?thesis
  proof cases
    case 1
    then show ?thesis by (auto simp: esc_char_def code_of_eq_iff char_consts)
  next
    case 2
    moreover have "16 * (code_of c div 16) + code_of c mod 16 = code_of c" by simp
    moreover have "char_of (code_of c) = c" by simp
    moreover have "code_of c div 16 < 16" using 2 by simp
    ultimately show ?thesis by (simp add: esc_char_def Let_def)
  next
    case 3
    then have "c \<noteq> CHR 0x22" "c \<noteq> CHR 0x5C" by auto
    with 3 show ?thesis by (simp add: esc_char_def)
  qed
qed

lemma unesc_quote: "unesc (concat (map esc_char s) @ CHR 0x22 # r) = Some (s, r)"
  by (induction s) (simp_all add: unesc_esc_char del: unesc.simps(2), simp)

lemma quote_inj_append: "quote s @ r = quote s' @ r' \<Longrightarrow> s = s' \<and> r = r'"
proof -
  assume "quote s @ r = quote s' @ r'"
  then have "unesc (concat (map esc_char s) @ CHR 0x22 # r) = unesc (concat (map esc_char s') @ CHR 0x22 # r')"
    by (simp add: quote_def)
  then show ?thesis by (simp add: unesc_quote)
qed

lemma join_quote_inj:
  "length xs = length ys \<Longrightarrow>
   join '','' (map quote xs) @ r = join '','' (map quote ys) @ r' \<Longrightarrow> xs = ys \<and> r = r'"
proof (induction xs ys arbitrary: r r' rule: list_induct2)
  case (Cons x xs y ys)
  then show ?case
  proof (cases xs)
    case Nil
    with Cons show ?thesis by (auto dest: quote_inj_append)
  next
    case (Cons x' xs')
    with Cons.hyps obtain y' ys' where ys: "ys = y' # ys'" by (cases ys) auto
    let ?t = "join '','' (map quote xs)" and ?u = "join '','' (map quote ys)"
    from Cons.prems Cons ys have "quote x @ (CHR '','' # ?t @ r) = quote y @ (CHR '','' # ?u @ r')"
      by simp
    from quote_inj_append [OF this] have "x = y" "?t @ r = ?u @ r'" by auto
    with Cons.IH show ?thesis by simp
  qed
qed simp

text \<open>Equal encodings of string lists of one length come from equal lists.\<close>

lemma canonical_strings_inj:
  assumes "length xs = length ys"
    and "canonical_bytes fr (JList (map JStr xs)) = canonical_bytes fr (JList (map JStr ys))"
  shows "xs = ys"
proof -
  have q: "map (dumps_with quote fr) (map sort_keys (map JStr zs)) = map quote zs" for zs
    by simp
  from assms(2) have "join '','' (map quote xs) @ '']'' = join '','' (map quote ys) @ '']''"
    unfolding canonical_bytes_def dumps_def sort_keys.simps dumps_with.simps q by simp
  from join_quote_inj [OF assms(1) this] show ?thesis by simp
qed

end
