(* ===== verification/Contracts.thy ===== *)
theory Contracts imports Hashing begin

text \<open>
  \<open>src/contracts/models.py\<close>: the records exchanged between the components, field by field and with
  the models' defaults, and the validation of the literal types. A record's fields carry a short
  prefix because Isabelle's field names share one name space. Floats of these records are finite
  binary64 values, kept as the exact rational they denote; wall-clock stamps are \<open>time\<close>.

  \<open>primitives\<close> collects what the program takes from outside the repository: SHA-256, the printing of
  floats and of time stamps, pydantic's serialisation of a manifest and of attestation claims'
  stamps, and the Ed25519 operations of the \<open>cryptography\<close> package. Nothing is assumed of them here;
  theorems that need a documented law name it as a hypothesis.
\<close>

record primitives =
  p_sha256 :: "str \<Rightarrow> str"                    \<comment> \<open>hex digest of bytes\<close>
  p_float_repr :: "rat \<Rightarrow> str"
  p_iso :: "time \<Rightarrow> str"                      \<comment> \<open>\<open>datetime.isoformat\<close>\<close>
  p_json_time :: "time \<Rightarrow> str"                \<comment> \<open>pydantic's JSON form of a stamp\<close>
  p_ed_public :: "str \<Rightarrow> str"                 \<comment> \<open>raw private key to raw public key\<close>
  p_ed_sign :: "str \<Rightarrow> str \<Rightarrow> str"            \<comment> \<open>private key, data\<close>
  p_ed_verify :: "str \<Rightarrow> str \<Rightarrow> str \<Rightarrow> bool"   \<comment> \<open>public key, signature, data\<close>

section \<open>Literal types\<close>

definition JobKind :: "str list" where
  "JobKind = [''ai.batch_infer'', ''eval'', ''data.transform'', ''render'', ''challenge'',
     ''fractal'', ''optimize'', ''ai.synth'', ''montecarlo'', ''hashcrack'',
     ''ai.infer'', ''ai.eval'', ''ai.graph'']"

definition LAUNCHABLE_KINDS :: "str list" where
  "LAUNCHABLE_KINDS = [''fractal'', ''optimize'', ''ai.batch_infer'', ''ai.synth'', ''data.transform'',
     ''montecarlo'', ''hashcrack'', ''ai.infer'', ''ai.eval'', ''ai.graph'']"

definition DataClassification :: "str list" where
  "DataClassification = [''public'', ''internal'', ''confidential'', ''restricted'']"

definition MeasurementDeviceClass :: "str list" where
  "MeasurementDeviceClass = [''laptop'', ''desktop'', ''devbox'', ''xbox'', ''unknown'']"

datatype job_state = Queued | Leased | Completed | Failed

datatype result_status = StCompleted | StFailed | StYielded

fun status_name :: "result_status \<Rightarrow> str" where
  "status_name StCompleted = ''completed''"
| "status_name StFailed = ''failed''"
| "status_name StYielded = ''yielded''"

section \<open>Devices\<close>

record device_attestation =
  at_worker_id :: str
  at_compliant :: bool
  at_managed :: bool
  at_sanctioned :: bool
  at_tee :: bool
  at_issued_at :: time
  at_expires_at :: "time option"
  at_signature :: str
  at_signer_pubkey :: str

record capability =
  cap_worker_id :: str
  cap_measurement_only :: bool
  cap_cpus :: int
  cap_ram_gb :: rat
  cap_free_ram_gb :: "rat option"
  cap_has_gpu :: bool
  cap_gpu_model :: "str option"
  cap_gpu_vram_gb :: "rat option"
  cap_accel :: "str list"
  cap_benchmarked_tops :: "rat option"
  cap_has_npu :: bool
  cap_npu_tops :: "rat option"
  cap_labels :: "str list"
  cap_attested_tier :: "str option"
  cap_attestation :: "device_attestation option"

text \<open>\<open>Capability(worker_id=w)\<close>: every other field at its default.\<close>

definition default_capability :: "str \<Rightarrow> capability" where
  "default_capability w =
     \<lparr>cap_worker_id = w, cap_measurement_only = False, cap_cpus = 1, cap_ram_gb = 1,
      cap_free_ram_gb = None, cap_has_gpu = False, cap_gpu_model = None, cap_gpu_vram_gb = None,
      cap_accel = [], cap_benchmarked_tops = None, cap_has_npu = False, cap_npu_tops = None,
      cap_labels = [], cap_attested_tier = None, cap_attestation = None\<rparr>"

section \<open>Jobs\<close>

record requires =
  rq_needs_gpu :: bool
  rq_min_vram_gb :: "rat option"
  rq_min_ram_gb :: "rat option"
  rq_accel :: "str list"
  rq_min_cpus :: int

definition default_requires :: requires where
  "default_requires = \<lparr>rq_needs_gpu = False, rq_min_vram_gb = None, rq_min_ram_gb = None,
     rq_accel = [], rq_min_cpus = 1\<rparr>"

record limits =
  lm_cpu_pct :: int
  lm_mem_gb :: rat
  lm_timeout_s :: int
  lm_network :: str

definition default_limits :: limits where
  "default_limits = \<lparr>lm_cpu_pct = 60, lm_mem_gb = 8, lm_timeout_s = 600, lm_network = ''none''\<rparr>"

record sandbox_policy =
  sb_type :: str
  sb_vgpu :: bool
  sb_mapped_ro :: "str list"

definition default_sandbox :: sandbox_policy where
  "default_sandbox = \<lparr>sb_type = ''docker'', sb_vgpu = False, sb_mapped_ro = [''in/'']\<rparr>"

record routing_provenance =
  pv_tenant_id :: str
  pv_region :: str

record job_manifest =
  mf_job_id :: str
  mf_kind :: str
  mf_code_ref :: str
  mf_code_sha256 :: str
  mf_input_sha256 :: str
  mf_requires :: requires
  mf_limits :: limits
  mf_sandbox :: sandbox_policy
  mf_data_classification :: str
  mf_provenance :: "routing_provenance option"
  mf_issued_at :: time
  mf_expires_at :: "time option"

record signed_manifest =
  sm_manifest :: job_manifest
  sm_signature :: str
  sm_public_key :: str

section \<open>Requests and responses\<close>

record register_response =
  rr_worker_token :: str
  rr_device_code :: "str option"
  rr_approved :: bool

record job_assignment =
  ja_signed_manifest :: signed_manifest
  ja_input :: dict

record heartbeat_request =
  hb_worker_id :: str
  hb_idle :: bool
  hb_cpu_pct :: rat
  hb_gpu_pct :: "rat option"
  hb_on_ac :: bool
  hb_free_ram_gb :: "rat option"
  hb_current_job_id :: "str option"

record heartbeat_response =
  hr_ack :: bool
  hr_preempt :: bool
  hr_approved :: bool

record result_request =
  rs_worker_id :: str
  rs_job_id :: str
  rs_status :: result_status
  rs_output :: "dict option"
  rs_proof_sha256 :: "str option"
  rs_duration_s :: "rat option"
  rs_units :: int

record result_response =
  rp_accepted :: bool
  rp_credited :: rat
  rp_reason :: "str option"

record submit_request =
  sr_kind :: str
  sr_input :: dict
  sr_requires :: requires
  sr_limits :: limits
  sr_data_classification :: str
  sr_units :: int

text \<open>What pydantic checks of the literal fields before a handler sees the request.\<close>

definition valid_submit :: "submit_request \<Rightarrow> bool" where
  "valid_submit r \<longleftrightarrow> sr_kind r \<in> set JobKind \<and> sr_data_classification r \<in> set DataClassification"

record foundry_tenant =
  tn_tenant_id :: str
  tn_token :: str
  tn_max_classification :: str
  tn_allowed_regions :: "str list"

record foundry_routing_request =
  fr_tenant_id :: str
  fr_region :: str
  fr_kind :: str
  fr_input :: dict
  fr_requires :: "requires option"
  fr_units :: int
  fr_data_classification :: str

definition valid_foundry :: "foundry_routing_request \<Rightarrow> bool" where
  "valid_foundry r \<longleftrightarrow> fr_kind r \<in> set JobKind \<and> fr_data_classification r \<in> set DataClassification"

section \<open>Dashboard views\<close>

record worker_view =
  wv_worker_id :: str
  wv_idle :: bool
  wv_busy :: bool
  wv_has_gpu :: bool
  wv_cpu_pct :: rat
  wv_gpu_pct :: "rat option"
  wv_free_ram_gb :: "rat option"
  wv_blacklisted :: bool
  wv_credits :: rat
  wv_approved :: bool
  wv_device_code :: "str option"
  wv_trust_tier :: str

record job_view =
  jv_job_id :: str
  jv_kind :: str
  jv_state :: job_state
  jv_assigned_worker :: "str option"

record fleet_state =
  fs_workers :: "worker_view list"
  fs_jobs :: "job_view list"
  fs_total_credits :: rat

record job_detail =
  jd_job_id :: str
  jd_kind :: str
  jd_state :: job_state
  jd_assigned_worker :: "str option"
  jd_units :: int
  jd_workload_id :: "str option"
  jd_output :: "dict option"
  jd_created_at :: time
  jd_updated_at :: time

record workload_launch_response =
  wl_workload_id :: str
  wl_kind :: str
  wl_job_ids :: "str list"

section \<open>Errors of a handler\<close>

text \<open>
  A handler ends in a value, in an \<open>HTTPException\<close> with its status and detail, or in an exception
  it does not catch, which the server answers with status 500.
\<close>

datatype http_error = HTTPException nat str | Uncaught str

type_synonym 'a outcome = "http_error + 'a"

abbreviation Raise :: "nat \<Rightarrow> str \<Rightarrow> 'a outcome" where
  "Raise status detail \<equiv> Inl (HTTPException status detail)"

end
