(* ===== verification/Trust.thy ===== *)
theory Trust imports Contracts begin

text \<open>
  \<open>src/trust\<close>: manifest signing and verification (\<open>signing.py\<close>), device attestation
  (\<open>attestation.py\<close>), the integrity challenge (\<open>challenge.py\<close>) and metering (\<open>metering.py\<close>).
  Every \<open>try\<close> block that answers \<open>False\<close> on an exception is a total function here: a failed
  hexadecimal decoding is \<open>None\<close> and gives \<open>False\<close>. pydantic's rendering of a manifest as JSON text
  is the parameter \<open>mbytes\<close>.
\<close>

named_theorems trust_defs

section \<open>Signing\<close>

type_synonym manifest_bytes = "job_manifest \<Rightarrow> str"

record signer =
  sg_private :: str   \<comment> \<open>raw private key bytes\<close>

definition private_key_hex :: "signer \<Rightarrow> str" where
  "private_key_hex s = to_hex (sg_private s)"

definition public_key_hex :: "primitives \<Rightarrow> signer \<Rightarrow> str" where
  "public_key_hex P s = to_hex (p_ed_public P (sg_private s))"

text \<open>\<open>Signer(private_key_hex)\<close>; \<open>generated\<close> is the key a missing argument makes it draw. \<open>None\<close> is the
  \<open>ValueError\<close> of \<open>bytes.fromhex\<close>, or of \<open>from_private_bytes\<close> on a key that is not 32 bytes long.\<close>

definition make_signer :: "str option \<Rightarrow> str \<Rightarrow> signer option" where
  "make_signer key generated =
     (case key of None \<Rightarrow> Some \<lparr>sg_private = generated\<rparr>
      | Some h \<Rightarrow>
          (case fromhex h of
             None \<Rightarrow> None
           | Some b \<Rightarrow> (if length b = 32 then Some \<lparr>sg_private = b\<rparr> else None)))"

definition sign_bytes :: "primitives \<Rightarrow> signer \<Rightarrow> str \<Rightarrow> str" where
  "sign_bytes P s data = to_hex (p_ed_sign P (sg_private s) data)"

definition sign :: "primitives \<Rightarrow> manifest_bytes \<Rightarrow> signer \<Rightarrow> job_manifest \<Rightarrow> signed_manifest" where
  "sign P mbytes s m =
     \<lparr>sm_manifest = m, sm_signature = to_hex (p_ed_sign P (sg_private s) (mbytes m)),
      sm_public_key = public_key_hex P s\<rparr>"

text \<open>Decode the key and the signature, then verify: any failure is \<open>False\<close>.\<close>

definition ed_verify_hex :: "primitives \<Rightarrow> str \<Rightarrow> str \<Rightarrow> str \<Rightarrow> bool" where
  "ed_verify_hex P key_hex signature_hex data =
     (case fromhex key_hex of None \<Rightarrow> False
      | Some k \<Rightarrow> (case fromhex signature_hex of None \<Rightarrow> False
         | Some sig \<Rightarrow> p_ed_verify P k sig data))"

definition verify_signature :: "primitives \<Rightarrow> str \<Rightarrow> str \<Rightarrow> str \<Rightarrow> bool" where
  "verify_signature P signature_hex data pk_hex =
     (if signature_hex = [] \<or> pk_hex = [] then False
      else ed_verify_hex P pk_hex signature_hex data)"

definition verify_manifest :: "primitives \<Rightarrow> manifest_bytes \<Rightarrow> signed_manifest \<Rightarrow> str option \<Rightarrow> bool" where
  "verify_manifest P mbytes sm trusted =
     (if sm_signature sm = [] then False
      else case trusted of
        None \<Rightarrow> ed_verify_hex P (sm_public_key sm) (sm_signature sm) (mbytes (sm_manifest sm))
      | Some t \<Rightarrow>
          (if sm_public_key sm = [] \<or> lower (strip (sm_public_key sm)) \<noteq> lower (strip t) then False
           else ed_verify_hex P t (sm_signature sm) (mbytes (sm_manifest sm))))"

text \<open>The documented law of the Ed25519 package: what a key signs, its public key verifies.\<close>

definition ed25519_correct :: "primitives \<Rightarrow> bool" where
  "ed25519_correct P \<longleftrightarrow> (\<forall>sk m. p_ed_verify P (p_ed_public P sk) (p_ed_sign P sk m) m)"

definition ed25519_nonempty :: "primitives \<Rightarrow> bool" where
  "ed25519_nonempty P \<longleftrightarrow> (\<forall>sk m. p_ed_sign P sk m \<noteq> [] \<and> p_ed_public P sk \<noteq> [])"

lemma to_hex_empty_iff [simp]: "to_hex b = [] \<longleftrightarrow> b = []"
  by (cases b) (auto simp: to_hex_def hex_byte_def)

lemma ed_verify_hex_to_hex [simp]:
  "ed_verify_hex P (to_hex k) (to_hex sig) data = p_ed_verify P k sig data"
  by (simp add: ed_verify_hex_def)

section \<open>Device attestation\<close>

definition TIER_UNTRUSTED :: str where "TIER_UNTRUSTED = ''untrusted''"
definition TIER_MANAGED :: str where "TIER_MANAGED = ''managed''"
definition TIER_SANCTIONED :: str where "TIER_SANCTIONED = ''sanctioned''"
definition TIER_CONFIDENTIAL_COMPUTE :: str where "TIER_CONFIDENTIAL_COMPUTE = ''confidential_compute''"

lemmas tier_consts [trust_defs] =
  TIER_UNTRUSTED_def TIER_MANAGED_def TIER_SANCTIONED_def TIER_CONFIDENTIAL_COMPUTE_def

definition attestation_claims :: "primitives \<Rightarrow> device_attestation \<Rightarrow> dict" where
  "attestation_claims P att =
     [(''worker_id'', JStr (at_worker_id att)),
      (''compliant'', JBool (at_compliant att)),
      (''managed'', JBool (at_managed att)),
      (''sanctioned'', JBool (at_sanctioned att)),
      (''tee'', JBool (at_tee att)),
      (''issued_at'', JStr (p_json_time P (at_issued_at att))),
      (''expires_at'', (case at_expires_at att of None \<Rightarrow> JNull | Some t \<Rightarrow> JStr (p_json_time P t)))]"

definition canonical_claims_bytes :: "primitives \<Rightarrow> device_attestation \<Rightarrow> str" where
  "canonical_claims_bytes P att = canonical_bytes (p_float_repr P) (JObj (attestation_claims P att))"

definition verify_attestation ::
  "primitives \<Rightarrow> device_attestation \<Rightarrow> str option \<Rightarrow> str \<Rightarrow> time \<Rightarrow> bool" where
  "verify_attestation P att authority worker_id now =
     (case authority of
        None \<Rightarrow> False
      | Some key \<Rightarrow>
          (if key = [] then False
           else if at_signature att = [] then False
           else if at_worker_id att \<noteq> worker_id then False
           else if (case at_expires_at att of None \<Rightarrow> False | Some t \<Rightarrow> t \<le> now) then False
           else verify_signature P (at_signature att) (canonical_claims_bytes P att) key))"

definition derive_tier :: "device_attestation \<Rightarrow> str" where
  "derive_tier att =
     (if at_tee att then TIER_CONFIDENTIAL_COMPUTE
      else if at_managed att \<and> at_compliant att \<and> at_sanctioned att then TIER_SANCTIONED
      else if at_managed att \<and> at_compliant att then TIER_MANAGED
      else TIER_UNTRUSTED)"

definition sign_attestation :: "primitives \<Rightarrow> device_attestation \<Rightarrow> signer \<Rightarrow> device_attestation" where
  "sign_attestation P claims authority =
     claims\<lparr>at_signature := sign_bytes P authority (canonical_claims_bytes P claims),
            at_signer_pubkey := public_key_hex P authority\<rparr>"

text \<open>The bytes that are signed do not depend on the signature or on the advisory key.\<close>

lemma claims_ignore_signature [simp]:
  "canonical_claims_bytes P (att\<lparr>at_signature := s, at_signer_pubkey := k\<rparr>) = canonical_claims_bytes P att"
  by (simp add: canonical_claims_bytes_def attestation_claims_def)

lemma verify_attestation_iff:
  "verify_attestation P att authority w now \<longleftrightarrow>
     (\<exists>key. authority = Some key \<and> key \<noteq> [] \<and> at_signature att \<noteq> [] \<and> at_worker_id att = w
        \<and> (\<forall>t. at_expires_at att = Some t \<longrightarrow> now < t)
        \<and> ed_verify_hex P key (at_signature att) (canonical_claims_bytes P att))"
  by (auto simp: verify_attestation_def verify_signature_def split: option.splits)

section \<open>Integrity challenges\<close>

definition exact_int :: "json \<Rightarrow> bool" where
  "exact_int j = (case j of JInt _ \<Rightarrow> True | _ \<Rightarrow> False)"

definition make_challenge :: "int \<Rightarrow> dict \<times> dict" where
  "make_challenge r = (let x = r + 2 in ([(''x'', JInt x)], [(''y'', JInt (x * x + 1))]))"

definition check_challenge :: "dict \<Rightarrow> dict \<Rightarrow> bool" where
  "check_challenge output expected =
     (case (dict_get output ''y'', dict_get expected ''y'') of
        (Some a, Some e) \<Rightarrow> exact_int a \<and> exact_int e \<and> a = e
      | _ \<Rightarrow> False)"

lemma check_challenge_expected:
  "check_challenge output [(''y'', JInt y)] \<longleftrightarrow> dict_get output ''y'' = Some (JInt y)"
  by (auto simp: check_challenge_def dict_get_def exact_int_def split: option.splits json.splits)

definition credits :: "int \<Rightarrow> rat \<Rightarrow> rat" where
  "credits accepted_units class_weight = fmul (of_int accepted_units) class_weight"

end
