(* ===== verification/Routing_Policy.thy ===== *)
theory Routing_Policy imports Trust begin

text \<open>
  \<open>src/orchestrator/routing_policy.py\<close>: the two ladders (device trust tiers, data classifications),
  the minimum tier of each classification, and the fail-closed decisions taken from them. The locale
  \<open>ladder\<close> is the interface both ladders share: rank is position, and nothing off the ladder is
  ever cleared.
\<close>

fun index_of :: "'a \<Rightarrow> 'a list \<Rightarrow> nat" where
  "index_of x [] = 0"
| "index_of x (y # ys) = (if x = y then 0 else Suc (index_of x ys))"

lemma index_of_less: "x \<in> set xs \<Longrightarrow> index_of x xs < length xs"
  by (induction xs) auto

lemma index_of_inj: "x \<in> set xs \<Longrightarrow> index_of x xs = index_of y xs \<Longrightarrow> x = y"
  by (induction xs) (auto split: if_splits)

locale ladder =
  fixes rungs :: "'a list"
  assumes rungs_distinct: "distinct rungs"
begin

definition at_most :: "'a \<Rightarrow> 'a \<Rightarrow> bool" where
  "at_most x y \<longleftrightarrow> x \<in> set rungs \<and> y \<in> set rungs \<and> index_of x rungs \<le> index_of y rungs"

lemma at_most_refl: "x \<in> set rungs \<Longrightarrow> at_most x x"
  by (simp add: at_most_def)

lemma at_most_trans: "at_most x y \<Longrightarrow> at_most y z \<Longrightarrow> at_most x z"
  by (auto simp: at_most_def)

lemma at_most_antisym: "at_most x y \<Longrightarrow> at_most y x \<Longrightarrow> x = y"
  by (auto simp: at_most_def dest: index_of_inj)

lemma at_most_total: "x \<in> set rungs \<Longrightarrow> y \<in> set rungs \<Longrightarrow> at_most x y \<or> at_most y x"
  by (auto simp: at_most_def)

lemma at_most_closed: "at_most x y \<Longrightarrow> x \<in> set rungs \<and> y \<in> set rungs"
  by (simp add: at_most_def)

end

section \<open>The ladders\<close>

definition TIERS :: "str list" where
  "TIERS = [''untrusted'', ''managed'', ''sanctioned'', ''confidential_compute'']"

definition CLASSIFICATIONS :: "str list" where
  "CLASSIFICATIONS = [''public'', ''internal'', ''confidential'', ''restricted'']"

definition DEFAULT_TRUST_TIER :: str where
  "DEFAULT_TRUST_TIER = ''untrusted''"

definition DEFAULT_CLASSIFICATION :: str where
  "DEFAULT_CLASSIFICATION = ''internal''"

definition MIN_TIER_FOR_CLASSIFICATION :: "(str \<times> str) list" where
  "MIN_TIER_FOR_CLASSIFICATION =
     [(''public'', ''untrusted''), (''internal'', ''managed''),
      (''confidential'', ''sanctioned''), (''restricted'', ''confidential_compute'')]"

interpretation tiers: ladder TIERS
  by unfold_locales (simp add: TIERS_def)

interpretation classes: ladder CLASSIFICATIONS
  by unfold_locales (simp add: CLASSIFICATIONS_def)

definition is_valid_tier :: "str \<Rightarrow> bool" where
  "is_valid_tier trust_tier \<longleftrightarrow> trust_tier \<in> set TIERS"

definition is_valid_classification :: "str \<Rightarrow> bool" where
  "is_valid_classification c \<longleftrightarrow> c \<in> set CLASSIFICATIONS"

definition required_tier_for :: "str \<Rightarrow> str option" where
  "required_tier_for c = map_of MIN_TIER_FOR_CLASSIFICATION c"

definition classification_cleared :: "str \<Rightarrow> str \<Rightarrow> bool" where
  "classification_cleared requested bound =
     (if requested \<notin> set CLASSIFICATIONS \<or> bound \<notin> set CLASSIFICATIONS then False
      else index_of requested CLASSIFICATIONS \<le> index_of bound CLASSIFICATIONS)"

definition may_route :: "str \<Rightarrow> str \<Rightarrow> bool" where
  "may_route c trust_tier =
     (case map_of MIN_TIER_FOR_CLASSIFICATION c of
        None \<Rightarrow> False
      | Some required \<Rightarrow>
          if trust_tier \<notin> set TIERS then False
          else index_of required TIERS \<le> index_of trust_tier TIERS)"

section \<open>Decisions as orders\<close>

lemma classification_cleared_iff: "classification_cleared c d \<longleftrightarrow> classes.at_most c d"
  by (auto simp: classification_cleared_def classes.at_most_def)

lemma required_tier_valid: "required_tier_for c = Some t \<Longrightarrow> t \<in> set TIERS"
  by (auto simp: required_tier_for_def MIN_TIER_FOR_CLASSIFICATION_def TIERS_def split: if_splits)

lemma may_route_iff: "may_route c t \<longleftrightarrow> (\<exists>r. required_tier_for c = Some r \<and> tiers.at_most r t)"
  using required_tier_valid [of c]
  by (auto simp: may_route_def required_tier_for_def tiers.at_most_def split: option.splits)

lemma required_tier_total: "c \<in> set CLASSIFICATIONS \<longleftrightarrow> required_tier_for c \<noteq> None"
  by (auto simp: required_tier_for_def MIN_TIER_FOR_CLASSIFICATION_def CLASSIFICATIONS_def)

lemma may_route_fail_closed: "may_route c t \<Longrightarrow> c \<in> set CLASSIFICATIONS \<and> t \<in> set TIERS"
  by (auto simp: may_route_iff required_tier_total dest: tiers.at_most_closed)

text \<open>The two ladders run in step: the tier a classification requires has its own rank.\<close>

lemma required_tier_rank:
  assumes "c \<in> set CLASSIFICATIONS"
  obtains r where "required_tier_for c = Some r" "r \<in> set TIERS"
    "index_of r TIERS = index_of c CLASSIFICATIONS"
proof -
  have "list_all (\<lambda>c. case required_tier_for c of None \<Rightarrow> False
      | Some r \<Rightarrow> List.member TIERS r \<and> index_of r TIERS = index_of c CLASSIFICATIONS) CLASSIFICATIONS"
    by code_simp
  with assms that show thesis by (auto simp: list_all_iff split: option.splits)
qed

lemma required_tier_mono:
  assumes "classes.at_most c d" "required_tier_for d = Some t"
  shows "\<exists>s. required_tier_for c = Some s \<and> tiers.at_most s t"
proof -
  from assms(1) have c: "c \<in> set CLASSIFICATIONS" and d: "d \<in> set CLASSIFICATIONS"
    and le: "index_of c CLASSIFICATIONS \<le> index_of d CLASSIFICATIONS"
    by (auto simp: classes.at_most_def)
  obtain s where s: "required_tier_for c = Some s" "s \<in> set TIERS"
    "index_of s TIERS = index_of c CLASSIFICATIONS" using c by (rule required_tier_rank)
  obtain t' where "required_tier_for d = Some t'" "t' \<in> set TIERS"
    "index_of t' TIERS = index_of d CLASSIFICATIONS" using d by (rule required_tier_rank)
  with s le assms(2) show ?thesis by (auto simp: tiers.at_most_def)
qed

lemma may_route_tier_mono: "may_route c t \<Longrightarrow> tiers.at_most t u \<Longrightarrow> may_route c u"
  by (auto simp: may_route_iff intro: tiers.at_most_trans)

lemma may_route_class_mono: "may_route d t \<Longrightarrow> classes.at_most c d \<Longrightarrow> may_route c t"
  by (auto simp: may_route_iff dest!: required_tier_mono intro: tiers.at_most_trans)

lemma may_route_default: "may_route c DEFAULT_TRUST_TIER \<longleftrightarrow> c = ''public''"
  by (auto simp: may_route_def DEFAULT_TRUST_TIER_def MIN_TIER_FOR_CLASSIFICATION_def TIERS_def)

lemma derive_tier_valid: "derive_tier att \<in> set TIERS"
  by (simp add: derive_tier_def TIERS_def trust_defs)

end
