(* ===== verification/Store.thy ===== *)
theory Store imports Routing_Policy begin

text \<open>
  The orchestrator's SQLite state (\<open>src/contracts/schema.sql\<close>, opened by \<open>src/orchestrator/db.py\<close>):
  one record per table row, one list per table in row order, and the counters of the two
  \<open>AUTOINCREMENT\<close> keys. A JSON text column holds the value its text parses back to, a \<open>0/1\<close> column
  is a \<open>bool\<close>, a nullable column an \<open>option\<close>. Rows are read and written only through the
  statements of \<open>Prelude\<close>; the keyed tables interpret its locale.

  The connection runs one statement at a time and every handler does its writes inside one
  \<open>write_lock\<close> section, so a section is one function from state to state.
\<close>

record worker =
  wk_worker_id :: str
  wk_token :: str
  wk_capability :: capability
  wk_class_weight :: rat
  wk_free_ram_gb :: "rat option"
  wk_idle :: bool
  wk_cpu_pct :: "rat option"
  wk_gpu_pct :: "rat option"
  wk_on_ac :: bool
  wk_blacklisted :: bool
  wk_approved :: bool
  wk_trust_tier :: str
  wk_tier_pinned :: bool
  wk_device_code :: "str option"
  wk_last_heartbeat :: "time option"
  wk_registered_at :: time
  wk_cert_fingerprint :: "str option"

record job =
  jb_job_id :: str
  jb_kind :: str
  jb_manifest :: job_manifest
  jb_input :: dict
  jb_state :: job_state
  jb_units :: int
  jb_workload_id :: "str option"
  jb_assigned_worker :: "str option"
  jb_lease_expires :: "time option"
  jb_result :: "dict option"
  jb_attempts :: int
  jb_created_at :: time
  jb_updated_at :: time

record ledger_entry =
  lg_id :: nat
  lg_worker_id :: str
  lg_job_id :: "str option"
  lg_credits :: rat
  lg_reason :: "str option"
  lg_created_at :: time

record event =
  ev_id :: nat
  ev_ts :: str
  ev_type :: str
  ev_worker_id :: "str option"
  ev_job_id :: "str option"
  ev_detail :: "str option"
  ev_prev_hash :: "str option"
  ev_hash :: "str option"

text \<open>The compact measurement summary kept per worker, as the handler stores it.\<close>

record metric =
  mt_avg :: rat
  mt_peak :: rat
  mt_recoverable_low :: rat
  mt_recoverable_high :: rat

record profile_availability =
  pa_span_hours :: rat
  pa_observed_hours_per_day :: rat
  pa_unavailable_hours_per_day :: rat
  pa_sample_count :: int

record compact_profile =
  cp_device_class :: str
  cp_coverage_buckets :: int
  cp_cpu :: metric
  cp_gpu :: metric
  cp_gpu_sampled :: bool
  cp_ram_avg :: rat
  cp_ram_headroom :: rat
  cp_ac_avg :: rat
  cp_availability :: profile_availability

record profile_row =
  pf_worker_id :: str
  pf_profile :: compact_profile
  pf_coverage :: int
  pf_updated_at :: time

record db =
  db_workers :: "worker list"
  db_jobs :: "job list"
  db_ledger :: "ledger_entry list"
  db_ledger_seq :: nat
  db_events :: "event list"
  db_event_seq :: nat
  db_profiles :: "profile_row list"

definition init_db :: db where
  "init_db = \<lparr>db_workers = [], db_jobs = [], db_ledger = [], db_ledger_seq = 0,
              db_events = [], db_event_seq = 0, db_profiles = []\<rparr>"

interpretation wt: keyed_table wk_worker_id .
interpretation jt: keyed_table jb_job_id .
interpretation pt: keyed_table pf_worker_id .

section \<open>Statements the handlers share\<close>

definition find_worker :: "str \<Rightarrow> db \<Rightarrow> worker option" where
  "find_worker w s = fetchone (select_where (\<lambda>r. wk_worker_id r = w) (db_workers s))"

definition find_job :: "str \<Rightarrow> db \<Rightarrow> job option" where
  "find_job j s = fetchone (select_where (\<lambda>r. jb_job_id r = j) (db_jobs s))"

definition update_worker :: "str \<Rightarrow> (worker \<Rightarrow> worker) \<Rightarrow> db \<Rightarrow> db" where
  "update_worker w f s = s\<lparr>db_workers := update_where (\<lambda>r. wk_worker_id r = w) f (db_workers s)\<rparr>"

definition update_jobs :: "(job \<Rightarrow> bool) \<Rightarrow> (job \<Rightarrow> job) \<Rightarrow> db \<Rightarrow> db" where
  "update_jobs P f s = s\<lparr>db_jobs := update_where P f (db_jobs s)\<rparr>"

text \<open>The \<open>SET\<close> clause by which a lease is given up, everywhere the code gives one up.\<close>

definition requeued :: "time \<Rightarrow> job \<Rightarrow> job" where
  "requeued now j = j\<lparr>jb_state := Queued, jb_assigned_worker := None, jb_lease_expires := None,
                      jb_updated_at := now\<rparr>"

text \<open>\<open>UPDATE jobs .. WHERE job_id = ? AND state = 'leased' AND assigned_worker = ?\<close>\<close>

definition held_by :: "str \<Rightarrow> str \<Rightarrow> job \<Rightarrow> bool" where
  "held_by j w r \<longleftrightarrow> jb_job_id r = j \<and> jb_state r = Leased \<and> jb_assigned_worker r = Some w"

definition requeue_job :: "str \<Rightarrow> str \<Rightarrow> time \<Rightarrow> db \<Rightarrow> db" where
  "requeue_job j w now s = update_jobs (held_by j w) (requeued now) s"

definition holds_lease :: "str \<Rightarrow> job \<Rightarrow> bool" where
  "holds_lease w r \<longleftrightarrow> jb_assigned_worker r = Some w \<and> jb_state r = Leased"

definition worker_busy :: "str \<Rightarrow> db \<Rightarrow> bool" where
  "worker_busy w s \<longleftrightarrow> (\<exists>r \<in> set (db_jobs s). holds_lease w r)"

text \<open>\<open>INSERT INTO worker_profiles .. ON CONFLICT(worker_id) DO UPDATE\<close>\<close>

definition upsert_profile :: "profile_row \<Rightarrow> db \<Rightarrow> db" where
  "upsert_profile p s =
     (if list_ex (\<lambda>q. pf_worker_id q = pf_worker_id p) (db_profiles s)
      then s\<lparr>db_profiles := update_where (\<lambda>q. pf_worker_id q = pf_worker_id p) (\<lambda>_. p) (db_profiles s)\<rparr>
      else s\<lparr>db_profiles := db_profiles s @ [p]\<rparr>)"

lemma worker_busy_code [code]: "worker_busy w s = list_ex (holds_lease w) (db_jobs s)"
  by (simp add: worker_busy_def list_ex_iff)

section \<open>What the statements leave unchanged\<close>

lemma find_worker_lookup: "find_worker w s = wt.lookup w (db_workers s)"
  by (simp add: find_worker_def wt.lookup_def)

lemma find_job_lookup: "find_job j s = jt.lookup j (db_jobs s)"
  by (simp add: find_job_def jt.lookup_def)

lemma find_worker_Some: "find_worker w s = Some r \<Longrightarrow> r \<in> set (db_workers s) \<and> wk_worker_id r = w"
  by (simp add: find_worker_lookup wt.lookup_Some_in)

lemma find_job_Some: "find_job j s = Some r \<Longrightarrow> r \<in> set (db_jobs s) \<and> jb_job_id r = j"
  by (simp add: find_job_lookup jt.lookup_Some_in)

lemma update_worker_frame [simp, frame]:
  "db_jobs (update_worker w f s) = db_jobs s"
  "db_ledger (update_worker w f s) = db_ledger s"
  "db_ledger_seq (update_worker w f s) = db_ledger_seq s"
  "db_events (update_worker w f s) = db_events s"
  "db_event_seq (update_worker w f s) = db_event_seq s"
  "db_profiles (update_worker w f s) = db_profiles s"
  "db_workers (update_worker w f s) = update_where (\<lambda>r. wk_worker_id r = w) f (db_workers s)"
  by (simp_all add: update_worker_def)

lemma update_jobs_frame [simp, frame]:
  "db_workers (update_jobs P g s) = db_workers s"
  "db_ledger (update_jobs P g s) = db_ledger s"
  "db_ledger_seq (update_jobs P g s) = db_ledger_seq s"
  "db_events (update_jobs P g s) = db_events s"
  "db_event_seq (update_jobs P g s) = db_event_seq s"
  "db_profiles (update_jobs P g s) = db_profiles s"
  "db_jobs (update_jobs P g s) = update_where P g (db_jobs s)"
  by (simp_all add: update_jobs_def)

lemma requeue_job_frame [simp, frame]:
  "db_workers (requeue_job j w now s) = db_workers s"
  "db_ledger (requeue_job j w now s) = db_ledger s"
  "db_ledger_seq (requeue_job j w now s) = db_ledger_seq s"
  "db_events (requeue_job j w now s) = db_events s"
  "db_event_seq (requeue_job j w now s) = db_event_seq s"
  "db_profiles (requeue_job j w now s) = db_profiles s"
  "db_jobs (requeue_job j w now s) = update_where (held_by j w) (requeued now) (db_jobs s)"
  by (simp_all add: requeue_job_def)

lemma upsert_profile_frame [simp, frame]:
  "db_workers (upsert_profile p s) = db_workers s" "db_jobs (upsert_profile p s) = db_jobs s"
  "db_ledger (upsert_profile p s) = db_ledger s" "db_ledger_seq (upsert_profile p s) = db_ledger_seq s"
  "db_events (upsert_profile p s) = db_events s" "db_event_seq (upsert_profile p s) = db_event_seq s"
  by (simp_all add: upsert_profile_def)

lemma find_profile_upsert:
  "pt.lookup w (db_profiles (upsert_profile p s)) =
     (if w = pf_worker_id p then Some p else pt.lookup w (db_profiles s))"
proof (cases "pf_worker_id p \<in> pf_worker_id ` set (db_profiles s)")
  case True
  then have "list_ex (\<lambda>q. pf_worker_id q = pf_worker_id p) (db_profiles s)" by (force simp: list_ex_iff)
  with True show ?thesis by (simp add: upsert_profile_def pt.lookup_replace)
next
  case False
  then have "\<not> list_ex (\<lambda>q. pf_worker_id q = pf_worker_id p) (db_profiles s)" by (auto simp: list_ex_iff image_iff)
  with False show ?thesis
    by (auto simp: upsert_profile_def pt.lookup_append pt.lookup_None [symmetric] split: option.splits)
qed

lemma requeued_simps [simp]:
  "jb_job_id (requeued now j) = jb_job_id j"
  "jb_kind (requeued now j) = jb_kind j"
  "jb_manifest (requeued now j) = jb_manifest j"
  "jb_input (requeued now j) = jb_input j"
  "jb_state (requeued now j) = Queued"
  "jb_units (requeued now j) = jb_units j"
  "jb_workload_id (requeued now j) = jb_workload_id j"
  "jb_assigned_worker (requeued now j) = None"
  "jb_lease_expires (requeued now j) = None"
  "jb_result (requeued now j) = jb_result j"
  "jb_attempts (requeued now j) = jb_attempts j"
  "jb_created_at (requeued now j) = jb_created_at j"
  by (simp_all add: requeued_def)

lemma find_worker_update_worker:
  assumes "\<And>r. wk_worker_id (f r) = wk_worker_id r"
  shows "find_worker v (update_worker w f s) =
    map_option (\<lambda>r. if wk_worker_id r = w then f r else r) (find_worker v s)"
  by (simp add: find_worker_lookup wt.lookup_update assms)

lemma find_worker_cong: "db_workers s = db_workers s' \<Longrightarrow> find_worker w s = find_worker w s'"
  by (simp add: find_worker_def)

end
