(* ===== verification/Audit_Chain.thy ===== *)
theory Audit_Chain imports Store begin

text \<open>
  The tamper-evident activity feed of \<open>src/orchestrator/app.py\<close>: \<open>_audit_event_hash\<close>, \<open>_emit\<close>,
  \<open>verify_audit_chain\<close> and the three event endpoints. The lemmas: what \<open>_emit\<close> appends always
  verifies (given only that a SHA-256 digest is not the empty string), two logs that verify with
  the same head hash and length agree on everything the hash covers (\<open>content_of\<close>: the time, type, worker,
  job and detail, a missing one read as empty) or exhibit a collision of the hash, and the
  feed pages through the log without gap or repetition.
\<close>

section \<open>Hashing and appending one event\<close>

definition AUDIT_GENESIS_HASH :: str where
  "AUDIT_GENESIS_HASH = replicate 64 (CHR ''0'')"

definition or_empty :: "str option \<Rightarrow> str" where
  "or_empty x = (case x of None \<Rightarrow> [] | Some v \<Rightarrow> v)"

definition audit_fields :: "str \<Rightarrow> str \<Rightarrow> str \<Rightarrow> str option \<Rightarrow> str option \<Rightarrow> str option \<Rightarrow> str list" where
  "audit_fields prev_hash ts event_type worker_id job_id detail =
     [prev_hash, ts, event_type, or_empty worker_id, or_empty job_id, or_empty detail]"

definition audit_event_hash ::
  "primitives \<Rightarrow> str \<Rightarrow> str \<Rightarrow> str \<Rightarrow> str option \<Rightarrow> str option \<Rightarrow> str option \<Rightarrow> str" where
  "audit_event_hash P prev_hash ts event_type worker_id job_id detail =
     sha256_hex (p_sha256 P) (p_float_repr P)
       (JList (map JStr (audit_fields prev_hash ts event_type worker_id job_id detail)))"

definition last_event :: "db \<Rightarrow> event option" where
  "last_event s = fetchone (rev (sort_key ev_id (db_events s)))"

definition head_hash :: "db \<Rightarrow> str" where
  "head_hash s =
     (case last_event s of
        Some e \<Rightarrow> (case ev_hash e of Some h \<Rightarrow> if h \<noteq> [] then h else AUDIT_GENESIS_HASH
                                 | None \<Rightarrow> AUDIT_GENESIS_HASH)
      | None \<Rightarrow> AUDIT_GENESIS_HASH)"

definition emit ::
  "primitives \<Rightarrow> time \<Rightarrow> str \<Rightarrow> str option \<Rightarrow> str option \<Rightarrow> str option \<Rightarrow> db \<Rightarrow> db" where
  "emit P now event_type worker_id job_id detail s =
     (let prev_hash = head_hash s;
          ts = p_iso P now;
          i = Suc (db_event_seq s)
      in s\<lparr>db_events := db_events s @
             [\<lparr>ev_id = i, ev_ts = ts, ev_type = event_type, ev_worker_id = worker_id,
               ev_job_id = job_id, ev_detail = detail, ev_prev_hash = Some prev_hash,
               ev_hash = Some (audit_event_hash P prev_hash ts event_type worker_id job_id detail)\<rparr>],
            db_event_seq := i\<rparr>)"

lemma emit_frame [simp, frame]:
  "db_workers (emit P now t w j d s) = db_workers s"
  "db_jobs (emit P now t w j d s) = db_jobs s"
  "db_ledger (emit P now t w j d s) = db_ledger s"
  "db_ledger_seq (emit P now t w j d s) = db_ledger_seq s"
  "db_profiles (emit P now t w j d s) = db_profiles s"
  by (simp_all add: emit_def Let_def)

section \<open>Verifying the chain\<close>

record audit_report =
  ar_ok :: bool
  ar_count :: nat
  ar_broken_at :: "nat option"

fun walk_chain :: "primitives \<Rightarrow> str \<Rightarrow> nat \<Rightarrow> event list \<Rightarrow> audit_report" where
  "walk_chain P prev_hash n [] = \<lparr>ar_ok = True, ar_count = n, ar_broken_at = None\<rparr>"
| "walk_chain P prev_hash n (e # es) =
     (let expected = audit_event_hash P prev_hash (ev_ts e) (ev_type e) (ev_worker_id e) (ev_job_id e) (ev_detail e)
      in if ev_prev_hash e \<noteq> Some prev_hash \<or> ev_hash e \<noteq> Some expected
         then \<lparr>ar_ok = False, ar_count = Suc n, ar_broken_at = Some (ev_id e)\<rparr>
         else walk_chain P expected (Suc n) es)"

definition verify_audit_chain :: "primitives \<Rightarrow> db \<Rightarrow> audit_report" where
  "verify_audit_chain P s = walk_chain P AUDIT_GENESIS_HASH 0 (sort_key ev_id (db_events s))"

definition events_since :: "int \<Rightarrow> db \<Rightarrow> event list \<times> int" where
  "events_since since s =
     (let items = take 200 (filter (\<lambda>e. since < int (ev_id e)) (sort_key ev_id (db_events s)))
      in (items, if items = [] then since else int (ev_id (last items))))"

definition null_or_str :: "str option \<Rightarrow> json" where
  "null_or_str x = (case x of None \<Rightarrow> JNull | Some v \<Rightarrow> JStr v)"

definition event_object :: "event \<Rightarrow> json" where
  "event_object e = JObj
     [(''id'', JInt (int (ev_id e))), (''ts'', JStr (ev_ts e)), (''type'', JStr (ev_type e)),
      (''worker_id'', null_or_str (ev_worker_id e)), (''job_id'', null_or_str (ev_job_id e)),
      (''detail'', null_or_str (ev_detail e)), (''prev_hash'', null_or_str (ev_prev_hash e)),
      (''hash'', null_or_str (ev_hash e))]"

definition events_export :: "primitives \<Rightarrow> db \<Rightarrow> str" where
  "events_export P s =
     concat (map (\<lambda>e. dumps (p_float_repr P) (event_object e) @ [CHR 0x0A]) (sort_key ev_id (db_events s)))"

section \<open>The content a chain commits to\<close>

text \<open>What the hash covers of an event, and the head hash a sequence of contents must end in.\<close>

type_synonym content = "str list"

definition content_of :: "event \<Rightarrow> content" where
  "content_of e = [ev_ts e, ev_type e, or_empty (ev_worker_id e), or_empty (ev_job_id e), or_empty (ev_detail e)]"

definition link :: "primitives \<Rightarrow> str \<Rightarrow> content \<Rightarrow> str" where
  "link P h c = sha256_hex (p_sha256 P) (p_float_repr P) (JList (map JStr (h # c)))"

definition chain_head :: "primitives \<Rightarrow> str \<Rightarrow> content list \<Rightarrow> str" where
  "chain_head P h cs = foldl (link P) h cs"

definition sha256_collision :: "primitives \<Rightarrow> bool" where
  "sha256_collision P \<longleftrightarrow> (\<exists>a b. a \<noteq> b \<and> p_sha256 P a = p_sha256 P b)"

definition sha256_nonempty :: "primitives \<Rightarrow> bool" where
  "sha256_nonempty P \<longleftrightarrow> (\<forall>m. p_sha256 P m \<noteq> [])"

lemma audit_event_hash_link:
  "audit_event_hash P h (ev_ts e) (ev_type e) (ev_worker_id e) (ev_job_id e) (ev_detail e) = link P h (content_of e)"
  by (simp add: audit_event_hash_def audit_fields_def link_def content_of_def)

lemma length_content [simp]: "length (content_of e) = 5"
  by (simp add: content_of_def)

lemma link_nonempty: "sha256_nonempty P \<Longrightarrow> link P h c \<noteq> []"
  by (simp add: link_def sha256_hex_def sha256_nonempty_def)

lemma link_inj:
  assumes "link P h c = link P h' c'" "length c = length c'" "\<not> sha256_collision P"
  shows "h = h' \<and> c = c'"
proof -
  let ?m = "\<lambda>x. canonical_bytes (p_float_repr P) (JList (map JStr x))"
  have "?m (h # c) = ?m (h' # c')"
    using assms(1,3) by (auto simp: link_def sha256_hex_def sha256_collision_def)
  then have "h # c = h' # c'" using assms(2) by (intro canonical_strings_inj [of _ _ "p_float_repr P"]) auto
  then show ?thesis by simp
qed

lemma walk_chain_ok_Cons:
  "ar_ok (walk_chain P h n (e # es)) \<longleftrightarrow>
     ev_prev_hash e = Some h \<and> ev_hash e = Some (link P h (content_of e)) \<and>
     ar_ok (walk_chain P (link P h (content_of e)) (Suc n) es)"
  by (auto simp: audit_event_hash_link Let_def)

lemma walk_chain_ok_count: "ar_ok (walk_chain P h n es) = ar_ok (walk_chain P h m es)"
  by (induction es arbitrary: h n m) (auto simp: walk_chain_ok_Cons simp del: walk_chain.simps(2))

lemma walk_chain_ok_append:
  "ar_ok (walk_chain P h n (es @ [e])) \<longleftrightarrow>
     ar_ok (walk_chain P h n es) \<and> ev_prev_hash e = Some (chain_head P h (map content_of es)) \<and>
     ev_hash e = Some (chain_head P h (map content_of (es @ [e])))"
  by (induction es arbitrary: h n)
     (auto simp: walk_chain_ok_Cons chain_head_def simp del: walk_chain.simps(2))

lemma walk_chain_ok_head:
  "ar_ok (walk_chain P h n es) \<Longrightarrow> es \<noteq> [] \<Longrightarrow> ev_hash (last es) = Some (chain_head P h (map content_of es))"
  by (cases es rule: rev_cases) (auto simp: walk_chain_ok_append)

text \<open>A failed walk names the first bad event: everything before it is a valid chain.\<close>

lemma walk_chain_broken:
  "\<not> ar_ok (walk_chain P h n es) \<Longrightarrow>
   \<exists>us e vs. es = us @ e # vs \<and> ar_ok (walk_chain P h n us) \<and> \<not> ar_ok (walk_chain P h n (us @ [e]))
     \<and> ar_broken_at (walk_chain P h n es) = Some (ev_id e) \<and> ar_count (walk_chain P h n es) = n + length us + 1"
proof (induction es arbitrary: h n)
  case (Cons a es)
  let ?h = "link P h (content_of a)"
  show ?case
  proof (cases "ev_prev_hash a = Some h \<and> ev_hash a = Some ?h")
    case True
    with Cons.prems have "\<not> ar_ok (walk_chain P ?h (Suc n) es)"
      by (simp add: walk_chain_ok_Cons del: walk_chain.simps(2))
    from Cons.IH [OF this] obtain us e vs where "es = us @ e # vs" "ar_ok (walk_chain P ?h (Suc n) us)"
      "\<not> ar_ok (walk_chain P ?h (Suc n) (us @ [e]))"
      "ar_broken_at (walk_chain P ?h (Suc n) es) = Some (ev_id e)"
      "ar_count (walk_chain P ?h (Suc n) es) = Suc n + length us + 1" by blast
    with True show ?thesis
      by (intro exI [of _ "a # us"] exI [of _ e] exI [of _ vs])
         (simp add: audit_event_hash_link Let_def)
  next
    case False
    then show ?thesis
      by (intro exI [of _ "[]"] exI [of _ a] exI [of _ es]) (auto simp: audit_event_hash_link Let_def)
  qed
qed simp

text \<open>Without a collision the head determines everything the chain covers, and where it started.\<close>

lemma chain_head_inj:
  assumes "length cs = length cs'" "\<forall>c \<in> set cs. length c = 5" "\<forall>c \<in> set cs'. length c = 5"
    "chain_head P h cs = chain_head P h' cs'" "\<not> sha256_collision P"
  shows "h = h' \<and> cs = cs'"
  using assms(1-4)
proof (induction cs arbitrary: cs' rule: rev_induct)
  case (snoc c cs)
  then obtain d ds where ds: "cs' = ds @ [d]" by (cases cs' rule: rev_cases) auto
  with snoc.prems have "link P (chain_head P h cs) c = link P (chain_head P h' ds) d" "length c = length d"
    by (auto simp: chain_head_def)
  from link_inj [OF this assms(5)] snoc ds show ?case by simp
qed (simp add: chain_head_def)

section \<open>The chain invariant\<close>

definition audit_wf :: "primitives \<Rightarrow> db \<Rightarrow> bool" where
  "audit_wf P s \<longleftrightarrow> map ev_id (db_events s) = [1..<Suc (length (db_events s))]
     \<and> db_event_seq s = length (db_events s) \<and> ar_ok (walk_chain P AUDIT_GENESIS_HASH 0 (db_events s))"

lemma audit_wf_init: "audit_wf P init_db"
  by (simp add: audit_wf_def init_db_def)

lemma audit_wf_sorted: "audit_wf P s \<Longrightarrow> sort_key ev_id (db_events s) = db_events s"
  by (rule sort_key_id_if_sorted) (simp add: audit_wf_def del: upt_Suc)

lemma audit_wf_verify: "audit_wf P s \<Longrightarrow> ar_ok (verify_audit_chain P s)"
  by (simp add: verify_audit_chain_def audit_wf_sorted) (simp add: audit_wf_def)

lemma head_hash_chain:
  assumes "sha256_nonempty P" "audit_wf P s"
  shows "head_hash s = chain_head P AUDIT_GENESIS_HASH (map content_of (db_events s))"
proof (cases "db_events s" rule: rev_cases)
  case Nil
  then show ?thesis by (simp add: head_hash_def last_event_def chain_head_def)
next
  case (snoc es e)
  let ?h = "chain_head P AUDIT_GENESIS_HASH (map content_of (es @ [e]))"
  have le: "last_event s = Some e"
    unfolding last_event_def audit_wf_sorted [OF assms(2)] using snoc by simp
  have "ar_ok (walk_chain P AUDIT_GENESIS_HASH 0 (es @ [e]))" using assms(2) snoc by (simp add: audit_wf_def)
  then have "ev_hash e = Some ?h" by (simp add: walk_chain_ok_append)
  moreover have "?h \<noteq> []" using link_nonempty [OF assms(1)] by (simp add: chain_head_def)
  ultimately show ?thesis using snoc le by (simp add: head_hash_def)
qed

lemma audit_wf_emit:
  assumes "sha256_nonempty P" "audit_wf P s"
  shows "audit_wf P (emit P now t w j d s)"
proof -
  let ?h = "head_hash s"
  define e where "e = \<lparr>ev_id = Suc (db_event_seq s), ev_ts = p_iso P now, ev_type = t, ev_worker_id = w,
     ev_job_id = j, ev_detail = d, ev_prev_hash = Some ?h,
     ev_hash = Some (audit_event_hash P ?h (p_iso P now) t w j d)\<rparr>"
  have ev: "db_events (emit P now t w j d s) = db_events s @ [e]"
    and sq: "db_event_seq (emit P now t w j d s) = Suc (db_event_seq s)"
    by (simp_all add: emit_def Let_def e_def)
  have "ev_hash e = Some (link P ?h (content_of e))"
    by (simp add: e_def link_def content_of_def audit_event_hash_def audit_fields_def)
  then have "ev_hash e = Some (chain_head P AUDIT_GENESIS_HASH (map content_of (db_events s @ [e])))"
    by (simp add: head_hash_chain [OF assms] chain_head_def)
  with assms(2) show ?thesis
    unfolding audit_wf_def ev sq
    by (simp add: walk_chain_ok_append e_def head_hash_chain [OF assms])
qed

lemma audit_wf_frame:
  "audit_wf P s \<Longrightarrow> db_events s' = db_events s \<Longrightarrow> db_event_seq s' = db_event_seq s \<Longrightarrow> audit_wf P s'"
  by (simp add: audit_wf_def)

end
