(* ===== verification/Scheduler.thy ===== *)
theory Scheduler imports Store begin

text \<open>
  \<open>src/orchestrator/scheduler.py\<close> and the load-priority functions of \<open>app.py\<close>: which queued job a
  polling worker may take (\<open>capability_match\<close>, the classification gate, oldest first) and when it
  should leave a fresh job to a clearly less loaded peer (\<open>_defer_to_less_loaded\<close>).
  The lemmas characterise the picked job as the first eligible one of the queue order.
\<close>

section \<open>Matching a job to a device\<close>

definition capability_match :: "requires \<Rightarrow> capability \<Rightarrow> rat option \<Rightarrow> bool" where
  "capability_match r cap free_ram_gb =
     (if rq_needs_gpu r \<and> \<not> cap_has_gpu cap then False
      else if (case rq_min_vram_gb r of None \<Rightarrow> False
               | Some need \<Rightarrow> (case cap_gpu_vram_gb cap of None \<Rightarrow> 0 | Some v \<Rightarrow> v) < need) then False
      else if (case rq_min_ram_gb r of None \<Rightarrow> False
               | Some need \<Rightarrow> (case free_ram_gb of None \<Rightarrow> cap_ram_gb cap | Some v \<Rightarrow> v) < need) then False
      else if cap_cpus cap < rq_min_cpus r then False
      else if \<not> set (rq_accel r) \<subseteq> set (cap_accel cap) then False
      else True)"

definition class_weight_for :: "capability \<Rightarrow> rat" where
  "class_weight_for cap = (if cap_has_gpu cap then 5 else 1)"

section \<open>Picking a job\<close>

definition device_tier :: "str \<Rightarrow> db \<Rightarrow> str" where
  "device_tier w s =
     (case find_worker w s of
        Some row \<Rightarrow> if wk_trust_tier row \<noteq> [] then wk_trust_tier row else DEFAULT_TRUST_TIER
      | None \<Rightarrow> DEFAULT_TRUST_TIER)"

definition queue_key :: "job \<Rightarrow> time \<times> str" where
  "queue_key j = (jb_created_at j, jb_job_id j)"

definition queued_jobs :: "db \<Rightarrow> job list" where
  "queued_jobs s = sort_key queue_key (select_where (\<lambda>j. jb_state j = Queued) (db_jobs s))"

definition eligible :: "capability \<Rightarrow> rat option \<Rightarrow> str \<Rightarrow> job \<Rightarrow> bool" where
  "eligible cap free_ram_gb trust_tier j \<longleftrightarrow>
     capability_match (mf_requires (jb_manifest j)) cap free_ram_gb \<and>
     may_route (mf_data_classification (jb_manifest j)) trust_tier"

fun first_eligible :: "capability \<Rightarrow> rat option \<Rightarrow> str \<Rightarrow> job list \<Rightarrow> job option" where
  "first_eligible cap free_ram_gb trust_tier [] = None"
| "first_eligible cap free_ram_gb trust_tier (row # rows) =
     (if \<not> capability_match (mf_requires (jb_manifest row)) cap free_ram_gb
      then first_eligible cap free_ram_gb trust_tier rows
      else if \<not> may_route (mf_data_classification (jb_manifest row)) trust_tier
      then first_eligible cap free_ram_gb trust_tier rows
      else Some row)"

definition pick_job_for :: "db \<Rightarrow> capability \<Rightarrow> rat option \<Rightarrow> job option" where
  "pick_job_for s cap free_ram_gb =
     first_eligible cap free_ram_gb (device_tier (cap_worker_id cap) s) (queued_jobs s)"

lemma capability_match_iff:
  "capability_match r cap free \<longleftrightarrow>
     (rq_needs_gpu r \<longrightarrow> cap_has_gpu cap) \<and>
     (\<forall>v. rq_min_vram_gb r = Some v \<longrightarrow> v \<le> (case cap_gpu_vram_gb cap of None \<Rightarrow> 0 | Some g \<Rightarrow> g)) \<and>
     (\<forall>m. rq_min_ram_gb r = Some m \<longrightarrow> m \<le> (case free of None \<Rightarrow> cap_ram_gb cap | Some f \<Rightarrow> f)) \<and>
     rq_min_cpus r \<le> cap_cpus cap \<and> set (rq_accel r) \<subseteq> set (cap_accel cap)"
  by (auto simp: capability_match_def not_less split: option.splits)

lemma first_eligible_find: "first_eligible cap f t rows = find (eligible cap f t) rows"
  by (induction rows) (auto simp: eligible_def)

lemma set_queued_jobs: "set (queued_jobs s) = {j \<in> set (db_jobs s). jb_state j = Queued}"
  by (auto simp: queued_jobs_def)

lemma pick_job_for_Some:
  assumes "pick_job_for s cap f = Some j"
  shows "j \<in> set (db_jobs s)" "jb_state j = Queued"
    and "eligible cap f (device_tier (cap_worker_id cap) s) j"
proof -
  have *: "find P xs = Some x \<Longrightarrow> x \<in> set xs \<and> P x" for P and xs :: "job list" and x
    by (auto simp: find_Some_iff)
  from assms have "j \<in> set (queued_jobs s) \<and> eligible cap f (device_tier (cap_worker_id cap) s) j"
    by (intro *) (simp add: pick_job_for_def first_eligible_find)
  then show "j \<in> set (db_jobs s)" "jb_state j = Queued"
    "eligible cap f (device_tier (cap_worker_id cap) s) j" by (auto simp: set_queued_jobs)
qed

text \<open>In a list sorted by a key, what \<open>find\<close> returns has the least key of all that qualify.\<close>

lemma find_sorted_least:
  "sorted (map k xs) \<Longrightarrow> find P xs = Some x \<Longrightarrow> y \<in> set xs \<Longrightarrow> P y \<Longrightarrow> k x \<le> k y"
  by (induction xs) (auto split: if_splits)

lemma pick_job_for_oldest:
  assumes "pick_job_for s cap f = Some j" "i \<in> set (db_jobs s)" "jb_state i = Queued"
    and "eligible cap f (device_tier (cap_worker_id cap) s) i"
  shows "queue_key j \<le> queue_key i"
proof (rule find_sorted_least [where k = queue_key and x = j and y = i])
  show "sorted (map queue_key (queued_jobs s))" by (simp add: queued_jobs_def)
  show "find (eligible cap f (device_tier (cap_worker_id cap) s)) (queued_jobs s) = Some j"
    using assms(1) by (simp add: pick_job_for_def first_eligible_find)
qed (use assms in \<open>auto simp: set_queued_jobs\<close>)

lemma pick_job_for_None:
  "pick_job_for s cap f = None \<longleftrightarrow>
     (\<forall>j \<in> set (db_jobs s). jb_state j = Queued \<longrightarrow> \<not> eligible cap f (device_tier (cap_worker_id cap) s) j)"
  by (auto simp: pick_job_for_def first_eligible_find find_None_iff set_queued_jobs)

section \<open>Least-utilised first\<close>

definition LOAD_PRIORITY_GRACE_S :: rat where "LOAD_PRIORITY_GRACE_S = 3 / 2"
definition LOAD_PRIORITY_MARGIN :: rat where "LOAD_PRIORITY_MARGIN = 15"
definition LIVE_PEER_WINDOW_S :: int where "LIVE_PEER_WINDOW_S = 3"

definition load_score :: "rat option \<Rightarrow> rat option \<Rightarrow> rat" where
  "load_score cpu_pct gpu_pct =
     max (case cpu_pct of None \<Rightarrow> 0 | Some c \<Rightarrow> c) (case gpu_pct of None \<Rightarrow> 0 | Some g \<Rightarrow> g)"

definition age_seconds :: "time \<Rightarrow> time \<Rightarrow> rat" where
  "age_seconds ts now = fdiv (of_int (now - ts)) 1000000"

definition live_free_peer :: "str \<Rightarrow> time \<Rightarrow> db \<Rightarrow> worker \<Rightarrow> bool" where
  "live_free_peer w live_cutoff s p \<longleftrightarrow>
     wk_worker_id p \<noteq> w \<and> wk_approved p \<and> \<not> wk_blacklisted p \<and>
     (case wk_last_heartbeat p of None \<Rightarrow> False | Some h \<Rightarrow> live_cutoff \<le> h) \<and>
     \<not> worker_busy (wk_worker_id p) s"

definition defer_to_less_loaded :: "db \<Rightarrow> str \<Rightarrow> time \<Rightarrow> time \<Rightarrow> bool" where
  "defer_to_less_loaded s w job_created_at now =
     (if LOAD_PRIORITY_GRACE_S \<le> age_seconds job_created_at now then False
      else case find_worker w s of
        None \<Rightarrow> False
      | Some me \<Rightarrow>
          (let my_load = load_score (wk_cpu_pct me) (wk_gpu_pct me);
               live_cutoff = now - seconds LIVE_PEER_WINDOW_S;
               peers = select_where (live_free_peer w live_cutoff s) (db_workers s)
           in list_ex (\<lambda>p. LOAD_PRIORITY_MARGIN
                             \<le> fsub my_load (load_score (wk_cpu_pct p) (wk_gpu_pct p))) peers))"

text \<open>The age test is exact: 1.5 s is a binary64 value, so rounding never moves a job across it.\<close>

lemma age_seconds_grace: "LOAD_PRIORITY_GRACE_S \<le> age_seconds t now \<longleftrightarrow> 1500000 \<le> now - t"
proof
  have "fl64 (3 / 2) = 3 / 2" by code_simp
  then have ex: "f64.exact (3 / 2)" by (simp only: f64.exact_def)
  assume "1500000 \<le> now - t"
  then have "(of_int 1500000 :: rat) \<le> of_int (now - t)" by (subst of_int_le_iff) simp
  then have "(3 / 2 :: rat) \<le> of_int (now - t) / 1000000" by (simp add: le_divide_eq)
  then have "3 / 2 \<le> fl64 (of_int (now - t) / 1000000)" by (rule f64.rnd_ge [OF ex])
  then show "LOAD_PRIORITY_GRACE_S \<le> age_seconds t now"
    unfolding LOAD_PRIORITY_GRACE_S_def age_seconds_def fdiv_def .
next
  assume a: "LOAD_PRIORITY_GRACE_S \<le> age_seconds t now"
  show "1500000 \<le> now - t"
  proof (rule ccontr)
    assume "\<not> 1500000 \<le> now - t"
    then have "of_int (now - t) \<le> (of_int 1499999 :: rat)" by (subst of_int_le_iff) simp
    then have "of_int (now - t) / 1000000 \<le> (1499999 / 1000000 :: rat)" by (intro divide_right_mono) simp_all
    then have "fl64 (of_int (now - t) / 1000000) \<le> fl64 (1499999 / 1000000)" by (rule fl64_mono)
    also have "fl64 (1499999 / 1000000) < 3 / 2" by code_simp
    finally show False using a unfolding LOAD_PRIORITY_GRACE_S_def age_seconds_def fdiv_def by linarith
  qed
qed

lemma defer_only_while_fresh:
  "defer_to_less_loaded s w t now \<Longrightarrow> now - t < 1500000"
  by (auto simp: defer_to_less_loaded_def age_seconds_grace split: if_splits)

lemma defer_has_peer:
  assumes "defer_to_less_loaded s w t now"
  obtains me p where "find_worker w s = Some me" "p \<in> set (db_workers s)"
    "live_free_peer w (now - 3000000) s p"
    "15 \<le> fsub (load_score (wk_cpu_pct me) (wk_gpu_pct me)) (load_score (wk_cpu_pct p) (wk_gpu_pct p))"
  using assms
  by (auto simp: defer_to_less_loaded_def list_ex_iff Let_def LOAD_PRIORITY_MARGIN_def
      LIVE_PEER_WINDOW_S_def seconds_def split: if_splits option.splits)

end
