(* ===== verification/Auth.thy ===== *)
theory Auth imports Audit_Chain Scheduler begin

text \<open>
  Who may call what (\<open>src/orchestrator/app.py\<close>): the worker bearer token with optional device
  binding, the submit, admin and operator-read tokens, and the Foundry tenants. A handler maps the
  state to the state it leaves behind and its outcome, so that the audit event of a refused call
  is part of the result. \<open>config\<close> holds the arguments of \<open>create_app\<close>.
\<close>

record config =
  cf_signer :: signer
  cf_require_approval :: bool
  cf_submit_token :: "str option"
  cf_admin_token :: "str option"
  cf_bind_device_identity :: bool
  cf_attestation_pubkey :: "str option"
  cf_foundry_tenants :: "(str \<times> foundry_tenant) list option"

type_synonym 'a handler = "db \<Rightarrow> db \<times> 'a outcome"

definition and_then :: "'a handler \<Rightarrow> ('a \<Rightarrow> 'b handler) \<Rightarrow> 'b handler" where
  "and_then h k s = (case h s of (s', Inl e) \<Rightarrow> (s', Inl e) | (s', Inr x) \<Rightarrow> k x s')"

lemma and_then_Inr:
  "and_then h k s = (s', Inr y) \<longleftrightarrow> (\<exists>t x. h s = (t, Inr x) \<and> k x t = (s', Inr y))"
  by (auto simp: and_then_def split: prod.splits sum.splits)

lemma and_then_Inl:
  "and_then h k s = (s', Inl e) \<longleftrightarrow> h s = (s', Inl e) \<or> (\<exists>t x. h s = (t, Inr x) \<and> k x t = (s', Inl e))"
  by (auto simp: and_then_def split: prod.splits sum.splits)

section \<open>Bearer tokens\<close>

definition TypeErr :: http_error where
  "TypeErr = Uncaught ''TypeError: comparing strings with non-ASCII characters is not supported''"

definition bearer :: str where "bearer = ''Bearer ''"

definition provided_token :: "str \<Rightarrow> str" where
  "provided_token authorization = strip (removeprefix bearer authorization)"

definition HEX_CHARS :: str where "HEX_CHARS = ''0123456789abcdef''"

definition verified_client_fingerprint :: "str option \<Rightarrow> str option" where
  "verified_client_fingerprint value =
     (case value of
        None \<Rightarrow> None
      | Some v \<Rightarrow>
          (let fingerprint = lower (strip v)
           in if length fingerprint \<noteq> 64 \<or> list_ex (\<lambda>c. c \<notin> set HEX_CHARS) fingerprint
              then None else Some fingerprint))"

text \<open>
  The check the submit, admin and Foundry gates share: \<open>Inr None\<close> lets the caller pass, \<open>Inr (Some d)\<close>
  refuses it with detail \<open>d\<close>, \<open>Inl\<close> is the exception \<open>compare_digest\<close> raises.
\<close>

definition check_bearer :: "str \<Rightarrow> str \<Rightarrow> str option \<Rightarrow> http_error + str option" where
  "check_bearer invalid expected authorization =
     (case authorization of
        None \<Rightarrow> Inr (Some ''missing bearer token'')
      | Some a \<Rightarrow>
          (if a = [] then Inr (Some ''missing bearer token'')
           else if startswith a bearer then
             (let provided = provided_token a
              in if provided = [] then Inr (Some invalid)
                 else case compare_digest provided expected of
                        None \<Rightarrow> Inl TypeErr
                      | Some True \<Rightarrow> Inr None
                      | Some False \<Rightarrow> Inr (Some invalid))
           else Inr (Some ''invalid authorization scheme'')))"

definition deny :: "primitives \<Rightarrow> time \<Rightarrow> str \<Rightarrow> str \<Rightarrow> 'a handler" where
  "deny P now prefix detail s =
     (emit P now ''auth_failed'' None None (Some (prefix @ detail)) s, Raise 401 detail)"

definition gate :: "primitives \<Rightarrow> time \<Rightarrow> str \<Rightarrow> str \<Rightarrow> str \<Rightarrow> str option \<Rightarrow> unit handler" where
  "gate P now prefix invalid expected authorization s =
     (case check_bearer invalid expected authorization of
        Inl e \<Rightarrow> (s, Inl e)
      | Inr None \<Rightarrow> (s, Inr ())
      | Inr (Some detail) \<Rightarrow> deny P now prefix detail s)"

definition require_submit_token :: "primitives \<Rightarrow> config \<Rightarrow> time \<Rightarrow> str option \<Rightarrow> unit handler" where
  "require_submit_token P cf now authorization s =
     (case cf_submit_token cf of
        None \<Rightarrow> (s, Inr ())
      | Some tok \<Rightarrow> if tok = [] then (s, Inr ())
                    else gate P now ''submit: '' ''invalid submit token'' tok authorization s)"

definition require_admin_token :: "primitives \<Rightarrow> config \<Rightarrow> time \<Rightarrow> str option \<Rightarrow> unit handler" where
  "require_admin_token P cf now authorization s =
     (let effective = (case cf_admin_token cf of Some a \<Rightarrow> Some a | None \<Rightarrow> cf_submit_token cf)
      in case effective of
        None \<Rightarrow> (s, Inr ())
      | Some tok \<Rightarrow> if tok = [] then (s, Inr ())
                    else gate P now ''admin: '' ''invalid admin token'' tok authorization s)"

definition require_operator_read_token :: "primitives \<Rightarrow> config \<Rightarrow> time \<Rightarrow> str option \<Rightarrow> unit handler" where
  "require_operator_read_token P cf now authorization s =
     (case cf_admin_token cf of
        None \<Rightarrow> (s, Inr ())
      | Some _ \<Rightarrow> require_admin_token P cf now authorization s)"

definition authenticate_foundry_tenant ::
  "primitives \<Rightarrow> config \<Rightarrow> time \<Rightarrow> str \<Rightarrow> str option \<Rightarrow> foundry_tenant handler" where
  "authenticate_foundry_tenant P cf now tenant_id authorization s =
     (let tenants = (case cf_foundry_tenants cf of None \<Rightarrow> [] | Some ts \<Rightarrow> ts)
      in if tenants = [] then
           (emit P now ''auth_failed'' None None (Some ''foundry: ingestion disabled'') s,
            Raise 401 ''foundry ingestion disabled'')
         else case map_of tenants tenant_id of
           None \<Rightarrow> (emit P now ''auth_failed'' None None (Some ''foundry: unknown tenant'') s,
                     Raise 401 ''unknown tenant'')
         | Some tenant \<Rightarrow>
             (case gate P now ''foundry: '' ''invalid tenant token'' (tn_token tenant) authorization s of
                (s', Inl e) \<Rightarrow> (s', Inl e)
              | (s', Inr _) \<Rightarrow> (s', Inr tenant)))"

section \<open>Worker tokens\<close>

definition worker_auth_detail :: "str option \<Rightarrow> str" where
  "worker_auth_detail authorization =
     (case authorization of
        None \<Rightarrow> ''missing bearer token''
      | Some a \<Rightarrow> if \<not> startswith a bearer then ''invalid authorization scheme''
                  else ''invalid worker token'')"

text \<open>As for \<open>check_bearer\<close>: \<open>Inr None\<close> accepts, \<open>Inr (Some d)\<close> refuses with detail \<open>d\<close>.\<close>

definition check_device :: "config \<Rightarrow> worker \<Rightarrow> str option \<Rightarrow> http_error + str option" where
  "check_device cf r presented_fingerprint =
     (let stored_fingerprint = (case wk_cert_fingerprint r of None \<Rightarrow> [] | Some f \<Rightarrow> f)
      in if cf_bind_device_identity cf \<and> stored_fingerprint \<noteq> [] then
           (let presented = lower (strip (case presented_fingerprint of None \<Rightarrow> [] | Some f \<Rightarrow> f))
            in if presented = [] then Inr (Some ''device_fingerprint_mismatch'')
               else case compare_digest presented stored_fingerprint of
                 None \<Rightarrow> Inl TypeErr
               | Some True \<Rightarrow> Inr None
               | Some False \<Rightarrow> Inr (Some ''device_fingerprint_mismatch''))
         else Inr None)"

definition check_worker_token ::
  "config \<Rightarrow> worker option \<Rightarrow> str option \<Rightarrow> str option \<Rightarrow> http_error + str option" where
  "check_worker_token cf worker authorization presented_fingerprint =
     (let detail = worker_auth_detail authorization
      in case authorization of
        None \<Rightarrow> Inr (Some detail)
      | Some a \<Rightarrow>
          if \<not> startswith a bearer then Inr (Some detail)
          else
            (let token = provided_token a;
                 stored_token = (case worker of Some r \<Rightarrow> wk_token r | None \<Rightarrow> replicate 32 (CHR ''0''))
             in if token = [] then Inr (Some detail)
                else case compare_digest token stored_token of
                  None \<Rightarrow> Inl TypeErr
                | Some token_matches \<Rightarrow>
                    (case worker of
                       None \<Rightarrow> Inr (Some detail)
                     | Some r \<Rightarrow> if token_matches then check_device cf r presented_fingerprint
                                 else Inr (Some detail))))"

definition require_worker_token ::
  "primitives \<Rightarrow> config \<Rightarrow> time \<Rightarrow> str \<Rightarrow> str option \<Rightarrow> str option \<Rightarrow> worker handler" where
  "require_worker_token P cf now worker_id authorization presented_fingerprint s =
     (let worker = find_worker worker_id s
      in case check_worker_token cf worker authorization presented_fingerprint of
        Inl e \<Rightarrow> (s, Inl e)
      | Inr (Some detail) \<Rightarrow>
          ((case worker of None \<Rightarrow> s
            | Some _ \<Rightarrow> emit P now ''auth_failed'' (Some worker_id) None (Some detail) s),
           Raise 401 detail)
      | Inr None \<Rightarrow>
          (case worker of Some r \<Rightarrow> (s, Inr r) | None \<Rightarrow> (s, Raise 401 (worker_auth_detail authorization))))"

section \<open>What a successful check means\<close>

definition presents :: "str option \<Rightarrow> str \<Rightarrow> bool" where
  "presents authorization tok \<longleftrightarrow>
     (\<exists>a. authorization = Some a \<and> startswith a bearer \<and> provided_token a = tok \<and> tok \<noteq> [] \<and> is_ascii tok)"

text \<open>A check either passes and changes nothing, or fails having at most appended audit events.\<close>

definition only_audited :: "db \<Rightarrow> db \<Rightarrow> bool" where
  "only_audited s s' \<longleftrightarrow> (\<exists>es n. s' = s\<lparr>db_events := db_events s @ es, db_event_seq := n\<rparr>)"

lemma only_audited_refl [simp, intro]: "only_audited s s"
  unfolding only_audited_def by (rule exI [of _ "[]"], rule exI [of _ "db_event_seq s"]) simp

lemma only_audited_emit [simp, intro]: "only_audited s (emit P now t w j d s)"
  unfolding only_audited_def emit_def Let_def by blast

lemma only_audited_frame:
  "only_audited s s' \<Longrightarrow> db_workers s' = db_workers s \<and> db_jobs s' = db_jobs s \<and>
     db_ledger s' = db_ledger s \<and> db_ledger_seq s' = db_ledger_seq s \<and> db_profiles s' = db_profiles s"
  by (auto simp: only_audited_def)

lemma check_bearer_pass: "check_bearer i tok a = Inr None \<longleftrightarrow> presents a tok"
  by (auto simp: check_bearer_def presents_def bearer_def Let_def compare_digest_def
      split: option.splits bool.splits if_splits)

lemma gate_Inr: "gate P now p i tok a s = (s', Inr u) \<longleftrightarrow> s' = s \<and> presents a tok"
  by (auto simp: gate_def deny_def check_bearer_pass [of i tok a, symmetric] split: sum.splits option.splits)

lemma gate_audited: "gate P now p i tok a s = (s', r) \<Longrightarrow> only_audited s s'"
  by (auto simp: gate_def deny_def split: sum.splits option.splits)

definition admits :: "str option \<Rightarrow> str option \<Rightarrow> bool" where
  "admits configured authorization \<longleftrightarrow>
     (case configured of None \<Rightarrow> True | Some tok \<Rightarrow> tok = [] \<or> presents authorization tok)"

definition admin_credential :: "config \<Rightarrow> str option" where
  "admin_credential cf = (case cf_admin_token cf of Some a \<Rightarrow> Some a | None \<Rightarrow> cf_submit_token cf)"

lemma require_submit_token_Inr:
  "require_submit_token P cf now a s = (s', Inr u) \<longleftrightarrow> s' = s \<and> admits (cf_submit_token cf) a"
  by (auto simp: require_submit_token_def admits_def gate_Inr split: option.splits)

lemma require_admin_token_Inr:
  "require_admin_token P cf now a s = (s', Inr u) \<longleftrightarrow> s' = s \<and> admits (admin_credential cf) a"
  by (auto simp: require_admin_token_def admits_def admin_credential_def gate_Inr split: option.splits)

lemma require_operator_read_token_Inr:
  "require_operator_read_token P cf now a s = (s', Inr u) \<longleftrightarrow> s' = s \<and> admits (cf_admin_token cf) a"
  by (auto simp: require_operator_read_token_def require_admin_token_Inr admits_def admin_credential_def
      split: option.splits)

lemma require_submit_token_audited: "require_submit_token P cf now a s = (s', r) \<Longrightarrow> only_audited s s'"
  by (auto simp: require_submit_token_def dest: gate_audited split: option.splits if_splits)

lemma require_admin_token_audited: "require_admin_token P cf now a s = (s', r) \<Longrightarrow> only_audited s s'"
  by (auto simp: require_admin_token_def Let_def dest: gate_audited split: option.splits if_splits)

lemma require_operator_read_token_audited:
  "require_operator_read_token P cf now a s = (s', r) \<Longrightarrow> only_audited s s'"
  by (auto simp: require_operator_read_token_def dest: require_admin_token_audited split: option.splits)

lemma authenticate_foundry_tenant_Inr:
  "authenticate_foundry_tenant P cf now tid a s = (s', Inr t) \<longleftrightarrow>
     s' = s \<and> (\<exists>ts. cf_foundry_tenants cf = Some ts \<and> map_of ts tid = Some t \<and> presents a (tn_token t))"
proof (cases "\<exists>ts r. cf_foundry_tenants cf = Some ts \<and> map_of ts tid = Some r")
  case True
  then obtain ts r where t: "cf_foundry_tenants cf = Some ts" "map_of ts tid = Some r" by blast
  obtain s1 res where g: "gate P now ''foundry: '' ''invalid tenant token'' (tn_token r) a s = (s1, res)"
    by (cases "gate P now ''foundry: '' ''invalid tenant token'' (tn_token r) a s")
  from t have "ts \<noteq> []" by auto
  have pass: "(s1 = s \<and> res = Inr ()) = presents a (tn_token r)"
    using gate_Inr [of P now "''foundry: ''" "''invalid tenant token''" "tn_token r" a s s "()"] g by auto
  have "s1 = s" if "res = Inr ()"
    using gate_Inr [of P now "''foundry: ''" "''invalid tenant token''" "tn_token r" a s s1 "()"] g that by auto
  with t g pass \<open>ts \<noteq> []\<close> show ?thesis
    by (cases res) (auto simp: authenticate_foundry_tenant_def)
next
  case False
  then show ?thesis by (auto simp: authenticate_foundry_tenant_def Let_def split: option.splits)
qed

lemma authenticate_foundry_tenant_audited:
  "authenticate_foundry_tenant P cf now tid a s = (s', r) \<Longrightarrow> only_audited s s'"
  by (auto simp: authenticate_foundry_tenant_def Let_def dest: gate_audited
      split: option.splits if_splits prod.splits sum.splits)

definition device_bound :: "config \<Rightarrow> worker \<Rightarrow> str option \<Rightarrow> bool" where
  "device_bound cf r presented \<longleftrightarrow>
     cf_bind_device_identity cf \<longrightarrow>
       (case wk_cert_fingerprint r of None \<Rightarrow> True
        | Some f \<Rightarrow> f = [] \<or> (\<exists>p. presented = Some p \<and> lower (strip p) = f))"

lemma lower_strip_Nil [simp]: "lower (strip []) = []"
  by (simp add: lower_def strip_def)

lemma check_device_pass: "check_device cf r fp = Inr None \<Longrightarrow> device_bound cf r fp"
  by (auto simp: check_device_def device_bound_def Let_def compare_digest_def
      split: option.splits if_splits bool.splits)

lemma check_worker_token_pass:
  "check_worker_token cf worker a fp = Inr None \<Longrightarrow>
   \<exists>r. worker = Some r \<and> presents a (wk_token r) \<and> device_bound cf r fp"
  by (auto simp: check_worker_token_def presents_def Let_def compare_digest_def
      dest!: check_device_pass split: option.splits if_splits)

lemma require_worker_token_sound:
  assumes "require_worker_token P cf now w a fp s = (s', Inr r)"
  shows "s' = s" "find_worker w s = Some r" "presents a (wk_token r)" "device_bound cf r fp"
proof -
  from assms have "check_worker_token cf (find_worker w s) a fp = Inr None" "s' = s" "find_worker w s = Some r"
    by (auto simp: require_worker_token_def Let_def split: option.splits sum.splits)
  then show "s' = s" "find_worker w s = Some r" "presents a (wk_token r)" "device_bound cf r fp"
    using check_worker_token_pass [of cf "find_worker w s" a fp] by auto
qed

lemma require_worker_token_audited:
  "require_worker_token P cf now w a fp s = (s', r) \<Longrightarrow> only_audited s s'"
  by (auto simp: require_worker_token_def Let_def split: option.splits sum.splits)

text \<open>A request for a worker that is not registered leaves no trace.\<close>

lemma require_worker_token_unknown:
  "find_worker w s = None \<Longrightarrow> fst (require_worker_token P cf now w a fp s) = s"
  by (auto simp: require_worker_token_def Let_def split: option.splits sum.splits)

end
