(* ===== verification/Submit.thy ===== *)
theory Submit imports Auth begin

text \<open>
  How work enters the queue: \<open>src/orchestrator/submit.py\<close>, \<open>POST /jobs\<close> and the Foundry gateway
  \<open>POST /foundry/jobs\<close>. A request that pydantic rejects ends in 422 before the handler runs; the
  id \<open>uuid4\<close> draws is an argument, and drawing one in use is the \<open>IntegrityError\<close> of the primary key.
\<close>

section \<open>submit\_job\<close>

text \<open>What \<open>sqlite3\<close> can bind to an \<open>INTEGER\<close> column.\<close>

definition int64 :: "int \<Rightarrow> bool" where
  "int64 n \<longleftrightarrow> - (2 ^ 63) \<le> n \<and> n < 2 ^ 63"

definition new_manifest ::
  "primitives \<Rightarrow> submit_request \<Rightarrow> routing_provenance option \<Rightarrow> str \<Rightarrow> time \<Rightarrow> job_manifest" where
  "new_manifest P req provenance job_id issued_at =
     \<lparr>mf_job_id = job_id, mf_kind = sr_kind req, mf_code_ref = ''builtin'', mf_code_sha256 = [],
      mf_input_sha256 = sha256_hex (p_sha256 P) (p_float_repr P) (JObj (sr_input req)),
      mf_requires = sr_requires req, mf_limits = sr_limits req, mf_sandbox = default_sandbox,
      mf_data_classification = sr_data_classification req, mf_provenance = provenance,
      mf_issued_at = issued_at, mf_expires_at = None\<rparr>"

definition new_job :: "job_manifest \<Rightarrow> submit_request \<Rightarrow> str option \<Rightarrow> time \<Rightarrow> job" where
  "new_job m req workload_id now =
     \<lparr>jb_job_id = mf_job_id m, jb_kind = sr_kind req, jb_manifest = m, jb_input = sr_input req,
      jb_state = Queued, jb_units = sr_units req, jb_workload_id = workload_id,
      jb_assigned_worker = None, jb_lease_expires = None, jb_result = None, jb_attempts = 0,
      jb_created_at = now, jb_updated_at = now\<rparr>"

definition insert_job :: "job \<Rightarrow> db \<Rightarrow> db \<times> (py_error + unit)" where
  "insert_job j s =
     (if \<not> int64 (jb_units j) then (s, Inl (OtherError ''OverflowError''))
      else case find_job (jb_job_id j) s of
        Some _ \<Rightarrow> (s, Inl (OtherError ''IntegrityError''))
      | None \<Rightarrow> (s\<lparr>db_jobs := db_jobs s @ [j]\<rparr>, Inr ()))"

definition submit_job ::
  "primitives \<Rightarrow> submit_request \<Rightarrow> str option \<Rightarrow> routing_provenance option \<Rightarrow> str \<Rightarrow> time \<Rightarrow> time
   \<Rightarrow> db \<Rightarrow> db \<times> (py_error + str)" where
  "submit_job P req workload_id provenance job_id issued_at now s =
     (if sr_units req \<le> 0 then (s, Inl (ValueError ''units must be positive''))
      else
        (let manifest = new_manifest P req provenance job_id issued_at
         in case insert_job (new_job manifest req workload_id now) s of
              (s', Inl e) \<Rightarrow> (s', Inl e)
            | (s', Inr _) \<Rightarrow> (s', Inr job_id)))"

section \<open>The two endpoints\<close>

definition http_of :: "py_error \<Rightarrow> http_error" where
  "http_of e = (case e of ValueError d \<Rightarrow> HTTPException 400 d | TypeError d \<Rightarrow> Uncaught d | OtherError d \<Rightarrow> Uncaught d)"

definition enqueue ::
  "primitives \<Rightarrow> submit_request \<Rightarrow> routing_provenance option \<Rightarrow> str \<Rightarrow> clock \<Rightarrow> str \<Rightarrow> str \<Rightarrow> str handler" where
  "enqueue P req provenance job_id clk event_type detail s =
     (case submit_job P req None provenance job_id (clk 1) (clk 2) s of
        (s', Inl e) \<Rightarrow> (s', Inl (http_of e))
      | (s', Inr j) \<Rightarrow> (emit P (clk 3) event_type None (Some j) (Some detail) s', Inr j))"

definition submit ::
  "primitives \<Rightarrow> config \<Rightarrow> clock \<Rightarrow> str \<Rightarrow> submit_request \<Rightarrow> str option \<Rightarrow> str handler" where
  "submit P cf clk job_id req authorization s =
     (if \<not> valid_submit req then (s, Raise 422 ''validation error'')
      else and_then (require_submit_token P cf (clk 0) authorization)
             (\<lambda>_. enqueue P req None job_id clk ''submitted'' (sr_kind req)) s)"

definition foundry_submit_request :: "foundry_routing_request \<Rightarrow> submit_request" where
  "foundry_submit_request req =
     \<lparr>sr_kind = fr_kind req, sr_input = fr_input req,
      sr_requires = (case fr_requires req of None \<Rightarrow> default_requires | Some r \<Rightarrow> r),
      sr_limits = default_limits, sr_data_classification = fr_data_classification req,
      sr_units = fr_units req\<rparr>"

definition foundry_policy ::
  "primitives \<Rightarrow> clock \<Rightarrow> foundry_routing_request \<Rightarrow> foundry_tenant \<Rightarrow> unit handler" where
  "foundry_policy P clk req tenant s =
     (if \<not> classification_cleared (fr_data_classification req) (tn_max_classification tenant) then
        (emit P (clk 0) ''foundry_denied'' None None
           (Some (''tenant='' @ tn_tenant_id tenant @ '' class='' @ fr_data_classification req
                  @ '' exceeds max='' @ tn_max_classification tenant)) s,
         Raise 403 ''data_classification exceeds tenant clearance'')
      else if fr_region req \<notin> set (tn_allowed_regions tenant) then
        (emit P (clk 0) ''foundry_denied'' None None
           (Some (''tenant='' @ tn_tenant_id tenant @ '' region='' @ fr_region req @ '' not permitted'')) s,
         Raise 403 ''region not permitted for tenant'')
      else (s, Inr ()))"

definition foundry_route ::
  "primitives \<Rightarrow> config \<Rightarrow> clock \<Rightarrow> str \<Rightarrow> foundry_routing_request \<Rightarrow> str option \<Rightarrow> str handler" where
  "foundry_route P cf clk job_id req authorization s =
     (if \<not> valid_foundry req then (s, Raise 422 ''validation error'')
      else and_then (authenticate_foundry_tenant P cf (clk 0) (fr_tenant_id req) authorization)
        (\<lambda>tenant. and_then (foundry_policy P clk req tenant)
           (\<lambda>_. enqueue P (foundry_submit_request req)
              (Some \<lparr>pv_tenant_id = tn_tenant_id tenant, pv_region = fr_region req\<rparr>) job_id clk
              ''foundry_routed''
              (''tenant='' @ tn_tenant_id tenant @ '' region='' @ fr_region req @ '' class=''
               @ fr_data_classification req))) s)"

section \<open>What is enqueued\<close>

lemma insert_job_Inr:
  "insert_job j s = (s', Inr u) \<longleftrightarrow>
     int64 (jb_units j) \<and> find_job (jb_job_id j) s = None \<and> s' = s\<lparr>db_jobs := db_jobs s @ [j]\<rparr>"
  by (auto simp: insert_job_def split: option.splits if_splits)

lemma insert_job_Inl: "insert_job j s = (s', Inl e) \<Longrightarrow> s' = s"
  by (auto simp: insert_job_def split: option.splits if_splits)

lemma submit_job_Inr:
  "submit_job P req wl pv jid t1 t2 s = (s', Inr j) \<longleftrightarrow>
     0 < sr_units req \<and> int64 (sr_units req) \<and> find_job jid s = None \<and> j = jid \<and>
     s' = s\<lparr>db_jobs := db_jobs s @ [new_job (new_manifest P req pv jid t1) req wl t2]\<rparr>"
  by (auto simp: submit_job_def Let_def insert_job_def new_job_def new_manifest_def
      split: option.splits if_splits)

lemma submit_job_Inl: "submit_job P req wl pv jid t1 t2 s = (s', Inl e) \<Longrightarrow> s' = s"
  by (auto simp: submit_job_def Let_def dest: insert_job_Inl split: if_splits prod.splits sum.splits)

lemma submit_job_units: "sr_units req \<le> 0 \<Longrightarrow>
   submit_job P req wl pv jid t1 t2 s = (s, Inl (ValueError ''units must be positive''))"
  by (simp add: submit_job_def)

lemma enqueue_Inr:
  "enqueue P req pv jid clk t d s = (s', Inr j) \<longleftrightarrow>
     0 < sr_units req \<and> int64 (sr_units req) \<and> find_job jid s = None \<and> j = jid \<and>
     s' = emit P (clk 3) t None (Some jid) (Some d)
            (s\<lparr>db_jobs := db_jobs s @ [new_job (new_manifest P req pv jid (clk 1)) req None (clk 2)]\<rparr>)"
proof (cases "submit_job P req None pv jid (clk 1) (clk 2) s")
  case (Pair s1 r)
  let ?t = "s\<lparr>db_jobs := db_jobs s @ [new_job (new_manifest P req pv jid (clk 1)) req None (clk 2)]\<rparr>"
  note ok = submit_job_Inr [of P req None pv jid "clk 1" "clk 2" s]
  show ?thesis
  proof (cases r)
    case (Inl e)
    then have "\<not> (0 < sr_units req \<and> int64 (sr_units req) \<and> find_job jid s = None)"
      using ok [of ?t jid] Pair by simp
    then show ?thesis using Pair Inl by (auto simp: enqueue_def)
  next
    case (Inr j')
    then show ?thesis using ok [of s1 j'] Pair by (auto simp: enqueue_def)
  qed
qed

lemma enqueue_Inl: "enqueue P req pv jid clk t d s = (s', Inl e) \<Longrightarrow> s' = s"
  by (auto simp: enqueue_def split: prod.splits sum.splits dest: submit_job_Inl)

lemma submit_Inr:
  "submit P cf clk jid req a s = (s', Inr j) \<longleftrightarrow>
     valid_submit req \<and> admits (cf_submit_token cf) a \<and>
     enqueue P req None jid clk ''submitted'' (sr_kind req) s = (s', Inr j)"
  by (auto simp: submit_def and_then_Inr require_submit_token_Inr)

lemma submit_Inl_audited: "submit P cf clk jid req a s = (s', Inl e) \<Longrightarrow> only_audited s s'"
  by (auto simp: submit_def and_then_Inl require_submit_token_Inr split: if_splits
      dest!: require_submit_token_audited enqueue_Inl)

lemma foundry_policy_Inr:
  "foundry_policy P clk req t s = (s', Inr u) \<longleftrightarrow>
     s' = s \<and> classification_cleared (fr_data_classification req) (tn_max_classification t) \<and>
     fr_region req \<in> set (tn_allowed_regions t)"
  by (auto simp: foundry_policy_def)

lemma foundry_policy_audited: "foundry_policy P clk req t s = (s', r) \<Longrightarrow> only_audited s s'"
  by (auto simp: foundry_policy_def split: if_splits)

lemma foundry_route_Inr:
  "foundry_route P cf clk jid req a s = (s', Inr j) \<longleftrightarrow>
     valid_foundry req \<and>
     (\<exists>ts t. cf_foundry_tenants cf = Some ts \<and> map_of ts (fr_tenant_id req) = Some t \<and>
        presents a (tn_token t) \<and>
        classification_cleared (fr_data_classification req) (tn_max_classification t) \<and>
        fr_region req \<in> set (tn_allowed_regions t) \<and>
        enqueue P (foundry_submit_request req)
          (Some \<lparr>pv_tenant_id = tn_tenant_id t, pv_region = fr_region req\<rparr>) jid clk ''foundry_routed''
          (''tenant='' @ tn_tenant_id t @ '' region='' @ fr_region req @ '' class=''
               @ fr_data_classification req) s = (s', Inr j))"
  by (auto simp: foundry_route_def and_then_Inr authenticate_foundry_tenant_Inr foundry_policy_Inr)

lemma foundry_route_Inl_audited: "foundry_route P cf clk jid req a s = (s', Inl e) \<Longrightarrow> only_audited s s'"
  by (auto simp: foundry_route_def and_then_Inl authenticate_foundry_tenant_Inr foundry_policy_Inr
      split: if_splits dest!: authenticate_foundry_tenant_audited foundry_policy_audited enqueue_Inl)

end
