(* ===== verification/Enrolment.thy ===== *)
theory Enrolment imports Auth begin

text \<open>
  How devices join, are admitted, classified and removed (\<open>src/orchestrator/app.py\<close>): \<open>POST /register\<close>
  with device binding and attestation-derived tiers, \<open>POST /workers/{id}/approve\<close>,
  \<open>POST /workers/{id}/tier\<close> and \<open>DELETE /workers/{id}\<close>. Each \<open>write_lock\<close> section is a definition of its
  own, so that the fleet's step relation can interleave the sections of different requests.
\<close>

section \<open>Device codes\<close>

definition DEVICE_CODE_ALPHABET :: str where
  "DEVICE_CODE_ALPHABET = ''ABCDEFGHJKLMNPQRSTUVWXYZ23456789''"

definition hex_pair :: "str \<Rightarrow> nat \<Rightarrow> nat" where
  "hex_pair raw i = 16 * the (hex_value (raw ! i)) + the (hex_value (raw ! (i + 1)))"

definition make_device_code :: "str \<Rightarrow> str" where
  "make_device_code raw =
     (let chars = map (\<lambda>i. DEVICE_CODE_ALPHABET ! (hex_pair raw i mod length DEVICE_CODE_ALPHABET))
                      [0, 2, 4, 6, 8, 10]
      in take 4 chars @ ''-'' @ drop 4 chars)"

section \<open>Registration\<close>

record register_args =
  ra_cap :: capability
  ra_token :: str
  ra_weight :: rat
  ra_approved :: bool
  ra_device_code :: "str option"
  ra_now :: time
  ra_cert_fingerprint :: "str option"

definition register_free_ram :: "capability \<Rightarrow> rat option" where
  "register_free_ram cap =
     (if cap_measurement_only cap then None
      else case cap_free_ram_gb cap of Some f \<Rightarrow> Some f | None \<Rightarrow> Some (cap_ram_gb cap))"

definition registered_row :: "register_args \<Rightarrow> worker" where
  "registered_row a =
     \<lparr>wk_worker_id = cap_worker_id (ra_cap a), wk_token = ra_token a, wk_capability = ra_cap a,
      wk_class_weight = ra_weight a, wk_free_ram_gb = register_free_ram (ra_cap a), wk_idle = True,
      wk_cpu_pct = None, wk_gpu_pct = None, wk_on_ac = True, wk_blacklisted = False,
      wk_approved = ra_approved a, wk_trust_tier = DEFAULT_TRUST_TIER, wk_tier_pinned = False,
      wk_device_code = ra_device_code a, wk_last_heartbeat = Some (ra_now a),
      wk_registered_at = ra_now a, wk_cert_fingerprint = ra_cert_fingerprint a\<rparr>"

text \<open>\<open>ON CONFLICT(worker_id) DO UPDATE SET ..\<close>; the right-hand sides read the old row.\<close>

definition reregistered :: "register_args \<Rightarrow> worker \<Rightarrow> worker" where
  "reregistered a r = r\<lparr>
     wk_token := ra_token a, wk_capability := ra_cap a, wk_class_weight := ra_weight a,
     wk_free_ram_gb := register_free_ram (ra_cap a), wk_idle := True,
     wk_approved := wk_approved r \<or> ra_approved a,
     wk_device_code := (if wk_approved r then None else ra_device_code a),
     wk_registered_at := ra_now a, wk_last_heartbeat := Some (ra_now a),
     wk_cert_fingerprint := (case ra_cert_fingerprint a of Some f \<Rightarrow> Some f | None \<Rightarrow> wk_cert_fingerprint r)\<rparr>"

definition upsert_worker :: "register_args \<Rightarrow> db \<Rightarrow> db" where
  "upsert_worker a s =
     (case find_worker (cap_worker_id (ra_cap a)) s of
        None \<Rightarrow> s\<lparr>db_workers := db_workers s @ [registered_row a]\<rparr>
      | Some _ \<Rightarrow> update_worker (cap_worker_id (ra_cap a)) (reregistered a) s)"

definition check_binding :: "bool \<Rightarrow> worker option \<Rightarrow> str option \<Rightarrow> http_error option" where
  "check_binding bind_device_identity existing cert_fingerprint =
     (case existing of
        None \<Rightarrow> None
      | Some row \<Rightarrow>
          if \<not> bind_device_identity then None
          else
            (let bound = (case wk_cert_fingerprint row of None \<Rightarrow> [] | Some b \<Rightarrow> b)
             in if bound = [] then
                  Some (HTTPException 409 ''existing worker ID is not device-bound; remove and re-enroll it'')
                else case cert_fingerprint of
                    None \<Rightarrow> Some TypeErr
                  | Some f \<Rightarrow>
                     (case compare_digest bound f of
                        None \<Rightarrow> Some TypeErr
                      | Some True \<Rightarrow> None
                      | Some False \<Rightarrow>
                          Some (HTTPException 403 ''worker ID is bound to a different device certificate''))))"

definition register_section :: "bool \<Rightarrow> register_args \<Rightarrow> (bool \<times> str option) handler" where
  "register_section bind_device_identity a s =
     (case check_binding bind_device_identity (find_worker (cap_worker_id (ra_cap a)) s) (ra_cert_fingerprint a) of
        Some e \<Rightarrow> (s, Inl e)
      | None \<Rightarrow>
          (let s' = upsert_worker a s
           in case find_worker (cap_worker_id (ra_cap a)) s' of
                Some row \<Rightarrow> (s', Inr (wk_approved row, wk_device_code row))
              | None \<Rightarrow> (s', Inl (Uncaught ''TypeError''))))"

section \<open>Attestation-derived tier\<close>

definition derive_section :: "str \<Rightarrow> str \<Rightarrow> db \<Rightarrow> db \<times> bool" where
  "derive_section worker_id derived s =
     (case find_worker worker_id s of
        None \<Rightarrow> (s, False)
      | Some row \<Rightarrow>
          if wk_tier_pinned row then (s, False)
          else (s\<lparr>db_workers := update_where (\<lambda>r. wk_worker_id r = worker_id \<and> \<not> wk_tier_pinned r)
                                (wk_trust_tier_update (\<lambda>_. derived)) (db_workers s)\<rparr>, True))"

definition attest :: "primitives \<Rightarrow> config \<Rightarrow> capability \<Rightarrow> time \<Rightarrow> time \<Rightarrow> db \<Rightarrow> db" where
  "attest P cf cap now t s =
     (case (cf_attestation_pubkey cf, cap_attestation cap) of
        (Some key, Some att) \<Rightarrow>
          if key \<noteq> [] \<and> verify_attestation P att (Some key) (cap_worker_id cap) now
          then (let derived = derive_tier att; (s', applied) = derive_section (cap_worker_id cap) derived s
                in if applied
                   then emit P t ''tier_derived'' (Some (cap_worker_id cap)) None (Some derived) s'
                   else s')
          else s
      | _ \<Rightarrow> s)"

definition measured_capability :: "capability \<Rightarrow> capability" where
  "measured_capability cap =
     (if cap_measurement_only cap
      then (default_capability (cap_worker_id cap))\<lparr>cap_measurement_only := True\<rparr> else cap)"

definition register ::
  "primitives \<Rightarrow> config \<Rightarrow> clock \<Rightarrow> str \<Rightarrow> str \<Rightarrow> str option \<Rightarrow> capability \<Rightarrow> register_response handler" where
  "register P cf clk token code_hex scope_fingerprint cap0 s =
     (let cap = measured_capability cap0;
          fp = verified_client_fingerprint scope_fingerprint
      in if cf_bind_device_identity cf \<and> (fp = None \<or> fp = Some []) then
           (s, Raise 401 ''verified client certificate fingerprint required'')
         else
           (let approved = \<not> cf_require_approval cf;
                a = \<lparr>ra_cap = cap, ra_token = token, ra_weight = class_weight_for cap,
                     ra_approved = approved,
                     ra_device_code = (if approved then None else Some (make_device_code code_hex)),
                     ra_now = clk 0,
                     ra_cert_fingerprint = (if cf_bind_device_identity cf then fp else None)\<rparr>
            in case register_section (cf_bind_device_identity cf) a s of
                 (s1, Inl e) \<Rightarrow> (s1, Inl e)
               | (s1, Inr (is_approved, device_code)) \<Rightarrow>
                   (let s2 = emit P (clk 1) ''registered'' (Some (cap_worker_id cap)) None
                               (Some (if cap_has_gpu cap then ''gpu'' else ''cpu'')) s1;
                        s3 = attest P cf cap (clk 2) (clk 3) s2
                    in (s3, Inr \<lparr>rr_worker_token = token,
                                 rr_device_code = (if is_approved then None else device_code),
                                 rr_approved = is_approved\<rparr>))))"

section \<open>Admin operations\<close>

text \<open>The 400 of \<open>set_tier\<close> carries its fixed prefix only, not the \<open>repr\<close> of the refused string.\<close>

definition worker_or_404 :: "str \<Rightarrow> worker handler" where
  "worker_or_404 worker_id s =
     (case find_worker worker_id s of
        None \<Rightarrow> (s, Raise 404 ''worker not found'') | Some r \<Rightarrow> (s, Inr r))"

definition approve_section :: "str \<Rightarrow> db \<Rightarrow> db" where
  "approve_section worker_id s =
     update_worker worker_id (\<lambda>r. r\<lparr>wk_approved := True, wk_device_code := None\<rparr>) s"

definition approve :: "primitives \<Rightarrow> config \<Rightarrow> clock \<Rightarrow> str \<Rightarrow> str option \<Rightarrow> unit handler" where
  "approve P cf clk worker_id authorization =
     and_then (require_admin_token P cf (clk 0) authorization) (\<lambda>_.
     and_then (worker_or_404 worker_id) (\<lambda>_ s.
       (emit P (clk 1) ''approved'' (Some worker_id) None (Some ''admitted via dashboard'')
          (approve_section worker_id s), Inr ())))"

definition tier_section :: "str \<Rightarrow> str \<Rightarrow> db \<Rightarrow> db" where
  "tier_section worker_id trust_tier s =
     update_worker worker_id (\<lambda>r. r\<lparr>wk_trust_tier := trust_tier, wk_tier_pinned := True\<rparr>) s"

definition set_tier :: "primitives \<Rightarrow> config \<Rightarrow> clock \<Rightarrow> str \<Rightarrow> str \<Rightarrow> str option \<Rightarrow> unit handler" where
  "set_tier P cf clk worker_id trust_tier authorization =
     and_then (require_admin_token P cf (clk 0) authorization) (\<lambda>_.
     and_then (worker_or_404 worker_id) (\<lambda>_ s.
       if \<not> is_valid_tier trust_tier then (s, Raise 400 ''unknown trust tier'')
       else (emit P (clk 1) ''tier_assigned'' (Some worker_id) None (Some trust_tier)
               (tier_section worker_id trust_tier s), Inr ())))"

definition disconnect_section :: "str \<Rightarrow> time \<Rightarrow> db \<Rightarrow> db" where
  "disconnect_section worker_id now s =
     (let s1 = update_jobs (holds_lease worker_id) (requeued now) s
      in s1\<lparr>db_profiles := delete_where (\<lambda>p. pf_worker_id p = worker_id) (db_profiles s1),
            db_workers := delete_where (\<lambda>r. wk_worker_id r = worker_id) (db_workers s1)\<rparr>)"

definition disconnect_worker :: "primitives \<Rightarrow> config \<Rightarrow> clock \<Rightarrow> str \<Rightarrow> str option \<Rightarrow> unit handler" where
  "disconnect_worker P cf clk worker_id authorization =
     and_then (require_admin_token P cf (clk 0) authorization) (\<lambda>_.
     and_then (worker_or_404 worker_id) (\<lambda>_ s.
       (emit P (clk 2) ''removed'' (Some worker_id) None (Some ''disconnected via dashboard'')
          (disconnect_section worker_id (clk 1) s), Inr ())))"

section \<open>Behaviour\<close>

lemma registered_row_simps [simp]:
  "wk_worker_id (registered_row a) = cap_worker_id (ra_cap a)"
  "wk_capability (registered_row a) = ra_cap a"
  "wk_token (registered_row a) = ra_token a"
  "wk_approved (registered_row a) = ra_approved a"
  "wk_device_code (registered_row a) = ra_device_code a"
  "wk_trust_tier (registered_row a) = DEFAULT_TRUST_TIER"
  "wk_tier_pinned (registered_row a) = False"
  "wk_blacklisted (registered_row a) = False"
  "wk_cert_fingerprint (registered_row a) = ra_cert_fingerprint a"
  by (simp_all add: registered_row_def)

lemma reregistered_simps [simp]:
  "wk_worker_id (reregistered a r) = wk_worker_id r"
  "wk_capability (reregistered a r) = ra_cap a"
  "wk_token (reregistered a r) = ra_token a"
  "wk_approved (reregistered a r) = (wk_approved r \<or> ra_approved a)"
  "wk_device_code (reregistered a r) = (if wk_approved r then None else ra_device_code a)"
  "wk_trust_tier (reregistered a r) = wk_trust_tier r"
  "wk_tier_pinned (reregistered a r) = wk_tier_pinned r"
  "wk_blacklisted (reregistered a r) = wk_blacklisted r"
  by (simp_all add: reregistered_def)

lemma upsert_worker_frame [simp, frame]:
  "db_jobs (upsert_worker a s) = db_jobs s"
  "db_ledger (upsert_worker a s) = db_ledger s"
  "db_ledger_seq (upsert_worker a s) = db_ledger_seq s"
  "db_events (upsert_worker a s) = db_events s"
  "db_event_seq (upsert_worker a s) = db_event_seq s"
  "db_profiles (upsert_worker a s) = db_profiles s"
  by (auto simp: upsert_worker_def split: option.splits)

lemma find_worker_upsert:
  "find_worker w (upsert_worker a s) =
     (if w = cap_worker_id (ra_cap a)
      then Some (case find_worker w s of None \<Rightarrow> registered_row a | Some r \<Rightarrow> reregistered a r)
      else find_worker w s)"
proof (cases "find_worker (cap_worker_id (ra_cap a)) s")
  case None
  then show ?thesis
    by (auto simp: upsert_worker_def find_worker_lookup wt.lookup_append split: option.splits)
next
  case (Some r)
  then have "upsert_worker a s = update_worker (cap_worker_id (ra_cap a)) (reregistered a) s"
    by (simp add: upsert_worker_def)
  with Some show ?thesis
    by (cases "find_worker w s") (auto simp: find_worker_update_worker dest: find_worker_Some)
qed

lemma register_section_Inr:
  "register_section b a s = (s', Inr x) \<longleftrightarrow>
     check_binding b (find_worker (cap_worker_id (ra_cap a)) s) (ra_cert_fingerprint a) = None \<and>
     s' = upsert_worker a s \<and>
     (\<exists>row. find_worker (cap_worker_id (ra_cap a)) s' = Some row \<and> x = (wk_approved row, wk_device_code row))"
  by (auto simp: register_section_def Let_def split: option.splits)

lemma register_section_Inl: "register_section b a s = (s', Inl e) \<Longrightarrow> s' = s"
  by (auto simp: register_section_def Let_def find_worker_upsert split: option.splits)

lemma derive_section_frame [frame]:
  assumes "derive_section w t s = (s', b)"
  shows "db_jobs s' = db_jobs s" "db_ledger s' = db_ledger s" "db_ledger_seq s' = db_ledger_seq s"
    "db_events s' = db_events s" "db_event_seq s' = db_event_seq s" "db_profiles s' = db_profiles s"
  using assms by (auto simp: derive_section_def split: option.splits if_splits)

lemma find_worker_derive:
  assumes "derive_section w t s = (s', b)"
  shows "find_worker v s' = map_option (\<lambda>r. if wk_worker_id r = w \<and> \<not> wk_tier_pinned r
                                           then r\<lparr>wk_trust_tier := t\<rparr> else r) (find_worker v s)"
proof (cases "find_worker w s")
  case None
  moreover have "wk_worker_id r \<noteq> w" if "find_worker v s = Some r" for r
    using that None find_worker_Some [OF that] by auto
  ultimately show ?thesis using assms
    by (cases "find_worker v s") (auto simp: derive_section_def)
next
  case (Some row)
  show ?thesis
  proof (cases "wk_tier_pinned row")
    case True
    with assms Some have "s' = s" by (simp add: derive_section_def)
    moreover have "wk_tier_pinned r" if "find_worker v s = Some r" "wk_worker_id r = w" for r
      using that True Some find_worker_Some [OF that(1)] by auto
    ultimately show ?thesis by (cases "find_worker v s") auto
  next
    case False
    with assms Some show ?thesis
      by (auto simp: derive_section_def find_worker_lookup wt.lookup_update)
  qed
qed

lemma worker_or_404_Inr: "worker_or_404 w s = (s', Inr r) \<longleftrightarrow> s' = s \<and> find_worker w s = Some r"
  by (auto simp: worker_or_404_def split: option.splits)

lemma worker_or_404_Inl: "worker_or_404 w s = (s', Inl e) \<Longrightarrow> s' = s"
  by (auto simp: worker_or_404_def split: option.splits)

lemma approve_section_frame [simp, frame]:
  "db_jobs (approve_section w s) = db_jobs s"
  "db_ledger (approve_section w s) = db_ledger s"
  "db_ledger_seq (approve_section w s) = db_ledger_seq s"
  "db_events (approve_section w s) = db_events s"
  "db_event_seq (approve_section w s) = db_event_seq s"
  "db_profiles (approve_section w s) = db_profiles s"
  by (simp_all add: approve_section_def)

lemma tier_section_frame [simp, frame]:
  "db_jobs (tier_section w t s) = db_jobs s"
  "db_ledger (tier_section w t s) = db_ledger s"
  "db_ledger_seq (tier_section w t s) = db_ledger_seq s"
  "db_events (tier_section w t s) = db_events s"
  "db_event_seq (tier_section w t s) = db_event_seq s"
  "db_profiles (tier_section w t s) = db_profiles s"
  by (simp_all add: tier_section_def)

lemma disconnect_section_frame [simp, frame]:
  "db_ledger (disconnect_section w t s) = db_ledger s"
  "db_ledger_seq (disconnect_section w t s) = db_ledger_seq s"
  "db_events (disconnect_section w t s) = db_events s"
  "db_event_seq (disconnect_section w t s) = db_event_seq s"
  "db_jobs (disconnect_section w t s) = update_where (holds_lease w) (requeued t) (db_jobs s)"
  "db_workers (disconnect_section w t s) = delete_where (\<lambda>r. wk_worker_id r = w) (db_workers s)"
  "db_profiles (disconnect_section w t s) = delete_where (\<lambda>p. pf_worker_id p = w) (db_profiles s)"
  by (simp_all add: disconnect_section_def Let_def)

lemma approve_Inr:
  "approve P cf clk w a s = (s', Inr u) \<longleftrightarrow>
     admits (admin_credential cf) a \<and> find_worker w s \<noteq> None \<and>
     s' = emit P (clk 1) ''approved'' (Some w) None (Some ''admitted via dashboard'') (approve_section w s)"
  by (auto simp: approve_def and_then_Inr require_admin_token_Inr worker_or_404_Inr)

lemma approve_Inl: "approve P cf clk w a s = (s', Inl e) \<Longrightarrow> only_audited s s'"
  by (auto simp: approve_def and_then_Inl require_admin_token_Inr worker_or_404_Inr
      dest!: require_admin_token_audited worker_or_404_Inl)

lemma set_tier_Inr:
  "set_tier P cf clk w t a s = (s', Inr u) \<longleftrightarrow>
     admits (admin_credential cf) a \<and> find_worker w s \<noteq> None \<and> is_valid_tier t \<and>
     s' = emit P (clk 1) ''tier_assigned'' (Some w) None (Some t) (tier_section w t s)"
  by (auto simp: set_tier_def and_then_Inr require_admin_token_Inr worker_or_404_Inr split: if_splits)

lemma set_tier_Inl: "set_tier P cf clk w t a s = (s', Inl e) \<Longrightarrow> only_audited s s'"
  by (auto simp: set_tier_def and_then_Inl require_admin_token_Inr worker_or_404_Inr split: if_splits
      dest!: require_admin_token_audited worker_or_404_Inl)

lemma disconnect_worker_Inr:
  "disconnect_worker P cf clk w a s = (s', Inr u) \<longleftrightarrow>
     admits (admin_credential cf) a \<and> find_worker w s \<noteq> None \<and>
     s' = emit P (clk 2) ''removed'' (Some w) None (Some ''disconnected via dashboard'')
            (disconnect_section w (clk 1) s)"
  by (auto simp: disconnect_worker_def and_then_Inr require_admin_token_Inr worker_or_404_Inr)

lemma disconnect_worker_Inl: "disconnect_worker P cf clk w a s = (s', Inl e) \<Longrightarrow> only_audited s s'"
  by (auto simp: disconnect_worker_def and_then_Inl require_admin_token_Inr worker_or_404_Inr
      dest!: require_admin_token_audited worker_or_404_Inl)

end
