(* ===== verification/Dispatch.thy ===== *)
theory Dispatch imports Auth begin

text \<open>
  Handing out work (\<open>src/orchestrator/app.py\<close>): \<open>reap_expired\<close>, \<open>GET /jobs/next\<close> and \<open>POST /heartbeat\<close>.
  The \<open>write_lock\<close> sections take what their handler read before the lock (the worker's row) as
  arguments; \<open>None\<close> as an assignment is the 204 response.
\<close>

definition LEASE_SECONDS :: int where "LEASE_SECONDS = 20"

definition lease_deadline :: "time \<Rightarrow> time" where
  "lease_deadline now = now + seconds LEASE_SECONDS"

section \<open>Expired leases\<close>

definition lease_before :: "time \<Rightarrow> job \<Rightarrow> bool" where
  "lease_before now j \<longleftrightarrow> jb_state j = Leased \<and> (case jb_lease_expires j of None \<Rightarrow> False | Some t \<Rightarrow> t < now)"

definition reap_expired :: "time \<Rightarrow> time \<Rightarrow> db \<Rightarrow> db" where
  "reap_expired t1 t2 s = update_jobs (lease_before t2) (requeued t1) s"

section \<open>GET /jobs/next\<close>

definition leased_to :: "str \<Rightarrow> time \<Rightarrow> time \<Rightarrow> job \<Rightarrow> job" where
  "leased_to worker_id deadline now j =
     j\<lparr>jb_state := Leased, jb_assigned_worker := Some worker_id, jb_lease_expires := Some deadline,
       jb_attempts := jb_attempts j + 1, jb_updated_at := now\<rparr>"

definition queued_with_id :: "str \<Rightarrow> job \<Rightarrow> bool" where
  "queued_with_id job_id j \<longleftrightarrow> jb_job_id j = job_id \<and> jb_state j = Queued"

definition take_lease :: "str \<Rightarrow> str \<Rightarrow> time \<Rightarrow> time \<Rightarrow> db \<Rightarrow> db" where
  "take_lease worker_id job_id deadline now s =
     update_worker worker_id (\<lambda>r. r\<lparr>wk_idle := False, wk_last_heartbeat := Some now\<rparr>)
       (update_jobs (queued_with_id job_id) (leased_to worker_id deadline now) s)"

definition lease_section ::
  "str \<Rightarrow> capability \<Rightarrow> rat option \<Rightarrow> time \<Rightarrow> time \<Rightarrow> time \<Rightarrow> db \<Rightarrow> db \<times> job option" where
  "lease_section worker_id cap free_ram_gb t_defer t_deadline now s =
     (if worker_busy worker_id s then (s, None)
      else case pick_job_for s cap free_ram_gb of
        None \<Rightarrow> (s, None)
      | Some j \<Rightarrow>
          if defer_to_less_loaded s worker_id (jb_created_at j) t_defer then (s, None)
          else (take_lease worker_id (jb_job_id j) (lease_deadline t_deadline) now s, Some j))"

definition jobs_next ::
  "primitives \<Rightarrow> manifest_bytes \<Rightarrow> config \<Rightarrow> clock \<Rightarrow> str \<Rightarrow> str option \<Rightarrow> str option
   \<Rightarrow> job_assignment option handler" where
  "jobs_next P mbytes cf clk worker_id scope_fingerprint authorization =
     and_then (require_worker_token P cf (clk 0) worker_id authorization
                 (verified_client_fingerprint scope_fingerprint))
       (\<lambda>worker s.
          if wk_blacklisted worker then (s, Inr None)
          else if \<not> wk_approved worker then (s, Inr None)
          else
            (let s1 = reap_expired (clk 1) (clk 2) s;
                 cap = wk_capability worker
             in if cap_measurement_only cap then (s1, Inr None)
                else case lease_section worker_id cap (wk_free_ram_gb worker) (clk 3) (clk 4) (clk 5) s1 of
                    (s2, None) \<Rightarrow> (s2, Inr None)
                  | (s2, Some j) \<Rightarrow>
                      (emit P (clk 6) ''assigned'' (Some worker_id) (Some (jb_job_id j))
                         (Some (mf_kind (jb_manifest j))) s2,
                       Inr (Some \<lparr>ja_signed_manifest = sign P mbytes (cf_signer cf) (jb_manifest j),
                                  ja_input = jb_input j\<rparr>))))"

section \<open>POST /heartbeat\<close>

definition heartbeat_row :: "heartbeat_request \<Rightarrow> bool \<Rightarrow> time \<Rightarrow> worker \<Rightarrow> worker" where
  "heartbeat_row req measurement_only now r =
     (if measurement_only
      then r\<lparr>wk_idle := True, wk_cpu_pct := Some 0, wk_gpu_pct := None, wk_on_ac := False,
             wk_free_ram_gb := None, wk_last_heartbeat := Some now\<rparr>
      else r\<lparr>wk_idle := hb_idle req, wk_cpu_pct := Some (hb_cpu_pct req), wk_gpu_pct := hb_gpu_pct req,
             wk_on_ac := hb_on_ac req,
             wk_free_ram_gb := (case hb_free_ram_gb req of Some f \<Rightarrow> Some f | None \<Rightarrow> wk_free_ram_gb r),
             wk_last_heartbeat := Some now\<rparr>)"

definition lease_over :: "str \<Rightarrow> str \<Rightarrow> time \<Rightarrow> job \<Rightarrow> bool" where
  "lease_over job_id worker_id now j \<longleftrightarrow> held_by job_id worker_id j \<and>
     (case jb_lease_expires j of None \<Rightarrow> False | Some t \<Rightarrow> t \<le> now)"

definition lease_live :: "str \<Rightarrow> str \<Rightarrow> time \<Rightarrow> job \<Rightarrow> bool" where
  "lease_live job_id worker_id now j \<longleftrightarrow> held_by job_id worker_id j \<and>
     (case jb_lease_expires j of None \<Rightarrow> False | Some t \<Rightarrow> now < t)"

definition renew_lease :: "str \<Rightarrow> str \<Rightarrow> time \<Rightarrow> time \<Rightarrow> db \<Rightarrow> db" where
  "renew_lease job_id worker_id now deadline s =
     update_jobs (lease_live job_id worker_id now)
       (\<lambda>j. j\<lparr>jb_lease_expires := Some deadline, jb_updated_at := now\<rparr>)
       (update_jobs (lease_over job_id worker_id now) (requeued now) s)"

definition heartbeat_section :: "heartbeat_request \<Rightarrow> bool \<Rightarrow> time \<Rightarrow> time \<Rightarrow> db \<Rightarrow> db" where
  "heartbeat_section req measurement_only now t_deadline s =
     (let s1 = update_worker (hb_worker_id req) (heartbeat_row req measurement_only now) s
      in case hb_current_job_id req of
        None \<Rightarrow> s1
      | Some job_id \<Rightarrow>
          if \<not> measurement_only \<and> job_id \<noteq> []
          then renew_lease job_id (hb_worker_id req) now (lease_deadline t_deadline) s1
          else s1)"

definition heartbeat ::
  "primitives \<Rightarrow> config \<Rightarrow> clock \<Rightarrow> str option \<Rightarrow> heartbeat_request \<Rightarrow> str option
   \<Rightarrow> heartbeat_response handler" where
  "heartbeat P cf clk scope_fingerprint req authorization =
     and_then (require_worker_token P cf (clk 0) (hb_worker_id req) authorization
                 (verified_client_fingerprint scope_fingerprint))
       (\<lambda>worker s.
          (heartbeat_section req (cap_measurement_only (wk_capability worker)) (clk 1) (clk 2) s,
           Inr \<lparr>hr_ack = True, hr_preempt = False, hr_approved = wk_approved worker\<rparr>))"

section \<open>Leases\<close>

lemma leased_to_simps [simp]:
  "jb_job_id (leased_to w d t j) = jb_job_id j" "jb_manifest (leased_to w d t j) = jb_manifest j"
  "jb_state (leased_to w d t j) = Leased" "jb_assigned_worker (leased_to w d t j) = Some w"
  "jb_lease_expires (leased_to w d t j) = Some d" "jb_units (leased_to w d t j) = jb_units j"
  "jb_result (leased_to w d t j) = jb_result j" "jb_kind (leased_to w d t j) = jb_kind j"
  "jb_input (leased_to w d t j) = jb_input j" "jb_created_at (leased_to w d t j) = jb_created_at j"
  "jb_workload_id (leased_to w d t j) = jb_workload_id j"
  by (simp_all add: leased_to_def)

lemma reap_expired_frame [simp, frame]:
  "db_workers (reap_expired t1 t2 s) = db_workers s"
  "db_ledger (reap_expired t1 t2 s) = db_ledger s"
  "db_ledger_seq (reap_expired t1 t2 s) = db_ledger_seq s"
  "db_events (reap_expired t1 t2 s) = db_events s"
  "db_event_seq (reap_expired t1 t2 s) = db_event_seq s"
  "db_profiles (reap_expired t1 t2 s) = db_profiles s"
  "db_jobs (reap_expired t1 t2 s) = update_where (lease_before t2) (requeued t1) (db_jobs s)"
  by (simp_all add: reap_expired_def)

lemma take_lease_frame [simp, frame]:
  "db_ledger (take_lease w j d t s) = db_ledger s"
  "db_ledger_seq (take_lease w j d t s) = db_ledger_seq s"
  "db_events (take_lease w j d t s) = db_events s"
  "db_event_seq (take_lease w j d t s) = db_event_seq s"
  "db_profiles (take_lease w j d t s) = db_profiles s"
  "db_jobs (take_lease w j d t s) = update_where (queued_with_id j) (leased_to w d t) (db_jobs s)"
  by (simp_all add: take_lease_def)

lemma lease_section_cases:
  assumes "lease_section w cap f t1 t2 t3 s = (s', r)"
  obtains (idle) "s' = s" "r = None"
  | (leased) j where "r = Some j" "\<not> worker_busy w s" "pick_job_for s cap f = Some j"
      "\<not> defer_to_less_loaded s w (jb_created_at j) t1"
      "s' = take_lease w (jb_job_id j) (lease_deadline t2) t3 s"
proof (cases "worker_busy w s")
  case True
  with assms show thesis by (intro idle) (simp_all add: lease_section_def)
next
  case free: False
  show thesis
  proof (cases "pick_job_for s cap f")
    case None
    with assms free show thesis by (intro idle) (simp_all add: lease_section_def)
  next
    case (Some j)
    show thesis
    proof (cases "defer_to_less_loaded s w (jb_created_at j) t1")
      case True
      with assms free Some show thesis by (intro idle) (simp_all add: lease_section_def)
    next
      case False
      with assms free Some show thesis by (intro leased [of j]) (simp_all add: lease_section_def)
    qed
  qed
qed

lemma heartbeat_section_jobs:
  "db_jobs (heartbeat_section req m now t s) =
     (case hb_current_job_id req of
        Some job_id \<Rightarrow> if \<not> m \<and> job_id \<noteq> []
          then db_jobs (renew_lease job_id (hb_worker_id req) now (lease_deadline t) s) else db_jobs s
      | None \<Rightarrow> db_jobs s)"
  by (auto simp: heartbeat_section_def renew_lease_def Let_def split: option.splits)

lemma heartbeat_section_frame [simp, frame]:
  "db_ledger (heartbeat_section req m now t s) = db_ledger s"
  "db_ledger_seq (heartbeat_section req m now t s) = db_ledger_seq s"
  "db_events (heartbeat_section req m now t s) = db_events s"
  "db_event_seq (heartbeat_section req m now t s) = db_event_seq s"
  "db_profiles (heartbeat_section req m now t s) = db_profiles s"
  "db_workers (heartbeat_section req m now t s) =
     update_where (\<lambda>r. wk_worker_id r = hb_worker_id req) (heartbeat_row req m now) (db_workers s)"
  by (auto simp: heartbeat_section_def renew_lease_def Let_def split: option.splits)

lemma heartbeat_row_simps [simp]:
  "wk_worker_id (heartbeat_row req m now r) = wk_worker_id r"
  "wk_capability (heartbeat_row req m now r) = wk_capability r"
  "wk_token (heartbeat_row req m now r) = wk_token r"
  "wk_approved (heartbeat_row req m now r) = wk_approved r"
  "wk_blacklisted (heartbeat_row req m now r) = wk_blacklisted r"
  "wk_trust_tier (heartbeat_row req m now r) = wk_trust_tier r"
  "wk_tier_pinned (heartbeat_row req m now r) = wk_tier_pinned r"
  "wk_device_code (heartbeat_row req m now r) = wk_device_code r"
  "wk_cert_fingerprint (heartbeat_row req m now r) = wk_cert_fingerprint r"
  by (simp_all add: heartbeat_row_def)

text \<open>Every way the handler can end, with what it knew and did.\<close>

lemma jobs_next_cases:
  assumes "jobs_next P mb cf clk w sfp a s = (s', r)"
  obtains (refused) e where "r = Inl e" "only_audited s s'"
  | (no_work) "r = Inr None" "s' = s \<or> s' = reap_expired (clk 1) (clk 2) s"
  | (assigned) worker j where
      "r = Inr (Some \<lparr>ja_signed_manifest = sign P mb (cf_signer cf) (jb_manifest j), ja_input = jb_input j\<rparr>)"
      "find_worker w s = Some worker" "presents a (wk_token worker)"
      "device_bound cf worker (verified_client_fingerprint sfp)"
      "\<not> wk_blacklisted worker" "wk_approved worker" "\<not> cap_measurement_only (wk_capability worker)"
      "\<not> worker_busy w (reap_expired (clk 1) (clk 2) s)"
      "pick_job_for (reap_expired (clk 1) (clk 2) s) (wk_capability worker) (wk_free_ram_gb worker) = Some j"
      "\<not> defer_to_less_loaded (reap_expired (clk 1) (clk 2) s) w (jb_created_at j) (clk 3)"
      "s' = emit P (clk 6) ''assigned'' (Some w) (Some (jb_job_id j)) (Some (mf_kind (jb_manifest j)))
         (take_lease w (jb_job_id j) (lease_deadline (clk 4)) (clk 5) (reap_expired (clk 1) (clk 2) s))"
proof -
  obtain t x where auth: "require_worker_token P cf (clk 0) w a (verified_client_fingerprint sfp) s = (t, x)"
    by fastforce
  show thesis
  proof (cases x)
    case (Inl e)
    with auth assms show thesis
      by (intro refused [of e]) (auto simp: jobs_next_def and_then_def dest: require_worker_token_audited)
  next
    case (Inr worker)
    note sound = require_worker_token_sound [OF auth [unfolded Inr]]
    let ?s1 = "reap_expired (clk 1) (clk 2) s"
    show thesis
    proof (cases "wk_blacklisted worker \<or> \<not> wk_approved worker \<or> cap_measurement_only (wk_capability worker)")
      case True
      with assms auth Inr sound(1) show thesis
        by (intro no_work) (auto simp: jobs_next_def and_then_def Let_def split: if_splits)
    next
      case False
      obtain s2 o2 where sec:
        "lease_section w (wk_capability worker) (wk_free_ram_gb worker) (clk 3) (clk 4) (clk 5) ?s1 = (s2, o2)"
        by fastforce
      from sec show thesis
      proof (cases rule: lease_section_cases)
        case idle
        with assms auth Inr sound(1) False sec show thesis
          by (intro no_work) (auto simp: jobs_next_def and_then_def Let_def)
      next
        case (leased j)
        with assms auth Inr sound False sec show thesis
          by (intro assigned [of j worker]) (auto simp: jobs_next_def and_then_def Let_def)
      qed
    qed
  qed
qed

lemma heartbeat_cases:
  assumes "heartbeat P cf clk sfp req a s = (s', r)"
  obtains (refused) e where "r = Inl e" "only_audited s s'"
  | (ok) worker where "find_worker (hb_worker_id req) s = Some worker" "presents a (wk_token worker)"
      "r = Inr \<lparr>hr_ack = True, hr_preempt = False, hr_approved = wk_approved worker\<rparr>"
      "s' = heartbeat_section req (cap_measurement_only (wk_capability worker)) (clk 1) (clk 2) s"
proof -
  obtain t x where auth:
    "require_worker_token P cf (clk 0) (hb_worker_id req) a (verified_client_fingerprint sfp) s = (t, x)"
    by fastforce
  show thesis
  proof (cases x)
    case (Inl e)
    with auth assms show thesis
      by (intro refused [of e]) (auto simp: heartbeat_def and_then_def dest: require_worker_token_audited)
  next
    case (Inr worker)
    from require_worker_token_sound [OF auth [unfolded Inr]] auth assms Inr show thesis
      by (intro ok [of worker]) (auto simp: heartbeat_def and_then_def)
  qed
qed

end
