(* ===== verification/Results.thy ===== *)
theory Results imports Dispatch begin

text \<open>
  \<open>POST /results/{job_id}\<close> (\<open>src/orchestrator/app.py\<close>): the checks a result passes before it is
  credited, in the order of the code, and the ledger entry that credits it. The last branch of the
  handler (an unknown status) cannot be reached from a validated request and has no counterpart.
\<close>

definition MAX_RESULT_OUTPUT_BYTES :: nat where
  "MAX_RESULT_OUTPUT_BYTES = 8 * 1024 * 1024"

section \<open>Printing credits\<close>

text \<open>Python's \<open>:g\<close> of a non-negative integral float: six significant digits.\<close>

definition strip_zeros :: "str \<Rightarrow> str" where
  "strip_zeros s = rev (dropWhile (\<lambda>c. c = CHR ''0'') (rev s))"

definition format_g :: "rat \<Rightarrow> str" where
  "format_g x =
     (let n = nat \<lfloor>x\<rfloor>
      in if n < 1000000 then show_nat n
         else
           (let d = length (show_nat n) - 1;
                m = nat (rne (of_nat n / 10 ^ (d - 5)));
                (m', d') = (if m = 1000000 then (100000, d + 1) else (m, d));
                digits = strip_zeros (show_nat m')
            in take 1 digits @ (if length digits = 1 then [] else ''.'' @ drop 1 digits) @ ''e+''
               @ (if d' < 10 then ''0'' else []) @ show_nat d'))"

section \<open>The integrity challenge of a result\<close>

definition square_plus_one :: "pyfloat \<Rightarrow> pyfloat" where
  "square_plus_one v = (case v of Fin x \<Rightarrow> Fin (fadd (fmul x x) 1) | PosInf \<Rightarrow> PosInf | NegInf \<Rightarrow> PosInf | NaN \<Rightarrow> NaN)"

definition challenge_expected :: "dict \<Rightarrow> http_error + dict" where
  "challenge_expected job_input =
     (case dict_get job_input ''x'' of
        None \<Rightarrow> Inl (Uncaught ''KeyError'')
      | Some (JInt x) \<Rightarrow> Inr [(''y'', JInt (x * x + 1))]
      | Some (JBool b) \<Rightarrow> Inr [(''y'', JInt ((if b then 1 else 0) + 1))]
      | Some (JFloat v) \<Rightarrow> Inr [(''y'', JFloat (square_plus_one v))]
      | Some _ \<Rightarrow> Inl (Uncaught ''TypeError''))"

section \<open>The section under the lock\<close>

definition rejected :: "str \<Rightarrow> result_response" where
  "rejected reason = \<lparr>rp_accepted = False, rp_credited = 0, rp_reason = Some reason\<rparr>"

definition job_weight :: "job_manifest \<Rightarrow> rat" where
  "job_weight m = (if rq_needs_gpu (mf_requires m) then 5 else 1)"

definition job_credits :: "job \<Rightarrow> rat" where
  "job_credits j = fmul (fl64 (of_int (jb_units j))) (job_weight (jb_manifest j))"

definition completed_with :: "dict \<Rightarrow> time \<Rightarrow> job \<Rightarrow> job" where
  "completed_with output now j =
     j\<lparr>jb_state := Completed, jb_result := Some output, jb_lease_expires := None, jb_updated_at := now\<rparr>"

definition credit_job :: "job \<Rightarrow> str \<Rightarrow> dict \<Rightarrow> time \<Rightarrow> db \<Rightarrow> db" where
  "credit_job j worker_id output now s =
     (let s1 = update_jobs (held_by (jb_job_id j) worker_id) (completed_with output now) s;
          i = Suc (db_ledger_seq s1)
      in s1\<lparr>db_ledger := db_ledger s1 @
              [\<lparr>lg_id = i, lg_worker_id = worker_id, lg_job_id = Some (jb_job_id j),
                lg_credits = job_credits j, lg_reason = Some ''completed'', lg_created_at = now\<rparr>],
            db_ledger_seq := i\<rparr>)"

definition blacklist_worker :: "str \<Rightarrow> str \<Rightarrow> time \<Rightarrow> db \<Rightarrow> db" where
  "blacklist_worker worker_id job_id now s =
     requeue_job job_id worker_id now (update_worker worker_id (wk_blacklisted_update (\<lambda>_. True)) s)"

definition accept_result ::
  "primitives \<Rightarrow> job \<Rightarrow> str \<Rightarrow> dict \<Rightarrow> time \<Rightarrow> time \<Rightarrow> result_response handler" where
  "accept_result P j worker_id output now t s =
     (emit P t ''completed'' (Some worker_id) (Some (jb_job_id j))
        (Some (''+'' @ format_g (job_credits j) @ '' credits'')) (credit_job j worker_id output now s),
      Inr \<lparr>rp_accepted = True, rp_credited = job_credits j, rp_reason = None\<rparr>)"

definition completed_result ::
  "primitives \<Rightarrow> job \<Rightarrow> result_request \<Rightarrow> dict \<Rightarrow> time \<Rightarrow> time \<Rightarrow> result_response handler" where
  "completed_result P j req output now t s =
     (let worker_id = rs_worker_id req; job_id = jb_job_id j
      in if (case rs_proof_sha256 req of None \<Rightarrow> False
             | Some p \<Rightarrow> p \<noteq> [] \<and> p \<noteq> sha256_hex (p_sha256 P) (p_float_repr P) (JObj output))
         then (requeue_job job_id worker_id now s, Inr (rejected ''invalid_proof''))
         else if mf_kind (jb_manifest j) = ''challenge'' then
           (case challenge_expected (jb_input j) of
              Inl e \<Rightarrow> (s, Inl e)
            | Inr expected \<Rightarrow>
                if check_challenge output expected then accept_result P j worker_id output now t s
                else (emit P t ''blacklisted'' (Some worker_id) (Some job_id)
                        (Some ''failed integrity challenge'') (blacklist_worker worker_id job_id now s),
                      Inr (rejected ''cheater_blacklisted'')))
         else accept_result P j worker_id output now t s)"

definition results_section ::
  "primitives \<Rightarrow> result_request \<Rightarrow> time \<Rightarrow> time \<Rightarrow> result_response handler" where
  "results_section P req now t s =
     (let worker_id = rs_worker_id req; job_id = rs_job_id req
      in case find_job job_id s of
        None \<Rightarrow> (s, Raise 404 ''job not found'')
      | Some j \<Rightarrow>
          if jb_state j \<noteq> Leased \<or> jb_assigned_worker j \<noteq> Some worker_id then (s, Inr (rejected ''not_leased''))
          else if (case jb_lease_expires j of None \<Rightarrow> True | Some d \<Rightarrow> d \<le> now) then
            (requeue_job job_id worker_id now s, Inr (rejected ''lease_expired''))
          else
            (let output = (case rs_output req of None \<Rightarrow> [] | Some d \<Rightarrow> d)
             in if MAX_RESULT_OUTPUT_BYTES < length (dumps_ascii (p_float_repr P) (JObj output))
                then (s, Inr (rejected ''payload_too_large''))
                else if rs_status req = StCompleted then completed_result P j req output now t s
                else (emit P t (status_name (rs_status req)) (Some worker_id) (Some job_id) None
                        (requeue_job job_id worker_id now s),
                      Inr (rejected (status_name (rs_status req))))))"

definition results ::
  "primitives \<Rightarrow> config \<Rightarrow> clock \<Rightarrow> str \<Rightarrow> str option \<Rightarrow> result_request \<Rightarrow> str option
   \<Rightarrow> result_response handler" where
  "results P cf clk job_id scope_fingerprint req authorization s =
     (if rs_job_id req \<noteq> job_id then (s, Raise 400 ''job id mismatch'')
      else and_then (require_worker_token P cf (clk 0) (rs_worker_id req) authorization
                       (verified_client_fingerprint scope_fingerprint))
        (\<lambda>worker s1.
           if wk_blacklisted worker then (s1, Inr (rejected ''blacklisted''))
           else results_section P req (clk 1) (clk 2) s1) s)"

section \<open>What a result can do\<close>

lemma completed_with_simps [simp]:
  "jb_job_id (completed_with out t j) = jb_job_id j" "jb_manifest (completed_with out t j) = jb_manifest j"
  "jb_state (completed_with out t j) = Completed" "jb_units (completed_with out t j) = jb_units j"
  "jb_assigned_worker (completed_with out t j) = jb_assigned_worker j"
  "jb_lease_expires (completed_with out t j) = None" "jb_result (completed_with out t j) = Some out"
  by (simp_all add: completed_with_def)

lemma credit_job_frame [simp, frame]:
  "db_workers (credit_job j w out t s) = db_workers s"
  "db_events (credit_job j w out t s) = db_events s"
  "db_event_seq (credit_job j w out t s) = db_event_seq s"
  "db_profiles (credit_job j w out t s) = db_profiles s"
  "db_ledger_seq (credit_job j w out t s) = Suc (db_ledger_seq s)"
  "db_jobs (credit_job j w out t s) =
     update_where (held_by (jb_job_id j) w) (completed_with out t) (db_jobs s)"
  "db_ledger (credit_job j w out t s) = db_ledger s @
     [\<lparr>lg_id = Suc (db_ledger_seq s), lg_worker_id = w, lg_job_id = Some (jb_job_id j),
       lg_credits = job_credits j, lg_reason = Some ''completed'', lg_created_at = t\<rparr>]"
  by (simp_all add: credit_job_def Let_def)

lemma blacklist_worker_frame [simp, frame]:
  "db_events (blacklist_worker w j t s) = db_events s"
  "db_event_seq (blacklist_worker w j t s) = db_event_seq s"
  "db_profiles (blacklist_worker w j t s) = db_profiles s"
  "db_ledger (blacklist_worker w j t s) = db_ledger s"
  "db_ledger_seq (blacklist_worker w j t s) = db_ledger_seq s"
  "db_jobs (blacklist_worker w j t s) = update_where (held_by j w) (requeued t) (db_jobs s)"
  "db_workers (blacklist_worker w j t s) =
     update_where (\<lambda>r. wk_worker_id r = w) (wk_blacklisted_update (\<lambda>_. True)) (db_workers s)"
  by (simp_all add: blacklist_worker_def)

definition live_lease :: "job \<Rightarrow> str \<Rightarrow> time \<Rightarrow> bool" where
  "live_lease j w now \<longleftrightarrow> jb_state j = Leased \<and> jb_assigned_worker j = Some w \<and>
     (\<exists>d. jb_lease_expires j = Some d \<and> now < d)"

definition result_output :: "result_request \<Rightarrow> dict" where
  "result_output req = (case rs_output req of None \<Rightarrow> [] | Some d \<Rightarrow> d)"

definition proof_mismatch :: "primitives \<Rightarrow> result_request \<Rightarrow> bool" where
  "proof_mismatch P req \<longleftrightarrow> (\<exists>p. rs_proof_sha256 req = Some p \<and> p \<noteq> [] \<and>
     p \<noteq> sha256_hex (p_sha256 P) (p_float_repr P) (JObj (result_output req)))"

lemma completed_result_cases:
  assumes "completed_result P j req (result_output req) now t s = (s', r)"
  obtains (error) e where "s' = s" "r = Inl e"
  | (invalid) "s' = requeue_job (jb_job_id j) (rs_worker_id req) now s" "r = Inr (rejected ''invalid_proof'')"
  | (blacklisted) expected where "mf_kind (jb_manifest j) = ''challenge''"
      "challenge_expected (jb_input j) = Inr expected" "\<not> check_challenge (result_output req) expected"
      "s' = emit P t ''blacklisted'' (Some (rs_worker_id req)) (Some (jb_job_id j))
             (Some ''failed integrity challenge'') (blacklist_worker (rs_worker_id req) (jb_job_id j) now s)"
      "r = Inr (rejected ''cheater_blacklisted'')"
  | (credited) "\<not> proof_mismatch P req"
      "mf_kind (jb_manifest j) = ''challenge'' \<Longrightarrow>
         \<exists>e. challenge_expected (jb_input j) = Inr e \<and> check_challenge (result_output req) e"
      "(s', r) = accept_result P j (rs_worker_id req) (result_output req) now t s"
proof (cases "proof_mismatch P req")
  case True
  with assms show thesis by (intro invalid) (auto simp: completed_result_def proof_mismatch_def)
next
  case good: False
  then have *: "(case rs_proof_sha256 req of None \<Rightarrow> False
     | Some p \<Rightarrow> p \<noteq> [] \<and> p \<noteq> sha256_hex (p_sha256 P) (p_float_repr P) (JObj (result_output req))) = False"
    by (auto simp: proof_mismatch_def split: option.splits)
  note step = assms [unfolded completed_result_def Let_def * if_False]
  show thesis
  proof (cases "mf_kind (jb_manifest j) = ''challenge''")
    case False
    with step good show thesis by (intro credited) simp_all
  next
    case ch: True
    show thesis
    proof (cases "challenge_expected (jb_input j)")
      case (Inl e)
      with step ch show thesis by (intro error [of e]) simp_all
    next
      case (Inr expected)
      with step ch good show thesis
        by (cases "check_challenge (result_output req) expected")
           (auto intro: credited blacklisted)
    qed
  qed
qed

text \<open>The kinds of effect of the section, with what was known when each was chosen.\<close>

lemma results_section_held:
  assumes "find_job (rs_job_id req) s = Some j" "jb_state j = Leased" "jb_assigned_worker j = Some (rs_worker_id req)"
  shows "results_section P req now t s =
    (if \<not> live_lease j (rs_worker_id req) now then
       (requeue_job (rs_job_id req) (rs_worker_id req) now s, Inr (rejected ''lease_expired''))
     else if MAX_RESULT_OUTPUT_BYTES < length (dumps_ascii (p_float_repr P) (JObj (result_output req)))
     then (s, Inr (rejected ''payload_too_large''))
     else if rs_status req = StCompleted then completed_result P j req (result_output req) now t s
     else (emit P t (status_name (rs_status req)) (Some (rs_worker_id req)) (Some (rs_job_id req)) None
             (requeue_job (rs_job_id req) (rs_worker_id req) now s),
           Inr (rejected (status_name (rs_status req)))))"
proof -
  have "(case jb_lease_expires j of None \<Rightarrow> True | Some d \<Rightarrow> d \<le> now) = (\<not> live_lease j (rs_worker_id req) now)"
    using assms by (auto simp: live_lease_def split: option.splits)
  then show ?thesis using assms unfolding results_section_def result_output_def Let_def by simp
qed

lemma results_section_cases:
  assumes "results_section P req now t s = (s', r)"
  obtains (unchanged) "s' = s"
      "\<And>resp. r = Inr resp \<Longrightarrow> resp \<in> rejected ` {''not_leased'', ''payload_too_large''}"
  | (requeued) j ty where "find_job (rs_job_id req) s = Some j" "held_by (rs_job_id req) (rs_worker_id req) j"
      "s' = requeue_job (rs_job_id req) (rs_worker_id req) now s \<or>
       s' = emit P t ty (Some (rs_worker_id req)) (Some (rs_job_id req)) None
              (requeue_job (rs_job_id req) (rs_worker_id req) now s)"
      "\<exists>x. r = Inr (rejected x)"
  | (blacklisted) j expected where "find_job (rs_job_id req) s = Some j" "live_lease j (rs_worker_id req) now"
      "rs_status req = StCompleted" "mf_kind (jb_manifest j) = ''challenge''"
      "challenge_expected (jb_input j) = Inr expected" "\<not> check_challenge (result_output req) expected"
      "s' = emit P t ''blacklisted'' (Some (rs_worker_id req)) (Some (rs_job_id req))
             (Some ''failed integrity challenge'') (blacklist_worker (rs_worker_id req) (rs_job_id req) now s)"
      "r = Inr (rejected ''cheater_blacklisted'')"
  | (credited) j where "find_job (rs_job_id req) s = Some j" "live_lease j (rs_worker_id req) now"
      "rs_status req = StCompleted"
      "length (dumps_ascii (p_float_repr P) (JObj (result_output req))) \<le> MAX_RESULT_OUTPUT_BYTES"
      "\<not> proof_mismatch P req"
      "mf_kind (jb_manifest j) = ''challenge'' \<Longrightarrow>
         \<exists>e. challenge_expected (jb_input j) = Inr e \<and> check_challenge (result_output req) e"
      "(s', r) = accept_result P j (rs_worker_id req) (result_output req) now t s"
proof (cases "\<exists>j. find_job (rs_job_id req) s = Some j \<and> held_by (rs_job_id req) (rs_worker_id req) j")
  case False
  show thesis
  proof (cases "find_job (rs_job_id req) s")
    case None
    with assms show thesis by (intro unchanged) (auto simp: results_section_def)
  next
    case (Some j)
    with False have "jb_state j \<noteq> Leased \<or> jb_assigned_worker j \<noteq> Some (rs_worker_id req)"
      by (auto simp: held_by_def dest: find_job_Some)
    with assms Some show thesis by (intro unchanged) (auto simp: results_section_def)
  qed
next
  case True
  then obtain j where j: "find_job (rs_job_id req) s = Some j" "held_by (rs_job_id req) (rs_worker_id req) j"
    by blast
  then have jid: "jb_job_id j = rs_job_id req" by (simp add: held_by_def)
  note step = assms [unfolded results_section_held [OF j(1) j(2) [unfolded held_by_def, THEN conjunct2, THEN conjunct1]
        j(2) [unfolded held_by_def, THEN conjunct2, THEN conjunct2]]]
  show thesis
  proof (cases "live_lease j (rs_worker_id req) now")
    case False
    with step j show thesis by (intro requeued [of j undefined]) auto
  next
    case live: True
    show thesis
    proof (cases "MAX_RESULT_OUTPUT_BYTES < length (dumps_ascii (p_float_repr P) (JObj (result_output req)))")
      case True
      with step live show thesis by (intro unchanged) simp_all
    next
      case small: False
      show thesis
      proof (cases "rs_status req = StCompleted")
        case False
        with step j live small show thesis
          by (intro requeued [of j "status_name (rs_status req)"]) auto
      next
        case st: True
        with step live small have "completed_result P j req (result_output req) now t s = (s', r)" by simp
        then show thesis
        proof (cases rule: completed_result_cases)
          case error
          then show thesis by (intro unchanged) simp_all
        next
          case invalid
          with j jid show thesis by (intro requeued [of j undefined]) auto
        next
          case (blacklisted expected)
          with j jid live st show thesis by (intro that(3) [of j expected]) simp_all
        next
          case credited
          with j live st small show thesis by (intro that(4) [of j]) simp_all
        qed
      qed
    qed
  qed
qed

lemma results_cases:
  assumes "results P cf clk job_id sfp req a s = (s', r)"
  obtains (refused) e where "r = Inl e" "only_audited s s'"
  | (banned) worker where "find_worker (rs_worker_id req) s = Some worker" "wk_blacklisted worker"
      "s' = s" "r = Inr (rejected ''blacklisted'')"
  | (decided) worker where "rs_job_id req = job_id" "find_worker (rs_worker_id req) s = Some worker"
      "presents a (wk_token worker)" "device_bound cf worker (verified_client_fingerprint sfp)"
      "\<not> wk_blacklisted worker" "results_section P req (clk 1) (clk 2) s = (s', r)"
proof (cases "rs_job_id req = job_id")
  case False
  with assms show thesis by (intro refused) (auto simp: results_def)
next
  case same: True
  obtain t x where auth:
    "require_worker_token P cf (clk 0) (rs_worker_id req) a (verified_client_fingerprint sfp) s = (t, x)"
    by fastforce
  show thesis
  proof (cases x)
    case (Inl e)
    with auth assms same show thesis
      by (intro refused [of e]) (auto simp: results_def and_then_def dest: require_worker_token_audited)
  next
    case (Inr worker)
    note sound = require_worker_token_sound [OF auth [unfolded Inr]]
    from sound auth assms same Inr show thesis
      by (cases "wk_blacklisted worker")
         (auto simp: results_def and_then_def intro: banned [of worker] decided [of worker])
  qed
qed

end
