(* ===== verification/Lifecycle.thy ===== *)
theory Lifecycle imports Submit Enrolment Results begin

text \<open>
  The invariants of the tables, one per concern, and the lemma that each kind of statement keeps
  them: the shape of a job row in each state (\<open>job_wf\<close>), at most one lease per worker
  (\<open>single_leases\<close>), the ledger paying every completed job exactly once (\<open>ledger_ok\<close>), and the shape
  of a worker row (\<open>worker_wf\<close>). \<open>Fleet\<close> puts them together over the step relation.
\<close>

named_theorems inv_defs

section \<open>Job rows\<close>

definition job_wf :: "job \<Rightarrow> bool" where
  "job_wf j \<longleftrightarrow>
     mf_job_id (jb_manifest j) = jb_job_id j \<and> mf_kind (jb_manifest j) = jb_kind j \<and>
     jb_kind j \<in> set JobKind \<and> mf_data_classification (jb_manifest j) \<in> set DataClassification \<and>
     0 < jb_units j \<and> int64 (jb_units j) \<and>
     (case jb_state j of
        Queued \<Rightarrow> jb_assigned_worker j = None \<and> jb_lease_expires j = None \<and> jb_result j = None
      | Leased \<Rightarrow> jb_assigned_worker j \<noteq> None \<and> jb_lease_expires j \<noteq> None \<and> jb_result j = None
      | Completed \<Rightarrow> jb_assigned_worker j \<noteq> None \<and> jb_lease_expires j = None \<and> jb_result j \<noteq> None
      | Failed \<Rightarrow> False)"

definition jobs_wf :: "job list \<Rightarrow> bool" where
  "jobs_wf js \<longleftrightarrow> jt.unique_keys js \<and> (\<forall>j \<in> set js. job_wf j)"

definition single_leases :: "job list \<Rightarrow> bool" where
  "single_leases js \<longleftrightarrow> (\<forall>w. \<forall>i \<in> set js. \<forall>j \<in> set js.
     holds_lease w i \<longrightarrow> holds_lease w j \<longrightarrow> jb_job_id i = jb_job_id j)"

lemma jobs_wf_update:
  assumes "jobs_wf js" "\<And>j. Q j \<Longrightarrow> jb_job_id (f j) = jb_job_id j"
    "\<And>j. Q j \<Longrightarrow> job_wf j \<Longrightarrow> job_wf (f j)"
  shows "jobs_wf (update_where Q f js)"
  using assms by (auto simp: jobs_wf_def jt.unique_keys_update set_update_where)

lemma jobs_wf_append:
  "jobs_wf js \<Longrightarrow> jb_job_id j \<notin> jb_job_id ` set js \<Longrightarrow> job_wf j \<Longrightarrow> jobs_wf (js @ [j])"
  by (simp add: jobs_wf_def jt.unique_keys_insert)

lemma single_leasesD:
  "single_leases js \<Longrightarrow> i \<in> set js \<Longrightarrow> j \<in> set js \<Longrightarrow> holds_lease w i \<Longrightarrow> holds_lease w j \<Longrightarrow>
   jb_job_id i = jb_job_id j"
  unfolding single_leases_def by blast

text \<open>A change that hands out no lease cannot create a second one.\<close>

lemma single_leases_back:
  assumes "single_leases js"
    "\<And>j' w. j' \<in> set js' \<Longrightarrow> holds_lease w j' \<Longrightarrow> \<exists>j \<in> set js. jb_job_id j = jb_job_id j' \<and> holds_lease w j"
  shows "single_leases js'"
  unfolding single_leases_def
proof (intro allI ballI impI)
  fix w i j
  assume "i \<in> set js'" "j \<in> set js'" "holds_lease w i" "holds_lease w j"
  then obtain i0 j0 where "i0 \<in> set js" "jb_job_id i0 = jb_job_id i" "holds_lease w i0"
    "j0 \<in> set js" "jb_job_id j0 = jb_job_id j" "holds_lease w j0" using assms(2) by meson
  then show "jb_job_id i = jb_job_id j" using single_leasesD [OF assms(1), of i0 j0 w] by simp
qed

lemma single_leases_update:
  assumes "single_leases js" "\<And>j. Q j \<Longrightarrow> jb_job_id (f j) = jb_job_id j"
    "\<And>j w. Q j \<Longrightarrow> holds_lease w (f j) \<Longrightarrow> holds_lease w j"
  shows "single_leases (update_where Q f js)"
  using assms(1)
proof (rule single_leases_back)
  fix j' w
  assume j': "j' \<in> set (update_where Q f js)" "holds_lease w j'"
  from j'(1) show "\<exists>j \<in> set js. jb_job_id j = jb_job_id j' \<and> holds_lease w j"
  proof (cases rule: in_update_whereE)
    case same
    with j' show ?thesis by blast
  next
    case (changed j)
    with j' assms(2,3) show ?thesis by (intro bexI [of _ j]) auto
  qed
qed

lemma single_leases_append:
  assumes "single_leases js" "jb_state j \<noteq> Leased"
  shows "single_leases (js @ [j])"
  using assms(1) by (rule single_leases_back) (use assms(2) in \<open>auto simp: holds_lease_def\<close>)

text \<open>Handing one to a worker that holds none keeps it single, ids being unique.\<close>

lemma single_leases_take:
  assumes "single_leases js" "\<And>j. j \<in> set js \<Longrightarrow> \<not> holds_lease w j"
  shows "single_leases (update_where (queued_with_id i) (leased_to w d t) js)"
  unfolding single_leases_def
proof (intro allI ballI impI)
  fix v x y
  assume xy: "x \<in> set (update_where (queued_with_id i) (leased_to w d t) js)"
    "y \<in> set (update_where (queued_with_id i) (leased_to w d t) js)" "holds_lease v x" "holds_lease v y"
  have old: "z \<in> set js \<and> holds_lease v z \<or> (v = w \<and> jb_job_id z = i)"
    if "z \<in> set (update_where (queued_with_id i) (leased_to w d t) js)" "holds_lease v z" for z
    using that by (cases rule: in_update_whereE) (auto simp: holds_lease_def queued_with_id_def)
  from old [OF xy(1,3)] old [OF xy(2,4)] show "jb_job_id x = jb_job_id y"
    using assms(2) single_leasesD [OF assms(1), of x y v] xy(3,4) by blast
qed

lemma job_wf_requeued: "job_wf j \<Longrightarrow> jb_state j = Leased \<Longrightarrow> job_wf (requeued t j)"
  by (simp add: job_wf_def)

lemma job_wf_leased_to: "job_wf j \<Longrightarrow> jb_state j = Queued \<Longrightarrow> job_wf (leased_to w d t j)"
  by (simp add: job_wf_def)

lemma job_wf_completed_with: "job_wf j \<Longrightarrow> jb_state j = Leased \<Longrightarrow> job_wf (completed_with out t j)"
  by (simp add: job_wf_def completed_with_def)

lemma job_wf_renewed:
  "job_wf j \<Longrightarrow> jb_state j = Leased \<Longrightarrow> job_wf (j\<lparr>jb_lease_expires := Some d, jb_updated_at := t\<rparr>)"
  by (simp add: job_wf_def)

lemma job_wf_new:
  "valid_submit req \<Longrightarrow> 0 < sr_units req \<Longrightarrow> int64 (sr_units req) \<Longrightarrow>
   job_wf (new_job (new_manifest P req pv jid t1) req wl t2)"
  by (simp add: job_wf_def new_job_def new_manifest_def valid_submit_def)

section \<open>The ledger\<close>

definition pays :: "job list \<Rightarrow> ledger_entry \<Rightarrow> bool" where
  "pays js e \<longleftrightarrow> (\<exists>j \<in> set js. jb_state j = Completed \<and> lg_job_id e = Some (jb_job_id j) \<and>
     jb_assigned_worker j = Some (lg_worker_id e) \<and> lg_credits e = job_credits j)"

definition ledger_ok :: "job list \<Rightarrow> ledger_entry list \<Rightarrow> nat \<Rightarrow> bool" where
  "ledger_ok js L n \<longleftrightarrow> map lg_id L = [1..<Suc n] \<and> (\<forall>e \<in> set L. pays js e) \<and>
     distinct (map lg_job_id L) \<and>
     (\<forall>j \<in> set js. jb_state j = Completed \<longrightarrow> Some (jb_job_id j) \<in> lg_job_id ` set L)"

lemma ledger_ok_update:
  assumes "ledger_ok js L n" "\<And>j. Q j \<Longrightarrow> jb_state j \<noteq> Completed \<and> jb_state (f j) \<noteq> Completed"
  shows "ledger_ok (update_where Q f js) L n"
proof -
  have "pays (update_where Q f js) e" if "pays js e" for e
  proof -
    from that obtain j where j: "j \<in> set js" "jb_state j = Completed" "lg_job_id e = Some (jb_job_id j)"
      "jb_assigned_worker j = Some (lg_worker_id e)" "lg_credits e = job_credits j"
      by (auto simp: pays_def)
    with assms(2) have "j \<in> set (update_where Q f js)" by (force simp: set_update_where image_iff)
    with j show ?thesis by (auto simp: pays_def)
  qed
  with assms show ?thesis by (auto simp: ledger_ok_def elim!: in_update_whereE)
qed

lemma ledger_ok_append_job:
  "ledger_ok js L n \<Longrightarrow> jb_state j \<noteq> Completed \<Longrightarrow> ledger_ok (js @ [j]) L n"
  by (fastforce simp: ledger_ok_def pays_def)

lemma ledger_ok_complete:
  assumes "ledger_ok js L n" "jobs_wf js" "j \<in> set js" "held_by (jb_job_id j) w j"
  shows "ledger_ok (update_where (held_by (jb_job_id j) w) (completed_with out t) js)
     (L @ [\<lparr>lg_id = Suc n, lg_worker_id = w, lg_job_id = Some (jb_job_id j), lg_credits = job_credits j,
            lg_reason = r, lg_created_at = t'\<rparr>]) (Suc n)"
proof -
  let ?js = "update_where (held_by (jb_job_id j) w) (completed_with out t) js"
  have uniq: "i = j" if "i \<in> set js" "jb_job_id i = jb_job_id j" for i
    using that assms(2,3) by (auto simp: jobs_wf_def intro: jt.unique_keys_eq)
  have others: "pays ?js e" if "pays js e" for e
  proof -
    from that obtain i where i: "i \<in> set js" "jb_state i = Completed" "lg_job_id e = Some (jb_job_id i)"
      "jb_assigned_worker i = Some (lg_worker_id e)" "lg_credits e = job_credits i"
      by (auto simp: pays_def)
    then have "i \<in> set ?js" by (force simp: set_update_where image_iff held_by_def)
    with i show ?thesis by (auto simp: pays_def)
  qed
  have new: "completed_with out t j \<in> set ?js"
    using assms(3,4) by (force simp: set_update_where image_iff)
  have fresh: "Some (jb_job_id j) \<notin> lg_job_id ` set L"
  proof
    assume "Some (jb_job_id j) \<in> lg_job_id ` set L"
    then obtain e where e: "e \<in> set L" "lg_job_id e = Some (jb_job_id j)" by (metis imageE)
    with assms(1) have "pays js e" by (auto simp: ledger_ok_def)
    then obtain i where "i \<in> set js" "jb_state i = Completed" "lg_job_id e = Some (jb_job_id i)"
      by (auto simp: pays_def)
    moreover from this have "i = j" using uniq e(2) by simp
    ultimately show False using assms(4) by (simp add: held_by_def)
  qed
  have mine: "pays ?js \<lparr>lg_id = Suc n, lg_worker_id = w, lg_job_id = Some (jb_job_id j),
      lg_credits = job_credits j, lg_reason = r, lg_created_at = t'\<rparr>"
    unfolding pays_def using new assms(4)
    by (intro bexI [of _ "completed_with out t j"]) (auto simp: held_by_def job_credits_def)
  from assms(1) show ?thesis
    using others mine fresh unfolding ledger_ok_def
    by (auto simp: held_by_def elim!: in_update_whereE)
qed

section \<open>Worker rows\<close>

definition worker_wf :: "worker \<Rightarrow> bool" where
  "worker_wf r \<longleftrightarrow> wk_trust_tier r \<in> set TIERS \<and> cap_worker_id (wk_capability r) = wk_worker_id r \<and>
     (wk_device_code r = None \<longleftrightarrow> wk_approved r) \<and> wk_class_weight r = class_weight_for (wk_capability r)"

definition workers_wf :: "worker list \<Rightarrow> bool" where
  "workers_wf ws \<longleftrightarrow> wt.unique_keys ws \<and> (\<forall>r \<in> set ws. worker_wf r)"

text \<open>What \<open>register\<close> puts into the section: a code exactly while approval is pending.\<close>

definition register_args_ok :: "register_args \<Rightarrow> bool" where
  "register_args_ok a \<longleftrightarrow> (ra_device_code a = None \<longleftrightarrow> ra_approved a) \<and> ra_weight a = class_weight_for (ra_cap a)"

lemma workers_wf_update:
  assumes "workers_wf ws" "\<And>r. Q r \<Longrightarrow> wk_worker_id (f r) = wk_worker_id r"
    "\<And>r. Q r \<Longrightarrow> worker_wf r \<Longrightarrow> worker_wf (f r)"
  shows "workers_wf (update_where Q f ws)"
  using assms by (auto simp: workers_wf_def wt.unique_keys_update set_update_where)

lemma workers_wf_delete: "workers_wf ws \<Longrightarrow> workers_wf (delete_where Q ws)"
  by (auto simp: workers_wf_def wt.unique_keys_delete)

lemma workers_wf_upsert:
  assumes "workers_wf (db_workers s)" "register_args_ok a"
  shows "workers_wf (db_workers (upsert_worker a s))"
proof (cases "find_worker (cap_worker_id (ra_cap a)) s")
  case None
  have "worker_wf (registered_row a)"
    using assms(2) by (simp add: worker_wf_def register_args_ok_def registered_row_def TIERS_def DEFAULT_TRUST_TIER_def)
  with None assms(1) show ?thesis
    by (simp add: upsert_worker_def workers_wf_def wt.unique_keys_insert)
       (simp add: find_worker_lookup wt.lookup_None)
next
  case (Some r)
  have "worker_wf (reregistered a q)" if "worker_wf q" "wk_worker_id q = cap_worker_id (ra_cap a)" for q
    using that assms(2) by (simp add: worker_wf_def register_args_ok_def reregistered_def)
  with Some assms(1) show ?thesis
    by (simp add: upsert_worker_def) (intro workers_wf_update; simp)
qed

end
