(* ===== verification/Fleet.thy ===== *)
theory Fleet imports Lifecycle begin

text \<open>
  The orchestrator as a state machine. One step is one atomic section of a handler: the audit
  append or a \<open>write_lock\<close> section, with whatever its request carried and whatever its handler had
  read before, stale or not. Reachable states therefore cover every interleaving of concurrent
  requests. The invariant \<open>fleet_inv\<close> holds in all of them, completed work is never touched again,
  and the job table refines the three-state board at the end of the theory.
\<close>

inductive fleet_step :: "primitives \<Rightarrow> db \<Rightarrow> db \<Rightarrow> bool" for P where
  Audit: "fleet_step P s (emit P now t w j d s)"
| Register: "register_args_ok a \<Longrightarrow> register_section b a s = (s', r) \<Longrightarrow> fleet_step P s s'"
| Derive: "derive_section w (derive_tier att) s = (s', applied) \<Longrightarrow> fleet_step P s s'"
| Approve: "fleet_step P s (approve_section w s)"
| Tier: "is_valid_tier t \<Longrightarrow> fleet_step P s (tier_section w t s)"
| Disconnect: "fleet_step P s (disconnect_section w now s)"
| Enqueue: "valid_submit req \<Longrightarrow> submit_job P req wl pv jid t1 t2 s = (s', x) \<Longrightarrow> fleet_step P s s'"
| Reap: "fleet_step P s (reap_expired t1 t2 s)"
| Lease: "lease_section w cap f t1 t2 t3 s = (s', got) \<Longrightarrow> fleet_step P s s'"
| Heartbeat: "fleet_step P s (heartbeat_section hb m now t s)"
| Result: "results_section P req now t s = (s', resp) \<Longrightarrow> fleet_step P s s'"
| Profile: "fleet_step P s (upsert_profile p s)"

inductive reachable :: "primitives \<Rightarrow> db \<Rightarrow> bool" for P where
  start: "reachable P init_db"
| step: "reachable P s \<Longrightarrow> fleet_step P s s' \<Longrightarrow> reachable P s'"

inductive_cases fleet_stepE: "fleet_step P s s'"

section \<open>The invariant\<close>

definition job_part :: "db \<Rightarrow> bool" where
  "job_part s \<longleftrightarrow> jobs_wf (db_jobs s) \<and> single_leases (db_jobs s) \<and>
     ledger_ok (db_jobs s) (db_ledger s) (db_ledger_seq s)"

definition fleet_inv :: "primitives \<Rightarrow> db \<Rightarrow> bool" where
  "fleet_inv P s \<longleftrightarrow> workers_wf (db_workers s) \<and> job_part s \<and> audit_wf P s"

lemma job_part_cong:
  "db_jobs s' = db_jobs s \<Longrightarrow> db_ledger s' = db_ledger s \<Longrightarrow> db_ledger_seq s' = db_ledger_seq s \<Longrightarrow>
   job_part s' = job_part s"
  by (simp add: job_part_def)

lemma job_part_requeue:
  assumes "job_part s" "db_jobs s' = update_where Q (requeued t) (db_jobs s)"
    "db_ledger s' = db_ledger s" "db_ledger_seq s' = db_ledger_seq s" "\<And>j. Q j \<Longrightarrow> jb_state j = Leased"
  shows "job_part s'"
  using assms unfolding job_part_def
  by (auto intro!: jobs_wf_update single_leases_update ledger_ok_update job_wf_requeued simp: holds_lease_def)

lemma job_part_renew:
  assumes "job_part s" "\<And>j. Q j \<Longrightarrow> jb_state j = Leased"
  shows "job_part (update_jobs Q (\<lambda>j. j\<lparr>jb_lease_expires := Some d, jb_updated_at := t\<rparr>) s)"
  using assms unfolding job_part_def
  by (auto intro!: jobs_wf_update single_leases_update ledger_ok_update job_wf_renewed simp: holds_lease_def)

lemma job_part_take:
  assumes "job_part s" "\<not> worker_busy w s"
  shows "job_part (take_lease w i d t s)"
  using assms unfolding job_part_def worker_busy_def
  by (auto intro!: jobs_wf_update single_leases_take ledger_ok_update job_wf_leased_to
      simp: queued_with_id_def)

lemma job_part_credit:
  assumes "job_part s" "j \<in> set (db_jobs s)" "held_by (jb_job_id j) w j"
  shows "job_part (credit_job j w out t s)"
proof -
  have "jobs_wf (update_where (held_by (jb_job_id j) w) (completed_with out t) (db_jobs s))"
    using assms by (intro jobs_wf_update) (auto simp: job_part_def held_by_def intro: job_wf_completed_with)
  moreover have "single_leases (update_where (held_by (jb_job_id j) w) (completed_with out t) (db_jobs s))"
    using assms by (intro single_leases_update) (auto simp: job_part_def holds_lease_def)
  ultimately show ?thesis using assms by (simp add: job_part_def ledger_ok_complete)
qed

lemma job_part_enqueue:
  assumes "job_part s" "valid_submit req" "submit_job P req wl pv jid t1 t2 s = (s', r)"
  shows "job_part s'"
proof (cases r)
  case (Inl e)
  with assms show ?thesis by (auto dest: submit_job_Inl)
next
  case (Inr j)
  let ?j = "new_job (new_manifest P req pv jid t1) req wl t2"
  from assms(3) Inr have new: "0 < sr_units req" "int64 (sr_units req)" "find_job jid s = None"
    "s' = s\<lparr>db_jobs := db_jobs s @ [?j]\<rparr>" by (auto simp: submit_job_Inr)
  have "jb_job_id ?j = jid" "jb_state ?j = Queued" by (simp_all add: new_job_def new_manifest_def)
  moreover have "jid \<notin> jb_job_id ` set (db_jobs s)" using new(3) by (simp add: find_job_lookup jt.lookup_None)
  moreover have "job_wf ?j" using assms(2) new by (intro job_wf_new)
  ultimately show ?thesis using assms(1) new(4)
    by (simp add: job_part_def jobs_wf_append single_leases_append ledger_ok_append_job)
qed

lemma job_part_heartbeat: "job_part s \<Longrightarrow> job_part (heartbeat_section hb m now t s)"
proof -
  assume s: "job_part s"
  have "job_part (renew_lease jid w now d s)" for jid w d
    unfolding renew_lease_def
    by (rule job_part_renew, rule job_part_requeue [OF s, where t = now and Q = "lease_over jid w now"])
       (auto simp: lease_live_def lease_over_def held_by_def)
  then show ?thesis using s
    by (cases "hb_current_job_id hb")
       (auto simp: job_part_def heartbeat_section_jobs renew_lease_def)
qed

lemma job_part_results:
  assumes "job_part s" "results_section P req now t s = (s', r)"
  shows "job_part s'"
  using assms(2)
proof (cases rule: results_section_cases)
  case unchanged
  with assms(1) show ?thesis by simp
next
  case (requeued j ty)
  then show ?thesis
    by (intro job_part_requeue [OF assms(1), where t = now and Q = "held_by (rs_job_id req) (rs_worker_id req)"])
       (auto simp: held_by_def)
next
  case (blacklisted j expected)
  then show ?thesis
    by (intro job_part_requeue [OF assms(1), where t = now and Q = "held_by (rs_job_id req) (rs_worker_id req)"])
       (auto simp: held_by_def)
next
  case (credited j)
  have "job_part (credit_job j (rs_worker_id req) (result_output req) now s)"
    using credited(1,2) by (intro job_part_credit [OF assms(1)])
      (auto simp: held_by_def live_lease_def dest: find_job_Some)
  with credited(7) show ?thesis by (simp add: accept_result_def job_part_def)
qed

lemma job_part_step:
  assumes "fleet_step P s s'" "job_part s"
  shows "job_part s'"
  using assms
proof (cases rule: fleet_step.cases)
  case (Register a b r)
  then show ?thesis using assms(2)
    by (cases r) (auto simp: register_section_Inr job_part_def dest: register_section_Inl)
next
  case (Derive w att applied)
  then show ?thesis using assms(2) derive_section_frame [OF Derive] by (simp add: job_part_def)
next
  case (Disconnect w now)
  then show ?thesis by (intro job_part_requeue [OF assms(2), where t = now and Q = "holds_lease w"])
      (auto simp: holds_lease_def)
next
  case (Enqueue req wl pv jid t1 t2 r)
  then show ?thesis using assms(2) job_part_enqueue by blast
next
  case (Reap t1 t2)
  then show ?thesis by (intro job_part_requeue [OF assms(2), where t = t1 and Q = "lease_before t2"])
      (auto simp: lease_before_def)
next
  case (Lease w cap f t1 t2 t3 r)
  from Lease show ?thesis
    by (cases rule: lease_section_cases) (use assms(2) job_part_take in auto)
next
  case (Heartbeat hb m now t)
  then show ?thesis using assms(2) job_part_heartbeat by simp
next
  case (Result req now t r)
  then show ?thesis using assms(2) job_part_results by blast
qed (use assms(2) in \<open>simp_all add: job_part_def\<close>)

lemma workers_wf_step:
  assumes "fleet_step P s s'" "workers_wf (db_workers s)"
  shows "workers_wf (db_workers s')"
  using assms
proof (cases rule: fleet_step.cases)
  case (Register a b r)
  then show ?thesis using assms(2)
    by (cases r) (auto simp: register_section_Inr workers_wf_upsert dest: register_section_Inl)
next
  case (Derive w att applied)
  then show ?thesis using assms(2)
    by (auto simp: derive_section_def worker_wf_def derive_tier_valid intro!: workers_wf_update
        split: option.splits if_splits)
next
  case (Approve w)
  then show ?thesis using assms(2)
    by (auto simp: approve_section_def worker_wf_def intro!: workers_wf_update)
next
  case (Tier t w)
  then show ?thesis using assms(2)
    by (auto simp: tier_section_def worker_wf_def is_valid_tier_def intro!: workers_wf_update)
next
  case (Disconnect w now)
  then show ?thesis using assms(2) by (simp add: workers_wf_delete)
next
  case (Enqueue req wl pv jid t1 t2 r)
  then show ?thesis using assms(2)
    by (cases r) (auto simp: submit_job_Inr dest: submit_job_Inl)
next
  case (Lease w cap f t1 t2 t3 r)
  from Lease show ?thesis
  proof (cases rule: lease_section_cases)
    case (leased j)
    with assms(2) show ?thesis by (auto simp: take_lease_def worker_wf_def intro!: workers_wf_update)
  qed (use assms(2) in simp)
next
  case (Heartbeat hb m now t)
  then show ?thesis using assms(2)
    by (auto simp: worker_wf_def heartbeat_row_def intro!: workers_wf_update)
next
  case (Result req now t r)
  from Result show ?thesis
    by (cases rule: results_section_cases)
       (use assms(2) in \<open>auto simp: accept_result_def worker_wf_def intro!: workers_wf_update\<close>)
qed (use assms(2) in simp_all)

lemma audit_wf_step:
  assumes "fleet_step P s s'" "audit_wf P s" "sha256_nonempty P"
  shows "audit_wf P s'"
  using assms(1)
proof (cases rule: fleet_step.cases)
  case (Audit now t w j d)
  then show ?thesis using assms(2,3) by (simp add: audit_wf_emit)
next
  case (Register a b r)
  then show ?thesis using assms(2)
    by (cases r) (auto simp: register_section_Inr dest: register_section_Inl elim: audit_wf_frame)
next
  case (Derive w att applied)
  then show ?thesis using assms(2) derive_section_frame [OF Derive] by (auto elim: audit_wf_frame)
next
  case (Enqueue req wl pv jid t1 t2 r)
  then show ?thesis using assms(2)
    by (cases r) (auto simp: submit_job_Inr dest: submit_job_Inl elim: audit_wf_frame)
next
  case (Lease w cap f t1 t2 t3 r)
  from Lease show ?thesis
    by (cases rule: lease_section_cases) (use assms(2) in \<open>auto elim: audit_wf_frame\<close>)
next
  case (Result req now t r)
  from Result show ?thesis
    by (cases rule: results_section_cases)
       (use assms(2,3) in \<open>auto simp: accept_result_def intro!: audit_wf_emit elim: audit_wf_frame\<close>)
qed (use assms(2) in \<open>auto elim: audit_wf_frame\<close>)

lemma job_part_init: "job_part init_db"
  by (simp add: init_db_def job_part_def jobs_wf_def jt.unique_keys_def single_leases_def ledger_ok_def)

lemma workers_wf_init: "workers_wf (db_workers init_db)"
  by (simp add: init_db_def workers_wf_def wt.unique_keys_def)

lemma fleet_inv_init: "fleet_inv P init_db"
  by (simp add: fleet_inv_def audit_wf_init job_part_init workers_wf_init)

lemma fleet_inv_step:
  "fleet_step P s s' \<Longrightarrow> fleet_inv P s \<Longrightarrow> sha256_nonempty P \<Longrightarrow> fleet_inv P s'"
  by (simp add: fleet_inv_def workers_wf_step job_part_step audit_wf_step)

lemma reachable_inv: "reachable P s \<Longrightarrow> sha256_nonempty P \<Longrightarrow> fleet_inv P s"
  by (induction rule: reachable.induct) (auto intro: fleet_inv_init fleet_inv_step)

lemma reachable_job_part: "reachable P s \<Longrightarrow> job_part s"
  by (induction rule: reachable.induct) (auto intro: job_part_step job_part_init)

lemma reachable_workers_wf: "reachable P s \<Longrightarrow> workers_wf (db_workers s)"
  by (induction rule: reachable.induct) (auto intro: workers_wf_step workers_wf_init)

lemma reachable_steps: "reachable P s \<Longrightarrow> (fleet_step P)\<^sup>*\<^sup>* s s' \<Longrightarrow> reachable P s'"
  by (rotate_tac, induction rule: rtranclp_induct) (auto intro: reachable.step)

section \<open>What a step can do to one job\<close>

text \<open>
  Jobs are never deleted and never change what was asked for; a completed one never changes at all.
\<close>

definition job_keeps :: "job \<Rightarrow> job \<Rightarrow> bool" where
  "job_keeps j j' \<longleftrightarrow> jb_job_id j' = jb_job_id j \<and> jb_kind j' = jb_kind j \<and> jb_manifest j' = jb_manifest j \<and>
     jb_input j' = jb_input j \<and> jb_units j' = jb_units j \<and> jb_workload_id j' = jb_workload_id j \<and>
     jb_created_at j' = jb_created_at j \<and> (jb_state j = Completed \<longrightarrow> j' = j)"

definition jobs_keep :: "job list \<Rightarrow> job list \<Rightarrow> bool" where
  "jobs_keep js js' \<longleftrightarrow> (\<forall>i j. jt.lookup i js = Some j \<longrightarrow> (\<exists>j'. jt.lookup i js' = Some j' \<and> job_keeps j j'))"

lemma job_keeps_refl [simp]: "job_keeps j j"
  by (simp add: job_keeps_def)

lemma job_keeps_trans: "job_keeps i j \<Longrightarrow> job_keeps j k \<Longrightarrow> job_keeps i k"
  by (auto simp: job_keeps_def)

lemma jobs_keep_refl [simp]: "jobs_keep js js"
  by (simp add: jobs_keep_def)

lemma jobs_keep_trans: "jobs_keep a b \<Longrightarrow> jobs_keep b c \<Longrightarrow> jobs_keep a c"
  unfolding jobs_keep_def by (meson job_keeps_trans)

lemma jobs_keep_update: "(\<And>j. Q j \<Longrightarrow> job_keeps j (f j)) \<Longrightarrow> jobs_keep js (update_where Q f js)"
  by (auto simp: jobs_keep_def jt.lookup_update job_keeps_def)

lemma jobs_keep_append: "jobs_keep js (js @ [j])"
  by (auto simp: jobs_keep_def jt.lookup_append)

lemma job_keeps_simps:
  "jb_state j = Leased \<Longrightarrow> job_keeps j (requeued t j)"
  "jb_state j = Queued \<Longrightarrow> job_keeps j (leased_to w d t j)"
  "jb_state j = Leased \<Longrightarrow> job_keeps j (completed_with out t j)"
  "jb_state j = Leased \<Longrightarrow> job_keeps j (j\<lparr>jb_lease_expires := e, jb_updated_at := t\<rparr>)"
  by (simp_all add: job_keeps_def completed_with_def)

lemma jobs_keep_heartbeat: "jobs_keep (db_jobs s) (db_jobs (heartbeat_section hb m now t s))"
  by (cases "hb_current_job_id hb")
     (auto simp: heartbeat_section_jobs renew_lease_def lease_live_def lease_over_def held_by_def
       intro!: jobs_keep_trans [OF jobs_keep_update jobs_keep_update] job_keeps_simps)

lemma jobs_keep_step:
  assumes "fleet_step P s s'"
  shows "jobs_keep (db_jobs s) (db_jobs s')"
  using assms
proof (cases rule: fleet_step.cases)
  case (Register a b r)
  then show ?thesis by (cases r) (auto simp: register_section_Inr dest: register_section_Inl)
next
  case (Derive w att applied)
  then show ?thesis using derive_section_frame [OF Derive] by simp
next
  case (Disconnect w now)
  then show ?thesis by (auto simp: holds_lease_def intro!: jobs_keep_update job_keeps_simps)
next
  case (Enqueue req wl pv jid t1 t2 r)
  then show ?thesis by (cases r) (auto simp: submit_job_Inr jobs_keep_append dest: submit_job_Inl)
next
  case (Reap t1 t2)
  then show ?thesis by (auto simp: lease_before_def intro!: jobs_keep_update job_keeps_simps)
next
  case (Lease w cap f t1 t2 t3 r)
  from Lease show ?thesis
    by (cases rule: lease_section_cases)
       (auto simp: queued_with_id_def intro!: jobs_keep_update job_keeps_simps)
next
  case (Heartbeat hb m now t)
  then show ?thesis by (simp add: jobs_keep_heartbeat)
next
  case (Result req now t r)
  from Result show ?thesis
    by (cases rule: results_section_cases)
       (auto simp: accept_result_def held_by_def intro!: jobs_keep_update job_keeps_simps)
qed simp_all

lemma jobs_keep_steps: "(fleet_step P)\<^sup>*\<^sup>* s s' \<Longrightarrow> jobs_keep (db_jobs s) (db_jobs s')"
  by (induction rule: rtranclp_induct) (auto intro: jobs_keep_trans jobs_keep_step)

section \<open>Handlers are sequences of steps\<close>

lemma step_once: "fleet_step P s s' \<Longrightarrow> (fleet_step P)\<^sup>*\<^sup>* s s'"
  by (rule r_into_rtranclp)

lemma steps_emit: "(fleet_step P)\<^sup>*\<^sup>* s s' \<Longrightarrow> (fleet_step P)\<^sup>*\<^sup>* s (emit P now t w j d s')"
  by (erule rtranclp.rtrancl_into_rtrancl) (rule fleet_step.Audit)

text \<open>A refused call is at most one audit event.\<close>

definition audited_once :: "primitives \<Rightarrow> db \<Rightarrow> db \<Rightarrow> bool" where
  "audited_once P s s' \<longleftrightarrow> s' = s \<or> (\<exists>now t w j d. s' = emit P now t w j d s)"

lemma audited_once_steps: "audited_once P s s' \<Longrightarrow> (fleet_step P)\<^sup>*\<^sup>* s s'"
  by (auto simp: audited_once_def intro: step_once fleet_step.Audit)

lemma audited_once_refl [simp, intro]: "audited_once P s s"
  by (simp add: audited_once_def)

lemma audited_once_emit [simp, intro]: "audited_once P s (emit P now t w j d s)"
  unfolding audited_once_def by blast

lemma gate_once: "gate P now p i tok a s = (s', r) \<Longrightarrow> audited_once P s s'"
  by (auto simp: gate_def deny_def split: sum.splits option.splits)

lemma submit_token_once: "require_submit_token P cf now a s = (s', r) \<Longrightarrow> audited_once P s s'"
  by (auto simp: require_submit_token_def dest: gate_once split: option.splits if_splits)

lemma admin_token_once: "require_admin_token P cf now a s = (s', r) \<Longrightarrow> audited_once P s s'"
  by (auto simp: require_admin_token_def Let_def dest: gate_once split: option.splits if_splits)

lemma foundry_once: "authenticate_foundry_tenant P cf now tid a s = (s', r) \<Longrightarrow> audited_once P s s'"
  by (auto simp: authenticate_foundry_tenant_def Let_def dest: gate_once
      split: option.splits if_splits prod.splits sum.splits)

lemma worker_token_once: "require_worker_token P cf now w a fp s = (s', r) \<Longrightarrow> audited_once P s s'"
  by (auto simp: require_worker_token_def Let_def split: option.splits sum.splits)

end
