(* ===== verification/Float_Error.thy ===== *)
theory Float_Error imports Float64 begin

text \<open>
  Accuracy of the float operations the work splitter uses. The built-in \<open>sum\<close> (compensated since
  Python 3.12) of \<open>n\<close> non-negative numbers is within a relative \<open>n * 2 powi (-48)\<close> of the exact sum.
\<close>

section \<open>Relative error away from the subnormals\<close>

lemma fl64_relative:
  assumes "x = 0 \<or> 2 powi (-1000) \<le> \<bar>x\<bar>"
  shows "\<bar>fl64 x - x\<bar> \<le> \<bar>x\<bar> * 2 powi (-52)"
proof (cases "x = 0")
  case False
  with assms have x: "2 powi (-1000) \<le> \<bar>x\<bar>" by simp
  have "(2::rat) powi (-1075) = 2 powi (-1000) * 2 powi (-75)" by (simp flip: two_powi_add)
  also have "\<dots> \<le> \<bar>x\<bar> * 2 powi (-75)" using x by (intro mult_right_mono) auto
  also have "\<dots> \<le> \<bar>x\<bar> * 2 powi (-53)" by (intro mult_left_mono two_powi_mono) auto
  finally have "\<bar>fl64 x - x\<bar> \<le> \<bar>x\<bar> * 2 powi (-53) + \<bar>x\<bar> * 2 powi (-53)"
    using fl64_rel_error [of x] by linarith
  also have "\<dots> = \<bar>x\<bar> * 2 powi (-52)" by (simp add: power_int_minus field_simps)
  finally show ?thesis .
qed simp

section \<open>The compensated sum\<close>

lemma neumaier_step:
  assumes d: "\<And>y. \<bar>y\<bar> \<le> M \<Longrightarrow> \<bar>fl64 y - y\<bar> \<le> d"
    and pos: "0 \<le> hi" "0 \<le> x" "0 \<le> d"
    and room: "hi + x + \<bar>c\<bar> + 6 * d \<le> M"
    and t: "t = fadd hi x"
    and c': "c' = fadd c (if \<bar>x\<bar> \<le> \<bar>hi\<bar> then fadd (fsub hi t) x else fadd (fsub x t) hi)"
  shows "0 \<le> t" "\<bar>t - (hi + x)\<bar> \<le> d" "\<bar>c'\<bar> \<le> \<bar>c\<bar> + 4 * d"
proof -
  show "0 \<le> t" using pos by (simp add: t fadd_def f64.rnd_nonneg)
  show t_err: "\<bar>t - (hi + x)\<bar> \<le> d" unfolding t fadd_def using pos room by (intro d) linarith
  have half: "\<bar>fadd (fsub a t) b\<bar> \<le> 3 * d" if "a + b = hi + x" "0 \<le> a" "0 \<le> b" for a b
  proof -
    have "\<bar>fsub a t - (a - t)\<bar> \<le> d" unfolding fsub_def using that pos room t_err by (intro d) linarith
    moreover from this have "\<bar>fadd (fsub a t) b - (fsub a t + b)\<bar> \<le> d"
      unfolding fadd_def using that pos room t_err by (intro d) linarith
    ultimately show ?thesis using that(1) t_err by linarith
  qed
  define e where "e = (if \<bar>x\<bar> \<le> \<bar>hi\<bar> then fadd (fsub hi t) x else fadd (fsub x t) hi)"
  have e: "\<bar>e\<bar> \<le> 3 * d" using half [of hi x] half [of x hi] pos by (simp add: e_def add.commute)
  have "\<bar>fadd c e - (c + e)\<bar> \<le> d" unfolding fadd_def using e pos room by (intro d) linarith
  then show "\<bar>c'\<bar> \<le> \<bar>c\<bar> + 4 * d" using e unfolding c' e_def [symmetric] by linarith
qed

lemma neumaier_error:
  assumes d: "\<And>y. \<bar>y\<bar> \<le> M \<Longrightarrow> \<bar>fl64 y - y\<bar> \<le> d" and "0 \<le> d"
    and "0 \<le> hi" "\<And>x. x \<in> set xs \<Longrightarrow> 0 \<le> x"
    and "hi + sum_list xs + \<bar>c\<bar> + 6 * of_nat (length xs) * d \<le> M"
  shows "\<bar>neumaier hi c xs - (hi + sum_list xs)\<bar> \<le> \<bar>c\<bar> + (5 * of_nat (length xs) + 1) * d"
  using assms(3-5)
proof (induction xs arbitrary: hi c)
  case Nil
  then have "\<bar>fadd hi c - (hi + c)\<bar> \<le> d" unfolding fadd_def by (intro d) auto
  then show ?case by simp
next
  case (Cons x xs)
  define t where "t = fadd hi x"
  define c' where "c' = fadd c (if \<bar>x\<bar> \<le> \<bar>hi\<bar> then fadd (fsub hi t) x else fadd (fsub x t) hi)"
  define n where "n = (of_nat (length xs) :: rat)"
  have n: "0 \<le> n" by (simp add: n_def)
  have nd: "0 \<le> n * d" using n \<open>0 \<le> d\<close> by simp
  have x: "0 \<le> x" "0 \<le> sum_list xs" using Cons.prems(2) by (auto intro: sum_list_nonneg)
  have room: "hi + (x + sum_list xs) + \<bar>c\<bar> + (6 * (n * d) + 6 * d) \<le> M"
    using Cons.prems(3) by (simp add: n_def algebra_simps)
  then have "hi + x + \<bar>c\<bar> + 6 * d \<le> M" using x nd by linarith
  note st = neumaier_step [OF d Cons.prems(1) x(1) \<open>0 \<le> d\<close> this t_def c'_def]
  have "\<bar>neumaier t c' xs - (t + sum_list xs)\<bar> \<le> \<bar>c'\<bar> + (5 * of_nat (length xs) + 1) * d"
    using st room nd Cons.prems(2) by (intro Cons.IH) (auto simp: n_def [symmetric] mult.assoc)
  then have "\<bar>neumaier t c' xs - (t + sum_list xs)\<bar> \<le> \<bar>c'\<bar> + (5 * (n * d) + d)"
    by (simp add: n_def algebra_simps)
  then have "\<bar>neumaier t c' xs - (hi + (x + sum_list xs))\<bar> \<le> \<bar>c\<bar> + (5 * (n * d) + 6 * d)"
    using st by linarith
  moreover have "neumaier hi c (x # xs) = neumaier t c' xs" by (simp add: t_def c'_def Let_def)
  ultimately show ?case by (simp add: n_def algebra_simps)
qed

lemma py_sum_error:
  assumes "\<And>x. x \<in> set xs \<Longrightarrow> 0 \<le> x" "2 powi (-900) \<le> sum_list xs" "length xs \<le> 2 ^ 40"
  shows "\<bar>py_sum xs - sum_list xs\<bar> \<le> of_nat (length xs) * 2 powi (-48) * sum_list xs"
proof (cases xs)
  case Nil
  then show ?thesis by simp
next
  case (Cons x ys)
  define S where "S = sum_list xs"
  define n where "n = (of_nat (length xs) :: rat)"
  define d where "d = S * 2 powi (-51)"
  have S: "2 powi (-900) \<le> S" "0 < S" using assms(2) two_powi_pos [of "-900"] by (simp_all add: S_def)
  have n: "1 \<le> n" "n \<le> 2 ^ 40"
    using assms(3) Cons of_nat_le_iff [of "length xs" "2 ^ 40", where 'a = rat] by (simp_all add: n_def)
  have d0: "0 \<le> d" using S by (simp add: d_def)
  have d: "\<bar>fl64 y - y\<bar> \<le> d" if "\<bar>y\<bar> \<le> 2 * S" for y
  proof -
    have "(2::rat) powi (-1075) = 2 powi (-900) * 2 powi (-175)" by (simp flip: two_powi_add)
    also have "\<dots> \<le> S * 2 powi (-175)" using S by (intro mult_right_mono) auto
    also have "\<dots> \<le> S * 2 powi (-52)" using S by (intro mult_left_mono two_powi_mono) auto
    finally have "\<bar>fl64 y - y\<bar> \<le> 2 * S * 2 powi (-53) + S * 2 powi (-52)"
      using fl64_rel_error [of y] mult_right_mono [OF that, of "2 powi (-53)"] by simp
    also have "\<dots> = d" by (simp add: d_def power_int_minus field_simps)
    finally show ?thesis .
  qed
  have nd: "n * d \<le> S * 2 powi (-11)"
  proof -
    have "n * d \<le> 2 ^ 40 * d" using n d0 by (intro mult_right_mono) auto
    also have "\<dots> = S * 2 powi (-11)" by (simp add: d_def power_int_minus field_simps)
    finally show ?thesis .
  qed
  have "6 * (n * d) \<le> S" using nd S by (simp add: power_int_minus)
  have "\<bar>neumaier x 0 ys - (x + sum_list ys)\<bar> \<le> \<bar>0\<bar> + (5 * of_nat (length ys) + 1) * d"
  proof (rule neumaier_error [OF d d0])
    show "0 \<le> x" "\<And>y. y \<in> set ys \<Longrightarrow> 0 \<le> y" using assms(1) Cons by auto
    have len: "of_nat (length ys) = n - 1" and sum: "x + sum_list ys = S" by (simp_all add: S_def n_def Cons)
    have "6 * of_nat (length ys) * d = 6 * (n * d) - 6 * d" unfolding len by (simp add: algebra_simps)
    then show "x + sum_list ys + \<bar>0\<bar> + 6 * of_nat (length ys) * d \<le> 2 * S"
      using \<open>6 * (n * d) \<le> S\<close> d0 sum by linarith
  qed
  also have "(5 * of_nat (length ys) + 1) * d \<le> 8 * n * d"
    using d0 n by (intro mult_right_mono) (auto simp: n_def Cons)
  also have "8 * n * d = n * 2 powi (-48) * S" by (simp add: d_def power_int_minus)
  finally show ?thesis by (simp add: S_def n_def Cons)
qed

end
