(* ===== verification/Pyvalue.thy ===== *)
theory Pyvalue imports Contracts begin

text \<open>
  How Python code reads values out of a decoded JSON object: \<open>d.get(key, default)\<close>, \<open>int(v)\<close>,
  \<open>float(v)\<close>, \<open>str(v)\<close>, truth value, iteration, and arithmetic on floats that may be infinite or
  not a number. What \<open>int\<close>, \<open>float\<close> and \<open>str\<close> make of text, and the text of a container, is the
  platform's and a parameter; everything else is spelt out, exceptions included.
\<close>

record conversions =
  cv_int :: "str \<Rightarrow> int option"       \<comment> \<open>\<open>int\<close> of a string\<close>
  cv_float :: "str \<Rightarrow> pyfloat option" \<comment> \<open>\<open>float\<close> of a string\<close>
  cv_repr :: "json \<Rightarrow> str"            \<comment> \<open>\<open>str\<close> of a float, list or object\<close>

section \<open>Results that may be exceptions\<close>

definition bind_err :: "(py_error + 'a) \<Rightarrow> ('a \<Rightarrow> py_error + 'b) \<Rightarrow> py_error + 'b" where
  "bind_err r f = (case r of Inl e \<Rightarrow> Inl e | Inr v \<Rightarrow> f v)"

fun map_err :: "('a \<Rightarrow> py_error + 'b) \<Rightarrow> 'a list \<Rightarrow> py_error + 'b list" where
  "map_err f [] = Inr []"
| "map_err f (x # xs) = bind_err (f x) (\<lambda>y. bind_err (map_err f xs) (\<lambda>ys. Inr (y # ys)))"

lemma bind_err_simps [simp]: "bind_err (Inl e) f = Inl e" "bind_err (Inr v) f = f v"
  by (simp_all add: bind_err_def)

lemma bind_err_Inr: "bind_err r f = Inr y \<longleftrightarrow> (\<exists>v. r = Inr v \<and> f v = Inr y)"
  by (cases r) auto

lemma map_err_Inr: "map_err f xs = Inr ys \<longleftrightarrow> list_all2 (\<lambda>x y. f x = Inr y) xs ys"
  by (induction xs arbitrary: ys) (auto simp: bind_err_Inr list_all2_Cons1)

lemma map_err_total: "(\<And>x. x \<in> set xs \<Longrightarrow> f x = Inr (g x)) \<Longrightarrow> map_err f xs = Inr (map g xs)"
  by (induction xs) auto

section \<open>Conversions\<close>

definition get_or :: "dict \<Rightarrow> str \<Rightarrow> json \<Rightarrow> json" where
  "get_or d k dflt = (case dict_get d k of None \<Rightarrow> dflt | Some v \<Rightarrow> v)"

definition get_key :: "dict \<Rightarrow> str \<Rightarrow> py_error + json" where
  "get_key d k = (case dict_get d k of None \<Rightarrow> Inl (OtherError ''KeyError'') | Some v \<Rightarrow> Inr v)"

definition py_int :: "rat \<Rightarrow> int" where
  "py_int x = (if 0 \<le> x then \<lfloor>x\<rfloor> else \<lceil>x\<rceil>)"

fun to_int :: "conversions \<Rightarrow> json \<Rightarrow> py_error + int" where
  "to_int C (JInt i) = Inr i"
| "to_int C (JBool b) = Inr (if b then 1 else 0)"
| "to_int C (JFloat (Fin x)) = Inr (py_int x)"
| "to_int C (JFloat NaN) = Inl (ValueError ''cannot convert float NaN to integer'')"
| "to_int C (JFloat v) = Inl (OtherError ''OverflowError'')"
| "to_int C (JStr s) = (case cv_int C s of None \<Rightarrow> Inl (ValueError ''invalid literal for int()'') | Some i \<Rightarrow> Inr i)"
| "to_int C _ = Inl (TypeError ''int() argument'')"

definition float_max :: rat where
  "float_max = (2 - 1 / 2 ^ 52) * 2 ^ 1023"

definition int_to_float :: "int \<Rightarrow> py_error + pyfloat" where
  "int_to_float i = (if float_max < \<bar>fl64 (of_int i)\<bar> then Inl (OtherError ''OverflowError'') else Inr (Fin (fl64 (of_int i))))"

fun to_float :: "conversions \<Rightarrow> json \<Rightarrow> py_error + pyfloat" where
  "to_float C (JInt i) = int_to_float i"
| "to_float C (JBool b) = Inr (Fin (if b then 1 else 0))"
| "to_float C (JFloat v) = Inr v"
| "to_float C (JStr s) = (case cv_float C s of None \<Rightarrow> Inl (ValueError ''could not convert string to float'') | Some v \<Rightarrow> Inr v)"
| "to_float C _ = Inl (TypeError ''float() argument'')"

fun to_str :: "conversions \<Rightarrow> json \<Rightarrow> str" where
  "to_str C (JStr s) = s"
| "to_str C (JInt i) = show_int i"
| "to_str C (JBool b) = (if b then ''True'' else ''False'')"
| "to_str C JNull = ''None''"
| "to_str C v = cv_repr C v"

fun truthy :: "json \<Rightarrow> bool" where
  "truthy JNull = False"
| "truthy (JBool b) = b"
| "truthy (JInt i) = (i \<noteq> 0)"
| "truthy (JFloat v) = (v \<noteq> Fin 0)"
| "truthy (JStr s) = (s \<noteq> [])"
| "truthy (JList xs) = (xs \<noteq> [])"
| "truthy (JObj d) = (d \<noteq> [])"

text \<open>The characters of a string: each lead byte with its continuation bytes.\<close>

fun utf8_chars :: "str \<Rightarrow> str list" where
  "utf8_chars [] = []"
| "utf8_chars (c # s) =
     (case utf8_chars s of
        (d # ds) # rest \<Rightarrow> if 128 \<le> code_of d \<and> code_of d < 192 then (c # d # ds) # rest else [c] # (d # ds) # rest
      | rest \<Rightarrow> [c] # rest)"

text \<open>\<open>for x in v\<close>.\<close>

fun iterate :: "json \<Rightarrow> py_error + json list" where
  "iterate (JList xs) = Inr xs"
| "iterate (JStr s) = Inr (map JStr (utf8_chars s))"
| "iterate (JObj d) = Inr (map (\<lambda>kv. JStr (fst kv)) d)"
| "iterate _ = Inl (TypeError ''object is not iterable'')"

text \<open>\<open>v.get\<close>: an object's, or an \<open>AttributeError\<close>.\<close>

fun as_dict :: "json \<Rightarrow> py_error + dict" where
  "as_dict (JObj d) = Inr d"
| "as_dict _ = Inl (OtherError ''AttributeError'')"

definition get_int :: "conversions \<Rightarrow> dict \<Rightarrow> str \<Rightarrow> int \<Rightarrow> py_error + int" where
  "get_int C d k dflt = to_int C (get_or d k (JInt dflt))"

definition get_float :: "conversions \<Rightarrow> dict \<Rightarrow> str \<Rightarrow> rat \<Rightarrow> py_error + pyfloat" where
  "get_float C d k dflt = to_float C (get_or d k (JFloat (Fin dflt)))"

lemma get_int_JInt [simp]: "dict_get d k = Some (JInt i) \<Longrightarrow> get_int C d k n = Inr i"
  and get_int_None [simp]: "dict_get d k = None \<Longrightarrow> get_int C d k n = Inr n"
  by (simp_all add: get_int_def get_or_def)

lemma get_float_Fin [simp]: "dict_get d k = Some (JFloat v) \<Longrightarrow> get_float C d k x = Inr v"
  by (simp add: get_float_def get_or_def)

section \<open>Float arithmetic with overflow\<close>

definition pf_round :: "rat \<Rightarrow> pyfloat" where
  "pf_round x = (let y = fl64 x in if float_max < y then PosInf else if y < - float_max then NegInf else Fin y)"

fun pf_neg :: "pyfloat \<Rightarrow> pyfloat" where
  "pf_neg (Fin x) = Fin (- x)"
| "pf_neg PosInf = NegInf"
| "pf_neg NegInf = PosInf"
| "pf_neg NaN = NaN"

fun pf_add :: "pyfloat \<Rightarrow> pyfloat \<Rightarrow> pyfloat" where
  "pf_add (Fin x) (Fin y) = pf_round (x + y)"
| "pf_add NaN _ = NaN"
| "pf_add _ NaN = NaN"
| "pf_add PosInf NegInf = NaN"
| "pf_add NegInf PosInf = NaN"
| "pf_add (Fin _) v = v"
| "pf_add v _ = v"

definition pf_sub :: "pyfloat \<Rightarrow> pyfloat \<Rightarrow> pyfloat" where
  "pf_sub a b = pf_add a (pf_neg b)"

fun pf_sign :: "pyfloat \<Rightarrow> int" where
  "pf_sign (Fin x) = (if 0 < x then 1 else if x < 0 then -1 else 0)"
| "pf_sign PosInf = 1"
| "pf_sign NegInf = -1"
| "pf_sign NaN = 0"

fun pf_mul :: "pyfloat \<Rightarrow> pyfloat \<Rightarrow> pyfloat" where
  "pf_mul (Fin x) (Fin y) = pf_round (x * y)"
| "pf_mul a b =
     (if a = NaN \<or> b = NaN \<or> pf_sign a = 0 \<or> pf_sign b = 0 then NaN
      else if pf_sign a = pf_sign b then PosInf else NegInf)"

text \<open>Division by a non-zero integer, the only divisor the code uses, and product with an integer.\<close>

fun pf_over :: "pyfloat \<Rightarrow> pyfloat \<Rightarrow> pyfloat" where
  "pf_over (Fin x) (Fin y) = pf_round (x / y)"
| "pf_over v w = (if pf_sign w < 0 then pf_neg v else v)"

definition pf_div_int :: "pyfloat \<Rightarrow> int \<Rightarrow> py_error + pyfloat" where
  "pf_div_int v n = bind_err (int_to_float n) (\<lambda>w. Inr (pf_over v w))"

definition pf_int :: "int \<Rightarrow> pyfloat" where
  "pf_int n = Fin (fl64 (of_int n))"

definition pf_le :: "pyfloat \<Rightarrow> pyfloat \<Rightarrow> bool" where
  "pf_le a b \<longleftrightarrow> py_lt a b \<or> (a = b \<and> a \<noteq> NaN)"

text \<open>A platform for concrete runs: it reads no text as a number and prints containers as nothing.\<close>

definition demo_conv :: conversions where
  "demo_conv = \<lparr>cv_int = (\<lambda>_. None), cv_float = (\<lambda>_. None), cv_repr = (\<lambda>_. [])\<rparr>"

end
