(* ===== verification/Partition.thy ===== *)
theory Partition imports Float_Error Pyvalue begin

text \<open>
  \<open>src/workloads/partition.py\<close>: how one workload is cut into contiguous ranges, evenly or in
  proportion to the workers' weights, the tile count of an over-decomposed launch and the weight of a
  worker. Floats are rounded as the code rounds them; the lemmas show that the ranges still cover the
  work exactly, for the sizes the orchestrator launches.
\<close>

section \<open>Splitting evenly\<close>

fun ranges_from :: "int \<Rightarrow> int list \<Rightarrow> (int \<times> int) list" where
  "ranges_from start [] = []"
| "ranges_from start (k # sizes) = (start, start + k) # ranges_from (start + k) sizes"

definition even_ranges :: "int \<Rightarrow> int \<Rightarrow> py_error + (int \<times> int) list" where
  "even_ranges tot n =
     (if n \<le> 0 then Inl (ValueError ''n must be positive'')
      else if tot < 0 then Inl (ValueError ''total must be non-negative'')
      else (let base = tot div n; extra = tot mod n
            in Inr (ranges_from 0 (map (\<lambda>i. base + (if i < extra then 1 else 0)) [0..n - 1]))))"

section \<open>Splitting by weight\<close>

text \<open>The slice \<open>xs[:k]\<close>, whose bound counts from the end when negative.\<close>

definition slice_to :: "'a list \<Rightarrow> int \<Rightarrow> 'a list" where
  "slice_to xs k = take (nat (if k < 0 then int (length xs) + k else k)) xs"

definition check_weights :: "int \<Rightarrow> rat list \<Rightarrow> str \<Rightarrow> py_error option" where
  "check_weights tot weights total_message =
     (if weights = [] then Some (ValueError ''weights must be non-empty'')
      else if tot < 0 then Some (ValueError total_message)
      else if list_ex (\<lambda>w. w < 0) weights then Some (ValueError ''weights must be non-negative'')
      else if py_sum weights \<le> 0 then Some (ValueError ''weights must sum to a positive value'')
      else None)"

definition float_shares :: "int \<Rightarrow> rat list \<Rightarrow> rat list" where
  "float_shares tot weights = map (\<lambda>w. fdiv (fmul (fl64 (of_int tot)) w) (py_sum weights)) weights"

definition remainder_order :: "rat list \<Rightarrow> int list \<Rightarrow> nat list" where
  "remainder_order shares floors =
     rev (sort_key (\<lambda>i. (fsub (shares ! i) (fl64 (of_int (floors ! i))), - int i)) [0..<length shares])"

definition hand_out :: "nat list \<Rightarrow> int list \<Rightarrow> int list" where
  "hand_out is counts = fold (\<lambda>i counts. counts[i := counts ! i + 1]) is counts"

definition apportion :: "int \<Rightarrow> rat list \<Rightarrow> int list" where
  "apportion tot weights =
     (let shares = float_shares tot weights; floors = map py_int shares;
          leftover = tot - sum_list floors
      in hand_out (slice_to (remainder_order shares floors) leftover) floors)"

definition weighted_ranges :: "int \<Rightarrow> rat list \<Rightarrow> py_error + (int \<times> int) list" where
  "weighted_ranges tot weights =
     (case check_weights tot weights ''total must be non-negative'' of
        Some e \<Rightarrow> Inl e
      | None \<Rightarrow> Inr (ranges_from 0 (apportion tot weights)))"

text \<open>
  The repair loop of \<open>weighted_partition\<close>: while a share is zero, it takes one unit from the largest
  share (the first of them) unless no share has two.
\<close>

definition zeros :: "int list \<Rightarrow> nat list" where
  "zeros counts = filter (\<lambda>i. counts ! i = 0) [0..<length counts]"

definition donor :: "int list \<Rightarrow> nat" where
  "donor counts =
     fold (\<lambda>i best. if (counts ! best, - int best) < (counts ! i, - int i) then i else best)
       [1..<length counts] 0"

definition move_unit :: "nat \<Rightarrow> nat \<Rightarrow> int list \<Rightarrow> int list" where
  "move_unit from to counts =
     (let counts = counts[from := counts ! from - 1] in counts[to := counts ! to + 1])"

function fill_zeros :: "int list \<Rightarrow> int list" where
  "fill_zeros counts =
     (if zeros counts = [] then counts
      else if counts ! donor counts \<le> 1 then counts
      else fill_zeros (move_unit (donor counts) (Min (set (zeros counts))) counts))"
  by auto

definition weighted_partition :: "int \<Rightarrow> rat list \<Rightarrow> py_error + int list" where
  "weighted_partition total_units weights =
     (case check_weights total_units weights ''total_units must be non-negative'' of
        Some e \<Rightarrow> Inl e
      | None \<Rightarrow> Inr (let counts = apportion total_units weights
                     in if int (length weights) \<le> total_units then fill_zeros counts else counts))"

section \<open>Over-decomposition and the weight of a worker\<close>

definition oversubscribed_tiles :: "int \<Rightarrow> int \<Rightarrow> int \<Rightarrow> int" where
  "oversubscribed_tiles worker_count factor cap =
     (let f = max factor 1; workers = max worker_count 1; bound = max cap 1
      in max 1 (min (workers * f) bound))"

definition IDLE_FLOOR :: rat where "IDLE_FLOOR = fl64 (1 / 10)"
definition RAM_FLOOR :: rat where "RAM_FLOOR = 1 / 2"
definition RAM_REF_GB :: rat where "RAM_REF_GB = 8"

definition worker_weight :: "rat \<Rightarrow> rat option \<Rightarrow> rat \<Rightarrow> rat" where
  "worker_weight class_weight free_ram_gb load_pct =
     (let cw = (if class_weight \<le> 0 then 1 else class_weight);
          load = min (max load_pct 0) 100;
          idle_factor = fadd IDLE_FLOOR (fmul (fsub 1 IDLE_FLOOR) (fsub 1 (fdiv load 100)));
          ram_factor = (case free_ram_gb of
              None \<Rightarrow> 1
            | Some free \<Rightarrow> (let avail = max free 0
                            in fadd RAM_FLOOR (fmul (fsub 1 RAM_FLOOR) (min (fdiv avail RAM_REF_GB) 1))))
      in fmul (fmul cw idle_factor) ram_factor)"

section \<open>The repair loop ends and keeps the total\<close>

lemma set_zeros: "set (zeros counts) = {i. i < length counts \<and> counts ! i = 0}"
  by (auto simp: zeros_def)

lemma donor_fold:
  "let b = fold (\<lambda>i best. if (counts ! best, - int best) < (counts ! i, - int i) then i else best) [1..<Suc n] 0
   in b \<le> n \<and> (\<forall>i \<le> n. counts ! i \<le> (counts ! b :: int))"
proof (induction n)
  case (Suc n)
  define b where "b = fold (\<lambda>i best. if (counts ! best, - int best) < (counts ! i, - int i) then i else best) [1..<Suc n] 0"
  have b: "b \<le> n" "\<And>i. i \<le> n \<Longrightarrow> counts ! i \<le> counts ! b" using Suc by (simp_all add: b_def Let_def)
  have up: "[1..<Suc (Suc n)] = [1..<Suc n] @ [Suc n]" by simp
  show ?case unfolding up fold_append comp_apply b_def [symmetric]
  proof (cases "counts ! b < counts ! Suc n")
    case True
    then show "let b = fold (\<lambda>i best. if (counts ! best, - int best) < (counts ! i, - int i) then i else best)
        [Suc n] b in b \<le> Suc n \<and> (\<forall>i \<le> Suc n. counts ! i \<le> counts ! b)"
      using b by (auto simp: le_Suc_eq intro: order_trans less_imp_le)
  next
    case False
    then show "let b = fold (\<lambda>i best. if (counts ! best, - int best) < (counts ! i, - int i) then i else best)
        [Suc n] b in b \<le> Suc n \<and> (\<forall>i \<le> Suc n. counts ! i \<le> counts ! b)"
      using b by (auto simp: le_Suc_eq)
  qed
qed simp

lemma donor_props:
  assumes "counts \<noteq> []"
  shows "donor counts < length counts" "i < length counts \<Longrightarrow> counts ! i \<le> counts ! donor counts"
proof -
  obtain n where n: "length counts = Suc n" using assms by (cases counts) auto
  show "donor counts < length counts" "i < length counts \<Longrightarrow> counts ! i \<le> counts ! donor counts"
    using donor_fold [of counts n] by (auto simp: donor_def n Let_def)
qed

lemma zeros_move:
  assumes "to \<in> set (zeros counts)" "from < length counts" "1 < counts ! from"
  shows "set (zeros (move_unit from to counts)) = set (zeros counts) - {to}"
  using assms by (auto simp: set_zeros move_unit_def Let_def nth_list_update)

lemma zeros_length: "length (zeros counts) = card (set (zeros counts))"
proof -
  have "distinct (zeros counts)" by (simp add: zeros_def)
  then show ?thesis by (simp only: distinct_card)
qed

lemma Min_zeros: "zeros counts \<noteq> [] \<Longrightarrow> Min (set (zeros counts)) \<in> set (zeros counts)"
  by (intro Min_in) auto

lemma zeros_nonempty: "zeros counts \<noteq> [] \<Longrightarrow> counts \<noteq> []"
  by (auto simp: zeros_def)

termination fill_zeros
proof (relation "measure (\<lambda>counts. length (zeros counts))")
  fix counts :: "int list"
  assume z: "zeros counts \<noteq> []" and d: "\<not> counts ! donor counts \<le> 1"
  let ?to = "Min (set (zeros counts))"
  have "set (zeros (move_unit (donor counts) ?to counts)) = set (zeros counts) - {?to}"
    using Min_zeros [OF z] donor_props(1) [OF zeros_nonempty [OF z]] d by (intro zeros_move) auto
  moreover have "card (set (zeros counts) - {?to}) < card (set (zeros counts))"
    using Min_zeros [OF z] by (intro card_Diff1_less) auto
  ultimately show "(move_unit (donor counts) ?to counts, counts) \<in> measure (\<lambda>counts. length (zeros counts))"
    by (simp add: zeros_length)
qed simp

declare fill_zeros.simps [simp del]

lemma sum_list_update_int: "k < length xs \<Longrightarrow> sum_list (xs[k := x]) = sum_list xs + x - (xs ! k :: int)"
proof (induction xs arbitrary: k)
  case (Cons y ys)
  then show ?case by (cases k) auto
qed simp

lemma sum_list_move:
  assumes "from < length counts" "to < length counts"
  shows "sum_list (move_unit from to counts) = sum_list counts"
  using assms by (simp add: move_unit_def Let_def sum_list_update_int nth_list_update)

text \<open>Enough to go round: the loop leaves no share empty.\<close>

lemma small_sum: "(\<And>x. x \<in> set xs \<Longrightarrow> x \<le> 1) \<Longrightarrow> 0 \<in> set xs \<Longrightarrow> sum_list xs < int (length xs)"
proof (induction xs)
  case (Cons x xs)
  have le: "sum_list xs \<le> int (length xs)"
    using sum_list_mono [of xs "\<lambda>x. x" "\<lambda>_. 1"] Cons.prems(1) by (simp add: sum_list_triv)
  show ?case
  proof (cases "x = 0")
    case True
    then show ?thesis using le by simp
  next
    case False
    then have "sum_list xs < int (length xs)" using Cons by auto
    then show ?thesis using Cons.prems(1) [of x] by simp
  qed
qed simp

lemma fill_zeros_props:
  assumes "\<And>x. x \<in> set counts \<Longrightarrow> 0 \<le> x"
  shows "length (fill_zeros counts) = length counts" "sum_list (fill_zeros counts) = sum_list counts"
    "x \<in> set (fill_zeros counts) \<Longrightarrow> 0 \<le> x"
    "int (length counts) \<le> sum_list counts \<Longrightarrow> x \<in> set (fill_zeros counts) \<Longrightarrow> 1 \<le> x"
proof -
  have "length (fill_zeros counts) = length counts \<and> sum_list (fill_zeros counts) = sum_list counts \<and>
      (\<forall>x \<in> set (fill_zeros counts). 0 \<le> x) \<and>
      (int (length counts) \<le> sum_list counts \<longrightarrow> (\<forall>x \<in> set (fill_zeros counts). 1 \<le> x))"
    using assms
  proof (induction counts rule: fill_zeros.induct)
    case (1 counts)
    let ?to = "Min (set (zeros counts))" and ?m = "move_unit (donor counts) (Min (set (zeros counts))) counts"
    show ?case
    proof (cases "zeros counts = []")
      case True
      then have "\<And>x. x \<in> set counts \<Longrightarrow> x \<noteq> 0" by (auto simp: zeros_def in_set_conv_nth filter_empty_conv)
      then show ?thesis using True "1.prems" by (simp add: fill_zeros.simps) force
    next
      case z: False
      have to: "?to < length counts" "counts ! ?to = 0" using Min_zeros [OF z] by (auto simp: set_zeros)
      note don = donor_props [OF zeros_nonempty [OF z]]
      show ?thesis
      proof (cases "counts ! donor counts \<le> 1")
        case True
        then have "\<And>x. x \<in> set counts \<Longrightarrow> x \<le> 1" using don(2) by (force simp: in_set_conv_nth)
        moreover have "0 \<in> set counts" using to by (metis nth_mem)
        ultimately have "sum_list counts < int (length counts)" by (rule small_sum)
        then show ?thesis using z True "1.prems" by (simp add: fill_zeros.simps)
      next
        case False
        have "0 \<le> x" if "x \<in> set ?m" for x
          using that "1.prems" don(1) to False
          by (auto simp: move_unit_def Let_def in_set_conv_nth nth_list_update split: if_splits)
        moreover have "length ?m = length counts" "sum_list ?m = sum_list counts"
          using sum_list_move [OF don(1) to(1)] by (simp_all add: move_unit_def Let_def)
        moreover have "fill_zeros counts = fill_zeros ?m" using z False by (subst fill_zeros.simps) simp
        ultimately show ?thesis using "1.IH" [OF z False] by simp
      qed
    qed
  qed
  then show "length (fill_zeros counts) = length counts" "sum_list (fill_zeros counts) = sum_list counts"
    "x \<in> set (fill_zeros counts) \<Longrightarrow> 0 \<le> x"
    "int (length counts) \<le> sum_list counts \<Longrightarrow> x \<in> set (fill_zeros counts) \<Longrightarrow> 1 \<le> x" by auto
qed

section \<open>Ranges cover what they cut\<close>

text \<open>The positions a list of half-open ranges covers, in order.\<close>

definition covered :: "(int \<times> int) list \<Rightarrow> int list" where
  "covered rs = concat (map (\<lambda>(a, b). [a..b - 1]) rs)"

lemma upto_split: "a \<le> b \<Longrightarrow> b \<le> c \<Longrightarrow> [a..b - 1] @ [b..c - 1] = [a..c - 1]"
  using upto_split1 [of a b "c - 1"] by (cases "b = c") auto

lemma covered_ranges_from:
  "(\<And>k. k \<in> set sizes \<Longrightarrow> 0 \<le> k) \<Longrightarrow> covered (ranges_from a sizes) = [a..a + sum_list sizes - 1]"
proof (induction sizes arbitrary: a)
  case Nil
  then show ?case by (simp add: covered_def)
next
  case (Cons k sizes)
  have "0 \<le> k" "0 \<le> sum_list sizes" using Cons.prems by (auto intro: sum_list_nonneg)
  moreover have "covered (ranges_from (a + k) sizes) = [a + k..a + k + sum_list sizes - 1]"
    using Cons by simp
  moreover have "covered (ranges_from a (k # sizes)) = [a..a + k - 1] @ covered (ranges_from (a + k) sizes)"
    by (simp add: covered_def)
  ultimately show ?case using upto_split [of a "a + k" "a + k + sum_list sizes"] by (simp add: add.assoc)
qed

lemma sizes_ranges_from [simp]: "map (\<lambda>(a, b). b - a) (ranges_from a sizes) = sizes"
  by (induction sizes arbitrary: a) auto

lemma length_ranges_from [simp]: "length (ranges_from a sizes) = length sizes"
  by (induction sizes arbitrary: a) auto

lemma nth_ranges_from: "i < length sizes \<Longrightarrow> snd (ranges_from a sizes ! i) - fst (ranges_from a sizes ! i) = sizes ! i"
proof -
  assume i: "i < length sizes"
  have "map (\<lambda>(a, b). b - a) (ranges_from a sizes) ! i = sizes ! i" by (simp only: sizes_ranges_from)
  then show ?thesis using i by (subst (asm) nth_map) (simp_all add: case_prod_beta)
qed

lemma even_sizes_sum:
  assumes "0 \<le> extra" "extra \<le> n"
  shows "sum_list (map (\<lambda>i. base + (if i < extra then 1 else 0)) [0..n - 1]) = n * base + (extra::int)"
proof -
  have "sum_list (map (\<lambda>i. base + (if i < extra then 1 else (0::int))) [0..m - 1]) = m * base + min m extra"
    if "0 \<le> m" for m
    using that
  proof (induction m rule: int_ge_induct)
    case base
    then show ?case using assms by simp
  next
    case (step m)
    have "[0..m + 1 - 1] = [0..m - 1] @ [m]" using upto_rec2 [of 0 m] step.hyps by simp
    then show ?case using step by (simp add: algebra_simps min_def)
  qed
  from this [of n] assms show ?thesis by simp
qed

section \<open>Largest remainders\<close>

lemma hand_out_props:
  assumes "distinct is" "\<forall>i \<in> set is. i < length counts"
  shows "length (hand_out is counts) = length counts" "sum_list (hand_out is counts) = sum_list counts + int (length is)"
    "j < length counts \<Longrightarrow> hand_out is counts ! j = counts ! j + (if j \<in> set is then 1 else 0)"
proof -
  have "length (hand_out is counts) = length counts \<and> sum_list (hand_out is counts) = sum_list counts + int (length is) \<and>
    (\<forall>j < length counts. hand_out is counts ! j = counts ! j + (if j \<in> set is then 1 else 0))"
    using assms
  proof (induction "is" arbitrary: counts)
    case (Cons i "is")
    have "hand_out (i # is) counts = hand_out is (counts[i := counts ! i + 1])" by (simp add: hand_out_def)
    then show ?case using Cons.IH [of "counts[i := counts ! i + 1]"] Cons.prems
      by (auto simp: sum_list_update_int nth_list_update)
  qed (simp add: hand_out_def)
  then show "length (hand_out is counts) = length counts" "sum_list (hand_out is counts) = sum_list counts + int (length is)"
    "j < length counts \<Longrightarrow> hand_out is counts ! j = counts ! j + (if j \<in> set is then 1 else 0)" by auto
qed

lemma remainder_order_props [simp]:
  "distinct (remainder_order shares floors)" "set (remainder_order shares floors) = {..<length shares}"
  "length (remainder_order shares floors) = length shares"
  by (auto simp: remainder_order_def)

lemma slice_to_props:
  "distinct xs \<Longrightarrow> distinct (slice_to xs k)" "set (slice_to xs k) \<subseteq> set xs"
  "0 \<le> k \<Longrightarrow> k \<le> int (length xs) \<Longrightarrow> length (slice_to xs k) = nat k"
  by (auto simp: slice_to_def dest: in_set_takeD)

definition floors_of :: "int \<Rightarrow> rat list \<Rightarrow> int list" where
  "floors_of tot weights = map py_int (float_shares tot weights)"

lemma apportion_alt:
  "apportion tot weights = hand_out (slice_to (remainder_order (float_shares tot weights) (floors_of tot weights))
     (tot - sum_list (floors_of tot weights))) (floors_of tot weights)"
  by (simp add: apportion_def floors_of_def Let_def)

lemma length_floors [simp]: "length (floors_of tot weights) = length weights" "length (float_shares tot weights) = length weights"
  by (simp_all add: floors_of_def float_shares_def)

lemma apportion_props:
  shows "length (apportion tot weights) = length weights"
    "i < length weights \<Longrightarrow> apportion tot weights ! i \<in> {floors_of tot weights ! i, floors_of tot weights ! i + 1}"
    "0 \<le> tot - sum_list (floors_of tot weights) \<Longrightarrow> tot - sum_list (floors_of tot weights) \<le> int (length weights) \<Longrightarrow>
       sum_list (apportion tot weights) = tot"
proof -
  let ?is = "slice_to (remainder_order (float_shares tot weights) (floors_of tot weights))
     (tot - sum_list (floors_of tot weights))"
  have "distinct ?is" "\<forall>i \<in> set ?is. i < length (floors_of tot weights)"
    using slice_to_props(1,2) [of "remainder_order (float_shares tot weights) (floors_of tot weights)"] by fastforce+
  note h = hand_out_props [OF this]
  show "length (apportion tot weights) = length weights" by (simp add: apportion_alt h(1))
  show "i < length weights \<Longrightarrow> apportion tot weights ! i \<in> {floors_of tot weights ! i, floors_of tot weights ! i + 1}"
    by (simp add: apportion_alt h(3))
  show "sum_list (apportion tot weights) = tot"
    if "0 \<le> tot - sum_list (floors_of tot weights)" "tot - sum_list (floors_of tot weights) \<le> int (length weights)"
    using that slice_to_props(3) [of "tot - sum_list (floors_of tot weights)"
        "remainder_order (float_shares tot weights) (floors_of tot weights)"]
    by (simp add: apportion_alt h(2))
qed

section \<open>The rounded shares are close enough\<close>

text \<open>
  Weights the analysis covers: at most \<open>2 ^ 12\<close> of them, each zero or within \<open>2 powi (-60)\<close> and
  \<open>2 ^ 60\<close>, not all zero. The weights \<open>worker_weight\<close> computes lie far inside.
\<close>

lemma close_bounds: "\<bar>a - b\<bar> \<le> b * c \<Longrightarrow> b * (1 - c) \<le> a" "\<bar>a - b\<bar> \<le> b * c \<Longrightarrow> a \<le> b * (1 + c)"
  for a b c :: rat
  by (auto simp: abs_le_iff algebra_simps)

definition weights_ok :: "rat list \<Rightarrow> bool" where
  "weights_ok ws \<longleftrightarrow> length ws \<le> 2 ^ 12 \<and> (\<forall>w \<in> set ws. w = 0 \<or> 2 powi (-60) \<le> w \<and> w \<le> 2 ^ 60) \<and>
     (\<exists>w \<in> set ws. w \<noteq> 0)"

lemma weights_okD:
  assumes "weights_ok ws"
  shows "ws \<noteq> []" "w \<in> set ws \<Longrightarrow> 0 \<le> w" "2 powi (-60) \<le> sum_list ws" "0 < sum_list ws" "sum_list ws \<le> 2 ^ 72"
    "length ws \<le> 2 ^ 12"
proof -
  show "ws \<noteq> []" "length ws \<le> 2 ^ 12" using assms by (auto simp: weights_ok_def)
  show nn: "w \<in> set ws \<Longrightarrow> 0 \<le> w" for w
    using assms two_powi_pos [of "-60"] unfolding weights_ok_def by (metis order_refl less_imp_le order_trans)
  obtain w where w: "w \<in> set ws" "2 powi (-60) \<le> w" using assms by (auto simp: weights_ok_def)
  have "w \<le> sum_list ws" using w nn by (intro member_le_sum_list) auto
  with w show lo: "2 powi (-60) \<le> sum_list ws" by linarith
  then show "0 < sum_list ws" using two_powi_pos [of "-60"] by linarith
  have "sum_list (map (\<lambda>w. w) ws) \<le> sum_list (map (\<lambda>_. 2 ^ 60) ws)"
    using assms by (intro sum_list_mono) (auto simp: weights_ok_def)
  then have "sum_list ws \<le> of_nat (length ws) * 2 ^ 60" by (simp add: sum_list_triv)
  also have "\<dots> \<le> of_nat (2 ^ 12) * 2 ^ 60"
    using \<open>length ws \<le> 2 ^ 12\<close> by (intro mult_right_mono) (simp_all only: of_nat_le_iff, simp)
  finally show "sum_list ws \<le> 2 ^ 72" by simp
qed

lemma weight_sum_close:
  assumes "weights_ok ws"
  shows "sum_list ws * (1 - 2 powi (-36)) \<le> py_sum ws" "py_sum ws \<le> sum_list ws * (1 + 2 powi (-36))"
proof -
  note w = weights_okD [OF assms]
  have "(2::rat) powi (-900) \<le> 2 powi (-60)" by (rule two_powi_mono) simp
  with w(3) have "2 powi (-900) \<le> sum_list ws" by (rule order_trans [rotated])
  then have "\<bar>py_sum ws - sum_list ws\<bar> \<le> of_nat (length ws) * 2 powi (-48) * sum_list ws"
    using w(2,6) by (intro py_sum_error) auto
  also have "\<dots> \<le> of_nat (2 ^ 12) * 2 powi (-48) * sum_list ws"
    using w(4,6) by (intro mult_right_mono) (simp_all only: of_nat_le_iff, simp_all)
  also have "\<dots> = 2 powi (-36) * sum_list ws" by (simp add: power_int_minus)
  finally have "\<bar>py_sum ws - sum_list ws\<bar> \<le> 2 powi (-36) * sum_list ws" .
  then show "sum_list ws * (1 - 2 powi (-36)) \<le> py_sum ws" "py_sum ws \<le> sum_list ws * (1 + 2 powi (-36))"
    by (simp_all only: mult.commute [of _ "sum_list ws"] close_bounds)
qed

text \<open>One share: the exact one up to a factor \<open>1 + 2 powi (-35)\<close> either way.\<close>

lemma share_close:
  fixes T w W S :: rat
  assumes T: "1 \<le> T" "T \<le> 2 ^ 34" and w: "2 powi (-60) \<le> w"
    and S: "0 < S" "S \<le> 2 ^ 72" and W: "S * (1 - 2 powi (-36)) \<le> W" "W \<le> S * (1 + 2 powi (-36))"
  shows "\<bar>fl64 (fl64 (T * w) / W) - T * w / S\<bar> \<le> T * w / S * 2 powi (-35)"
proof -
  define p where "p = fl64 (T * w)"
  define q where "q = T * w / S"
  have w0: "0 < w" using w two_powi_pos [of "-60"] by linarith
  have Tw: "2 powi (-60) \<le> T * w" using T w w0 mult_mono [of 1 T "2 powi (-60)" w] by simp
  have W0: "S / 2 \<le> W" using W(1) S by (simp add: power_int_minus)
  have pos: "0 < T * w" "0 < W" "0 < q" using T(1) w0 W0 S by (simp_all add: q_def)
  have big: "(2::rat) powi (-1000) \<le> 2 powi (-61)" "(2::rat) powi (-1000) \<le> 2 powi (-140)"
    by (intro two_powi_mono, simp)+
  have p: "\<bar>p - T * w\<bar> \<le> T * w * 2 powi (-52)"
    using fl64_relative [of "T * w"] Tw big(1) pos by (simp add: p_def power_int_minus)
  moreover have "T * w * 2 powi (-52) \<le> T * w * (1 / 2)" using pos by (intro mult_left_mono) (auto simp: power_int_minus)
  ultimately have p2: "T * w / 2 \<le> p" "0 \<le> p" using pos by linarith+
  have "W \<le> 2 * S" using W(2) S by (simp add: power_int_minus)
  then have "W \<le> 2 ^ 73" using S(2) by simp
  have "2 powi (-140) * W \<le> 2 powi (-140) * 2 ^ 73" using \<open>W \<le> 2 ^ 73\<close> by (intro mult_left_mono) auto
  also have "\<dots> = (2::rat) powi (-67)" by (simp add: power_int_minus)
  also have "\<dots> \<le> p" using p2 Tw by (simp add: power_int_minus)
  finally have "2 powi (-140) \<le> p / W" using pos by (simp add: le_divide_eq)
  then have "2 powi (-1000) \<le> p / W" using big(2) by linarith
  moreover have "\<bar>p / W\<bar> = p / W" using p2 pos by simp
  ultimately have r: "\<bar>fl64 (p / W) - p / W\<bar> \<le> p / W * 2 powi (-52)"
    using fl64_relative [of "p / W"] by simp
  have "p / W \<le> q * (1 + 2 powi (-52)) / (1 - 2 powi (-36))"
  proof -
    have "p \<le> q * S * (1 + 2 powi (-52))" using close_bounds(2) [OF p] S by (simp add: q_def)
    then have "p / W \<le> q * S * (1 + 2 powi (-52)) / (S * (1 - 2 powi (-36)))"
      using W S pos p2 by (intro frac_le) (auto simp: power_int_minus)
    then show ?thesis using S by (simp add: mult.assoc)
  qed
  then have hi: "p / W * (1 - 2 powi (-36)) \<le> q * (1 + 2 powi (-52))"
    by (rule iffD1 [OF pos_le_divide_eq, rotated]) (simp add: power_int_minus)
  have "q * (1 - 2 powi (-52)) / (1 + 2 powi (-36)) \<le> p / W"
  proof -
    have "q * S * (1 - 2 powi (-52)) \<le> p" using close_bounds(1) [OF p] S by (simp add: q_def)
    then have "q * S * (1 - 2 powi (-52)) / (S * (1 + 2 powi (-36))) \<le> p / W"
      using W S pos p2 by (intro frac_le) (auto simp: power_int_minus)
    then show ?thesis using S by (simp add: mult.assoc)
  qed
  then have lo: "q * (1 - 2 powi (-52)) \<le> p / W * (1 + 2 powi (-36))"
    by (rule iffD1 [OF pos_divide_le_eq, rotated]) (simp add: power_int_minus)
  define v where "v = p / W"
  have "fl64 v \<le> v + v * 2 powi (-52)" "v - v * 2 powi (-52) \<le> fl64 v" using r unfolding v_def by linarith+
  then have "fl64 v - q \<le> q * 2 powi (-35)" "q - fl64 v \<le> q * 2 powi (-35)"
    using hi lo pos(3) unfolding v_def [symmetric] by (simp_all add: power_int_minus)
  then show ?thesis unfolding p_def [symmetric] q_def [symmetric] v_def [symmetric] by linarith
qed

lemma float_shares_close:
  assumes "weights_ok ws" "0 \<le> tot" "tot \<le> 2 ^ 34" "w \<in> set ws"
  shows "\<bar>fdiv (fmul (fl64 (of_int tot)) w) (py_sum ws) - w * (of_int tot / sum_list ws)\<bar>
       \<le> w * (of_int tot / sum_list ws) * 2 powi (-35)"
proof -
  have T: "fl64 (of_int tot) = of_int tot" using assms(2,3) by (intro fl64_of_int) simp
  show ?thesis
  proof (cases "tot = 0 \<or> w = 0")
    case False
    have "of_int tot \<le> (of_int (2 ^ 34) :: rat)" "of_int 1 \<le> (of_int tot :: rat)"
      using assms(2,3) False by (simp_all only: of_int_le_iff) simp_all
    moreover have "2 powi (-60) \<le> w" using assms(1,4) False by (auto simp: weights_ok_def)
    ultimately have "\<bar>fl64 (fl64 (of_int tot * w) / py_sum ws) - of_int tot * w / sum_list ws\<bar>
        \<le> of_int tot * w / sum_list ws * 2 powi (-35)"
      using weights_okD [OF assms(1)] weight_sum_close [OF assms(1)] by (intro share_close) auto
    then show ?thesis unfolding T fdiv_def fmul_def by (simp add: mult.commute)
  qed (auto simp: T fop_defs)
qed

lemma float_shares_sum:
  assumes "weights_ok ws" "0 \<le> tot" "tot \<le> 2 ^ 34"
  shows "\<bar>sum_list (float_shares tot ws) - of_int tot\<bar> \<le> 1 / 2"
proof -
  let ?f = "\<lambda>w. fdiv (fmul (fl64 (of_int tot)) w) (py_sum ws)"
  let ?q = "\<lambda>w. w * (of_int tot / sum_list ws)"
  have q: "(\<Sum>w\<leftarrow>ws. ?q w) = of_int tot"
    using weights_okD(4) [OF assms(1)] by (simp only: sum_list_mult_const) simp
  have "of_int tot \<le> (of_int (2 ^ 34) :: rat)" using assms(3) by (simp only: of_int_le_iff)
  then have small: "of_int tot * 2 powi (-35) \<le> (1 / 2 :: rat)" by (simp add: power_int_minus)
  have "\<bar>(\<Sum>w\<leftarrow>ws. ?f w - ?q w)\<bar> \<le> (\<Sum>w\<leftarrow>ws. \<bar>?f w - ?q w\<bar>)"
    using sum_list_abs [of "map (\<lambda>w. ?f w - ?q w) ws"] by (simp add: comp_def)
  also have "\<dots> \<le> (\<Sum>w\<leftarrow>ws. ?q w * 2 powi (-35))"
    using assms by (intro sum_list_mono float_shares_close) auto
  also have "\<dots> = of_int tot * 2 powi (-35)" by (subst sum_list_mult_const) (subst q, rule refl)
  finally have "\<bar>(\<Sum>w\<leftarrow>ws. ?f w - ?q w)\<bar> \<le> 1 / 2" using small by linarith
  then show ?thesis by (simp only: sum_list_subtractf q float_shares_def)
qed

lemma float_shares_nonneg:
  assumes "weights_ok ws" "0 \<le> tot" "x \<in> set (float_shares tot ws)"
  shows "0 \<le> x"
proof -
  have "0 \<le> py_sum ws" using weight_sum_close(1) [OF assms(1)] weights_okD(4) [OF assms(1)]
    by (simp add: power_int_minus)
  then show ?thesis using assms weights_okD(2) [OF assms(1)]
    by (auto simp: float_shares_def fop_defs intro!: f64.rnd_nonneg divide_nonneg_nonneg mult_nonneg_nonneg)
qed

lemma py_int_sum:
  assumes "\<And>x. x \<in> set xs \<Longrightarrow> 0 \<le> x"
  shows "of_int (sum_list (map py_int xs)) \<le> sum_list xs" "sum_list xs \<le> of_int (sum_list (map py_int xs)) + of_nat (length xs)"
proof -
  have "of_int (sum_list (map py_int xs)) \<le> sum_list xs \<and>
      sum_list xs \<le> of_int (sum_list (map py_int xs)) + of_nat (length xs)"
    using assms
  proof (induction xs)
    case (Cons x xs)
    then have "of_int (py_int x) \<le> x" "x \<le> of_int (py_int x) + 1" by (auto simp: py_int_def) linarith
    then show ?case using Cons by simp
  qed simp
  then show "of_int (sum_list (map py_int xs)) \<le> sum_list xs"
    "sum_list xs \<le> of_int (sum_list (map py_int xs)) + of_nat (length xs)" by auto
qed

text \<open>Every unit is handed out exactly once, and a share is off its exact size by less than two.\<close>

lemma apportion_fair:
  assumes "weights_ok ws" "0 \<le> tot" "tot \<le> 2 ^ 34"
  shows "sum_list (apportion tot ws) = tot" "k \<in> set (apportion tot ws) \<Longrightarrow> 0 \<le> k"
    "i < length ws \<Longrightarrow> \<bar>of_int (apportion tot ws ! i) - ws ! i * (of_int tot / sum_list ws)\<bar> < 2"
proof -
  let ?F = "sum_list (floors_of tot ws)" and ?s = "float_shares tot ws"
  note nonneg = float_shares_nonneg [OF assms(1,2)]
  have fl: "of_int ?F \<le> sum_list ?s" "sum_list ?s \<le> of_int ?F + of_nat (length ws)"
    using py_int_sum [of ?s] nonneg by (simp_all add: floors_of_def)
  have "sum_list ?s - of_int tot \<le> 1 / 2" "of_int tot - sum_list ?s \<le> 1 / 2"
    using float_shares_sum [OF assms] by linarith+
  with fl have "of_int ?F < (of_int tot + 1 :: rat)" "of_int tot < (of_int ?F + of_nat (length ws) + 1 :: rat)"
    by linarith+
  then have "of_int ?F < (of_int (tot + 1) :: rat)" "of_int tot < (of_int (?F + int (length ws) + 1) :: rat)"
    by simp_all
  then have "0 \<le> tot - ?F" "tot - ?F \<le> int (length ws)" by (simp_all only: of_int_less_iff)
  then show "sum_list (apportion tot ws) = tot" by (rule apportion_props(3))
  have fn: "floors_of tot ws ! i = \<lfloor>?s ! i\<rfloor> \<and> 0 \<le> ?s ! i" if "i < length ws" for i
    using that nonneg [of "?s ! i"] by (simp add: floors_of_def py_int_def)
  show "0 \<le> k" if "k \<in> set (apportion tot ws)"
  proof -
    from that obtain j where "j < length ws" "k = apportion tot ws ! j"
      by (auto simp: in_set_conv_nth apportion_props(1))
    then show ?thesis using apportion_props(2) [of j ws tot] fn [of j] by auto
  qed
  show "\<bar>of_int (apportion tot ws ! i) - ws ! i * (of_int tot / sum_list ws)\<bar> < 2" if i: "i < length ws"
  proof -
    let ?q = "ws ! i * (of_int tot / sum_list ws)"
    have "of_int tot \<le> (of_int (2 ^ 34) :: rat)" using assms(3) by (simp only: of_int_le_iff)
    then have "of_int tot \<le> (2 ^ 34 :: rat)" by simp
    moreover have "ws ! i \<le> sum_list ws"
      using i weights_okD(2) [OF assms(1)] by (intro member_le_sum_list) auto
    then have "?q \<le> of_int tot" using weights_okD(4) [OF assms(1)] assms(2) mult_right_mono [of "ws ! i" "sum_list ws" "of_int tot / sum_list ws"]
      by simp
    ultimately have "?q \<le> 2 ^ 34" by (rule order_trans [rotated])
    then have "?q * 2 powi (-35) \<le> 2 ^ 34 * 2 powi (-35)" by (rule mult_right_mono) simp
    moreover have "\<bar>?s ! i - ?q\<bar> \<le> ?q * 2 powi (-35)"
      using float_shares_close [OF assms, of "ws ! i"] i by (simp add: float_shares_def)
    moreover have "(2::rat) ^ 34 * 2 powi (-35) = 1 / 2" by (simp add: power_int_minus)
    ultimately have "\<bar>?s ! i - ?q\<bar> \<le> 1 / 2" by linarith
    moreover have "apportion tot ws ! i = \<lfloor>?s ! i\<rfloor> \<or> apportion tot ws ! i = \<lfloor>?s ! i\<rfloor> + 1"
      using apportion_props(2) [OF i, of tot] fn [OF i] by auto
    then have "of_int (apportion tot ws ! i) \<le> ?s ! i + 1" "?s ! i - 1 \<le> of_int (apportion tot ws ! i)"
      by (elim disjE; simp; linarith)+
    ultimately show ?thesis by linarith
  qed
qed

lemma check_weights_ok:
  assumes "weights_ok ws" "0 \<le> tot"
  shows "check_weights tot ws msg = None"
proof -
  have "0 < py_sum ws" using weight_sum_close(1) [OF assms(1)] weights_okD(4) [OF assms(1)]
    by (simp add: power_int_minus)
  then show ?thesis using weights_okD(1,2) [OF assms(1)] assms(2)
    by (auto simp: check_weights_def list_ex_iff not_less)
qed

section \<open>The weight of a worker\<close>

definition idle_factor :: "rat \<Rightarrow> rat" where
  "idle_factor load_pct = fadd IDLE_FLOOR (fmul (fsub 1 IDLE_FLOOR) (fsub 1 (fdiv (min (max load_pct 0) 100) 100)))"

definition ram_factor :: "rat option \<Rightarrow> rat" where
  "ram_factor free_ram_gb = (case free_ram_gb of None \<Rightarrow> 1
     | Some free \<Rightarrow> fadd RAM_FLOOR (fmul (fsub 1 RAM_FLOOR) (min (fdiv (max free 0) RAM_REF_GB) 1)))"

definition class_factor :: "rat \<Rightarrow> rat" where
  "class_factor class_weight = (if class_weight \<le> 0 then 1 else class_weight)"

lemma worker_weight_factors:
  "worker_weight c r l = fmul (fmul (class_factor c) (idle_factor l)) (ram_factor r)"
  by (auto simp: worker_weight_def idle_factor_def ram_factor_def class_factor_def Let_def split: option.splits)

lemma exact_eighth [simp]: "fl64 (1 / 8) = 1 / 8" "fl64 (1 / 16) = 1 / 16" "fl64 (1 / 2) = 1 / 2" "fl64 (9 / 8) = 9 / 8"
  "fl64 (1 / 32) = 1 / 32"
  using fl64_exact [of 1 "-3"] fl64_exact [of 1 "-4"] fl64_exact [of 1 "-1"] fl64_exact [of 9 "-3"] fl64_exact [of 1 "-5"]
  by (simp_all add: power_int_minus)

lemma IDLE_FLOOR_bounds: "1 / 16 \<le> IDLE_FLOOR" "IDLE_FLOOR \<le> 1 / 8"
  unfolding IDLE_FLOOR_def using fl64_mono [of "1/16" "1/10"] fl64_mono [of "1/10" "1/8"] by simp_all

lemma idle_slope: "0 \<le> fsub 1 IDLE_FLOOR" "fsub 1 IDLE_FLOOR \<le> 1"
  unfolding fsub_def using IDLE_FLOOR_bounds fl64_mono [of 0 "1 - IDLE_FLOOR"] fl64_mono [of "1 - IDLE_FLOOR" 1] by simp_all

lemma idle_factor_bounds: "1 / 16 \<le> idle_factor l" "idle_factor l \<le> 9 / 8"
proof -
  define x where "x = fsub 1 (fdiv (min (max l 0) 100) 100)"
  have "0 \<le> fdiv (min (max l 0) 100) 100" "fdiv (min (max l 0) 100) 100 \<le> 1"
    unfolding fdiv_def using fl64_mono [of 0 "min (max l 0) 100 / 100"] fl64_mono [of "min (max l 0) 100 / 100" 1]
    by simp_all
  then have x: "0 \<le> x" "x \<le> 1"
    unfolding x_def fsub_def using fl64_mono [of 0 "1 - fdiv (min (max l 0) 100) 100"]
      fl64_mono [of "1 - fdiv (min (max l 0) 100) 100" 1] by simp_all
  have "fsub 1 IDLE_FLOOR * x \<le> 1" using x idle_slope mult_mono [of "fsub 1 IDLE_FLOOR" 1 x 1] by simp
  then have "0 \<le> fmul (fsub 1 IDLE_FLOOR) x" "fmul (fsub 1 IDLE_FLOOR) x \<le> 1"
    unfolding fmul_def using x idle_slope fl64_mono [of "fsub 1 IDLE_FLOOR * x" 1] by (auto intro: fl64_nonneg)
  then have y: "1 / 16 \<le> IDLE_FLOOR + fmul (fsub 1 IDLE_FLOOR) x" "IDLE_FLOOR + fmul (fsub 1 IDLE_FLOOR) x \<le> 9 / 8"
    using IDLE_FLOOR_bounds by linarith+
  from fl64_mono [OF y(1)] fl64_mono [OF y(2)] show "1 / 16 \<le> idle_factor l" "idle_factor l \<le> 9 / 8"
    unfolding idle_factor_def x_def [symmetric] fadd_def by simp_all
qed

lemma fmul_mono: "0 \<le> a \<Longrightarrow> a \<le> a' \<Longrightarrow> 0 \<le> b \<Longrightarrow> b \<le> b' \<Longrightarrow> fmul a b \<le> fmul a' b'"
  unfolding fmul_def by (intro fl64_mono mult_mono) auto

lemma idle_factor_antimono: "l \<le> l' \<Longrightarrow> idle_factor l' \<le> idle_factor l"
  unfolding idle_factor_def fadd_def fsub_def fdiv_def fmul_def
  by (intro fl64_mono add_left_mono mult_left_mono diff_left_mono divide_right_mono)
     (use idle_slope in \<open>auto simp: fsub_def\<close>)

lemma ram_factor_bounds: "1 / 2 \<le> ram_factor r" "ram_factor r \<le> 1"
proof -
  have "1 / 2 \<le> ram_factor r \<and> ram_factor r \<le> 1"
  proof (cases r)
    case (Some free)
    have half: "fsub 1 (1 / 2) = 1 / 2" by (simp add: fsub_def)
    have "0 \<le> fdiv (max free 0) 8" unfolding fdiv_def by (intro fl64_nonneg) simp
    then have x: "0 \<le> min (fdiv (max free 0) 8) 1" "min (fdiv (max free 0) 8) 1 \<le> 1" by simp_all
    define m where "m = fl64 (1 / 2 * min (fdiv (max free 0) 8) 1)"
    have "0 \<le> m" "m \<le> 1 / 2" unfolding m_def
      using x fl64_nonneg [of "1 / 2 * min (fdiv (max free 0) 8) 1"]
        fl64_mono [of "1 / 2 * min (fdiv (max free 0) 8) 1" "1 / 2"] by simp_all
    then have "fl64 (1 / 2) \<le> fl64 (1 / 2 + m)" "fl64 (1 / 2 + m) \<le> fl64 1" by (intro fl64_mono; linarith)+
    then show ?thesis
      by (simp add: Some ram_factor_def RAM_FLOOR_def RAM_REF_GB_def half fmul_def m_def fadd_def)
  qed (simp add: ram_factor_def)
  then show "1 / 2 \<le> ram_factor r" "ram_factor r \<le> 1" by auto
qed

definition ram_le :: "rat option \<Rightarrow> rat option \<Rightarrow> bool" where
  "ram_le r r' \<longleftrightarrow> (case r' of None \<Rightarrow> True | Some b \<Rightarrow> (case r of None \<Rightarrow> False | Some a \<Rightarrow> a \<le> b))"

lemma ram_factor_mono: "ram_le r r' \<Longrightarrow> ram_factor r \<le> ram_factor r'"
proof (cases r')
  case None
  then show ?thesis using ram_factor_bounds(2) [of r] by (simp add: ram_factor_def)
next
  case (Some b)
  assume "ram_le r r'"
  then obtain a where a: "r = Some a" "a \<le> b" using Some by (auto simp: ram_le_def split: option.splits)
  from a(2) have "max a 0 \<le> max b 0" by simp
  moreover have "0 \<le> fsub 1 RAM_FLOOR" by (simp add: fsub_def RAM_FLOOR_def)
  ultimately show ?thesis unfolding Some a(1) ram_factor_def fadd_def fmul_def fdiv_def RAM_REF_GB_def option.case
    by (intro fl64_mono add_left_mono mult_left_mono min.mono divide_right_mono) auto
qed

lemma worker_weight_bounds:
  assumes "class_factor c \<le> 2 ^ 20" "1 \<le> class_factor c"
  shows "1 / 32 \<le> worker_weight c r l" "worker_weight c r l \<le> 2 ^ 21"
proof -
  have cw: "1 / 16 \<le> fmul (class_factor c) (idle_factor l)" "fmul (class_factor c) (idle_factor l) \<le> 2 ^ 21"
    using fmul_mono [of 1 "class_factor c" "1 / 16" "idle_factor l"] fmul_mono [of "class_factor c" "2 ^ 20" "idle_factor l" 2]
      idle_factor_bounds [of l] assms by (simp_all add: fmul_def)
  then show "1 / 32 \<le> worker_weight c r l" "worker_weight c r l \<le> 2 ^ 21"
    using fmul_mono [of "1 / 16" "fmul (class_factor c) (idle_factor l)" "1 / 2" "ram_factor r"]
      fmul_mono [of "fmul (class_factor c) (idle_factor l)" "2 ^ 21" "ram_factor r" 1] ram_factor_bounds [of r]
    by (simp_all add: worker_weight_factors fmul_def)
qed

lemma weights_ok_example: "weights_ok [1, 5, 1 / 2]"
  by (simp add: weights_ok_def power_int_minus)

section \<open>The splits cover the work\<close>

lemma even_ranges_covers:
  "if n \<le> 0 \<or> T < 0 then \<exists>msg. even_ranges T n = Inl (ValueError msg)
   else \<exists>rs. even_ranges T n = Inr rs \<and> int (length rs) = n \<and> covered rs = [0..T - 1] \<and>
     list_all (\<lambda>(a, b). b - a \<in> {T div n, T div n + 1}) rs"
proof (cases "n \<le> 0 \<or> T < 0")
  case False
  define sizes where "sizes = map (\<lambda>i. T div n + (if i < T mod n then 1 else 0)) [0..n - 1]"
  have sum: "sum_list sizes = T"
    using even_sizes_sum [of "T mod n" n "T div n"] False by (simp add: sizes_def less_imp_le)
  have nn: "0 \<le> k" if "k \<in> set sizes" for k
    using that False by (auto simp: sizes_def pos_imp_zdiv_nonneg_iff add_nonneg_nonneg)
  have "even_ranges T n = Inr (ranges_from 0 sizes)" using False by (simp add: even_ranges_def sizes_def Let_def)
  moreover have "covered (ranges_from 0 sizes) = [0..T - 1]" using covered_ranges_from [of sizes 0] nn sum by simp
  moreover have "list_all (\<lambda>(a, b). b - a \<in> {T div n, T div n + 1}) (ranges_from 0 sizes)"
  proof -
    have "snd r - fst r \<in> set sizes" if "r \<in> set (ranges_from 0 sizes)" for r
    proof -
      have "snd r - fst r \<in> set (map (\<lambda>(a, b). b - a) (ranges_from 0 sizes))"
        using that unfolding set_map by (rule rev_image_eqI) (simp add: case_prod_beta)
      then show ?thesis by (simp only: sizes_ranges_from)
    qed
    then show ?thesis by (fastforce simp: sizes_def list_all_iff)
  qed
  ultimately show ?thesis using False by (auto simp: sizes_def)
qed (auto simp: even_ranges_def)

lemma weighted_ranges_covers:
  assumes "weights_ok ws" "0 \<le> T" "T \<le> 2 ^ 34"
  shows "\<exists>rs. weighted_ranges T ws = Inr rs \<and> length rs = length ws \<and> covered rs = [0..T - 1] \<and>
    (\<forall>i < length ws. \<bar>of_int (snd (rs ! i) - fst (rs ! i)) - ws ! i * of_int T / sum_list ws\<bar> < 2)"
proof -
  let ?rs = "ranges_from 0 (apportion T ws)"
  have "weighted_ranges T ws = Inr ?rs" using check_weights_ok [OF assms(1,2)] by (simp add: weighted_ranges_def)
  moreover have "covered ?rs = [0..T - 1]"
    using covered_ranges_from [of "apportion T ws" 0] apportion_fair(1,2) [OF assms] by simp
  ultimately show ?thesis
    using apportion_fair(3) [OF assms] nth_ranges_from [of _ "apportion T ws" 0] apportion_props(1) [of T ws]
    by (simp del: of_int_diff)
qed

section \<open>The properties\<close>

text \<open>\<open>even_ranges\<close> splits \<open>[0, total)\<close> into exactly \<open>n\<close> consecutive half-open ranges that cover it with
  no gap and no overlap, whose sizes differ by at most one; a bad tile count or total is a \<open>ValueError\<close>.
\<close>
theorem even_ranges_partition:
  "if n \<le> 0 \<or> T < 0 then \<exists>msg. even_ranges T n = Inl (ValueError msg)
   else \<exists>rs. even_ranges T n = Inr rs \<and> int (length rs) = n \<and> covered rs = [0..T - 1] \<and>
     list_all (\<lambda>(a, b). b - a \<in> {T div n, T div n + 1}) rs"
  by (rule even_ranges_covers)

text \<open>C20.
  \<open>weighted_ranges\<close>, computed in binary64 as the code computes it, still covers \<open>[0, total)\<close> exactly
  with one range per weight, for totals up to \<open>2 ^ 34\<close> and up to 4096 weights of ordinary size: no unit
  is lost or handed out twice to rounding, and each range is off its exact proportional share by less
  than two units.
\<close>
theorem weighted_ranges_partition:
  assumes "weights_ok ws" "0 \<le> T" "T \<le> 2 ^ 34"
  shows "\<exists>rs. weighted_ranges T ws = Inr rs \<and> length rs = length ws \<and> covered rs = [0..T - 1] \<and>
    (\<forall>i < length ws. \<bar>of_int (snd (rs ! i) - fst (rs ! i)) - ws ! i * of_int T / sum_list ws\<bar> < 2)"
  by (rule weighted_ranges_covers [OF assms])

lemma weighted_ranges_partition_witness:
  "\<exists>rs. weighted_ranges 10 [1, 5, 1 / 2] = Inr rs \<and> length rs = 3 \<and> covered rs = [0, 1, 2, 3, 4, 5, 6, 7, 8, 9]"
proof -
  have "\<exists>rs. weighted_ranges 10 [1, 5, 1 / 2] = Inr rs \<and> length rs = length [1, 5, 1 / 2 :: rat] \<and> covered rs = [0..10 - 1]"
    using weighted_ranges_partition [OF weights_ok_example, of 10] by fastforce
  then show ?thesis by (simp add: upto_rec1 numeral_3_eq_3)
qed

text \<open>C21.
  \<open>weighted_partition\<close> hands out exactly \<open>total\<close> units, its repair loop ends, and as soon as there are as
  many units as shares every share is at least one.
\<close>
theorem weighted_partition_total:
  assumes "weights_ok ws" "0 \<le> T" "T \<le> 2 ^ 34"
  shows "\<exists>counts. weighted_partition T ws = Inr counts \<and> length counts = length ws \<and> sum_list counts = T \<and>
    list_all (\<lambda>k. (if int (length ws) \<le> T then 1 else 0) \<le> k) counts"
proof -
  note fair = apportion_fair(1,2) [OF assms] and len = apportion_props(1) [of T ws]
  note fill = fill_zeros_props [of "apportion T ws", OF fair(2)]
  show ?thesis using check_weights_ok [OF assms(1,2)] fair len fill
    by (auto simp: weighted_partition_def list_all_iff Let_def)
qed

lemma weighted_partition_total_witness:
  "\<exists>counts. weighted_partition 100 [1, 5, 1 / 2] = Inr counts \<and> sum_list counts = 100 \<and> list_all (\<lambda>k. 1 \<le> k) counts"
  using weighted_partition_total [OF weights_ok_example, of 100] by auto

text \<open>A worker's weight is positive and favours capable and idle machines: it grows with the class weight
  and with the free memory (unknown memory counts as plenty) and shrinks with the load, in the rounded
  arithmetic of the code; even a fully loaded worker keeps a share.
\<close>
theorem worker_weight_monotone:
  assumes "1 \<le> c" "c \<le> c'" "c' \<le> 2 ^ 20" "ram_le r r'" "l' \<le> l"
  shows "1 / 32 \<le> worker_weight c r l \<and> worker_weight c r l \<le> worker_weight c' r' l'"
proof -
  have "class_factor c = c" "class_factor c' = c'" using assms by (simp_all add: class_factor_def)
  moreover have "0 \<le> fmul c (idle_factor l)" "0 \<le> idle_factor l" "0 \<le> ram_factor r"
    using assms(1) idle_factor_bounds(1) [of l] ram_factor_bounds(1) [of r]
    by (auto simp: fmul_def intro!: fl64_nonneg mult_nonneg_nonneg)
  moreover have "fmul c (idle_factor l) \<le> fmul c' (idle_factor l')"
    using assms calculation(4) idle_factor_antimono [OF assms(5)] by (intro fmul_mono) auto
  ultimately have "worker_weight c r l \<le> worker_weight c' r' l'"
    using ram_factor_mono [OF assms(4)] by (auto simp: worker_weight_factors intro: fmul_mono)
  then show ?thesis using worker_weight_bounds(1) [of c r l] assms by (simp add: class_factor_def)
qed

lemma worker_weight_monotone_witness: "worker_weight 1 (Some 2) 90 \<le> worker_weight 5 (Some 4) 10"
  using worker_weight_monotone [of 1 5 "Some 2" "Some 4" 10 90] by (simp add: ram_le_def)

end
