(* ===== verification/Workloads.thy ===== *)
theory Workloads imports Partition begin

text \<open>
  The builders of \<open>src/workloads\<close>: \<open>fractal.py\<close>, \<open>optimize.py\<close>, \<open>synth.py\<close>, \<open>ai_batch.py\<close>,
  \<open>cpu_fanout.py\<close>, \<open>montecarlo.py\<close>, \<open>hashcrack.py\<close>, \<open>infer.py\<close>, \<open>eval.py\<close> and \<open>graph.py\<close>. Each turns
  the parameters of a launch into job specifications, one per non-empty range of the split. A builder
  takes its keyword arguments as typed values with the defaults filled in (\<open>None\<close> stays an option).
  The lemmas show that the jobs of a workload carry exactly its work, in order.
\<close>

record job_spec =
  js_kind :: str
  js_input :: dict
  js_units :: int

section \<open>The split shared by the range builders\<close>

definition cut :: "int \<Rightarrow> int \<Rightarrow> rat list option \<Rightarrow> py_error + (int \<times> int) list" where
  "cut amount n_tiles weights =
     (case weights of
        None \<Rightarrow> even_ranges amount n_tiles
      | Some ws \<Rightarrow> if int (length ws) \<noteq> n_tiles then Inl (ValueError ''weights length must equal n_tiles'')
                   else weighted_ranges amount ws)"

definition nonempty :: "(int \<times> int) list \<Rightarrow> (int \<times> int) list" where
  "nonempty rs = filter (\<lambda>(a, b). \<not> b \<le> a) rs"

definition tiles_of :: "(int \<Rightarrow> int \<Rightarrow> job_spec) \<Rightarrow> int \<Rightarrow> int \<Rightarrow> rat list option \<Rightarrow> py_error + job_spec list" where
  "tiles_of tile amount n_tiles weights =
     bind_err (cut amount n_tiles weights) (\<lambda>rs. Inr (map (\<lambda>(a, b). tile a b) (nonempty rs)))"

abbreviation check_arg :: "bool \<Rightarrow> str \<Rightarrow> (py_error + 'a) \<Rightarrow> py_error + 'a" where
  "check_arg ok msg r \<equiv> (if \<not> ok then Inl (ValueError msg) else r)"

definition slice :: "'a list \<Rightarrow> int \<Rightarrow> int \<Rightarrow> 'a list" where
  "slice xs a b = take (nat (b - a)) (drop (nat a) xs)"

section \<open>Range builders\<close>

definition fractal_tile :: "int \<Rightarrow> int \<Rightarrow> int \<Rightarrow> int \<Rightarrow> int \<Rightarrow> job_spec" where
  "fractal_tile width height max_iter row_start row_end =
     \<lparr>js_kind = ''fractal'',
      js_input = [(''width'', JInt width), (''height'', JInt height), (''row_start'', JInt row_start),
        (''row_end'', JInt row_end), (''max_iter'', JInt max_iter), (''x_min'', JFloat (Fin (- 5 / 2))),
        (''x_max'', JFloat (Fin 1)), (''y_min'', JFloat (Fin (- 5 / 4))), (''y_max'', JFloat (Fin (5 / 4)))],
      js_units = row_end - row_start\<rparr>"

definition build_fractal_jobs :: "int \<Rightarrow> int \<Rightarrow> int \<Rightarrow> int \<Rightarrow> rat list option \<Rightarrow> py_error + job_spec list" where
  "build_fractal_jobs n_tiles width height max_iter weights =
     check_arg (0 < n_tiles) ''n_tiles must be positive''
     (check_arg (0 < width \<and> 0 < height) ''width and height must be positive''
     (check_arg (0 < max_iter) ''max_iter must be positive''
       (tiles_of (fractal_tile width height max_iter) height n_tiles weights)))"

definition optimize_tile :: "int \<Rightarrow> int \<Rightarrow> int \<Rightarrow> int \<Rightarrow> job_spec" where
  "optimize_tile dims seed idx_start idx_end =
     \<lparr>js_kind = ''optimize'',
      js_input = [(''idx_start'', JInt idx_start), (''idx_end'', JInt idx_end), (''dims'', JInt dims), (''seed'', JInt seed)],
      js_units = idx_end - idx_start\<rparr>"

definition build_optimize_jobs :: "int \<Rightarrow> int \<Rightarrow> int \<Rightarrow> int \<Rightarrow> rat list option \<Rightarrow> py_error + job_spec list" where
  "build_optimize_jobs n_tiles n_candidates dims seed weights =
     check_arg (0 < n_tiles) ''n_tiles must be positive''
     (check_arg (0 < n_candidates) ''n_candidates must be positive''
     (check_arg (0 < dims) ''dims must be positive''
       (tiles_of (optimize_tile dims seed) n_candidates n_tiles weights)))"

definition DEFAULT_FIELDS :: "str list" where
  "DEFAULT_FIELDS = [''name'', ''role'', ''team'', ''summary'']"

definition synth_tile :: "str list \<Rightarrow> str \<Rightarrow> str \<Rightarrow> int \<Rightarrow> int \<Rightarrow> job_spec" where
  "synth_tile field_list model spec start stop =
     \<lparr>js_kind = ''ai.synth'',
      js_input = [(''n_rows'', JInt (stop - start)), (''spec'', JStr spec), (''fields'', JList (map JStr field_list)),
        (''model'', JStr model), (''start_index'', JInt start)],
      js_units = stop - start\<rparr>"

definition build_synth_jobs ::
  "int \<Rightarrow> int \<Rightarrow> str list option \<Rightarrow> str \<Rightarrow> str \<Rightarrow> rat list option \<Rightarrow> py_error + job_spec list" where
  "build_synth_jobs n_tiles total_rows field_list model spec weights =
     check_arg (0 < n_tiles) ''n_tiles must be positive''
     (check_arg (0 < total_rows) ''total_rows must be positive''
       (tiles_of (synth_tile (case field_list of None \<Rightarrow> DEFAULT_FIELDS | Some fs \<Rightarrow> fs) model spec)
          total_rows n_tiles weights))"

definition hashcrack_tile :: "str \<Rightarrow> str \<Rightarrow> int \<Rightarrow> int \<Rightarrow> int \<Rightarrow> job_spec" where
  "hashcrack_tile prefix target_prefix nonce_start start stop =
     \<lparr>js_kind = ''hashcrack'',
      js_input = [(''prefix'', JStr prefix), (''target_prefix'', JStr target_prefix),
        (''nonce_start'', JInt (nonce_start + start)), (''nonce_end'', JInt (nonce_start + stop))],
      js_units = stop - start\<rparr>"

definition build_hashcrack_jobs ::
  "int \<Rightarrow> int \<Rightarrow> str \<Rightarrow> str \<Rightarrow> int \<Rightarrow> rat list option \<Rightarrow> py_error + job_spec list" where
  "build_hashcrack_jobs n_tiles keyspace target_prefix prefix nonce_start weights =
     check_arg (0 < n_tiles) ''n_tiles must be positive''
     (check_arg (0 < keyspace) ''keyspace must be positive''
     (check_arg (target_prefix \<noteq> []) ''target_prefix must be non-empty''
       (tiles_of (hashcrack_tile prefix target_prefix nonce_start) keyspace n_tiles weights)))"

text \<open>\<open>montecarlo\<close>: the seed of a tile is its position in the split, counted from one.\<close>

record mc_build =
  mb_total_paths :: int
  mb_horizon_days :: int
  mb_mu :: rat
  mb_sigma :: rat
  mb_hist_lo :: rat
  mb_hist_hi :: rat
  mb_hist_bins :: int

definition montecarlo_tile :: "mc_build \<Rightarrow> nat \<Rightarrow> int \<times> int \<Rightarrow> job_spec" where
  "montecarlo_tile m index r =
     \<lparr>js_kind = ''montecarlo'',
      js_input = [(''n_paths'', JInt (snd r - fst r)), (''horizon_days'', JInt (mb_horizon_days m)),
        (''mu'', JFloat (Fin (mb_mu m))), (''sigma'', JFloat (Fin (mb_sigma m))), (''seed'', JInt (int index + 1)),
        (''hist_lo'', JFloat (Fin (mb_hist_lo m))), (''hist_hi'', JFloat (Fin (mb_hist_hi m))),
        (''hist_bins'', JInt (mb_hist_bins m))],
      js_units = snd r - fst r\<rparr>"

definition build_montecarlo_jobs :: "int \<Rightarrow> mc_build \<Rightarrow> rat list option \<Rightarrow> py_error + job_spec list" where
  "build_montecarlo_jobs n_tiles m weights =
     check_arg (0 < n_tiles) ''n_tiles must be positive''
     (check_arg (0 < mb_total_paths m) ''total_paths must be positive''
     (check_arg (0 < mb_horizon_days m) ''horizon_days must be positive''
       (bind_err (cut (mb_total_paths m) n_tiles weights) (\<lambda>rs.
          Inr (map (\<lambda>(i, r). montecarlo_tile m i r)
                 (filter (\<lambda>(i, r). 0 < snd r - fst r) (List.enumerate 0 rs)))))))"

section \<open>Builders that slice a list\<close>

definition INFER_TEMPLATES :: "(str \<times> str) list" where
  "INFER_TEMPLATES =
     [(''Explain '', '' in two sentences for a new engineer.''),
      (''List three real-world risks of '', ''.''),
      (''Write a one-line analogy for '', ''.''),
      (''Name one common misconception about '', ''.''),
      (''Give a concrete production example of '', ''.''),
      (''Summarize '', '' as a single tweet.'')]"

definition INFER_TOPICS :: "str list" where
  "INFER_TOPICS =
     [''idle compute harvesting'', ''distributed scheduling'', ''model evaluation'',
      ''Monte-Carlo simulation'', ''proof-of-work'', ''vector search'', ''lease-based work queues'',
      ''synthetic data'', ''knowledge graphs'', ''sandbox isolation'', ''CPU utilization'', ''load balancing'']"

definition infer_prompt :: "str option \<Rightarrow> nat \<Rightarrow> str" where
  "infer_prompt topic i =
     (let template = INFER_TEMPLATES ! (i mod length INFER_TEMPLATES);
          subject = (case topic of Some t \<Rightarrow> if t \<noteq> [] then t else INFER_TOPICS ! (i mod length INFER_TOPICS)
                     | None \<Rightarrow> INFER_TOPICS ! (i mod length INFER_TOPICS))
      in fst template @ subject @ snd template)"

definition infer_tile :: "str list \<Rightarrow> str \<Rightarrow> int \<Rightarrow> int \<Rightarrow> int \<Rightarrow> job_spec" where
  "infer_tile prompts model max_tokens start stop =
     \<lparr>js_kind = ''ai.infer'',
      js_input = [(''prompts'', JList (map JStr (slice prompts start stop))), (''model'', JStr model),
        (''max_tokens'', JInt max_tokens)],
      js_units = stop - start\<rparr>"

definition build_infer_jobs ::
  "int \<Rightarrow> int \<Rightarrow> str option \<Rightarrow> str \<Rightarrow> int \<Rightarrow> rat list option \<Rightarrow> py_error + job_spec list" where
  "build_infer_jobs n_tiles n_prompts topic model max_tokens weights =
     check_arg (0 < n_tiles) ''n_tiles must be positive''
     (check_arg (0 < n_prompts) ''n_prompts must be positive''
       (tiles_of (infer_tile (map (infer_prompt topic) [0..<nat n_prompts]) model max_tokens) n_prompts n_tiles weights))"

definition EVAL_QA :: "(str \<times> str \<times> str) list" where
  "EVAL_QA =
     [(''What does a load balancer do?'',
       ''It spreads incoming requests across multiple servers so no single one is overwhelmed.'',
       ''It makes the internet faster.''),
      (''Why use a write-ahead log?'',
       ''Changes are durably appended before being applied, so a crash can be recovered without data loss.'',
       ''To write logs ahead of time.''),
      (''What is a race condition?'',
       ''A bug where the outcome depends on the unpredictable timing of concurrent operations on shared state.'',
       ''When two computers race.''),
      (''What is idempotency?'',
       ''An operation is idempotent if applying it multiple times has the same effect as applying it once.'',
       ''Doing something once.''),
      (''Why shard a database?'',
       ''To split data across nodes so capacity and throughput scale horizontally beyond one machine.'',
       ''To break the database.''),
      (''What is a Merkle tree?'',
       ''A tree of hashes where each node hashes its children, enabling efficient tamper-evident verification.'',
       ''A kind of plant.'')]"

definition eval_item :: "str \<Rightarrow> str \<Rightarrow> str \<Rightarrow> json" where
  "eval_item question answer label =
     JObj [(''question'', JStr question), (''answer'', JStr answer), (''label'', JStr label)]"

definition DEFAULT_EVAL_ITEMS :: "json list" where
  "DEFAULT_EVAL_ITEMS = map (\<lambda>(q, good, weak). eval_item q good ''strong-model'') EVAL_QA
     @ map (\<lambda>(q, good, weak). eval_item q weak ''weak-model'') EVAL_QA"

definition eval_tile :: "json list \<Rightarrow> str \<Rightarrow> str \<Rightarrow> int \<Rightarrow> int \<Rightarrow> job_spec" where
  "eval_tile items rubric model start stop =
     \<lparr>js_kind = ''ai.eval'',
      js_input = [(''items'', JList (slice items start stop)), (''rubric'', JStr rubric), (''model'', JStr model)],
      js_units = stop - start\<rparr>"

definition build_eval_jobs ::
  "int \<Rightarrow> json list option \<Rightarrow> str \<Rightarrow> str \<Rightarrow> rat list option \<Rightarrow> py_error + job_spec list" where
  "build_eval_jobs n_tiles items rubric model weights =
     check_arg (0 < n_tiles) ''n_tiles must be positive''
     (let items = (case items of None \<Rightarrow> DEFAULT_EVAL_ITEMS | Some xs \<Rightarrow> xs)
      in check_arg (items \<noteq> []) ''no items to evaluate''
           (tiles_of (eval_tile items rubric model) (int (length items)) n_tiles weights))"

definition DEFAULT_DOCS :: "str list" where
  "DEFAULT_DOCS =
     [''Northwind Robotics acquired Beacon Vision to strengthen its perception stack.'',
      ''Beacon Vision was founded by Dana Okoro, who now leads Northwind Robotics research.'',
      ''Northwind Robotics builds the Atlas Picker, a warehouse arm used by Cedar Logistics.'',
      ''Cedar Logistics operates fulfillment centers in Reno, Memphis, and Dover.'',
      ''The Atlas Picker runs on the Helios controller, designed by the Northwind hardware team.'',
      ''Helios uses the Orion vision model trained by Dana Okoro's group.'',
      ''Cedar Logistics partnered with Northwind Robotics to automate the Memphis center.'',
      ''Orion was evaluated against the Pelican benchmark maintained by Beacon Vision.'',
      ''Pelican measures grasp success on the Cedar Logistics package dataset.'',
      ''Northwind Robotics reports to its parent company, Lumen Industrial.'',
      ''Lumen Industrial also owns Beacon Vision after the acquisition.'',
      ''Dana Okoro previously advised the Orion project at Lumen Industrial.'']"

definition graph_tile :: "str list \<Rightarrow> str \<Rightarrow> int \<Rightarrow> int \<Rightarrow> job_spec" where
  "graph_tile docs model start stop =
     \<lparr>js_kind = ''ai.graph'',
      js_input = [(''docs'', JList (map JStr (slice docs start stop))), (''model'', JStr model)],
      js_units = stop - start\<rparr>"

definition build_graph_jobs ::
  "int \<Rightarrow> str list option \<Rightarrow> str \<Rightarrow> rat list option \<Rightarrow> py_error + job_spec list" where
  "build_graph_jobs n_tiles docs model weights =
     check_arg (0 < n_tiles) ''n_tiles must be positive''
     (let corpus = (case docs of None \<Rightarrow> DEFAULT_DOCS | Some xs \<Rightarrow> xs)
      in check_arg (corpus \<noteq> []) ''no documents to process''
           (tiles_of (graph_tile corpus model) (int (length corpus)) n_tiles weights))"

text \<open>\<open>ai_batch.py\<close> cuts its prompts into slices of a fixed size, whatever the number of tiles.\<close>

function prompt_slices :: "nat \<Rightarrow> 'a list \<Rightarrow> 'a list list" where
  "prompt_slices k xs = (if xs = [] \<or> k = 0 then [] else take k xs # prompt_slices k (drop k xs))"
  by auto

termination prompt_slices
  by (relation "measure (\<lambda>(k, xs). length xs)") auto

declare prompt_slices.simps [simp del]

definition DEFAULT_PROMPTS :: "str list" where
  "DEFAULT_PROMPTS =
     [''Summarize the OneCompute demo in one sentence.'',
      ''List two risks for idle compute harvesting.'',
      ''Draft a friendly worker opt-in message.'',
      ''Explain why measured throughput beats TOPS.'',
      ''Name one good batch workload for OneCompute.'',
      ''Write a short judge-facing value prop.'',
      ''Describe the instant-yield moment.'',
      ''Suggest a trust signal for worker results.'',
      ''Create a concise dashboard headline.'',
      ''Explain the ghost bar in plain English.'',
      ''Name a privacy-preserving safeguard.'',
      ''Close the pitch with an honest ceiling claim.'']"

definition build_prompt_jobs ::
  "str list option \<Rightarrow> int \<Rightarrow> str \<Rightarrow> int \<Rightarrow> py_error + job_spec list" where
  "build_prompt_jobs prompts slice_size model max_tokens =
     check_arg (0 < slice_size) ''slice_size must be positive''
     (check_arg (0 < max_tokens) ''max_tokens must be positive''
       (let prompt_list = (case prompts of None \<Rightarrow> DEFAULT_PROMPTS | Some ps \<Rightarrow> ps)
        in Inr (map (\<lambda>ps. \<lparr>js_kind = ''ai.batch_infer'',
              js_input = [(''prompts'', JList (map JStr ps)), (''model'', JStr model), (''max_tokens'', JInt max_tokens)],
              js_units = int (length ps)\<rparr>) (prompt_slices (nat slice_size) prompt_list))))"

definition generate_jobs :: "int \<Rightarrow> int \<Rightarrow> str \<Rightarrow> py_error + job_spec list" where
  "generate_jobs n_jobs items_per_job op =
     check_arg (0 \<le> n_jobs) ''n_jobs must be non-negative''
     (check_arg (0 < items_per_job) ''items_per_job must be positive''
       (Inr (map (\<lambda>index. let start = index * items_per_job; items = [start..start + items_per_job - 1]
              in \<lparr>js_kind = ''data.transform'',
                  js_input = [(''items'', JList (map JInt items)), (''op'', JStr op)],
                  js_units = items_per_job\<rparr>) [0..n_jobs - 1])))"

definition ghost_bar_seconds :: "int \<Rightarrow> rat \<Rightarrow> py_error + rat" where
  "ghost_bar_seconds total_items per_item_s =
     check_arg (0 \<le> total_items) ''total_items must be non-negative''
     (check_arg (0 \<le> per_item_s) ''per_item_s must be non-negative''
       (Inr (fmul (fl64 (of_int total_items)) per_item_s)))"

section \<open>The jobs of a split carry its work\<close>

definition split_ok :: "int \<Rightarrow> rat list option \<Rightarrow> bool" where
  "split_ok amount weights \<longleftrightarrow> (case weights of None \<Rightarrow> True | Some ws \<Rightarrow> weights_ok ws \<and> amount \<le> 2 ^ 34)"

lemma cut_covers:
  assumes "cut amount n weights = Inr rs" "split_ok amount weights"
  shows "covered rs = [0..amount - 1]" "0 \<le> amount" "0 < n" "int (length rs) = n"
proof -
  have "covered rs = [0..amount - 1] \<and> 0 \<le> amount \<and> 0 < n \<and> int (length rs) = n"
  proof (cases weights)
    case None
    then have rs: "even_ranges amount n = Inr rs" using assms(1) by (simp add: cut_def)
    then have n: "\<not> (n \<le> 0 \<or> amount < 0)" using even_ranges_covers [of n amount] by (cases "n \<le> 0 \<or> amount < 0") auto
    then obtain rs' where "even_ranges amount n = Inr rs'" "int (length rs') = n" "covered rs' = [0..amount - 1]"
      using even_ranges_covers [where n = n and T = amount] by auto
    then show ?thesis using rs n by simp
  next
    case (Some ws)
    have ok: "weights_ok ws" "amount \<le> 2 ^ 34" using assms(2) Some by (simp_all add: split_ok_def)
    have n: "n = int (length ws)" and rs: "weighted_ranges amount ws = Inr rs"
      using assms(1) Some by (simp_all add: cut_def split: if_splits)
    then have "0 \<le> amount" by (auto simp: weighted_ranges_def check_weights_def split: if_splits option.splits)
    then show ?thesis using weighted_ranges_covers [OF ok(1) _ ok(2)] rs n weights_okD(1) [OF ok(1)] by auto
  qed
  then show "covered rs = [0..amount - 1]" "0 \<le> amount" "0 < n" "int (length rs) = n" by auto
qed

lemma covered_Cons [simp]: "covered ((a, b) # rs) = [a..b - 1] @ covered rs" and covered_Nil [simp]: "covered [] = []"
  by (simp_all add: covered_def)

lemma covered_nonempty [simp]: "covered (nonempty rs) = covered rs"
  by (induction rs) (auto simp: nonempty_def)

lemma nonempty_less: "(a, b) \<in> set (nonempty rs) \<Longrightarrow> a < b"
  by (auto simp: nonempty_def)

lemma nonempty_units: "sum_list (map (\<lambda>(a, b). b - a) (nonempty rs)) = int (length (covered rs))"
  by (induction rs) (auto simp: nonempty_def)

lemma length_slice: "0 \<le> a \<Longrightarrow> a \<le> b \<Longrightarrow> b \<le> int (length xs) \<Longrightarrow> length (slice xs a b) = nat (b - a)"
  by (auto simp: slice_def)

definition spec_ok :: "str \<Rightarrow> job_spec \<Rightarrow> bool" where
  "spec_ok kind j \<longleftrightarrow> js_kind j = kind \<and> 0 < js_units j"

definition units_of :: "job_spec list \<Rightarrow> int" where
  "units_of specs = sum_list (map js_units specs)"

lemma tiles_of_work:
  assumes "tiles_of tile amount n weights = Inr specs" "split_ok amount weights"
    "\<And>a b. a < b \<Longrightarrow> js_units (tile a b) = b - a \<and> js_kind (tile a b) = kind"
  shows "units_of specs = amount" "list_all (spec_ok kind) specs"
    "\<exists>rs. specs = map (\<lambda>(a, b). tile a b) rs \<and> covered rs = [0..amount - 1] \<and> (\<forall>(a, b) \<in> set rs. a < b)"
proof -
  from assms(1) obtain rs where rs: "cut amount n weights = Inr rs" "specs = map (\<lambda>(a, b). tile a b) (nonempty rs)"
    by (auto simp: tiles_of_def bind_err_Inr)
  note c = cut_covers [OF rs(1) assms(2)]
  have "map js_units specs = map (\<lambda>(a, b). b - a) (nonempty rs)"
    unfolding rs(2) using nonempty_less assms(3) by (fastforce simp: case_prod_beta)
  then show "units_of specs = amount" using nonempty_units [of rs] c by (simp add: units_of_def)
  show "list_all (spec_ok kind) specs"
    unfolding rs(2) using nonempty_less assms(3) by (fastforce simp: list_all_iff spec_ok_def)
  show "\<exists>rs. specs = map (\<lambda>(a, b). tile a b) rs \<and> covered rs = [0..amount - 1] \<and> (\<forall>(a, b) \<in> set rs. a < b)"
    using rs c nonempty_less by (intro exI [of _ "nonempty rs"]) auto
qed

lemma tiles_of_units:
  "\<forall>a b. js_units (tile a b) = b - a \<and> js_kind (tile a b) = kind \<Longrightarrow>
   tiles_of tile amount n weights = Inr specs \<Longrightarrow> split_ok amount weights \<Longrightarrow>
   units_of specs = amount \<and> list_all (spec_ok kind) specs"
  using tiles_of_work(1,2) [of tile amount n weights specs kind] by blast

lemma range_builders_work:
  "build_fractal_jobs n w h m ws = Inr specs \<Longrightarrow> split_ok h ws \<Longrightarrow> units_of specs = h \<and> list_all (spec_ok ''fractal'') specs"
  "build_optimize_jobs n k dims seed ws = Inr specs \<Longrightarrow> split_ok k ws \<Longrightarrow>
     units_of specs = k \<and> list_all (spec_ok ''optimize'') specs"
  "build_synth_jobs n rows fs model sp ws = Inr specs \<Longrightarrow> split_ok rows ws \<Longrightarrow>
     units_of specs = rows \<and> list_all (spec_ok ''ai.synth'') specs"
  "build_hashcrack_jobs n k tp pre start ws = Inr specs \<Longrightarrow> split_ok k ws \<Longrightarrow>
     units_of specs = k \<and> list_all (spec_ok ''hashcrack'') specs"
  "build_infer_jobs n k topic model mt ws = Inr specs \<Longrightarrow> split_ok k ws \<Longrightarrow>
     units_of specs = k \<and> list_all (spec_ok ''ai.infer'') specs"
  "build_eval_jobs n items rubric model ws = Inr specs \<Longrightarrow>
     split_ok (int (length (case items of None \<Rightarrow> DEFAULT_EVAL_ITEMS | Some xs \<Rightarrow> xs))) ws \<Longrightarrow>
     units_of specs = int (length (case items of None \<Rightarrow> DEFAULT_EVAL_ITEMS | Some xs \<Rightarrow> xs)) \<and>
     list_all (spec_ok ''ai.eval'') specs"
  "build_graph_jobs n docs model ws = Inr specs \<Longrightarrow>
     split_ok (int (length (case docs of None \<Rightarrow> DEFAULT_DOCS | Some xs \<Rightarrow> xs))) ws \<Longrightarrow>
     units_of specs = int (length (case docs of None \<Rightarrow> DEFAULT_DOCS | Some xs \<Rightarrow> xs)) \<and>
     list_all (spec_ok ''ai.graph'') specs"
  subgoal by (rule tiles_of_units [of "fractal_tile w h m" _ h n ws]) (auto simp: build_fractal_jobs_def fractal_tile_def split: if_splits)
  subgoal by (rule tiles_of_units [of "optimize_tile dims seed" _ k n ws]) (auto simp: build_optimize_jobs_def optimize_tile_def split: if_splits)
  subgoal by (rule tiles_of_units [of "synth_tile (case fs of None \<Rightarrow> DEFAULT_FIELDS | Some fs \<Rightarrow> fs) model sp" _ rows n ws])
      (auto simp: build_synth_jobs_def synth_tile_def split: if_splits)
  subgoal by (rule tiles_of_units [of "hashcrack_tile pre tp start" _ k n ws]) (auto simp: build_hashcrack_jobs_def hashcrack_tile_def split: if_splits)
  subgoal by (rule tiles_of_units [of "infer_tile (map (infer_prompt topic) [0..<nat k]) model mt" _ k n ws])
      (auto simp: build_infer_jobs_def infer_tile_def split: if_splits)
  subgoal by (rule tiles_of_units [of "eval_tile (case items of None \<Rightarrow> DEFAULT_EVAL_ITEMS | Some xs \<Rightarrow> xs) rubric model" _ _ n ws])
      (auto simp: build_eval_jobs_def eval_tile_def Let_def split: if_splits)
  subgoal by (rule tiles_of_units [of "graph_tile (case docs of None \<Rightarrow> DEFAULT_DOCS | Some xs \<Rightarrow> xs) model" _ _ n ws])
      (auto simp: build_graph_jobs_def graph_tile_def Let_def split: if_splits)
  done

lemma montecarlo_work:
  assumes "build_montecarlo_jobs n m weights = Inr specs" "split_ok (mb_total_paths m) weights"
  shows "units_of specs = mb_total_paths m" "list_all (spec_ok ''montecarlo'') specs"
proof -
  from assms(1) obtain rs where rs: "cut (mb_total_paths m) n weights = Inr rs"
    "specs = map (\<lambda>(i, r). montecarlo_tile m i r) (filter (\<lambda>(i, r). 0 < snd r - fst r) (List.enumerate 0 rs))"
    by (auto simp: build_montecarlo_jobs_def bind_err_Inr split: if_splits)
  have "sum_list (map js_units (map (\<lambda>(i, r). montecarlo_tile m i r)
          (filter (\<lambda>(i, r). 0 < snd r - fst r) (List.enumerate k rs)))) = int (length (covered rs))" for k
    by (induction rs arbitrary: k) (auto simp: montecarlo_tile_def)
  then show "units_of specs = mb_total_paths m" unfolding units_of_def rs(2) using cut_covers [OF rs(1) assms(2)] by simp
  show "list_all (spec_ok ''montecarlo'') specs" by (auto simp: rs(2) list_all_iff spec_ok_def montecarlo_tile_def)
qed

lemma prompt_slices_props:
  "0 < k \<Longrightarrow> concat (prompt_slices k xs) = xs \<and> (\<forall>ys \<in> set (prompt_slices k xs). ys \<noteq> [] \<and> length ys \<le> k)"
proof (induction k xs rule: prompt_slices.induct)
  case (1 k xs)
  show ?case
  proof (cases "xs = []")
    case True
    then show ?thesis by (simp add: prompt_slices.simps)
  next
    case False
    then show ?thesis using 1 by (auto simp: prompt_slices.simps [of k xs])
  qed
qed

end
