(* ===== verification/Launch.thy ===== *)
theory Launch imports Submit Scheduler Workloads begin

text \<open>
  \<open>POST /workloads\<close> of \<open>src/orchestrator/app.py\<close>: how many tiles a launch is cut into, the weights taken
  from the live fleet, the builder called for the kind, and the loop that enqueues one job per tile
  under a shared workload id. The parameters of the kind come as typed values (one constructor per
  builder, defaults filled in); parameters meant for another builder are the \<open>TypeError\<close> of an
  unexpected keyword argument.
\<close>

definition MAX_WORKLOAD_TILES :: int where "MAX_WORKLOAD_TILES = 512"

datatype launch_params =
    FractalParams int int int                          \<comment> \<open>width, height, max\_iter\<close>
  | OptimizeParams int int int                         \<comment> \<open>n\_candidates, dims, seed\<close>
  | SynthParams int "str list option" str str          \<comment> \<open>total\_rows, fields, model, spec\<close>
  | PromptParams "str list option" int str int         \<comment> \<open>prompts, slice\_size, model, max\_tokens\<close>
  | TransformParams int str                            \<comment> \<open>items\_per\_job, op\<close>
  | McParams mc_build
  | HashParams int str str int                         \<comment> \<open>keyspace, target\_prefix, prefix, nonce\_start\<close>
  | InferParams int "str option" str int               \<comment> \<open>n\_prompts, topic, model, max\_tokens\<close>
  | EvalParams "json list option" str str              \<comment> \<open>items, rubric, model\<close>
  | GraphParams "str list option" str                  \<comment> \<open>docs, model\<close>

record launch_request =
  lr_kind :: str
  lr_n_tiles :: "int option"     \<comment> \<open>\<open>None\<close>: not among the fields the caller set\<close>
  lr_oversubscribe :: int
  lr_params :: launch_params

definition valid_launch :: "launch_request \<Rightarrow> bool" where
  "valid_launch r \<longleftrightarrow> 1 \<le> lr_oversubscribe r \<and> lr_oversubscribe r \<le> 64"

definition default_n_tiles :: int where "default_n_tiles = 3"

section \<open>Tiles and weights\<close>

fun build_for :: "launch_params \<Rightarrow> str" where
  "build_for (FractalParams _ _ _) = ''fractal''"
| "build_for (OptimizeParams _ _ _) = ''optimize''"
| "build_for (SynthParams _ _ _ _) = ''ai.synth''"
| "build_for (PromptParams _ _ _ _) = ''ai.batch_infer''"
| "build_for (TransformParams _ _) = ''data.transform''"
| "build_for (McParams _) = ''montecarlo''"
| "build_for (HashParams _ _ _ _) = ''hashcrack''"
| "build_for (InferParams _ _ _ _) = ''ai.infer''"
| "build_for (EvalParams _ _ _) = ''ai.eval''"
| "build_for (GraphParams _ _) = ''ai.graph''"

fun build_with :: "int \<Rightarrow> launch_params \<Rightarrow> rat list option \<Rightarrow> py_error + job_spec list" where
  "build_with n (FractalParams width height max_iter) ws = build_fractal_jobs n width height max_iter ws"
| "build_with n (OptimizeParams n_candidates dims seed) ws = build_optimize_jobs n n_candidates dims seed ws"
| "build_with n (SynthParams total_rows field_list model spec) ws = build_synth_jobs n total_rows field_list model spec ws"
| "build_with n (PromptParams prompts slice_size model max_tokens) ws = build_prompt_jobs prompts slice_size model max_tokens"
| "build_with n (TransformParams items_per_job op) ws = generate_jobs n items_per_job op"
| "build_with n (McParams m) ws = build_montecarlo_jobs n m ws"
| "build_with n (HashParams keyspace target_prefix prefix nonce_start) ws =
     build_hashcrack_jobs n keyspace target_prefix prefix nonce_start ws"
| "build_with n (InferParams n_prompts topic model max_tokens) ws = build_infer_jobs n n_prompts topic model max_tokens ws"
| "build_with n (EvalParams items rubric model) ws = build_eval_jobs n items rubric model ws"
| "build_with n (GraphParams docs model) ws = build_graph_jobs n docs model ws"

definition build_workload_jobs :: "str \<Rightarrow> int \<Rightarrow> launch_params \<Rightarrow> rat list option \<Rightarrow> py_error + job_spec list" where
  "build_workload_jobs kind n_tiles params weights =
     (if kind \<notin> set LAUNCHABLE_KINDS then Inl (ValueError ''unknown or non-launchable workload kind'')
      else if build_for params \<noteq> kind then Inl (TypeError ''got an unexpected keyword argument'')
      else build_with n_tiles params weights)"

definition tile_workers :: "db \<Rightarrow> worker list" where
  "tile_workers s = sort_key wk_worker_id (select_where (\<lambda>w. wk_approved w \<and> \<not> wk_blacklisted w) (db_workers s))"

definition row_weight :: "worker \<Rightarrow> rat" where
  "row_weight w = worker_weight (wk_class_weight w) (wk_free_ram_gb w) (load_score (wk_cpu_pct w) (wk_gpu_pct w))"

definition capability_tile_weights :: "db \<Rightarrow> int \<Rightarrow> rat list option" where
  "capability_tile_weights s n_tiles =
     (let rows = tile_workers s
      in if rows = [] \<or> int (length rows) \<noteq> n_tiles then None
         else (let weights = map row_weight rows
               in if fsub (Max (set weights)) (Min (set weights)) \<le> fl64 (1 / 10 ^ 9) then None else Some weights))"

definition approved_worker_count :: "db \<Rightarrow> int" where
  "approved_worker_count s = int (length (select_where (\<lambda>w. wk_approved w \<and> \<not> wk_blacklisted w) (db_workers s)))"

definition resolve_tile_count :: "db \<Rightarrow> launch_request \<Rightarrow> int" where
  "resolve_tile_count s req =
     (case lr_n_tiles req of
        Some n \<Rightarrow> max 1 (min n MAX_WORKLOAD_TILES)
      | None \<Rightarrow> if 1 < lr_oversubscribe req
                then oversubscribed_tiles (approved_worker_count s) (lr_oversubscribe req) MAX_WORKLOAD_TILES
                else default_n_tiles)"

section \<open>The endpoint\<close>

text \<open>\<open>SubmitRequest(**spec)\<close>: the fields a specification leaves out take their defaults.\<close>

definition spec_request :: "job_spec \<Rightarrow> submit_request" where
  "spec_request spec =
     \<lparr>sr_kind = js_kind spec, sr_input = js_input spec, sr_requires = default_requires,
      sr_limits = default_limits, sr_data_classification = ''internal'', sr_units = js_units spec\<rparr>"

text \<open>The \<open>i\<close>-th specification reads the clock three times and draws the \<open>i\<close>-th job id.\<close>

fun launch_specs ::
  "primitives \<Rightarrow> clock \<Rightarrow> (nat \<Rightarrow> str) \<Rightarrow> str \<Rightarrow> str \<Rightarrow> nat \<Rightarrow> job_spec list \<Rightarrow> str list handler" where
  "launch_specs P clk ids kind workload_id i [] s = (s, Inr [])"
| "launch_specs P clk ids kind workload_id i (spec # specs) s =
     (if \<not> valid_submit (spec_request spec) then (s, Raise 400 ''invalid job spec'')
      else case submit_job P (spec_request spec) (Some workload_id) None (ids i) (clk (3 * i + 1)) (clk (3 * i + 2)) s of
        (s1, Inl e) \<Rightarrow> (s1, Inl (case e of ValueError d \<Rightarrow> Uncaught d | TypeError d \<Rightarrow> Uncaught d | OtherError d \<Rightarrow> Uncaught d))
      | (s1, Inr jid) \<Rightarrow>
          and_then (launch_specs P clk ids kind workload_id (Suc i) specs) (\<lambda>jids s2. (s2, Inr (jid # jids)))
            (emit P (clk (3 * i + 3)) ''submitted'' None (Some jid) (Some kind) s1))"

definition launch_workload ::
  "primitives \<Rightarrow> config \<Rightarrow> clock \<Rightarrow> (nat \<Rightarrow> str) \<Rightarrow> str \<Rightarrow> launch_request \<Rightarrow> str option \<Rightarrow> workload_launch_response handler" where
  "launch_workload P cf clk ids workload_id req authorization s =
     (if \<not> valid_launch req then (s, Raise 422 ''validation error'')
      else and_then (require_submit_token P cf (clk 0) authorization)
        (\<lambda>_ s. if lr_kind req \<notin> set LAUNCHABLE_KINDS then (s, Raise 400 ''kind must be one of LAUNCHABLE_KINDS'')
          else (let n_tiles = resolve_tile_count s req; weights = capability_tile_weights s n_tiles
                in case build_workload_jobs (lr_kind req) n_tiles (lr_params req) weights of
                     Inl (OtherError d) \<Rightarrow> (s, Inl (Uncaught d))
                   | Inl _ \<Rightarrow> (s, Raise 400 ''could not build workload'')
                   | Inr specs \<Rightarrow>
                       and_then (launch_specs P clk ids (lr_kind req) workload_id 0 specs)
                         (\<lambda>job_ids s. (s, Inr \<lparr>wl_workload_id = workload_id, wl_kind = lr_kind req, wl_job_ids = job_ids\<rparr>)) s)) s)"

section \<open>Sizes\<close>

text \<open>The work a launch asks for, and whether its split is covered by the analysis of the rounding.\<close>

fun work_of :: "int \<Rightarrow> launch_params \<Rightarrow> int" where
  "work_of n (FractalParams width height max_iter) = height"
| "work_of n (OptimizeParams n_candidates dims seed) = n_candidates"
| "work_of n (SynthParams total_rows field_list model spec) = total_rows"
| "work_of n (PromptParams prompts slice_size model max_tokens) =
     int (length (case prompts of None \<Rightarrow> DEFAULT_PROMPTS | Some ps \<Rightarrow> ps))"
| "work_of n (TransformParams items_per_job op) = n * items_per_job"
| "work_of n (McParams m) = mb_total_paths m"
| "work_of n (HashParams keyspace target_prefix prefix nonce_start) = keyspace"
| "work_of n (InferParams n_prompts topic model max_tokens) = n_prompts"
| "work_of n (EvalParams items rubric model) = int (length (case items of None \<Rightarrow> DEFAULT_EVAL_ITEMS | Some xs \<Rightarrow> xs))"
| "work_of n (GraphParams docs model) = int (length (case docs of None \<Rightarrow> DEFAULT_DOCS | Some xs \<Rightarrow> xs))"

lemma build_with_work:
  assumes "build_with n params ws = Inr specs" "split_ok (work_of n params) ws"
  shows "units_of specs = work_of n params \<and> list_all (spec_ok (build_for params)) specs"
proof (cases params)
  case (PromptParams prompts k model mt)
  define ps where "ps = (case prompts of None \<Rightarrow> DEFAULT_PROMPTS | Some ps \<Rightarrow> ps)"
  have k: "0 < k" and specs: "specs = map (\<lambda>ps. \<lparr>js_kind = ''ai.batch_infer'',
      js_input = [(''prompts'', JList (map JStr ps)), (''model'', JStr model), (''max_tokens'', JInt mt)],
      js_units = int (length ps)\<rparr>) (prompt_slices (nat k) ps)"
    using assms(1) by (auto simp: PromptParams build_prompt_jobs_def Let_def ps_def split: if_splits)
  have props: "concat (prompt_slices (nat k) ps) = ps" "\<And>ys. ys \<in> set (prompt_slices (nat k) ps) \<Longrightarrow> ys \<noteq> []"
    using prompt_slices_props [of "nat k" ps] k by auto
  have "sum_list (map (\<lambda>ys. int (length ys)) yss) = int (length (concat yss))" for yss :: "str list list"
    by (induction yss) auto
  then have "units_of specs = int (length ps)" by (simp add: units_of_def specs comp_def props(1))
  then show ?thesis using props(2) by (simp add: PromptParams ps_def [symmetric] specs list_all_iff spec_ok_def)
next
  case (TransformParams k op)
  have k: "0 \<le> n" "0 < k" using assms(1) by (auto simp: TransformParams generate_jobs_def split: if_splits)
  then have "units_of specs = int (length [0..n - 1]) * k"
    using assms(1) by (auto simp: TransformParams generate_jobs_def units_of_def comp_def Let_def sum_list_triv split: if_splits)
  then show ?thesis using k assms(1)
    by (auto simp: TransformParams generate_jobs_def list_all_iff spec_ok_def Let_def split: if_splits)
next
  case (McParams m)
  then show ?thesis using montecarlo_work assms by simp
qed (use assms range_builders_work in auto)

lemma resolve_tile_count_bounds: "1 \<le> resolve_tile_count s req" "resolve_tile_count s req \<le> 512"
  by (auto simp: resolve_tile_count_def oversubscribed_tiles_def MAX_WORKLOAD_TILES_def default_n_tiles_def Let_def
      split: option.splits)

text \<open>The weights a launch takes from the fleet are ones the rounding analysis covers.\<close>

lemma fleet_weights_ok:
  assumes "capability_tile_weights s n = Some ws" "n \<le> 512"
    "\<And>w. w \<in> set (db_workers s) \<Longrightarrow> wk_class_weight w = 1 \<or> wk_class_weight w = 5"
  shows "weights_ok ws" "int (length ws) = n"
proof -
  have ws: "ws = map row_weight (tile_workers s)" "tile_workers s \<noteq> []" "int (length (tile_workers s)) = n"
    using assms(1) by (auto simp: capability_tile_weights_def Let_def split: if_splits)
  then show "int (length ws) = n" by simp
  have b: "1 / 32 \<le> x \<and> x \<le> 2 ^ 21" if "x \<in> set ws" for x
  proof -
    from that ws obtain w where w: "w \<in> set (db_workers s)" "x = row_weight w" by (auto simp: tile_workers_def)
    show ?thesis unfolding w(2) row_weight_def using assms(3) [OF w(1)]
      by (intro conjI worker_weight_bounds) (auto simp: class_factor_def)
  qed
  have "2 powi (-60) \<le> x \<and> x \<le> 2 ^ 60 \<and> x \<noteq> 0" if "x \<in> set ws" for x
    using b [OF that] by (auto simp: power_int_minus)
  moreover have "set ws \<noteq> {}" using ws by simp
  ultimately show "weights_ok ws" using ws assms(2) unfolding weights_ok_def by (auto simp: ex_in_conv [symmetric])
qed

section \<open>What a launch enqueues\<close>

definition launched :: "str \<Rightarrow> job_spec \<Rightarrow> job \<Rightarrow> bool" where
  "launched workload_id spec j \<longleftrightarrow> jb_kind j = js_kind spec \<and> jb_input j = js_input spec \<and> jb_units j = js_units spec \<and>
     jb_state j = Queued \<and> jb_workload_id j = Some workload_id \<and> mf_data_classification (jb_manifest j) = ''internal'' \<and>
     mf_kind (jb_manifest j) = js_kind spec \<and> mf_job_id (jb_manifest j) = jb_job_id j \<and>
     mf_requires (jb_manifest j) = default_requires \<and> mf_limits (jb_manifest j) = default_limits"

lemma launch_specs_jobs:
  assumes "launch_specs P clk ids kind wl i specs s = (s', r)"
  shows "\<exists>js. db_jobs s' = db_jobs s @ js \<and> db_workers s' = db_workers s \<and> db_ledger s' = db_ledger s \<and>
    (\<forall>jids. r = Inr jids \<longrightarrow> list_all2 (launched wl) specs js \<and> map jb_job_id js = jids \<and>
       distinct jids \<and> (\<forall>jid \<in> set jids. find_job jid s = None))"
  using assms
proof (induction specs arbitrary: i s s' r)
  case Nil
  then show ?case by auto
next
  case (Cons spec specs)
  show ?case
  proof (cases "valid_submit (spec_request spec)")
    case False
    with Cons.prems show ?thesis by auto
  next
    case valid: True
    obtain s1 x where sub: "submit_job P (spec_request spec) (Some wl) None (ids i) (clk (3 * i + 1)) (clk (3 * i + 2)) s = (s1, x)"
      by fastforce
    show ?thesis
    proof (cases x)
      case (Inl e)
      with Cons.prems valid sub submit_job_Inl [OF sub [unfolded Inl]] show ?thesis by auto
    next
      case (Inr jid)
      let ?j = "new_job (new_manifest P (spec_request spec) None (ids i) (clk (3 * i + 1))) (spec_request spec) (Some wl) (clk (3 * i + 2))"
      have new: "jid = ids i" "find_job (ids i) s = None" "s1 = s\<lparr>db_jobs := db_jobs s @ [?j]\<rparr>"
        using sub Inr by (auto simp: submit_job_Inr)
      let ?s2 = "emit P (clk (3 * i + 3)) ''submitted'' None (Some jid) (Some kind) s1"
      obtain s3 y where rest: "launch_specs P clk ids kind wl (Suc i) specs ?s2 = (s3, y)" by fastforce
      from Cons.IH [OF rest] obtain js where js: "db_jobs s3 = db_jobs ?s2 @ js" "db_workers s3 = db_workers ?s2"
        "db_ledger s3 = db_ledger ?s2" "\<And>jids. y = Inr jids \<Longrightarrow> list_all2 (launched wl) specs js \<and> map jb_job_id js = jids \<and>
           distinct jids \<and> (\<forall>jid \<in> set jids. find_job jid ?s2 = None)" by auto
      have s': "s' = s3" "r = (case y of Inl e \<Rightarrow> Inl e | Inr jids \<Rightarrow> Inr (jid # jids))"
        using Cons.prems valid sub Inr rest by (auto simp: and_then_def split: sum.splits)
      have j: "launched wl spec ?j" "jb_job_id ?j = ids i"
        by (simp_all add: launched_def new_job_def new_manifest_def spec_request_def)
      have find: "find_job k ?s2 = None \<longleftrightarrow> find_job k s = None \<and> k \<noteq> ids i" for k
        using j(2) by (simp add: new(3) find_job_lookup jt.lookup_None) auto
      show ?thesis using js new j s' find
        by (intro exI [of _ "?j # js"]) (auto split: sum.splits)
    qed
  qed
qed

lemma launch_workload_Inr:
  "launch_workload P cf clk ids wl req a s = (s', Inr resp) \<longleftrightarrow>
     valid_launch req \<and> admits (cf_submit_token cf) a \<and> lr_kind req \<in> set LAUNCHABLE_KINDS \<and>
     (\<exists>specs jids. build_workload_jobs (lr_kind req) (resolve_tile_count s req) (lr_params req)
          (capability_tile_weights s (resolve_tile_count s req)) = Inr specs \<and>
        launch_specs P clk ids (lr_kind req) wl 0 specs s = (s', Inr jids) \<and>
        resp = \<lparr>wl_workload_id = wl, wl_kind = lr_kind req, wl_job_ids = jids\<rparr>)"
  by (auto simp: launch_workload_def and_then_Inr require_submit_token_Inr Let_def
      split: sum.splits py_error.splits if_splits)

lemma launch_workload_frame:
  assumes "launch_workload P cf clk ids wl req a s = (s', r)"
  shows "db_workers s' = db_workers s \<and> db_ledger s' = db_ledger s \<and> (\<exists>js. db_jobs s' = db_jobs s @ js)"
proof -
  obtain t x where g: "require_submit_token P cf (clk 0) a s = (t, x)" by fastforce
  note t = only_audited_frame [OF require_submit_token_audited [OF g]]
  show ?thesis
  proof (cases "valid_launch req \<and> x = Inr () \<and> lr_kind req \<in> set LAUNCHABLE_KINDS")
    case False
    with assms g t show ?thesis by (cases x) (auto simp: launch_workload_def and_then_def split: if_splits)
  next
    case True
    show ?thesis
    proof (cases "build_workload_jobs (lr_kind req) (resolve_tile_count t req) (lr_params req)
        (capability_tile_weights t (resolve_tile_count t req))")
      case (Inl e)
      with assms g t True show ?thesis by (cases e) (auto simp: launch_workload_def and_then_def)
    next
      case (Inr specs)
      obtain u y where l: "launch_specs P clk ids (lr_kind req) wl 0 specs t = (u, y)" by fastforce
      with assms g True Inr have "s' = u" by (cases y) (auto simp: launch_workload_def and_then_def)
      with launch_specs_jobs [OF l] t show ?thesis by auto
    qed
  qed
qed

text \<open>With fresh ids and sizes that fit the column, the loop does not stop half-way.\<close>

lemma launch_specs_total:
  assumes "list_all (\<lambda>spec. valid_submit (spec_request spec) \<and> 0 < js_units spec \<and> int64 (js_units spec)) specs"
    "inj ids" "\<And>k. i \<le> k \<Longrightarrow> find_job (ids k) s = None"
  shows "\<exists>s' jids. launch_specs P clk ids kind wl i specs s = (s', Inr jids)"
  using assms(1,3)
proof (induction specs arbitrary: i s)
  case (Cons spec specs)
  let ?j = "new_job (new_manifest P (spec_request spec) None (ids i) (clk (3 * i + 1))) (spec_request spec) (Some wl) (clk (3 * i + 2))"
  let ?s1 = "s\<lparr>db_jobs := db_jobs s @ [?j]\<rparr>" and ?t = "clk (3 * i + 3)"
  have ok: "valid_submit (spec_request spec)" "0 < js_units spec" "int64 (js_units spec)" "find_job (ids i) s = None"
    using Cons.prems by auto
  have sub: "submit_job P (spec_request spec) (Some wl) None (ids i) (clk (3 * i + 1)) (clk (3 * i + 2)) s = (?s1, Inr (ids i))"
    using ok(2-4) by (simp only: submit_job_Inr) (simp add: spec_request_def)
  have id: "jb_job_id ?j = ids i" by (simp add: new_job_def new_manifest_def)
  have "find_job (ids k) (emit P ?t ''submitted'' None (Some (ids i)) (Some kind) ?s1) = None" if "Suc i \<le> k" for k
  proof -
    have "ids k \<noteq> ids i" using that injD [OF assms(2), of k i] by auto
    then show ?thesis using Cons.prems(2) [of k] that id by (auto simp: find_job_lookup jt.lookup_None)
  qed
  then obtain s' jids where "launch_specs P clk ids kind wl (Suc i) specs
      (emit P ?t ''submitted'' None (Some (ids i)) (Some kind) ?s1) = (s', Inr jids)"
    using Cons.IH [of "Suc i"] Cons.prems(1) by fastforce
  then show ?case using ok(1) sub by (simp add: and_then_def)
qed simp

lemma build_with_errors: "build_with n params ws = Inl e \<Longrightarrow> \<exists>d. e = ValueError d"
  by (cases params)
    (auto simp: build_fractal_jobs_def build_optimize_jobs_def build_synth_jobs_def build_prompt_jobs_def generate_jobs_def
      build_montecarlo_jobs_def build_hashcrack_jobs_def build_infer_jobs_def build_eval_jobs_def build_graph_jobs_def
      tiles_of_def cut_def even_ranges_def weighted_ranges_def check_weights_def Let_def bind_err_def
      split: if_splits sum.splits option.splits)

end
