(* ===== verification/Headroom.thy ===== *)
theory Headroom imports Pyvalue Store begin

text \<open>
  \<open>src/measurement/headroom.py\<close>: the measured-headroom estimate. \<open>normalize_buckets\<close> reads the stored
  hour-of-week buckets defensively, \<open>summarize_profile\<close> turns one device's buckets into utilisation and
  the recoverable range, \<open>aggregate\<close> averages devices. The device name, path and timing fields that
  \<open>summarize_profile\<close> only passes through are left out. Values are the rounded floats of the code.
\<close>

definition BUCKETS_PER_WEEK :: nat where "BUCKETS_PER_WEEK = 168"
definition DEFAULT_MARGIN_PCT :: rat where "DEFAULT_MARGIN_PCT = 25"
definition DEFAULT_HARVEST_LOW :: rat where "DEFAULT_HARVEST_LOW = fl64 (1 / 5)"
definition DEFAULT_HARVEST_HIGH :: rat where "DEFAULT_HARVEST_HIGH = fl64 (2 / 5)"

record bucket =
  bk_n :: int
  bk_gpu_n :: int
  bk_cpu_mean :: rat
  bk_cpu_max :: rat
  bk_gpu_mean :: rat
  bk_gpu_max :: rat
  bk_ram_mean :: rat
  bk_ram_max :: rat
  bk_ac_mean :: rat
  bk_idle_mean :: rat

section \<open>Reading buckets\<close>

text \<open>\<open>TypeError\<close> and \<open>ValueError\<close> give the default, as do infinities and NaN; an \<open>OverflowError\<close> escapes.\<close>

definition finite_float :: "conversions \<Rightarrow> json \<Rightarrow> rat \<Rightarrow> py_error + rat" where
  "finite_float C v dflt =
     (case to_float C v of
        Inl (OtherError e) \<Rightarrow> Inl (OtherError e)
      | Inl _ \<Rightarrow> Inr dflt
      | Inr (Fin x) \<Rightarrow> Inr x
      | Inr _ \<Rightarrow> Inr dflt)"

definition bucket_count :: "conversions \<Rightarrow> dict \<Rightarrow> int option" where
  "bucket_count C raw = (case get_int C raw ''n'' 0 of Inl _ \<Rightarrow> None | Inr n \<Rightarrow> if n \<le> 0 then None else Some n)"

definition bucket_gpu_count :: "conversions \<Rightarrow> dict \<Rightarrow> int \<Rightarrow> int" where
  "bucket_gpu_count C raw n =
     (case dict_get raw ''gpu_n'' of
        None \<Rightarrow> -1
      | Some v \<Rightarrow> (case to_int C v of Inl _ \<Rightarrow> 0 | Inr k \<Rightarrow> max 0 (min n k)))"

definition read_bucket :: "conversions \<Rightarrow> dict \<Rightarrow> int \<Rightarrow> py_error + bucket" where
  "read_bucket C raw n =
     (let f = (\<lambda>k. finite_float C (get_or raw k (JFloat (Fin 0))) 0)
      in bind_err (f ''cpu_mean'') (\<lambda>a. bind_err (f ''cpu_max'') (\<lambda>b. bind_err (f ''gpu_mean'') (\<lambda>c.
         bind_err (f ''gpu_max'') (\<lambda>d. bind_err (f ''ram_mean'') (\<lambda>e. bind_err (f ''ram_max'') (\<lambda>g.
         bind_err (f ''ac_mean'') (\<lambda>h. bind_err (f ''idle_mean'') (\<lambda>i.
           Inr \<lparr>bk_n = n, bk_gpu_n = bucket_gpu_count C raw n, bk_cpu_mean = a, bk_cpu_max = b, bk_gpu_mean = c,
                bk_gpu_max = d, bk_ram_mean = e, bk_ram_max = g, bk_ac_mean = h, bk_idle_mean = i\<rparr>)))))))))"

fun read_buckets :: "conversions \<Rightarrow> json list \<Rightarrow> py_error + bucket list" where
  "read_buckets C [] = Inr []"
| "read_buckets C (JObj raw # rest) =
     (case bucket_count C raw of
        None \<Rightarrow> read_buckets C rest
      | Some n \<Rightarrow> bind_err (read_bucket C raw n) (\<lambda>b. bind_err (read_buckets C rest) (\<lambda>bs. Inr (b # bs))))"
| "read_buckets C (_ # rest) = read_buckets C rest"

definition normalize_buckets :: "conversions \<Rightarrow> json \<Rightarrow> py_error + bucket list" where
  "normalize_buckets C raw = (case raw of JList xs \<Rightarrow> read_buckets C (take BUCKETS_PER_WEEK xs) | _ \<Rightarrow> Inr [])"

section \<open>One device\<close>

record metric_summary =
  ms_avg :: rat
  ms_peak :: rat
  ms_mean_spare :: rat
  ms_low :: rat
  ms_high :: rat

record profile_summary =
  su_coverage :: nat
  su_cpu :: metric_summary
  su_gpu :: metric_summary
  su_gpu_sampled :: bool
  su_ram_avg :: rat
  su_ram_peak :: rat
  su_ram_headroom :: rat
  su_ac_avg :: rat
  su_idle_avg :: rat

definition recoverable :: "rat \<Rightarrow> rat \<Rightarrow> rat \<Rightarrow> rat \<times> rat" where
  "recoverable mean_spare harvest_low harvest_high = (fmul mean_spare harvest_low, fmul mean_spare harvest_high)"

definition empty_metric :: metric_summary where
  "empty_metric = \<lparr>ms_avg = 0, ms_peak = 0, ms_mean_spare = 0, ms_low = 0, ms_high = 0\<rparr>"

definition legacy_gpu_detected :: "bool option \<Rightarrow> bucket list \<Rightarrow> bool" where
  "legacy_gpu_detected declared_gpu populated \<longleftrightarrow> declared_gpu = Some True \<or>
     (declared_gpu = None \<and> list_ex (\<lambda>b. bk_gpu_n b < 0 \<and> (0 < bk_gpu_mean b \<or> 0 < bk_gpu_max b)) populated)"

definition has_gpu_sample :: "bool option \<Rightarrow> bucket list \<Rightarrow> bucket \<Rightarrow> bool" where
  "has_gpu_sample declared_gpu populated b =
     (if 0 < bk_gpu_n b then declared_gpu \<noteq> Some False
      else if bk_gpu_n b = 0 then False
      else case declared_gpu of Some d \<Rightarrow> d | None \<Rightarrow> legacy_gpu_detected declared_gpu populated)"

definition max_of :: "rat list \<Rightarrow> rat" where
  "max_of xs = (case xs of [] \<Rightarrow> 0 | x # xs \<Rightarrow> fold max xs x)"

definition metric_of :: "rat \<Rightarrow> rat \<Rightarrow> rat list \<Rightarrow> rat list \<Rightarrow> rat list \<Rightarrow> metric_summary" where
  "metric_of harvest_low harvest_high means peaks spares =
     (let mean_spare = fmean spares; (low, high) = recoverable mean_spare harvest_low harvest_high
      in \<lparr>ms_avg = fmean means, ms_peak = max_of peaks, ms_mean_spare = mean_spare, ms_low = low, ms_high = high\<rparr>)"

definition summarize_profile :: "rat \<Rightarrow> rat \<Rightarrow> rat \<Rightarrow> bool option \<Rightarrow> bucket list \<Rightarrow> profile_summary" where
  "summarize_profile margin harvest_low harvest_high declared_gpu populated =
     (let gpu_buckets = filter (has_gpu_sample declared_gpu populated) populated
      in if populated = [] then
           \<lparr>su_coverage = 0, su_cpu = empty_metric, su_gpu = empty_metric, su_gpu_sampled = False,
            su_ram_avg = 0, su_ram_peak = 0, su_ram_headroom = 0, su_ac_avg = 0, su_idle_avg = 0\<rparr>
         else
           (let avg_ram = fmean (map bk_ram_mean populated)
            in \<lparr>su_coverage = length populated,
                su_cpu = metric_of harvest_low harvest_high (map bk_cpu_mean populated) (map bk_cpu_max populated)
                  (map (\<lambda>b. max 0 (fsub (fsub 100 (bk_cpu_mean b)) margin)) populated),
                su_gpu = (if gpu_buckets = [] then empty_metric
                  else metric_of harvest_low harvest_high (map bk_gpu_mean gpu_buckets) (map bk_gpu_max gpu_buckets)
                    (map (\<lambda>b. max 0 (fsub 100 (bk_gpu_mean b))) gpu_buckets)),
                su_gpu_sampled = (gpu_buckets \<noteq> []),
                su_ram_avg = avg_ram, su_ram_peak = max_of (map bk_ram_max populated),
                su_ram_headroom = max 0 (fsub 100 avg_ram),
                su_ac_avg = fmean (map bk_ac_mean populated), su_idle_avg = fmean (map bk_idle_mean populated)\<rparr>))"

section \<open>The fleet\<close>

record fleet_summary =
  fu_device_count :: nat
  fu_total_coverage :: nat
  fu_cpu :: metric_summary
  fu_gpu :: metric_summary
  fu_gpu_device_count :: nat
  fu_ram_avg :: rat
  fu_ram_headroom :: rat
  fu_ac_avg :: rat
  fu_idle_avg :: rat

definition fleet_metric :: "rat \<Rightarrow> rat \<Rightarrow> metric_summary list \<Rightarrow> metric_summary" where
  "fleet_metric harvest_low harvest_high ms =
     metric_of harvest_low harvest_high (map ms_avg ms) (map ms_peak ms) (map ms_mean_spare ms)"

definition aggregate :: "rat \<Rightarrow> rat \<Rightarrow> profile_summary list \<Rightarrow> fleet_summary" where
  "aggregate harvest_low harvest_high summaries =
     (let contributing = filter (\<lambda>s. 0 < su_coverage s) summaries;
          gpu_contributing = filter su_gpu_sampled contributing;
          total_coverage = sum_list (map su_coverage summaries)
      in if contributing = [] then
           \<lparr>fu_device_count = 0, fu_total_coverage = total_coverage, fu_cpu = empty_metric, fu_gpu = empty_metric,
            fu_gpu_device_count = 0, fu_ram_avg = 0, fu_ram_headroom = 0, fu_ac_avg = 0, fu_idle_avg = 0\<rparr>
         else
           (let avg_ram = fmean (map su_ram_avg contributing)
            in \<lparr>fu_device_count = length contributing, fu_total_coverage = total_coverage,
                fu_cpu = fleet_metric harvest_low harvest_high (map su_cpu contributing),
                fu_gpu = (if gpu_contributing = [] then empty_metric
                          else fleet_metric harvest_low harvest_high (map su_gpu gpu_contributing)),
                fu_gpu_device_count = length gpu_contributing, fu_ram_avg = avg_ram,
                fu_ram_headroom = max 0 (fsub 100 avg_ram), fu_ac_avg = fmean (map su_ac_avg contributing),
                fu_idle_avg = fmean (map su_idle_avg contributing)\<rparr>))"

section \<open>Estimates stay percentages\<close>

definition pct :: "rat \<Rightarrow> bool" where
  "pct x \<longleftrightarrow> 0 \<le> x \<and> x \<le> 100"

definition bucket_ok :: "bucket \<Rightarrow> bool" where
  "bucket_ok b \<longleftrightarrow> pct (bk_cpu_mean b) \<and> pct (bk_cpu_max b) \<and> pct (bk_gpu_mean b) \<and> pct (bk_gpu_max b) \<and>
     pct (bk_ram_mean b) \<and> pct (bk_ram_max b) \<and> pct (bk_ac_mean b) \<and> pct (bk_idle_mean b)"

definition metric_ok :: "metric_summary \<Rightarrow> bool" where
  "metric_ok m \<longleftrightarrow> pct (ms_avg m) \<and> pct (ms_peak m) \<and> pct (ms_mean_spare m) \<and> 0 \<le> ms_low m \<and>
     ms_low m \<le> ms_high m \<and> ms_high m \<le> ms_mean_spare m"

lemma pct_fmean:
  assumes "xs \<noteq> []" "length xs < 2 ^ 40" "\<And>x. x \<in> set xs \<Longrightarrow> pct x"
  shows "pct (fmean xs)"
  using fmean_bounds [OF assms(1) _ assms(2)] assms(3) by (auto simp: pct_def)

lemma pct_max_of: "xs \<noteq> [] \<Longrightarrow> (\<And>x. x \<in> set xs \<Longrightarrow> pct x) \<Longrightarrow> pct (max_of xs)"
proof -
  assume xs: "xs \<noteq> []" "\<And>x. x \<in> set xs \<Longrightarrow> pct x"
  then obtain y ys where y: "xs = y # ys" by (cases xs) auto
  have "pct z \<Longrightarrow> (\<And>x. x \<in> set zs \<Longrightarrow> pct x) \<Longrightarrow> pct (fold max zs z)" for z zs
    by (induction zs arbitrary: z) (auto simp: pct_def max_def)
  then show ?thesis using xs y by (simp add: max_of_def)
qed

lemma harvest_bounds:
  "0 \<le> DEFAULT_HARVEST_LOW" "DEFAULT_HARVEST_LOW \<le> DEFAULT_HARVEST_HIGH" "DEFAULT_HARVEST_HIGH \<le> 1"
  unfolding DEFAULT_HARVEST_LOW_def DEFAULT_HARVEST_HIGH_def
  using fl64_nonneg [of "1/5"] fl64_mono [of "1/5" "2/5"] fl64_mono [of "2/5" 1] by simp_all

text \<open>A mean spare that came out of \<open>fmean\<close> is a float, so scaling it down does not round past it.\<close>

lemma metric_of_ok:
  assumes "means \<noteq> []" "peaks \<noteq> []" "spares \<noteq> []" "length means < 2 ^ 40" "length spares < 2 ^ 40"
    "\<And>x. x \<in> set means \<union> set peaks \<union> set spares \<Longrightarrow> pct x" "0 \<le> lo" "lo \<le> hi" "hi \<le> 1"
  shows "metric_ok (metric_of lo hi means peaks spares)"
proof -
  let ?m = "fmean spares"
  have m: "pct ?m" using assms by (intro pct_fmean) auto
  have ex: "fl64 ?m = ?m" by (simp add: fmean_def fdiv_def)
  have nn: "0 \<le> ?m" using m by (simp add: pct_def)
  have "?m * hi \<le> ?m" using mult_left_mono [of hi 1 ?m] nn assms(9) by simp
  then have "fmul ?m hi \<le> ?m" using fl64_mono [of "?m * hi" ?m] ex by (simp add: fmul_def)
  moreover have "fmul ?m lo \<le> fmul ?m hi" unfolding fmul_def
    by (intro fl64_mono mult_left_mono) (use assms nn in auto)
  moreover have "0 \<le> fmul ?m lo" unfolding fmul_def using nn assms by (intro fl64_nonneg) simp
  ultimately show ?thesis using m assms
    by (auto simp: metric_ok_def metric_of_def recoverable_def Let_def intro: pct_fmean pct_max_of)
qed

lemma empty_metric_ok: "metric_ok empty_metric"
  by (simp add: metric_ok_def empty_metric_def pct_def)

lemma pct_spare: "pct m \<Longrightarrow> pct (max 0 (fsub 100 m))"
  unfolding pct_def fsub_def using fl64_mono [of "100 - m" 100] by simp

lemma pct_spare_margin: "pct m \<Longrightarrow> 0 \<le> d \<Longrightarrow> pct (max 0 (fsub (fsub 100 m) d))"
proof -
  assume a: "pct m" "0 \<le> d"
  have "fl64 (100 - m) \<le> 100" using a fl64_mono [of "100 - m" 100] by (simp add: pct_def)
  then have "fl64 (fl64 (100 - m) - d) \<le> 100" using a fl64_mono [of "fl64 (100 - m) - d" 100] by simp
  then show ?thesis by (simp add: pct_def fsub_def)
qed

definition summary_ok :: "profile_summary \<Rightarrow> bool" where
  "summary_ok s \<longleftrightarrow> metric_ok (su_cpu s) \<and> metric_ok (su_gpu s) \<and> pct (su_ram_avg s) \<and> pct (su_ram_peak s) \<and>
     pct (su_ram_headroom s) \<and> pct (su_ac_avg s) \<and> pct (su_idle_avg s)"

lemma summarize_profile_ok:
  assumes "list_all bucket_ok bs" "length bs < 2 ^ 40" "0 \<le> margin" "0 \<le> lo" "lo \<le> hi" "hi \<le> 1"
  shows "summary_ok (summarize_profile margin lo hi declared bs)"
proof (cases "bs = []")
  case True
  then show ?thesis by (simp add: summarize_profile_def summary_ok_def empty_metric_ok pct_def Let_def)
next
  case False
  define gs where "gs = filter (has_gpu_sample declared bs) bs"
  have b: "bucket_ok b" if "b \<in> set bs" for b using assms(1) that by (simp add: list_all_iff)
  have g: "bucket_ok b" if "b \<in> set gs" for b using b that by (simp add: gs_def)
  have "length gs \<le> length bs" by (simp add: gs_def)
  then have lg: "length gs < 2 ^ 40" using assms(2) by simp
  have ram: "pct (fmean (map bk_ram_mean bs))" using False assms(2) b by (intro pct_fmean) (auto simp: bucket_ok_def)
  have cpu: "metric_ok (metric_of lo hi (map bk_cpu_mean bs) (map bk_cpu_max bs)
      (map (\<lambda>b. max 0 (fsub (fsub 100 (bk_cpu_mean b)) margin)) bs))"
    using False assms b pct_spare_margin by (intro metric_of_ok) (auto simp: bucket_ok_def)
  have gpu: "metric_ok (metric_of lo hi (map bk_gpu_mean gs) (map bk_gpu_max gs)
      (map (\<lambda>b. max 0 (fsub 100 (bk_gpu_mean b))) gs))" if "gs \<noteq> []"
    using that assms lg g pct_spare by (intro metric_of_ok) (auto simp: bucket_ok_def)
  show ?thesis using False cpu gpu ram pct_spare [OF ram] assms(2) b empty_metric_ok
    by (auto simp: summarize_profile_def gs_def [symmetric] summary_ok_def Let_def bucket_ok_def
        intro!: pct_fmean pct_max_of)
qed

definition fleet_ok :: "fleet_summary \<Rightarrow> bool" where
  "fleet_ok f \<longleftrightarrow> metric_ok (fu_cpu f) \<and> metric_ok (fu_gpu f) \<and> pct (fu_ram_avg f) \<and> pct (fu_ram_headroom f) \<and>
     pct (fu_ac_avg f) \<and> pct (fu_idle_avg f) \<and> fu_gpu_device_count f \<le> fu_device_count f"

lemma fleet_metric_ok:
  assumes "ms \<noteq> []" "length ms < 2 ^ 40" "\<And>m. m \<in> set ms \<Longrightarrow> metric_ok m" "0 \<le> lo" "lo \<le> hi" "hi \<le> 1"
  shows "metric_ok (fleet_metric lo hi ms)"
  unfolding fleet_metric_def using assms by (intro metric_of_ok) (auto simp: metric_ok_def)

lemma aggregate_ok:
  assumes "list_all summary_ok ss" "length ss < 2 ^ 40" "0 \<le> lo" "lo \<le> hi" "hi \<le> 1"
  shows "fleet_ok (aggregate lo hi ss)"
proof -
  define cs where "cs = filter (\<lambda>s. 0 < su_coverage s) ss"
  define gs where "gs = filter su_gpu_sampled cs"
  have c: "summary_ok s" if "s \<in> set cs" for s using assms(1) that by (simp add: list_all_iff cs_def)
  have g: "summary_ok s" if "s \<in> set gs" for s using c that by (simp add: gs_def)
  have "length cs \<le> length ss" "length gs \<le> length cs" unfolding cs_def gs_def by (rule length_filter_le)+
  then have len: "length cs < 2 ^ 40" "length gs < 2 ^ 40" "length gs \<le> length cs" using assms(2) by simp_all
  show ?thesis
  proof (cases "cs = []")
    case True
    then show ?thesis by (simp add: aggregate_def cs_def [symmetric] fleet_ok_def empty_metric_ok pct_def Let_def)
  next
    case False
    have ram: "pct (fmean (map su_ram_avg cs))" using False len c by (intro pct_fmean) (auto simp: summary_ok_def)
    have "metric_ok (fleet_metric lo hi (map su_cpu cs))"
      using False len c assms by (intro fleet_metric_ok) (auto simp: summary_ok_def)
    moreover have "gs \<noteq> [] \<Longrightarrow> metric_ok (fleet_metric lo hi (map su_gpu gs))"
      using len g assms by (intro fleet_metric_ok) (auto simp: summary_ok_def)
    ultimately show ?thesis using False len c ram pct_spare [OF ram] empty_metric_ok
      by (auto simp: aggregate_def cs_def [symmetric] gs_def [symmetric] fleet_ok_def Let_def summary_ok_def
          intro!: pct_fmean)
  qed
qed

text \<open>
  Every figure of the measured-headroom report is a percentage: from buckets whose values are within
  0..100, each device's utilisation, spare capacity and memory headroom stay within 0..100, the
  recoverable range satisfies 0 \<open>\<le>\<close> low \<open>\<le>\<close> high \<open>\<le>\<close> mean spare, and so do the averages over the
  devices, for the posture the code ships with.
\<close>
theorem headroom_estimates_bounded:
  assumes "list_all (\<lambda>(declared, bs). list_all bucket_ok bs \<and> length bs < 2 ^ 40) devices" "length devices < 2 ^ 40"
  shows "list_all summary_ok (map (\<lambda>(declared, bs).
       summarize_profile DEFAULT_MARGIN_PCT DEFAULT_HARVEST_LOW DEFAULT_HARVEST_HIGH declared bs) devices) \<and>
    fleet_ok (aggregate DEFAULT_HARVEST_LOW DEFAULT_HARVEST_HIGH (map (\<lambda>(declared, bs).
       summarize_profile DEFAULT_MARGIN_PCT DEFAULT_HARVEST_LOW DEFAULT_HARVEST_HIGH declared bs) devices))"
proof -
  have "list_all summary_ok (map (\<lambda>(declared, bs).
       summarize_profile DEFAULT_MARGIN_PCT DEFAULT_HARVEST_LOW DEFAULT_HARVEST_HIGH declared bs) devices)"
    using assms(1) harvest_bounds
    by (auto simp: list_all_iff DEFAULT_MARGIN_PCT_def intro!: summarize_profile_ok)
  moreover from this have "fleet_ok (aggregate DEFAULT_HARVEST_LOW DEFAULT_HARVEST_HIGH (map (\<lambda>(declared, bs).
       summarize_profile DEFAULT_MARGIN_PCT DEFAULT_HARVEST_LOW DEFAULT_HARVEST_HIGH declared bs) devices))"
    using assms(2) harvest_bounds by (intro aggregate_ok) auto
  ultimately show ?thesis by simp
qed

lemma headroom_estimates_bounded_witness:
  "let b = \<lparr>bk_n = 3, bk_gpu_n = 0, bk_cpu_mean = 20, bk_cpu_max = 40, bk_gpu_mean = 0, bk_gpu_max = 0,
       bk_ram_mean = 50, bk_ram_max = 60, bk_ac_mean = 100, bk_idle_mean = 10\<rparr>
   in fleet_ok (aggregate DEFAULT_HARVEST_LOW DEFAULT_HARVEST_HIGH
        [summarize_profile DEFAULT_MARGIN_PCT DEFAULT_HARVEST_LOW DEFAULT_HARVEST_HIGH None [b]])"
  using headroom_estimates_bounded [of "[(None, [\<lparr>bk_n = 3, bk_gpu_n = 0, bk_cpu_mean = 20, bk_cpu_max = 40,
      bk_gpu_mean = 0, bk_gpu_max = 0, bk_ram_mean = 50, bk_ram_max = 60, bk_ac_mean = 100, bk_idle_mean = 10\<rparr>])]"]
  by (simp add: bucket_ok_def pct_def Let_def)

end
