(* ===== verification/Profiles.thy ===== *)
theory Profiles imports Headroom Auth begin

text \<open>
  The measurement endpoints of \<open>src/orchestrator/app.py\<close>: the sanitizers a posted profile goes
  through, \<open>POST /profile\<close>, the decoding of stored rows and \<open>GET /measurement\<close>. The floats of a report
  come off the wire, so they may be infinite or NaN; what is stored is finite. The lemmas show that
  whatever was sent, what is stored is the report cut to the documented ranges (\<open>stores_compact\<close>,
  \<open>stores_week\<close>, written without the sanitizers), and how it reads back (\<open>reads_back\<close>).
\<close>

record usage_bucket =
  ub_index :: int
  ub_n :: int
  ub_cpu_mean :: pyfloat
  ub_cpu_max :: pyfloat
  ub_gpu_mean :: pyfloat
  ub_gpu_max :: pyfloat
  ub_ram_mean :: pyfloat
  ub_ram_max :: pyfloat
  ub_ac_mean :: pyfloat
  ub_idle_mean :: pyfloat

record metric_input =
  mi_avg :: pyfloat
  mi_peak :: pyfloat
  mi_recoverable_low :: pyfloat
  mi_recoverable_high :: pyfloat

record availability_input =
  ai_span_hours :: pyfloat
  ai_observed_hours_per_day :: pyfloat
  ai_unavailable_hours_per_day :: pyfloat
  ai_sample_count :: int

record profile_report =
  pr_worker_id :: str
  pr_device_class :: str
  pr_coverage_buckets :: int
  pr_cpu :: metric_input
  pr_gpu :: metric_input
  pr_gpu_sampled :: bool
  pr_ram_avg :: pyfloat
  pr_ram_headroom :: pyfloat
  pr_ac_avg :: pyfloat
  pr_availability :: availability_input
  pr_buckets :: "usage_bucket list"

definition valid_report :: "profile_report \<Rightarrow> bool" where
  "valid_report r \<longleftrightarrow> pr_device_class r \<in> set MeasurementDeviceClass"

section \<open>Sanitizers\<close>

text \<open>\<open>max(lo, min(hi, v))\<close> of a float that is not NaN.\<close>

definition clamp :: "rat \<Rightarrow> rat \<Rightarrow> pyfloat \<Rightarrow> rat" where
  "clamp lo hi v = (case py_max (Fin lo) (py_min (Fin hi) v) of Fin x \<Rightarrow> x | _ \<Rightarrow> lo)"

definition clamp_pct :: "pyfloat \<Rightarrow> rat" where
  "clamp_pct v = (if is_nan v then 0 else clamp 0 100 v)"

definition clamp_nonnegative :: "pyfloat \<Rightarrow> rat \<Rightarrow> rat" where
  "clamp_nonnegative v maximum = (if is_nan v then 0 else clamp 0 maximum v)"

definition clean_bucket :: "usage_bucket \<Rightarrow> dict" where
  "clean_bucket b =
     (let pctf = (\<lambda>v. JFloat (Fin (clamp_pct v)))
      in [(''index'', JInt (ub_index b)), (''n'', JInt (ub_n b)), (''cpu_mean'', pctf (ub_cpu_mean b)),
          (''cpu_max'', pctf (ub_cpu_max b)), (''gpu_mean'', pctf (ub_gpu_mean b)), (''gpu_max'', pctf (ub_gpu_max b)),
          (''ram_mean'', pctf (ub_ram_mean b)), (''ram_max'', pctf (ub_ram_max b)), (''ac_mean'', pctf (ub_ac_mean b)),
          (''idle_mean'', pctf (ub_idle_mean b))])"

text \<open>The scan keeps the indices seen and stops once a full week is kept.\<close>

fun scan_buckets :: "int list \<Rightarrow> nat \<Rightarrow> usage_bucket list \<Rightarrow> dict list" where
  "scan_buckets seen kept [] = []"
| "scan_buckets seen kept (b # rest) =
     (if ub_n b \<le> 0 then scan_buckets seen kept rest
      else if ub_index b < 0 \<or> int BUCKETS_PER_WEEK \<le> ub_index b \<or> ub_index b \<in> set seen then scan_buckets seen kept rest
      else if BUCKETS_PER_WEEK \<le> Suc kept then [clean_bucket b]
      else clean_bucket b # scan_buckets (ub_index b # seen) (Suc kept) rest)"

definition sanitize_profile_buckets :: "usage_bucket list \<Rightarrow> dict list" where
  "sanitize_profile_buckets buckets = scan_buckets [] 0 (take (3 * BUCKETS_PER_WEEK) buckets)"

definition sanitize_metric :: "metric_input \<Rightarrow> metric" where
  "sanitize_metric v =
     (let avg = clamp_pct (mi_avg v); peak = max avg (clamp_pct (mi_peak v));
          low = clamp_pct (mi_recoverable_low v); high = clamp_pct (mi_recoverable_high v)
      in \<lparr>mt_avg = avg, mt_peak = peak, mt_recoverable_low = min low high, mt_recoverable_high = max low high\<rparr>)"

definition sanitize_availability :: "availability_input \<Rightarrow> profile_availability" where
  "sanitize_availability v =
     (let span_hours = clamp_nonnegative (ai_span_hours v) (24 * 400);
          observed = clamp_nonnegative (ai_observed_hours_per_day v) 24;
          unavailable = clamp_nonnegative (ai_unavailable_hours_per_day v) 24;
          (observed, unavailable) =
            (if 24 < fadd observed unavailable
             then (let scale = fdiv 24 (fadd observed unavailable) in (fmul observed scale, fmul unavailable scale))
             else (observed, unavailable));
          sample_count = max 0 (min 10000000 (ai_sample_count v))
      in if span_hours \<le> 0
         then \<lparr>pa_span_hours = span_hours, pa_observed_hours_per_day = 0, pa_unavailable_hours_per_day = 0, pa_sample_count = 0\<rparr>
         else \<lparr>pa_span_hours = span_hours, pa_observed_hours_per_day = observed,
               pa_unavailable_hours_per_day = unavailable, pa_sample_count = sample_count\<rparr>)"

definition no_availability :: availability_input where
  "no_availability = \<lparr>ai_span_hours = Fin 0, ai_observed_hours_per_day = Fin 0, ai_unavailable_hours_per_day = Fin 0,
     ai_sample_count = 0\<rparr>"

definition summary_metric :: "metric_summary \<Rightarrow> metric_input" where
  "summary_metric m = \<lparr>mi_avg = Fin (ms_avg m), mi_peak = Fin (ms_peak m), mi_recoverable_low = Fin (ms_low m),
     mi_recoverable_high = Fin (ms_high m)\<rparr>"

definition compact_from_legacy_buckets :: "conversions \<Rightarrow> dict list \<Rightarrow> str \<Rightarrow> py_error + compact_profile" where
  "compact_from_legacy_buckets C buckets device_class =
     bind_err (normalize_buckets C (JList (map JObj buckets))) (\<lambda>populated.
       (let summary = summarize_profile DEFAULT_MARGIN_PCT DEFAULT_HARVEST_LOW DEFAULT_HARVEST_HIGH None populated
        in Inr \<lparr>cp_device_class = device_class, cp_coverage_buckets = int (su_coverage summary),
             cp_cpu = sanitize_metric (summary_metric (su_cpu summary)),
             cp_gpu = sanitize_metric (summary_metric (su_gpu summary)), cp_gpu_sampled = su_gpu_sampled summary,
             cp_ram_avg = clamp_pct (Fin (su_ram_avg summary)), cp_ram_headroom = clamp_pct (Fin (su_ram_headroom summary)),
             cp_ac_avg = clamp_pct (Fin (su_ac_avg summary)), cp_availability = sanitize_availability no_availability\<rparr>))"

definition sanitize_profile_report :: "conversions \<Rightarrow> profile_report \<Rightarrow> py_error + compact_profile" where
  "sanitize_profile_report C report =
     (if pr_buckets report \<noteq> []
      then compact_from_legacy_buckets C (sanitize_profile_buckets (pr_buckets report)) (pr_device_class report)
      else (let coverage = max 0 (min (int BUCKETS_PER_WEEK) (pr_coverage_buckets report)); ram_avg = clamp_pct (pr_ram_avg report)
            in Inr \<lparr>cp_device_class = pr_device_class report, cp_coverage_buckets = coverage,
                 cp_cpu = sanitize_metric (pr_cpu report), cp_gpu = sanitize_metric (pr_gpu report),
                 cp_gpu_sampled = pr_gpu_sampled report, cp_ram_avg = ram_avg, cp_ram_headroom = max 0 (fsub 100 ram_avg),
                 cp_ac_avg = clamp_pct (pr_ac_avg report), cp_availability = sanitize_availability (pr_availability report)\<rparr>))"

section \<open>Reading stored rows\<close>

text \<open>A stored row is a compact profile; its floats are finite, and every field is clamped again.\<close>

definition stored_metric :: "metric \<Rightarrow> metric_input" where
  "stored_metric m = \<lparr>mi_avg = Fin (mt_avg m), mi_peak = Fin (mt_peak m), mi_recoverable_low = Fin (mt_recoverable_low m),
     mi_recoverable_high = Fin (mt_recoverable_high m)\<rparr>"

definition stored_availability :: "profile_availability \<Rightarrow> availability_input" where
  "stored_availability a = \<lparr>ai_span_hours = Fin (pa_span_hours a), ai_observed_hours_per_day = Fin (pa_observed_hours_per_day a),
     ai_unavailable_hours_per_day = Fin (pa_unavailable_hours_per_day a), ai_sample_count = pa_sample_count a\<rparr>"

definition decode_stored_profile :: "compact_profile \<Rightarrow> compact_profile" where
  "decode_stored_profile v =
     (let coverage = max 0 (min (int BUCKETS_PER_WEEK) (py_int (clamp_nonnegative (Fin (of_int (cp_coverage_buckets v))) 168)));
          ram_avg = clamp_pct (Fin (cp_ram_avg v));
          device_class = (if cp_device_class v \<notin> set MeasurementDeviceClass then ''unknown'' else cp_device_class v)
      in \<lparr>cp_device_class = device_class, cp_coverage_buckets = coverage, cp_cpu = sanitize_metric (stored_metric (cp_cpu v)),
          cp_gpu = sanitize_metric (stored_metric (cp_gpu v)), cp_gpu_sampled = cp_gpu_sampled v,
          cp_ram_avg = ram_avg, cp_ram_headroom = max 0 (fsub 100 ram_avg), cp_ac_avg = clamp_pct (Fin (cp_ac_avg v)),
          cp_availability = sanitize_availability (stored_availability (cp_availability v))\<rparr>)"

definition average :: "rat list \<Rightarrow> rat" where
  "average values = (if values \<noteq> [] then fdiv (py_sum values) (of_nat (length values)) else 0)"

record fleet_profile =
  fp_device_count :: nat
  fp_total_coverage_buckets :: int
  fp_cpu :: metric
  fp_gpu :: metric
  fp_gpu_device_count :: nat
  fp_ram_avg :: rat
  fp_ram_headroom :: rat
  fp_ac_avg :: rat
  fp_observed_hours_per_day :: rat
  fp_unavailable_hours_per_day :: rat
  fp_timing_span_hours :: rat
  fp_device_classes :: "(str \<times> nat) list"

definition fleet_metric_of :: "metric list \<Rightarrow> metric" where
  "fleet_metric_of selected =
     (if selected = [] then \<lparr>mt_avg = 0, mt_peak = 0, mt_recoverable_low = 0, mt_recoverable_high = 0\<rparr>
      else \<lparr>mt_avg = average (map mt_avg selected), mt_peak = max_of (map mt_peak selected),
            mt_recoverable_low = average (map mt_recoverable_low selected),
            mt_recoverable_high = average (map mt_recoverable_high selected)\<rparr>)"

fun count_class :: "(str \<times> nat) list \<Rightarrow> str \<Rightarrow> (str \<times> nat) list" where
  "count_class [] name = [(name, 1)]"
| "count_class ((k, n) # kvs) name = (if k = name then (k, n + 1) # kvs else (k, n) # count_class kvs name)"

definition aggregate_compact_profiles :: "compact_profile list \<Rightarrow> fleet_profile" where
  "aggregate_compact_profiles profiles =
     (let contributing = filter (\<lambda>p. 0 < cp_coverage_buckets p) profiles;
          gpu_contributing = filter cp_gpu_sampled contributing;
          timed = filter (\<lambda>a. 0 < pa_span_hours a) (map cp_availability contributing);
          ram_avg = average (map cp_ram_avg contributing)
      in \<lparr>fp_device_count = length contributing, fp_total_coverage_buckets = sum_list (map cp_coverage_buckets profiles),
          fp_cpu = fleet_metric_of (map cp_cpu contributing), fp_gpu = fleet_metric_of (map cp_gpu gpu_contributing),
          fp_gpu_device_count = length gpu_contributing, fp_ram_avg = ram_avg,
          fp_ram_headroom = (if contributing \<noteq> [] then max 0 (fsub 100 ram_avg) else 0),
          fp_ac_avg = average (map cp_ac_avg contributing),
          fp_observed_hours_per_day = average (map pa_observed_hours_per_day timed),
          fp_unavailable_hours_per_day = average (map pa_unavailable_hours_per_day timed),
          fp_timing_span_hours = average (map pa_span_hours timed),
          fp_device_classes = fold (\<lambda>p cs. count_class cs (cp_device_class p)) contributing []\<rparr>)"

section \<open>The endpoints\<close>

record profile_response =
  po_accepted :: bool
  po_coverage_buckets :: int
  po_buckets_stored :: int

definition ingest_profile ::
  "primitives \<Rightarrow> conversions \<Rightarrow> config \<Rightarrow> clock \<Rightarrow> str option \<Rightarrow> profile_report \<Rightarrow> str option \<Rightarrow> profile_response handler" where
  "ingest_profile P C cf clk state_fingerprint req authorization s =
     (if \<not> valid_report req then (s, Raise 422 ''validation error'')
      else and_then (require_worker_token P cf (clk 0) (pr_worker_id req) authorization
                       (verified_client_fingerprint state_fingerprint))
        (\<lambda>worker s. if \<not> wk_approved worker then (s, Raise 403 ''worker is pending approval'')
           else case sanitize_profile_report C req of
                  Inl _ \<Rightarrow> (s, Inl (Uncaught ''OverflowError''))
                | Inr summary \<Rightarrow>
                    (upsert_profile \<lparr>pf_worker_id = pr_worker_id req, pf_profile = summary,
                        pf_coverage = cp_coverage_buckets summary, pf_updated_at = clk 1\<rparr> s,
                     Inr \<lparr>po_accepted = True, po_coverage_buckets = cp_coverage_buckets summary, po_buckets_stored = 0\<rparr>)) s)"

definition measurement :: "primitives \<Rightarrow> config \<Rightarrow> clock \<Rightarrow> str option \<Rightarrow> fleet_profile handler" where
  "measurement P cf clk authorization =
     and_then (require_operator_read_token P cf (clk 0) authorization)
       (\<lambda>_ s. (s, Inr (aggregate_compact_profiles (map (\<lambda>row. decode_stored_profile (pf_profile row)) (db_profiles s)))))"

section \<open>What is stored\<close>

definition stored_metric_ok :: "metric \<Rightarrow> bool" where
  "stored_metric_ok m \<longleftrightarrow> pct (mt_avg m) \<and> mt_avg m \<le> mt_peak m \<and> mt_peak m \<le> 100 \<and>
     0 \<le> mt_recoverable_low m \<and> mt_recoverable_low m \<le> mt_recoverable_high m \<and> mt_recoverable_high m \<le> 100"

definition hours :: "rat \<Rightarrow> bool" where
  "hours x \<longleftrightarrow> 0 \<le> x \<and> x \<le> 24"

definition profile_ok :: "compact_profile \<Rightarrow> bool" where
  "profile_ok c \<longleftrightarrow> cp_device_class c \<in> set MeasurementDeviceClass \<and> 0 \<le> cp_coverage_buckets c \<and>
     cp_coverage_buckets c \<le> 168 \<and> stored_metric_ok (cp_cpu c) \<and> stored_metric_ok (cp_gpu c) \<and> pct (cp_ram_avg c) \<and>
     pct (cp_ram_headroom c) \<and> (0 < cp_coverage_buckets c \<longrightarrow> cp_ram_headroom c = max 0 (fsub 100 (cp_ram_avg c))) \<and>
     pct (cp_ac_avg c) \<and>
     hours (pa_observed_hours_per_day (cp_availability c)) \<and> hours (pa_unavailable_hours_per_day (cp_availability c)) \<and>
     0 \<le> pa_span_hours (cp_availability c) \<and> pa_span_hours (cp_availability c) \<le> 9600 \<and>
     0 \<le> pa_sample_count (cp_availability c) \<and> pa_sample_count (cp_availability c) \<le> 10000000"

lemma clamp_bounds: "lo \<le> hi \<Longrightarrow> lo \<le> clamp lo hi v \<and> clamp lo hi v \<le> hi"
  by (cases v) (auto simp: clamp_def py_max_def py_min_def)

lemma clamp_Fin: "lo \<le> x \<Longrightarrow> x \<le> hi \<Longrightarrow> clamp lo hi (Fin x) = x"
  by (auto simp: clamp_def py_max_def py_min_def)

lemma clamp_pct_ok [simp]: "pct (clamp_pct v)"
  using clamp_bounds [of 0 100 v] by (simp add: clamp_pct_def pct_def)

lemma clamp_pct_Fin: "pct x \<Longrightarrow> clamp_pct (Fin x) = x"
  by (simp add: clamp_pct_def clamp_Fin pct_def is_nan_def)

lemma clamp_nonnegative_bounds: "0 \<le> m \<Longrightarrow> 0 \<le> clamp_nonnegative v m \<and> clamp_nonnegative v m \<le> m"
  using clamp_bounds [of 0 m v] by (simp add: clamp_nonnegative_def)

lemma sanitize_metric_ok: "stored_metric_ok (sanitize_metric v)"
  using clamp_pct_ok unfolding pct_def by (auto simp: stored_metric_ok_def sanitize_metric_def Let_def pct_def max_def min_def)

lemma sanitize_stored_metric: "stored_metric_ok m \<Longrightarrow> sanitize_metric (stored_metric m) = m"
  by (cases m) (auto simp: stored_metric_ok_def sanitize_metric_def stored_metric_def Let_def clamp_pct_Fin pct_def max_def min_def)

lemma scaled_hours:
  assumes "hours a" "hours b" "24 < fadd a b"
  shows "hours (fmul a (fdiv 24 (fadd a b)))"
proof -
  have "0 < fadd a b" "24 / fadd a b \<le> 1" using assms(3) by simp_all
  then have "fdiv 24 (fadd a b) \<le> 1" "0 \<le> fdiv 24 (fadd a b)"
    unfolding fdiv_def using fl64_mono [of "24 / fadd a b" 1] by (simp_all add: fl64_nonneg)
  then have "0 \<le> a * fdiv 24 (fadd a b)" "a * fdiv 24 (fadd a b) \<le> 24"
    using assms(1) mult_mono [of a 24 "fdiv 24 (fadd a b)" 1] by (auto simp: hours_def)
  then show ?thesis unfolding fmul_def hours_def
    using fl64_mono [of "a * fdiv 24 (fadd a b)" 24] by (simp add: fl64_nonneg)
qed

lemma fadd_commute: "fadd a b = fadd b a"
  by (simp add: fadd_def add.commute)

lemma sanitize_availability_ok:
  "hours (pa_observed_hours_per_day (sanitize_availability v))"
  "hours (pa_unavailable_hours_per_day (sanitize_availability v))"
  "0 \<le> pa_span_hours (sanitize_availability v)" "pa_span_hours (sanitize_availability v) \<le> 9600"
  "0 \<le> pa_sample_count (sanitize_availability v)" "pa_sample_count (sanitize_availability v) \<le> 10000000"
proof -
  define a where "a = clamp_nonnegative (ai_observed_hours_per_day v) 24"
  define b where "b = clamp_nonnegative (ai_unavailable_hours_per_day v) 24"
  have ab: "hours a" "hours b" unfolding a_def b_def hours_def by (simp_all add: clamp_nonnegative_bounds)
  have span: "0 \<le> clamp_nonnegative (ai_span_hours v) (24 * 400)" "clamp_nonnegative (ai_span_hours v) (24 * 400) \<le> 9600"
    using clamp_nonnegative_bounds [of "24 * 400" "ai_span_hours v"] by simp_all
  have zero: "hours 0" by (simp add: hours_def)
  show "hours (pa_observed_hours_per_day (sanitize_availability v))"
    "hours (pa_unavailable_hours_per_day (sanitize_availability v))"
    "0 \<le> pa_span_hours (sanitize_availability v)" "pa_span_hours (sanitize_availability v) \<le> 9600"
    "0 \<le> pa_sample_count (sanitize_availability v)" "pa_sample_count (sanitize_availability v) \<le> 10000000"
    using ab zero span scaled_hours [OF ab] scaled_hours [OF ab(2,1)] fadd_commute [of a b]
    by (auto simp: sanitize_availability_def Let_def a_def [symmetric] b_def [symmetric])
qed

section \<open>What a report asks to be stored\<close>

text \<open>
  The stored profile a report asks for, written without the sanitizers: every figure cut off at the ends
  of its documented range (a NaN counts as nothing), the GPU flag as sent, and in the older format the
  summary of the first usable bucket of every hour of the week.
\<close>

fun ranged :: "rat \<Rightarrow> pyfloat \<Rightarrow> rat" where
  "ranged hi (Fin x) = (if x < 0 then 0 else if hi < x then hi else x)"
| "ranged hi PosInf = hi"
| "ranged hi NegInf = 0"
| "ranged hi NaN = 0"

definition stores_metric :: "metric_input \<Rightarrow> metric \<Rightarrow> bool" where
  "stores_metric i m \<longleftrightarrow> mt_avg m = ranged 100 (mi_avg i) \<and>
     mt_peak m = (if ranged 100 (mi_peak i) < mt_avg m then mt_avg m else ranged 100 (mi_peak i)) \<and>
     {mt_recoverable_low m, mt_recoverable_high m} = {ranged 100 (mi_recoverable_low i), ranged 100 (mi_recoverable_high i)} \<and>
     mt_recoverable_low m \<le> mt_recoverable_high m"

definition stores_timing :: "availability_input \<Rightarrow> profile_availability \<Rightarrow> bool" where
  "stores_timing i a \<longleftrightarrow> pa_span_hours a = ranged 9600 (ai_span_hours i) \<and>
     (if pa_span_hours a = 0
      then pa_observed_hours_per_day a = 0 \<and> pa_unavailable_hours_per_day a = 0 \<and> pa_sample_count a = 0
      else pa_sample_count a =
             (if ai_sample_count i < 0 then 0 else if 10000000 < ai_sample_count i then 10000000 else ai_sample_count i) \<and>
        (let observed = ranged 24 (ai_observed_hours_per_day i); unavailable = ranged 24 (ai_unavailable_hours_per_day i);
             total = fadd observed unavailable
         in if total \<le> 24
            then pa_observed_hours_per_day a = observed \<and> pa_unavailable_hours_per_day a = unavailable
            else pa_observed_hours_per_day a = fmul observed (fdiv 24 total) \<and>
                 pa_unavailable_hours_per_day a = fmul unavailable (fdiv 24 total)))"

definition stores_compact :: "profile_report \<Rightarrow> compact_profile \<Rightarrow> bool" where
  "stores_compact r c \<longleftrightarrow> cp_device_class c = pr_device_class r \<and>
     cp_coverage_buckets c =
       (if pr_coverage_buckets r < 0 then 0 else if 168 < pr_coverage_buckets r then 168 else pr_coverage_buckets r) \<and>
     stores_metric (pr_cpu r) (cp_cpu c) \<and> stores_metric (pr_gpu r) (cp_gpu c) \<and> cp_gpu_sampled c = pr_gpu_sampled r \<and>
     cp_ram_avg c = ranged 100 (pr_ram_avg r) \<and> cp_ram_headroom c = fsub 100 (cp_ram_avg c) \<and>
     cp_ac_avg c = ranged 100 (pr_ac_avg r) \<and> stores_timing (pr_availability r) (cp_availability c)"

definition usable_bucket :: "usage_bucket \<Rightarrow> bool" where
  "usable_bucket b \<longleftrightarrow> 0 < ub_n b \<and> 0 \<le> ub_index b \<and> ub_index b < 168"

function first_of_hours :: "usage_bucket list \<Rightarrow> usage_bucket list" where
  "first_of_hours [] = []"
| "first_of_hours (b # bs) = b # first_of_hours (filter (\<lambda>x. ub_index x \<noteq> ub_index b) bs)"
  by pat_completeness auto

termination by (relation "measure length") (auto simp: le_imp_less_Suc)

definition week_of :: "usage_bucket list \<Rightarrow> usage_bucket list" where
  "week_of bs = first_of_hours (filter usable_bucket (take 504 bs))"

definition ranged_bucket :: "usage_bucket \<Rightarrow> bucket" where
  "ranged_bucket b = \<lparr>bk_n = ub_n b, bk_gpu_n = -1, bk_cpu_mean = ranged 100 (ub_cpu_mean b),
     bk_cpu_max = ranged 100 (ub_cpu_max b), bk_gpu_mean = ranged 100 (ub_gpu_mean b), bk_gpu_max = ranged 100 (ub_gpu_max b),
     bk_ram_mean = ranged 100 (ub_ram_mean b), bk_ram_max = ranged 100 (ub_ram_max b),
     bk_ac_mean = ranged 100 (ub_ac_mean b), bk_idle_mean = ranged 100 (ub_idle_mean b)\<rparr>"

definition stores_week :: "profile_report \<Rightarrow> compact_profile \<Rightarrow> bool" where
  "stores_week r c \<longleftrightarrow>
     (let week = week_of (pr_buckets r);
          summary = summarize_profile DEFAULT_MARGIN_PCT DEFAULT_HARVEST_LOW DEFAULT_HARVEST_HIGH None (map ranged_bucket week)
      in cp_device_class c = pr_device_class r \<and> cp_coverage_buckets c = int (length week) \<and>
         stores_metric (summary_metric (su_cpu summary)) (cp_cpu c) \<and>
         stores_metric (summary_metric (su_gpu summary)) (cp_gpu c) \<and> cp_gpu_sampled c = su_gpu_sampled summary \<and>
         cp_ram_avg c = su_ram_avg summary \<and> cp_ram_headroom c = su_ram_headroom summary \<and> cp_ac_avg c = su_ac_avg summary \<and>
         cp_availability c = \<lparr>pa_span_hours = 0, pa_observed_hours_per_day = 0, pa_unavailable_hours_per_day = 0,
           pa_sample_count = 0\<rparr>)"

text \<open>
  What a stored row \<open>c\<close> may read back as: itself, except that the memory headroom is taken from the memory
  average again and hours that still add up to more than 24, by the rounding of the first scaling, are
  scaled once more.
\<close>

definition reads_back :: "compact_profile \<Rightarrow> compact_profile \<Rightarrow> bool" where
  "reads_back c d \<longleftrightarrow>
     d = c\<lparr>cp_ram_headroom := fsub 100 (cp_ram_avg c), cp_availability := cp_availability d\<rparr> \<and>
     pa_span_hours (cp_availability d) = pa_span_hours (cp_availability c) \<and>
     pa_sample_count (cp_availability d) = pa_sample_count (cp_availability c) \<and>
     (fadd (pa_observed_hours_per_day (cp_availability c)) (pa_unavailable_hours_per_day (cp_availability c)) \<le> 24 \<longrightarrow>
        cp_availability d = cp_availability c)"

lemma clamp_pct_ranged: "clamp_pct v = ranged 100 v"
  by (cases v) (auto simp: clamp_pct_def clamp_def py_max_def py_min_def is_nan_def)

lemma clamp_nonnegative_ranged: "0 \<le> m \<Longrightarrow> clamp_nonnegative v m = ranged m v"
  by (cases v) (auto simp: clamp_nonnegative_def clamp_def py_max_def py_min_def is_nan_def)

lemma fsub_100_nonneg: "pct x \<Longrightarrow> max 0 (fsub 100 x) = fsub 100 x"
  by (simp add: pct_def fsub_def fl64_nonneg)

lemma sanitize_metric_stores: "stores_metric v (sanitize_metric v)"
  by (auto simp: stores_metric_def sanitize_metric_def Let_def clamp_pct_ranged max_def min_def)

lemma sanitize_availability_stores: "stores_timing v (sanitize_availability v)"
proof -
  have "0 \<le> ranged 9600 (ai_span_hours v)"
    using clamp_nonnegative_bounds [of 9600 "ai_span_hours v"] by (simp add: clamp_nonnegative_ranged)
  then show ?thesis
    by (auto simp: stores_timing_def sanitize_availability_def Let_def clamp_nonnegative_ranged)
qed

lemma compact_stores:
  assumes "pr_buckets r = []" "sanitize_profile_report C r = Inr c"
  shows "stores_compact r c"
proof -
  have "max 0 (fsub 100 (clamp_pct (pr_ram_avg r))) = fsub 100 (clamp_pct (pr_ram_avg r))"
    by (intro fsub_100_nonneg) simp
  then show ?thesis using assms sanitize_metric_stores sanitize_availability_stores
    by (auto simp: sanitize_profile_report_def stores_compact_def Let_def clamp_pct_ranged BUCKETS_PER_WEEK_def)
qed

section \<open>The older format\<close>

text \<open>The scan keeps the first usable bucket of every hour; stopping at a full week drops nothing.\<close>

lemma first_of_hours_none: "(\<And>b. b \<in> set bs \<Longrightarrow> False) \<Longrightarrow> first_of_hours bs = []"
  by (cases bs) auto

lemma scan_buckets_week:
  assumes "distinct seen" "set seen \<subseteq> {0..<168}" "length seen = kept" "kept < 168"
  shows "scan_buckets seen kept bs =
    map clean_bucket (first_of_hours (filter (\<lambda>b. usable_bucket b \<and> ub_index b \<notin> set seen) bs))"
  using assms
proof (induction seen kept bs rule: scan_buckets.induct)
  case (2 seen kept b rest)
  show ?case
  proof (cases "usable_bucket b \<and> ub_index b \<notin> set seen")
    case False
    with 2 show ?thesis by (auto simp: usable_bucket_def BUCKETS_PER_WEEK_def)
  next
    case True
    let ?seen = "ub_index b # seen"
    have seen: "distinct ?seen" "set ?seen \<subseteq> {0..<168}" "length ?seen = Suc kept"
      using True 2 by (auto simp: usable_bucket_def)
    have filter: "filter (\<lambda>x. ub_index x \<noteq> ub_index b) (filter (\<lambda>b. usable_bucket b \<and> ub_index b \<notin> set seen) rest) =
        filter (\<lambda>x. usable_bucket x \<and> ub_index x \<notin> set ?seen) rest"
      by (auto simp: intro: filter_cong)
    show ?thesis
    proof (cases "168 \<le> Suc kept")
      case full: True
      have "set ?seen = {0..<168}"
      proof (rule card_subset_eq [OF _ seen(2)])
        show "card (set ?seen) = card {0::int..<168}"
          using seen(1,3) full \<open>kept < 168\<close> by (simp add: distinct_card)
      qed simp
      then have "filter (\<lambda>x. usable_bucket x \<and> ub_index x \<notin> set ?seen) rest = []"
        by (auto simp: filter_empty_conv usable_bucket_def)
      with True full filter 2 show ?thesis by (auto simp: usable_bucket_def BUCKETS_PER_WEEK_def)
    next
      case False
      with True 2 seen filter show ?thesis by (auto simp: usable_bucket_def BUCKETS_PER_WEEK_def)
    qed
  qed
qed simp

lemma sanitize_buckets_week: "sanitize_profile_buckets bs = map clean_bucket (week_of bs)"
  using scan_buckets_week [of "[]" 0 "take 504 bs"]
  by (simp add: sanitize_profile_buckets_def week_of_def BUCKETS_PER_WEEK_def)

lemma first_of_hours_set: "set (first_of_hours bs) \<subseteq> set bs"
  by (induction bs rule: first_of_hours.induct) auto

lemma first_of_hours_distinct: "distinct (map ub_index (first_of_hours bs))"
  by (induction bs rule: first_of_hours.induct) (use first_of_hours_set in fastforce)+

lemma week_of_usable: "b \<in> set (week_of bs) \<Longrightarrow> usable_bucket b"
  using first_of_hours_set by (fastforce simp: week_of_def)

lemma week_of_length: "length (week_of bs) \<le> 168"
proof -
  have "length (week_of bs) = card (ub_index ` set (week_of bs))"
    using first_of_hours_distinct distinct_card [of "map ub_index (week_of bs)"] by (simp add: week_of_def)
  also have "\<dots> \<le> card {0::int..<168}"
    by (rule card_mono) (use week_of_usable in \<open>auto simp: usable_bucket_def\<close>)
  finally show ?thesis by simp
qed

lemma read_clean_bucket: "read_bucket C (clean_bucket b) (ub_n b) = Inr (ranged_bucket b)"
  by (simp add: read_bucket_def clean_bucket_def ranged_bucket_def get_or_def dict_get_def finite_float_def
      bucket_gpu_count_def Let_def clamp_pct_ranged)

lemma clean_bucket_count: "0 < ub_n b \<Longrightarrow> bucket_count C (clean_bucket b) = Some (ub_n b)"
  by (simp add: bucket_count_def get_int_def get_or_def dict_get_def clean_bucket_def Let_def)

lemma read_clean_buckets:
  "(\<And>b. b \<in> set bs \<Longrightarrow> 0 < ub_n b) \<Longrightarrow>
   read_buckets C (map (\<lambda>b. JObj (clean_bucket b)) bs) = Inr (map ranged_bucket bs)"
  by (induction bs) (simp_all add: clean_bucket_count read_clean_bucket)

lemma normalize_week:
  "normalize_buckets C (JList (map JObj (sanitize_profile_buckets bs))) = Inr (map ranged_bucket (week_of bs))"
  using week_of_length [of bs] week_of_usable read_clean_buckets [of "week_of bs" C]
  by (simp add: normalize_buckets_def BUCKETS_PER_WEEK_def sanitize_buckets_week usable_bucket_def comp_def)

lemma ranged_bucket_ok: "0 < ub_n b \<Longrightarrow> bucket_ok (ranged_bucket b)"
  by (simp add: bucket_ok_def ranged_bucket_def clamp_pct_ranged [symmetric])

lemma legacy_profile_stores:
  assumes "cls \<in> set MeasurementDeviceClass" "pr_buckets r \<noteq> []" "pr_device_class r = cls"
  shows "\<exists>c. sanitize_profile_report C r = Inr c \<and> profile_ok c \<and> stores_week r c"
proof -
  let ?bs = "map ranged_bucket (week_of (pr_buckets r))"
  let ?s = "summarize_profile DEFAULT_MARGIN_PCT DEFAULT_HARVEST_LOW DEFAULT_HARVEST_HIGH None ?bs"
  have bs: "list_all bucket_ok ?bs" "length ?bs \<le> 168"
    using week_of_usable week_of_length [of "pr_buckets r"]
    by (auto simp: list_all_iff usable_bucket_def intro!: ranged_bucket_ok)
  have ok: "summary_ok ?s"
    using bs harvest_bounds by (intro summarize_profile_ok) (auto simp: DEFAULT_MARGIN_PCT_def)
  have cov: "su_coverage ?s = length (week_of (pr_buckets r))" by (simp add: summarize_profile_def Let_def)
  have room: "0 < su_coverage ?s \<Longrightarrow> su_ram_headroom ?s = max 0 (fsub 100 (su_ram_avg ?s))"
    by (cases "?bs = []") (simp_all add: summarize_profile_def Let_def)
  have none: "sanitize_availability no_availability =
      \<lparr>pa_span_hours = 0, pa_observed_hours_per_day = 0, pa_unavailable_hours_per_day = 0, pa_sample_count = 0\<rparr>"
    by (simp add: sanitize_availability_def no_availability_def clamp_nonnegative_ranged Let_def fadd_def)
  let ?c = "\<lparr>cp_device_class = cls, cp_coverage_buckets = int (su_coverage ?s),
      cp_cpu = sanitize_metric (summary_metric (su_cpu ?s)), cp_gpu = sanitize_metric (summary_metric (su_gpu ?s)),
      cp_gpu_sampled = su_gpu_sampled ?s, cp_ram_avg = clamp_pct (Fin (su_ram_avg ?s)),
      cp_ram_headroom = clamp_pct (Fin (su_ram_headroom ?s)), cp_ac_avg = clamp_pct (Fin (su_ac_avg ?s)),
      cp_availability = sanitize_availability no_availability\<rparr>"
  have c: "sanitize_profile_report C r = Inr ?c"
    using assms(2,3) normalize_week [of C "pr_buckets r"]
    by (simp add: sanitize_profile_report_def compact_from_legacy_buckets_def Let_def)
  have "profile_ok ?c" using ok cov bs(2) room assms(1) sanitize_availability_ok sanitize_metric_ok
    by (auto simp: profile_ok_def summary_ok_def clamp_pct_Fin)
  moreover have "stores_week r ?c" using ok cov assms(3) sanitize_metric_stores none
    by (auto simp: stores_week_def summary_ok_def clamp_pct_Fin Let_def)
  ultimately show ?thesis using c by blast
qed

lemma sanitize_profile_report_ok:
  assumes "valid_report r"
  shows "\<exists>c. sanitize_profile_report C r = Inr c \<and> profile_ok c"
proof (cases "pr_buckets r = []")
  case False
  then show ?thesis using legacy_profile_stores [OF _ _ refl, of r C] assms by (auto simp: valid_report_def)
next
  case True
  have "pct (max 0 (fsub 100 (clamp_pct (pr_ram_avg r))))" by (intro pct_spare) simp
  then show ?thesis using True assms sanitize_metric_ok sanitize_availability_ok
    by (auto simp: sanitize_profile_report_def valid_report_def profile_ok_def Let_def BUCKETS_PER_WEEK_def)
qed

text \<open>A stored row reads back as it was written.\<close>

lemma timing_reads_back:
  assumes "hours (pa_observed_hours_per_day a)" "hours (pa_unavailable_hours_per_day a)" "0 \<le> pa_span_hours a"
    "pa_span_hours a \<le> 9600" "0 \<le> pa_sample_count a" "pa_sample_count a \<le> 10000000"
    "pa_span_hours a = 0 \<longrightarrow> pa_observed_hours_per_day a = 0 \<and> pa_unavailable_hours_per_day a = 0 \<and> pa_sample_count a = 0"
  shows "pa_span_hours (sanitize_availability (stored_availability a)) = pa_span_hours a"
    "pa_sample_count (sanitize_availability (stored_availability a)) = pa_sample_count a"
    "fadd (pa_observed_hours_per_day a) (pa_unavailable_hours_per_day a) \<le> 24 \<Longrightarrow>
       sanitize_availability (stored_availability a) = a"
  using assms
  by (cases a; auto simp: sanitize_availability_def stored_availability_def clamp_nonnegative_ranged Let_def hours_def)+

lemma stores_timing_idle:
  "stores_timing i a \<Longrightarrow>
     pa_span_hours a = 0 \<longrightarrow> pa_observed_hours_per_day a = 0 \<and> pa_unavailable_hours_per_day a = 0 \<and> pa_sample_count a = 0"
  by (simp add: stores_timing_def)

lemma decode_stored:
  assumes "profile_ok c" "pa_span_hours (cp_availability c) = 0 \<longrightarrow> pa_observed_hours_per_day (cp_availability c) = 0 \<and>
      pa_unavailable_hours_per_day (cp_availability c) = 0 \<and> pa_sample_count (cp_availability c) = 0"
  shows "reads_back c (decode_stored_profile c)"
proof -
  have "clamp_nonnegative (Fin (of_int (cp_coverage_buckets c))) 168 = of_int (cp_coverage_buckets c)"
    using assms of_int_le_iff [of "cp_coverage_buckets c" 168, where 'a = rat]
    by (simp add: clamp_nonnegative_def clamp_Fin is_nan_def profile_ok_def)
  then have "decode_stored_profile c = c\<lparr>cp_ram_headroom := fsub 100 (cp_ram_avg c),
      cp_availability := sanitize_availability (stored_availability (cp_availability c))\<rparr>"
    using assms(1) fsub_100_nonneg [of "cp_ram_avg c"]
    by (intro compact_profile.equality)
       (simp_all add: decode_stored_profile_def profile_ok_def Let_def sanitize_stored_metric clamp_pct_Fin
        py_int_def BUCKETS_PER_WEEK_def)
  moreover have "hours (pa_observed_hours_per_day (cp_availability c))" "hours (pa_unavailable_hours_per_day (cp_availability c))"
    "0 \<le> pa_span_hours (cp_availability c)" "pa_span_hours (cp_availability c) \<le> 9600"
    "0 \<le> pa_sample_count (cp_availability c)" "pa_sample_count (cp_availability c) \<le> 10000000"
    using assms(1) by (simp_all add: profile_ok_def)
  note timing_reads_back [OF this assms(2)]
  ultimately show ?thesis unfolding reads_back_def
    by (metis compact_profile.select_convs(9) compact_profile.surjective compact_profile.update_convs(7,9))
qed

lemma reads_back_exact:
  assumes "reads_back c d" "cp_ram_headroom c = fsub 100 (cp_ram_avg c)"
  shows "cp_ram_headroom d = cp_ram_headroom c"
    "fadd (pa_observed_hours_per_day (cp_availability c)) (pa_unavailable_hours_per_day (cp_availability c)) \<le> 24 \<Longrightarrow> d = c"
proof -
  have d: "d = c\<lparr>cp_ram_headroom := fsub 100 (cp_ram_avg c), cp_availability := cp_availability d\<rparr>"
    using assms(1) by (simp add: reads_back_def)
  from d have "cp_ram_headroom d = fsub 100 (cp_ram_avg c)"
    by (metis compact_profile.select_convs(7) compact_profile.surjective compact_profile.update_convs(7,9))
  with assms(2) show "cp_ram_headroom d = cp_ram_headroom c" by simp
  assume "fadd (pa_observed_hours_per_day (cp_availability c)) (pa_unavailable_hours_per_day (cp_availability c)) \<le> 24"
  then have "cp_availability d = cp_availability c" using assms(1) by (simp add: reads_back_def)
  with d have "d = c\<lparr>cp_ram_headroom := cp_ram_headroom c, cp_availability := cp_availability c\<rparr>" by (simp add: assms(2))
  then show "d = c" by simp
qed

lemma sum_count_class: "sum_list (map snd (count_class cs k)) = Suc (sum_list (map snd cs))"
  by (induction cs k rule: count_class.induct) auto

lemma sum_device_classes:
  "sum_list (map snd (fold (\<lambda>p cs. count_class cs (cp_device_class p)) ps cs)) = length ps + sum_list (map snd cs)"
  by (induction ps arbitrary: cs) (auto simp: sum_count_class)

lemma decode_profile_ok: "profile_ok (decode_stored_profile c)"
proof -
  have "pct (max 0 (fsub 100 (clamp_pct (Fin (cp_ram_avg c)))))" by (intro pct_spare) simp
  moreover have "''unknown'' \<in> set MeasurementDeviceClass" by (simp add: MeasurementDeviceClass_def)
  ultimately show ?thesis using sanitize_metric_ok sanitize_availability_ok
    by (auto simp: decode_stored_profile_def profile_ok_def Let_def BUCKETS_PER_WEEK_def)
qed

lemma ingest_profile_Inr:
  assumes "ingest_profile P C cf clk fp r a s = (s', Inr resp)"
  obtains worker c where "valid_report r" "find_worker (pr_worker_id r) s = Some worker" "presents a (wk_token worker)"
    "device_bound cf worker (verified_client_fingerprint fp)" "wk_approved worker" "sanitize_profile_report C r = Inr c"
    "s' = upsert_profile \<lparr>pf_worker_id = pr_worker_id r, pf_profile = c, pf_coverage = cp_coverage_buckets c,
              pf_updated_at = clk 1\<rparr> s"
    "resp = \<lparr>po_accepted = True, po_coverage_buckets = cp_coverage_buckets c, po_buckets_stored = 0\<rparr>"
proof -
  from assms obtain t worker where tok: "require_worker_token P cf (clk 0) (pr_worker_id r) a (verified_client_fingerprint fp) s = (t, Inr worker)"
    and valid: "valid_report r" "wk_approved worker"
    and rest: "(case sanitize_profile_report C r of Inl _ \<Rightarrow> (t, Inl (Uncaught ''OverflowError''))
        | Inr c \<Rightarrow> (upsert_profile \<lparr>pf_worker_id = pr_worker_id r, pf_profile = c, pf_coverage = cp_coverage_buckets c,
                    pf_updated_at = clk 1\<rparr> t,
              Inr \<lparr>po_accepted = True, po_coverage_buckets = cp_coverage_buckets c, po_buckets_stored = 0\<rparr>)) = (s', Inr resp)"
    by (auto simp: ingest_profile_def and_then_Inr split: if_splits)
  from require_worker_token_sound [OF tok] valid rest that show ?thesis by (cases "sanitize_profile_report C r") auto
qed

lemma ingest_profile_Inl: "ingest_profile P C cf clk fp r a s = (s', Inl e) \<Longrightarrow> only_audited s s'"
  by (cases "sanitize_profile_report C r")
     (auto simp: ingest_profile_def and_then_Inl split: if_splits
      dest: require_worker_token_audited require_worker_token_sound(1))

section \<open>The properties\<close>

text \<open>C23.
  Whatever floats a profile report carries (infinite and NaN included) and whichever of the two formats
  it uses, the orchestrator accepts it without an exception and stores exactly the report cut to the
  documented ranges. In the compact format every percentage, the coverage (0..168), the timing totals
  (span up to 9600 hours, hours per day up to 24, scaled together when they exceed a day, up to ten
  million samples, none of them without a span) and the GPU flag are those sent; in the older format the
  row is the summary of the first usable bucket of every hour of the week, with no timing. The row is in
  range: average \<open>\<le>\<close> peak, low \<open>\<le>\<close> high, a known device class. It reads back as stored, but for the
  memory headroom, computed again from the memory average (it differs only for a row without
  coverage), and for hours whose sum exceeds 24 by rounding, which are scaled again.
\<close>
theorem posted_profiles_are_clean:
  assumes "valid_report r"
  shows "\<exists>c. sanitize_profile_report C r = Inr c \<and> profile_ok c \<and>
    (if pr_buckets r = [] then stores_compact r c else stores_week r c) \<and>
    profile_ok (decode_stored_profile c) \<and> reads_back c (decode_stored_profile c) \<and>
    (0 < cp_coverage_buckets c \<longrightarrow> cp_ram_headroom (decode_stored_profile c) = cp_ram_headroom c)"
proof -
  obtain c where c: "sanitize_profile_report C r = Inr c" "profile_ok c"
    "if pr_buckets r = [] then stores_compact r c else stores_week r c"
    using sanitize_profile_report_ok [OF assms, of C] legacy_profile_stores [OF _ _ refl, of r C] assms compact_stores [of r C]
    by (cases "pr_buckets r = []") (auto simp: valid_report_def)
  from c(3) have "pa_span_hours (cp_availability c) = 0 \<longrightarrow> pa_observed_hours_per_day (cp_availability c) = 0 \<and>
      pa_unavailable_hours_per_day (cp_availability c) = 0 \<and> pa_sample_count (cp_availability c) = 0"
    by (auto simp: stores_compact_def stores_week_def Let_def dest: stores_timing_idle split: if_splits)
  with c(2) have rb: "reads_back c (decode_stored_profile c)" by (rule decode_stored)
  have "cp_ram_headroom (decode_stored_profile c) = cp_ram_headroom c" if "0 < cp_coverage_buckets c"
    using reads_back_exact(1) [OF rb] that c(2) fsub_100_nonneg [of "cp_ram_avg c"] by (simp add: profile_ok_def)
  then show ?thesis using c rb decode_profile_ok [of c] by (intro exI [of _ c]) simp
qed

lemma posted_profiles_are_clean_witness:
  "let m = \<lparr>mi_avg = NaN, mi_peak = PosInf, mi_recoverable_low = Fin 70, mi_recoverable_high = NegInf\<rparr>;
       r = \<lparr>pr_worker_id = ''w'', pr_device_class = ''laptop'', pr_coverage_buckets = 1000, pr_cpu = m, pr_gpu = m,
            pr_gpu_sampled = True, pr_ram_avg = PosInf, pr_ram_headroom = NaN, pr_ac_avg = Fin (- 3),
            pr_availability = \<lparr>ai_span_hours = PosInf, ai_observed_hours_per_day = PosInf,
              ai_unavailable_hours_per_day = PosInf, ai_sample_count = -1\<rparr>, pr_buckets = []\<rparr>
   in \<exists>c. sanitize_profile_report demo_conv r = Inr c \<and> profile_ok c \<and> cp_gpu_sampled c \<and> cp_coverage_buckets c = 168 \<and>
     cp_ram_avg c = 100 \<and> cp_ac_avg c = 0 \<and> pa_sample_count (cp_availability c) = 0"
  using posted_profiles_are_clean [of "\<lparr>pr_worker_id = ''w'', pr_device_class = ''laptop'', pr_coverage_buckets = 1000,
      pr_cpu = \<lparr>mi_avg = NaN, mi_peak = PosInf, mi_recoverable_low = Fin 70, mi_recoverable_high = NegInf\<rparr>,
      pr_gpu = \<lparr>mi_avg = NaN, mi_peak = PosInf, mi_recoverable_low = Fin 70, mi_recoverable_high = NegInf\<rparr>,
      pr_gpu_sampled = True, pr_ram_avg = PosInf, pr_ram_headroom = NaN, pr_ac_avg = Fin (- 3),
      pr_availability = \<lparr>ai_span_hours = PosInf, ai_observed_hours_per_day = PosInf,
        ai_unavailable_hours_per_day = PosInf, ai_sample_count = -1\<rparr>, pr_buckets = []\<rparr>" demo_conv]
  by (auto simp: valid_report_def MeasurementDeviceClass_def Let_def stores_compact_def stores_timing_def)

end
