(* ===== verification/Handlers.thy ===== *)
theory Handlers imports Fleet Launch Profiles begin

text \<open>
  Every endpoint that writes is a sequence of fleet steps, whatever its request and outcome. So a
  property of reachable states holds between and during requests, and any endpoint called in a
  reachable state leaves a reachable one. The locale \<open>stepping\<close> is what the composition rules need
  of the step relation; it is interpreted on \<open>fleet_step\<close>.
\<close>

locale stepping =
  fixes steps :: "db \<Rightarrow> db \<Rightarrow> bool"
  assumes steps_refl: "steps s s"
    and steps_trans: "steps s t \<Longrightarrow> steps t u \<Longrightarrow> steps s u"
begin

definition runs :: "'a handler \<Rightarrow> bool" where
  "runs h \<longleftrightarrow> (\<forall>s. steps s (fst (h s)))"

lemma runsI: "(\<And>s s' r. h s = (s', r) \<Longrightarrow> steps s s') \<Longrightarrow> runs h"
  unfolding runs_def by (metis prod.collapse)

lemma runsD: "runs h \<Longrightarrow> h s = (s', r) \<Longrightarrow> steps s s'"
  unfolding runs_def by (metis fst_conv)

lemma runs_and_then: "runs h \<Longrightarrow> (\<And>x. runs (k x)) \<Longrightarrow> runs (and_then h k)"
proof (rule runsI)
  fix s s' r
  assume h: "runs h" and k: "\<And>x. runs (k x)" and e: "and_then h k s = (s', r)"
  obtain t x where t: "h s = (t, x)" by fastforce
  have st: "steps s t" using h t by (rule runsD)
  show "steps s s'"
  proof (cases x)
    case (Inl err)
    with e t st show ?thesis by (simp add: and_then_def)
  next
    case (Inr y)
    with e t have "k y t = (s', r)" by (simp add: and_then_def)
    with k [of y] have "steps t s'" by (rule runsD)
    with st show ?thesis by (rule steps_trans)
  qed
qed

lemma runs_if: "(b \<Longrightarrow> runs h) \<Longrightarrow> (\<not> b \<Longrightarrow> runs k) \<Longrightarrow> runs (\<lambda>s. if b then h s else k s)"
  by (auto simp: runs_def)

lemma runs_stay: "runs (\<lambda>s. (s, r))"
  by (simp add: runs_def steps_refl)

end

definition fleet_steps :: "primitives \<Rightarrow> db \<Rightarrow> db \<Rightarrow> bool" where
  "fleet_steps P = (fleet_step P)\<^sup>*\<^sup>*"

interpretation fl: stepping "fleet_steps P" for P
  by unfold_locales (auto simp: fleet_steps_def)

lemma fleet_steps_once: "fleet_step P s s' \<Longrightarrow> fleet_steps P s s'"
  by (simp add: fleet_steps_def step_once)

lemma fleet_steps_emit: "fleet_steps P s s' \<Longrightarrow> fleet_steps P s (emit P now t w j d s')"
  by (simp add: fleet_steps_def steps_emit)

lemma fleet_steps_then: "fleet_steps P s t \<Longrightarrow> fleet_step P t u \<Longrightarrow> fleet_steps P s u"
  by (auto simp: fleet_steps_def)

lemma fleet_steps_refl [simp, intro]: "fleet_steps P s s"
  by (rule fl.steps_refl)

lemma fleet_steps_audited: "audited_once P s s' \<Longrightarrow> fleet_steps P s s'"
  by (simp add: fleet_steps_def audited_once_steps)

section \<open>The gates\<close>

lemma runs_gates:
  "fl.runs P (require_submit_token P cf now a)"
  "fl.runs P (require_admin_token P cf now a)"
  "fl.runs P (authenticate_foundry_tenant P cf now tid a)"
  "fl.runs P (require_worker_token P cf now w a fp)"
  by (rule fl.runsI, rule fleet_steps_audited,
      erule submit_token_once admin_token_once foundry_once worker_token_once)+

section \<open>The endpoints\<close>

lemma runs_enqueue:
  assumes "valid_submit req"
  shows "fl.runs P (enqueue P req pv jid clk t d)"
proof (rule fl.runsI)
  fix s s' r
  assume e: "enqueue P req pv jid clk t d s = (s', r)"
  obtain u x where sub: "submit_job P req None pv jid (clk 1) (clk 2) s = (u, x)" by fastforce
  have "fleet_steps P s u" using assms sub by (intro fleet_steps_once fleet_step.Enqueue)
  with e sub show "fleet_steps P s s'"
    by (auto simp: enqueue_def intro: fleet_steps_emit split: sum.splits)
qed

lemma runs_submit: "fl.runs P (submit P cf clk jid req a)"
  unfolding submit_def
  by (intro fl.runs_if fl.runs_stay fl.runs_and_then runs_gates runs_enqueue) simp

lemma runs_foundry_route: "fl.runs P (foundry_route P cf clk jid req a)"
proof -
  have "fl.runs P (foundry_policy P clk req t)" for t
    by (rule fl.runsI) (auto simp: foundry_policy_def intro: fleet_steps_emit split: if_splits)
  moreover have "valid_foundry req \<Longrightarrow> valid_submit (foundry_submit_request req)"
    by (simp add: valid_foundry_def valid_submit_def foundry_submit_request_def)
  ultimately show ?thesis
    unfolding foundry_route_def
    by (intro fl.runs_if fl.runs_stay fl.runs_and_then runs_gates runs_enqueue) auto
qed

lemma runs_admin:
  "fl.runs P (approve P cf clk w a)"
  "fl.runs P (set_tier P cf clk w t a)"
  "fl.runs P (disconnect_worker P cf clk w a)"
proof -
  have w: "fl.runs P (worker_or_404 w)"
    by (rule fl.runsI) (auto dest: worker_or_404_Inl simp: worker_or_404_def split: option.splits)
  have "fl.runs P (\<lambda>s. (emit P now ty x y z (approve_section w s), Inr ()))" for now ty x y z
    by (rule fl.runsI) (auto intro: fleet_steps_emit fleet_steps_once fleet_step.Approve)
  then show "fl.runs P (approve P cf clk w a)"
    unfolding approve_def by (intro fl.runs_and_then runs_gates w) auto
  have "is_valid_tier t \<Longrightarrow>
      fl.runs P (\<lambda>s. (emit P now ty x y z (tier_section w t s), Inr ()))" for now ty x y z
    by (rule fl.runsI) (auto intro: fleet_steps_emit fleet_steps_once fleet_step.Tier)
  then show "fl.runs P (set_tier P cf clk w t a)"
    unfolding set_tier_def by (intro fl.runs_and_then fl.runs_if fl.runs_stay runs_gates w) auto
  have "fl.runs P (\<lambda>s. (emit P now ty x y z (disconnect_section w d s), Inr ()))" for now ty x y z d
    by (rule fl.runsI) (auto intro: fleet_steps_emit fleet_steps_once fleet_step.Disconnect)
  then show "fl.runs P (disconnect_worker P cf clk w a)"
    unfolding disconnect_worker_def by (intro fl.runs_and_then runs_gates w) auto
qed

lemma fleet_steps_attest: "fleet_steps P s (attest P cf cap now t s)"
proof (cases "cf_attestation_pubkey cf")
  case (Some key)
  show ?thesis
  proof (cases "cap_attestation cap")
    case (Some att)
    obtain s' b where sec: "derive_section (cap_worker_id cap) (derive_tier att) s = (s', b)" by fastforce
    then have "fleet_steps P s s'" by (intro fleet_steps_once fleet_step.Derive)
    with sec Some \<open>cf_attestation_pubkey cf = Some key\<close> show ?thesis
      by (auto simp: attest_def Let_def intro: fleet_steps_emit)
  qed (simp add: attest_def split: option.split)
qed (simp add: attest_def)

lemma runs_register: "fl.runs P (register P cf clk token code sfp cap)"
proof (rule fl.runsI)
  fix s s' r
  assume e: "register P cf clk token code sfp cap s = (s', r)"
  let ?cap = "measured_capability cap" and ?fp = "verified_client_fingerprint sfp"
  let ?a = "\<lparr>ra_cap = ?cap, ra_token = token, ra_weight = class_weight_for ?cap,
     ra_approved = \<not> cf_require_approval cf,
     ra_device_code = (if \<not> cf_require_approval cf then None else Some (make_device_code code)),
     ra_now = clk 0, ra_cert_fingerprint = (if cf_bind_device_identity cf then ?fp else None)\<rparr>"
  obtain s1 x where sec: "register_section (cf_bind_device_identity cf) ?a s = (s1, x)" by fastforce
  have st: "fleet_steps P s s1"
    by (rule fleet_steps_once, rule fleet_step.Register [OF _ sec]) (simp add: register_args_ok_def)
  show "fleet_steps P s s'"
  proof (cases "cf_bind_device_identity cf \<and> (?fp = None \<or> ?fp = Some [])")
    case True
    with e show ?thesis by (simp add: register_def Let_def)
  next
    case False
    show ?thesis
    proof (cases x)
      case (Inl err)
      with e sec st False show ?thesis unfolding register_def Let_def by auto
    next
      case (Inr y)
      obtain ap code' where y: "y = (ap, code')" by fastforce
      have "s' = attest P cf ?cap (clk 2) (clk 3) (emit P (clk 1) ''registered'' (Some (cap_worker_id ?cap)) None
          (Some (if cap_has_gpu ?cap then ''gpu'' else ''cpu'')) s1)"
        using e sec False Inr y unfolding register_def Let_def by auto
      then show ?thesis using fl.steps_trans fleet_steps_emit [OF st] fleet_steps_attest by blast
    qed
  qed
qed

lemma runs_jobs_next: "fl.runs P (jobs_next P mb cf clk w sfp a)"
proof -
  have "fl.runs P (\<lambda>s. if wk_blacklisted worker then (s, Inr None)
      else if \<not> wk_approved worker then (s, Inr None)
      else let s1 = reap_expired (clk 1) (clk 2) s; cap = wk_capability worker
        in if cap_measurement_only cap then (s1, Inr None)
           else case lease_section w cap (wk_free_ram_gb worker) (clk 3) (clk 4) (clk 5) s1 of
               (s2, None) \<Rightarrow> (s2, Inr None)
             | (s2, Some j) \<Rightarrow> (emit P (clk 6) ''assigned'' (Some w) (Some (jb_job_id j))
                   (Some (mf_kind (jb_manifest j))) s2,
                 Inr (Some \<lparr>ja_signed_manifest = sign P mb (cf_signer cf) (jb_manifest j), ja_input = jb_input j\<rparr>)))"
    (is "fl.runs P ?k") for worker
  proof (rule fl.runsI)
    fix s s' r
    assume e: "?k s = (s', r)"
    let ?s1 = "reap_expired (clk 1) (clk 2) s"
    obtain s2 x where sec:
      "lease_section w (wk_capability worker) (wk_free_ram_gb worker) (clk 3) (clk 4) (clk 5) ?s1 = (s2, x)"
      by fastforce
    have reap: "fleet_steps P s ?s1" by (intro fleet_steps_once fleet_step.Reap)
    have lease: "fleet_steps P s s2" by (rule fleet_steps_then [OF reap fleet_step.Lease [OF sec]])
    show "fleet_steps P s s'"
      using e sec reap lease
      by (auto simp: Let_def intro: fleet_steps_emit split: if_splits option.splits)
  qed
  then show ?thesis unfolding jobs_next_def by (intro fl.runs_and_then runs_gates)
qed

lemma runs_heartbeat: "fl.runs P (heartbeat P cf clk sfp req a)"
proof -
  have "fl.runs P (\<lambda>s. (heartbeat_section req m now t s, Inr x))" for m now t and x :: heartbeat_response
    by (rule fl.runsI) (auto intro: fleet_steps_once fleet_step.Heartbeat)
  then show ?thesis unfolding heartbeat_def by (intro fl.runs_and_then runs_gates)
qed

lemma runs_results: "fl.runs P (results P cf clk jid sfp req a)"
proof -
  have "fl.runs P (results_section P req now t)" for now t
    by (rule fl.runsI) (auto intro: fleet_steps_once fleet_step.Result)
  then show ?thesis unfolding results_def
    by (intro fl.runs_if fl.runs_stay fl.runs_and_then runs_gates) auto
qed

lemma runs_launch_specs: "fl.runs P (launch_specs P clk ids kind wl i specs)"
proof (induction specs arbitrary: i)
  case Nil
  then show ?case by (auto simp: fl.runs_def)
next
  case (Cons spec specs)
  show ?case
  proof (rule fl.runsI)
    fix s s' r
    assume e: "launch_specs P clk ids kind wl i (spec # specs) s = (s', r)"
    show "fleet_steps P s s'"
    proof (cases "valid_submit (spec_request spec)")
      case False
      with e show ?thesis by simp
    next
      case True
      obtain s1 x where sub: "submit_job P (spec_request spec) (Some wl) None (ids i) (clk (3 * i + 1)) (clk (3 * i + 2)) s = (s1, x)"
        by fastforce
      have st: "fleet_steps P s s1" by (intro fleet_steps_once fleet_step.Enqueue [OF True sub])
      show ?thesis
      proof (cases x)
        case (Inl err)
        with e True sub st show ?thesis by simp
      next
        case (Inr jid)
        have "fl.runs P (and_then (launch_specs P clk ids kind wl (Suc i) specs) (\<lambda>jids s2. (s2, Inr (jid # jids))))"
          by (intro fl.runs_and_then Cons.IH fl.runs_stay)
        then show ?thesis using e True sub Inr fl.runsD fl.steps_trans [OF fleet_steps_emit [OF st]] by fastforce
      qed
    qed
  qed
qed

lemma runs_launch: "fl.runs P (launch_workload P cf clk ids wl req a)"
proof -
  have "fl.runs P (\<lambda>s. if lr_kind req \<notin> set LAUNCHABLE_KINDS then (s, Raise 400 ''kind must be one of LAUNCHABLE_KINDS'')
          else (let n_tiles = resolve_tile_count s req; weights = capability_tile_weights s n_tiles
                in case build_workload_jobs (lr_kind req) n_tiles (lr_params req) weights of
                     Inl (OtherError d) \<Rightarrow> (s, Inl (Uncaught d))
                   | Inl _ \<Rightarrow> (s, Raise 400 ''could not build workload'')
                   | Inr specs \<Rightarrow>
                       and_then (launch_specs P clk ids (lr_kind req) wl 0 specs)
                         (\<lambda>job_ids s. (s, Inr \<lparr>wl_workload_id = wl, wl_kind = lr_kind req, wl_job_ids = job_ids\<rparr>)) s))"
    (is "fl.runs P ?k")
  proof (rule fl.runsI)
    fix s s' r
    assume e: "?k s = (s', r)"
    show "fleet_steps P s s'"
    proof (cases "build_workload_jobs (lr_kind req) (resolve_tile_count s req) (lr_params req)
        (capability_tile_weights s (resolve_tile_count s req))")
      case (Inl err)
      with e show ?thesis by (cases err) (auto simp: Let_def split: if_splits)
    next
      case (Inr specs)
      have "fl.runs P (and_then (launch_specs P clk ids (lr_kind req) wl 0 specs)
              (\<lambda>job_ids s. (s, Inr \<lparr>wl_workload_id = wl, wl_kind = lr_kind req, wl_job_ids = job_ids\<rparr>)))"
        by (intro fl.runs_and_then runs_launch_specs fl.runs_stay)
      with e Inr show ?thesis by (auto simp: Let_def dest: fl.runsD split: if_splits)
    qed
  qed
  then have "fl.runs P (and_then (require_submit_token P cf (clk 0) a) (\<lambda>_. ?k))"
    by (intro fl.runs_and_then runs_gates)
  then show ?thesis unfolding launch_workload_def by (intro fl.runs_if fl.runs_stay)
qed

lemma runs_ingest_profile: "fl.runs P (ingest_profile P C cf clk fp req a)"
proof (rule fl.runsI)
  fix s s' r
  assume e: "ingest_profile P C cf clk fp req a s = (s', r)"
  show "fleet_steps P s s'"
  proof (cases r)
    case (Inr resp)
    with e show ?thesis by (auto elim!: ingest_profile_Inr intro: fleet_steps_once fleet_step.Profile)
  next
    case (Inl err)
    with e show ?thesis using fl.runsD [OF runs_gates(4)]
      by (cases "sanitize_profile_report C req")
         (fastforce simp: ingest_profile_def and_then_Inl split: if_splits)+
  qed
qed

section \<open>Closure\<close>

text \<open>One request to any endpoint that writes, with every outside choice it depends on.\<close>

datatype request =
    ReqRegister str str "str option" capability
  | ReqSubmit str submit_request "str option"
  | ReqFoundry str foundry_routing_request "str option"
  | ReqNext str "str option" "str option"
  | ReqHeartbeat "str option" heartbeat_request "str option"
  | ReqResults str "str option" result_request "str option"
  | ReqApprove str "str option"
  | ReqTier str str "str option"
  | ReqDisconnect str "str option"
  | ReqLaunch "nat \<Rightarrow> str" str launch_request "str option"
  | ReqProfile conversions "str option" profile_report "str option"

fun serve :: "primitives \<Rightarrow> manifest_bytes \<Rightarrow> config \<Rightarrow> clock \<Rightarrow> request \<Rightarrow> db \<Rightarrow> db" where
  "serve P mb cf clk (ReqRegister token code fp cap) s = fst (register P cf clk token code fp cap s)"
| "serve P mb cf clk (ReqSubmit jid req a) s = fst (submit P cf clk jid req a s)"
| "serve P mb cf clk (ReqFoundry jid req a) s = fst (foundry_route P cf clk jid req a s)"
| "serve P mb cf clk (ReqNext w fp a) s = fst (jobs_next P mb cf clk w fp a s)"
| "serve P mb cf clk (ReqHeartbeat fp req a) s = fst (heartbeat P cf clk fp req a s)"
| "serve P mb cf clk (ReqResults jid fp req a) s = fst (results P cf clk jid fp req a s)"
| "serve P mb cf clk (ReqApprove w a) s = fst (approve P cf clk w a s)"
| "serve P mb cf clk (ReqTier w t a) s = fst (set_tier P cf clk w t a s)"
| "serve P mb cf clk (ReqDisconnect w a) s = fst (disconnect_worker P cf clk w a s)"
| "serve P mb cf clk (ReqLaunch ids wl req a) s = fst (launch_workload P cf clk ids wl req a s)"
| "serve P mb cf clk (ReqProfile C fp req a) s = fst (ingest_profile P C cf clk fp req a s)"

lemmas runs_all = runs_register runs_submit runs_foundry_route runs_jobs_next runs_heartbeat
  runs_results runs_admin runs_launch runs_ingest_profile

lemma serve_steps: "fleet_steps P s (serve P mb cf clk req s)"
  using runs_all by (cases req) (simp_all add: fl.runs_def)

lemma serve_reachable: "reachable P s \<Longrightarrow> reachable P (serve P mb cf clk req s)"
  using serve_steps unfolding fleet_steps_def by (rule reachable_steps [rotated])

end
