(* ===== verification/Views.thy ===== *)
theory Views imports Handlers begin

text \<open>
  The read side of \<open>src/orchestrator/app.py\<close>: \<open>GET /state\<close>, \<open>GET /jobs/{id}\<close>, \<open>GET /workloads/{id}\<close>
  (without its merged summary) and the three event endpoints, each behind the operator-read gate.
  \<open>SUM\<close> over the ledger is the exact sum: credits are whole numbers, so SQLite's floating sum of
  them is exact below 2^53. The lemmas tie what a dashboard shows to the completed jobs.
\<close>

definition worker_credits :: "str \<Rightarrow> db \<Rightarrow> rat" where
  "worker_credits w s = sum_list (map lg_credits (select_where (\<lambda>e. lg_worker_id e = w) (db_ledger s)))"

definition view_worker :: "db \<Rightarrow> worker \<Rightarrow> worker_view" where
  "view_worker s r =
     \<lparr>wv_worker_id = wk_worker_id r, wv_idle = wk_idle r, wv_busy = worker_busy (wk_worker_id r) s,
      wv_has_gpu = cap_has_gpu (wk_capability r),
      wv_cpu_pct = (case wk_cpu_pct r of None \<Rightarrow> 0 | Some c \<Rightarrow> c), wv_gpu_pct = wk_gpu_pct r,
      wv_free_ram_gb = wk_free_ram_gb r, wv_blacklisted = wk_blacklisted r,
      wv_credits = worker_credits (wk_worker_id r) s, wv_approved = wk_approved r,
      wv_device_code = wk_device_code r,
      wv_trust_tier = (if wk_trust_tier r \<noteq> [] then wk_trust_tier r else ''untrusted'')\<rparr>"

definition view_job :: "job \<Rightarrow> job_view" where
  "view_job j = \<lparr>jv_job_id = jb_job_id j, jv_kind = jb_kind j, jv_state = jb_state j,
                 jv_assigned_worker = jb_assigned_worker j\<rparr>"

definition fleet_view :: "db \<Rightarrow> fleet_state" where
  "fleet_view s =
     \<lparr>fs_workers = map (view_worker s) (sort_key wk_registered_at (db_workers s)),
      fs_jobs = map view_job (sort_key jb_created_at (db_jobs s)),
      fs_total_credits = sum_list (map lg_credits (db_ledger s))\<rparr>"

definition state :: "primitives \<Rightarrow> config \<Rightarrow> time \<Rightarrow> str option \<Rightarrow> fleet_state handler" where
  "state P cf now authorization =
     and_then (require_operator_read_token P cf now authorization) (\<lambda>_ s. (s, Inr (fleet_view s)))"

definition job_detail_of :: "job \<Rightarrow> job_detail" where
  "job_detail_of j =
     \<lparr>jd_job_id = jb_job_id j, jd_kind = jb_kind j, jd_state = jb_state j,
      jd_assigned_worker = jb_assigned_worker j, jd_units = jb_units j,
      jd_workload_id = jb_workload_id j, jd_output = jb_result j,
      jd_created_at = jb_created_at j, jd_updated_at = jb_updated_at j\<rparr>"

definition get_job_detail :: "primitives \<Rightarrow> config \<Rightarrow> time \<Rightarrow> str \<Rightarrow> str option \<Rightarrow> job_detail handler" where
  "get_job_detail P cf now job_id authorization =
     and_then (require_operator_read_token P cf now authorization) (\<lambda>_ s.
       (s, case find_job job_id s of
             None \<Rightarrow> Raise 404 ''job not found'' | Some j \<Rightarrow> Inr (job_detail_of j)))"

record workload_view =
  wo_workload_id :: str
  wo_kind :: str
  wo_total :: nat
  wo_completed :: nat
  wo_jobs :: "job_detail list"

definition workload_rows :: "str \<Rightarrow> db \<Rightarrow> job list" where
  "workload_rows wid s = sort_key queue_key (select_where (\<lambda>j. jb_workload_id j = Some wid) (db_jobs s))"

definition workload_detail :: "primitives \<Rightarrow> config \<Rightarrow> time \<Rightarrow> str \<Rightarrow> str option \<Rightarrow> workload_view handler" where
  "workload_detail P cf now wid authorization =
     and_then (require_operator_read_token P cf now authorization) (\<lambda>_ s.
       (s, case workload_rows wid s of
             [] \<Rightarrow> Raise 404 ''workload not found''
           | row # rows \<Rightarrow> Inr
               \<lparr>wo_workload_id = wid, wo_kind = jb_kind row, wo_total = length (row # rows),
                wo_completed = length (filter (\<lambda>j. jb_state j = Completed) (row # rows)),
                wo_jobs = map job_detail_of (row # rows)\<rparr>))"

text \<open>The outputs \<open>workload_detail\<close> hands to the merge of its kind.\<close>

definition workload_outputs :: "str \<Rightarrow> db \<Rightarrow> dict list" where
  "workload_outputs wid s =
     map (the \<circ> jb_result) (filter (\<lambda>j. jb_state j = Completed \<and> jb_result j \<noteq> None) (workload_rows wid s))"

definition events :: "primitives \<Rightarrow> config \<Rightarrow> time \<Rightarrow> int \<Rightarrow> str option \<Rightarrow> (event list \<times> int) handler" where
  "events P cf now since authorization =
     and_then (require_operator_read_token P cf now authorization) (\<lambda>_ s.
       (s, if int64 since then Inr (events_since since s) else Inl (Uncaught ''OverflowError'')))"

definition events_verify :: "primitives \<Rightarrow> config \<Rightarrow> time \<Rightarrow> str option \<Rightarrow> audit_report handler" where
  "events_verify P cf now authorization =
     and_then (require_operator_read_token P cf now authorization)
       (\<lambda>_ s. (s, Inr (verify_audit_chain P s)))"

definition events_export_all :: "primitives \<Rightarrow> config \<Rightarrow> time \<Rightarrow> str option \<Rightarrow> str handler" where
  "events_export_all P cf now authorization =
     and_then (require_operator_read_token P cf now authorization)
       (\<lambda>_ s. (s, Inr (events_export P s)))"

section \<open>Credits shown are credits earned\<close>

definition earned :: "str \<Rightarrow> job list \<Rightarrow> rat" where
  "earned w js = sum_list (map job_credits
     (filter (\<lambda>j. jb_state j = Completed \<and> jb_assigned_worker j = Some w) js))"

lemma sum_list_by_key:
  assumes "distinct (map k xs)" "\<And>x. x \<in> set xs \<Longrightarrow> f x = c (k x)"
  shows "sum_list (map f xs) = (\<Sum>i \<in> k ` set xs. c i)"
proof -
  have "sum_list (map f xs) = sum f (set xs)"
    using assms(1) by (simp add: sum_list_distinct_conv_sum_set distinct_map)
  also have "\<dots> = sum (c \<circ> k) (set xs)" using assms(2) by (intro sum.cong) auto
  also have "\<dots> = sum c (k ` set xs)" using assms(1) by (simp add: sum.reindex distinct_map)
  finally show ?thesis .
qed

lemma ledger_sum:
  assumes "jobs_wf js" "ledger_ok js L n" "\<And>j e. job_wf j \<Longrightarrow> jb_assigned_worker j = Some (lg_worker_id e) \<Longrightarrow> Q j = R e"
  shows "sum_list (map lg_credits (filter R L)) =
         sum_list (map job_credits (filter (\<lambda>j. jb_state j = Completed \<and> Q j) js))"
proof -
  define c where "c i = job_credits (the (jt.lookup (the i) js))" for i
  let ?E = "filter R L" and ?J = "filter (\<lambda>j. jb_state j = Completed \<and> Q j) js"
  have look: "jt.lookup (jb_job_id j) js = Some j" if "j \<in> set js" for j
    using that assms(1) by (simp add: jobs_wf_def jt.lookup_unique)
  have entry: "\<exists>j \<in> set js. jb_state j = Completed \<and> lg_job_id e = Some (jb_job_id j) \<and>
      lg_credits e = job_credits j \<and> Q j = R e" if "e \<in> set L" for e
    using that assms by (fastforce simp: ledger_ok_def pays_def jobs_wf_def)
  have "sum_list (map lg_credits ?E) = (\<Sum>i \<in> lg_job_id ` set ?E. c i)"
  proof (rule sum_list_by_key)
    show "distinct (map lg_job_id ?E)" using assms(2) by (simp add: ledger_ok_def distinct_map_filter)
  next
    fix e assume "e \<in> set ?E"
    then show "lg_credits e = c (lg_job_id e)" using entry [of e] look by (auto simp: c_def)
  qed
  moreover have "sum_list (map job_credits ?J) = (\<Sum>i \<in> (Some \<circ> jb_job_id) ` set ?J. c i)"
  proof (rule sum_list_by_key)
    have "distinct (map jb_job_id ?J)"
      using assms(1) by (simp add: jobs_wf_def jt.unique_keys_def distinct_map_filter)
    then show "distinct (map (Some \<circ> jb_job_id) ?J)" by (auto simp: distinct_map inj_on_def)
  qed (use look in \<open>auto simp: c_def\<close>)
  moreover have "lg_job_id ` set ?E = (Some \<circ> jb_job_id) ` set ?J"
  proof (intro equalityI subsetI)
    fix i assume "i \<in> lg_job_id ` set ?E"
    then show "i \<in> (Some \<circ> jb_job_id) ` set ?J" using entry by force
  next
    fix i assume "i \<in> (Some \<circ> jb_job_id) ` set ?J"
    then obtain j where j: "j \<in> set js" "jb_state j = Completed" "Q j" "i = Some (jb_job_id j)" by auto
    then obtain e where e: "e \<in> set L" "lg_job_id e = i" using assms(2) by (auto simp: ledger_ok_def)
    obtain j' where "j' \<in> set js" "lg_job_id e = Some (jb_job_id j')" "Q j' = R e" using entry [OF e(1)] by blast
    moreover from this have "j' = j" using look j e by (metis option.inject)
    ultimately show "i \<in> lg_job_id ` set ?E" using e j by (intro image_eqI [of _ _ e]) auto
  qed
  ultimately show ?thesis by simp
qed

lemma worker_credits_earned:
  assumes "job_part s"
  shows "worker_credits w s = earned w (db_jobs s)"
  unfolding worker_credits_def earned_def select_where_def
  using assms by (intro ledger_sum) (auto simp: job_part_def)

lemma total_credits_earned:
  assumes "job_part s"
  shows "fs_total_credits (fleet_view s) =
    sum_list (map job_credits (filter (\<lambda>j. jb_state j = Completed) (db_jobs s)))"
  using ledger_sum [of "db_jobs s" "db_ledger s" "db_ledger_seq s" "\<lambda>_. True" "\<lambda>_. True"] assms
  by (simp add: fleet_view_def job_part_def)

lemma workload_detail_completed:
  assumes "job_part s"
  shows "length (workload_outputs wid s) = length (filter (\<lambda>j. jb_state j = Completed) (workload_rows wid s))"
proof -
  have "jb_result j \<noteq> None" if "j \<in> set (workload_rows wid s)" "jb_state j = Completed" for j
    using that assms by (auto simp: workload_rows_def job_part_def jobs_wf_def job_wf_def)
  then have "filter (\<lambda>j. jb_state j = Completed \<and> jb_result j \<noteq> None) (workload_rows wid s)
    = filter (\<lambda>j. jb_state j = Completed) (workload_rows wid s)" by (intro filter_cong) auto
  then show ?thesis by (simp add: workload_outputs_def)
qed

end
