(* ===== verification/Standing.thy ===== *)
theory Standing imports Views begin

text \<open>
  What one request can do to a worker's standing: its trust tier, its approval, its ban. The locale
  \<open>kept_relation\<close> is the contract the operations share: a relation between the old and the new row of
  a worker that survives statements which respect it; it is interpreted on \<open>same_standing\<close>.
\<close>

definition same_standing :: "worker \<Rightarrow> worker \<Rightarrow> bool" where
  "same_standing r r' \<longleftrightarrow> wk_trust_tier r' = wk_trust_tier r \<and> wk_tier_pinned r' = wk_tier_pinned r \<and>
     wk_approved r' = wk_approved r \<and> (wk_blacklisted r \<longrightarrow> wk_blacklisted r')"

locale kept_relation =
  fixes keeps :: "worker \<Rightarrow> worker \<Rightarrow> bool"
  assumes keeps_refl: "keeps r r"
    and keeps_trans: "keeps r r' \<Longrightarrow> keeps r' r'' \<Longrightarrow> keeps r r''"
begin

definition workers_keep :: "db \<Rightarrow> db \<Rightarrow> bool" where
  "workers_keep s s' \<longleftrightarrow> (\<forall>v r'. find_worker v s' = Some r' \<longrightarrow> (\<exists>r. find_worker v s = Some r \<and> keeps r r'))"

lemma workers_keep_cong: "db_workers s' = db_workers s \<Longrightarrow> workers_keep s s'"
  using find_worker_cong [of s' s] keeps_refl by (auto simp: workers_keep_def)

lemma workers_keep_trans: "workers_keep s t \<Longrightarrow> workers_keep t u \<Longrightarrow> workers_keep s u"
  unfolding workers_keep_def by (meson keeps_trans)

lemma workers_keep_update:
  assumes "db_workers s' = update_where Q f (db_workers s)" "\<And>r. wk_worker_id (f r) = wk_worker_id r"
    "\<And>r. keeps r (f r)"
  shows "workers_keep s s'"
  using assms by (auto simp: workers_keep_def find_worker_lookup wt.lookup_update keeps_refl)

lemma workers_keep_delete:
  assumes "db_workers s' = delete_where (\<lambda>r. wk_worker_id r = w) (db_workers s)"
  shows "workers_keep s s'"
proof -
  have "find_worker v s' = (if v = w then None else find_worker v s)" for v
    using assms wt.lookup_delete_other [of v w "db_workers s"]
    by (simp add: find_worker_lookup wt.lookup_delete_same)
  then show ?thesis using keeps_refl by (simp add: workers_keep_def)
qed

lemma workers_keepD: "workers_keep s s' \<Longrightarrow> find_worker v s = Some r \<Longrightarrow> find_worker v s' = Some r' \<Longrightarrow> keeps r r'"
  by (fastforce simp: workers_keep_def)

end

interpretation st: kept_relation same_standing
  by unfold_locales (auto simp: same_standing_def)

section \<open>Requests that leave every standing alone\<close>

lemma standing_audited: "only_audited s s' \<Longrightarrow> st.workers_keep s s'"
  by (rule st.workers_keep_cong) (simp add: only_audited_frame)

lemma standing_enqueue: "enqueue P req pv jid clk t d s = (s', r) \<Longrightarrow> st.workers_keep s s'"
  by (rule st.workers_keep_cong) (cases r, auto simp: enqueue_Inr dest: enqueue_Inl)

lemma standing_submit: "submit P cf clk jid req a s = (s', r) \<Longrightarrow> st.workers_keep s s'"
  by (cases r) (auto simp: submit_Inr dest: submit_Inl_audited standing_audited standing_enqueue)

lemma standing_foundry: "foundry_route P cf clk jid req a s = (s', r) \<Longrightarrow> st.workers_keep s s'"
  by (cases r) (auto simp: foundry_route_Inr dest: foundry_route_Inl_audited standing_audited standing_enqueue)

lemma standing_jobs_next:
  assumes "jobs_next P mb cf clk w sfp a s = (s', r)"
  shows "st.workers_keep s s'"
  using assms
proof (cases rule: jobs_next_cases)
  case (refused e)
  then show ?thesis by (simp add: standing_audited)
next
  case no_work
  then show ?thesis by (intro st.workers_keep_cong) auto
next
  case (assigned worker j)
  then show ?thesis
    by (intro st.workers_keep_update [where Q = "\<lambda>r. wk_worker_id r = w" and f = "\<lambda>r. r\<lparr>wk_idle := False, wk_last_heartbeat := Some (clk 5)\<rparr>"])
       (auto simp: take_lease_def same_standing_def)
qed

lemma standing_heartbeat:
  assumes "heartbeat P cf clk sfp req a s = (s', r)"
  shows "st.workers_keep s s'"
  using assms
proof (cases rule: heartbeat_cases)
  case (refused e)
  then show ?thesis by (simp add: standing_audited)
next
  case (ok worker)
  show ?thesis unfolding ok(4)
    by (rule st.workers_keep_update, rule heartbeat_section_frame) (simp_all add: same_standing_def)
qed

lemma standing_results:
  assumes "results P cf clk jid sfp req a s = (s', r)"
  shows "st.workers_keep s s'"
  using assms
proof (cases rule: results_cases)
  case (refused e)
  then show ?thesis by (simp add: standing_audited)
next
  case (banned worker)
  then show ?thesis by (simp add: st.workers_keep_cong)
next
  case (decided worker)
  from decided(6) show ?thesis
  proof (cases rule: results_section_cases)
    case (blacklisted j expected)
    then show ?thesis
      by (intro st.workers_keep_update [where Q = "\<lambda>r. wk_worker_id r = rs_worker_id req"
            and f = "wk_blacklisted_update (\<lambda>_. True)"]) (auto simp: same_standing_def)
  qed (auto simp: accept_result_def intro!: st.workers_keep_cong)
qed

lemma standing_disconnect:
  assumes "disconnect_worker P cf clk w a s = (s', r)"
  shows "st.workers_keep s s'"
proof (cases r)
  case (Inl e)
  with assms show ?thesis by (auto dest: disconnect_worker_Inl standing_audited)
next
  case (Inr u)
  with assms show ?thesis
    by (intro st.workers_keep_delete [of _ w]) (auto simp: disconnect_worker_Inr)
qed

lemma standing_launch: "launch_workload P cf clk ids wl req a s = (s', r) \<Longrightarrow> st.workers_keep s s'"
  by (rule st.workers_keep_cong) (simp add: launch_workload_frame)

lemma standing_profile:
  assumes "ingest_profile P C cf clk fp req a s = (s', r)"
  shows "st.workers_keep s s'"
proof (cases r)
  case (Inl e)
  with assms show ?thesis by (auto dest: ingest_profile_Inl standing_audited)
next
  case (Inr resp)
  with assms show ?thesis by (auto elim!: ingest_profile_Inr intro!: st.workers_keep_cong)
qed

fun quiet :: "request \<Rightarrow> bool" where
  "quiet (ReqSubmit _ _ _) = True"
| "quiet (ReqFoundry _ _ _) = True"
| "quiet (ReqNext _ _ _) = True"
| "quiet (ReqHeartbeat _ _ _) = True"
| "quiet (ReqResults _ _ _ _) = True"
| "quiet (ReqDisconnect _ _) = True"
| "quiet (ReqLaunch _ _ _ _) = True"
| "quiet (ReqProfile _ _ _ _) = True"
| "quiet _ = False"

lemma standing_quiet: "quiet req \<Longrightarrow> st.workers_keep s (serve P mb cf clk req s)"
  by (cases req)
     (auto intro: standing_submit [OF prod.collapse [symmetric]] standing_foundry [OF prod.collapse [symmetric]]
        standing_jobs_next [OF prod.collapse [symmetric]] standing_heartbeat [OF prod.collapse [symmetric]]
        standing_results [OF prod.collapse [symmetric]] standing_disconnect [OF prod.collapse [symmetric]]
        standing_launch [OF prod.collapse [symmetric]] standing_profile [OF prod.collapse [symmetric]])

section \<open>Requests that change one\<close>

lemma find_worker_approve:
  "find_worker v (approve_section w s) =
     map_option (\<lambda>r. if wk_worker_id r = w then r\<lparr>wk_approved := True, wk_device_code := None\<rparr> else r) (find_worker v s)"
  by (simp add: approve_section_def find_worker_update_worker)

lemma find_worker_tier:
  "find_worker v (tier_section w t s) =
     map_option (\<lambda>r. if wk_worker_id r = w then r\<lparr>wk_trust_tier := t, wk_tier_pinned := True\<rparr> else r) (find_worker v s)"
  by (simp add: tier_section_def find_worker_update_worker)

lemma find_worker_emit [simp]: "find_worker v (emit P now t w j d s) = find_worker v s"
  by (simp add: find_worker_def)

text \<open>What registration does to the row of any worker that already had one.\<close>

definition attested_tier :: "primitives \<Rightarrow> config \<Rightarrow> capability \<Rightarrow> time \<Rightarrow> str option" where
  "attested_tier P cf cap now =
     (case (cf_attestation_pubkey cf, cap_attestation cap) of
        (Some key, Some att) \<Rightarrow>
          if key \<noteq> [] \<and> verify_attestation P att (Some key) (cap_worker_id cap) now then Some (derive_tier att) else None
      | _ \<Rightarrow> None)"

lemma find_worker_attest:
  "find_worker v (attest P cf cap now t s) =
     (case attested_tier P cf cap now of
        None \<Rightarrow> find_worker v s
      | Some d \<Rightarrow> map_option (\<lambda>r. if wk_worker_id r = cap_worker_id cap \<and> \<not> wk_tier_pinned r
                                    then r\<lparr>wk_trust_tier := d\<rparr> else r) (find_worker v s))"
proof (cases "attested_tier P cf cap now")
  case None
  then have "attest P cf cap now t s = s"
    by (auto simp: attested_tier_def attest_def split: option.splits if_splits)
  with None show ?thesis by simp
next
  case (Some d)
  then obtain key att where ka: "cf_attestation_pubkey cf = Some key" "cap_attestation cap = Some att"
    "key \<noteq> [] \<and> verify_attestation P att (Some key) (cap_worker_id cap) now" "d = derive_tier att"
    by (auto simp: attested_tier_def split: option.splits if_splits)
  obtain s' b where sec: "derive_section (cap_worker_id cap) d s = (s', b)" by fastforce
  from ka sec have "find_worker v (attest P cf cap now t s) = find_worker v s'"
    by (simp add: attest_def Let_def)
  with Some show ?thesis by (simp add: find_worker_derive [OF sec])
qed

lemma attest_jobs: "db_jobs (attest P cf cap now t s) = db_jobs s"
  by (auto simp: attest_def Let_def derive_section_frame split: option.splits prod.splits)

lemma register_Inl:
  assumes "register P cf clk token code sfp cap s = (s', Inl e)"
  shows "s' = s"
proof -
  have sec: "register_section b a s = (t, x) \<Longrightarrow> x = Inl e' \<Longrightarrow> t = s" for b a t x e'
    by (auto dest: register_section_Inl)
  from assms show ?thesis
    by (auto simp: register_def Let_def split: if_splits prod.splits sum.splits dest: sec)
qed

lemma register_Inr:
  assumes "register P cf clk token code sfp cap s = (s', Inr resp)"
  obtains args s1 where "ra_cap args = measured_capability cap" "ra_token args = token"
    "ra_approved args = (\<not> cf_require_approval cf)"
    "ra_cert_fingerprint args = (if cf_bind_device_identity cf then verified_client_fingerprint sfp else None)"
    "check_binding (cf_bind_device_identity cf) (find_worker (cap_worker_id cap) s) (ra_cert_fingerprint args) = None"
    "s1 = emit P (clk 1) ''registered'' (Some (cap_worker_id cap)) None
       (Some (if cap_has_gpu (measured_capability cap) then ''gpu'' else ''cpu'')) (upsert_worker args s)"
    "s' = attest P cf (measured_capability cap) (clk 2) (clk 3) s1"
    "rr_worker_token resp = token"
proof -
  let ?cap = "measured_capability cap" and ?fp = "verified_client_fingerprint sfp"
  define args where "args = \<lparr>ra_cap = ?cap, ra_token = token, ra_weight = class_weight_for ?cap,
     ra_approved = \<not> cf_require_approval cf,
     ra_device_code = (if \<not> cf_require_approval cf then None else Some (make_device_code code)),
     ra_now = clk 0, ra_cert_fingerprint = (if cf_bind_device_identity cf then ?fp else None)\<rparr>"
  have id: "cap_worker_id ?cap = cap_worker_id cap"
    by (simp add: measured_capability_def default_capability_def)
  obtain s1 x where sec: "register_section (cf_bind_device_identity cf) args s = (s1, x)" by fastforce
  with assms obtain y where x: "x = Inr y" and resp:
    "s' = attest P cf ?cap (clk 2) (clk 3) (emit P (clk 1) ''registered'' (Some (cap_worker_id ?cap)) None
       (Some (if cap_has_gpu ?cap then ''gpu'' else ''cpu'')) s1)" "rr_worker_token resp = token"
    by (cases x) (auto simp: register_def Let_def args_def split: if_splits)
  from sec x have up: "s1 = upsert_worker args s"
    "check_binding (cf_bind_device_identity cf) (find_worker (cap_worker_id (ra_cap args)) s) (ra_cert_fingerprint args) = None"
    by (auto simp: register_section_Inr)
  show thesis
    by (rule that [of args]) (use up resp id in \<open>simp_all add: args_def\<close>)
qed

lemma measured_capability_id [simp]: "cap_worker_id (measured_capability cap) = cap_worker_id cap"
  by (simp add: measured_capability_def default_capability_def)

lemma register_standing:
  assumes "register P cf clk token code sfp cap s = (s', r)" "find_worker v s = Some q" "find_worker v s' = Some q'"
  shows "wk_tier_pinned q' = wk_tier_pinned q \<and> wk_blacklisted q' = wk_blacklisted q \<and>
    (wk_approved q' = wk_approved q \<or> v = cap_worker_id cap \<and> \<not> cf_require_approval cf \<and> wk_approved q') \<and>
    (wk_trust_tier q' = wk_trust_tier q \<or>
       v = cap_worker_id cap \<and> \<not> wk_tier_pinned q \<and> attested_tier P cf (measured_capability cap) (clk 2) = Some (wk_trust_tier q'))"
proof (cases r)
  case (Inl e)
  with assms show ?thesis using register_Inl by fastforce
next
  case (Inr resp)
  have id: "wk_worker_id q = v" using assms(2) by (simp add: find_worker_Some)
  from assms(1) [unfolded Inr] obtain args s1 where a: "ra_cap args = measured_capability cap"
    "ra_approved args = (\<not> cf_require_approval cf)"
    "s1 = emit P (clk 1) ''registered'' (Some (cap_worker_id cap)) None
       (Some (if cap_has_gpu (measured_capability cap) then ''gpu'' else ''cpu'')) (upsert_worker args s)"
    "s' = attest P cf (measured_capability cap) (clk 2) (clk 3) s1"
    by (rule register_Inr)
  have "find_worker v s1 = Some (if v = cap_worker_id cap then reregistered args q else q)"
    using assms(2) a by (auto simp: find_worker_upsert)
  with assms(3) a id show ?thesis
    by (auto simp: find_worker_attest split: option.splits if_splits)
qed

end
