(* ===== verification/Board.thy ===== *)
theory Board imports Standing begin

text \<open>
  The contract of the job table, without tokens, rows or SQL: a board that maps a job id to open,
  held by a worker until a deadline, or done by a worker, each with the job's worth. A \<open>move\<close> has a
  label, a guard and one outcome (\<open>board_move\<close>); \<open>may_do\<close> says which sequences of moves a request may make,
  and \<open>abs_board\<close> reads the board off the database. Every request to the orchestrator, in a reachable
  state, makes one of the sequences it may make: nobody but the holder finishes, renews or gives up a
  job, nobody finishes after the deadline, and a live lease is taken away only when its worker leaves.
\<close>

datatype slot = Open rat | Held rat str time | Done rat str

type_synonym board = "str \<rightharpoonup> slot"

datatype board_act =
    Post str rat
  | Expire time
  | Claim str str time
  | Renew str str time time
  | Lapse str str time
  | GiveUp str str
  | Finish str str time
  | Leave str

section \<open>What a move does\<close>

definition holds_on :: "board \<Rightarrow> str \<Rightarrow> bool" where
  "holds_on b w \<longleftrightarrow> (\<exists>i c d. b i = Some (Held c w d))"

fun released :: "(str \<Rightarrow> time \<Rightarrow> bool) \<Rightarrow> slot \<Rightarrow> slot" where
  "released Q (Held c w d) = (if Q w d then Open c else Held c w d)"
| "released Q x = x"

text \<open>The holder's own move on one slot: it needs the caller to hold it and the deadline to satisfy \<open>Q\<close>.\<close>

definition as_holder :: "board \<Rightarrow> str \<Rightarrow> str \<Rightarrow> (time \<Rightarrow> bool) \<Rightarrow> (rat \<Rightarrow> slot) \<Rightarrow> board option" where
  "as_holder b w i Q f =
     (case b i of
        Some (Held c w' d) \<Rightarrow> if w' = w \<and> Q d then Some (b(i \<mapsto> f c)) else None
      | _ \<Rightarrow> None)"

fun board_move :: "board_act \<Rightarrow> board \<Rightarrow> board option" where
  "board_move (Post i c) b = (if b i = None then Some (b(i \<mapsto> Open c)) else None)"
| "board_move (Expire now) b = Some (\<lambda>i. map_option (released (\<lambda>w d. d < now)) (b i))"
| "board_move (Claim w i d) b =
     (case b i of
        Some (Open c) \<Rightarrow> if holds_on b w then None else Some (b(i \<mapsto> Held c w d))
      | _ \<Rightarrow> None)"
| "board_move (Renew w i now d') b = as_holder b w i (\<lambda>d. now < d) (\<lambda>c. Held c w d')"
| "board_move (Lapse w i now) b = as_holder b w i (\<lambda>d. d \<le> now) Open"
| "board_move (GiveUp w i) b = as_holder b w i (\<lambda>d. True) Open"
| "board_move (Finish w i now) b = as_holder b w i (\<lambda>d. now < d) (\<lambda>c. Done c w)"
| "board_move (Leave w) b = Some (\<lambda>i. map_option (released (\<lambda>v d. v = w)) (b i))"

fun board_run :: "board_act list \<Rightarrow> board \<Rightarrow> board option" where
  "board_run [] b = Some b"
| "board_run (m # ms) b = Option.bind (board_move m b) (board_run ms)"

section \<open>What a request may do\<close>

definition submitted_worth :: "submit_request \<Rightarrow> rat" where
  "submitted_worth req = fmul (fl64 (of_int (sr_units req))) (if rq_needs_gpu (sr_requires req) then 5 else 1)"

fun may_do :: "clock \<Rightarrow> request \<Rightarrow> board_act list \<Rightarrow> bool" where
  "may_do clk (ReqSubmit jid req a) ms \<longleftrightarrow> ms \<in> {[], [Post jid (submitted_worth req)]}"
| "may_do clk (ReqFoundry jid req a) ms \<longleftrightarrow> ms \<in> {[], [Post jid (submitted_worth (foundry_submit_request req))]}"
| "may_do clk (ReqLaunch ids wl req a) ms \<longleftrightarrow> (\<exists>cs. ms = map2 Post (map ids [0..<length cs]) cs)"
| "may_do clk (ReqNext w fp a) ms \<longleftrightarrow>
     ms \<in> {[], [Expire (clk 2)]} \<or> (\<exists>i. ms = [Expire (clk 2), Claim w i (clk 4 + seconds 20)])"
| "may_do clk (ReqHeartbeat fp req a) ms \<longleftrightarrow>
     ms = [] \<or> (\<exists>i. hb_current_job_id req = Some i \<and>
        ms \<in> {[Lapse (hb_worker_id req) i (clk 1)],
              [Renew (hb_worker_id req) i (clk 1) (clk 2 + seconds 20)]})"
| "may_do clk (ReqResults jid fp req a) ms \<longleftrightarrow>
     ms \<in> {[], [GiveUp (rs_worker_id req) jid]} \<or>
     rs_status req = StCompleted \<and> ms = [Finish (rs_worker_id req) jid (clk 1)]"
| "may_do clk (ReqDisconnect w a) ms \<longleftrightarrow> ms \<in> {[], [Leave w]}"
| "may_do clk (ReqRegister token code fp cap) ms \<longleftrightarrow> ms = []"
| "may_do clk (ReqApprove w a) ms \<longleftrightarrow> ms = []"
| "may_do clk (ReqTier w t a) ms \<longleftrightarrow> ms = []"
| "may_do clk (ReqProfile C fp req a) ms \<longleftrightarrow> ms = []"

section \<open>Reading the board off the database\<close>

definition slot_of :: "job \<Rightarrow> slot" where
  "slot_of j = (case (jb_state j, jb_assigned_worker j, jb_lease_expires j) of
     (Leased, Some w, Some d) \<Rightarrow> Held (job_credits j) w d
   | (Completed, Some w, _) \<Rightarrow> Done (job_credits j) w
   | _ \<Rightarrow> Open (job_credits j))"

definition abs_board :: "db \<Rightarrow> board" where
  "abs_board s = (\<lambda>i. map_option slot_of (find_job i s))"

lemma abs_board_cong: "db_jobs s' = db_jobs s \<Longrightarrow> abs_board s' = abs_board s"
  by (simp add: abs_board_def find_job_def)

lemma find_job_updated:
  assumes "db_jobs s' = update_where Q f (db_jobs s)" "\<And>j. Q j \<Longrightarrow> jb_job_id (f j) = jb_job_id j"
  shows "find_job i s' = map_option (\<lambda>j. if Q j then f j else j) (find_job i s)"
  using assms by (simp add: find_job_lookup jt.lookup_update)

lemma find_job_wf: "job_part s \<Longrightarrow> find_job i s = Some j \<Longrightarrow> job_wf j"
  by (auto simp: job_part_def jobs_wf_def dest: find_job_Some)

lemma slot_of_Held:
  "job_wf j \<Longrightarrow> jb_state j = Leased \<Longrightarrow>
     \<exists>w d. jb_assigned_worker j = Some w \<and> jb_lease_expires j = Some d \<and> slot_of j = Held (job_credits j) w d"
  by (auto simp: job_wf_def slot_of_def)

lemma job_credits_frame [simp]:
  "job_credits (requeued t j) = job_credits j"
  "job_credits (leased_to w d t j) = job_credits j"
  "job_credits (completed_with out t j) = job_credits j"
  "job_credits (j\<lparr>jb_lease_expires := x, jb_updated_at := t\<rparr>) = job_credits j"
  by (simp_all add: job_credits_def)

text \<open>A statement that requeues rows opens exactly their slots.\<close>

lemma board_requeue:
  assumes "job_part s" "db_jobs s' = update_where Q (requeued t) (db_jobs s)"
    "\<And>j. find_job (jb_job_id j) s = Some j \<Longrightarrow> job_wf j \<Longrightarrow>
       slot_of (if Q j then requeued t j else j) = f (jb_job_id j) (slot_of j)"
  shows "abs_board s' = (\<lambda>i. map_option (f i) (abs_board s i))"
proof
  fix i
  show "abs_board s' i = map_option (f i) (abs_board s i)"
  proof (cases "find_job i s")
    case (Some j)
    then have "jb_job_id j = i" "job_wf j" using assms(1) by (auto dest: find_job_Some find_job_wf)
    with Some assms(3) [of j] show ?thesis
      by (simp add: abs_board_def find_job_updated [OF assms(2)])
  qed (simp add: abs_board_def find_job_updated [OF assms(2)])
qed

text \<open>A statement that changes one row changes one slot.\<close>

lemma board_change:
  assumes "job_part s" "find_job i s = Some j" "Q j" "\<And>j. Q j \<Longrightarrow> jb_job_id j = i"
    "\<And>j. Q j \<Longrightarrow> jb_job_id (f j) = jb_job_id j" "db_jobs s' = update_where Q f (db_jobs s)"
  shows "abs_board s' = (abs_board s)(i \<mapsto> slot_of (f j))"
proof
  fix k
  show "abs_board s' k = ((abs_board s)(i \<mapsto> slot_of (f j))) k"
  proof (cases "k = i")
    case True
    with assms(2,3) show ?thesis by (simp add: abs_board_def find_job_updated [OF assms(6,5)])
  next
    case False
    have "\<not> Q x" if "find_job k s = Some x" for x
      using that False assms(4) find_job_Some [OF that] by auto
    with False show ?thesis
      by (cases "find_job k s") (simp_all add: abs_board_def find_job_updated [OF assms(6,5)])
  qed
qed

section \<open>Each statement is a move\<close>

lemma slot_of_requeued [simp]: "slot_of (requeued t j) = Open (job_credits j)"
  by (simp add: slot_of_def)

lemma board_expire:
  assumes "job_part s"
  shows "board_move (Expire t2) (abs_board s) = Some (abs_board (reap_expired t1 t2 s))"
proof -
  have "abs_board (reap_expired t1 t2 s) = (\<lambda>i. map_option (released (\<lambda>w d. d < t2)) (abs_board s i))"
    by (rule board_requeue [OF assms, where Q = "lease_before t2" and t = t1])
       (auto simp: lease_before_def slot_of_def job_wf_def split: job_state.splits option.splits)
  then show ?thesis by simp
qed

lemma board_leave:
  assumes "job_part s"
  shows "board_move (Leave w) (abs_board s) = Some (abs_board (disconnect_section w t s))"
proof -
  have "abs_board (disconnect_section w t s) = (\<lambda>i. map_option (released (\<lambda>v d. v = w)) (abs_board s i))"
    by (rule board_requeue [OF assms, where Q = "holds_lease w" and t = t])
       (auto simp: holds_lease_def slot_of_def job_wf_def split: job_state.splits option.splits)
  then show ?thesis by simp
qed

lemma held_slot:
  assumes "job_part s" "find_job i s = Some j" "jb_state j = Leased" "jb_assigned_worker j = Some w"
  obtains d where "jb_lease_expires j = Some d" "abs_board s i = Some (Held (job_credits j) w d)"
  using slot_of_Held [OF find_job_wf [OF assms(1,2)] assms(3)] assms(2,4) by (auto simp: abs_board_def)

lemma held_by_id: "held_by i w j \<Longrightarrow> jb_job_id j = i"
  by (simp add: held_by_def)

lemma board_giveup:
  assumes "job_part s" "find_job i s = Some j" "held_by i w j"
  shows "board_move (GiveUp w i) (abs_board s) = Some (abs_board (requeue_job i w t s))"
proof -
  obtain d where d: "abs_board s i = Some (Held (job_credits j) w d)"
    using assms by (auto simp: held_by_def elim: held_slot)
  have "abs_board (requeue_job i w t s) = (abs_board s)(i \<mapsto> slot_of (requeued t j))"
    using assms by (intro board_change [where Q = "held_by i w"]) (auto simp: held_by_def requeue_job_def)
  with d show ?thesis by (simp add: as_holder_def)
qed

lemma board_finish:
  assumes "job_part s" "find_job i s = Some j" "live_lease j w now"
  shows "board_move (Finish w i now) (abs_board s) = Some (abs_board (credit_job j w out t s))"
proof -
  have i: "jb_job_id j = i" using find_job_Some [OF assms(2)] by simp
  obtain d where d: "jb_lease_expires j = Some d" "abs_board s i = Some (Held (job_credits j) w d)"
    using assms by (auto simp: live_lease_def elim: held_slot)
  have "abs_board (credit_job j w out t s) = (abs_board s)(i \<mapsto> slot_of (completed_with out t j))"
    using assms i by (intro board_change [where Q = "held_by i w"]) (auto simp: held_by_def live_lease_def)
  with d assms(3) show ?thesis by (simp add: as_holder_def live_lease_def slot_of_def)
qed

lemma board_claim:
  assumes "job_part s" "\<not> worker_busy w s" "j \<in> set (db_jobs s)" "jb_state j = Queued"
  shows "board_move (Claim w (jb_job_id j) d) (abs_board s) = Some (abs_board (take_lease w (jb_job_id j) d t s))"
proof -
  have f: "find_job (jb_job_id j) s = Some j"
    using assms(1,3) by (simp add: job_part_def jobs_wf_def find_job_lookup jt.lookup_unique)
  have "abs_board (take_lease w (jb_job_id j) d t s) = (abs_board s)(jb_job_id j \<mapsto> slot_of (leased_to w d t j))"
    using assms f by (intro board_change [where Q = "queued_with_id (jb_job_id j)"])
      (auto simp: queued_with_id_def)
  moreover have "abs_board s (jb_job_id j) = Some (Open (job_credits j))"
    using f assms(4) by (simp add: abs_board_def slot_of_def)
  moreover have "\<not> holds_on (abs_board s) w"
    using assms(2) by (auto simp: holds_on_def abs_board_def slot_of_def worker_busy_def holds_lease_def
        dest!: find_job_Some split: job_state.splits option.splits)
  ultimately show ?thesis by (simp add: slot_of_def)
qed

lemma find_job_update_jobs:
  assumes "\<And>j. Q j \<Longrightarrow> jb_job_id (f j) = jb_job_id j"
  shows "find_job i (update_jobs Q f s) = map_option (\<lambda>j. if Q j then f j else j) (find_job i s)"
  by (rule find_job_updated [OF _ assms]) simp_all

lemma board_heartbeat:
  assumes "job_part s"
  shows "\<exists>ms. ms \<in> {[], [Lapse w i now], [Renew w i now d']} \<and>
    board_run ms (abs_board s) = Some (abs_board (renew_lease i w now d' s))"
proof -
  let ?f = "\<lambda>j. j\<lparr>jb_lease_expires := Some d', jb_updated_at := now\<rparr>"
  let ?g = "\<lambda>j. if lease_over i w now j then requeued now j else if lease_live i w now j then ?f j else j"
  have jobs: "find_job k (renew_lease i w now d' s) = map_option ?g (find_job k s)" for k
    by (cases "find_job k s")
       (auto simp: renew_lease_def find_job_update_jobs lease_live_def lease_over_def held_by_def)
  have other: "?g j = j" if "find_job k s = Some j" "k \<noteq> i" for k j
    using find_job_Some [OF that(1)] that(2) by (auto simp: lease_over_def lease_live_def held_by_def)
  have one: "abs_board (renew_lease i w now d' s) = (abs_board s)(i := map_option slot_of (map_option ?g (find_job i s)))"
  proof
    fix k
    show "abs_board (renew_lease i w now d' s) k = ((abs_board s)(i := map_option slot_of (map_option ?g (find_job i s)))) k"
      using other [of k] by (cases "find_job k s") (auto simp: abs_board_def jobs)
  qed
  show ?thesis
  proof (cases "\<exists>j. find_job i s = Some j \<and> held_by i w j")
    case False
    then have "map_option ?g (find_job i s) = find_job i s"
      by (cases "find_job i s") (auto simp: lease_over_def lease_live_def)
    then have "abs_board (renew_lease i w now d' s) = abs_board s"
      unfolding one by (simp add: abs_board_def fun_eq_iff)
    then show ?thesis by (intro exI [of _ "[]"]) simp
  next
    case True
    then obtain j where j: "find_job i s = Some j" "held_by i w j" by blast
    obtain d where d: "jb_lease_expires j = Some d" "abs_board s i = Some (Held (job_credits j) w d)"
      using assms j by (auto simp: held_by_def elim: held_slot)
    show ?thesis
    proof (cases "d \<le> now")
      case True
      then have "?g j = requeued now j" using j d by (simp add: lease_over_def)
      with True d j(1) show ?thesis
        by (intro exI [of _ "[Lapse w i now]"]) (simp add: one as_holder_def)
    next
      case False
      then have "?g j = ?f j" using j d by (simp add: lease_over_def lease_live_def)
      moreover have "slot_of (?f j) = Held (job_credits j) w d'"
        using j(2) by (simp add: slot_of_def held_by_def)
      ultimately show ?thesis using False d j(1)
        by (intro exI [of _ "[Renew w i now d']"]) (simp add: one as_holder_def)
    qed
  qed
qed

section \<open>Each request is a sequence it may make\<close>

lemma board_none: "db_jobs s' = db_jobs s \<Longrightarrow> board_run [] (abs_board s) = Some (abs_board s')"
  using abs_board_cong [of s' s] by simp

lemma board_audited: "only_audited s s' \<Longrightarrow> board_run [] (abs_board s) = Some (abs_board s')"
  by (intro board_none) (simp add: only_audited_frame)

lemma board_two: "board_move m b = Some c \<Longrightarrow> board_move n c = Some d \<Longrightarrow> board_run [m, n] b = Some d"
  by simp

lemma board_append:
  assumes "db_jobs s' = db_jobs s @ [j]" "find_job (jb_job_id j) s = None" "jb_state j = Queued"
  shows "board_move (Post (jb_job_id j) (job_credits j)) (abs_board s) = Some (abs_board s')"
proof -
  have "abs_board s' = (abs_board s)(jb_job_id j \<mapsto> Open (job_credits j))"
  proof
    fix k
    have "slot_of j = Open (job_credits j)" using assms(3) by (simp add: slot_of_def)
    then show "abs_board s' k = ((abs_board s)(jb_job_id j \<mapsto> Open (job_credits j))) k"
      using assms(1,2) by (cases "find_job k s") (auto simp: abs_board_def find_job_lookup jt.lookup_append)
  qed
  with assms(2) show ?thesis by (simp add: abs_board_def)
qed

lemma posted_worth: "job_credits (new_job (new_manifest P req pv jid t1) req wl t2) = submitted_worth req"
  by (simp add: job_credits_def submitted_worth_def job_weight_def new_job_def new_manifest_def)

lemma board_enqueue:
  assumes "enqueue P req pv jid clk ty d s = (s', r)"
  shows "\<exists>ms. ms \<in> {[], [Post jid (submitted_worth req)]} \<and> board_run ms (abs_board s) = Some (abs_board s')"
proof (cases r)
  case (Inl e)
  with assms show ?thesis by (intro exI [of _ "[]"]) (auto dest: enqueue_Inl)
next
  case (Inr k)
  let ?j = "new_job (new_manifest P req pv jid (clk 1)) req None (clk 2)"
  have "find_job jid s = None" "db_jobs s' = db_jobs s @ [?j]" "jb_state ?j = Queued" and id: "jb_job_id ?j = jid"
    using assms Inr by (auto simp: enqueue_Inr new_job_def new_manifest_def)
  then have "board_move (Post jid (submitted_worth req)) (abs_board s) = Some (abs_board s')"
    using board_append [of s' s ?j] unfolding id posted_worth by blast
  then show ?thesis by (intro exI [of _ "[Post jid (submitted_worth req)]"]) (simp del: board_move.simps)
qed

lemma board_launch_specs:
  assumes "launch_specs P clk ids kind wl i specs s = (s', r)"
  shows "\<exists>cs. board_run (map2 Post (map ids [i..<i + length cs]) cs) (abs_board s) = Some (abs_board s')"
  using assms
proof (induction specs arbitrary: i s s' r)
  case Nil
  then show ?case by (intro exI [of _ "[]"]) simp
next
  case (Cons spec specs)
  note stop = exI [of "\<lambda>cs. board_run (map2 Post (map ids [i..<i + length cs]) cs) (abs_board s) = Some (abs_board s')" "[]"]
  obtain s1 x where sub: "submit_job P (spec_request spec) (Some wl) None (ids i) (clk (3 * i + 1)) (clk (3 * i + 2)) s = (s1, x)"
    by fastforce
  show ?case
  proof (cases x)
    case (Inl e)
    with sub Cons.prems have "s' = s" by (auto dest: submit_job_Inl split: if_splits)
    then show ?thesis by (intro stop) simp
  next
    case (Inr jid)
    let ?j = "new_job (new_manifest P (spec_request spec) None (ids i) (clk (3 * i + 1))) (spec_request spec) (Some wl) (clk (3 * i + 2))"
    let ?c = "submitted_worth (spec_request spec)"
    have new: "jid = ids i" "find_job (ids i) s = None" "db_jobs s1 = db_jobs s @ [?j]" "jb_state ?j = Queued"
      and id: "jb_job_id ?j = ids i"
      using sub Inr by (auto simp: submit_job_Inr new_job_def new_manifest_def)
    let ?s2 = "emit P (clk (3 * i + 3)) ''submitted'' None (Some jid) (Some kind) s1"
    have post: "board_move (Post (ids i) ?c) (abs_board s) = Some (abs_board ?s2)"
      using board_append [of ?s2 s ?j] new unfolding id posted_worth by simp
    show ?thesis
    proof (cases "valid_submit (spec_request spec)")
      case False
      with Cons.prems show ?thesis by (intro stop) simp
    next
      case True
      obtain s3 y where rest: "launch_specs P clk ids kind wl (Suc i) specs ?s2 = (s3, y)" by fastforce
      from Cons.prems True sub Inr rest have "s' = s3" by (auto simp: and_then_def split: sum.splits)
      with Cons.IH [OF rest] obtain cs where
        "board_run (map2 Post (map ids [Suc i..<Suc i + length cs]) cs) (abs_board ?s2) = Some (abs_board s')" by blast
      moreover have "map2 Post (map ids [i..<i + length (?c # cs)]) (?c # cs) =
          Post (ids i) ?c # map2 Post (map ids [Suc i..<Suc i + length cs]) cs"
        by (simp add: upt_conv_Cons del: upt_Suc)
      ultimately show ?thesis using post by (intro exI [of _ "?c # cs"]) (simp del: board_move.simps)
    qed
  qed
qed

lemma board_launch:
  assumes "launch_workload P cf clk ids wl req a s = (s', r)"
  shows "\<exists>cs. board_run (map2 Post (map ids [0..<length cs]) cs) (abs_board s) = Some (abs_board s')"
proof -
  have stop: ?thesis if "db_jobs s' = db_jobs s"
    using board_none [OF that] by (intro exI [of _ "[]"]) simp
  obtain t x where g: "require_submit_token P cf (clk 0) a s = (t, x)" by fastforce
  note t = only_audited_frame [OF require_submit_token_audited [OF g]]
  show ?thesis
  proof (cases "valid_launch req \<and> x = Inr () \<and> lr_kind req \<in> set LAUNCHABLE_KINDS")
    case False
    with assms g t show ?thesis
      by (intro stop, cases x) (auto simp: launch_workload_def and_then_def split: if_splits)
  next
    case True
    show ?thesis
    proof (cases "build_workload_jobs (lr_kind req) (resolve_tile_count t req) (lr_params req)
        (capability_tile_weights t (resolve_tile_count t req))")
      case (Inl e)
      with assms g t True show ?thesis
        by (intro stop, cases e) (auto simp: launch_workload_def and_then_def)
    next
      case (Inr specs)
      obtain u y where l: "launch_specs P clk ids (lr_kind req) wl 0 specs t = (u, y)" by fastforce
      with assms g True Inr have "s' = u" by (cases y) (auto simp: launch_workload_def and_then_def)
      moreover have "abs_board t = abs_board s" using t by (intro abs_board_cong) blast
      ultimately show ?thesis using board_launch_specs [OF l] by simp
    qed
  qed
qed

lemma board_results:
  assumes "job_part s" "results_section P req now t s = (s', r)"
  shows "\<exists>ms. (ms \<in> {[], [GiveUp (rs_worker_id req) (rs_job_id req)]} \<or>
      rs_status req = StCompleted \<and> ms = [Finish (rs_worker_id req) (rs_job_id req) now]) \<and>
    board_run ms (abs_board s) = Some (abs_board s')"
  using assms(2)
proof (cases rule: results_section_cases)
  case unchanged
  then show ?thesis by (intro exI [of _ "[]"]) simp
next
  case (requeued j ty)
  have "abs_board s' = abs_board (requeue_job (rs_job_id req) (rs_worker_id req) now s)"
    using requeued(3) by (auto intro: abs_board_cong)
  with board_giveup [OF assms(1) requeued(1,2), of now] show ?thesis
    by (intro exI [of _ "[GiveUp (rs_worker_id req) (rs_job_id req)]"]) (simp del: board_move.simps)
next
  case (blacklisted j expected)
  have held: "held_by (rs_job_id req) (rs_worker_id req) j"
    using blacklisted(1,2) find_job_Some [OF blacklisted(1)] by (simp add: held_by_def live_lease_def)
  have "abs_board s' = abs_board (requeue_job (rs_job_id req) (rs_worker_id req) now s)"
    using blacklisted(7) by (auto simp: blacklist_worker_def requeue_job_def intro: abs_board_cong)
  with board_giveup [OF assms(1) blacklisted(1) held, of now] show ?thesis
    by (intro exI [of _ "[GiveUp (rs_worker_id req) (rs_job_id req)]"]) (simp del: board_move.simps)
next
  case (credited j)
  have "abs_board s' = abs_board (credit_job j (rs_worker_id req) (result_output req) now s)"
    using credited(7) by (auto simp: accept_result_def intro: abs_board_cong)
  with board_finish [OF assms(1) credited(1,2), of "result_output req" now] credited(3) show ?thesis
    by (intro exI [of _ "[Finish (rs_worker_id req) (rs_job_id req) now]"]) (simp del: board_move.simps)
qed

lemma board_next:
  assumes "job_part s" "jobs_next P mb cf clk w sfp a s = (s', r)"
  shows "\<exists>ms. (ms \<in> {[], [Expire (clk 2)]} \<or> (\<exists>i. ms = [Expire (clk 2), Claim w i (clk 4 + seconds 20)])) \<and>
    board_run ms (abs_board s) = Some (abs_board s')"
  using assms(2)
proof (cases rule: jobs_next_cases)
  case (refused e)
  then show ?thesis using board_audited [of s s'] by (intro exI [of _ "[]"]) blast
next
  case no_work
  from no_work(2) show ?thesis
  proof
    assume "s' = s"
    then show ?thesis by (intro exI [of _ "[]"]) simp
  next
    assume "s' = reap_expired (clk 1) (clk 2) s"
    with board_expire [OF assms(1), of "clk 2" "clk 1"] show ?thesis
      by (intro exI [of _ "[Expire (clk 2)]"]) (simp del: board_move.simps)
  qed
next
  case (assigned worker j)
  let ?s1 = "reap_expired (clk 1) (clk 2) s"
  have part: "job_part ?s1" by (rule job_part_step [OF fleet_step.Reap assms(1)])
  note pick = pick_job_for_Some [OF assigned(9)]
  have "board_move (Claim w (jb_job_id j) (lease_deadline (clk 4))) (abs_board ?s1) =
      Some (abs_board (take_lease w (jb_job_id j) (lease_deadline (clk 4)) (clk 5) ?s1))"
    using pick by (intro board_claim [OF part assigned(8)]) simp_all
  moreover have "abs_board s' = abs_board (take_lease w (jb_job_id j) (lease_deadline (clk 4)) (clk 5) ?s1)"
    using assigned(11) by (auto intro: abs_board_cong)
  ultimately have "board_run [Expire (clk 2), Claim w (jb_job_id j) (lease_deadline (clk 4))] (abs_board s) =
      Some (abs_board s')"
    by (intro board_two [OF board_expire [OF assms(1), of "clk 2" "clk 1"]]) simp
  then show ?thesis unfolding lease_deadline_def LEASE_SECONDS_def by blast
qed

lemma board_register:
  assumes "register P cf clk token code sfp cap s = (s', r)"
  shows "abs_board s' = abs_board s"
proof (cases r)
  case (Inl e)
  with assms show ?thesis by (auto dest: register_Inl)
next
  case (Inr resp)
  with assms have "register P cf clk token code sfp cap s = (s', Inr resp)" by simp
  then show ?thesis
    by (rule register_Inr) (auto simp: attest_jobs intro!: abs_board_cong)
qed

lemma board_serve:
  assumes "job_part s"
  shows "\<exists>ms. may_do clk req ms \<and> board_run ms (abs_board s) = Some (abs_board (serve P mb cf clk req s))"
proof (cases req)
  case (ReqSubmit jid q a)
  obtain s' r where e: "submit P cf clk jid q a s = (s', r)" by fastforce
  show ?thesis
  proof (cases r)
    case (Inl x)
    with e ReqSubmit show ?thesis by (intro exI [of _ "[]"]) (auto dest!: submit_Inl_audited board_audited)
  next
    case (Inr k)
    with e have "enqueue P q None jid clk ''submitted'' (sr_kind q) s = (s', Inr k)" by (simp add: submit_Inr)
    from board_enqueue [OF this] e ReqSubmit show ?thesis by auto
  qed
next
  case (ReqFoundry jid q a)
  obtain s' r where e: "foundry_route P cf clk jid q a s = (s', r)" by fastforce
  show ?thesis
  proof (cases r)
    case (Inl x)
    with e ReqFoundry show ?thesis by (intro exI [of _ "[]"]) (auto dest!: foundry_route_Inl_audited board_audited)
  next
    case (Inr k)
    with e obtain pv d where "enqueue P (foundry_submit_request q) pv jid clk ''foundry_routed'' d s = (s', Inr k)"
      by (auto simp: foundry_route_Inr)
    from board_enqueue [OF this] e ReqFoundry show ?thesis by auto
  qed
next
  case (ReqNext w fp a)
  obtain s' r where e: "jobs_next P mb cf clk w fp a s = (s', r)" by fastforce
  from board_next [OF assms e] e ReqNext show ?thesis by simp
next
  case (ReqHeartbeat fp q a)
  obtain s' r where e: "heartbeat P cf clk fp q a s = (s', r)" by fastforce
  then show ?thesis
  proof (cases rule: heartbeat_cases)
    case (refused x)
    with e ReqHeartbeat show ?thesis by (intro exI [of _ "[]"]) (auto dest!: board_audited)
  next
    case (ok worker)
    have jobs: "db_jobs s' = (case hb_current_job_id q of
        Some i \<Rightarrow> if \<not> cap_measurement_only (wk_capability worker) \<and> i \<noteq> []
          then db_jobs (renew_lease i (hb_worker_id q) (clk 1) (lease_deadline (clk 2)) s) else db_jobs s
      | None \<Rightarrow> db_jobs s)" unfolding ok(4) by (rule heartbeat_section_jobs)
    show ?thesis
    proof (cases "db_jobs s' = db_jobs s")
      case True
      with e ReqHeartbeat show ?thesis by (intro exI [of _ "[]"]) (auto dest!: board_none)
    next
      case False
      then obtain i where i: "hb_current_job_id q = Some i"
        "db_jobs s' = db_jobs (renew_lease i (hb_worker_id q) (clk 1) (lease_deadline (clk 2)) s)"
        using jobs by (auto split: option.splits if_splits)
      then have "abs_board s' = abs_board (renew_lease i (hb_worker_id q) (clk 1) (lease_deadline (clk 2)) s)"
        by (intro abs_board_cong)
      with i(1) e ReqHeartbeat
        board_heartbeat [OF assms, of "hb_worker_id q" i "clk 1" "lease_deadline (clk 2)"] show ?thesis
        by (auto simp: lease_deadline_def LEASE_SECONDS_def simp del: board_move.simps board_run.simps)
    qed
  qed
next
  case (ReqResults jid fp q a)
  obtain s' r where e: "results P cf clk jid fp q a s = (s', r)" by fastforce
  then show ?thesis
  proof (cases rule: results_cases)
    case (refused x)
    with e ReqResults show ?thesis by (intro exI [of _ "[]"]) (auto dest!: board_audited)
  next
    case (banned worker)
    with e ReqResults show ?thesis by (intro exI [of _ "[]"]) simp
  next
    case (decided worker)
    from board_results [OF assms decided(6)] decided(1) e ReqResults show ?thesis by auto
  qed
next
  case (ReqDisconnect w a)
  obtain s' r where e: "disconnect_worker P cf clk w a s = (s', r)" by fastforce
  show ?thesis
  proof (cases r)
    case (Inl x)
    with e ReqDisconnect show ?thesis by (intro exI [of _ "[]"]) (auto dest!: disconnect_worker_Inl board_audited)
  next
    case (Inr u)
    with e have "abs_board s' = abs_board (disconnect_section w (clk 1) s)"
      by (auto simp: disconnect_worker_Inr intro: abs_board_cong)
    with board_leave [OF assms, of w "clk 1"] e ReqDisconnect show ?thesis
      by (intro exI [of _ "[Leave w]"]) (simp del: board_move.simps)
  qed
next
  case (ReqLaunch ids wl q a)
  obtain s' r where e: "launch_workload P cf clk ids wl q a s = (s', r)" by fastforce
  from board_launch [OF e] e ReqLaunch show ?thesis by auto
next
  case (ReqRegister token code fp cap)
  obtain s' r where e: "register P cf clk token code fp cap s = (s', r)" by fastforce
  from board_register [OF e] e ReqRegister show ?thesis by simp
next
  case (ReqApprove w a)
  obtain s' r where e: "approve P cf clk w a s = (s', r)" by fastforce
  then have "db_jobs s' = db_jobs s"
    by (cases r) (auto simp: approve_Inr dest!: approve_Inl only_audited_frame)
  with e ReqApprove show ?thesis by (auto dest: board_none)
next
  case (ReqTier w t a)
  obtain s' r where e: "set_tier P cf clk w t a s = (s', r)" by fastforce
  then have "db_jobs s' = db_jobs s"
    by (cases r) (auto simp: set_tier_Inr dest!: set_tier_Inl only_audited_frame)
  with e ReqTier show ?thesis by (auto dest: board_none)
next
  case (ReqProfile C fp q a)
  obtain s' r where e: "ingest_profile P C cf clk fp q a s = (s', r)" by fastforce
  have "db_jobs s' = db_jobs s"
  proof (cases r)
    case (Inl x)
    with e show ?thesis by (auto dest!: ingest_profile_Inl only_audited_frame)
  next
    case (Inr u)
    with e show ?thesis by (auto elim!: ingest_profile_Inr)
  qed
  with e ReqProfile show ?thesis by (auto dest: board_none)
qed

end
