(* ===== verification/Demo.thy ===== *)
theory Demo imports Views begin

text \<open>
  A concrete fleet for the witnesses: primitives that compute (an injective "digest", a toy
  signature scheme that its own verification accepts), a configuration, and a short history in
  which one device registers, is given a job and returns it.
\<close>

definition demo_prims :: primitives where
  "demo_prims = \<lparr>p_sha256 = (\<lambda>m. CHR ''h'' # m), p_float_repr = (\<lambda>_. ''0.0''),
     p_iso = (\<lambda>_. ''t''), p_json_time = (\<lambda>_. ''t''),
     p_ed_public = (\<lambda>sk. CHR ''k'' # sk), p_ed_sign = (\<lambda>sk m. CHR ''s'' # sk @ m),
     p_ed_verify = (\<lambda>pk sig m. CHR ''s'' # tl pk @ m = sig)\<rparr>"

definition demo_config :: config where
  "demo_config = \<lparr>cf_signer = \<lparr>sg_private = ''s''\<rparr>, cf_require_approval = False, cf_submit_token = None,
     cf_admin_token = None, cf_bind_device_identity = False, cf_attestation_pubkey = None,
     cf_foundry_tenants = None\<rparr>"

definition demo_mbytes :: manifest_bytes where
  "demo_mbytes m = mf_job_id m"

definition demo_clock :: "int \<Rightarrow> clock" where
  "demo_clock t = (\<lambda>i. seconds t + int i)"

definition demo_submit :: submit_request where
  "demo_submit = \<lparr>sr_kind = ''eval'', sr_input = [], sr_requires = default_requires,
     sr_limits = default_limits, sr_data_classification = ''public'', sr_units = 3\<rparr>"

definition demo_result :: result_request where
  "demo_result = \<lparr>rs_worker_id = ''w'', rs_job_id = ''j'', rs_status = StCompleted, rs_output = Some [],
     rs_proof_sha256 = None, rs_duration_s = None, rs_units = 1\<rparr>"

definition registered_db :: db where
  "registered_db = serve demo_prims demo_mbytes demo_config (demo_clock 0)
     (ReqRegister ''tok'' [] None (default_capability ''w'')) init_db"

definition submitted_db :: db where
  "submitted_db = serve demo_prims demo_mbytes demo_config (demo_clock 1)
     (ReqSubmit ''j'' demo_submit None) registered_db"

definition leased_db :: db where
  "leased_db = serve demo_prims demo_mbytes demo_config (demo_clock 2)
     (ReqNext ''w'' None (Some ''Bearer tok'')) submitted_db"

definition completed_db :: db where
  "completed_db = serve demo_prims demo_mbytes demo_config (demo_clock 3)
     (ReqResults ''j'' None demo_result (Some ''Bearer tok'')) leased_db"

lemma demo_reachable:
  "reachable demo_prims registered_db" "reachable demo_prims submitted_db"
  "reachable demo_prims leased_db" "reachable demo_prims completed_db"
  unfolding completed_db_def leased_db_def submitted_db_def registered_db_def
  by (intro serve_reachable reachable.start)+

text \<open>The rows of each state; the audit log is left unevaluated.\<close>

definition demo_row :: worker where
  "demo_row = registered_row \<lparr>ra_cap = default_capability ''w'', ra_token = ''tok'', ra_weight = 1,
     ra_approved = True, ra_device_code = None, ra_now = 0, ra_cert_fingerprint = None\<rparr>"

definition demo_job :: job where
  "demo_job = new_job (new_manifest demo_prims demo_submit None ''j'' 1000001) demo_submit None 1000002"

lemma demo_row_simps [simp]:
  "wk_worker_id demo_row = ''w''" "wk_capability demo_row = default_capability ''w''"
  "wk_token demo_row = ''tok''" "wk_approved demo_row" "\<not> wk_blacklisted demo_row"
  "wk_trust_tier demo_row = DEFAULT_TRUST_TIER" "wk_cert_fingerprint demo_row = None"
  by (simp_all add: demo_row_def default_capability_def)

lemma demo_job_simps [simp]:
  "jb_job_id demo_job = ''j''" "jb_state demo_job = Queued" "jb_kind demo_job = ''eval''"
  "jb_assigned_worker demo_job = None" "jb_units demo_job = 3" "jb_created_at demo_job = 1000002"
  "mf_kind (jb_manifest demo_job) = ''eval''" "mf_requires (jb_manifest demo_job) = default_requires"
  "mf_data_classification (jb_manifest demo_job) = ''public''"
  by (simp_all add: demo_job_def new_job_def new_manifest_def demo_submit_def)

lemma demo_capability_simps [simp]:
  "cap_worker_id (default_capability w) = w" "\<not> cap_measurement_only (default_capability w)"
  "\<not> cap_has_gpu (default_capability w)" "cap_attestation (default_capability w) = None"
  by (simp_all add: default_capability_def)

lemma registered_rows: "db_workers registered_db = [demo_row]" "db_jobs registered_db = []"
  "db_ledger registered_db = []" "db_ledger_seq registered_db = 0"
  by (simp_all add: registered_db_def register_def demo_config_def measured_capability_def
      default_capability_def verified_client_fingerprint_def register_section_def check_binding_def
      upsert_worker_def find_worker_def select_where_def init_db_def attest_def demo_row_def
      class_weight_for_def demo_clock_def seconds_def registered_row_def Let_def)

lemma submitted_rows: "db_workers submitted_db = [demo_row]" "db_jobs submitted_db = [demo_job]"
  "db_ledger submitted_db = []" "db_ledger_seq submitted_db = 0"
  by (simp_all add: submitted_db_def submit_def and_then_def require_submit_token_def demo_config_def
      enqueue_def submit_job_def insert_job_def find_job_def select_where_def registered_rows
      demo_submit_def valid_submit_def JobKind_def DataClassification_def new_job_def new_manifest_def
      int64_def demo_job_def demo_clock_def seconds_def Let_def)

lemma demo_token:
  "wk_token r = ''tok'' \<Longrightarrow> check_worker_token demo_config (Some r) (Some ''Bearer tok'') fp = Inr None"
proof -
  assume "wk_token r = ''tok''"
  moreover
  have "provided_token ''Bearer tok'' = ''tok''" "startswith ''Bearer tok'' bearer"
    "is_ascii ''tok''"
    by code_simp+
  ultimately show ?thesis
    by (simp add: check_worker_token_def check_device_def demo_config_def Let_def compare_digest_def)
qed

lemma demo_auth:
  "find_worker ''w'' s = Some demo_row \<Longrightarrow>
   require_worker_token demo_prims demo_config now ''w'' (Some ''Bearer tok'') fp s = (s, Inr demo_row)"
  by (simp add: require_worker_token_def demo_token)

lemma demo_pick:
  assumes "db_workers s = [demo_row]" "db_jobs s = [demo_job]"
  shows "pick_job_for s (default_capability ''w'') f = Some demo_job"
proof -
  have m: "capability_match default_requires (default_capability ''w'') f"
    by (simp add: capability_match_def default_requires_def default_capability_def)
  have r: "may_route ''public'' DEFAULT_TRUST_TIER"
    by (simp add: may_route_def MIN_TIER_FOR_CLASSIFICATION_def TIERS_def DEFAULT_TRUST_TIER_def)
  show ?thesis
    using assms m r
    by (simp add: pick_job_for_def queued_jobs_def select_where_def device_tier_def find_worker_def DEFAULT_TRUST_TIER_def)
qed

lemma demo_found: "db_workers s = [demo_row] \<Longrightarrow> find_worker ''w'' s = Some demo_row"
  by (simp add: find_worker_def select_where_def)

lemma demo_next:
  "jobs_next demo_prims demo_mbytes demo_config (demo_clock 2) ''w'' None (Some ''Bearer tok'') submitted_db =
    (emit demo_prims 2000006 ''assigned'' (Some ''w'') (Some ''j'') (Some ''eval'')
       (take_lease ''w'' ''j'' 22000004 2000005 (reap_expired 2000001 2000002 submitted_db)),
     Inr (Some \<lparr>ja_signed_manifest = sign demo_prims demo_mbytes (cf_signer demo_config) (jb_manifest demo_job),
                 ja_input = jb_input demo_job\<rparr>))"
proof -
  let ?s1 = "reap_expired 2000001 2000002 submitted_db"
  have s1: "db_workers ?s1 = [demo_row]" "db_jobs ?s1 = [demo_job]"
    by (simp_all add: submitted_rows lease_before_def)
  have "lease_section ''w'' (default_capability ''w'') f 2000003 2000004 2000005 ?s1 =
      (take_lease ''w'' ''j'' 22000004 2000005 ?s1, Some demo_job)" for f
    using s1 demo_pick [OF s1, of f] demo_found [OF s1(1)]
    by (simp add: lease_section_def worker_busy_def holds_lease_def
        defer_to_less_loaded_def live_free_peer_def select_where_def
        lease_deadline_def LEASE_SECONDS_def seconds_def)
  then show ?thesis
    using demo_auth [OF demo_found [OF submitted_rows(1)], of "demo_clock 2 0" "verified_client_fingerprint None"]
    by (simp add: jobs_next_def and_then_def demo_clock_def seconds_def)
qed

lemma leased_db_eq:
  "leased_db = emit demo_prims 2000006 ''assigned'' (Some ''w'') (Some ''j'') (Some ''eval'')
     (take_lease ''w'' ''j'' 22000004 2000005 (reap_expired 2000001 2000002 submitted_db))"
  by (simp add: leased_db_def demo_next)

lemma demo_assignment:
  "\<exists>asg. jobs_next demo_prims demo_mbytes demo_config (demo_clock 2) ''w'' None (Some ''Bearer tok'') submitted_db
     = (leased_db, Inr (Some asg))"
  by (simp add: demo_next leased_db_eq)

lemma leased_rows:
  "db_jobs leased_db = [leased_to ''w'' 22000004 2000005 demo_job]"
  "db_workers leased_db = [demo_row\<lparr>wk_idle := False, wk_last_heartbeat := Some 2000005\<rparr>]"
  "db_ledger leased_db = []" "db_ledger_seq leased_db = 0"
proof -
  show "db_jobs leased_db = [leased_to ''w'' 22000004 2000005 demo_job]"
    unfolding leased_db_eq by (simp add: submitted_rows lease_before_def queued_with_id_def)
  show "db_workers leased_db = [demo_row\<lparr>wk_idle := False, wk_last_heartbeat := Some 2000005\<rparr>]"
    unfolding leased_db_eq by (simp add: take_lease_def submitted_rows)
  show "db_ledger leased_db = []" "db_ledger_seq leased_db = 0"
    unfolding leased_db_eq by (simp_all add: submitted_rows)
qed

lemma demo_results:
  "results demo_prims demo_config (demo_clock 3) ''j'' None demo_result (Some ''Bearer tok'') leased_db =
     accept_result demo_prims (leased_to ''w'' 22000004 2000005 demo_job) ''w'' [] 3000001 3000002 leased_db"
proof -
  let ?j = "leased_to ''w'' 22000004 2000005 demo_job"
  let ?r = "demo_row\<lparr>wk_idle := False, wk_last_heartbeat := Some 2000005\<rparr>"
  have found: "find_worker ''w'' leased_db = Some ?r"
    by (simp add: find_worker_def select_where_def leased_rows)
  have tok: "check_worker_token demo_config (Some ?r) (Some ''Bearer tok'') fp = Inr None" for fp
    by (rule demo_token) simp
  have auth: "require_worker_token demo_prims demo_config now ''w'' (Some ''Bearer tok'') fp leased_db =
      (leased_db, Inr ?r)" for now fp
    by (simp add: require_worker_token_def found tok)
  have job: "find_job ''j'' leased_db = Some ?j"
    by (simp add: find_job_def select_where_def leased_rows)
  have small: "\<not> MAX_RESULT_OUTPUT_BYTES < length (dumps_ascii (p_float_repr demo_prims) (JObj []))"
    by (simp add: MAX_RESULT_OUTPUT_BYTES_def dumps_ascii_def)
  have "results_section demo_prims demo_result 3000001 3000002 leased_db
      = accept_result demo_prims ?j ''w'' [] 3000001 3000002 leased_db"
    using job small
    by (simp add: results_section_def demo_result_def completed_result_def Let_def)
  then show ?thesis
    using auth by (simp add: results_def and_then_def demo_result_def demo_clock_def seconds_def)
qed

lemma completed_db_eq:
  "completed_db = fst (accept_result demo_prims (leased_to ''w'' 22000004 2000005 demo_job) ''w'' []
     3000001 3000002 leased_db)"
  by (simp add: completed_db_def demo_results)

lemma demo_credit:
  "\<exists>resp. results demo_prims demo_config (demo_clock 3) ''j'' None demo_result (Some ''Bearer tok'') leased_db
     = (completed_db, Inr resp) \<and> rp_accepted resp"
  by (simp add: demo_results completed_db_eq accept_result_def)

lemma completed_rows:
  "db_jobs completed_db = [completed_with [] 3000001 (leased_to ''w'' 22000004 2000005 demo_job)]"
  "db_ledger completed_db = [\<lparr>lg_id = 1, lg_worker_id = ''w'', lg_job_id = Some ''j'',
     lg_credits = job_credits demo_job, lg_reason = Some ''completed'', lg_created_at = 3000001\<rparr>]"
proof -
  let ?j = "leased_to ''w'' 22000004 2000005 demo_job"
  show "db_jobs completed_db = [completed_with [] 3000001 ?j]"
    unfolding completed_db_eq by (simp add: accept_result_def leased_rows held_by_def)
  show "db_ledger completed_db = [\<lparr>lg_id = 1, lg_worker_id = ''w'', lg_job_id = Some ''j'',
     lg_credits = job_credits demo_job, lg_reason = Some ''completed'', lg_created_at = 3000001\<rparr>]"
    unfolding completed_db_eq by (simp add: accept_result_def leased_rows job_credits_def)
qed

end
