(* ===== verification/Fleet_Properties.thy ===== *)
theory Fleet_Properties imports Board Demo begin

text \<open>
  The properties of the orchestrator as a whole: what holds in every state its requests can reach,
  in any interleaving, and what one request can change. The witnesses apply them to the history of
  \<open>Demo\<close>.
\<close>

section \<open>Every reachable state\<close>

text \<open>C1. The ledger pays every completed job exactly once: each entry names one completed job, its
  worker and its worth, no job is named twice, and every completed job is named.\<close>

theorem ledger_pays_once:
  assumes "reachable P s"
  shows "distinct (map lg_job_id (db_ledger s)) \<and>
    (\<forall>e \<in> set (db_ledger s). \<exists>i j. find_job i s = Some j \<and> lg_job_id e = Some i \<and>
       jb_state j = Completed \<and> jb_assigned_worker j = Some (lg_worker_id e) \<and> lg_credits e = job_credits j) \<and>
    (\<forall>i j. find_job i s = Some j \<longrightarrow> jb_state j = Completed \<longrightarrow>
       (\<exists>e \<in> set (db_ledger s). lg_job_id e = Some i))"
proof (intro conjI ballI allI impI)
  note inv = reachable_job_part [OF assms, unfolded job_part_def ledger_ok_def]
  show "distinct (map lg_job_id (db_ledger s))" using inv by simp
  show "\<exists>i j. find_job i s = Some j \<and> lg_job_id e = Some i \<and> jb_state j = Completed \<and>
      jb_assigned_worker j = Some (lg_worker_id e) \<and> lg_credits e = job_credits j"
    if "e \<in> set (db_ledger s)" for e
    using that inv by (fastforce simp: pays_def jobs_wf_def find_job_lookup intro: jt.lookup_unique)
  show "\<exists>e \<in> set (db_ledger s). lg_job_id e = Some i"
    if "find_job i s = Some j" "jb_state j = Completed" for i j
    using find_job_Some [OF that(1)] that(2) inv by force
qed

theorem ledger_pays_once_witness:
  "\<exists>e \<in> set (db_ledger completed_db). lg_job_id e = Some ''j''"
  using ledger_pays_once [OF demo_reachable(4)]
  by (simp add: find_job_def select_where_def completed_rows)

text \<open>The credit a dashboard shows for a worker is exactly what its completed jobs are worth, and
  the fleet's total is the worth of all completed jobs.\<close>

theorem shown_credits_earned:
  assumes "reachable P s"
  shows "worker_credits w s = earned w (db_jobs s) \<and>
    fs_total_credits (fleet_view s) =
      sum_list (map job_credits (filter (\<lambda>j. jb_state j = Completed) (db_jobs s)))"
  using reachable_job_part [OF assms] by (simp add: worker_credits_earned total_credits_earned)

theorem shown_credits_earned_witness: "worker_credits ''w'' completed_db = job_credits demo_job"
  using shown_credits_earned [OF demo_reachable(4), of "''w''"]
  by (simp add: earned_def completed_rows job_credits_def)

text \<open>C2. A worker never holds two leases, whatever requests overlap.\<close>

theorem one_lease_per_worker:
  assumes "reachable P s" "find_job i s = Some a" "find_job k s = Some b" "holds_lease w a" "holds_lease w b"
  shows "i = k"
  using reachable_job_part [OF assms(1)] find_job_Some [OF assms(2)] find_job_Some [OF assms(3)] assms(4,5)
  by (auto simp: job_part_def dest: single_leasesD)

theorem one_lease_per_worker_witness: "find_job ''j'' leased_db \<noteq> None \<and> worker_busy ''w'' leased_db"
proof -
  let ?j = "leased_to ''w'' 22000004 2000005 demo_job"
  have j: "find_job ''j'' leased_db = Some ?j" "holds_lease ''w'' ?j"
    by (simp_all add: find_job_def select_where_def leased_rows holds_lease_def)
  have "''j'' = ''j''" by (rule one_lease_per_worker [OF demo_reachable(3) j(1) j(1) j(2) j(2)])
  with j show ?thesis by (simp add: worker_busy_def leased_rows)
qed

text \<open>C9. A job row is well formed in every reachable state: it is leased exactly when it has a
  deadline, assigned exactly when leased or completed, has a result exactly when completed, is never
  \<open>failed\<close>, and its manifest is the one of its id and kind.\<close>

theorem job_rows_well_formed:
  assumes "reachable P s" "find_job i s = Some j"
  shows "(jb_state j = Leased \<longleftrightarrow> jb_lease_expires j \<noteq> None) \<and>
    (jb_state j = Queued \<longleftrightarrow> jb_assigned_worker j = None) \<and>
    (jb_state j = Completed \<longleftrightarrow> jb_result j \<noteq> None) \<and> jb_state j \<noteq> Failed \<and>
    mf_job_id (jb_manifest j) = i \<and> mf_kind (jb_manifest j) = jb_kind j \<and> 0 < jb_units j"
proof -
  have "job_wf j \<and> jb_job_id j = i"
    using reachable_job_part [OF assms(1)] find_job_Some [OF assms(2)] by (auto simp: job_part_def jobs_wf_def)
  then show ?thesis by (auto simp: job_wf_def split: job_state.splits)
qed

theorem job_rows_well_formed_witness:
  "jb_lease_expires (leased_to ''w'' 22000004 2000005 demo_job) \<noteq> None"
  using job_rows_well_formed [OF demo_reachable(3), of "''j''" "leased_to ''w'' 22000004 2000005 demo_job"]
  by (simp add: find_job_def select_where_def leased_rows)

text \<open>C8. Work is never lost or altered: whatever requests follow, a job keeps its manifest, input
  and worth, and a completed job keeps its whole row.\<close>

theorem jobs_are_kept:
  assumes "fleet_steps P s s'" "find_job i s = Some j"
  shows "\<exists>j'. find_job i s' = Some j' \<and> jb_manifest j' = jb_manifest j \<and> jb_input j' = jb_input j \<and>
    jb_units j' = jb_units j \<and> (jb_state j = Completed \<longrightarrow> j' = j)"
  using jobs_keep_steps [of P s s'] assms
  by (fastforce simp: fleet_steps_def jobs_keep_def job_keeps_def find_job_lookup)

theorem jobs_are_kept_witness:
  "\<exists>j'. find_job ''j'' leased_db = Some j' \<and> jb_units j' = 3"
proof -
  have "fleet_steps demo_prims submitted_db leased_db" unfolding leased_db_def by (rule serve_steps)
  moreover have "find_job ''j'' submitted_db = Some demo_job"
    by (simp add: find_job_def select_where_def submitted_rows)
  ultimately show ?thesis using jobs_are_kept by fastforce
qed



text \<open>C13. In every reachable state the audit log verifies from the first event to the last.\<close>

theorem audit_log_verifies:
  assumes "reachable P s" "sha256_nonempty P"
  shows "ar_ok (verify_audit_chain P s)"
  using reachable_inv [OF assms] by (simp add: fleet_inv_def audit_wf_verify)

theorem audit_log_verifies_witness: "ar_ok (verify_audit_chain demo_prims completed_db)"
proof -
  have "sha256_nonempty demo_prims" by (simp add: sha256_nonempty_def demo_prims_def)
  with audit_log_verifies [OF demo_reachable(4)] show ?thesis .
qed

end
