(* ===== verification/Access_Properties.thy ===== *)
theory Access_Properties imports Standing Demo begin

text \<open>
  What each request of the orchestrator guarantees: who gets work and credit, who can change a
  device's standing, what tampering with the log would take. The witnesses use the history of \<open>Demo\<close>
  or small states of their own.
\<close>

lemma find_job_emit [simp]: "find_job i (emit P now t w j d s) = find_job i s"
  by (simp add: find_job_def)

lemma find_job_take:
  "find_job i s = Some j \<Longrightarrow> jb_state j = Queued \<Longrightarrow> find_job i (take_lease w i d t s) = Some (leased_to w d t j)"
  using find_job_Some [of i s j] by (simp add: find_job_lookup jt.lookup_update queued_with_id_def)

section \<open>Work and credit\<close>

text \<open>C3. Work is only handed to an authenticated, admitted, unbanned, harvesting device that holds no
  lease, whose live resources satisfy the job and whose server-assigned tier clears its data
  classification; the job is the oldest such one, and it comes signed, leased for 20 seconds.\<close>

theorem assignment_is_authorised:
  assumes "reachable P s" "jobs_next P mb cf clk w sfp a s = (s', Inr (Some asg))"
  shows "\<exists>worker j. find_worker w s = Some worker \<and> presents a (wk_token worker) \<and>
    device_bound cf worker (verified_client_fingerprint sfp) \<and> wk_approved worker \<and>
    \<not> wk_blacklisted worker \<and> \<not> cap_measurement_only (wk_capability worker) \<and>
    capability_match (mf_requires (jb_manifest j)) (wk_capability worker) (wk_free_ram_gb worker) \<and>
    may_route (mf_data_classification (jb_manifest j)) (wk_trust_tier worker) \<and>
    (\<forall>i \<in> set (queued_jobs s). eligible (wk_capability worker) (wk_free_ram_gb worker) (wk_trust_tier worker) i
        \<longrightarrow> queue_key j \<le> queue_key i) \<and>
    asg = \<lparr>ja_signed_manifest = sign P mb (cf_signer cf) (jb_manifest j), ja_input = jb_input j\<rparr> \<and>
    find_job (jb_job_id j) s' = Some (leased_to w (clk 4 + seconds 20) (clk 5) j)"
  using assms(2)
proof (cases rule: jobs_next_cases)
  case (assigned worker j)
  let ?s1 = "reap_expired (clk 1) (clk 2) s"
  let ?el = "eligible (wk_capability worker) (wk_free_ram_gb worker) (wk_trust_tier worker)"
  have wf: "worker_wf worker" "wk_worker_id worker = w"
    using reachable_workers_wf [OF assms(1)] find_worker_Some [OF assigned(2)] by (auto simp: workers_wf_def)
  have "wk_trust_tier worker \<noteq> []" using wf(1) by (auto simp: worker_wf_def TIERS_def)
  moreover have "find_worker w ?s1 = Some worker" using assigned(2) by (simp add: find_worker_def)
  ultimately have tier: "device_tier (cap_worker_id (wk_capability worker)) ?s1 = wk_trust_tier worker"
    using wf by (simp add: device_tier_def worker_wf_def)
  note pick = pick_job_for_Some [OF assigned(9), unfolded tier]
  have "job_part ?s1" by (rule job_part_step [OF fleet_step.Reap reachable_job_part [OF assms(1)]])
  then have "jt.unique_keys (db_jobs ?s1)" by (simp add: job_part_def jobs_wf_def)
  then have "find_job (jb_job_id j) ?s1 = Some j" using pick(1) by (simp add: find_job_lookup jt.lookup_unique)
  then have leased: "find_job (jb_job_id j) s' = Some (leased_to w (clk 4 + seconds 20) (clk 5) j)"
    using find_job_take [of "jb_job_id j" ?s1 j] pick(2) assigned(11)
    by (simp add: lease_deadline_def LEASE_SECONDS_def)
  have "queue_key j \<le> queue_key i" if "i \<in> set (queued_jobs s)" "?el i" for i
  proof -
    have "i \<in> set (db_jobs ?s1) \<and> jb_state i = Queued"
      using that(1) by (auto simp: set_queued_jobs set_update_where lease_before_def image_iff)
    with that(2) show ?thesis using pick_job_for_oldest [OF assigned(9)] tier by simp
  qed
  with assigned pick leased show ?thesis by (intro exI [of _ worker] exI [of _ j]) (simp add: eligible_def)
qed auto

theorem assignment_is_authorised_witness:
  "\<exists>asg worker. jobs_next demo_prims demo_mbytes demo_config (demo_clock 2) ''w'' None (Some ''Bearer tok'') submitted_db
      = (leased_db, Inr (Some asg)) \<and> find_worker ''w'' submitted_db = Some worker \<and> wk_approved worker"
proof -
  obtain asg where "jobs_next demo_prims demo_mbytes demo_config (demo_clock 2) ''w'' None (Some ''Bearer tok'') submitted_db
      = (leased_db, Inr (Some asg))" using demo_assignment by blast
  with assignment_is_authorised [OF demo_reachable(2) this] show ?thesis by blast
qed

text \<open>C4. Credit is given only for a live lease held by the caller, within the size limit, with a
  matching proof when one is sent and a right answer when the job is a challenge; then it is the
  job's own worth, recorded once. In every other case the ledger is untouched.\<close>

theorem credit_is_earned:
  assumes "results P cf clk jid sfp req a s = (s', Inr resp)"
  shows "if rp_accepted resp then
      (\<exists>worker j. find_worker (rs_worker_id req) s = Some worker \<and> presents a (wk_token worker) \<and>
         \<not> wk_blacklisted worker \<and> rs_job_id req = jid \<and> find_job jid s = Some j \<and>
         live_lease j (rs_worker_id req) (clk 1) \<and> rs_status req = StCompleted \<and>
         length (dumps_ascii (p_float_repr P) (JObj (result_output req))) \<le> MAX_RESULT_OUTPUT_BYTES \<and>
         \<not> proof_mismatch P req \<and>
         (mf_kind (jb_manifest j) = ''challenge'' \<longrightarrow>
            (\<exists>e. challenge_expected (jb_input j) = Inr e \<and> check_challenge (result_output req) e)) \<and>
         rp_credited resp = job_credits j \<and>
         db_ledger s' = db_ledger s @
           [\<lparr>lg_id = Suc (db_ledger_seq s), lg_worker_id = rs_worker_id req, lg_job_id = Some jid,
             lg_credits = job_credits j, lg_reason = Some ''completed'', lg_created_at = clk 1\<rparr>])
    else rp_credited resp = 0 \<and> db_ledger s' = db_ledger s"
  using assms
proof (cases rule: results_cases)
  case (banned worker)
  then show ?thesis by (simp add: rejected_def)
next
  case (decided worker)
  from decided(6) show ?thesis
  proof (cases rule: results_section_cases)
    case unchanged
    from unchanged(2) [of resp] have "\<exists>x. resp = rejected x" by auto
    with unchanged(1) show ?thesis by (auto simp: rejected_def)
  next
    case (requeued j ty)
    then show ?thesis by (auto simp: rejected_def)
  next
    case (blacklisted j expected)
    then show ?thesis by (simp add: rejected_def)
  next
    case (credited j)
    have "jb_job_id j = jid" using find_job_Some [OF credited(1)] decided(1) by simp
    with credited decided show ?thesis
      by (auto simp: accept_result_def intro!: exI [of _ j])
  qed
qed simp

theorem credit_is_earned_witness:
  "\<exists>resp. results demo_prims demo_config (demo_clock 3) ''j'' None demo_result (Some ''Bearer tok'') leased_db
      = (completed_db, Inr resp) \<and> rp_accepted resp \<and> rp_credited resp = job_credits demo_job \<and>
      \<not> proof_mismatch demo_prims demo_result"
proof -
  obtain resp where r: "results demo_prims demo_config (demo_clock 3) ''j'' None demo_result (Some ''Bearer tok'') leased_db
      = (completed_db, Inr resp)" "rp_accepted resp" using demo_credit by blast
  have j: "find_job ''j'' leased_db = Some (leased_to ''w'' 22000004 2000005 demo_job)"
    by (simp add: find_job_def select_where_def leased_rows)
  from credit_is_earned [OF r(1)] r(2) j show ?thesis
    by (intro exI [of _ resp]) (auto simp: r(1) job_credits_def)
qed

section \<open>A device's standing\<close>

text \<open>C5. A request changes an enrolled device's trust tier only in two ways: an authorised admin
  assigns that device a tier of the ladder, or that very device registers with an attestation that
  verifies under the configured authority key for its own id, has not expired, and its tier was not
  pinned; then it has the tier its claims derive. No other device's tier moves.\<close>

theorem tier_changes_are_authorised:
  assumes "find_worker v s = Some r" "find_worker v (serve P mb cf clk req s) = Some r'"
    "wk_trust_tier r' \<noteq> wk_trust_tier r"
  shows "(\<exists>t a. req = ReqTier v t a \<and> admits (admin_credential cf) a \<and> t \<in> set TIERS \<and> wk_trust_tier r' = t) \<or>
    (\<exists>token code sfp cap key att. req = ReqRegister token code sfp cap \<and> cap_worker_id cap = v \<and>
       \<not> wk_tier_pinned r \<and> cf_attestation_pubkey cf = Some key \<and> key \<noteq> [] \<and> cap_attestation cap = Some att \<and>
       verify_attestation P att (Some key) v (clk 2) \<and> wk_trust_tier r' = derive_tier att)"
proof -
  have kept: False if "st.workers_keep s (serve P mb cf clk req s)"
    using st.workers_keepD [OF that assms(1,2)] assms(3) by (simp add: same_standing_def)
  show ?thesis
  proof (cases req)
    case (ReqRegister token code sfp cap)
    obtain x where reg: "register P cf clk token code sfp cap s = (serve P mb cf clk req s, x)"
      using ReqRegister by (cases "register P cf clk token code sfp cap s") simp
    from register_standing [OF reg assms(1,2)] assms(3)
    have "cap_worker_id cap = v" "\<not> wk_tier_pinned r" "attested_tier P cf (measured_capability cap) (clk 2) = Some (wk_trust_tier r')" by auto
    moreover have "cap_attestation (measured_capability cap) = Some att \<Longrightarrow> cap_attestation cap = Some att" for att
      by (auto simp: measured_capability_def default_capability_def split: if_splits)
    ultimately show ?thesis using ReqRegister
      by (auto simp: attested_tier_def split: option.splits if_splits)
  next
    case (ReqTier w t a)
    obtain x where tier: "set_tier P cf clk w t a s = (serve P mb cf clk req s, x)"
      using ReqTier by (cases "set_tier P cf clk w t a s") simp
    show ?thesis
    proof (cases x)
      case (Inl e)
      with tier kept show ?thesis by (auto dest: set_tier_Inl standing_audited)
    next
      case (Inr u)
      with tier ReqTier assms show ?thesis
        by (auto simp: set_tier_Inr find_worker_tier is_valid_tier_def dest: find_worker_Some split: if_splits)
    qed
  next
    case (ReqApprove w a)
    obtain x where ap: "approve P cf clk w a s = (serve P mb cf clk req s, x)"
      using ReqApprove by (cases "approve P cf clk w a s") simp
    then have "only_audited s (serve P mb cf clk req s) \<or>
        find_worker v (serve P mb cf clk req s) = find_worker v (approve_section w s)"
      by (cases x) (auto simp: approve_Inr dest: approve_Inl)
    with assms kept show ?thesis
      by (auto simp: find_worker_approve dest: standing_audited split: if_splits)
  qed (use kept standing_quiet [of req s P mb cf clk] in auto)
qed

theorem tier_changes_are_authorised_witness:
  "\<exists>r'. find_worker ''w'' (serve demo_prims demo_mbytes demo_config (demo_clock 5)
        (ReqTier ''w'' ''managed'' None) registered_db) = Some r' \<and> wk_trust_tier r' = ''managed'' \<and>
      admits (admin_credential demo_config) None"
proof -
  have found: "find_worker ''w'' registered_db = Some demo_row" by (rule demo_found) (rule registered_rows)
  let ?r = "demo_row\<lparr>wk_trust_tier := ''managed'', wk_tier_pinned := True\<rparr>"
  let ?s = "serve demo_prims demo_mbytes demo_config (demo_clock 5) (ReqTier ''w'' ''managed'' None) registered_db"
  have "set_tier demo_prims demo_config (demo_clock 5) ''w'' ''managed'' None registered_db =
      (emit demo_prims (demo_clock 5 1) ''tier_assigned'' (Some ''w'') None (Some ''managed'')
        (tier_section ''w'' ''managed'' registered_db), Inr ())"
    using found by (simp add: set_tier_Inr admits_def admin_credential_def demo_config_def is_valid_tier_def TIERS_def)
  then have after: "find_worker ''w'' ?s = Some ?r" by (simp add: find_worker_tier found)
  have "wk_trust_tier ?r \<noteq> wk_trust_tier demo_row" by (simp add: DEFAULT_TRUST_TIER_def)
  from tier_changes_are_authorised [OF found after this] after show ?thesis by auto
qed

text \<open>C6. Approval is never withdrawn by a request that leaves the device enrolled, a ban never lifted,
  and a pending device is admitted only by an authorised admin, or by itself registering where the fleet
  does not require approval.\<close>

theorem admission_is_authorised:
  assumes "find_worker v s = Some r" "find_worker v (serve P mb cf clk req s) = Some r'"
  shows "(wk_approved r \<longrightarrow> wk_approved r') \<and> (wk_blacklisted r \<longrightarrow> wk_blacklisted r') \<and>
    (wk_approved r' \<and> \<not> wk_approved r \<longrightarrow>
       (\<exists>a. req = ReqApprove v a \<and> admits (admin_credential cf) a) \<or>
       (\<not> cf_require_approval cf \<and>
          (\<exists>token code sfp cap. req = ReqRegister token code sfp cap \<and> cap_worker_id cap = v)))"
proof -
  have kept: ?thesis if "st.workers_keep s (serve P mb cf clk req s)"
    using st.workers_keepD [OF that assms] by (auto simp: same_standing_def)
  show ?thesis
  proof (cases req)
    case (ReqRegister token code sfp cap)
    obtain x where reg: "register P cf clk token code sfp cap s = (serve P mb cf clk req s, x)"
      using ReqRegister by (cases "register P cf clk token code sfp cap s") simp
    from register_standing [OF reg assms] ReqRegister show ?thesis by auto
  next
    case (ReqTier w t a)
    obtain x where tier: "set_tier P cf clk w t a s = (serve P mb cf clk req s, x)"
      using ReqTier by (cases "set_tier P cf clk w t a s") simp
    then have "only_audited s (serve P mb cf clk req s) \<or>
        find_worker v (serve P mb cf clk req s) = find_worker v (tier_section w t s)"
      by (cases x) (auto simp: set_tier_Inr dest: set_tier_Inl)
    with assms kept show ?thesis by (auto simp: find_worker_tier dest: standing_audited split: if_splits)
  next
    case (ReqApprove w a)
    obtain x where ap: "approve P cf clk w a s = (serve P mb cf clk req s, x)"
      using ReqApprove by (cases "approve P cf clk w a s") simp
    show ?thesis
    proof (cases x)
      case (Inl e)
      with ap have "only_audited s (serve P mb cf clk req s)" by (auto dest: approve_Inl)
      then show ?thesis by (intro kept standing_audited)
    next
      case (Inr u)
      with ap ReqApprove assms show ?thesis
        by (auto simp: approve_Inr find_worker_approve dest: find_worker_Some split: if_splits)
    qed
  qed (use kept standing_quiet [of req s P mb cf clk] in auto)
qed

theorem admission_is_authorised_witness:
  "wk_approved (demo_row\<lparr>wk_idle := False, wk_last_heartbeat := Some 2000005\<rparr>)"
proof -
  have a: "find_worker ''w'' submitted_db = Some demo_row" by (rule demo_found) (rule submitted_rows)
  have "find_worker ''w'' leased_db = Some (demo_row\<lparr>wk_idle := False, wk_last_heartbeat := Some 2000005\<rparr>)"
    by (simp add: find_worker_def select_where_def leased_rows)
  from admission_is_authorised [OF a this [unfolded leased_db_def]] show ?thesis by simp
qed

lemma verified_fingerprint_ascii: "verified_client_fingerprint v = Some f \<Longrightarrow> is_ascii f"
proof -
  assume "verified_client_fingerprint v = Some f"
  then have "set f \<subseteq> set HEX_CHARS"
    by (auto simp: verified_client_fingerprint_def Let_def list_ex_iff split: option.splits if_splits)
  moreover have "is_ascii HEX_CHARS" by code_simp
  ultimately show ?thesis unfolding is_ascii_def by blast
qed

text \<open>C15. Device binding: a worker id bound to one certificate cannot be taken over by registering
  with another certificate or none; the attempt fails with 401 or 403 and changes nothing.\<close>

theorem bound_device_cannot_be_taken_over:
  assumes "cf_bind_device_identity cf" "find_worker (cap_worker_id cap) s = Some r"
    "wk_cert_fingerprint r = Some f" "f \<noteq> []" "is_ascii f" "verified_client_fingerprint sfp \<noteq> Some f"
  shows "\<exists>status detail. register P cf clk token code sfp cap s = (s, Inl (HTTPException status detail)) \<and>
    status \<in> {401, 403}"
proof (cases "verified_client_fingerprint sfp")
  case None
  with assms(1) show ?thesis by (simp add: register_def Let_def)
next
  case (Some g)
  show ?thesis
  proof (cases "g = []")
    case True
    with Some assms(1) show ?thesis by (simp add: register_def Let_def)
  next
    case False
    have "compare_digest f g = Some False"
      using Some assms(5,6) verified_fingerprint_ascii [OF Some] by (simp add: compare_digest_def)
    with Some False assms show ?thesis
      by (simp add: register_def register_section_def check_binding_def Let_def)
  qed
qed

theorem bound_device_cannot_be_taken_over_witness:
  "\<exists>status detail. register demo_prims (demo_config\<lparr>cf_bind_device_identity := True\<rparr>) (demo_clock 0) ''evil'' []
      None (default_capability ''w'') (registered_db\<lparr>db_workers := [demo_row\<lparr>wk_cert_fingerprint := Some ''ab''\<rparr>]\<rparr>)
      = (registered_db\<lparr>db_workers := [demo_row\<lparr>wk_cert_fingerprint := Some ''ab''\<rparr>]\<rparr>,
         Inl (HTTPException status detail)) \<and> status \<in> {401, 403}"
proof (rule bound_device_cannot_be_taken_over
    [where r = "demo_row\<lparr>wk_cert_fingerprint := Some ''ab''\<rparr>" and f = "''ab''"])
  show "is_ascii ''ab''" by code_simp
qed (simp_all add: find_worker_def select_where_def verified_client_fingerprint_def)

text \<open>
  Without device binding nothing ties a worker id to whoever registered it: registering an approved id
  again, with no credential at all, answers with a fresh token that is approved at once, whatever the
  approval gate says, and keeps the tier an administrator gave the device.
\<close>

lemma reregistration_inherits_approval:
  assumes "\<not> cf_bind_device_identity cf" "cf_attestation_pubkey cf = None"
    and "find_worker (cap_worker_id cap) s = Some r" "wk_approved r"
  shows "\<exists>s' r'. register P cf clk tok code fp cap s =
      (s', Inr \<lparr>rr_worker_token = tok, rr_device_code = None, rr_approved = True\<rparr>) \<and>
    find_worker (cap_worker_id cap) s' = Some r' \<and> wk_token r' = tok \<and> wk_approved r' \<and> wk_trust_tier r' = wk_trust_tier r"
proof -
  have id: "cap_worker_id (measured_capability cap) = cap_worker_id cap"
    by (simp add: measured_capability_def default_capability_def)
  show ?thesis using assms
    by (simp add: register_def register_section_def check_binding_def attest_def Let_def id find_worker_upsert
        reregistered_def)
qed

end
