(* ===== verification/Trust_Properties.thy ===== *)
theory Trust_Properties imports Standing Demo begin

text \<open>
  Properties of the trust machinery: the Foundry gateway's bounds, signatures and attestations
  (under the documented laws of Ed25519), what tampering with the audit log would take, how the
  feed pages, and that an expired or waiting job finds a worker.
\<close>

section \<open>Signatures\<close>

text \<open>C17. A manifest the orchestrator signed verifies for a worker that pinned the orchestrator's
  key, also when the pin is upper case or padded, and for no worker that pinned another key.\<close>

theorem signed_manifest_verifies:
  assumes "ed25519_correct P" "ed25519_nonempty P"
  shows "verify_manifest P mb (sign P mb sg m) (Some (public_key_hex P sg)) \<and>
    (\<forall>pin. lower (strip pin) \<noteq> lower (strip (public_key_hex P sg)) \<longrightarrow>
       \<not> verify_manifest P mb (sign P mb sg m) (Some pin))"
  using assms
  by (auto simp: verify_manifest_def sign_def public_key_hex_def ed25519_correct_def ed25519_nonempty_def)

lemma demo_ed25519: "ed25519_correct demo_prims" "ed25519_nonempty demo_prims"
  by (simp_all add: ed25519_correct_def ed25519_nonempty_def demo_prims_def)

theorem signed_manifest_verifies_witness:
  "verify_manifest demo_prims demo_mbytes
     (sign demo_prims demo_mbytes (cf_signer demo_config) (jb_manifest demo_job))
     (Some (public_key_hex demo_prims (cf_signer demo_config)))"
  using signed_manifest_verifies [OF demo_ed25519] by blast

text \<open>C18. An attestation signed by the authority is accepted exactly for the device it names and
  exactly until it expires.\<close>

theorem attestation_accepted_iff:
  assumes "ed25519_correct P" "ed25519_nonempty P"
  shows "verify_attestation P (sign_attestation P claims sg) (Some (public_key_hex P sg)) w now \<longleftrightarrow>
    at_worker_id claims = w \<and> (\<forall>t. at_expires_at claims = Some t \<longrightarrow> now < t)"
  using assms
  by (auto simp: verify_attestation_iff sign_attestation_def public_key_hex_def sign_bytes_def
      ed25519_correct_def ed25519_nonempty_def)

definition demo_claims :: device_attestation where
  "demo_claims = \<lparr>at_worker_id = ''w'', at_compliant = True, at_managed = True, at_sanctioned = False,
     at_tee = False, at_issued_at = 0, at_expires_at = Some 10, at_signature = [], at_signer_pubkey = []\<rparr>"

theorem attestation_accepted_iff_witness:
  "verify_attestation demo_prims (sign_attestation demo_prims demo_claims (cf_signer demo_config))
     (Some (public_key_hex demo_prims (cf_signer demo_config))) ''w'' 9 \<and>
   \<not> verify_attestation demo_prims (sign_attestation demo_prims demo_claims (cf_signer demo_config))
     (Some (public_key_hex demo_prims (cf_signer demo_config))) ''w'' 10"
  by (simp add: attestation_accepted_iff [OF demo_ed25519] demo_claims_def)

section \<open>The audit log\<close>

text \<open>What the chain covers of an event: its time and type, the worker, job and detail it names (the hash
  reads a missing one as the empty text), and both stored hashes. The row id is not hashed.\<close>

definition same_record :: "event \<Rightarrow> event \<Rightarrow> bool" where
  "same_record d e \<longleftrightarrow> ev_ts d = ev_ts e \<and> ev_type d = ev_type e \<and>
     or_empty (ev_worker_id d) = or_empty (ev_worker_id e) \<and> or_empty (ev_job_id d) = or_empty (ev_job_id e) \<and>
     or_empty (ev_detail d) = or_empty (ev_detail e) \<and> ev_prev_hash d = ev_prev_hash e \<and> ev_hash d = ev_hash e"

lemma same_record_content: "same_record d e \<Longrightarrow> content_of d = content_of e"
  by (simp add: same_record_def content_of_def)

lemma same_records_content: "list_all2 same_record ds es \<Longrightarrow> map content_of ds = map content_of es"
  by (induction rule: list_all2_induct) (auto dest: same_record_content)

lemma same_records_iff:
  assumes "ar_ok (walk_chain P h n ds)"
  shows "list_all2 same_record ds es \<longleftrightarrow> ar_ok (walk_chain P h m es) \<and> map content_of ds = map content_of es"
  using assms
proof (induction ds arbitrary: es h n m)
  case (Cons d ds)
  show ?case
  proof (cases es)
    case es: (Cons e es')
    from Cons.prems have d: "ev_prev_hash d = Some h" "ev_hash d = Some (link P h (content_of d))"
      "ar_ok (walk_chain P (link P h (content_of d)) (Suc n) ds)" by (simp_all add: walk_chain_ok_Cons del: walk_chain.simps)
    have "same_record d e \<longleftrightarrow> ev_prev_hash e = Some h \<and> ev_hash e = Some (link P h (content_of e)) \<and>
        content_of d = content_of e"
      using d(1,2) by (auto simp: same_record_def content_of_def)
    then show ?thesis using Cons.IH [OF d(3), of es' "Suc m"] es
      by (auto simp: walk_chain_ok_Cons simp del: walk_chain.simps)
  qed auto
qed (auto simp: list_all2_Nil)

lemma head_hash_ok:
  assumes "ar_ok (verify_audit_chain P u)" "sha256_nonempty P"
  shows "head_hash u = chain_head P AUDIT_GENESIS_HASH (map content_of (sort_key ev_id (db_events u)))"
proof (cases "sort_key ev_id (db_events u)" rule: rev_cases)
  case Nil
  then show ?thesis by (simp add: head_hash_def last_event_def chain_head_def)
next
  case (snoc es e)
  have "ev_hash e = Some (chain_head P AUDIT_GENESIS_HASH (map content_of (es @ [e])))"
    using assms(1) snoc by (simp add: verify_audit_chain_def walk_chain_ok_append)
  moreover have "chain_head P AUDIT_GENESIS_HASH (map content_of (es @ [e])) \<noteq> []"
    using link_nonempty [OF assms(2)] by (simp add: chain_head_def)
  moreover have "last_event u = Some e" unfolding last_event_def snoc by simp
  ultimately show ?thesis using snoc by (simp add: head_hash_def)
qed

text \<open>C14. Tamper evidence, exactly: beside a log that verifies, another log verifies too, with the same
  number of events and the same head hash, if and only if, in id order, each of its events agrees with
  its counterpart on the time, the type, the worker, job and detail and both stored hashes; unless
  SHA-256 collides. What a change can alter without being noticed is only what the hash leaves out: the
  row ids, where the order is kept, and whether a missing worker, job or detail is NULL or empty.\<close>

theorem audit_log_is_tamper_evident:
  assumes "ar_ok (verify_audit_chain P s)" "sha256_nonempty P" "\<not> sha256_collision P"
  shows "ar_ok (verify_audit_chain P t) \<and> length (db_events t) = length (db_events s) \<and> head_hash t = head_hash s \<longleftrightarrow>
    list_all2 (\<lambda>d e. ev_ts d = ev_ts e \<and> ev_type d = ev_type e \<and>
        or_empty (ev_worker_id d) = or_empty (ev_worker_id e) \<and> or_empty (ev_job_id d) = or_empty (ev_job_id e) \<and>
        or_empty (ev_detail d) = or_empty (ev_detail e) \<and> ev_prev_hash d = ev_prev_hash e \<and> ev_hash d = ev_hash e)
      (sort_key ev_id (db_events s)) (sort_key ev_id (db_events t))"
    (is "?L \<longleftrightarrow> list_all2 ?R ?s ?t")
proof -
  have R: "?R = same_record" by (simp add: fun_eq_iff same_record_def)
  note same = same_records_iff [OF assms(1) [unfolded verify_audit_chain_def], of ?t 0]
  have len: "length ?s = length (db_events s)" "length ?t = length (db_events t)" by simp_all
  show ?thesis
  proof
    assume L: ?L
    have "AUDIT_GENESIS_HASH = AUDIT_GENESIS_HASH \<and> map content_of ?s = map content_of ?t"
      by (rule chain_head_inj [OF _ _ _ _ assms(3)])
         (use L len head_hash_ok [OF assms(1,2)] head_hash_ok [of P t] assms(2) in auto)
    with L same show "list_all2 ?R ?s ?t" unfolding R by (simp add: verify_audit_chain_def)
  next
    assume "list_all2 ?R ?s ?t"
    then have r: "list_all2 same_record ?s ?t" unfolding R .
    with same have ok: "ar_ok (verify_audit_chain P t)" "map content_of ?s = map content_of ?t"
      by (simp_all add: verify_audit_chain_def)
    with r len head_hash_ok [OF assms(1,2)] head_hash_ok [OF ok(1) assms(2)] show ?L
      using list_all2_lengthD [OF r] by simp
  qed
qed

lemma demo_sha256: "sha256_nonempty demo_prims" "\<not> sha256_collision demo_prims"
  by (auto simp: sha256_nonempty_def sha256_collision_def demo_prims_def)

theorem audit_log_is_tamper_evident_witness:
  "ar_ok (verify_audit_chain demo_prims (completed_db\<lparr>db_jobs := []\<rparr>)) \<and>
   head_hash (completed_db\<lparr>db_jobs := []\<rparr>) = head_hash completed_db"
proof -
  have ok: "ar_ok (verify_audit_chain demo_prims completed_db)"
    using reachable_inv [OF demo_reachable(4) demo_sha256(1)] by (simp add: fleet_inv_def audit_wf_verify)
  have "list_all2 (\<lambda>d e. ev_ts d = ev_ts e \<and> ev_type d = ev_type e \<and>
        or_empty (ev_worker_id d) = or_empty (ev_worker_id e) \<and> or_empty (ev_job_id d) = or_empty (ev_job_id e) \<and>
        or_empty (ev_detail d) = or_empty (ev_detail e) \<and> ev_prev_hash d = ev_prev_hash e \<and> ev_hash d = ev_hash e)
      (sort_key ev_id (db_events completed_db)) (sort_key ev_id (db_events (completed_db\<lparr>db_jobs := []\<rparr>)))"
    by (simp add: list_all2_same)
  with audit_log_is_tamper_evident [OF ok demo_sha256] show ?thesis by blast
qed

text \<open>The limit of the evidence on a concrete log: renumbering an event, or replacing a missing job by
  an empty one, leaves the log verifying with the same head.\<close>

lemma renumbering_is_not_detected:
  "let s = emit demo_prims 0 ''registered'' (Some ''w'') None None init_db;
       t = s\<lparr>db_events := map (\<lambda>e. e\<lparr>ev_id := 7, ev_job_id := Some []\<rparr>) (db_events s)\<rparr>
   in ar_ok (verify_audit_chain demo_prims s) \<and> ar_ok (verify_audit_chain demo_prims t) \<and>
      head_hash t = head_hash s \<and> db_events t \<noteq> db_events s"
  by code_simp

text \<open>When the log does not verify, the reported id is that of the first bad event: everything
  before it is a valid chain, and it is not when that event is added.\<close>

theorem audit_break_is_located:
  assumes "\<not> ar_ok (verify_audit_chain P s)"
  shows "\<exists>us e vs. sort_key ev_id (db_events s) = us @ e # vs \<and>
    ar_ok (walk_chain P AUDIT_GENESIS_HASH 0 us) \<and> \<not> ar_ok (walk_chain P AUDIT_GENESIS_HASH 0 (us @ [e])) \<and>
    ar_broken_at (verify_audit_chain P s) = Some (ev_id e) \<and> ar_count (verify_audit_chain P s) = length us + 1"
  using walk_chain_broken [OF assms [unfolded verify_audit_chain_def]]
  by (simp add: verify_audit_chain_def)

definition forged_event :: event where
  "forged_event = \<lparr>ev_id = 7, ev_ts = [], ev_type = [], ev_worker_id = None, ev_job_id = None, ev_detail = None,
     ev_prev_hash = None, ev_hash = None\<rparr>"

theorem audit_break_is_located_witness:
  "ar_broken_at (verify_audit_chain demo_prims (init_db\<lparr>db_events := [forged_event]\<rparr>)) = Some 7"
proof -
  have "\<not> ar_ok (verify_audit_chain demo_prims (init_db\<lparr>db_events := [forged_event]\<rparr>))"
    by (simp add: verify_audit_chain_def forged_event_def)
  from audit_break_is_located [OF this] show ?thesis
    by (auto simp: forged_event_def Cons_eq_append_conv)
qed

section \<open>The Foundry gateway\<close>

text \<open>C16. Through the gateway only a registered tenant with its own token can enqueue, never above its
  clearance and never for a region outside its list; the job it enqueues carries the requested
  classification and the tenant's provenance in its manifest. A refusal enqueues nothing.\<close>

theorem foundry_is_bounded:
  assumes "foundry_route P cf clk jid req a s = (s', r)"
  shows "case r of
      Inl e \<Rightarrow> db_jobs s' = db_jobs s \<and> db_workers s' = db_workers s \<and> db_ledger s' = db_ledger s
    | Inr j \<Rightarrow> \<exists>ts t m new. cf_foundry_tenants cf = Some ts \<and> map_of ts (fr_tenant_id req) = Some t \<and>
        presents a (tn_token t) \<and> classes.at_most (fr_data_classification req) (tn_max_classification t) \<and>
        fr_region req \<in> set (tn_allowed_regions t) \<and> db_jobs s' = db_jobs s @ [new] \<and>
        jb_job_id new = j \<and> jb_state new = Queued \<and> jb_manifest new = m \<and>
        mf_data_classification m = fr_data_classification req \<and>
        mf_provenance m = Some \<lparr>pv_tenant_id = tn_tenant_id t, pv_region = fr_region req\<rparr>"
proof (cases r)
  case (Inl e)
  with assms foundry_route_Inl_audited only_audited_frame show ?thesis by fastforce
next
  case (Inr j)
  with assms show ?thesis
    by (auto simp: foundry_route_Inr enqueue_Inr classification_cleared_iff new_job_def new_manifest_def
        foundry_submit_request_def)
qed

definition demo_tenant :: foundry_tenant where
  "demo_tenant = \<lparr>tn_tenant_id = ''t'', tn_token = ''tok'', tn_max_classification = ''internal'',
     tn_allowed_regions = [''eu'']\<rparr>"

definition demo_foundry :: foundry_routing_request where
  "demo_foundry = \<lparr>fr_tenant_id = ''t'', fr_region = ''eu'', fr_kind = ''eval'', fr_input = [],
     fr_requires = None, fr_units = 1, fr_data_classification = ''restricted''\<rparr>"

theorem foundry_is_bounded_witness:
  "\<exists>s' e. foundry_route demo_prims (demo_config\<lparr>cf_foundry_tenants := Some [(''t'', demo_tenant)]\<rparr>) (demo_clock 0)
     ''j'' demo_foundry (Some ''Bearer tok'') init_db = (s', Inl e) \<and> db_jobs s' = []"
proof -
  let ?cf = "demo_config\<lparr>cf_foundry_tenants := Some [(''t'', demo_tenant)]\<rparr>"
  obtain s' r where f: "foundry_route demo_prims ?cf (demo_clock 0) ''j'' demo_foundry (Some ''Bearer tok'') init_db = (s', r)"
    by fastforce
  have "\<not> classes.at_most ''restricted'' ''internal''" unfolding classes.at_most_def by (simp add: CLASSIFICATIONS_def)
  with foundry_is_bounded [OF f] f show ?thesis
    by (cases r) (auto simp: demo_tenant_def demo_foundry_def init_db_def)
qed

section \<open>Progress\<close>

lemma pick_exists:
  assumes "j \<in> set (db_jobs s)" "jb_state j = Queued" "eligible cap f (device_tier (cap_worker_id cap) s) j"
  obtains k where "pick_job_for s cap f = Some k"
  using assms pick_job_for_None [of s cap f] by (cases "pick_job_for s cap f") auto

text \<open>C10. No starvation: when some job is eligible for an authenticated, admitted, unbanned worker
  without a live lease, and no waiting job it is eligible for is younger than the 1.5 s grace period, the
  worker's poll returns work. A job waits while it is queued, or when its holder let its lease pass.\<close>

theorem waiting_work_is_assigned:
  assumes "require_worker_token P cf (clk 0) w a (verified_client_fingerprint sfp) s = (s, Inr worker)"
    "wk_approved worker" "\<not> wk_blacklisted worker" "\<not> cap_measurement_only (wk_capability worker)"
    "\<not> worker_busy w (reap_expired (clk 1) (clk 2) s)"
    "j \<in> set (db_jobs s)" "jb_state j = Queued \<or> lease_before (clk 2) j"
    "eligible (wk_capability worker) (wk_free_ram_gb worker) (device_tier (cap_worker_id (wk_capability worker)) s) j"
    "\<forall>i \<in> set (db_jobs s). (jb_state i = Queued \<or> lease_before (clk 2) i) \<and>
       eligible (wk_capability worker) (wk_free_ram_gb worker) (device_tier (cap_worker_id (wk_capability worker)) s) i \<longrightarrow>
       clk 3 - jb_created_at i \<ge> 1500000"
  shows "\<exists>s' asg. jobs_next P mb cf clk w sfp a s = (s', Inr (Some asg))"
proof -
  let ?s1 = "reap_expired (clk 1) (clk 2) s" and ?cap = "wk_capability worker" and ?f = "wk_free_ram_gb worker"
  let ?j = "if lease_before (clk 2) j then requeued (clk 1) j else j"
  have "?j \<in> set (db_jobs ?s1)" using assms(6) by (auto simp: set_update_where)
  moreover have "jb_state ?j = Queued" using assms(7) by auto
  moreover have "eligible ?cap ?f (device_tier (cap_worker_id ?cap) ?s1) ?j"
    using assms(8) by (simp add: eligible_def device_tier_def find_worker_def)
  ultimately obtain k where k: "pick_job_for ?s1 ?cap ?f = Some k" by (rule pick_exists)
  have tier: "device_tier (cap_worker_id ?cap) ?s1 = device_tier (cap_worker_id ?cap) s"
    by (simp add: device_tier_def find_worker_def)
  note picked = pick_job_for_Some [OF k]
  from picked(1) obtain i where i: "i \<in> set (db_jobs s)" "k = (if lease_before (clk 2) i then requeued (clk 1) i else i)"
    by (auto simp: set_update_where)
  with picked tier have "jb_state i = Queued \<or> lease_before (clk 2) i" "jb_created_at k = jb_created_at i"
    "eligible ?cap ?f (device_tier (cap_worker_id ?cap) s) i"
    by (auto simp: eligible_def split: if_splits)
  with assms(9) i(1) have "\<not> defer_to_less_loaded ?s1 w (jb_created_at k) (clk 3)"
    by (fastforce dest: defer_only_while_fresh)
  with k assms(1-5) show ?thesis
    by (simp add: jobs_next_def and_then_def lease_section_def Let_def)
qed

theorem waiting_work_is_assigned_witness:
  "\<exists>s' asg. jobs_next demo_prims demo_mbytes demo_config (demo_clock 9) ''w'' None (Some ''Bearer tok'') submitted_db
     = (s', Inr (Some asg))"
proof (rule waiting_work_is_assigned [where worker = demo_row and j = demo_job])
  show "require_worker_token demo_prims demo_config (demo_clock 9 0) ''w'' (Some ''Bearer tok'')
      (verified_client_fingerprint None) submitted_db = (submitted_db, Inr demo_row)"
    by (rule demo_auth, rule demo_found, rule submitted_rows)
  show "eligible (wk_capability demo_row) (wk_free_ram_gb demo_row)
      (device_tier (cap_worker_id (wk_capability demo_row)) submitted_db) demo_job"
    by (simp add: eligible_def capability_match_def default_requires_def default_capability_def may_route_def
        MIN_TIER_FOR_CLASSIFICATION_def TIERS_def DEFAULT_TRUST_TIER_def device_tier_def demo_found submitted_rows)
qed (simp_all add: submitted_rows worker_busy_def lease_before_def holds_lease_def demo_clock_def seconds_def)

text \<open>A submission either queues exactly one new job, with the given kind, input, worth and
  classification, or changes nothing but the audit log; it succeeds exactly when the request is
  valid, authorised, worth a positive 64-bit amount, and its id is new.\<close>

theorem submit_enqueues_one:
  assumes "submit P cf clk jid req a s = (s', r)"
  shows "if valid_submit req \<and> admits (cf_submit_token cf) a \<and> 0 < sr_units req \<and> int64 (sr_units req) \<and>
        find_job jid s = None
    then r = Inr jid \<and> (\<exists>j. db_jobs s' = db_jobs s @ [j] \<and> jb_job_id j = jid \<and> jb_state j = Queued \<and>
        jb_kind j = sr_kind req \<and> jb_input j = sr_input req \<and> jb_units j = sr_units req \<and>
        mf_data_classification (jb_manifest j) = sr_data_classification req \<and> mf_provenance (jb_manifest j) = None)
    else (\<exists>e. r = Inl e) \<and> only_audited s s'"
proof (cases r)
  case (Inl e)
  have "\<not> (valid_submit req \<and> admits (cf_submit_token cf) a \<and> 0 < sr_units req \<and> int64 (sr_units req) \<and>
      find_job jid s = None)"
  proof
    assume ok: "valid_submit req \<and> admits (cf_submit_token cf) a \<and> 0 < sr_units req \<and> int64 (sr_units req) \<and>
      find_job jid s = None"
    then obtain t where "enqueue P req None jid clk ''submitted'' (sr_kind req) s = (t, Inr jid)"
      by (auto simp: enqueue_Inr)
    with ok have "submit P cf clk jid req a s = (t, Inr jid)" by (simp add: submit_Inr)
    with assms Inl show False by simp
  qed
  with assms Inl show ?thesis by (auto dest: submit_Inl_audited)
next
  case (Inr j)
  with assms show ?thesis by (auto simp: submit_Inr enqueue_Inr new_job_def new_manifest_def)
qed

theorem submit_enqueues_one_witness:
  "\<exists>j. db_jobs submitted_db = db_jobs registered_db @ [j] \<and> jb_units j = 3"
proof -
  obtain r where r: "submit demo_prims demo_config (demo_clock 1) ''j'' demo_submit None registered_db = (submitted_db, r)"
    by (cases "submit demo_prims demo_config (demo_clock 1) ''j'' demo_submit None registered_db")
       (simp add: submitted_db_def)
  have "valid_submit demo_submit \<and> admits (cf_submit_token demo_config) None \<and> 0 < sr_units demo_submit \<and>
      int64 (sr_units demo_submit) \<and> find_job ''j'' registered_db = None"
    by (simp add: demo_submit_def valid_submit_def JobKind_def DataClassification_def admits_def demo_config_def
        int64_def find_job_def select_where_def registered_rows)
  with submit_enqueues_one [OF r] show ?thesis by (auto simp: demo_submit_def)
qed

end
