(* ===== verification/Service_Properties.thy ===== *)
theory Service_Properties imports Demo begin

text \<open>
  Properties of the launch and measurement endpoints in reachable states of the fleet: a launch puts
  exactly the requested work in the queue, and a profile report touches its sender's row only.
\<close>

lemma reachable_class_weight:
  assumes "reachable P s" "w \<in> set (db_workers s)"
  shows "wk_class_weight w = 1 \<or> wk_class_weight w = 5"
proof -
  have "workers_wf (db_workers s)" by (rule reachable_workers_wf [OF assms(1)])
  then have "worker_wf w" using assms(2) by (auto simp: workers_wf_def)
  then show ?thesis by (simp add: worker_wf_def class_weight_for_def)
qed

text \<open>C22.
  An accepted launch enqueues exactly the tiles its builder cuts, in their order, and nothing else: for
  every tile one fresh queued job with that tile's kind, input and units, internal and with no special
  requirements, all under the returned workload id and with distinct ids in the order returned. The
  positive units add up to exactly the work asked for, also when the tiles are weighted by the live
  fleet in rounded arithmetic (works up to \<open>2 ^ 34\<close> units).
\<close>
theorem launch_enqueues_workload:
  assumes "reachable P s" "launch_workload P cf clk ids wl req a s = (s', Inr resp)"
    "work_of (resolve_tile_count s req) (lr_params req) \<le> 2 ^ 34"
  shows "admits (cf_submit_token cf) a \<and> wl_workload_id resp = wl \<and> db_workers s' = db_workers s \<and> db_ledger s' = db_ledger s \<and>
    (\<exists>specs js. build_workload_jobs (lr_kind req) (resolve_tile_count s req) (lr_params req)
          (capability_tile_weights s (resolve_tile_count s req)) = Inr specs \<and>
       db_jobs s' = db_jobs s @ js \<and> map jb_job_id js = wl_job_ids resp \<and>
       list_all2 (\<lambda>spec j. jb_kind j = js_kind spec \<and> jb_input j = js_input spec \<and> jb_units j = js_units spec \<and>
         mf_kind (jb_manifest j) = js_kind spec \<and> mf_data_classification (jb_manifest j) = ''internal'' \<and>
         mf_requires (jb_manifest j) = default_requires \<and> mf_limits (jb_manifest j) = default_limits) specs js \<and>
       distinct (map jb_job_id (db_jobs s')) \<and> sum_list (map jb_units js) = work_of (resolve_tile_count s req) (lr_params req) \<and>
       list_all (\<lambda>j. jb_kind j = lr_kind req \<and> jb_state j = Queued \<and> jb_workload_id j = Some wl \<and> 0 < jb_units j) js)"
proof -
  let ?n = "resolve_tile_count s req"
  from assms(2) obtain specs jids where l: "admits (cf_submit_token cf) a"
    "build_workload_jobs (lr_kind req) ?n (lr_params req) (capability_tile_weights s ?n) = Inr specs"
    "launch_specs P clk ids (lr_kind req) wl 0 specs s = (s', Inr jids)"
    "resp = \<lparr>wl_workload_id = wl, wl_kind = lr_kind req, wl_job_ids = jids\<rparr>"
    by (auto simp: launch_workload_Inr)
  from launch_specs_jobs [OF l(3)] obtain js where js: "db_jobs s' = db_jobs s @ js" "db_workers s' = db_workers s"
    "db_ledger s' = db_ledger s" "list_all2 (launched wl) specs js" "map jb_job_id js = jids" by auto
  have split: "split_ok (work_of ?n (lr_params req)) (capability_tile_weights s ?n)"
    using fleet_weights_ok(1) [OF _ resolve_tile_count_bounds(2)] reachable_class_weight [OF assms(1)] assms(3)
    by (auto simp: split_ok_def split: option.splits)
  have kind: "build_for (lr_params req) = lr_kind req" "build_with ?n (lr_params req) (capability_tile_weights s ?n) = Inr specs"
    using l(2) by (auto simp: build_workload_jobs_def split: if_splits)
  from build_with_work [OF kind(2) split] kind(1)
  have work: "units_of specs = work_of ?n (lr_params req)" "list_all (spec_ok (lr_kind req)) specs" by auto
  have "map jb_units js = map js_units specs"
    using js(4) by (induction rule: list_all2_induct) (auto simp: launched_def)
  moreover have "list_all (\<lambda>j. jb_kind j = lr_kind req \<and> jb_state j = Queued \<and> jb_workload_id j = Some wl \<and> 0 < jb_units j) js"
    using js(4) work(2) by (induction rule: list_all2_induct) (auto simp: launched_def spec_ok_def)
  moreover have "reachable P s'"
    using serve_reachable [OF assms(1), of demo_mbytes cf clk "ReqLaunch ids wl req a"] assms(2) by simp
  then have "distinct (map jb_job_id (db_jobs s'))"
    using reachable_job_part [of P s'] by (auto simp: job_part_def jobs_wf_def jt.unique_keys_def)
  moreover have "list_all2 (\<lambda>spec j. jb_kind j = js_kind spec \<and> jb_input j = js_input spec \<and> jb_units j = js_units spec \<and>
      mf_kind (jb_manifest j) = js_kind spec \<and> mf_data_classification (jb_manifest j) = ''internal'' \<and>
      mf_requires (jb_manifest j) = default_requires \<and> mf_limits (jb_manifest j) = default_limits) specs js"
    using js(4) by (rule list_all2_mono) (simp add: launched_def)
  ultimately show ?thesis using l(1,2,4) js(1-3,5) work(1) by (auto simp: units_of_def)
qed

definition demo_launch :: launch_request where
  "demo_launch = \<lparr>lr_kind = ''data.transform'', lr_n_tiles = Some 2, lr_oversubscribe = 1,
     lr_params = TransformParams 4 ''square''\<rparr>"

definition demo_ids :: "nat \<Rightarrow> str" where
  "demo_ids i = (if i = 0 then ''a'' else ''b'')"

lemma demo_launch_ok:
  "\<exists>s' resp. launch_workload demo_prims demo_config (demo_clock 0) demo_ids ''wl'' demo_launch None init_db = (s', Inr resp)"
  by (simp add: demo_launch_def launch_workload_def valid_launch_def and_then_def require_submit_token_def demo_config_def
      LAUNCHABLE_KINDS_def resolve_tile_count_def MAX_WORKLOAD_TILES_def capability_tile_weights_def tile_workers_def
      init_db_def select_where_def build_workload_jobs_def generate_jobs_def upto_rec1 spec_request_def valid_submit_def
      JobKind_def DataClassification_def submit_job_def insert_job_def new_job_def new_manifest_def int64_def find_job_def
      demo_ids_def demo_clock_def Let_def)

lemma launch_enqueues_workload_witness:
  "\<exists>s' resp js. launch_workload demo_prims demo_config (demo_clock 0) demo_ids ''wl'' demo_launch None init_db = (s', Inr resp) \<and>
     db_jobs s' = js \<and> sum_list (map jb_units js) = 8"
proof -
  obtain s' resp where l: "launch_workload demo_prims demo_config (demo_clock 0) demo_ids ''wl'' demo_launch None init_db = (s', Inr resp)"
    using demo_launch_ok by blast
  have n: "resolve_tile_count init_db demo_launch = 2"
    by (simp add: resolve_tile_count_def demo_launch_def MAX_WORKLOAD_TILES_def)
  have w: "work_of (resolve_tile_count init_db demo_launch) (lr_params demo_launch) = 8"
    unfolding n by (simp add: demo_launch_def)
  from launch_enqueues_workload [OF reachable.start l, unfolded w] l show ?thesis by (auto simp: init_db_def)
qed

lemma launchable_valid: "k \<in> set LAUNCHABLE_KINDS \<Longrightarrow> k \<in> set JobKind"
  by (auto simp: LAUNCHABLE_KINDS_def JobKind_def)

text \<open>What a caller without the submit token is told.\<close>

lemma refused_submit_error:
  assumes "require_submit_token P cf now a s = (t, Inl e)"
  shows "if \<exists>tok h. cf_submit_token cf = Some tok \<and> a = Some h \<and> startswith h ''Bearer '' \<and>
        provided_token h \<noteq> [] \<and> \<not> (is_ascii (provided_token h) \<and> is_ascii tok)
    then e = Uncaught ''TypeError: comparing strings with non-ASCII characters is not supported''
    else e \<in> HTTPException 401 ` {''missing bearer token'', ''invalid authorization scheme'', ''invalid submit token''}"
proof -
  obtain tok where tok: "cf_submit_token cf = Some tok"
    "gate P now ''submit: '' ''invalid submit token'' tok a s = (t, Inl e)"
    using assms by (auto simp: require_submit_token_def split: option.splits if_splits)
  show ?thesis
  proof (cases a)
    case None
    with tok show ?thesis by (simp add: gate_def check_bearer_def deny_def)
  next
    case (Some h)
    have "startswith [] ''Bearer '' = False" by code_simp
    with tok Some show ?thesis
      by (auto simp: gate_def check_bearer_def deny_def bearer_def Let_def compare_digest_def TypeErr_def
          split: if_splits bool.splits)
  qed
qed

lemma units_member: "list_all (spec_ok k) specs \<Longrightarrow> spec \<in> set specs \<Longrightarrow> js_units spec \<le> units_of specs"
proof (induction specs)
  case (Cons x xs)
  have "0 \<le> units_of xs" using Cons.prems(1) by (auto simp: units_of_def spec_ok_def list_all_iff less_imp_le intro!: sum_list_nonneg)
  then show ?case using Cons by (auto simp: units_of_def spec_ok_def)
qed simp

text \<open>C29.
  With ids that are fresh and distinct (they are random UUIDs) and for works up to \<open>2 ^ 34\<close> units, a
  launch that fails leaves no job behind, and the error is determined: an invalid request is a 422, a
  missing or wrong submit token a 401 (an unhandled \<open>TypeError\<close>, answered 500, exactly when the token sent
  or the configured one is not ASCII), an unknown kind and parameters the builder rejects are a 400. Once
  the tiles are built, all of them are enqueued, so no launch stops half-way through its tiles.
\<close>
theorem failed_launch_leaves_nothing:
  assumes "reachable P s" "launch_workload P cf clk ids wl req a s = (s', Inl e)"
    "inj ids" "\<forall>i. find_job (ids i) s = None" "work_of (resolve_tile_count s req) (lr_params req) \<le> 2 ^ 34"
  shows "db_jobs s' = db_jobs s \<and> db_workers s' = db_workers s \<and> db_ledger s' = db_ledger s \<and>
    (if \<not> valid_launch req then e = HTTPException 422 ''validation error''
     else if \<not> admits (cf_submit_token cf) a then
       (if \<exists>tok h. cf_submit_token cf = Some tok \<and> a = Some h \<and> startswith h ''Bearer '' \<and>
             provided_token h \<noteq> [] \<and> \<not> (is_ascii (provided_token h) \<and> is_ascii tok)
        then e = Uncaught ''TypeError: comparing strings with non-ASCII characters is not supported''
        else e \<in> HTTPException 401 ` {''missing bearer token'', ''invalid authorization scheme'', ''invalid submit token''})
     else if lr_kind req \<notin> set LAUNCHABLE_KINDS then e = HTTPException 400 ''kind must be one of LAUNCHABLE_KINDS''
     else e = HTTPException 400 ''could not build workload'')"
proof -
  let ?n = "resolve_tile_count s req"
  let ?built = "build_workload_jobs (lr_kind req) ?n (lr_params req) (capability_tile_weights s ?n)"
  obtain t x where g: "require_submit_token P cf (clk 0) a s = (t, x)" by fastforce
  note t = only_audited_frame [OF require_submit_token_audited [OF g]]
  show ?thesis
  proof (cases "valid_launch req \<and> admits (cf_submit_token cf) a \<and> lr_kind req \<in> set LAUNCHABLE_KINDS")
    case refused: False
    have "x = Inr () \<longleftrightarrow> admits (cf_submit_token cf) a" "x = Inr () \<Longrightarrow> t = s"
      using require_submit_token_Inr [of P cf "clk 0" a s s "()"] require_submit_token_Inr [of P cf "clk 0" a s t "()"]
      unfolding g by (metis prod.inject)+
    note pass = this
    show ?thesis
    proof (cases "valid_launch req \<and> \<not> admits (cf_submit_token cf) a")
      case True
      with pass obtain d where "x = Inl d" by (cases x) auto
      then have g': "require_submit_token P cf (clk 0) a s = (t, Inl d)" using g by simp
      then have "e = d" "t = s'" using True assms(2) by (simp_all add: launch_workload_def and_then_def)
      moreover note refused_submit_error [OF g']
      ultimately show ?thesis using True t by (simp only: not_not if_True if_False simp_thms)
    next
      case False
      with refused pass assms(2) g t show ?thesis
        by (cases x) (auto simp: launch_workload_def and_then_def split: if_splits)
    qed
  next
    case True
    then have pass: "require_submit_token P cf (clk 0) a s = (s, Inr ())" by (simp add: require_submit_token_Inr)
    show ?thesis
    proof (cases ?built)
      case (Inl d)
      then obtain m where "d = ValueError m \<or> d = TypeError m"
        using True build_with_errors by (fastforce simp: build_workload_jobs_def split: if_splits)
      then show ?thesis using assms(2) pass True Inl by (auto simp: launch_workload_def and_then_def Let_def)
    next
      case (Inr specs)
      have split: "split_ok (work_of ?n (lr_params req)) (capability_tile_weights s ?n)"
        using fleet_weights_ok(1) [OF _ resolve_tile_count_bounds(2)] reachable_class_weight [OF assms(1)] assms(5)
        by (auto simp: split_ok_def split: option.splits)
      have kind: "build_for (lr_params req) = lr_kind req" "build_with ?n (lr_params req) (capability_tile_weights s ?n) = Inr specs"
        using Inr by (auto simp: build_workload_jobs_def split: if_splits)
      have work: "units_of specs = work_of ?n (lr_params req)" "list_all (spec_ok (lr_kind req)) specs"
        using build_with_work [OF kind(2) split] kind(1) by auto
      have "list_all (\<lambda>spec. valid_submit (spec_request spec) \<and> 0 < js_units spec \<and> int64 (js_units spec)) specs"
        using work units_member [OF work(2)] assms(5) launchable_valid True
        by (fastforce simp: list_all_iff spec_ok_def valid_submit_def spec_request_def DataClassification_def int64_def)
      from launch_specs_total [OF this assms(3), of 0 s] assms(4)
      obtain s2 jids where "launch_specs P clk ids (lr_kind req) wl 0 specs s = (s2, Inr jids)" by blast
      then show ?thesis using assms(2) pass True Inr by (auto simp: launch_workload_def and_then_def Let_def)
    qed
  qed
qed

lemma failed_launch_leaves_nothing_witness:
  "\<exists>s' e. launch_workload demo_prims demo_config (demo_clock 0) (\<lambda>i. replicate i CHR ''x'') ''wl''
      (demo_launch\<lparr>lr_params := TransformParams 0 ''square''\<rparr>) None init_db = (s', Inl e) \<and> db_jobs s' = [] \<and>
      e = HTTPException 400 ''could not build workload''"
proof -
  let ?req = "demo_launch\<lparr>lr_params := TransformParams 0 ''square''\<rparr>"
  have n: "resolve_tile_count init_db ?req = 2"
    by (simp add: resolve_tile_count_def demo_launch_def MAX_WORKLOAD_TILES_def)
  have req: "valid_launch ?req" "lr_kind ?req \<in> set LAUNCHABLE_KINDS" "admits (cf_submit_token demo_config) None"
    by (simp_all add: demo_launch_def valid_launch_def LAUNCHABLE_KINDS_def admits_def demo_config_def)
  obtain s' e where l: "launch_workload demo_prims demo_config (demo_clock 0) (\<lambda>i. replicate i CHR ''x'') ''wl'' ?req None init_db = (s', Inl e)"
    using req n by (simp add: launch_workload_def and_then_def require_submit_token_def demo_config_def
        build_workload_jobs_def Let_def) (simp add: demo_launch_def generate_jobs_def)
  have "inj (\<lambda>i. replicate i CHR ''x'')" by (rule injI) (metis length_replicate)
  from failed_launch_leaves_nothing [OF reachable.start l this] l req show ?thesis
    unfolding n by (simp add: demo_launch_def init_db_def find_job_def select_where_def)
qed

text \<open>
  A profile report is stored only for an approved worker that presented its own token (and, with device
  binding, its own certificate), and changes that worker's summary and nothing else: no other row, no
  job, no credit, no trust decision. What is stored is in range.
\<close>
theorem profile_ingest_is_authorised:
  assumes "ingest_profile P C cf clk fp r a s = (s', Inr resp)"
  shows "\<exists>worker c. find_worker (pr_worker_id r) s = Some worker \<and> presents a (wk_token worker) \<and>
      device_bound cf worker (verified_client_fingerprint fp) \<and> wk_approved worker \<and> profile_ok c \<and>
      po_coverage_buckets resp = cp_coverage_buckets c \<and> db_workers s' = db_workers s \<and> db_jobs s' = db_jobs s \<and>
      db_ledger s' = db_ledger s \<and> db_events s' = db_events s \<and>
      (\<forall>w. pt.lookup w (db_profiles s') =
         (if w = pr_worker_id r
          then Some \<lparr>pf_worker_id = w, pf_profile = c, pf_coverage = cp_coverage_buckets c, pf_updated_at = clk 1\<rparr>
          else pt.lookup w (db_profiles s)))"
  using assms
proof (rule ingest_profile_Inr)
  fix worker c
  assume i: "valid_report r" "find_worker (pr_worker_id r) s = Some worker" "presents a (wk_token worker)"
    "device_bound cf worker (verified_client_fingerprint fp)" "wk_approved worker" "sanitize_profile_report C r = Inr c"
    "s' = upsert_profile \<lparr>pf_worker_id = pr_worker_id r, pf_profile = c, pf_coverage = cp_coverage_buckets c,
              pf_updated_at = clk 1\<rparr> s"
    "resp = \<lparr>po_accepted = True, po_coverage_buckets = cp_coverage_buckets c, po_buckets_stored = 0\<rparr>"
  have "profile_ok c" using sanitize_profile_report_ok [OF i(1), of C] i(6) by auto
  then show ?thesis using i by (intro exI [of _ worker] exI [of _ c]) (simp add: find_profile_upsert)
qed

definition demo_report :: profile_report where
  "demo_report =
     (let m = \<lparr>mi_avg = Fin 10, mi_peak = Fin 50, mi_recoverable_low = Fin 1, mi_recoverable_high = Fin 2\<rparr>
      in \<lparr>pr_worker_id = ''w'', pr_device_class = ''laptop'', pr_coverage_buckets = 5, pr_cpu = m, pr_gpu = m,
          pr_gpu_sampled = False, pr_ram_avg = Fin 40, pr_ram_headroom = Fin 60, pr_ac_avg = Fin 100,
          pr_availability = no_availability, pr_buckets = []\<rparr>)"

lemma profile_ingest_is_authorised_witness:
  "\<exists>s' resp. ingest_profile demo_prims demo_conv demo_config (demo_clock 1) None demo_report (Some ''Bearer tok'') registered_db = (s', Inr resp) \<and>
     (\<exists>row. pt.lookup ''w'' (db_profiles s') = Some row \<and> profile_ok (pf_profile row))"
proof -
  have r: "valid_report demo_report" "pr_worker_id demo_report = ''w''"
    by (simp_all add: demo_report_def valid_report_def MeasurementDeviceClass_def Let_def)
  obtain c where c: "sanitize_profile_report demo_conv demo_report = Inr c" using sanitize_profile_report_ok [OF r(1)] by blast
  obtain s' resp where i: "ingest_profile demo_prims demo_conv demo_config (demo_clock 1) None demo_report (Some ''Bearer tok'') registered_db = (s', Inr resp)"
    using demo_auth [OF demo_found [OF registered_rows(1)], of "demo_clock 1 0" "verified_client_fingerprint None"] r c
    by (auto simp: ingest_profile_def and_then_def)
  from profile_ingest_is_authorised [OF i] i r(2) show ?thesis by fastforce
qed

end
