(* ===== verification/Rate_Limit.thy ===== *)
theory Rate_Limit imports Contracts begin

text \<open>
  \<open>src/orchestrator/ratelimit.py\<close>: the fixed-window request limiter and the key it counts under, and
  the middleware of \<open>app.py\<close> that answers 429. The buckets are a finite map, times are the floats
  \<open>time.monotonic\<close> returns. The lemmas bound what one key can get through in any stretch of time
  shorter than a window, whatever other keys do and whenever the sweep runs.
\<close>

record rate_limiter =
  rl_limit :: int
  rl_window_s :: rat
  rl_buckets :: "str \<rightharpoonup> rat \<times> int"
  rl_ops :: nat

definition SWEEP_EVERY :: nat where "SWEEP_EVERY = 1024"

definition make_rate_limiter :: "int \<Rightarrow> rat \<Rightarrow> rate_limiter" where
  "make_rate_limiter limit window_s =
     \<lparr>rl_limit = limit, rl_window_s = window_s, rl_buckets = (\<lambda>_. None), rl_ops = 0\<rparr>"

definition sweep :: "rate_limiter \<Rightarrow> rat \<Rightarrow> rate_limiter" where
  "sweep l now = l\<lparr>rl_buckets := (\<lambda>k. case rl_buckets l k of
       None \<Rightarrow> None
     | Some (start, c) \<Rightarrow> if rl_window_s l \<le> fsub now start then None else Some (start, c))\<rparr>"

definition count_op :: "rate_limiter \<Rightarrow> rat \<Rightarrow> rate_limiter" where
  "count_op l now =
     (let l1 = l\<lparr>rl_ops := Suc (rl_ops l)\<rparr>
      in if rl_ops l1 mod SWEEP_EVERY = 0 then sweep l1 now else l1)"

definition current_window :: "rate_limiter \<Rightarrow> str \<Rightarrow> rat \<Rightarrow> rat \<times> int" where
  "current_window l key now =
     (let (start, c) = (case rl_buckets l key of None \<Rightarrow> (now, 0) | Some b \<Rightarrow> b)
      in if rl_window_s l \<le> fsub now start then (now, 0) else (start, c))"

definition check :: "rate_limiter \<Rightarrow> str \<Rightarrow> rat \<Rightarrow> rate_limiter \<times> bool \<times> int" where
  "check l key now =
     (let l1 = count_op l now; (start, c) = current_window l1 key now
      in if rl_limit l1 \<le> c
         then (l1, False, max 1 (\<lfloor>fsub (rl_window_s l1) (fsub now start)\<rfloor> + 1))
         else (l1\<lparr>rl_buckets := (rl_buckets l1)(key \<mapsto> (start, c + 1))\<rparr>, True, 0))"

definition client_key :: "str option \<Rightarrow> str option \<Rightarrow> str" where
  "client_key authorization client_host =
     (let auth = (case authorization of None \<Rightarrow> [] | Some a \<Rightarrow> a)
      in if startswith (lower auth) ''bearer '' then ''tok:'' @ strip (drop 7 auth)
         else ''ip:'' @ (case client_host of None \<Rightarrow> ''unknown'' | Some h \<Rightarrow> h))"

datatype limited = Passed | TooMany int

definition enforce_rate_limit ::
  "rate_limiter \<Rightarrow> str option \<Rightarrow> str option \<Rightarrow> rat \<Rightarrow> rate_limiter \<times> limited" where
  "enforce_rate_limit l authorization client_host now =
     (case check l (client_key authorization client_host) now of
        (l', allowed, retry_after) \<Rightarrow> (l', if allowed then Passed else TooMany retry_after))"

section \<open>A run of the limiter\<close>

fun allowed_count :: "str \<Rightarrow> rate_limiter \<Rightarrow> (str \<times> rat) list \<Rightarrow> nat" where
  "allowed_count k l [] = 0"
| "allowed_count k l ((key, now) # evs) =
     (case check l key now of (l', allowed, _) \<Rightarrow>
        (if key = k \<and> allowed then 1 else 0) + allowed_count k l' evs)"

definition room :: "rate_limiter \<Rightarrow> str \<Rightarrow> nat" where
  "room l k = nat (case rl_buckets l k of None \<Rightarrow> rl_limit l | Some (start, c) \<Rightarrow> rl_limit l - c)"

text \<open>No window of the key started before \<open>t0\<close>.\<close>

definition fresh_since :: "rat \<Rightarrow> rate_limiter \<Rightarrow> str \<Rightarrow> bool" where
  "fresh_since t0 l k \<longleftrightarrow> (case rl_buckets l k of None \<Rightarrow> True | Some (start, c) \<Rightarrow> t0 \<le> start \<and> 0 \<le> c)"

lemma fsub_span: "t0 \<le> start \<Longrightarrow> now \<le> t1 \<Longrightarrow> fsub t1 t0 < w \<Longrightarrow> fsub now start < w"
proof -
  assume "t0 \<le> start" "now \<le> t1" "fsub t1 t0 < w"
  moreover from this have "fl64 (now - start) \<le> fl64 (t1 - t0)" by (intro fl64_mono) simp
  ultimately show ?thesis by (simp add: fsub_def)
qed

lemma count_op_simps [simp]: "rl_limit (count_op l now) = rl_limit l" "rl_window_s (count_op l now) = rl_window_s l"
  by (simp_all add: count_op_def sweep_def Let_def)

lemma count_op_bucket:
  "rl_buckets (count_op l now) k = rl_buckets l k \<or>
   rl_buckets (count_op l now) k = None \<and>
     (\<exists>start c. rl_buckets l k = Some (start, c) \<and> rl_window_s l \<le> fsub now start)"
  by (auto simp: count_op_def sweep_def Let_def split: option.splits)

lemma check_other:
  "check l key now = (l', a, r) \<Longrightarrow> key \<noteq> k \<Longrightarrow> rl_buckets l' k = rl_buckets (count_op l now) k"
  by (auto simp: check_def Let_def split: prod.splits if_splits)

lemma check_params: "check l key now = (l', a, r) \<Longrightarrow> rl_limit l' = rl_limit l \<and> rl_window_s l' = rl_window_s l"
  by (auto simp: check_def Let_def split: prod.splits if_splits)

text \<open>In a window that opened inside the stretch, each admission uses up room and none is regained.\<close>

lemma check_fresh:
  assumes "check l key now = (l', a, r)" "fresh_since t0 l k" "t0 \<le> now" "now \<le> t1"
    "fsub t1 t0 < rl_window_s l"
  shows "fresh_since t0 l' k \<and> (if key = k \<and> a then Suc (room l' k) \<le> room l k else room l' k \<le> room l k)"
proof -
  have same: "rl_buckets (count_op l now) k = rl_buckets l k"
    using count_op_bucket [of l now k] assms(2) fsub_span [OF _ assms(4,5)]
    by (fastforce simp: fresh_since_def)
  show ?thesis
  proof (cases "key = k")
    case False
    then have "rl_buckets l' k = rl_buckets l k" using check_other [OF assms(1)] same by simp
    moreover have "rl_limit l' = rl_limit l" using check_params [OF assms(1)] by simp
    ultimately show ?thesis using assms(2) False unfolding fresh_since_def room_def by (cases "rl_buckets l k") auto
  next
    case True
    define b where "b = (case rl_buckets l k of None \<Rightarrow> (now, 0) | Some b \<Rightarrow> b)"
    have b: "t0 \<le> fst b \<and> 0 \<le> snd b" using assms(2,3) by (auto simp: b_def fresh_since_def split: option.splits)
    then have "\<not> rl_window_s l \<le> fsub now (fst b)" using fsub_span [OF _ assms(4,5)] by fastforce
    then have win: "current_window (count_op l now) key now = b"
      using True same by (simp add: current_window_def b_def [symmetric] case_prod_beta)
    have roomb: "room l k = nat (rl_limit l - snd b)"
      by (auto simp: room_def b_def split: option.splits)
    show ?thesis
    proof (cases "rl_limit l \<le> snd b")
      case full: True
      with assms(1) True win have "l' = count_op l now" "\<not> a"
        by (auto simp: check_def Let_def case_prod_beta)
      then show ?thesis using same assms(2) unfolding fresh_since_def room_def
        by (cases "rl_buckets l k") auto
    next
      case False
      with assms(1) True win have "rl_buckets l' k = Some (fst b, snd b + 1)" "rl_limit l' = rl_limit l" a
        by (auto simp: check_def Let_def case_prod_beta)
      then show ?thesis using b roomb False True
        by (simp add: fresh_since_def room_def Suc_nat_eq_nat_zadd1)
    qed
  qed
qed

text \<open>Any number of requests inside one window length, the key's bucket having opened in it.\<close>

lemma allowed_count_fresh:
  assumes "fresh_since t0 l k" "\<forall>e \<in> set evs. t0 \<le> snd e \<and> snd e \<le> t1" "fsub t1 t0 < rl_window_s l"
  shows "allowed_count k l evs \<le> room l k"
  using assms
proof (induction k l evs rule: allowed_count.induct)
  case (1 k l)
  then show ?case by simp
next
  case (2 k l key now evs)
  obtain l' a r where c: "check l key now = (l', a, r)" by (metis prod_cases3)
  have span: "t0 \<le> now" "now \<le> t1" using "2.prems"(2) by auto
  have step: "fresh_since t0 l' k"
    "if key = k \<and> a then Suc (room l' k) \<le> room l k else room l' k \<le> room l k"
    using check_fresh [OF c "2.prems"(1) span "2.prems"(3)] by auto
  have "allowed_count k l' evs \<le> room l' k"
    using "2.IH" [OF c [symmetric] refl] step(1) "2.prems"(2,3) check_params [OF c] by auto
  then show ?case using step(2) c by (auto split: if_splits)
qed

text \<open>In general one window of the key may still be open when the stretch begins: it lends its remaining room.\<close>

definition counts_ok :: "rate_limiter \<Rightarrow> bool" where
  "counts_ok l \<longleftrightarrow> (\<forall>k b. rl_buckets l k = Some b \<longrightarrow> 0 \<le> snd b)"

lemma counts_ok_make [simp]: "counts_ok (make_rate_limiter n w)"
  by (simp add: counts_ok_def make_rate_limiter_def)

lemma counts_ok_count: "counts_ok l \<Longrightarrow> counts_ok (count_op l now)"
  using count_op_bucket [of l now] unfolding counts_ok_def by (metis not_None_eq)

lemma counts_ok_window: "counts_ok l \<Longrightarrow> 0 \<le> snd (current_window l key t)"
  by (cases "rl_buckets l key") (auto simp: counts_ok_def current_window_def Let_def)

lemma room_cong: "rl_buckets l' k = rl_buckets l k \<Longrightarrow> rl_limit l' = rl_limit l \<Longrightarrow> room l' k = room l k"
  unfolding room_def by (simp cong: option.case_cong prod.case_cong)

lemma check_bucket:
  "check l key now = (l', a, r) \<Longrightarrow>
     (\<not> a \<and> l' = count_op l now \<and> rl_limit l \<le> snd (current_window (count_op l now) key now)) \<or>
     (a \<and> snd (current_window (count_op l now) key now) < rl_limit l \<and>
      rl_buckets l' = (rl_buckets (count_op l now))(key \<mapsto>
        (fst (current_window (count_op l now) key now), snd (current_window (count_op l now) key now) + 1)))"
  by (auto simp: check_def Let_def case_prod_beta split: if_splits)

lemma counts_ok_check:
  assumes "counts_ok l" "check l key now = (l', a, r)"
  shows "counts_ok l'"
  using check_bucket [OF assms(2)] counts_ok_count [OF assms(1), of now]
    counts_ok_window [OF counts_ok_count [OF assms(1), of now], of key now]
  unfolding counts_ok_def by (auto split: if_splits)

lemma room_le: "counts_ok l \<Longrightarrow> room l k \<le> nat (rl_limit l)"
  by (cases "rl_buckets l k") (auto simp: room_def counts_ok_def nat_mono)

text \<open>A request either works in the window that was open, or in one it opens itself.\<close>

lemma check_stretch:
  assumes "counts_ok l" "check l key now = (l', a, r)" "t0 \<le> now"
  shows "(fresh_since t0 l' k \<and> (if key = k \<and> a then Suc (room l' k) \<le> nat (rl_limit l) else True)) \<or>
         (if key = k \<and> a then Suc (room l' k) \<le> room l k else room l' k \<le> room l k)"
proof (cases "key = k \<and> a")
  case False
  then have "rl_buckets l' k = rl_buckets (count_op l now) k"
    using check_bucket [OF assms(2)] check_other [OF assms(2)] by blast
  then have "room l' k = room l k \<or> fresh_since t0 l' k"
    using count_op_bucket [of l now k] check_params [OF assms(2)] room_cong [of l' k l]
    by (auto simp: fresh_since_def)
  then show ?thesis using False by auto
next
  case True
  define b where "b = current_window (count_op l now) k now"
  have l': "rl_buckets l' k = Some (fst b, snd b + 1)" "snd b < rl_limit l" "rl_limit l' = rl_limit l"
    using True check_bucket [OF assms(2)] check_params [OF assms(2)] by (auto simp: b_def)
  have pos: "0 \<le> snd b"
    unfolding b_def by (intro counts_ok_window counts_ok_count assms(1))
  have "b = (now, 0) \<or> rl_buckets (count_op l now) k = Some b"
    by (auto simp: b_def current_window_def Let_def split: option.splits)
  then show ?thesis
  proof
    assume "b = (now, 0)"
    then show ?thesis using True l' assms(3) by (simp add: fresh_since_def room_def Suc_nat_eq_nat_zadd1)
  next
    assume "rl_buckets (count_op l now) k = Some b"
    then have "rl_buckets l k = Some b" using count_op_bucket [of l now k] by auto
    then have "room l k = nat (rl_limit l - snd b)" by (simp add: room_def case_prod_beta)
    moreover have "room l' k = nat (rl_limit l - (snd b + 1))" using l' by (simp add: room_def)
    ultimately show ?thesis using True l'(2) by (simp add: Suc_nat_eq_nat_zadd1)
  qed
qed

lemma allowed_count_stretch:
  assumes "counts_ok l" "\<forall>e \<in> set evs. t0 \<le> snd e \<and> snd e \<le> t1" "fsub t1 t0 < rl_window_s l"
  shows "allowed_count k l evs \<le> room l k + nat (rl_limit l)"
  using assms
proof (induction k l evs rule: allowed_count.induct)
  case (1 k l)
  then show ?case by simp
next
  case (2 k l key now evs)
  obtain l' a r where c: "check l key now = (l', a, r)" by (metis prod_cases3)
  have ok: "counts_ok l'" by (rule counts_ok_check [OF "2.prems"(1) c])
  have par: "rl_limit l' = rl_limit l" "rl_window_s l' = rl_window_s l" using check_params [OF c] by auto
  have evs: "\<forall>e \<in> set evs. t0 \<le> snd e \<and> snd e \<le> t1" using "2.prems"(2) by simp
  have rec: "allowed_count k l' evs \<le> room l' k + nat (rl_limit l)"
    using "2.IH" [OF c [symmetric] refl ok evs] "2.prems"(3) par by simp
  have fresh: "fresh_since t0 l' k \<Longrightarrow> allowed_count k l' evs \<le> room l' k"
    using allowed_count_fresh [OF _ evs] "2.prems"(3) par by simp
  from check_stretch [OF "2.prems"(1) c, of t0 k] "2.prems"(2) show ?case
    using rec fresh room_le [OF ok, of k] par(1) c by (auto split: if_splits)
qed

text \<open>Whether the sweep has run or not, a key finds the same window.\<close>

lemma current_window_swept:
  assumes "now \<le> t"
  shows "current_window (count_op l now) k t = current_window l k t"
proof (cases "rl_buckets (count_op l now) k = rl_buckets l k")
  case True
  then show ?thesis by (simp add: current_window_def)
next
  case False
  then obtain start c where b: "rl_buckets (count_op l now) k = None" "rl_buckets l k = Some (start, c)"
    "rl_window_s l \<le> fsub now start" using count_op_bucket [of l now k] by auto
  have "fsub now start \<le> fsub t start" unfolding fsub_def using assms by (intro fl64_mono) simp
  with b show ?thesis by (simp add: current_window_def)
qed

lemma check_window_other:
  "check l key now = (l', a, r) \<Longrightarrow> key \<noteq> k \<Longrightarrow> now \<le> t \<Longrightarrow> current_window l' k t = current_window l k t"
  using check_other [of l key now l' a r k] check_params [of l key now l' a r] current_window_swept [of now t l k]
  by (simp add: current_window_def)

lemma check_window_same:
  assumes "check l k now = (l', a, r)" "check m k now = (m', a', r')"
    "\<And>t. now \<le> t \<Longrightarrow> current_window l k t = current_window m k t"
    "rl_limit l = rl_limit m" "rl_window_s l = rl_window_s m" "now \<le> t"
  shows "a = a' \<and> current_window l' k t = current_window m' k t"
proof -
  have now: "current_window (count_op l now) k now = current_window (count_op m now) k now"
    using assms(3) by (simp add: current_window_swept)
  then have a: "a = a'" using check_bucket [OF assms(1)] check_bucket [OF assms(2)] assms(4) by auto
  show ?thesis
  proof (cases a)
    case True
    then have "rl_buckets l' k = rl_buckets m' k"
      using check_bucket [OF assms(1)] check_bucket [OF assms(2)] a now by auto
    moreover have "rl_window_s l' = rl_window_s m'"
      using check_params [OF assms(1)] check_params [OF assms(2)] assms(5) by simp
    ultimately show ?thesis using a by (simp add: current_window_def)
  next
    case False
    then show ?thesis using check_bucket [OF assms(1)] check_bucket [OF assms(2)] a assms(3,6)
      by (auto simp: current_window_swept)
  qed
qed

lemma allowed_count_own:
  assumes "sorted (map snd evs)" "\<And>t. \<forall>e \<in> set evs. t0 \<le> snd e \<Longrightarrow> t0 \<le> t \<Longrightarrow> current_window l k t = current_window m k t"
    "\<forall>e \<in> set evs. t0 \<le> snd e" "rl_limit l = rl_limit m" "rl_window_s l = rl_window_s m"
  shows "allowed_count k l evs = allowed_count k m (filter (\<lambda>e. fst e = k) evs)"
  using assms
proof (induction evs arbitrary: l m t0)
  case Nil
  then show ?case by simp
next
  case (Cons e evs)
  obtain key now where e: "e = (key, now)" by (cases e)
  have now: "t0 \<le> now" "\<forall>e \<in> set evs. now \<le> snd e" "sorted (map snd evs)" using Cons.prems(1,3) e by auto
  have win: "\<And>t. now \<le> t \<Longrightarrow> current_window l k t = current_window m k t"
    using Cons.prems(2,3) now(1) by simp
  obtain l' a r where c: "check l key now = (l', a, r)" by (metis prod_cases3)
  obtain m' a' r' where d: "check m key now = (m', a', r')" by (metis prod_cases3)
  note par = check_params [OF c] check_params [OF d]
  show ?case
  proof (cases "key = k")
    case True
    have "a = a' \<and> (\<forall>t. now \<le> t \<longrightarrow> current_window l' k t = current_window m' k t)"
      using check_window_same [of l k now l' a r m m' a' r'] c d True win Cons.prems(4,5) by blast
    moreover from this have "allowed_count k l' evs = allowed_count k m' (filter (\<lambda>e. fst e = k) evs)"
      by (intro Cons.IH [of now]) (use now par Cons.prems(4,5) in auto)
    ultimately show ?thesis using True c d by (simp add: e)
  next
    case False
    have "allowed_count k l' evs = allowed_count k m (filter (\<lambda>e. fst e = k) evs)"
      by (intro Cons.IH [of now]) (use now par Cons.prems(4,5) check_window_other [OF c False] win in auto)
    then show ?thesis using False c by (simp add: e)
  qed
qed

lemma check_retry:
  assumes "check l key now = (l', a, r)"
  shows "if a then r = 0 else 1 \<le> r"
  using assms by (auto simp: check_def Let_def case_prod_beta split: if_splits)

section \<open>The properties\<close>

text \<open>The limiter after a history of checks.\<close>

definition after_checks :: "rate_limiter \<Rightarrow> (str \<times> rat) list \<Rightarrow> rate_limiter" where
  "after_checks l evs = fold (\<lambda>(key, now) l. fst (check l key now)) evs l"

lemma after_checks_ok:
  "counts_ok l \<Longrightarrow> counts_ok (after_checks l evs) \<and> rl_limit (after_checks l evs) = rl_limit l \<and>
     rl_window_s (after_checks l evs) = rl_window_s l"
proof (induction evs arbitrary: l)
  case Nil
  then show ?case by (simp add: after_checks_def)
next
  case (Cons e evs)
  obtain key now where e: "e = (key, now)" by (cases e)
  obtain l' a r where c: "check l key now = (l', a, r)" by (metis prod_cases3)
  show ?case using Cons.IH [OF counts_ok_check [OF Cons.prems c]] check_params [OF c] c
    by (simp add: after_checks_def e)
qed

lemma after_checks_make:
  "counts_ok (after_checks (make_rate_limiter n w) evs)"
  "rl_limit (after_checks (make_rate_limiter n w) evs) = n"
  "rl_window_s (after_checks (make_rate_limiter n w) evs) = w"
  using after_checks_ok [OF counts_ok_make] by (simp_all add: make_rate_limiter_def)

lemma after_checks_unseen:
  "\<forall>e \<in> set evs. fst e \<noteq> k \<Longrightarrow> rl_buckets l k = None \<Longrightarrow> rl_buckets (after_checks l evs) k = None"
proof (induction evs arbitrary: l)
  case Nil
  then show ?case by (simp add: after_checks_def)
next
  case (Cons e evs)
  obtain key now where e: "e = (key, now)" by (cases e)
  obtain l' a r where c: "check l key now = (l', a, r)" by (metis prod_cases3)
  have "key \<noteq> k" using Cons.prems(1) by (simp add: e)
  then have "rl_buckets l' k = None"
    using check_other [OF c] count_op_bucket [of l now k] Cons.prems(2) by auto
  then show ?case using Cons.IH [of l'] Cons.prems(1) c by (simp add: after_checks_def e)
qed

text \<open>C19.
  A limiter made with limit \<open>n\<close> and window \<open>w\<close>, after any history, admits one key at most \<open>2 * n\<close>
  times in a stretch of time shorter than a window, and at most \<open>n\<close> times when the key had not been
  seen before, whatever the other keys do and whenever the sweep runs.
\<close>
theorem rate_limit_bounds_bursts:
  assumes "\<forall>e \<in> set evs. t0 \<le> snd e \<and> snd e \<le> t1" "fsub t1 t0 < w"
  shows "allowed_count k (after_checks (make_rate_limiter n w) past) evs \<le> 2 * nat n \<and>
    ((\<forall>e \<in> set past. fst e \<noteq> k) \<longrightarrow>
       allowed_count k (after_checks (make_rate_limiter n w) past) evs \<le> nat n)"
proof -
  let ?l = "after_checks (make_rate_limiter n w) past"
  have l: "counts_ok ?l" "rl_limit ?l = n" "rl_window_s ?l = w"
    by (simp_all add: after_checks_make)
  have "allowed_count k ?l evs \<le> room ?l k + nat n"
    using allowed_count_stretch [OF l(1) assms(1)] l assms(2) by simp
  moreover have room: "room ?l k \<le> nat n" using room_le [OF l(1)] l(2) by simp
  moreover have "allowed_count k ?l evs \<le> nat n" if "\<forall>e \<in> set past. fst e \<noteq> k"
  proof -
    have "rl_buckets ?l k = None" by (rule after_checks_unseen [OF that]) (simp add: make_rate_limiter_def)
    then show ?thesis using allowed_count_fresh [of t0 ?l k evs t1] assms l room by (simp add: fresh_since_def)
  qed
  ultimately show ?thesis by simp
qed

lemma rate_limit_bounds_bursts_witness:
  "allowed_count ''a'' (after_checks (make_rate_limiter 2 60) [(''b'', 1)])
     [(''a'', 3), (''b'', 4), (''a'', 5), (''a'', 6)] \<le> 2"
  using rate_limit_bounds_bursts [of "[(''a'', 3), (''b'', 4), (''a'', 5), (''a'', 6)]" 3 6 60
      "''a''" 2 "[(''b'', 1)]"]
  by (simp add: fsub_def)

text \<open>One client cannot spend another's budget: when the clock does not run backwards, the number of
  requests a key gets through equals what it gets through on a limiter that saw only that key's own
  requests (from any common starting state).
\<close>
theorem rate_limit_isolates_clients:
  assumes "sorted (map snd evs)"
  shows "allowed_count k l evs = allowed_count k l (filter (\<lambda>e. fst e = k) evs)"
proof (cases evs)
  case (Cons e es)
  then have "\<forall>x \<in> set evs. snd e \<le> snd x" using assms by auto
  then show ?thesis using allowed_count_own [OF assms, of "snd e" l k l] by simp
qed simp

lemma rate_limit_isolates_clients_witness:
  "allowed_count ''a'' (make_rate_limiter 1 60) [(''b'', 1), (''a'', 3), (''b'', 70), (''a'', 80)] =
   allowed_count ''a'' (make_rate_limiter 1 60) [(''a'', 3), (''a'', 80)]"
  using rate_limit_isolates_clients [of "[(''b'', 1), (''a'', 3), (''b'', 70), (''a'', 80)]" "''a''"
      "make_rate_limiter 1 60"] by simp

end
