(* ===== verification/Execute.thy ===== *)
theory Execute imports Pyvalue Trust begin

text \<open>
  \<open>src/jobkit/execute.py\<close>, the kinds computed without a model: \<open>data.transform\<close>, \<open>challenge\<close>,
  \<open>fractal\<close>, \<open>optimize\<close>, \<open>montecarlo\<close> and \<open>hashcrack\<close>, and the fan-out over a machine's cores.
  \<open>should_yield\<close> is a sequence of answers, one per poll. The order in which the process pool finishes
  its tasks is an argument (a schedule), and so is whether it starts and which tasks it loses; the
  generator \<open>random.Random\<close> and the functions \<open>cos\<close>, \<open>exp\<close>, \<open>sqrt\<close> of the platform's mathematical library
  are parameters. \<open>_render\<close> (numpy or a GPU) is not modelled.
\<close>

type_synonym polls = "nat \<Rightarrow> bool"

record math_lib =
  ml_uniform01 :: "int \<Rightarrow> nat \<Rightarrow> rat"   \<comment> \<open>\<open>k\<close>-th \<open>random()\<close> of \<open>random.Random(seed)\<close>\<close>
  ml_gauss :: "int \<Rightarrow> nat \<Rightarrow> rat"       \<comment> \<open>\<open>k\<close>-th \<open>gauss(0, 1)\<close> of \<open>random.Random(seed)\<close>\<close>
  ml_cos :: "rat \<Rightarrow> rat"
  ml_exp :: "rat \<Rightarrow> rat option"         \<comment> \<open>\<open>None\<close>: \<open>OverflowError\<close>\<close>
  ml_sqrt :: "rat \<Rightarrow> rat"

section \<open>Loops that poll\<close>

text \<open>The items a loop gets through before a poll says yes, and whether one did.\<close>

fun until_yield :: "polls \<Rightarrow> nat \<Rightarrow> 'a list \<Rightarrow> 'a list \<times> bool" where
  "until_yield y i [] = ([], False)"
| "until_yield y i (x # xs) =
     (if y i then ([], True) else (case until_yield y (Suc i) xs of (did, yielded) \<Rightarrow> (x # did, yielded)))"

lemma until_yield_never: "(\<And>i. \<not> y i) \<Longrightarrow> until_yield y i xs = (xs, False)"
  by (induction xs arbitrary: i) auto

lemma until_yield_prefix:
  "until_yield y i xs = (did, yielded) \<Longrightarrow> \<exists>rest. xs = did @ rest \<and> (rest = [] \<longleftrightarrow> \<not> yielded)"
proof (induction xs arbitrary: i did)
  case (Cons x xs)
  then show ?case by (cases "until_yield y (Suc i) xs") (fastforce split: if_splits)
qed simp

section \<open>data.transform and challenge\<close>

definition upper_char :: "char \<Rightarrow> char" where
  "upper_char c = (if 97 \<le> code_of c \<and> code_of c \<le> 122 then char_of (code_of c - 32) else c)"

fun json_square :: "json \<Rightarrow> py_error + json" where
  "json_square (JInt i) = Inr (JInt (i * i))"
| "json_square (JBool b) = Inr (JInt (if b then 1 else 0))"
| "json_square (JFloat v) = Inr (JFloat (pf_mul v v))"
| "json_square _ = Inl (TypeError ''can't multiply'')"

definition transform_item :: "primitives \<Rightarrow> conversions \<Rightarrow> json \<Rightarrow> json \<Rightarrow> py_error + json" where
  "transform_item P C op item =
     (if op = JStr ''square'' then json_square item
      else if op = JStr ''upper'' then Inr (JStr (map upper_char (to_str C item)))
      else if op = JStr ''sha256'' then Inr (JStr (sha256_hex (p_sha256 P) (p_float_repr P) item))
      else Inl (ValueError ''unknown data.transform op''))"

definition data_transform :: "primitives \<Rightarrow> conversions \<Rightarrow> dict \<Rightarrow> polls \<Rightarrow> py_error + dict" where
  "data_transform P C input y =
     bind_err (iterate (get_or input ''items'' (JList []))) (\<lambda>items.
       (let op = get_or input ''op'' (JStr ''square''); (did, yielded) = until_yield y 0 items
        in bind_err (map_err (transform_item P C op) did) (\<lambda>results.
             Inr [(''results'', JList results), (''yielded'', JBool yielded)])))"

definition challenge :: "conversions \<Rightarrow> dict \<Rightarrow> py_error + dict" where
  "challenge C input =
     bind_err (get_key input ''x'') (\<lambda>v. bind_err (to_int C v) (\<lambda>x. Inr [(''y'', JInt (x * x + 1))]))"

section \<open>fractal\<close>

text \<open>The escape loop: \<open>n\<close> iterations are left of \<open>max_iter\<close>.\<close>

fun escape :: "nat \<Rightarrow> int \<Rightarrow> pyfloat \<Rightarrow> pyfloat \<Rightarrow> pyfloat \<Rightarrow> pyfloat \<Rightarrow> int" where
  "escape 0 count zr zi cx cy = count"
| "escape (Suc n) count zr zi cx cy =
     (if pf_le (pf_add (pf_mul zr zr) (pf_mul zi zi)) (Fin 4)
      then escape n (count + 1) (pf_add (pf_sub (pf_mul zr zr) (pf_mul zi zi)) cx)
             (pf_add (pf_mul (pf_mul (Fin 2) zr) zi) cy) cx cy
      else count)"

record band =
  bd_width :: int
  bd_height :: int
  bd_row_start :: int
  bd_row_end :: int
  bd_max_iter :: int
  bd_x_min :: pyfloat
  bd_x_max :: pyfloat
  bd_y_min :: pyfloat
  bd_y_max :: pyfloat

definition fractal_input :: "conversions \<Rightarrow> dict \<Rightarrow> py_error + band" where
  "fractal_input C d =
     bind_err (get_int C d ''width'' 900) (\<lambda>w.
     bind_err (get_int C d ''height'' 600) (\<lambda>h.
     bind_err (get_int C d ''row_start'' 0) (\<lambda>a.
     bind_err (get_int C d ''row_end'' h) (\<lambda>b.
     bind_err (get_int C d ''max_iter'' 120) (\<lambda>m.
     bind_err (get_float C d ''x_min'' (- 5 / 2)) (\<lambda>x0.
     bind_err (get_float C d ''x_max'' 1) (\<lambda>x1.
     bind_err (get_float C d ''y_min'' (- 5 / 4)) (\<lambda>y0.
     bind_err (get_float C d ''y_max'' (5 / 4)) (\<lambda>y1.
       Inr \<lparr>bd_width = w, bd_height = h, bd_row_start = a, bd_row_end = b, bd_max_iter = m,
            bd_x_min = x0, bd_x_max = x1, bd_y_min = y0, bd_y_max = y1\<rparr>)))))))))"

definition pixel_step :: "pyfloat \<Rightarrow> pyfloat \<Rightarrow> int \<Rightarrow> py_error + pyfloat" where
  "pixel_step lo hi n = (if n \<noteq> 0 then pf_div_int (pf_sub hi lo) n else Inr (Fin 0))"

definition fractal_row :: "band \<Rightarrow> pyfloat \<Rightarrow> pyfloat \<Rightarrow> int \<Rightarrow> int list" where
  "fractal_row b dx dy py =
     (let cy = pf_add (bd_y_min b) (pf_mul (pf_int py) dy)
      in map (\<lambda>px. escape (nat (bd_max_iter b)) 0 (Fin 0) (Fin 0) (pf_add (bd_x_min b) (pf_mul (pf_int px) dx)) cy)
           [0..bd_width b - 1])"

definition fractal :: "conversions \<Rightarrow> dict \<Rightarrow> polls \<Rightarrow> py_error + dict" where
  "fractal C input y =
     bind_err (fractal_input C input) (\<lambda>b.
     bind_err (pixel_step (bd_x_min b) (bd_x_max b) (bd_width b)) (\<lambda>dx.
     bind_err (pixel_step (bd_y_min b) (bd_y_max b) (bd_height b)) (\<lambda>dy.
       (let (did, yielded) = until_yield y 0 [bd_row_start b..bd_row_end b - 1];
            rows = map (fractal_row b dx dy) did
        in Inr [(''width'', JInt (bd_width b)), (''row_start'', JInt (bd_row_start b)),
                (''row_end'', JInt (bd_row_end b)), (''max_iter'', JInt (bd_max_iter b)),
                (''rows'', JList (map (\<lambda>row. JList (map JInt row)) rows)), (''yielded'', JBool yielded)]))))"

section \<open>optimize\<close>

definition OPTIMIZE_K :: int where "OPTIMIZE_K = 1000003"
definition OPTIMIZE_LO :: rat where "OPTIMIZE_LO = fl64 (- 512 / 100)"
definition OPTIMIZE_HI :: rat where "OPTIMIZE_HI = fl64 (512 / 100)"

text \<open>\<open>rng.uniform(a, b)\<close> is \<open>a + (b - a) * random()\<close>; \<open>math.pi\<close> is the float nearest pi.\<close>

definition optimize_config :: "math_lib \<Rightarrow> int \<Rightarrow> int \<Rightarrow> int \<Rightarrow> rat list" where
  "optimize_config L index dims seed =
     map (\<lambda>k. fadd OPTIMIZE_LO (fmul (fsub OPTIMIZE_HI OPTIMIZE_LO) (ml_uniform01 L (seed * OPTIMIZE_K + index) k)))
       [0..<nat dims]"

definition math_pi :: rat where "math_pi = 884279719003555 / 281474976710656"

definition optimize_score :: "math_lib \<Rightarrow> rat list \<Rightarrow> rat" where
  "optimize_score L params =
     - fold (\<lambda>x t. fadd t (fsub (fmul x x) (fmul 10 (ml_cos L (fmul (fmul 2 math_pi) x))))) params
         (fmul 10 (of_nat (length params)))"

record best_found =
  bf_score :: pyfloat
  bf_params :: "rat list"
  bf_index :: int
  bf_evaluated :: int

definition no_best :: best_found where
  "no_best = \<lparr>bf_score = NegInf, bf_params = [], bf_index = -1, bf_evaluated = 0\<rparr>"

definition consider_candidate :: "math_lib \<Rightarrow> int \<Rightarrow> int \<Rightarrow> int \<Rightarrow> best_found \<Rightarrow> best_found" where
  "consider_candidate L dims seed i b =
     (let params = optimize_config L i dims seed; score = Fin (optimize_score L params);
          b = b\<lparr>bf_evaluated := bf_evaluated b + 1\<rparr>
      in if py_lt (bf_score b) score then b\<lparr>bf_score := score, bf_params := params, bf_index := i\<rparr> else b)"

definition best_output :: "best_found \<Rightarrow> bool \<Rightarrow> dict" where
  "best_output b yielded =
     [(''best_score'', JFloat (bf_score b)), (''best_params'', JList (map (\<lambda>x. JFloat (Fin x)) (bf_params b))),
      (''best_index'', JInt (bf_index b)), (''evaluated'', JInt (bf_evaluated b)), (''yielded'', JBool yielded)]"

definition optimize :: "math_lib \<Rightarrow> conversions \<Rightarrow> dict \<Rightarrow> polls \<Rightarrow> py_error + dict" where
  "optimize L C input y =
     bind_err (get_int C input ''idx_start'' 0) (\<lambda>a.
     bind_err (get_int C input ''idx_end'' 0) (\<lambda>b.
     bind_err (get_int C input ''dims'' 8) (\<lambda>dims.
     bind_err (get_int C input ''seed'' 0) (\<lambda>seed.
       (let (did, yielded) = until_yield y 0 [a..b - 1]
        in Inr (best_output (fold (consider_candidate L dims seed) did no_best) yielded))))))"

section \<open>Fan-out over the cores\<close>

definition core_count :: "conversions \<Rightarrow> str option \<Rightarrow> int option \<Rightarrow> int" where
  "core_count C env cpus =
     (case (case env of None \<Rightarrow> None | Some e \<Rightarrow> if e = [] then None else cv_int C e) of
        Some n \<Rightarrow> max 1 n
      | None \<Rightarrow> max 1 (case cpus of None \<Rightarrow> 1 | Some n \<Rightarrow> if n = 0 then 1 else n))"

text \<open>
  The process pool of the platform: it does not start; or it is broken before every task is submitted,
  and \<open>submit\<close> raises; or it runs and loses the tasks listed, whose futures fail with
  \<open>BrokenProcessPool\<close> (a child was killed) although the function itself raises nothing.
\<close>

datatype pool = NoPool | SubmitFails | Pool "nat list"

text \<open>
  Each round polls, then collects the futures that finished (given by the schedule, as task numbers); a
  task that raised, and one the pool lost, leaves nothing. \<open>None\<close>: the schedule ends with tasks still
  pending.
\<close>

definition collect :: "nat list \<Rightarrow> ('a \<Rightarrow> py_error + 'b) \<Rightarrow> 'a list \<Rightarrow> nat list \<Rightarrow> 'b list" where
  "collect lost f tasks finished =
     concat (map (\<lambda>i. if i \<in> set lost then [] else case f (tasks ! i) of Inl e \<Rightarrow> [] | Inr r \<Rightarrow> [r]) finished)"

fun pool_loop ::
  "nat list \<Rightarrow> ('a \<Rightarrow> py_error + 'b) \<Rightarrow> 'a list \<Rightarrow> polls \<Rightarrow> nat \<Rightarrow> nat list list \<Rightarrow> nat list \<Rightarrow> 'b list \<Rightarrow> ('b list \<times> bool) option" where
  "pool_loop lost f tasks y i [] pending results = (if pending = [] then Some (results, False) else None)"
| "pool_loop lost f tasks y i (finished # schedule) pending results =
     (if pending = [] then Some (results, False)
      else if y i then Some (results, True)
      else pool_loop lost f tasks y (Suc i) schedule (filter (\<lambda>j. j \<notin> set finished) pending)
             (results @ collect lost f tasks (filter (\<lambda>j. j \<in> set pending) (remdups finished))))"

definition seq_loop :: "('a \<Rightarrow> py_error + 'b) \<Rightarrow> 'a list \<Rightarrow> polls \<Rightarrow> py_error + 'b list \<times> bool" where
  "seq_loop f tasks y =
     (let (did, yielded) = until_yield y 0 tasks
      in bind_err (map_err f did) (\<lambda>results. Inr (results, yielded)))"

definition parallel_map ::
  "('a \<Rightarrow> py_error + 'b) \<Rightarrow> 'a list \<Rightarrow> polls \<Rightarrow> int \<Rightarrow> pool \<Rightarrow> nat list list \<Rightarrow> (py_error + 'b list \<times> bool) option" where
  "parallel_map f tasks y workers pool schedule =
     (if 1 < workers \<and> 1 < length tasks
      then case pool of
          NoPool \<Rightarrow> Some (seq_loop f tasks y)
        | SubmitFails \<Rightarrow> Some (Inl (OtherError ''BrokenProcessPool''))
        | Pool lost \<Rightarrow> map_option Inr (pool_loop lost f tasks y 0 schedule [0..<length tasks] [])
      else Some (seq_loop f tasks y))"

text \<open>The sizes of \<open>n\<close> near-equal pieces, and the ranges they make; empty pieces are left out.\<close>

definition piece_size :: "int \<Rightarrow> int \<Rightarrow> int \<Rightarrow> int" where
  "piece_size extent n c = extent div n + (if c < extent mod n then 1 else 0)"

section \<open>hashcrack\<close>

fun first_nonce :: "primitives \<Rightarrow> str \<Rightarrow> str \<Rightarrow> int list \<Rightarrow> (int \<times> str) option" where
  "first_nonce P prefix target [] = None"
| "first_nonce P prefix target (nonce # nonces) =
     (let digest = p_sha256 P (prefix @ show_int nonce)
      in if startswith digest target then Some (nonce, digest) else first_nonce P prefix target nonces)"

type_synonym hash_part = "int option \<times> str option \<times> int"

definition hash_chunk :: "primitives \<Rightarrow> str \<Rightarrow> str \<Rightarrow> int \<times> int \<Rightarrow> py_error + hash_part" where
  "hash_chunk P prefix target se =
     Inr (case first_nonce P prefix target [fst se..snd se - 1] of
            Some (nonce, digest) \<Rightarrow> (Some nonce, Some digest, nonce - fst se + 1)
          | None \<Rightarrow> (None, None, snd se - fst se))"

fun hash_tasks :: "int \<Rightarrow> int list \<Rightarrow> (int \<times> int) list" where
  "hash_tasks pos [] = []"
| "hash_tasks pos (k # sizes) = (if k \<le> 0 then hash_tasks pos sizes else (pos, pos + k) # hash_tasks (pos + k) sizes)"

definition hash_chunks :: "int \<Rightarrow> int \<Rightarrow> int" where
  "hash_chunks cores extent = max cores (min 4096 (extent div 500000 + 1))"

definition json_opt :: "('a \<Rightarrow> json) \<Rightarrow> 'a option \<Rightarrow> json" where
  "json_opt f v = (case v of None \<Rightarrow> JNull | Some x \<Rightarrow> f x)"

definition hash_output :: "str \<Rightarrow> str \<Rightarrow> int \<Rightarrow> int \<Rightarrow> hash_part list \<Rightarrow> bool \<Rightarrow> dict" where
  "hash_output prefix target start stop parts yielded =
     (let winner = find (\<lambda>p. fst p \<noteq> None) parts
      in [(''prefix'', JStr prefix), (''target_prefix'', JStr target), (''found'', JBool (winner \<noteq> None)),
          (''nonce'', json_opt JInt (case winner of None \<Rightarrow> None | Some w \<Rightarrow> fst w)),
          (''hash'', json_opt JStr (case winner of None \<Rightarrow> None | Some w \<Rightarrow> fst (snd w))),
          (''hashes_tried'', JInt (sum_list (map (\<lambda>p. snd (snd p)) parts))),
          (''nonce_start'', JInt start), (''nonce_end'', JInt stop), (''yielded'', JBool yielded)])"

definition hashcrack ::
  "primitives \<Rightarrow> conversions \<Rightarrow> int \<Rightarrow> pool \<Rightarrow> nat list list \<Rightarrow> dict \<Rightarrow> polls \<Rightarrow> (py_error + dict) option" where
  "hashcrack P C cores pool schedule input y =
     (let prefix = to_str C (get_or input ''prefix'' (JStr ''onecompute''));
          target = lower (to_str C (get_or input ''target_prefix'' (JStr ''00000'')))
      in case bind_err (get_int C input ''nonce_start'' 0) (\<lambda>start.
              bind_err (get_int C input ''nonce_end'' (start + 2000000)) (\<lambda>stop. Inr (start, stop))) of
           Inl e \<Rightarrow> Some (Inl e)
         | Inr (start, stop) \<Rightarrow>
             (let extent = max 0 (stop - start); n_chunks = hash_chunks cores extent;
                  tasks = hash_tasks start (map (piece_size extent n_chunks) [0..n_chunks - 1])
              in map_option (\<lambda>r. bind_err r (\<lambda>(parts, yielded).
                     Inr (hash_output prefix target start stop parts yielded)))
                   (parallel_map (hash_chunk P prefix target) tasks y cores pool schedule)))"

section \<open>montecarlo\<close>

text \<open>The parameters of a tile, its floats finite.\<close>

record mc_params =
  mp_n_paths :: int
  mp_horizon_days :: int
  mp_mu :: rat
  mp_sigma :: rat
  mp_seed :: int
  mp_hist_lo :: rat
  mp_hist_hi :: rat
  mp_hist_bins :: int

record mc_part =
  mq_count :: int
  mq_total :: rat
  mq_total_sq :: rat
  mq_worst :: rat
  mq_hist :: "int list"

text \<open>One path: the log return after the steps, its \<open>gauss\<close> draws from number \<open>k\<close> on.\<close>

definition mc_log_return :: "math_lib \<Rightarrow> int \<Rightarrow> nat \<Rightarrow> int \<Rightarrow> rat \<Rightarrow> rat \<Rightarrow> rat" where
  "mc_log_return L seed k steps drift vol =
     fold (\<lambda>j acc. fadd acc (fadd drift (fmul vol (ml_gauss L seed (k + j))))) [0..<nat steps] 0"

definition mc_bucket :: "rat \<Rightarrow> rat \<Rightarrow> int \<Rightarrow> rat \<Rightarrow> int" where
  "mc_bucket lo width nbins ret =
     min (nbins - 1) (max 0 (if width \<noteq> 0 then py_int (fdiv (fsub ret lo) width) else 0))"

definition mc_add_path :: "rat \<Rightarrow> rat \<Rightarrow> int \<Rightarrow> rat \<Rightarrow> mc_part \<Rightarrow> py_error + mc_part" where
  "mc_add_path lo width nbins ret q =
     (if nbins \<le> 0 then Inl (OtherError ''IndexError'')
      else (let b = nat (mc_bucket lo width nbins ret)
            in Inr (q\<lparr>mq_total := fadd (mq_total q) ret, mq_total_sq := fadd (mq_total_sq q) (fmul ret ret),
                      mq_worst := (if ret < mq_worst q then ret else mq_worst q),
                      mq_hist := (mq_hist q)[b := mq_hist q ! b + 1]\<rparr>)))"

fun mc_paths :: "math_lib \<Rightarrow> mc_params \<Rightarrow> int \<Rightarrow> rat \<Rightarrow> rat \<Rightarrow> rat \<Rightarrow> nat list \<Rightarrow> mc_part \<Rightarrow> py_error + mc_part" where
  "mc_paths L m seed drift vol width [] q = Inr q"
| "mc_paths L m seed drift vol width (p # ps) q =
     (case ml_exp L (mc_log_return L seed (p * nat (mp_horizon_days m)) (mp_horizon_days m) drift vol) of
        None \<Rightarrow> Inl (OtherError ''OverflowError'')
      | Some e \<Rightarrow> bind_err (mc_add_path (mp_hist_lo m) width (mp_hist_bins m) (fsub e 1) q)
                    (mc_paths L m seed drift vol width ps))"

definition mc_chunk :: "math_lib \<Rightarrow> mc_params \<Rightarrow> int \<times> int \<Rightarrow> py_error + mc_part" where
  "mc_chunk L m sn =
     (let (seed, n_paths) = sn; steps = mp_horizon_days m; mu = mp_mu m; sigma = mp_sigma m; nbins = mp_hist_bins m;
          dt = (if steps \<noteq> 0 then fdiv 1 (of_int steps) else 1);
          drift = fmul (fsub mu (fmul (fmul (1 / 2) sigma) sigma)) dt;
          vol = fmul sigma (ml_sqrt L dt);
          width = (if nbins \<noteq> 0 then fdiv (fsub (mp_hist_hi m) (mp_hist_lo m)) (of_int nbins) else 1)
      in mc_paths L m seed drift vol width [0..<nat n_paths]
           \<lparr>mq_count = n_paths, mq_total = 0, mq_total_sq = 0, mq_worst = 0,
            mq_hist = replicate (nat nbins) 0\<rparr>)"

definition mc_tasks :: "int \<Rightarrow> mc_params \<Rightarrow> (int \<times> int) list" where
  "mc_tasks cores m =
     (let n_chunks = max cores (min 2048 ((mp_n_paths m + 1999) div 2000))
      in map (\<lambda>c. (mp_seed m * 1000003 + c, piece_size (mp_n_paths m) n_chunks c))
           (filter (\<lambda>c. 0 < piece_size (mp_n_paths m) n_chunks c) [0..n_chunks - 1]))"

record mc_result =
  mr_paths :: int
  mr_mean_return :: rat
  mr_stdev :: rat
  mr_worst_return :: rat
  mr_hist :: "int list"
  mr_hist_lo :: rat
  mr_hist_hi :: rat
  mr_horizon_days :: int
  mr_yielded :: bool

definition add_hist :: "int list \<Rightarrow> int list \<Rightarrow> int list" where
  "add_hist hist counts = map2 (+) hist counts"

definition mc_merge :: "math_lib \<Rightarrow> mc_params \<Rightarrow> mc_part list \<Rightarrow> bool \<Rightarrow> mc_result" where
  "mc_merge L m parts yielded =
     (let count = sum_list (map mq_count parts); tot = py_sum (map mq_total parts);
          total_sq = py_sum (map mq_total_sq parts);
          worst = (case parts of [] \<Rightarrow> 0 | p # ps \<Rightarrow> fold (\<lambda>q w. min w (mq_worst q)) ps (mq_worst p));
          hist = fold (\<lambda>q h. add_hist h (mq_hist q)) parts (replicate (nat (mp_hist_bins m)) 0);
          mean = (if count \<noteq> 0 then fdiv tot (of_int count) else 0);
          variance = (if count \<noteq> 0 then fsub (fdiv total_sq (of_int count)) (fmul mean mean) else 0)
      in \<lparr>mr_paths = count, mr_mean_return = mean, mr_stdev = ml_sqrt L (max 0 variance), mr_worst_return = worst,
          mr_hist = hist, mr_hist_lo = mp_hist_lo m, mr_hist_hi = mp_hist_hi m,
          mr_horizon_days = mp_horizon_days m, mr_yielded = yielded\<rparr>)"

definition montecarlo ::
  "math_lib \<Rightarrow> int \<Rightarrow> pool \<Rightarrow> nat list list \<Rightarrow> mc_params \<Rightarrow> polls \<Rightarrow> (py_error + mc_result) option" where
  "montecarlo L cores pool schedule params y =
     (let m = params\<lparr>mp_horizon_days := max 1 (mp_horizon_days params)\<rparr>
      in map_option (\<lambda>r. bind_err r (\<lambda>(parts, yielded). Inr (mc_merge L m parts yielded)))
           (parallel_map (mc_chunk L m) (mc_tasks cores m) y cores pool schedule))"

end
