(* ===== verification/Aggregate.thy ===== *)
theory Aggregate imports Execute Workloads begin

text \<open>
  The mergers of \<open>src/workloads\<close>: \<open>aggregate_optimize\<close>, \<open>aggregate_hashcrack\<close>, \<open>merge_synth\<close>,
  \<open>aggregate_graph\<close>, \<open>aggregate_eval\<close>, \<open>aggregate_montecarlo\<close> and \<open>assemble_tiles\<close>. The first four take
  the JSON objects workers sent, so every access converts as the code does and may raise; the last
  three take the numbers of their rows, results and bands already read out of the objects.
\<close>

section \<open>aggregate\_optimize\<close>

text \<open>\<open>a < b\<close> on the values \<open>int\<close> accepts: numbers among themselves, strings among themselves.\<close>

fun number_of :: "json \<Rightarrow> pyfloat option" where
  "number_of (JInt i) = Some (Fin (of_int i))"
| "number_of (JBool b) = Some (Fin (if b then 1 else 0))"
| "number_of (JFloat v) = Some v"
| "number_of _ = None"

fun json_less :: "json \<Rightarrow> json \<Rightarrow> py_error + bool" where
  "json_less (JStr a) (JStr b) = Inr (a < b)"
| "json_less a b =
     (case (number_of a, number_of b) of
        (Some x, Some y) \<Rightarrow> Inr (py_lt x y)
      | _ \<Rightarrow> Inl (TypeError ''< not supported''))"

definition better_tile :: "conversions \<Rightarrow> dict \<Rightarrow> dict \<Rightarrow> py_error + bool" where
  "better_tile C tile best =
     bind_err (bind_err (get_key tile ''best_score'') (to_float C)) (\<lambda>score.
     bind_err (bind_err (get_key best ''best_score'') (to_float C)) (\<lambda>best_score.
       if py_lt best_score score then Inr True
       else if score = best_score \<and> score \<noteq> NaN then
         bind_err (get_key tile ''best_index'') (\<lambda>i. bind_err (get_key best ''best_index'') (\<lambda>j. json_less i j))
       else Inr False))"

fun scan_best :: "conversions \<Rightarrow> json list \<Rightarrow> dict option \<Rightarrow> int \<Rightarrow> py_error + dict option \<times> int" where
  "scan_best C [] best n = Inr (best, n)"
| "scan_best C (t # ts) best n =
     bind_err (as_dict t) (\<lambda>tile.
     bind_err (get_int C tile ''evaluated'' 0) (\<lambda>k.
     bind_err (get_int C tile ''best_index'' (-1)) (\<lambda>i.
       if i < 0 then scan_best C ts best (n + k)
       else case best of
         None \<Rightarrow> scan_best C ts (Some tile) (n + k)
       | Some b \<Rightarrow> bind_err (better_tile C tile b) (\<lambda>yes. scan_best C ts (Some (if yes then tile else b)) (n + k)))))"

definition aggregate_optimize :: "conversions \<Rightarrow> json list \<Rightarrow> py_error + dict" where
  "aggregate_optimize C results =
     bind_err (scan_best C results None 0) (\<lambda>(best, n).
       case best of
         None \<Rightarrow> Inr [(''best_score'', JFloat NegInf), (''best_params'', JList []), (''best_index'', JInt (-1)), (''evaluated'', JInt n)]
       | Some b \<Rightarrow>
           bind_err (bind_err (get_key b ''best_score'') (to_float C)) (\<lambda>score.
           bind_err (bind_err (get_key b ''best_params'') iterate) (\<lambda>params.
           bind_err (bind_err (get_key b ''best_index'') (to_int C)) (\<lambda>i.
             Inr [(''best_score'', JFloat score), (''best_params'', JList params), (''best_index'', JInt i), (''evaluated'', JInt n)]))))"

section \<open>aggregate\_hashcrack\<close>

definition aggregate_hashcrack :: "conversions \<Rightarrow> json list \<Rightarrow> py_error + dict" where
  "aggregate_hashcrack C results =
     bind_err (map_err as_dict (filter truthy results)) (\<lambda>parts.
     bind_err (map_err (\<lambda>r. get_int C r ''hashes_tried'' 0) parts) (\<lambda>tried.
       (let winner = find (\<lambda>r. truthy (get_or r ''found'' JNull)) parts;
            target = find (\<lambda>r. truthy (get_or r ''target_prefix'' JNull)) parts;
            field = (\<lambda>w k. case w of None \<Rightarrow> JNull | Some r \<Rightarrow> get_or r k JNull)
        in Inr [(''found'', JBool (winner \<noteq> None)), (''target_prefix'', field target ''target_prefix''),
                (''nonce'', field winner ''nonce''), (''hash'', field winner ''hash''),
                (''hashes_tried'', JInt (sum_list tried)), (''tiles'', JInt (int (length parts)))])))"

section \<open>merge\_synth\<close>

definition merge_synth :: "conversions \<Rightarrow> json list \<Rightarrow> py_error + json list" where
  "merge_synth C results =
     bind_err (map_err as_dict results) (\<lambda>tiles.
     bind_err (map_err (\<lambda>tile. get_int C tile ''start_index'' 0) tiles) (\<lambda>starts.
     bind_err (map_err (\<lambda>(_, tile). iterate (get_or tile ''rows'' (JList []))) (sort_key fst (zip starts tiles)))
       (\<lambda>rows. Inr (concat rows))))"

section \<open>aggregate\_graph\<close>

definition add_node :: "str \<Rightarrow> str list \<Rightarrow> str list" where
  "add_node name nodes = (if name \<noteq> [] \<and> name \<notin> set nodes then nodes @ [name] else nodes)"

type_synonym edge = "str \<times> str \<times> str"

definition add_edge :: "edge \<Rightarrow> str list \<times> edge list \<Rightarrow> str list \<times> edge list" where
  "add_edge e g =
     (let (source, relation, dest) = e; (nodes, edges) = g
      in if source \<noteq> [] \<and> dest \<noteq> [] \<and> e \<notin> set edges
         then (add_node dest (add_node source nodes), edges @ [e]) else (nodes, edges))"

definition edge_of :: "conversions \<Rightarrow> json \<Rightarrow> py_error + edge" where
  "edge_of C v = bind_err (as_dict v) (\<lambda>d.
     Inr (to_str C (get_or d ''source'' (JStr [])), to_str C (get_or d ''relation'' (JStr [])), to_str C (get_or d ''target'' (JStr []))))"

fun merge_graphs :: "conversions \<Rightarrow> json list \<Rightarrow> str list \<times> edge list \<Rightarrow> py_error + str list \<times> edge list" where
  "merge_graphs C [] g = Inr g"
| "merge_graphs C (res # rest) g =
     (if \<not> truthy res then merge_graphs C rest g
      else bind_err (as_dict res) (\<lambda>d.
           bind_err (iterate (get_or d ''nodes'' (JList []))) (\<lambda>names.
           bind_err (bind_err (iterate (get_or d ''edges'' (JList []))) (map_err (edge_of C))) (\<lambda>es.
             merge_graphs C rest (fold add_edge es (fold (\<lambda>n. add_node (to_str C n)) names (fst g), snd g))))))"

definition graph_output :: "str list \<times> edge list \<Rightarrow> dict" where
  "graph_output g =
     [(''nodes'', JList (map JStr (fst g))),
      (''edges'', JList (map (\<lambda>(s, r, t). JObj [(''source'', JStr s), (''relation'', JStr r), (''target'', JStr t)]) (snd g))),
      (''node_count'', JInt (int (length (fst g)))), (''edge_count'', JInt (int (length (snd g))))]"

definition aggregate_graph :: "conversions \<Rightarrow> json list \<Rightarrow> py_error + dict" where
  "aggregate_graph C results = bind_err (merge_graphs C results ([], [])) (\<lambda>g. Inr (graph_output g))"

section \<open>assemble\_tiles\<close>

text \<open>
  The colour of an escape count; the float powers \<open>t ** 0.5\<close> and \<open>t ** 0.9\<close> are the platform's. A
  band longer than the canvas is wide does not fit the slice it is assigned to (numpy's \<open>ValueError\<close>).
\<close>

type_synonym rgb = "int \<times> int \<times> int"

definition colorize :: "(rat \<Rightarrow> rat \<Rightarrow> rat) \<Rightarrow> int \<Rightarrow> int \<Rightarrow> rgb" where
  "colorize pw count max_iter =
     (if max_iter \<le> count then (0, 0, 0)
      else
        (let t = fl64 (of_int count / of_int max_iter);
             r = py_int (fmul 255 (pw t (1 / 2)));
             g = py_int (fmul 255 (pw t (fl64 (9 / 10))));
             b = py_int (fmul 255 (fadd (fl64 (2 / 5)) (fmul (fl64 (3 / 5)) t)))
         in (min r 255, min g 255, min b 255)))"

definition place_row :: "(int \<Rightarrow> rgb) \<Rightarrow> int \<Rightarrow> int \<Rightarrow> int list \<Rightarrow> rgb list list \<Rightarrow> py_error + rgb list list" where
  "place_row ramp max_iter y row canvas =
     (if 0 \<le> y \<and> y < int (length canvas) \<and> row \<noteq> [] then
        (if length (canvas ! nat y) < length row then Inl (ValueError ''could not broadcast'')
         else Inr (canvas[nat y := map (\<lambda>c. ramp (max 0 (min max_iter c))) row @ drop (length row) (canvas ! nat y)]))
      else Inr canvas)"

fun place_rows :: "(int \<Rightarrow> rgb) \<Rightarrow> int \<Rightarrow> int \<Rightarrow> int list list \<Rightarrow> rgb list list \<Rightarrow> py_error + rgb list list" where
  "place_rows ramp max_iter y [] canvas = Inr canvas"
| "place_rows ramp max_iter y (row # rows) canvas =
     bind_err (place_row ramp max_iter y row canvas) (place_rows ramp max_iter (y + 1) rows)"

fun place_tiles :: "(int \<Rightarrow> rgb) \<Rightarrow> int \<Rightarrow> (int \<times> int list list) list \<Rightarrow> rgb list list \<Rightarrow> py_error + rgb list list" where
  "place_tiles ramp max_iter [] canvas = Inr canvas"
| "place_tiles ramp max_iter ((row_start, rows) # tiles) canvas =
     bind_err (place_rows ramp max_iter row_start rows canvas) (place_tiles ramp max_iter tiles)"

definition assemble_tiles ::
  "(rat \<Rightarrow> rat \<Rightarrow> rat) \<Rightarrow> (int \<times> int list list) list \<Rightarrow> int \<Rightarrow> int \<Rightarrow> int \<Rightarrow> py_error + rgb list list" where
  "assemble_tiles pw results width height max_iter =
     place_tiles (\<lambda>c. colorize pw c max_iter) max_iter results
       (replicate (nat height) (replicate (nat width) (0, 0, 0)))"

section \<open>aggregate\_eval\<close>

text \<open>
  A row is the label and the integer score the executor put in it; the leaderboard and the distribution
  use the score clamped to 0..10, the mean the score as sent.
\<close>

definition clamp_score :: "int \<Rightarrow> int" where
  "clamp_score n = max 0 (min 10 n)"

fun group_score :: "str \<Rightarrow> int \<Rightarrow> (str \<times> int list) list \<Rightarrow> (str \<times> int list) list" where
  "group_score label score [] = [(label, [score])]"
| "group_score label score ((k, v) # kvs) =
     (if k = label then (k, v @ [score]) # kvs else (k, v) # group_score label score kvs)"

definition mean_of :: "int list \<Rightarrow> rat" where
  "mean_of xs = fl64 (of_int (sum_list xs) / of_nat (length xs))"

record leader =
  ld_label :: str
  ld_mean :: rat
  ld_n :: nat

record eval_summary =
  es_n :: nat
  es_mean :: rat
  es_leaderboard :: "leader list"
  es_distribution :: "int list"

definition aggregate_eval :: "(str \<times> int) list \<Rightarrow> eval_summary" where
  "aggregate_eval rows =
     (if rows = [] then \<lparr>es_n = 0, es_mean = 0, es_leaderboard = [], es_distribution = replicate 11 0\<rparr>
      else
        (let distribution = fold (\<lambda>(_, n) d. d[nat (clamp_score n) := d ! nat (clamp_score n) + 1]) rows (replicate 11 0);
             by_label = fold (\<lambda>(label, n). group_score label (clamp_score n)) rows []
         in \<lparr>es_n = length rows, es_mean = mean_of (map snd rows),
             es_leaderboard = sort_key (\<lambda>e. - ld_mean e)
               (map (\<lambda>(label, scores). \<lparr>ld_label = label, ld_mean = mean_of scores, ld_n = length scores\<rparr>) by_label),
             es_distribution = distribution\<rparr>))"

section \<open>aggregate\_montecarlo\<close>

text \<open>\<open>x ** 0.5\<close> of a negative float is a complex number, here \<open>None\<close>.\<close>

definition sqrt_pow :: "math_lib \<Rightarrow> rat \<Rightarrow> rat option" where
  "sqrt_pow L x = (if x < 0 then None else Some (ml_sqrt L x))"

record mc_acc =
  ac_hist :: "int list"
  ac_paths :: int
  ac_weighted_mean :: rat
  ac_weighted_sq :: rat
  ac_worst :: rat

definition square :: "rat \<Rightarrow> rat" where
  "square x = fmul x x"

definition merge_tile :: "mc_result \<Rightarrow> mc_acc \<Rightarrow> py_error + mc_acc" where
  "merge_tile p a =
     (if length (ac_hist a) < length (mr_hist p) then Inl (OtherError ''IndexError'')
      else (let n = mr_paths p; fn = fl64 (of_int n)
            in Inr \<lparr>ac_hist = add_hist (ac_hist a) (mr_hist p @ replicate (length (ac_hist a) - length (mr_hist p)) 0),
                 ac_paths = ac_paths a + n,
                 ac_weighted_mean = fadd (ac_weighted_mean a) (fmul (mr_mean_return p) fn),
                 ac_weighted_sq = fadd (ac_weighted_sq a) (fmul (fadd (square (mr_stdev p)) (square (mr_mean_return p))) fn),
                 ac_worst = min (ac_worst a) (mr_worst_return p)\<rparr>))"

fun merge_tiles :: "mc_result list \<Rightarrow> mc_acc \<Rightarrow> py_error + mc_acc" where
  "merge_tiles [] a = Inr a"
| "merge_tiles (p # ps) a = bind_err (merge_tile p a) (merge_tiles ps)"

definition bin_value :: "rat \<Rightarrow> rat \<Rightarrow> nat \<Rightarrow> rat" where
  "bin_value lo width i = fadd lo (fmul (fadd (of_nat i) (1 / 2)) width)"

text \<open>The first bin where the cumulative count reaches \<open>rank\<close>; \<open>None\<close>: the last, at \<open>hi\<close>.\<close>

fun return_at :: "rat \<Rightarrow> rat \<Rightarrow> rat \<Rightarrow> nat \<Rightarrow> int \<Rightarrow> int list \<Rightarrow> (nat \<times> rat) option" where
  "return_at lo width rank i cum [] = None"
| "return_at lo width rank i cum (count # counts) =
     (if rank \<le> of_int (cum + count) then Some (i, bin_value lo width i)
      else return_at lo width rank (Suc i) (cum + count) counts)"

definition tail_risk :: "rat \<Rightarrow> rat \<Rightarrow> rat \<Rightarrow> int list \<Rightarrow> int \<Rightarrow> rat \<Rightarrow> rat \<times> rat" where
  "tail_risk lo hi width hist paths level =
     (let tail = fmul (fl64 (of_int paths)) (fsub 1 level);
          (bins, ret) = (case return_at lo width tail 0 0 hist of Some (i, r) \<Rightarrow> (Suc i, r) | None \<Rightarrow> (length hist, hi));
          tail_count = sum_list (take bins hist);
          tail_sum = py_sum (map (\<lambda>b. fmul (fl64 (of_int (hist ! b))) (bin_value lo width b)) [0..<bins]);
          cvar_ret = (if tail_count \<noteq> 0 then fdiv tail_sum (of_int tail_count) else ret)
      in (- ret, - cvar_ret))"

record mc_summary =
  mz_paths :: int
  mz_mean_return :: rat
  mz_stdev :: "rat option"
  mz_worst_return :: rat
  mz_hist :: "int list"
  mz_hist_lo :: rat
  mz_hist_hi :: rat
  mz_risk :: "(rat \<times> rat) list"

text \<open>\<open>None\<close>: nothing usable came back (\<open>paths\<close> 0).\<close>

definition aggregate_montecarlo :: "math_lib \<Rightarrow> rat list \<Rightarrow> mc_result list \<Rightarrow> py_error + mc_summary option" where
  "aggregate_montecarlo L var_levels results =
     (case filter (\<lambda>r. mr_paths r \<noteq> 0) results of
        [] \<Rightarrow> Inr None
      | p # ps \<Rightarrow>
          (let lo = mr_hist_lo p; hi = mr_hist_hi p; nbins = length (mr_hist p);
               width = (if nbins \<noteq> 0 then fdiv (fsub hi lo) (of_nat nbins) else 1)
           in bind_err (merge_tiles (p # ps) \<lparr>ac_hist = replicate nbins 0, ac_paths = 0, ac_weighted_mean = 0,
                 ac_weighted_sq = 0, ac_worst = 0\<rparr>) (\<lambda>a.
             (let paths = ac_paths a;
                  mean = (if paths \<noteq> 0 then fdiv (ac_weighted_mean a) (of_int paths) else 0);
                  variance = (if paths \<noteq> 0 then fsub (fdiv (ac_weighted_sq a) (of_int paths)) (fmul mean mean) else 0)
              in Inr (Some \<lparr>mz_paths = paths, mz_mean_return = mean, mz_stdev = sqrt_pow L variance,
                   mz_worst_return = ac_worst a, mz_hist = ac_hist a, mz_hist_lo = lo, mz_hist_hi = hi,
                   mz_risk = map (tail_risk lo hi width (ac_hist a) paths) var_levels\<rparr>)))))"

text \<open>
  \<open>variance ** 0.5\<close> is taken without a guard: three equal returns of the float 0.1, which any launch with
  \<open>sigma\<close> 0 produces, give a variance that rounding makes negative, hence a complex \<open>stdev\<close>.
\<close>

definition flat_tile :: mc_result where
  "flat_tile = \<lparr>mr_paths = 3, mr_mean_return = 3602879701896397 / 36028797018963968, mr_stdev = 0,
     mr_worst_return = 0, mr_hist = [3], mr_hist_lo = -1, mr_hist_hi = 2, mr_horizon_days = 1, mr_yielded = False\<rparr>"

lemma flat_returns_have_no_stdev:
  "case aggregate_montecarlo L [] [flat_tile] of Inr (Some z) \<Rightarrow> mz_stdev z = None | _ \<Rightarrow> False"
  by code_simp

end
