(* ===== verification/Fleet_Compute.thy ===== *)
theory Fleet_Compute imports Aggregate "HOL-Library.Multiset" begin

text \<open>
  What a distributed run computes, from the split of a workload through the execution of its tiles to
  the merged result: the fleet's answer is the answer of one machine doing all the work, however the
  work is cut and in whatever order the tiles and the tasks inside a tile finish.
\<close>

abbreviation never :: polls where "never \<equiv> \<lambda>_. False"

lemma until_yield_never_eq [simp]: "until_yield never i xs = (xs, False)"
  by (rule until_yield_never) simp

text \<open>The tiles of a split, finished in some order, are the split reordered.\<close>

lemma reordered_map: "mset ys = mset (map f xs) \<Longrightarrow> \<exists>zs. mset zs = mset xs \<and> ys = map f zs"
proof (induction ys arbitrary: xs)
  case (Cons y ys)
  then have "y \<in> set (map f xs)" by (metis list.set_intros(1) set_mset_mset)
  then obtain x where x: "x \<in> set xs" "y = f x" by auto
  then obtain as bs where s: "xs = as @ x # bs" by (meson split_list)
  then have "mset ys = mset (map f (as @ bs))" using Cons.prems x(2) by simp
  then obtain zs where "mset zs = mset (as @ bs)" "ys = map f zs" using Cons.IH by blast
  then show ?case using x(2) s by (intro exI [of _ "x # zs"]) simp
qed simp

lemma sum_reordered: "mset xs = mset ys \<Longrightarrow> sum_list (map f xs) = (sum_list (map f ys) :: 'b :: comm_monoid_add)"
proof -
  assume "mset xs = mset ys"
  then have "mset (map f xs) = mset (map f ys)" by simp
  then show ?thesis by (metis sum_mset_sum_list)
qed

section \<open>Fractal bands\<close>

text \<open>The start row and the escape counts in an output.\<close>

definition int_row :: "json \<Rightarrow> int list" where
  "int_row v = (case v of JList xs \<Rightarrow> map (\<lambda>x. case x of JInt i \<Rightarrow> i | _ \<Rightarrow> 0) xs | _ \<Rightarrow> [])"

definition band_of :: "dict \<Rightarrow> int \<times> int list list" where
  "band_of out = (case (get_or out ''row_start'' JNull, get_or out ''rows'' JNull) of
     (JInt a, JList rs) \<Rightarrow> (a, map int_row rs) | _ \<Rightarrow> (0, []))"

definition band_yielded :: "dict \<Rightarrow> bool" where
  "band_yielded out = (get_or out ''yielded'' JNull = JBool True)"

lemma int_row_ints [simp]: "int_row (JList (map JInt xs)) = xs"
  by (simp add: int_row_def comp_def)

text \<open>The picture's view of the plane, the one every tile carries.\<close>

definition plane :: "int \<Rightarrow> int \<Rightarrow> int \<Rightarrow> band" where
  "plane width height max_iter = \<lparr>bd_width = width, bd_height = height, bd_row_start = 0, bd_row_end = height,
     bd_max_iter = max_iter, bd_x_min = Fin (- 5 / 2), bd_x_max = Fin 1, bd_y_min = Fin (- 5 / 4), bd_y_max = Fin (5 / 4)\<rparr>"

lemma plane_simps [simp]: "bd_width (plane w h m) = w" "bd_max_iter (plane w h m) = m"
  by (simp_all add: plane_def)

lemma fractal_row_band [simp]: "fractal_row (b\<lparr>bd_row_start := a, bd_row_end := c\<rparr>) dx dy = fractal_row b dx dy"
  by (rule ext) (simp add: fractal_row_def)

lemma fractal_tile_run:
  assumes "pixel_step (Fin (- 5 / 2)) (Fin 1) w = Inr dx" "pixel_step (Fin (- 5 / 4)) (Fin (5 / 4)) h = Inr dy"
  shows "\<exists>out. fractal C (js_input (fractal_tile w h m a b)) y = Inr out \<and>
     band_of out = (a, map (fractal_row (plane w h m) dx dy) (fst (until_yield y 0 [a..b - 1]))) \<and>
     band_yielded out = snd (until_yield y 0 [a..b - 1])"
proof -
  have i: "fractal_input C (js_input (fractal_tile w h m a b)) = Inr ((plane w h m)\<lparr>bd_row_start := a, bd_row_end := b\<rparr>)"
    by (simp add: fractal_input_def fractal_tile_def plane_def dict_get_def)
  show ?thesis using assms
    by (cases "until_yield y 0 [a..b - 1]")
      (simp add: fractal_def i, simp add: plane_def band_of_def band_yielded_def get_or_def dict_get_def comp_def)
qed

lemma int_to_float_small: "\<bar>n\<bar> \<le> 2 ^ 53 \<Longrightarrow> int_to_float n = Inr (Fin (of_int n))"
proof -
  assume n: "\<bar>n\<bar> \<le> 2 ^ 53"
  then have "\<bar>of_int n :: rat\<bar> \<le> 2 ^ 53" by (metis of_int_abs of_int_le_iff of_int_numeral of_int_power)
  moreover have "(2::rat) ^ 53 \<le> float_max" by (simp add: float_max_def)
  ultimately show ?thesis using fl64_of_int [OF n] by (simp add: int_to_float_def)
qed

lemma pixel_step_small: "\<bar>n\<bar> \<le> 2 ^ 53 \<Longrightarrow> \<exists>dx. pixel_step lo hi n = Inr dx"
  using int_to_float_small [of n] by (auto simp: pixel_step_def pf_div_int_def)

lemma escape_bounds: "c \<le> escape n c zr zi cx cy \<and> escape n c zr zi cx cy \<le> c + int n"
proof (induction n arbitrary: c zr zi)
  case (Suc n)
  show ?case using Suc.IH [of "c + 1"] by simp (smt (verit))
qed simp

text \<open>
  What assembling relies on: row \<open>y\<close> of the picture is the same wherever it is computed, as wide as the
  canvas, and its counts index the colour ramp. \<open>painted\<close> is a canvas on which the rows of a set are done.
\<close>

definition painted :: "nat \<Rightarrow> nat \<Rightarrow> (int \<Rightarrow> int list) \<Rightarrow> (int \<Rightarrow> rgb) \<Rightarrow> int set \<Rightarrow> rgb list list" where
  "painted w h f ramp S =
     map (\<lambda>y. if int y \<in> S then map ramp (f (int y)) else replicate w (0, 0, 0)) [0..<h]"

locale picture =
  fixes f :: "int \<Rightarrow> int list" and w :: nat and m :: int
  assumes row_width: "length (f y) = w"
    and row_counts: "c \<in> set (f y) \<Longrightarrow> 0 \<le> c \<and> c \<le> m"
begin

lemma place_row_painted:
  assumes "0 \<le> y" "y < int h"
  shows "place_row ramp m y (f y) (painted w h f ramp S) = Inr (painted w h f ramp (insert y S))"
proof -
  have y: "nat y < h" "int (nat y) = y" using assms by auto
  have len: "length (painted w h f ramp S ! nat y) = w" using y row_width by (simp add: painted_def)
  have clip: "map (\<lambda>c. ramp (max 0 (min m c))) (f y) = map ramp (f y)" using row_counts by auto
  have "(painted w h f ramp S)[nat y := map ramp (f y)] = painted w h f ramp (insert y S)"
    using y by (intro nth_equalityI) (auto simp: painted_def nth_list_update)
  moreover have "painted w h f ramp (insert y S) = painted w h f ramp S" if "f y = []"
    using that row_width [of y] by (auto simp: painted_def)
  moreover have "length (painted w h f ramp S) = h" by (simp add: painted_def)
  ultimately show ?thesis unfolding place_row_def clip using assms y(1) len row_width [of y] by (cases "f y = []") simp_all
qed

lemma place_rows_painted:
  "0 \<le> a \<Longrightarrow> a \<le> b \<Longrightarrow> b \<le> int h \<Longrightarrow>
   place_rows ramp m a (map f [a..b - 1]) (painted w h f ramp S) = Inr (painted w h f ramp (S \<union> {a..<b}))"
proof (induction "nat (b - a)" arbitrary: a S)
  case 0
  then show ?case by simp
next
  case (Suc n)
  have ab: "a < b" "n = nat (b - (a + 1))" using Suc.hyps(2) by simp_all
  then have up: "[a..b - 1] = a # [a + 1..b - 1]" using upto_rec1 [of a "b - 1"] by simp
  have "insert a S \<union> {a + 1..<b} = S \<union> {a..<b}" using ab(1) by auto
  then show ?case using Suc.hyps(1) [OF ab(2), of "insert a S"] ab(1) Suc.prems place_row_painted [of a h ramp S]
    by (simp add: up)
qed

lemma place_tiles_painted:
  "\<forall>(a, b) \<in> set rs. 0 \<le> a \<and> a \<le> b \<and> b \<le> int h \<Longrightarrow>
    place_tiles ramp m (map (\<lambda>(a, b). (a, map f [a..b - 1])) rs) (painted w h f ramp S) =
      Inr (painted w h f ramp (S \<union> set (covered rs)))"
proof (induction rs arbitrary: S)
  case (Cons r rs)
  obtain a b where r: "r = (a, b)" by force
  have "{a..b - 1} = {a..<b}" by auto
  then show ?case using Cons place_rows_painted [of a b h ramp S] by (simp add: r Un_assoc)
qed simp

end

interpretation mandelbrot: picture "fractal_row b dx dy" "nat (bd_width b)" "int (nat (bd_max_iter b))" for b dx dy
proof unfold_locales
  show "length (fractal_row b dx dy y) = nat (bd_width b)" for y by (simp add: fractal_row_def Let_def)
  show "c \<in> set (fractal_row b dx dy y) \<Longrightarrow> 0 \<le> c \<and> c \<le> int (nat (bd_max_iter b))" for c y
    using escape_bounds [of 0 "nat (bd_max_iter b)"] by (fastforce simp: fractal_row_def Let_def)
qed

lemma set_covered: "set (covered rs) = (\<Union>(a, b) \<in> set rs. {a..b - 1})"
  by (auto simp: covered_def)

lemma covered_in: "covered rs = [0..n - 1] \<Longrightarrow> (a, b) \<in> set rs \<Longrightarrow> a < b \<Longrightarrow> 0 \<le> a \<and> b \<le> n"
proof -
  assume c: "covered rs = [0..n - 1]" and m: "(a, b) \<in> set rs" "a < b"
  then have "{a..b - 1} \<subseteq> set (covered rs)" unfolding set_covered by blast
  then have "a \<in> {0..n - 1}" "b - 1 \<in> {0..n - 1}" using c m(2) by auto
  then show ?thesis by auto
qed

lemma fractal_assembled:
  assumes "build_fractal_jobs n w h m ws = Inr specs" "split_ok h ws" "w \<le> 2 ^ 53" "h \<le> 2 ^ 53"
    "mset finished = mset specs"
  shows "\<exists>outs whole. map_err (\<lambda>j. fractal C (js_input j) never) finished = Inr outs \<and>
    fractal C (js_input (fractal_tile w h m 0 h)) never = Inr whole \<and>
    length (snd (band_of whole)) = nat h \<and>
    assemble_tiles pw (map band_of outs) w h m =
      Inr (map (map (\<lambda>c. colorize pw c m)) (snd (band_of whole)))"
proof -
  have pos: "0 < w" "0 < h" "0 < m" and tiles: "tiles_of (fractal_tile w h m) h n ws = Inr specs"
    using assms(1) by (auto simp: build_fractal_jobs_def split: if_splits)
  obtain dx dy where d: "pixel_step (Fin (- 5 / 2)) (Fin 1) w = Inr dx"
      "pixel_step (Fin (- 5 / 4)) (Fin (5 / 4)) h = Inr dy"
    using pixel_step_small [of w] pixel_step_small [of h] pos assms(3,4) by (metis abs_of_pos)
  let ?f = "fractal_row (plane w h m) dx dy"
  obtain rs where rs: "specs = map (\<lambda>(a, b). fractal_tile w h m a b) rs" "covered rs = [0..h - 1]"
      "\<And>a b. (a, b) \<in> set rs \<Longrightarrow> a < b"
    using tiles_of_work(3) [OF tiles assms(2), of "''fractal''"] by (auto simp: fractal_tile_def)
  obtain qs where qs: "mset qs = mset rs" "finished = map (\<lambda>(a, b). fractal_tile w h m a b) qs"
    using assms(5) reordered_map unfolding rs(1) by blast
  have bands: "\<forall>(a, b) \<in> set qs. 0 \<le> a \<and> a \<le> b \<and> b \<le> int (nat h)"
    using mset_eq_setD [OF qs(1)] covered_in [OF rs(2)] rs(3) pos by fastforce
  have cov: "set (covered qs) = {0..h - 1}"
    using rs(2) unfolding set_covered mset_eq_setD [OF qs(1)] by (metis set_covered set_upto)
  have "\<exists>out. fractal C (js_input (fractal_tile w h m a b)) never = Inr out \<and> band_of out = (a, map ?f [a..b - 1])" for a b
    using fractal_tile_run [OF d, of C m a b never] by auto
  then obtain out where out: "\<And>a b. fractal C (js_input (fractal_tile w h m a b)) never = Inr (out a b)"
      "\<And>a b. band_of (out a b) = (a, map ?f [a..b - 1])" by metis
  have "map_err (\<lambda>j. fractal C (js_input j) never) finished = Inr (map (\<lambda>(a, b). out a b) qs)"
    unfolding qs(2) map_err_Inr by (auto simp: list_all2_conv_all_nth out split: prod.splits)
  moreover have "assemble_tiles pw (map band_of (map (\<lambda>(a, b). out a b) qs)) w h m =
      Inr (painted (nat w) (nat h) ?f (\<lambda>c. colorize pw c m) {0..h - 1})"
  proof -
    have start: "replicate (nat h) (replicate (nat w) (0, 0, 0)) = painted (nat w) (nat h) ?f (\<lambda>c. colorize pw c m) {}"
      by (simp add: painted_def map_replicate_const)
    have mb: "map band_of (map (\<lambda>(a, b). out a b) qs) = map (\<lambda>(a, b). (a, map ?f [a..b - 1])) qs" using out(2) by auto
    show ?thesis using mandelbrot.place_tiles_painted [OF bands, where b = "plane w h m" and dx = dx and dy = dy and ramp = "\<lambda>c. colorize pw c m" and S = "{}"] pos cov
      unfolding assemble_tiles_def start mb by simp
  qed
  moreover have "painted (nat w) (nat h) ?f (\<lambda>c. colorize pw c m) {0..h - 1} =
      map (map (\<lambda>c. colorize pw c m)) (map ?f [0..h - 1])"
    using pos by (intro nth_equalityI) (auto simp: painted_def)
  ultimately show ?thesis using out [of 0 h] pos by (intro exI [of _ "map (\<lambda>(a, b). out a b) qs"] exI [of _ "out 0 h"]) simp
qed

text \<open>C25.
  However a fractal launch is cut (evenly, or by weights in rounded arithmetic) and in whatever order its
  tiles finish, assembling the tiles' outputs gives, pixel for pixel, the colours of the picture one
  machine would compute in one tile; no tile fails and no pixel is left black by a missing row.
\<close>
theorem fractal_image_assembled:
  assumes "build_fractal_jobs n w h m ws = Inr specs" "split_ok h ws" "w \<le> 2 ^ 53" "h \<le> 2 ^ 53"
    "mset finished = mset specs"
  shows "\<exists>outs whole. map_err (\<lambda>j. fractal C (js_input j) never) finished = Inr outs \<and>
    fractal C (js_input (fractal_tile w h m 0 h)) never = Inr whole \<and>
    length (snd (band_of whole)) = nat h \<and>
    assemble_tiles pw (map band_of outs) w h m =
      Inr (map (map (\<lambda>c. colorize pw c m)) (snd (band_of whole)))"
  using assms by (rule fractal_assembled)

lemma fractal_image_assembled_witness:
  "\<exists>outs whole. map_err (\<lambda>j. fractal demo_conv (js_input j) never)
       [fractal_tile 4 3 9 2 3, fractal_tile 4 3 9 0 2] = Inr outs \<and>
     assemble_tiles (\<lambda>t e. t) (map band_of outs) 4 3 9 =
       Inr (map (map (\<lambda>c. colorize (\<lambda>t e. t) c 9)) (snd (band_of whole)))"
proof -
  have "build_fractal_jobs 2 4 3 9 None = Inr [fractal_tile 4 3 9 0 2, fractal_tile 4 3 9 2 3]" by code_simp
  from fractal_image_assembled [OF this, of "[fractal_tile 4 3 9 2 3, fractal_tile 4 3 9 0 2]" demo_conv "\<lambda>t e. t"]
  show ?thesis by (auto simp: split_ok_def)
qed

section \<open>The optimum\<close>

text \<open>A mathematical library for concrete runs: constant draws and no rounding of its own.\<close>

definition demo_lib :: math_lib where
  "demo_lib = \<lparr>ml_uniform01 = (\<lambda>s k. 1 / 2), ml_gauss = (\<lambda>s k. 0), ml_cos = (\<lambda>x. 1), ml_exp = Some, ml_sqrt = (\<lambda>x. x)\<rparr>"

definition candidate :: "math_lib \<Rightarrow> int \<Rightarrow> int \<Rightarrow> int \<Rightarrow> rat \<times> int" where
  "candidate L dims seed i = (optimize_score L (optimize_config L i dims seed), - i)"

text \<open>What a search over the candidates \<open>I\<close> must report: the best of them, the first among equals.\<close>

definition champion :: "math_lib \<Rightarrow> int \<Rightarrow> int \<Rightarrow> int set \<Rightarrow> best_found \<Rightarrow> bool" where
  "champion L dims seed I b \<longleftrightarrow>
     bf_index b \<in> I \<and> bf_score b = Fin (optimize_score L (bf_params b)) \<and>
     bf_params b = optimize_config L (bf_index b) dims seed \<and>
     (\<forall>i \<in> I. candidate L dims seed i \<le> candidate L dims seed (bf_index b))"

lemma champion_unique:
  assumes "champion L dims seed I b" "champion L dims seed I c"
  shows "bf_index b = bf_index c" "bf_score b = bf_score c" "bf_params b = bf_params c"
proof -
  have "candidate L dims seed (bf_index b) = candidate L dims seed (bf_index c)"
    using assms by (auto simp: champion_def intro: antisym)
  then show i: "bf_index b = bf_index c" by (simp add: candidate_def)
  show "bf_score b = bf_score c" "bf_params b = bf_params c" using assms i by (auto simp: champion_def)
qed

lemma consider_champion:
  assumes "champion L dims seed I b" "\<forall>j \<in> I. j < i"
  shows "champion L dims seed (insert i I) (consider_candidate L dims seed i b)"
  using assms
  by (fastforce simp: champion_def consider_candidate_def candidate_def Let_def less_eq_prod_def py_lt.simps)

lemma search_champion:
  "a < b \<Longrightarrow> champion L dims seed {a..<b} (fold (consider_candidate L dims seed) [a..b - 1] no_best) \<and>
     bf_evaluated (fold (consider_candidate L dims seed) [a..b - 1] no_best) = b - a"
proof -
  assume "a < b"
  then have "a + 1 \<le> b" by simp
  then show ?thesis
  proof (induction b rule: int_ge_induct)
    case base
    have "{a..<a + 1} = {a}" by auto
    then show ?case by (simp add: champion_def consider_candidate_def no_best_def Let_def)
  next
    case (step b)
    have up: "[a..b + 1 - 1] = [a..b - 1] @ [b]" using upto_rec2 [of a b] step.hyps by simp
    have ins: "{a..<b + 1} = insert b {a..<b}" using step.hyps by auto
    show ?case unfolding up ins using step.IH consider_champion [of L dims seed "{a..<b}" _ b]
      by (simp add: consider_candidate_def Let_def)
  qed
qed

abbreviation finished_output :: "best_found \<Rightarrow> dict" where
  "finished_output b \<equiv> best_output b False"

lemma best_output_fields [simp]:
  "get_key (best_output b y) ''best_score'' = Inr (JFloat (bf_score b))"
  "get_key (best_output b y) ''best_index'' = Inr (JInt (bf_index b))"
  "get_key (best_output b y) ''best_params'' = Inr (JList (map (\<lambda>x. JFloat (Fin x)) (bf_params b)))"
  "get_int C (best_output b y) ''evaluated'' n = Inr (bf_evaluated b)"
  "get_int C (best_output b y) ''best_index'' n = Inr (bf_index b)"
  by (simp_all add: best_output_def get_key_def get_int_def get_or_def dict_get_def)

lemma better_tile_champion:
  assumes "champion L dims seed I b" "champion L dims seed J c"
  shows "\<exists>yes. better_tile C (best_output b y) (best_output c z) = Inr yes \<and>
    champion L dims seed (I \<union> J) (if yes then b else c)"
proof -
  let ?k = "candidate L dims seed"
  have sc: "bf_score b = Fin (fst (?k (bf_index b)))" "bf_score c = Fin (fst (?k (bf_index c)))"
    using assms by (auto simp: champion_def candidate_def)
  define yes where "yes \<longleftrightarrow> ?k (bf_index c) < ?k (bf_index b)"
  have lt: "yes \<longleftrightarrow> fst (?k (bf_index c)) < fst (?k (bf_index b)) \<or>
      fst (?k (bf_index b)) = fst (?k (bf_index c)) \<and> bf_index b < bf_index c"
    by (auto simp: yes_def candidate_def less_prod_def)
  have "better_tile C (best_output b y) (best_output c z) = Inr yes"
    using sc lt by (auto simp: better_tile_def)
  moreover have "champion L dims seed (I \<union> J) (if yes then b else c)"
  proof (cases yes)
    case True
    then have "?k (bf_index c) \<le> ?k (bf_index b)" by (simp add: yes_def)
    then show ?thesis using True assms by (auto simp: champion_def intro: order_trans)
  next
    case False
    then have "?k (bf_index b) \<le> ?k (bf_index c)" by (simp add: yes_def not_less)
    then show ?thesis using False assms by (auto simp: champion_def intro: order_trans)
  qed
  ultimately show ?thesis by blast
qed

lemma scan_champions:
  assumes "list_all2 (\<lambda>I b. champion L dims seed I b \<and> (\<forall>i \<in> I. 0 \<le> i)) Is bs" "champion L dims seed J b"
  shows "\<exists>w. scan_best C (map (\<lambda>b. JObj (finished_output b)) bs) (Some (finished_output b)) n =
      Inr (Some (finished_output w), n + sum_list (map bf_evaluated bs)) \<and> champion L dims seed (J \<union> \<Union> (set Is)) w"
  using assms
proof (induction Is bs arbitrary: J b n rule: list_all2_induct)
  case Nil
  then show ?case by auto
next
  case (Cons I Is c bs)
  obtain yes where yes: "better_tile C (finished_output c) (finished_output b) = Inr yes"
      "champion L dims seed (I \<union> J) (if yes then c else b)"
    using better_tile_champion Cons by metis
  have "0 \<le> bf_index c" using Cons.hyps by (auto simp: champion_def)
  then show ?case using Cons.IH [OF yes(2), of "n + bf_evaluated c"] yes(1)
    by (cases yes) (auto simp: Un_ac add.assoc)
qed

lemma optimize_tile_run:
  "optimize L C (js_input (optimize_tile dims seed a b)) never =
     Inr (finished_output (fold (consider_candidate L dims seed) [a..b - 1] no_best))"
  by (simp add: optimize_def optimize_tile_def dict_get_def)

lemma units_covered: "\<forall>(a, b) \<in> set rs. a < b \<Longrightarrow> sum_list (map (\<lambda>(a, b). b - a) rs) = int (length (covered rs))"
  by (induction rs) auto

text \<open>
  The fleet finds the same best candidate as one machine searching all of them: the tiles of an optimize
  launch, finished in any order and merged, give the score, parameters and index of a single run over
  the whole range, ties included, and count every candidate once.
\<close>
theorem optimize_split_independent:
  assumes "build_optimize_jobs n k dims seed ws = Inr specs" "split_ok k ws" "mset finished = mset specs"
  shows "\<exists>outs whole. map_err (\<lambda>j. optimize L C (js_input j) never) finished = Inr outs \<and>
    optimize L C (js_input (optimize_tile dims seed 0 k)) never = Inr whole \<and>
    aggregate_optimize C (map JObj outs) = Inr (butlast whole)"
proof -
  have pos: "0 < k" and tiles: "tiles_of (optimize_tile dims seed) k n ws = Inr specs"
    using assms(1) by (auto simp: build_optimize_jobs_def split: if_splits)
  obtain rs where rs: "specs = map (\<lambda>(a, b). optimize_tile dims seed a b) rs" "covered rs = [0..k - 1]"
      "\<And>a b. (a, b) \<in> set rs \<Longrightarrow> a < b"
    using tiles_of_work(3) [OF tiles assms(2), of "''optimize''"] by (auto simp: optimize_tile_def)
  obtain qs where qs: "mset qs = mset rs" "finished = map (\<lambda>(a, b). optimize_tile dims seed a b) qs"
    using assms(3) reordered_map unfolding rs(1) by blast
  have mem: "(a, b) \<in> set qs \<Longrightarrow> a < b \<and> 0 \<le> a \<and> b \<le> k" for a b
    using mset_eq_setD [OF qs(1)] covered_in [OF rs(2)] rs(3) by blast
  let ?run = "\<lambda>(a, b). fold (consider_candidate L dims seed) [a..b - 1] no_best"
  let ?I = "\<lambda>(a, b). {a..<b}"
  have run: "map_err (\<lambda>j. optimize L C (js_input j) never) finished = Inr (map (\<lambda>r. finished_output (?run r)) qs)"
    unfolding qs(2) map_err_Inr by (auto simp: list_all2_conv_all_nth optimize_tile_run split: prod.splits)
  have champs: "list_all2 (\<lambda>I b. champion L dims seed I b \<and> (\<forall>i \<in> I. 0 \<le> i)) (map ?I qs) (map ?run qs)"
    unfolding list.rel_map list_all2_same using mem search_champion [of _ _ L dims seed] by fastforce
  have "set (covered qs) = {0..k - 1}"
    using rs(2) unfolding set_covered mset_eq_setD [OF qs(1)] by (metis set_covered set_upto)
  moreover have "{a..<b} = {a..b - 1}" for a b :: int by auto
  ultimately have all: "\<Union> (set (map ?I qs)) = {0..<k}" unfolding set_covered by simp
  have evals: "sum_list (map bf_evaluated (map ?run qs)) = k"
  proof -
    have "bf_evaluated (?run r) = (\<lambda>(a, b). b - a) r" if "r \<in> set qs" for r
      using that mem [of "fst r" "snd r"] search_champion [of "fst r" "snd r" L dims seed] by (simp add: case_prod_beta)
    then have eq: "map bf_evaluated (map ?run qs) = map (\<lambda>(a, b). b - a) qs" by simp
    have "\<forall>(a, b) \<in> set rs. a < b" using rs(3) by auto
    then show ?thesis unfolding eq using units_covered [of rs] rs(2) pos sum_reordered [OF qs(1), of "\<lambda>(a, b). b - a"] by simp
  qed
  obtain q0 qs' where q0: "qs = q0 # qs'" using all pos by (cases qs) auto
  have c0: "champion L dims seed (?I q0) (?run q0)" "0 \<le> bf_index (?run q0)"
    using champs by (auto simp: q0 champion_def)
  have rest: "list_all2 (\<lambda>I b. champion L dims seed I b \<and> (\<forall>i \<in> I. 0 \<le> i)) (map ?I qs') (map ?run qs')"
    using champs by (simp add: q0)
  obtain w where w: "scan_best C (map (\<lambda>b. JObj (finished_output b)) (map ?run qs')) (Some (finished_output (?run q0)))
        (bf_evaluated (?run q0)) = Inr (Some (finished_output w), bf_evaluated (?run q0) + sum_list (map bf_evaluated (map ?run qs')))"
      "champion L dims seed (?I q0 \<union> \<Union> (set (map ?I qs'))) w"
    using scan_champions [OF rest c0(1), of C "bf_evaluated (?run q0)"] by blast
  have whole: "champion L dims seed {0..<k} (?run (0, k))" "bf_evaluated (?run (0, k)) = k"
    using search_champion [of 0 k L dims seed] pos by auto
  have cw: "champion L dims seed {0..<k} w" using w(2) all by (simp add: q0)
  have "scan_best C (map JObj (map (\<lambda>r. finished_output (?run r)) qs)) None 0 = Inr (Some (finished_output w), k)"
    using w(1) c0(2) evals by (simp add: q0 comp_def)
  then have "aggregate_optimize C (map JObj (map (\<lambda>r. finished_output (?run r)) qs)) =
      Inr (butlast (finished_output (?run (0, k))))"
    using champion_unique [OF cw whole(1)] whole(2) by (simp add: aggregate_optimize_def, simp add: best_output_def)
  then show ?thesis using run optimize_tile_run [of L C dims seed 0 k] by auto
qed

lemma optimize_split_independent_witness:
  "\<exists>outs whole. map_err (\<lambda>j. optimize demo_lib demo_conv (js_input j) never) [optimize_tile 2 7 2 3, optimize_tile 2 7 0 2] = Inr outs \<and>
     aggregate_optimize demo_conv (map JObj outs) = Inr (butlast whole)"
proof -
  have "build_optimize_jobs 2 3 2 7 None = Inr [optimize_tile 2 7 0 2, optimize_tile 2 7 2 3]" by code_simp
  from optimize_split_independent [OF this, of "[optimize_tile 2 7 2 3, optimize_tile 2 7 0 2]" demo_lib demo_conv]
  show ?thesis by (auto simp: split_ok_def)
qed

end
