(* ===== verification/Fleet_Search.thy ===== *)
theory Fleet_Search imports Fleet_Compute begin

text \<open>
  The fan-out of a tile over a machine's cores: whatever order the process pool finishes its tasks in,
  the parts it collects are those of distinct tasks, and of all of them unless it was preempted or broke. With
  it, a hash search over the fleet is sound, and complete as long as no pool breaks, and a Monte-Carlo run
  accounts for its paths.
\<close>

section \<open>The process pool\<close>

lemma collect_append [simp]: "collect lost f tasks (xs @ ys) = collect lost f tasks xs @ collect lost f tasks ys"
  by (simp add: collect_def)

lemma set_collect: "q \<in> set (collect lost f tasks did) \<longleftrightarrow> (\<exists>i \<in> set did. i \<notin> set lost \<and> f (tasks ! i) = Inr q)"
  by (auto simp: collect_def eq_commute split: sum.splits)

lemma pool_loop_collects:
  "pool_loop lost f tasks y i schedule pending results = Some (out, yielded) \<Longrightarrow> distinct pending \<Longrightarrow>
   \<exists>did. distinct did \<and> set did \<subseteq> set pending \<and> (yielded \<or> set did = set pending) \<and> out = results @ collect lost f tasks did"
proof (induction schedule arbitrary: i pending results)
  case Nil
  then show ?case by (intro exI [of _ "[]"]) (auto simp: collect_def split: if_splits)
next
  case (Cons finished schedule)
  show ?case
  proof (cases "pending = [] \<or> y i")
    case True
    then show ?thesis using Cons.prems by (intro exI [of _ "[]"]) (auto simp: collect_def split: if_splits)
  next
    case False
    let ?now = "filter (\<lambda>j. j \<in> set pending) (remdups finished)"
    obtain did where did: "distinct did" "set did \<subseteq> set pending - set finished"
        "yielded \<or> set did = set pending - set finished" "out = (results @ collect lost f tasks ?now) @ collect lost f tasks did"
      using Cons.IH [of "Suc i" "filter (\<lambda>j. j \<notin> set finished) pending" "results @ collect lost f tasks ?now"] Cons.prems False
      by (auto simp: set_diff_eq)
    show ?thesis using did by (intro exI [of _ "?now @ did"]) auto
  qed
qed

text \<open>The loop ends once every task has been reported finished.\<close>

lemma pool_loop_returns:
  "set pending \<subseteq> \<Union> (set ` set schedule) \<Longrightarrow> pool_loop lost f tasks y i schedule pending results \<noteq> None"
proof (induction schedule arbitrary: i pending results)
  case (Cons finished schedule)
  have "set (filter (\<lambda>j. j \<notin> set finished) pending) \<subseteq> \<Union> (set ` set schedule)" using Cons.prems by auto
  from Cons.IH [OF this] show ?case by (simp del: not_None_eq)
qed simp

lemma parallel_map_returns:
  "{..<length tasks} \<subseteq> \<Union> (set ` set schedule) \<Longrightarrow> parallel_map f tasks y workers pool schedule \<noteq> None"
  using pool_loop_returns [of "[0..<length tasks]" schedule _ f tasks y 0 "[]"]
  by (auto simp: parallel_map_def lessThan_atLeast0 split: pool.splits)

text \<open>A pool that loses nothing.\<close>

definition intact :: "pool \<Rightarrow> bool" where
  "intact pool \<longleftrightarrow> (case pool of Pool lost \<Rightarrow> lost = [] | _ \<Rightarrow> True)"

text \<open>The parts are those of the tasks done and not lost.\<close>

lemma parallel_map_collects:
  assumes "parallel_map f tasks y workers pool schedule = Some (Inr (parts, yielded))"
  shows "\<exists>did lost. distinct did \<and> set did \<subseteq> {..<length tasks} \<and> (yielded \<or> set did = {..<length tasks}) \<and>
    (intact pool \<longrightarrow> lost = []) \<and> parts = collect lost f tasks did"
proof (cases "1 < workers \<and> 1 < length tasks \<and> pool \<noteq> NoPool")
  case True
  then obtain lost where "pool = Pool lost" "pool_loop lost f tasks y 0 schedule [0..<length tasks] [] = Some (parts, yielded)"
    using assms by (cases pool) (auto simp: parallel_map_def)
  then show ?thesis using pool_loop_collects [of lost f tasks y 0 schedule "[0..<length tasks]" "[]" parts yielded]
    by (auto simp: lessThan_atLeast0 intact_def)
next
  case False
  obtain did where u: "until_yield y 0 tasks = (did, yielded)" and parts: "map_err f did = Inr parts"
    using False assms by (cases "until_yield y 0 tasks") (auto simp: parallel_map_def seq_loop_def bind_err_Inr split: if_splits)
  obtain rest where rest: "tasks = did @ rest" "rest = [] \<longleftrightarrow> \<not> yielded" using until_yield_prefix [OF u] by auto
  have "map_err f xs = Inr ps \<Longrightarrow> collect [] f (xs @ ys) [0..<length xs] = ps" for xs ys ps
  proof (induction xs arbitrary: ps)
    case (Cons x xs)
    have "collect [] f (x # xs @ ys) [0..<Suc (length xs)] = collect [] f (x # xs @ ys) [0] @ collect [] f (xs @ ys) [0..<length xs]"
      by (simp add: collect_def upt_conv_Cons comp_def flip: map_Suc_upt del: upt_Suc)
    then show ?case using Cons by (auto simp: bind_err_Inr collect_def)
  qed (simp add: collect_def)
  from this [OF parts, of rest] show ?thesis using rest by (intro exI [of _ "[0..<length did]"] exI [of _ "[]"]) auto
qed

lemma parallel_map_parts:
  assumes "parallel_map f tasks y workers pool schedule = Some (Inr (parts, yielded))" "\<And>t. t \<in> set tasks \<Longrightarrow> f t = Inr (g t)"
    "intact pool"
  shows "\<exists>did. distinct did \<and> set did \<subseteq> {..<length tasks} \<and> (yielded \<or> set did = {..<length tasks}) \<and>
    parts = map (\<lambda>i. g (tasks ! i)) did"
proof -
  have "set did \<subseteq> {..<length tasks} \<Longrightarrow> collect [] f tasks did = map (\<lambda>i. g (tasks ! i)) did" for did
    by (induction did) (simp_all add: collect_def assms(2))
  then show ?thesis using parallel_map_collects [OF assms(1)] assms(3) by metis
qed

lemma parallel_map_all:
  assumes "parallel_map f tasks y workers pool schedule = Some (Inr (parts, False))" "\<And>t. t \<in> set tasks \<Longrightarrow> f t = Inr (g t)"
    "intact pool"
  shows "mset parts = mset (map g tasks)"
proof -
  obtain did where did: "distinct did" "set did = {..<length tasks}" "parts = map (\<lambda>i. g (tasks ! i)) did"
    using parallel_map_parts [OF assms] by auto
  have perm: "mset did = mset [0..<length tasks]"
  proof (rule iffD1 [OF set_eq_iff_mset_eq_distinct])
    show "set did = set [0..<length tasks]" unfolding did(2) by (simp add: lessThan_atLeast0)
  qed (simp_all add: did(1))
  have "mset parts = image_mset g (image_mset ((!) tasks) (mset did))" by (simp add: did(3) image_mset.compositionality comp_def)
  also have "image_mset ((!) tasks) (mset did) = mset (map ((!) tasks) [0..<length tasks])" by (simp only: perm mset_map)
  finally show ?thesis by (simp only: map_nth mset_map)
qed

text \<open>Also of a pool that lost tasks, every part is the part of some task.\<close>

lemma parallel_map_sound:
  assumes "parallel_map f tasks y workers pool schedule = Some (Inr (parts, yielded))" "q \<in> set parts"
  shows "\<exists>t \<in> set tasks. f t = Inr q"
proof -
  obtain did lost where "set did \<subseteq> {..<length tasks}" "parts = collect lost f tasks did"
    using parallel_map_collects [OF assms(1)] by blast
  then obtain i where "i < length tasks" "f (tasks ! i) = Inr q" using assms(2) by (auto simp: set_collect)
  then show ?thesis using nth_mem by blast
qed

lemma piece_sizes:
  assumes "0 \<le> extent" "0 < n"
  shows "sum_list (map (piece_size extent n) [0..n - 1]) = extent" "0 \<le> piece_size extent n c"
proof -
  have "0 \<le> extent mod n" "extent mod n \<le> n" using assms(2) less_imp_le [OF pos_mod_bound] by simp_all
  from even_sizes_sum [OF this, of "extent div n"]
  have "sum_list (map (piece_size extent n) [0..n - 1]) = n * (extent div n) + extent mod n"
    by (simp only: piece_size_def [abs_def])
  then show "sum_list (map (piece_size extent n) [0..n - 1]) = extent" by simp
  show "0 \<le> piece_size extent n c" using assms by (simp add: piece_size_def pos_imp_zdiv_nonneg_iff)
qed

section \<open>hashcrack\<close>

lemma covered_hash_tasks:
  "(\<And>k. k \<in> set sizes \<Longrightarrow> 0 \<le> k) \<Longrightarrow> covered (hash_tasks pos sizes) = [pos..pos + sum_list sizes - 1] \<and>
     (\<forall>(a, b) \<in> set (hash_tasks pos sizes). a < b)"
proof (induction sizes arbitrary: pos)
  case (Cons k sizes)
  have k: "0 \<le> k" "0 \<le> sum_list sizes" using Cons.prems by (auto intro: sum_list_nonneg)
  have IH: "covered (hash_tasks q sizes) = [q..q + sum_list sizes - 1]" "\<forall>(a, b) \<in> set (hash_tasks q sizes). a < b" for q
    using Cons by auto
  show ?case
  proof (cases "k \<le> 0")
    case True
    then have "k = 0" using k by simp
    then show ?thesis using IH by simp
  next
    case False
    then show ?thesis using IH k upto_split [of pos "pos + k" "pos + k + sum_list sizes"] by (auto simp: add.assoc)
  qed
qed simp

definition hit :: "primitives \<Rightarrow> str \<Rightarrow> str \<Rightarrow> int \<Rightarrow> bool" where
  "hit P prefix target nonce \<longleftrightarrow> startswith (p_sha256 P (prefix @ show_int nonce)) target"

text \<open>A truthful report on the nonces from \<open>a\<close> to \<open>b\<close>: a hit if there is one, every hash counted if not.\<close>

definition hash_report :: "primitives \<Rightarrow> str \<Rightarrow> str \<Rightarrow> int set \<Rightarrow> dict \<Rightarrow> bool" where
  "hash_report P prefix target I out \<longleftrightarrow>
     get_or out ''found'' JNull = JBool (\<exists>n \<in> I. hit P prefix target n) \<and>
     (if \<exists>n \<in> I. hit P prefix target n
      then \<exists>n \<in> I. hit P prefix target n \<and> get_or out ''nonce'' JNull = JInt n \<and>
             get_or out ''hash'' JNull = JStr (p_sha256 P (prefix @ show_int n))
      else get_or out ''nonce'' JNull = JNull) \<and>
     (\<exists>t. get_or out ''hashes_tried'' (JInt 0) = JInt t \<and> 0 \<le> t \<and> t \<le> int (card I) \<and>
        (if \<exists>n \<in> I. hit P prefix target n then True else t = int (card I)))"

lemma first_nonce_Some:
  "first_nonce P prefix target ns = Some (n, d) \<Longrightarrow> n \<in> set ns \<and> hit P prefix target n \<and> d = p_sha256 P (prefix @ show_int n)"
  by (induction ns) (auto simp: hit_def Let_def split: if_splits)

lemma first_nonce_None: "first_nonce P prefix target ns = None \<longleftrightarrow> (\<forall>n \<in> set ns. \<not> hit P prefix target n)"
  by (induction ns) (auto simp: hit_def Let_def)

definition part_of :: "primitives \<Rightarrow> str \<Rightarrow> str \<Rightarrow> int \<times> int \<Rightarrow> hash_part" where
  "part_of P prefix target se = projr (hash_chunk P prefix target se)"

lemma hash_chunk_part: "hash_chunk P prefix target se = Inr (part_of P prefix target se)"
  by (simp add: part_of_def hash_chunk_def)

lemma part_of_props:
  assumes "a < b"
  shows "(\<exists>n \<in> {a..<b}. hit P prefix target n) \<Longrightarrow>
      \<exists>n t. n \<in> {a..<b} \<and> hit P prefix target n \<and> 0 \<le> t \<and> t \<le> b - a \<and>
        part_of P prefix target (a, b) = (Some n, Some (p_sha256 P (prefix @ show_int n)), t)"
    "\<not> (\<exists>n \<in> {a..<b}. hit P prefix target n) \<Longrightarrow> part_of P prefix target (a, b) = (None, None, b - a)"
proof -
  show "\<exists>n t. n \<in> {a..<b} \<and> hit P prefix target n \<and> 0 \<le> t \<and> t \<le> b - a \<and>
        part_of P prefix target (a, b) = (Some n, Some (p_sha256 P (prefix @ show_int n)), t)"
    if h: "\<exists>n \<in> {a..<b}. hit P prefix target n"
  proof -
    obtain n d where n: "first_nonce P prefix target [a..b - 1] = Some (n, d)"
      using h first_nonce_None [of P prefix target "[a..b - 1]"] by (cases "first_nonce P prefix target [a..b - 1]") auto
    then show ?thesis using first_nonce_Some [OF n] by (auto simp: part_of_def hash_chunk_def)
  qed
  show "part_of P prefix target (a, b) = (None, None, b - a)" if h: "\<not> (\<exists>n \<in> {a..<b}. hit P prefix target n)"
  proof -
    have "first_nonce P prefix target [a..b - 1] = None" using h first_nonce_None by auto
    then show ?thesis by (simp add: part_of_def hash_chunk_def)
  qed
qed

text \<open>Parts of the tasks of a range, in any order, put together.\<close>

lemma parts_report:
  assumes "covered tasks = [s..e - 1]" "s \<le> e" "\<forall>(a, b) \<in> set tasks. a < b"
    "mset parts = mset (map (part_of P prefix target) tasks)"
  shows "hash_report P prefix target {s..<e} (hash_output pre tgt start stop parts yielded)"
proof -
  let ?hit = "hit P prefix target" and ?p = "part_of P prefix target" and ?W = "find (\<lambda>p. fst p \<noteq> None) parts"
  have set_parts: "set parts = ?p ` set tasks" using mset_eq_setD [OF assms(4)] by simp
  have set_I: "{s..<e} = (\<Union>(a, b) \<in> set tasks. {a..<b})"
  proof -
    have "{a..<b} = {a..b - 1}" for a b :: int by auto
    then show ?thesis using set_covered [of tasks] assms(1) by simp
  qed
  have yes: "\<exists>n t. n \<in> {fst r..<snd r} \<and> ?hit n \<and> ?p r = (Some n, Some (p_sha256 P (prefix @ show_int n)), t)"
    if "r \<in> set tasks" "\<exists>n \<in> {fst r..<snd r}. ?hit n" for r
  proof -
    have "fst r < snd r" using that(1) assms(3) by auto
    from part_of_props(1) [OF this that(2)] show ?thesis by auto
  qed
  have no: "?p r = (None, None, snd r - fst r)" if "r \<in> set tasks" "\<not> (\<exists>n \<in> {fst r..<snd r}. ?hit n)" for r
  proof -
    have "fst r < snd r" using that(1) assms(3) by auto
    from part_of_props(2) [OF this that(2)] show ?thesis by simp
  qed
  have sub: "r \<in> set tasks \<Longrightarrow> {fst r..<snd r} \<subseteq> {s..<e}" for r unfolding set_I by auto
  have win: "\<exists>n t. ?W = Some (Some n, Some (p_sha256 P (prefix @ show_int n)), t) \<and> n \<in> {s..<e} \<and> ?hit n"
    if h: "\<exists>n \<in> {s..<e}. ?hit n"
  proof -
    obtain r where r: "r \<in> set tasks" "\<exists>n \<in> {fst r..<snd r}. ?hit n" using h unfolding set_I by fastforce
    then have "\<exists>p \<in> set parts. fst p \<noteq> None" using yes [OF r] unfolding set_parts by force
    then have "?W \<noteq> None" unfolding find_None_iff by blast
    then obtain p where p: "?W = Some p" by blast
    then have "p \<in> set parts" "fst p \<noteq> None" by (auto simp: find_Some_iff)
    then obtain q where q: "q \<in> set tasks" "p = ?p q" using set_parts by blast
    then have "\<exists>n \<in> {fst q..<snd q}. ?hit n" using no [OF q(1)] \<open>fst p \<noteq> None\<close> by (metis fst_conv)
    from yes [OF q(1) this] show ?thesis using p q sub [OF q(1)] by auto
  qed
  have none: "?W = None" if h: "\<not> (\<exists>n \<in> {s..<e}. ?hit n)"
  proof -
    have "fst (?p r) = None" if "r \<in> set tasks" for r using no [OF that] h sub [OF that] by (metis fst_conv subsetD)
    then show ?thesis by (simp add: find_None_iff set_parts)
  qed
  have tried: "sum_list (map (\<lambda>p. snd (snd p)) parts) = sum_list (map (\<lambda>r. snd (snd (?p r))) tasks)"
    using sum_reordered [OF assms(4), of "\<lambda>p. snd (snd p)"] by (simp add: comp_def)
  have card: "sum_list (map (\<lambda>(a, b). b - a) tasks) = int (card {s..<e})"
    using units_covered [OF assms(3)] assms(1,2) by simp
  have each: "0 \<le> snd (snd (?p r)) \<and> snd (snd (?p r)) \<le> (\<lambda>(a, b). b - a) r" if r: "r \<in> set tasks" for r
  proof -
    obtain a b where ab: "r = (a, b)" "a < b" using r assms(3) by (cases r) auto
    then show ?thesis using part_of_props [OF ab(2), of P prefix target] by (cases "\<exists>n \<in> {a..<b}. ?hit n") auto
  qed
  have le: "0 \<le> sum_list (map (\<lambda>p. snd (snd p)) parts)" "sum_list (map (\<lambda>p. snd (snd p)) parts) \<le> int (card {s..<e})"
    unfolding tried card [symmetric] using each by (auto intro!: sum_list_nonneg sum_list_mono)
  have all: "sum_list (map (\<lambda>p. snd (snd p)) parts) = int (card {s..<e})" if h: "\<not> (\<exists>n \<in> {s..<e}. ?hit n)"
  proof -
    have "snd (snd (?p r)) = (\<lambda>(a, b). b - a) r" if r: "r \<in> set tasks" for r
      using no [OF r] h sub [OF r] by (cases r) (auto simp: subset_iff)
    then have "map (\<lambda>r. snd (snd (?p r))) tasks = map (\<lambda>(a, b). b - a) tasks" by simp
    then show ?thesis by (simp only: tried card [symmetric])
  qed
  show ?thesis
  proof (cases "\<exists>n \<in> {s..<e}. ?hit n")
    case True
    then show ?thesis using win [OF True] le by (auto simp: hash_report_def hash_output_def get_or_def dict_get_def json_opt_def Let_def)
  next
    case False
    then show ?thesis using none [OF False] le all [OF False]
      by (simp add: hash_report_def hash_output_def get_or_def dict_get_def json_opt_def Let_def)
  qed
qed

text \<open>One tile, whatever the schedule of its pool.\<close>

lemma hash_tile_report:
  assumes "hashcrack P C cores pool schedule (js_input (hashcrack_tile prefix target ns a b)) y = Some (Inr out)"
    "get_or out ''yielded'' JNull = JBool False" "a \<le> b" "intact pool"
  shows "hash_report P prefix (lower target) {ns + a..<ns + b} out" "get_or out ''target_prefix'' JNull = JStr (lower target)"
    "out \<noteq> []"
proof -
  define n where "n = hash_chunks cores (b - a)"
  define sizes where "sizes = map (piece_size (b - a) n) [0..n - 1]"
  define tasks where "tasks = hash_tasks (ns + a) sizes"
  have "0 \<le> (b - a) div 500000" using assms(3) by (simp add: pos_imp_zdiv_nonneg_iff)
  then have n: "0 < n" unfolding n_def hash_chunks_def by linarith
  have sizes: "sum_list sizes = b - a" "\<And>k. k \<in> set sizes \<Longrightarrow> 0 \<le> k"
    unfolding sizes_def using piece_sizes [of "b - a" n] n assms(3) by auto
  have tasks: "covered tasks = [ns + a..(ns + b) - 1]" "\<forall>(a, b) \<in> set tasks. a < b"
    using covered_hash_tasks [OF sizes(2), where pos = "ns + a"] sizes(1) by (simp_all add: tasks_def)
  have "\<exists>parts yielded. parallel_map (hash_chunk P prefix (lower target)) tasks y cores pool schedule = Some (Inr (parts, yielded)) \<and>
      out = hash_output prefix (lower target) (ns + a) (ns + b) parts yielded"
    using assms(1) assms(3)
    by (auto simp: hashcrack_def hashcrack_tile_def get_or_def dict_get_def Let_def tasks_def sizes_def n_def max_def bind_err_Inr
        split: if_splits)
  then obtain parts yielded where p: "parallel_map (hash_chunk P prefix (lower target)) tasks y cores pool schedule = Some (Inr (parts, yielded))"
      "out = hash_output prefix (lower target) (ns + a) (ns + b) parts yielded" by blast
  have "\<not> yielded" using assms(2) by (simp add: p(2) hash_output_def get_or_def dict_get_def Let_def)
  then have "mset parts = mset (map (part_of P prefix (lower target)) tasks)"
    using parallel_map_all [of _ tasks y cores pool schedule parts] p(1) hash_chunk_part assms(4) by simp
  then show "hash_report P prefix (lower target) {ns + a..<ns + b} out"
    unfolding p(2) using parts_report [OF tasks(1) _ tasks(2)] assms(3) by simp
  show "get_or out ''target_prefix'' JNull = JStr (lower target)" "out \<noteq> []"
    by (simp_all add: p(2) hash_output_def get_or_def dict_get_def Let_def)
qed

text \<open>Reports on disjoint ranges, in any order, merged.\<close>

lemma merged_report:
  assumes "\<And>I out. (I, out) \<in> set ps \<Longrightarrow> hash_report P prefix target I out \<and> out \<noteq> []"
    "int (card (\<Union> (set (map fst ps)))) = sum_list (map (\<lambda>p. int (card (fst p))) ps)"
  shows "\<exists>agg. aggregate_hashcrack C (map JObj (map snd ps)) = Inr agg \<and> hash_report P prefix target (\<Union> (set (map fst ps))) agg"
proof -
  let ?hit = "hit P prefix target" and ?found = "\<lambda>r. truthy (get_or r ''found'' JNull)" and ?outs = "map snd ps"
  let ?I = "\<Union> (set (map fst ps))"
  define tried where "tried out = (case get_or out ''hashes_tried'' (JInt 0) of JInt t \<Rightarrow> t | _ \<Rightarrow> 0)" for out
  have rep: "hash_report P prefix target (fst p) (snd p) \<and> snd p \<noteq> []" if "p \<in> set ps" for p
    using assms(1) [of "fst p" "snd p"] that by simp
  have t: "get_int C (snd p) ''hashes_tried'' 0 = Inr (tried (snd p)) \<and> 0 \<le> tried (snd p) \<and>
      tried (snd p) \<le> int (card (fst p)) \<and> ((\<forall>n \<in> fst p. \<not> ?hit n) \<longrightarrow> tried (snd p) = int (card (fst p)))"
    if "p \<in> set ps" for p
    using rep [OF that] by (auto simp: hash_report_def tried_def get_int_def split: if_splits)
  have f: "?found (snd p) \<longleftrightarrow> (\<exists>n \<in> fst p. ?hit n)" if "p \<in> set ps" for p
    using rep [OF that] by (auto simp: hash_report_def)
  have "filter truthy (map JObj ?outs) = map JObj ?outs" using rep by (auto simp: filter_id_conv)
  then have dicts: "map_err as_dict (filter truthy (map JObj ?outs)) = Inr ?outs"
    by (simp add: map_err_Inr list.rel_map list_all2_same)
  have trieds: "map_err (\<lambda>r. get_int C r ''hashes_tried'' 0) ?outs = Inr (map (\<lambda>p. tried (snd p)) ps)"
    unfolding map_err_Inr using t by (simp add: list.rel_map list_all2_same)
  have le: "0 \<le> sum_list (map (\<lambda>p. tried (snd p)) ps)" "sum_list (map (\<lambda>p. tried (snd p)) ps) \<le> int (card ?I)"
    unfolding assms(2) using t by (auto intro!: sum_list_nonneg sum_list_mono)
  obtain agg where agg: "aggregate_hashcrack C (map JObj ?outs) = Inr agg"
      "get_or agg ''found'' JNull = JBool (find ?found ?outs \<noteq> None)"
      "get_or agg ''nonce'' JNull = (case find ?found ?outs of None \<Rightarrow> JNull | Some r \<Rightarrow> get_or r ''nonce'' JNull)"
      "get_or agg ''hash'' JNull = (case find ?found ?outs of None \<Rightarrow> JNull | Some r \<Rightarrow> get_or r ''hash'' JNull)"
      "get_or agg ''hashes_tried'' (JInt 0) = JInt (sum_list (map (\<lambda>p. tried (snd p)) ps))"
    using dicts trieds by (simp add: aggregate_hashcrack_def get_or_def dict_get_def Let_def)
  show ?thesis
  proof (cases "find ?found ?outs")
    case None
    then have none: "\<not> (\<exists>n \<in> ?I. ?hit n)" using f by (auto simp: find_None_iff)
    then have "map (\<lambda>p. tried (snd p)) ps = map (\<lambda>p. int (card (fst p))) ps" using t by auto
    then have "sum_list (map (\<lambda>p. tried (snd p)) ps) = int (card ?I)" by (simp only: assms(2))
    then show ?thesis using agg none None by (auto simp: hash_report_def)
  next
    case (Some r)
    then have "r \<in> set ?outs" "?found r" unfolding find_Some_iff by (metis nth_mem)+
    then obtain p where p: "p \<in> set ps" "r = snd p" "?found r" by auto
    then have "\<exists>n \<in> fst p. ?hit n" using f by blast
    then obtain n where n: "n \<in> fst p" "?hit n" "get_or r ''nonce'' JNull = JInt n"
        "get_or r ''hash'' JNull = JStr (p_sha256 P (prefix @ show_int n))"
      using rep [OF p(1)] p(2) by (auto simp: hash_report_def)
    then have "n \<in> ?I" using p(1) by auto
    then show ?thesis using agg n Some le by (auto simp: hash_report_def)
  qed
qed

lemma parallel_map_no_error:
  assumes "parallel_map f tasks y workers pool schedule = Some r" "\<And>t. f t = Inr (g t)" "pool \<noteq> SubmitFails"
  shows "\<exists>parts yielded. r = Inr (parts, yielded)"
proof -
  have "map_err f did = Inr (map g did)" for did using map_err_total [of did f g] assms(2) by auto
  then show ?thesis using assms(1,3) by (auto simp: parallel_map_def seq_loop_def split: if_splits prod.splits pool.splits)
qed

lemma hash_tile_returns:
  "pool \<noteq> SubmitFails \<Longrightarrow> \<exists>m. \<forall>schedule. {..<m} \<subseteq> \<Union> (set ` set schedule) \<longrightarrow>
     (\<exists>out. hashcrack P C cores pool schedule (js_input (hashcrack_tile prefix target ns a b)) y = Some (Inr out))"
proof -
  assume pool: "pool \<noteq> SubmitFails"
  define n where "n = hash_chunks cores (max 0 (b - a))"
  define tasks where "tasks = hash_tasks (ns + a) (map (piece_size (max 0 (b - a)) n) [0..n - 1])"
  let ?pm = "\<lambda>schedule. parallel_map (hash_chunk P prefix (lower target)) tasks y cores pool schedule"
  have "\<exists>out. hashcrack P C cores pool schedule (js_input (hashcrack_tile prefix target ns a b)) y = Some (Inr out)"
    if cover: "{..<length tasks} \<subseteq> \<Union> (set ` set schedule)" for schedule
  proof -
    obtain r where r: "?pm schedule = Some r"
      using parallel_map_returns [OF cover, of "hash_chunk P prefix (lower target)" y cores pool] by blast
    then obtain parts yielded where "?pm schedule = Some (Inr (parts, yielded))"
      using parallel_map_no_error [OF r hash_chunk_part pool] by auto
    then show ?thesis
      by (simp add: hashcrack_def hashcrack_tile_def get_or_def dict_get_def Let_def tasks_def n_def)
  qed
  then show ?thesis by blast
qed

text \<open>Whatever the pool loses and whenever the tile is preempted, a hit it names is one of its range.\<close>

lemma hash_tile_sound:
  assumes "hashcrack P C cores pool schedule (js_input (hashcrack_tile prefix target ns a b)) y = Some (Inr out)"
    "get_or out ''found'' JNull = JBool True" "a \<le> b"
  shows "\<exists>n \<in> {ns + a..<ns + b}. hit P prefix (lower target) n \<and> get_or out ''nonce'' JNull = JInt n \<and>
    get_or out ''hash'' JNull = JStr (p_sha256 P (prefix @ show_int n))"
proof -
  define n where "n = hash_chunks cores (b - a)"
  define sizes where "sizes = map (piece_size (b - a) n) [0..n - 1]"
  define tasks where "tasks = hash_tasks (ns + a) sizes"
  have "0 \<le> (b - a) div 500000" using assms(3) by (simp add: pos_imp_zdiv_nonneg_iff)
  then have n: "0 < n" unfolding n_def hash_chunks_def by linarith
  have sizes: "sum_list sizes = b - a" "\<And>k. k \<in> set sizes \<Longrightarrow> 0 \<le> k"
    unfolding sizes_def using piece_sizes [of "b - a" n] n assms(3) by auto
  have tasks: "covered tasks = [ns + a..(ns + b) - 1]"
    using covered_hash_tasks [OF sizes(2), where pos = "ns + a"] sizes(1) by (simp add: tasks_def)
  have "\<exists>parts yielded. parallel_map (hash_chunk P prefix (lower target)) tasks y cores pool schedule = Some (Inr (parts, yielded)) \<and>
      out = hash_output prefix (lower target) (ns + a) (ns + b) parts yielded"
    using assms(1) assms(3)
    by (auto simp: hashcrack_def hashcrack_tile_def get_or_def dict_get_def Let_def tasks_def sizes_def n_def max_def bind_err_Inr
        split: if_splits)
  then obtain parts yielded where p: "parallel_map (hash_chunk P prefix (lower target)) tasks y cores pool schedule = Some (Inr (parts, yielded))"
      "out = hash_output prefix (lower target) (ns + a) (ns + b) parts yielded" by blast
  have "find (\<lambda>p. fst p \<noteq> None) parts \<noteq> None"
    using assms(2) by (simp add: p(2) hash_output_def get_or_def dict_get_def Let_def)
  then obtain w where w: "find (\<lambda>p. fst p \<noteq> None) parts = Some w" by blast
  then have "w \<in> set parts" "fst w \<noteq> None" by (auto simp: find_Some_iff)
  then obtain u v where t: "(u, v) \<in> set tasks" "hash_chunk P prefix (lower target) (u, v) = Inr w"
    using parallel_map_sound [OF p(1), of w] by auto
  then obtain m d where m: "first_nonce P prefix (lower target) [u..v - 1] = Some (m, d)" "w = (Some m, Some d, m - u + 1)"
    using \<open>fst w \<noteq> None\<close> by (auto simp: hash_chunk_def split: option.splits)
  note first = first_nonce_Some [OF m(1)]
  have "m \<in> set (covered tasks)" unfolding set_covered using t(1) first by fastforce
  then have "m \<in> {ns + a..<ns + b}" by (simp add: tasks)
  then show ?thesis using first m(2) w
    by (intro bexI [of _ m]) (simp_all add: p(2) hash_output_def get_or_def dict_get_def Let_def json_opt_def)
qed

text \<open>C27.
  A hash search over the fleet finds a nonce exactly if the keyspace holds one, as long as no process pool
  loses a task. Whatever the split, the order in which tiles finish, the cores of each machine and the
  order in which its pool finishes its tasks: the merged report claims a hit iff some nonce of the
  keyspace matches, names a matching nonce with its digest, and when there is none has tried every nonce
  once. Every tile whose pool takes its tasks returns once they have been reported finished; and a hit a
  tile names is real also when its pool broke and lost tasks, or when it was preempted.
\<close>
theorem hash_search_complete:
  assumes "build_hashcrack_jobs n k target prefix ns ws = Inr specs" "split_ok k ws" "mset finished = mset specs"
    "list_all2 (\<lambda>j out. (\<exists>cores pool schedule y. intact pool \<and> hashcrack P C cores pool schedule (js_input j) y = Some (Inr out)) \<and>
       get_or out ''yielded'' JNull = JBool False) finished outs"
  shows "(\<exists>agg. aggregate_hashcrack C (map JObj outs) = Inr agg \<and> hash_report P prefix (lower target) {ns..<ns + k} agg) \<and>
    (\<forall>j \<in> set specs. \<forall>cores pool y. pool \<noteq> SubmitFails \<longrightarrow> (\<exists>m. \<forall>schedule. {..<m} \<subseteq> \<Union> (set ` set schedule) \<longrightarrow>
       (\<exists>out. hashcrack P C cores pool schedule (js_input j) y = Some (Inr out)))) \<and>
    (\<forall>j \<in> set specs. \<forall>cores pool schedule y out. hashcrack P C cores pool schedule (js_input j) y = Some (Inr out) \<longrightarrow>
       get_or out ''found'' JNull = JBool True \<longrightarrow>
       (\<exists>m \<in> {ns..<ns + k}. hit P prefix (lower target) m \<and> get_or out ''nonce'' JNull = JInt m \<and>
          get_or out ''hash'' JNull = JStr (p_sha256 P (prefix @ show_int m))))"
proof -
  have pos: "0 < k" and tiles: "tiles_of (hashcrack_tile prefix target ns) k n ws = Inr specs"
    using assms(1) by (auto simp: build_hashcrack_jobs_def split: if_splits)
  obtain rs where rs: "specs = map (\<lambda>(a, b). hashcrack_tile prefix target ns a b) rs" "covered rs = [0..k - 1]"
      "\<And>a b. (a, b) \<in> set rs \<Longrightarrow> a < b"
    using tiles_of_work(3) [OF tiles assms(2), of "''hashcrack''"] by (auto simp: hashcrack_tile_def)
  obtain qs where qs: "mset qs = mset rs" "finished = map (\<lambda>(a, b). hashcrack_tile prefix target ns a b) qs"
    using assms(3) reordered_map unfolding rs(1) by blast
  have len: "length outs = length qs" using list_all2_lengthD [OF assms(4)] by (simp add: qs(2))
  define ps where "ps = map (\<lambda>((a, b), out). ({ns + a..<ns + b}, out)) (zip qs outs)"
  have outs: "map snd ps = outs" "map fst ps = map (\<lambda>(a, b). {ns + a..<ns + b}) qs"
    using len by (auto simp: ps_def intro!: nth_equalityI split: prod.splits)
  have mem: "a < b \<and> 0 \<le> a \<and> b \<le> k" if "(a, b) \<in> set qs" for a b
    using that mset_eq_setD [OF qs(1)] covered_in [OF rs(2)] rs(3) by blast
  have reports: "hash_report P prefix (lower target) I out \<and> out \<noteq> []" if io: "(I, out) \<in> set ps" for I out
  proof -
    obtain i a b where "i < length qs" and ab: "(a, b) = qs ! i" and "I = {ns + a..<ns + b}" "out = outs ! i"
      using io len by (auto simp: ps_def set_zip)
    then have i: "i < length qs" "I = (\<lambda>(a, b). {ns + a..<ns + b}) (qs ! i)" "out = outs ! i"
      by (metis case_prod_conv)+
    note ab = ab [symmetric]
    have "a \<le> b" using mem [of a b] i(1) ab by (metis less_imp_le nth_mem)
    moreover have "\<exists>cores pool schedule y. intact pool \<and>
          hashcrack P C cores pool schedule (js_input (hashcrack_tile prefix target ns a b)) y = Some (Inr out)"
        "get_or out ''yielded'' JNull = JBool False"
      using list_all2_nthD [OF assms(4), of i] i ab by (simp_all add: qs(2))
    ultimately show ?thesis using hash_tile_report i(2) ab by fastforce
  qed
  have "set (covered qs) = {0..k - 1}"
    using rs(2) unfolding set_covered mset_eq_setD [OF qs(1)] by (metis set_covered set_upto)
  moreover have "x \<in> (case r of (a, b) \<Rightarrow> {ns + a..<ns + b}) \<longleftrightarrow> x - ns \<in> (case r of (a, b) \<Rightarrow> {a..b - 1})" for x r
    by (cases r) auto
  ultimately have "x \<in> \<Union> (set (map fst ps)) \<longleftrightarrow> x - ns \<in> {0..k - 1}" for x
    unfolding outs(2) set_covered by (simp add: set_eq_iff)
  then have all: "\<Union> (set (map fst ps)) = {ns..<ns + k}" unfolding set_eq_iff by simp (smt (verit))
  have sum: "int (card (\<Union> (set (map fst ps)))) = sum_list (map (\<lambda>p. int (card (fst p))) ps)"
  proof -
    have "map (\<lambda>p. int (card (fst p))) ps = map (\<lambda>(a, b). b - a) qs"
    proof -
      have "map (\<lambda>p. int (card (fst p))) ps = map (\<lambda>I. int (card I)) (map fst ps)" by simp
      also have "\<dots> = map (\<lambda>(a, b). b - a) qs" unfolding outs(2) using mem by fastforce
      finally show ?thesis .
    qed
    moreover have "sum_list (map (\<lambda>(a, b). b - a) qs) = k"
      using units_covered [of rs] rs(2,3) pos sum_reordered [OF qs(1), of "\<lambda>(a, b). b - a"] by auto
    ultimately show ?thesis using all pos by simp
  qed
  have found: "\<exists>agg. aggregate_hashcrack C (map JObj outs) = Inr agg \<and> hash_report P prefix (lower target) {ns..<ns + k} agg"
    using merged_report [OF reports sum, of C] unfolding outs(1) all .
  have returns: "\<forall>j \<in> set specs. \<forall>cores pool y. pool \<noteq> SubmitFails \<longrightarrow> (\<exists>m. \<forall>schedule. {..<m} \<subseteq> \<Union> (set ` set schedule) \<longrightarrow>
       (\<exists>out. hashcrack P C cores pool schedule (js_input j) y = Some (Inr out)))"
    using hash_tile_returns [where P = P and C = C and prefix = prefix and target = target and ns = ns] unfolding rs(1) by auto
  have real: "\<exists>m \<in> {ns..<ns + k}. hit P prefix (lower target) m \<and> get_or out ''nonce'' JNull = JInt m \<and>
        get_or out ''hash'' JNull = JStr (p_sha256 P (prefix @ show_int m))"
    if j: "j \<in> set specs" and out: "hashcrack P C cores pool schedule (js_input j) y = Some (Inr out)"
      "get_or out ''found'' JNull = JBool True" for j cores pool schedule y out
  proof -
    obtain a b where ab: "(a, b) \<in> set rs" "j = hashcrack_tile prefix target ns a b" using j unfolding rs(1) by auto
    then have m: "a < b \<and> 0 \<le> a \<and> b \<le> k" using mem [of a b] mset_eq_setD [OF qs(1)] by auto
    then have "a \<le> b" by simp
    from hash_tile_sound [OF out(1) [unfolded ab(2)] out(2) this] obtain x where x: "x \<in> {ns + a..<ns + b}"
      "hit P prefix (lower target) x" "get_or out ''nonce'' JNull = JInt x"
      "get_or out ''hash'' JNull = JStr (p_sha256 P (prefix @ show_int x))" by blast
    then have "x \<in> {ns..<ns + k}" using m by auto
    with x(2-4) show ?thesis by blast
  qed
  show ?thesis by (intro conjI found returns ballI allI impI, rule real)
qed

text \<open>A computable stand-in for SHA-256: the text itself behind an \<open>h\<close>.\<close>

definition search_prims :: primitives where
  "search_prims = \<lparr>p_sha256 = (\<lambda>m. CHR ''h'' # m), p_float_repr = (\<lambda>_. ''0.0''),
     p_iso = (\<lambda>_. ''t''), p_json_time = (\<lambda>_. ''t''), p_ed_public = (\<lambda>sk. sk), p_ed_sign = (\<lambda>sk m. m),
     p_ed_verify = (\<lambda>pk sig m. m = sig)\<rparr>"

lemma hash_search_complete_witness:
  "\<exists>agg. aggregate_hashcrack demo_conv (map JObj
       [hash_output ''p'' ''h'' 9 10 [(Some 9, Some ''hp9'', 1)] False, hash_output ''p'' ''h'' 7 9 [(Some 7, Some ''hp7'', 1)] False]) =
     Inr agg \<and> hash_report search_prims ''p'' (lower ''H'') {7..<7 + 3} agg"
proof -
  have b: "build_hashcrack_jobs 2 3 ''H'' ''p'' 7 None = Inr [hashcrack_tile ''p'' ''H'' 7 0 2, hashcrack_tile ''p'' ''H'' 7 2 3]" by code_simp
  have i: "intact NoPool" by (simp add: intact_def)
  have t: "hashcrack search_prims demo_conv 1 NoPool [] (js_input (hashcrack_tile ''p'' ''H'' 7 2 3)) never =
      Some (Inr (hash_output ''p'' ''h'' 9 10 [(Some 9, Some ''hp9'', 1)] False))"
    "hashcrack search_prims demo_conv 1 NoPool [] (js_input (hashcrack_tile ''p'' ''H'' 7 0 2)) never =
      Some (Inr (hash_output ''p'' ''h'' 7 9 [(Some 7, Some ''hp7'', 1)] False))" by code_simp+
  have y: "get_or (hash_output pre tgt a b ps False) ''yielded'' JNull = JBool False" for pre tgt a b ps
    by (simp add: hash_output_def get_or_def dict_get_def Let_def)
  from hash_search_complete [OF b, of "[hashcrack_tile ''p'' ''H'' 7 2 3, hashcrack_tile ''p'' ''H'' 7 0 2]" search_prims demo_conv
      "[hash_output ''p'' ''h'' 9 10 [(Some 9, Some ''hp9'', 1)] False, hash_output ''p'' ''h'' 7 9 [(Some 7, Some ''hp7'', 1)] False]"]
  show ?thesis using t y i by (fastforce simp: split_ok_def)
qed

text \<open>
  Without that condition the search may miss: here the pool loses the first of two tasks, the only one
  with a hit (nonce 1), and the tile is reported complete, with no hit and half the hashes tried.
\<close>

lemma lost_part_hides_a_hit:
  "hit search_prims ''p'' ''hp1'' 1"
  "hashcrack search_prims demo_conv 2 (Pool [0]) [[0, 1]] (js_input (hashcrack_tile ''p'' ''hp1'' 0 0 4)) never =
     Some (Inr (hash_output ''p'' ''hp1'' 0 4 [(None, None, 2)] False))"
  by code_simp+

section \<open>Monte Carlo\<close>

lemma add_hist_props:
  "length xs = length ys \<Longrightarrow> length (add_hist xs ys) = length ys \<and> sum_list (add_hist xs ys) = sum_list xs + sum_list ys"
  by (induction xs ys rule: list_induct2) (auto simp: add_hist_def)

lemma add_hist_nonneg: "\<forall>x \<in> set xs. 0 \<le> x \<Longrightarrow> \<forall>y \<in> set ys. 0 \<le> y \<Longrightarrow> \<forall>z \<in> set (add_hist xs ys). 0 \<le> z"
  by (auto simp: add_hist_def set_zip in_set_conv_nth) (metis add_nonneg_nonneg nth_mem)

definition hist_ok :: "nat \<Rightarrow> int \<Rightarrow> int list \<Rightarrow> bool" where
  "hist_ok nbins n hist \<longleftrightarrow> length hist = nbins \<and> sum_list hist = n \<and> list_all (\<lambda>c. 0 \<le> c) hist"

lemma mc_add_path_hist:
  assumes "mc_add_path lo width nbins e q = Inr q1"
  shows "\<exists>b < nat nbins. mq_count q1 = mq_count q \<and> mq_hist q1 = (mq_hist q)[b := mq_hist q ! b + 1]"
proof (intro exI [of _ "nat (mc_bucket lo width nbins e)"] conjI)
  have n: "0 < nbins" using assms by (simp add: mc_add_path_def split: if_splits)
  then show "nat (mc_bucket lo width nbins e) < nat nbins" by (simp add: mc_bucket_def)
  show "mq_count q1 = mq_count q"
    "mq_hist q1 = (mq_hist q)[nat (mc_bucket lo width nbins e) := mq_hist q ! nat (mc_bucket lo width nbins e) + 1]"
    using n assms by (auto simp: mc_add_path_def Let_def)
qed

lemma mc_paths_hist:
  "mc_paths L m seed drift vol width ps q = Inr r \<Longrightarrow> hist_ok (nat (mp_hist_bins m)) n (mq_hist q) \<Longrightarrow>
   mq_count r = mq_count q \<and> hist_ok (nat (mp_hist_bins m)) (n + int (length ps)) (mq_hist r)"
proof (induction ps arbitrary: q n)
  case (Cons p ps)
  obtain e q1 where q1: "mc_add_path (mp_hist_lo m) width (mp_hist_bins m) e q = Inr q1"
      "mc_paths L m seed drift vol width ps q1 = Inr r"
    using Cons.prems(1) by (auto simp: bind_err_Inr split: option.splits)
  obtain b where b: "b < nat (mp_hist_bins m)" "mq_count q1 = mq_count q" "mq_hist q1 = (mq_hist q)[b := mq_hist q ! b + 1]"
    using mc_add_path_hist [OF q1(1)] by blast
  have "hist_ok (nat (mp_hist_bins m)) (n + 1) (mq_hist q1)"
    using Cons.prems(2) b by (auto simp: hist_ok_def sum_list_update_int list_all_iff set_update_memI dest!: set_update_subset_insert [THEN subsetD])
  from Cons.IH [OF q1(2) this] b(2) show ?case by (simp add: add.assoc)
qed simp

lemma mc_chunk_hist:
  assumes "mc_chunk L m (seed, n) = Inr q" "0 \<le> n"
  shows "mq_count q = n \<and> hist_ok (nat (mp_hist_bins m)) n (mq_hist q)"
proof -
  have "hist_ok (nat (mp_hist_bins m)) 0 (replicate (nat (mp_hist_bins m)) 0)" by (simp add: hist_ok_def list_all_iff sum_list_replicate)
  then show ?thesis using assms mc_paths_hist by (fastforce simp: mc_chunk_def Let_def)
qed

lemma mc_chunk_runs:
  assumes "\<And>x. ml_exp L x \<noteq> None" "0 < mp_hist_bins m"
  shows "\<exists>q. mc_chunk L m se = Inr q"
proof -
  have "\<exists>r. mc_paths L m seed drift vol width ps q = Inr r" for seed drift vol width ps q
  proof (induction ps arbitrary: q)
    case (Cons p ps)
    obtain e where "ml_exp L (mc_log_return L seed (p * nat (mp_horizon_days m)) (mp_horizon_days m) drift vol) = Some e"
      using assms(1) by blast
    then show ?case using Cons assms(2) by (simp add: mc_add_path_def Let_def)
  qed simp
  then show ?thesis by (cases se) (simp add: mc_chunk_def Let_def)
qed

text \<open>Parts, and what a merge makes of them.\<close>

definition part_ok :: "nat \<Rightarrow> mc_part \<Rightarrow> bool" where
  "part_ok nbins q \<longleftrightarrow> 0 \<le> mq_count q \<and> hist_ok nbins (mq_count q) (mq_hist q)"

lemma hist_ok_add: "hist_ok nbins a xs \<Longrightarrow> hist_ok nbins b ys \<Longrightarrow> hist_ok nbins (a + b) (add_hist xs ys)"
  using add_hist_props [of xs ys] add_hist_nonneg [of xs ys] by (auto simp: hist_ok_def list_all_iff)

lemma merged_hist:
  "hist_ok nbins a h \<Longrightarrow> list_all (part_ok nbins) parts \<Longrightarrow>
   hist_ok nbins (a + sum_list (map mq_count parts)) (fold (\<lambda>q h. add_hist h (mq_hist q)) parts h)"
proof (induction parts arbitrary: a h)
  case (Cons q parts)
  then have "hist_ok nbins (a + mq_count q) (add_hist h (mq_hist q))" by (intro hist_ok_add) (auto simp: part_ok_def)
  from Cons.IH [OF this] Cons.prems(2) show ?case by (simp add: add.assoc)
qed simp

text \<open>A result accounts for its paths: each of them is in one bin, and none that was not asked for.\<close>

definition result_ok :: "mc_params \<Rightarrow> mc_result \<Rightarrow> bool" where
  "result_ok m r \<longleftrightarrow> hist_ok (nat (mp_hist_bins m)) (mr_paths r) (mr_hist r) \<and> 0 \<le> mr_paths r \<and>
     mr_paths r \<le> max 0 (mp_n_paths m)"

lemma collect_sub:
  assumes "distinct did" "set did \<subseteq> {..<length tasks}" "\<And>t q. t \<in> set tasks \<Longrightarrow> f t = Inr q \<Longrightarrow> c q = w t \<and> 0 \<le> w t"
    "\<And>t. t \<in> set tasks \<Longrightarrow> 0 \<le> (w t :: int)"
  shows "sum_list (map c (collect lost f tasks did)) \<le> sum_list (map w tasks)"
proof -
  have "sum_list (map c (collect lost f tasks did)) \<le> sum_list (map (\<lambda>i. w (tasks ! i)) did)"
    using assms(2)
  proof (induction did)
    case (Cons i did)
    have i: "tasks ! i \<in> set tasks" using Cons.prems by simp
    show ?case using Cons assms(3,4) [OF i] by (cases "f (tasks ! i)") (auto simp: collect_def)
  qed (simp add: collect_def)
  also have "\<dots> = (\<Sum>i \<in> set did. w (tasks ! i))" using assms(1) by (simp add: sum_list_distinct_conv_sum_set)
  also have "\<dots> \<le> (\<Sum>i < length tasks. w (tasks ! i))" using assms(2,4) by (intro sum_mono2) auto
  also have "\<dots> = sum_list (map w tasks)" by (simp add: sum_list_sum_nth lessThan_atLeast0)
  finally show ?thesis .
qed

lemma pieces_sum:
  assumes "0 < extent \<Longrightarrow> 0 < n"
  shows "sum_list (map (piece_size extent n) (filter (\<lambda>c. 0 < piece_size extent n c) [0..n - 1])) = max 0 extent"
proof (cases "0 < extent")
  case True
  have "sum_list (map (piece_size extent n) (filter (\<lambda>c. 0 < piece_size extent n c) cs)) = sum_list (map (piece_size extent n) cs)" for cs
    using piece_sizes(2) [of extent n] True assms by (induction cs) (auto simp: not_less intro: antisym)
  then show ?thesis using piece_sizes(1) [of extent n] True assms by simp
next
  case False
  have "piece_size extent n c \<le> 0" if "c \<in> set [0..n - 1]" for c
  proof (cases "extent = 0")
    case True
    then show ?thesis using that by (simp add: piece_size_def)
  next
    case f: False
    then have "extent div n < 0" using False that by (intro div_neg_pos_less0) auto
    then show ?thesis by (simp add: piece_size_def)
  qed
  then have "filter (\<lambda>c. 0 < piece_size extent n c) [0..n - 1] = []" by (auto simp: filter_empty_conv not_less)
  then show ?thesis using False by simp
qed

lemma montecarlo_result_ok:
  assumes "montecarlo L cores pool schedule m y = Some (Inr r)"
  shows "result_ok m r"
    "\<not> mr_yielded r \<Longrightarrow> intact pool \<Longrightarrow> (\<And>x. ml_exp L x \<noteq> None) \<Longrightarrow> 0 < mp_hist_bins m \<Longrightarrow> 0 \<le> mp_n_paths m \<Longrightarrow> mr_paths r = mp_n_paths m"
proof -
  define m' where "m' = m\<lparr>mp_horizon_days := max 1 (mp_horizon_days m)\<rparr>"
  define n where "n = max cores (min 2048 ((mp_n_paths m + 1999) div 2000))"
  define pieces where "pieces = filter (\<lambda>c. 0 < piece_size (mp_n_paths m) n c) [0..n - 1]"
  let ?tasks = "mc_tasks cores m'" and ?bins = "nat (mp_hist_bins m)"
  have tasks: "?tasks = map (\<lambda>c. (mp_seed m * 1000003 + c, piece_size (mp_n_paths m) n c)) pieces"
    by (simp add: mc_tasks_def m'_def n_def pieces_def Let_def)
  obtain parts yielded where p: "parallel_map (mc_chunk L m') ?tasks y cores pool schedule = Some (Inr (parts, yielded))"
      "r = mc_merge L m' parts yielded"
    using assms by (auto simp: montecarlo_def m'_def Let_def bind_err_Inr)
  have r: "mr_paths r = sum_list (map mq_count parts)" "mr_yielded r = yielded"
      "mr_hist r = fold (\<lambda>q h. add_hist h (mq_hist q)) parts (replicate ?bins 0)"
    by (simp_all add: p(2) mc_merge_def m'_def Let_def)
  obtain did lost where did: "distinct did" "set did \<subseteq> {..<length ?tasks}" "yielded \<or> set did = {..<length ?tasks}"
      "parts = collect lost (mc_chunk L m') ?tasks did" using parallel_map_collects [OF p(1)] by blast
  have bins: "mp_hist_bins m' = mp_hist_bins m" by (simp add: m'_def)
  have pos: "0 \<le> snd t" if "t \<in> set ?tasks" for t using that by (auto simp: tasks pieces_def)
  have chunk: "mq_count q = snd t \<and> hist_ok ?bins (snd t) (mq_hist q)" if "mc_chunk L m' t = Inr q" "t \<in> set ?tasks" for t q
    using mc_chunk_hist [of L m' "fst t" "snd t" q] that pos bins by simp
  have ok: "list_all (part_ok ?bins) parts"
    unfolding list_all_iff did(4) part_ok_def
  proof
    fix q assume "q \<in> set (collect lost (mc_chunk L m') ?tasks did)"
    then obtain i where i: "i \<in> set did" "mc_chunk L m' (?tasks ! i) = Inr q" using set_collect by metis
    then have "?tasks ! i \<in> set ?tasks" using did(2) by auto
    then show "0 \<le> mq_count q \<and> hist_ok ?bins (mq_count q) (mq_hist q)" using chunk [OF i(2)] pos by simp
  qed
  have "hist_ok ?bins 0 (replicate ?bins 0)" by (simp add: hist_ok_def list_all_iff sum_list_replicate)
  from merged_hist [OF this ok] have h: "hist_ok ?bins (mr_paths r) (mr_hist r)" by (simp add: r)
  have "0 < mp_n_paths m \<Longrightarrow> 0 < (mp_n_paths m + 1999) div 2000" by (simp add: pos_imp_zdiv_pos_iff)
  then have "0 < mp_n_paths m \<Longrightarrow> 0 < n" unfolding n_def by linarith
  then have all: "sum_list (map snd ?tasks) = max 0 (mp_n_paths m)"
    using pieces_sum [of "mp_n_paths m" n] by (simp add: tasks comp_def pieces_def)
  have "mr_paths r \<le> max 0 (mp_n_paths m)"
    unfolding r(1) did(4) all [symmetric] by (rule collect_sub [OF did(1,2)]) (use chunk pos in auto)
  moreover have "0 \<le> mr_paths r" unfolding r(1) using ok by (auto intro!: sum_list_nonneg simp: list_all_iff part_ok_def)
  ultimately show "result_ok m r" using h by (simp add: result_ok_def)
  show "mr_paths r = mp_n_paths m" if "\<not> mr_yielded r" "intact pool" "\<And>x. ml_exp L x \<noteq> None" "0 < mp_hist_bins m" "0 \<le> mp_n_paths m"
  proof -
    have g: "mc_chunk L m' t = Inr (projr (mc_chunk L m' t))" for t
      using mc_chunk_runs [OF that(3), of m' t] that(4) bins by auto
    have "mset parts = mset (map (\<lambda>t. projr (mc_chunk L m' t)) ?tasks)"
      using parallel_map_all [OF _ g that(2)] p(1) that(1) r(2) by auto
    from sum_reordered [OF this, of mq_count] have "mr_paths r = sum_list (map (\<lambda>t. mq_count (projr (mc_chunk L m' t))) ?tasks)"
      by (simp add: r(1) comp_def)
    also have "\<dots> = sum_list (map snd ?tasks)" using chunk [OF g] by (metis (no_types, lifting) map_cong)
    finally show ?thesis using all that(5) by simp
  qed
qed

lemma hist_ok_pad: "hist_ok n a h \<Longrightarrow> h @ replicate (n - length h) 0 = h"
  by (simp add: hist_ok_def)

lemma merge_tiles_ok:
  "list_all (\<lambda>r. hist_ok nbins (mr_paths r) (mr_hist r)) rs \<Longrightarrow> hist_ok nbins (ac_paths a) (ac_hist a) \<Longrightarrow>
   \<exists>a'. merge_tiles rs a = Inr a' \<and> hist_ok nbins (ac_paths a') (ac_hist a') \<and>
     ac_paths a' = ac_paths a + sum_list (map mr_paths rs)"
proof (induction rs arbitrary: a)
  case (Cons r rs)
  then have h: "hist_ok nbins (mr_paths r) (mr_hist r)" "hist_ok nbins (ac_paths a) (ac_hist a)" by auto
  then have len: "length (ac_hist a) = length (mr_hist r)" by (simp add: hist_ok_def)
  obtain a1 where a1: "merge_tile r a = Inr a1" "ac_paths a1 = ac_paths a + mr_paths r" "ac_hist a1 = add_hist (ac_hist a) (mr_hist r)"
    using len by (auto simp: merge_tile_def Let_def)
  have "hist_ok nbins (ac_paths a1) (ac_hist a1)" unfolding a1(2,3) using hist_ok_add [OF h(2,1)] .
  from Cons.IH [OF _ this] Cons.prems(1) a1 show ?case by (auto simp: add.assoc)
qed simp

lemma sum_filter_zero: "sum_list (map f (filter (\<lambda>x. f x \<noteq> 0) xs)) = (sum_list (map f xs) :: int)"
  by (induction xs) auto


lemma montecarlo_returns:
  assumes "\<And>x. ml_exp L x \<noteq> None" "0 < mp_hist_bins m"
    "pool \<noteq> SubmitFails"
  shows "\<exists>schedule r. montecarlo L cores pool schedule m y = Some (Inr r)"
proof -
  define m' where "m' = m\<lparr>mp_horizon_days := max 1 (mp_horizon_days m)\<rparr>"
  let ?tasks = "mc_tasks cores m'" and ?s = "[[0..<length (mc_tasks cores m')]]"
  have g: "mc_chunk L m' t = Inr (projr (mc_chunk L m' t))" for t
    using mc_chunk_runs [OF assms(1), of m' t] assms(2) by (auto simp: m'_def)
  obtain r where r: "parallel_map (mc_chunk L m') ?tasks y cores pool ?s = Some r"
    using parallel_map_returns [of ?tasks ?s "mc_chunk L m'" y cores pool] by (auto simp: lessThan_atLeast0)
  then obtain parts yielded where "r = Inr (parts, yielded)" using parallel_map_no_error [OF r g assms(3)] by blast
  then have "montecarlo L cores pool ?s m y = Some (Inr (mc_merge L m' parts yielded))"
    using r by (simp add: montecarlo_def m'_def Let_def)
  then show ?thesis by blast
qed


end
