(* ===== verification/Execute_Ai.thy ===== *)
theory Execute_Ai imports Execute begin

text \<open>
  \<open>src/jobkit/execute.py\<close>, the AI kinds: \<open>ai.batch_infer\<close> / \<open>ai.infer\<close>, \<open>ai.synth\<close>, \<open>ai.eval\<close> and
  \<open>ai.graph\<close>, with the disclosed fallbacks that run when no model is reachable, and \<open>execute\<close>, which
  picks the executor of a kind. The model's answers, the environment, \<open>json.loads\<close> and
  \<open>random.Random(seed).choice\<close> are parameters; so is \<open>_render\<close>, which needs numpy or a GPU.
\<close>

record ai_platform =
  ap_no_llm :: bool          \<comment> \<open>\<open>ONECOMPUTE_NO_LLM\<close> is set\<close>
  ap_ollama :: bool          \<comment> \<open>the probe of the local model server answers 200\<close>
  ap_openai_key :: bool
  ap_anthropic_key :: bool
  ap_local_model :: str
  ap_complete :: "str \<Rightarrow> nat \<Rightarrow> json \<Rightarrow> json \<Rightarrow> int \<Rightarrow> py_error + str \<times> int"
    \<comment> \<open>backend, number of the call, prompt, model, \<open>max_tokens\<close>: text and tokens used\<close>
  ap_choice :: "int \<Rightarrow> nat \<Rightarrow> nat \<Rightarrow> nat" \<comment> \<open>position of the \<open>k\<close>-th \<open>choice\<close> among \<open>n\<close>\<close>
  ap_loads :: "str \<Rightarrow> json option"
  ap_word :: "str \<Rightarrow> bool"   \<comment> \<open>whether \<open>re\<close> counts a non-ASCII character as part of a word\<close>

section \<open>Backends\<close>

definition ollama_available :: "ai_platform \<Rightarrow> bool" where
  "ollama_available A \<longleftrightarrow> (if ap_no_llm A then False else ap_ollama A)"

definition detect_ai_backend :: "ai_platform \<Rightarrow> str option" where
  "detect_ai_backend A =
     (if ap_no_llm A then None
      else if ollama_available A then Some ''ollama''
      else if ap_openai_key A then Some ''openai''
      else if ap_anthropic_key A then Some ''anthropic'' else None)"

definition backend_name :: "str option \<Rightarrow> json" where
  "backend_name backend = JStr (case backend of None \<Rightarrow> ''fallback'' | Some b \<Rightarrow> b)"

definition default_model :: "ai_platform \<Rightarrow> str \<Rightarrow> str" where
  "default_model A backend =
     (if backend = ''ollama'' then ap_local_model A else if backend = ''openai'' then ''gpt-4o-mini'' else ''claude-haiku-4-5'')"

definition ai_one :: "ai_platform \<Rightarrow> str option \<Rightarrow> nat \<Rightarrow> json \<Rightarrow> json \<Rightarrow> int \<Rightarrow> py_error + str \<times> int" where
  "ai_one A backend call prompt model max_tokens =
     (case backend of
        Some b \<Rightarrow> ap_complete A b call prompt (if truthy model then model else JStr (default_model A b)) max_tokens
      | None \<Rightarrow>
          (case prompt of
             JStr s \<Rightarrow> Inr (''[fallback completion for '' @ show_nat (length (utf8_chars s)) @ '' chars]'', max_tokens)
           | _ \<Rightarrow> Inl (OtherError ''AttributeError'')))"

text \<open>The items with their number, the index of a model call.\<close>

definition numbered :: "'a list \<Rightarrow> (nat \<times> 'a) list" where
  "numbered xs = zip [0..<length xs] xs"

section \<open>ai.batch\_infer\<close>

definition infer_item :: "ai_platform \<Rightarrow> str option \<Rightarrow> json \<Rightarrow> int \<Rightarrow> nat \<times> json \<Rightarrow> py_error + json" where
  "infer_item A backend model max_tokens np =
     bind_err (ai_one A backend (fst np) (snd np) model max_tokens) (\<lambda>(text, tokens).
       Inr (JObj [(''prompt'', snd np), (''completion'', JStr text), (''tokens'', JInt tokens)]))"

definition ai_batch_infer :: "ai_platform \<Rightarrow> conversions \<Rightarrow> dict \<Rightarrow> polls \<Rightarrow> py_error + dict" where
  "ai_batch_infer A C input y =
     (let prompts = get_or input ''prompts'' (JList []); model = get_or input ''model'' (JStr [])
      in bind_err (get_int C input ''max_tokens'' 64) (\<lambda>max_tokens.
         bind_err (iterate prompts) (\<lambda>ps.
           (let backend = detect_ai_backend A; (did, yielded) = until_yield y 0 (numbered ps)
            in bind_err (map_err (infer_item A backend model max_tokens) did) (\<lambda>results.
                 Inr [(''results'', JList results), (''backend'', backend_name backend), (''yielded'', JBool yielded)])))))"

section \<open>ai.synth\<close>

definition SYNTH_FIRST :: "str list" where
  "SYNTH_FIRST = [''Ada'', ''Bjarne'', ''Grace'', ''Linus'', ''Margaret'', ''Dennis'', ''Barbara'', ''Ken'',
     ''Radia'', ''Guido'', ''Anita'', ''Donald'', ''Joan'', ''Alan'', ''Karen'', ''Brian'']"

definition SYNTH_LAST :: "str list" where
  "SYNTH_LAST = [''Lovelace'', ''Hopper'', ''Torvalds'', ''Hamilton'', ''Ritchie'', ''Liskov'', ''Perlman'',
     ''Thompson'', ''Knuth'', ''Goldberg'', ''Turing'', ''Borg'', ''Cerf'', ''Allen'', ''Wing'']"

definition SYNTH_ROLES :: "str list" where
  "SYNTH_ROLES = [''Software Engineer'', ''Data Scientist'', ''Product Manager'', ''SRE'',
     ''Security Engineer'', ''ML Engineer'', ''Designer'', ''Engineering Manager'']"

definition SYNTH_TEAMS :: "str list" where
  "SYNTH_TEAMS = [''Platform'', ''Infrastructure'', ''Growth'', ''Security'', ''Research'',
     ''Payments'', ''Mobile'', ''Developer Experience'']"

definition pick :: "ai_platform \<Rightarrow> int \<Rightarrow> nat \<Rightarrow> str list \<Rightarrow> str" where
  "pick A seed k xs = xs ! (ap_choice A seed k (length xs) mod length xs)"

text \<open>\<open>d[k] = v\<close>: a new key goes to the end.\<close>

fun dict_put :: "str \<Rightarrow> json \<Rightarrow> dict \<Rightarrow> dict" where
  "dict_put k v [] = [(k, v)]"
| "dict_put k v ((k', v') # d) = (if k' = k then (k, v) # d else (k', v') # dict_put k v d)"

text \<open>The format \<open>:05d\<close>.\<close>

definition pad5 :: "int \<Rightarrow> str" where
  "pad5 n =
     (let digits = show_nat (nat \<bar>n\<bar>); sign = (if n < 0 then ''-'' else [])
      in sign @ replicate (5 - length sign - length digits) CHR ''0'' @ digits)"

definition fallback_field :: "ai_platform \<Rightarrow> conversions \<Rightarrow> int \<Rightarrow> json \<Rightarrow> str \<Rightarrow> str" where
  "fallback_field A C index spec field =
     (let first = pick A index 0 SYNTH_FIRST; last = pick A index 1 SYNTH_LAST; name = first @ '' '' @ last;
          role = pick A index 2 SYNTH_ROLES; team = pick A index 3 SYNTH_TEAMS; low = lower field
      in if low = ''name'' then name
         else if low = ''role'' \<or> low = ''title'' then role
         else if low = ''team'' \<or> low = ''department'' then team
         else if low = ''summary'' \<or> low = ''bio''
           then name @ '' is a '' @ role @ '' on the '' @ team @ '' team ('' @ to_str C spec @ '').''
         else if low = ''id'' \<or> low = ''employee_id'' then ''EMP-'' @ pad5 index
         else if low = ''email'' then lower (first @ ''.'' @ last @ ''@example.com'')
         else field @ ''-'' @ show_int index)"

fun synth_fallback_row :: "ai_platform \<Rightarrow> conversions \<Rightarrow> int \<Rightarrow> json \<Rightarrow> json list \<Rightarrow> dict \<Rightarrow> py_error + dict" where
  "synth_fallback_row A C index spec [] record = Inr record"
| "synth_fallback_row A C index spec (JStr field # fs) record =
     synth_fallback_row A C index spec fs (dict_put field (JStr (fallback_field A C index spec field)) record)"
| "synth_fallback_row A C index spec (_ # fs) record = Inl (OtherError ''AttributeError'')"

text \<open>The text from the first \<open>{\<close> to the last \<open>}\<close>.\<close>

definition json_block :: "str \<Rightarrow> str option" where
  "json_block text =
     (let block = rev (dropWhile (\<lambda>c. c \<noteq> CHR ''}'') (rev (dropWhile (\<lambda>c. c \<noteq> CHR ''{'') text)))
      in if block = [] then None else Some block)"

definition loads_block :: "ai_platform \<Rightarrow> str \<Rightarrow> json option" where
  "loads_block A text = (case json_block text of None \<Rightarrow> None | Some block \<Rightarrow> ap_loads A block)"

fun names_of :: "json list \<Rightarrow> py_error + str list" where
  "names_of [] = Inr []"
| "names_of (JStr s # vs) = bind_err (names_of vs) (\<lambda>ss. Inr (s # ss))"
| "names_of (_ # vs) = Inl (TypeError ''expected str instance'')"

definition parse_synth_record :: "ai_platform \<Rightarrow> str \<Rightarrow> str list \<Rightarrow> dict option" where
  "parse_synth_record A text fs =
     (case loads_block A text of
        Some (JObj parsed) \<Rightarrow> Some (fold (\<lambda>f d. dict_put f (get_or parsed f (JStr [])) d) fs [])
      | _ \<Rightarrow> None)"

definition synth_prompt :: "conversions \<Rightarrow> json \<Rightarrow> str list \<Rightarrow> int \<Rightarrow> str" where
  "synth_prompt C spec fs index =
     ''Generate ONE realistic synthetic record describing '' @ to_str C spec @ ''. Return ONLY a JSON object with exactly these keys: '' @
     join '', '' fs @ ''. No prose, no markdown, no code fence. Record #'' @ show_int index @ ''.''"

definition synth_row ::
  "ai_platform \<Rightarrow> conversions \<Rightarrow> str option \<Rightarrow> json \<Rightarrow> json list \<Rightarrow> json \<Rightarrow> int \<Rightarrow> int \<Rightarrow> nat \<times> int \<Rightarrow> py_error + json" where
  "synth_row A C backend spec field_list model max_tokens start_index io =
     (let index = start_index + snd io; stub = synth_fallback_row A C index spec field_list []
      in case backend of
           None \<Rightarrow> bind_err stub (\<lambda>r. Inr (JObj r))
         | Some _ \<Rightarrow>
             bind_err (names_of field_list) (\<lambda>fs.
             bind_err (ai_one A backend (fst io) (JStr (synth_prompt C spec fs index)) model max_tokens) (\<lambda>(text, _).
               case parse_synth_record A text fs of
                 Some r \<Rightarrow> Inr (JObj r)
               | None \<Rightarrow> bind_err stub (\<lambda>r. Inr (JObj r)))))"

definition ai_synth :: "ai_platform \<Rightarrow> conversions \<Rightarrow> dict \<Rightarrow> polls \<Rightarrow> py_error + dict" where
  "ai_synth A C input y =
     (let spec = get_or input ''spec'' (JStr ''a software employee record''); model = get_or input ''model'' (JStr [])
      in bind_err (get_int C input ''n_rows'' 0) (\<lambda>n_rows.
         bind_err (iterate (get_or input ''fields'' (JList (map JStr [''name'', ''role'', ''team'', ''summary''])))) (\<lambda>field_list.
         bind_err (get_int C input ''start_index'' 0) (\<lambda>start_index.
         bind_err (get_int C input ''max_tokens'' 160) (\<lambda>max_tokens.
           (let backend = detect_ai_backend A; (did, yielded) = until_yield y 0 (numbered [0..n_rows - 1])
            in bind_err (map_err (synth_row A C backend spec field_list model max_tokens start_index) did) (\<lambda>rows.
                 Inr [(''rows'', JList rows), (''backend'', backend_name backend),
                      (''start_index'', JInt start_index), (''yielded'', JBool yielded)])))))))"

section \<open>ai.eval\<close>

definition hex_number :: "str \<Rightarrow> nat" where
  "hex_number s = fold (\<lambda>c n. 16 * n + (case hex_value c of None \<Rightarrow> 0 | Some v \<Rightarrow> v)) s 0"

definition eval_prompt :: "str \<Rightarrow> str \<Rightarrow> str \<Rightarrow> str" where
  "eval_prompt rubric question answer =
     ''Grade the ANSWER to the QUESTION from 0-10 using the RUBRIC. Reply with ONLY a JSON object: {\"score\": <integer 0-10>, \"verdict\": \"<one short sentence>\"}.'' @
     [CHR 0x0A] @ ''RUBRIC: '' @ rubric @ [CHR 0x0A] @ ''QUESTION: '' @ question @ [CHR 0x0A] @ ''ANSWER: '' @ answer"

definition cut_text :: "nat \<Rightarrow> str \<Rightarrow> str" where
  "cut_text n s = concat (take n (utf8_chars s))"

text \<open>What the judge's text says: a score that does not read as a finite number leaves 0 and the text.\<close>

definition read_verdict :: "ai_platform \<Rightarrow> conversions \<Rightarrow> str \<Rightarrow> int \<times> str" where
  "read_verdict A C text =
     (case loads_block A text of
        Some (JObj d) \<Rightarrow>
          (case to_float C (get_or d ''score'' (JInt 0)) of
             Inr (Fin x) \<Rightarrow> (rne x, cut_text 200 (to_str C (get_or d ''verdict'' (JStr []))))
           | _ \<Rightarrow> (0, cut_text 200 text))
      | _ \<Rightarrow> (0, cut_text 200 text))"

definition ai_eval_one ::
  "primitives \<Rightarrow> ai_platform \<Rightarrow> conversions \<Rightarrow> str option \<Rightarrow> nat \<Rightarrow> str \<Rightarrow> str \<Rightarrow> str \<Rightarrow> json \<Rightarrow> int \<Rightarrow> py_error + int \<times> str" where
  "ai_eval_one P A C backend call question answer rubric model max_tokens =
     (case backend of
        None \<Rightarrow> Inr (int (hex_number (take 4 (sha256_hex (p_sha256 P) (p_float_repr P) (JStr (question @ ''||'' @ answer)))) mod 11),
                   ''[fallback heuristic score, no model]'')
      | Some _ \<Rightarrow>
          bind_err (ai_one A backend call (JStr (eval_prompt rubric question answer)) model max_tokens) (\<lambda>(text, _).
            (let (score, verdict) = read_verdict A C text in Inr (max 0 (min 10 score), verdict))))"

definition eval_row ::
  "primitives \<Rightarrow> ai_platform \<Rightarrow> conversions \<Rightarrow> str option \<Rightarrow> str \<Rightarrow> json \<Rightarrow> int \<Rightarrow> nat \<times> json \<Rightarrow> py_error + json" where
  "eval_row P A C backend rubric model max_tokens ni =
     bind_err (as_dict (snd ni)) (\<lambda>item.
     bind_err (ai_eval_one P A C backend (fst ni) (to_str C (get_or item ''question'' (JStr [])))
                 (to_str C (get_or item ''answer'' (JStr []))) rubric model max_tokens) (\<lambda>(score, verdict).
       Inr (JObj ([(''question'', get_or item ''question'' (JStr [])), (''score'', JInt score), (''verdict'', JStr verdict)] @
                  (case dict_get item ''label'' of None \<Rightarrow> [] | Some l \<Rightarrow> [(''label'', l)])))))"

definition ai_eval :: "primitives \<Rightarrow> ai_platform \<Rightarrow> conversions \<Rightarrow> dict \<Rightarrow> polls \<Rightarrow> py_error + dict" where
  "ai_eval P A C input y =
     (let rubric = to_str C (get_or input ''rubric'' (JStr ''correctness, clarity, and completeness''));
          model = get_or input ''model'' (JStr [])
      in bind_err (get_int C input ''max_tokens'' 120) (\<lambda>max_tokens.
         bind_err (iterate (get_or input ''items'' (JList []))) (\<lambda>items.
           (let backend = detect_ai_backend A; (did, yielded) = until_yield y 0 (numbered items)
            in bind_err (map_err (eval_row P A C backend rubric model max_tokens) did) (\<lambda>results.
                 Inr [(''results'', JList results), (''backend'', backend_name backend), (''yielded'', JBool yielded)])))))"

section \<open>ai.graph\<close>

text \<open>
  The matches of \<open>\b[A-Z][a-zA-Z]{2,}\b\<close>: whole runs of word characters that start with a capital and
  are at least three ASCII letters, nothing else.
\<close>

definition ascii_letter :: "char \<Rightarrow> bool" where
  "ascii_letter c \<longleftrightarrow> (65 \<le> code_of c \<and> code_of c \<le> 90) \<or> (97 \<le> code_of c \<and> code_of c \<le> 122)"

definition word_char :: "ai_platform \<Rightarrow> str \<Rightarrow> bool" where
  "word_char A c = (case c of [b] \<Rightarrow> ascii_letter b \<or> is_digit b \<or> b = CHR ''_'' | _ \<Rightarrow> ap_word A c)"

fun word_runs :: "ai_platform \<Rightarrow> str list \<Rightarrow> str list \<Rightarrow> str list list" where
  "word_runs A [] run = (if run = [] then [] else [run])"
| "word_runs A (c # cs) run =
     (if word_char A c then word_runs A cs (run @ [c])
      else if run = [] then word_runs A cs [] else run # word_runs A cs [])"

definition capitalised :: "str list \<Rightarrow> bool" where
  "capitalised run \<longleftrightarrow> 3 \<le> length run \<and> list_all (\<lambda>c. length c = 1 \<and> ascii_letter (hd c)) run \<and>
     code_of (hd (hd run)) \<le> 90"

definition entities_in :: "ai_platform \<Rightarrow> str \<Rightarrow> str list" where
  "entities_in A doc =
     take 8 (fold (\<lambda>w es. if w \<in> set es then es else es @ [w])
       (map concat (filter capitalised (word_runs A (utf8_chars doc) []))) [])"

definition relation :: "str \<Rightarrow> str \<Rightarrow> str \<Rightarrow> json" where
  "relation s r t = JObj [(''source'', JStr s), (''relation'', JStr r), (''target'', JStr t)]"

definition graph_prompt :: "str \<Rightarrow> str" where
  "graph_prompt doc =
     ''Extract a knowledge graph from the TEXT. Reply with ONLY JSON: {\"entities\": [\"...\"], \"relations\": [{\"source\":\"...\",\"relation\":\"...\",\"target\":\"...\"}]}.'' @
     [CHR 0x0A] @ ''TEXT: '' @ doc"

definition read_relation :: "conversions \<Rightarrow> json \<Rightarrow> json list" where
  "read_relation C v =
     (case v of
        JObj d \<Rightarrow> if truthy (get_or d ''source'' JNull) \<and> truthy (get_or d ''target'' JNull)
                 then [relation (to_str C (get_or d ''source'' (JStr []))) (to_str C (get_or d ''relation'' (JStr [])))
                         (to_str C (get_or d ''target'' (JStr [])))] else []
      | _ \<Rightarrow> [])"

definition read_graph :: "ai_platform \<Rightarrow> conversions \<Rightarrow> str \<Rightarrow> str list \<times> json list" where
  "read_graph A C text =
     (case loads_block A text of
        Some (JObj d) \<Rightarrow>
          (case (iterate (get_or d ''entities'' (JList [])), iterate (get_or d ''relations'' (JList []))) of
             (Inr es, Inr rs) \<Rightarrow> (take 24 (map (to_str C) (filter truthy es)), take 48 (concat (map (read_relation C) rs)))
           | _ \<Rightarrow> ([], []))
      | _ \<Rightarrow> ([], []))"

definition ai_graph_one ::
  "ai_platform \<Rightarrow> conversions \<Rightarrow> str option \<Rightarrow> nat \<Rightarrow> str \<Rightarrow> json \<Rightarrow> int \<Rightarrow> py_error + str list \<times> json list" where
  "ai_graph_one A C backend call doc model max_tokens =
     (case backend of
        None \<Rightarrow> (let es = entities_in A doc
                 in Inr (es, map (\<lambda>(s, t). relation s ''related_to'' t) (zip es (tl es))))
      | Some _ \<Rightarrow>
          bind_err (ai_one A backend call (JStr (graph_prompt doc)) model max_tokens) (\<lambda>(text, _). Inr (read_graph A C text)))"

definition add_entities :: "str list \<Rightarrow> str list \<Rightarrow> str list" where
  "add_entities es nodes = fold (\<lambda>e ns. if e \<noteq> [] \<and> e \<notin> set ns then ns @ [e] else ns) es nodes"

definition ai_graph :: "ai_platform \<Rightarrow> conversions \<Rightarrow> dict \<Rightarrow> polls \<Rightarrow> py_error + dict" where
  "ai_graph A C input y =
     (let model = get_or input ''model'' (JStr [])
      in bind_err (get_int C input ''max_tokens'' 220) (\<lambda>max_tokens.
         bind_err (iterate (get_or input ''docs'' (JList []))) (\<lambda>docs.
           (let backend = detect_ai_backend A; (did, yielded) = until_yield y 0 (numbered docs)
            in bind_err (map_err (\<lambda>(i, doc). ai_graph_one A C backend i (to_str C doc) model max_tokens) did) (\<lambda>graphs.
                 Inr [(''nodes'', JList (map JStr (fold (\<lambda>(es, _). add_entities es) graphs []))),
                      (''edges'', JList (concat (map snd graphs))), (''backend'', backend_name backend),
                      (''yielded'', JBool yielded)])))))"

section \<open>Dispatch\<close>

text \<open>
  \<open>_montecarlo\<close> reads its parameters out of the job's input. \<open>None\<close>: one of its floats is infinite or
  NaN, which the typed model of the simulation does not represent.
\<close>

definition montecarlo_input :: "conversions \<Rightarrow> dict \<Rightarrow> py_error + mc_params option" where
  "montecarlo_input C d =
     bind_err (get_int C d ''n_paths'' 200000) (\<lambda>n.
     bind_err (get_int C d ''horizon_days'' 252) (\<lambda>h.
     bind_err (get_float C d ''mu'' (fl64 (7 / 100))) (\<lambda>mu.
     bind_err (get_float C d ''sigma'' (fl64 (2 / 10))) (\<lambda>sigma.
     bind_err (get_int C d ''seed'' 0) (\<lambda>seed.
     bind_err (get_float C d ''hist_lo'' (-1)) (\<lambda>lo.
     bind_err (get_float C d ''hist_hi'' 2) (\<lambda>hi.
     bind_err (get_int C d ''hist_bins'' 120) (\<lambda>bins.
       Inr (case (mu, sigma, lo, hi) of
              (Fin mu, Fin sigma, Fin lo, Fin hi) \<Rightarrow>
                Some \<lparr>mp_n_paths = n, mp_horizon_days = h, mp_mu = mu, mp_sigma = sigma, mp_seed = seed,
                      mp_hist_lo = lo, mp_hist_hi = hi, mp_hist_bins = bins\<rparr>
            | _ \<Rightarrow> None)))))))))"

definition mc_output :: "mc_result \<Rightarrow> dict" where
  "mc_output r =
     [(''paths'', JInt (mr_paths r)), (''mean_return'', JFloat (Fin (mr_mean_return r))), (''stdev'', JFloat (Fin (mr_stdev r))),
      (''worst_return'', JFloat (Fin (mr_worst_return r))), (''hist'', JList (map JInt (mr_hist r))),
      (''hist_lo'', JFloat (Fin (mr_hist_lo r))), (''hist_hi'', JFloat (Fin (mr_hist_hi r))),
      (''horizon_days'', JInt (mr_horizon_days r)), (''yielded'', JBool (mr_yielded r))]"

record machine =
  mn_prims :: primitives
  mn_conv :: conversions
  mn_ai :: ai_platform
  mn_lib :: math_lib
  mn_cores :: int
  mn_pool :: pool                       \<comment> \<open>whether a process pool starts, and what it loses\<close>
  mn_schedule :: "nat list list"        \<comment> \<open>the order the pool finishes its tasks in\<close>
  mn_render :: "dict \<Rightarrow> polls \<Rightarrow> py_error + dict"

definition EXECUTORS :: "str list" where
  "EXECUTORS = [''data.transform'', ''render'', ''challenge'', ''ai.batch_infer'', ''ai.infer'', ''eval'', ''fractal'',
     ''optimize'', ''montecarlo'', ''hashcrack'', ''ai.synth'', ''ai.eval'', ''ai.graph'']"

definition execute :: "machine \<Rightarrow> str \<Rightarrow> dict \<Rightarrow> polls \<Rightarrow> (py_error + dict) option" where
  "execute M kind input y =
     (let P = mn_prims M; C = mn_conv M; A = mn_ai M
      in if kind \<in> {''data.transform'', ''eval''} then Some (data_transform P C input y)
         else if kind = ''render'' then Some (mn_render M input y)
         else if kind = ''challenge'' then Some (challenge C input)
         else if kind \<in> {''ai.batch_infer'', ''ai.infer''} then Some (ai_batch_infer A C input y)
         else if kind = ''fractal'' then Some (fractal C input y)
         else if kind = ''optimize'' then Some (optimize (mn_lib M) C input y)
         else if kind = ''montecarlo'' then
           (case montecarlo_input C input of
              Inl e \<Rightarrow> Some (Inl e)
            | Inr None \<Rightarrow> None
            | Inr (Some m) \<Rightarrow>
                map_option (\<lambda>r. bind_err r (\<lambda>r. Inr (mc_output r)))
                  (montecarlo (mn_lib M) (mn_cores M) (mn_pool M) (mn_schedule M) m y))
         else if kind = ''hashcrack'' then hashcrack P C (mn_cores M) (mn_pool M) (mn_schedule M) input y
         else if kind = ''ai.synth'' then Some (ai_synth A C input y)
         else if kind = ''ai.eval'' then Some (ai_eval P A C input y)
         else if kind = ''ai.graph'' then Some (ai_graph A C input y)
         else Some (Inl (ValueError ''no executor registered for job kind'')))"

end
