(* ===== verification/Job_Properties.thy ===== *)
theory Job_Properties imports Fleet_Search Execute_Ai begin

text \<open>
  Properties of \<open>execute\<close>: what a preempted run leaves, what \<open>data.transform\<close> computes and when it
  fails, and the dataset a fleet of \<open>ai.synth\<close> tiles generates.
\<close>

section \<open>Preemption\<close>

lemma map_err_append:
  "map_err f (xs @ ys) = bind_err (map_err f xs) (\<lambda>as. bind_err (map_err f ys) (\<lambda>bs. Inr (as @ bs)))"
  by (induction xs) (auto simp: bind_err_def split: sum.splits)

lemma map_err_length: "map_err f xs = Inr ys \<Longrightarrow> length ys = length xs"
  by (auto simp: map_err_Inr dest: list_all2_lengthD)

lemma polled_prefix:
  assumes "until_yield y i xs = (did, yielded)" "map_err f did = Inr rs" "map_err f xs = Inr full"
  shows "\<exists>rest. full = rs @ rest \<and> yielded = (rest \<noteq> [])"
proof -
  obtain rest where rest: "xs = did @ rest" "rest = [] \<longleftrightarrow> \<not> yielded" using until_yield_prefix [OF assms(1)] by auto
  then obtain rs' where "map_err f rest = Inr rs'" "full = rs @ rs'"
    using assms(2,3) by (auto simp: map_err_append bind_err_Inr)
  then show ?thesis using rest(2) map_err_length [of f rest rs'] by (intro exI [of _ rs']) auto
qed

text \<open>The list an output reports.\<close>

definition results_of :: "dict \<Rightarrow> json list" where
  "results_of out =
     (case (dict_get out ''rows'', dict_get out ''results'') of
        (Some (JList rs), _) \<Rightarrow> rs | (None, Some (JList rs)) \<Rightarrow> rs | _ \<Rightarrow> [])"

definition yielded_of :: "dict \<Rightarrow> json" where
  "yielded_of out = get_or out ''yielded'' JNull"

definition kept_prefix :: "dict \<Rightarrow> dict \<Rightarrow> bool" where
  "kept_prefix out full \<longleftrightarrow> (\<exists>rest. results_of full = results_of out @ rest \<and> yielded_of out = JBool (rest \<noteq> []))"

lemma transform_prefix:
  assumes "data_transform P C d y = Inr out" "data_transform P C d never = Inr full"
  shows "kept_prefix out full"
proof -
  obtain items where items: "iterate (get_or d ''items'' (JList [])) = Inr items" using assms(1) by (auto simp: data_transform_def bind_err_Inr)
  obtain did yielded where u: "until_yield y 0 items = (did, yielded)" by force
  obtain rs fs where "map_err (transform_item P C (get_or d ''op'' (JStr ''square''))) did = Inr rs"
      "map_err (transform_item P C (get_or d ''op'' (JStr ''square''))) items = Inr fs"
      "out = [(''results'', JList rs), (''yielded'', JBool yielded)]" "full = [(''results'', JList fs), (''yielded'', JBool False)]"
    using assms items u by (auto simp: data_transform_def bind_err_Inr Let_def)
  with polled_prefix [OF u] show ?thesis by (auto simp: kept_prefix_def results_of_def yielded_of_def get_or_def dict_get_def)
qed

lemma infer_prefix:
  assumes "ai_batch_infer A C d y = Inr out" "ai_batch_infer A C d never = Inr full"
  shows "kept_prefix out full"
proof -
  let ?f = "\<lambda>mt. infer_item A (detect_ai_backend A) (get_or d ''model'' (JStr [])) mt"
  obtain mt ps where items: "iterate (get_or d ''prompts'' (JList [])) = Inr ps" "get_int C d ''max_tokens'' 64 = Inr mt"
    using assms(1) by (auto simp: ai_batch_infer_def bind_err_Inr Let_def)
  obtain did yielded where u: "until_yield y 0 (numbered ps) = (did, yielded)" by force
  obtain rs fs where "map_err (?f mt) did = Inr rs" "map_err (?f mt) (numbered ps) = Inr fs"
      "results_of out = rs" "yielded_of out = JBool yielded" "results_of full = fs"
    using assms items u
    by (auto simp: ai_batch_infer_def bind_err_Inr Let_def results_of_def yielded_of_def get_or_def dict_get_def)
  with polled_prefix [OF u] show ?thesis by (auto simp: kept_prefix_def)
qed

lemma eval_prefix:
  assumes "ai_eval P A C d y = Inr out" "ai_eval P A C d never = Inr full"
  shows "kept_prefix out full"
proof -
  let ?f = "\<lambda>mt. eval_row P A C (detect_ai_backend A)
      (to_str C (get_or d ''rubric'' (JStr ''correctness, clarity, and completeness''))) (get_or d ''model'' (JStr [])) mt"
  obtain mt ps where items: "iterate (get_or d ''items'' (JList [])) = Inr ps" "get_int C d ''max_tokens'' 120 = Inr mt"
    using assms(1) by (auto simp: ai_eval_def bind_err_Inr Let_def)
  obtain did yielded where u: "until_yield y 0 (numbered ps) = (did, yielded)" by force
  obtain rs fs where "map_err (?f mt) did = Inr rs" "map_err (?f mt) (numbered ps) = Inr fs"
      "results_of out = rs" "yielded_of out = JBool yielded" "results_of full = fs"
    using assms items u
    by (auto simp: ai_eval_def bind_err_Inr Let_def results_of_def yielded_of_def get_or_def dict_get_def)
  with polled_prefix [OF u] show ?thesis by (auto simp: kept_prefix_def)
qed

lemma synth_prefix:
  assumes "ai_synth A C d y = Inr out" "ai_synth A C d never = Inr full"
  shows "kept_prefix out full"
proof -
  let ?f = "\<lambda>fl mt si. synth_row A C (detect_ai_backend A) (get_or d ''spec'' (JStr ''a software employee record'')) fl
      (get_or d ''model'' (JStr [])) mt si"
  obtain n fl si mt where items: "get_int C d ''n_rows'' 0 = Inr n" "get_int C d ''start_index'' 0 = Inr si"
      "iterate (get_or d ''fields'' (JList (map JStr [''name'', ''role'', ''team'', ''summary'']))) = Inr fl"
      "get_int C d ''max_tokens'' 160 = Inr mt"
    using assms(1) by (auto simp: ai_synth_def bind_err_Inr Let_def)
  obtain did yielded where u: "until_yield y 0 (numbered [0..n - 1]) = (did, yielded)" by force
  obtain rs fs where "map_err (?f fl mt si) did = Inr rs" "map_err (?f fl mt si) (numbered [0..n - 1]) = Inr fs"
      "results_of out = rs" "yielded_of out = JBool yielded" "results_of full = fs"
    using assms items u
    by (auto simp: ai_synth_def bind_err_Inr Let_def results_of_def yielded_of_def get_or_def dict_get_def)
  with polled_prefix [OF u] show ?thesis by (auto simp: kept_prefix_def)
qed

lemma fractal_prefix:
  assumes "fractal C d y = Inr out" "fractal C d never = Inr full"
  shows "kept_prefix out full"
proof -
  obtain b dx dy where items: "fractal_input C d = Inr b" "pixel_step (bd_x_min b) (bd_x_max b) (bd_width b) = Inr dx"
      "pixel_step (bd_y_min b) (bd_y_max b) (bd_height b) = Inr dy"
    using assms(1) by (auto simp: fractal_def bind_err_Inr Let_def)
  obtain did yielded where u: "until_yield y 0 [bd_row_start b..bd_row_end b - 1] = (did, yielded)" by force
  obtain rest where rest: "[bd_row_start b..bd_row_end b - 1] = did @ rest" "rest = [] \<longleftrightarrow> \<not> yielded"
    using until_yield_prefix [OF u] by auto
  let ?row = "\<lambda>y. JList (map JInt (fractal_row b dx dy y))"
  have "results_of out = map ?row did" "yielded_of out = JBool yielded" "results_of full = map ?row (did @ rest)"
    using assms items u rest(1)
    by (auto simp: fractal_def bind_err_Inr Let_def results_of_def yielded_of_def get_or_def dict_get_def)
  then show ?thesis using rest(2) by (auto simp: kept_prefix_def)
qed

text \<open>C30.
  Preempting a job never costs finished work or invents results: for every kind whose output is a list
  of results, a run stopped by \<open>should_yield\<close> at any moment reports an initial part of what the
  uninterrupted run reports, unchanged, and says it yielded exactly when something is missing.
\<close>
theorem preempted_run_is_prefix:
  assumes "kind \<in> {''data.transform'', ''eval'', ''ai.batch_infer'', ''ai.infer'', ''ai.eval'', ''ai.synth'', ''fractal''}"
    "execute M kind d y = Some (Inr out)" "execute M kind d never = Some (Inr full)"
  shows "\<exists>rest. results_of full = results_of out @ rest \<and> yielded_of out = JBool (rest \<noteq> [])"
proof -
  have "kept_prefix out full"
    using assms transform_prefix infer_prefix eval_prefix synth_prefix fractal_prefix
    by (auto simp: execute_def Let_def)
  then show ?thesis by (simp add: kept_prefix_def)
qed

definition demo_ai :: ai_platform where
  "demo_ai = \<lparr>ap_no_llm = True, ap_ollama = False, ap_openai_key = False, ap_anthropic_key = False, ap_local_model = [],
     ap_complete = (\<lambda>_ _ _ _ _. Inl (OtherError ''ImportError'')), ap_choice = (\<lambda>i k n. nat i), ap_loads = (\<lambda>_. None),
     ap_word = (\<lambda>_. False)\<rparr>"

definition demo_machine :: machine where
  "demo_machine = \<lparr>mn_prims = search_prims, mn_conv = demo_conv, mn_ai = demo_ai, mn_lib = demo_lib, mn_cores = 1,
     mn_pool = NoPool, mn_schedule = [], mn_render = (\<lambda>_ _. Inl (OtherError ''ImportError''))\<rparr>"

lemma preempted_run_is_prefix_witness:
  "\<exists>out full rest. execute demo_machine ''data.transform'' [(''items'', JList [JInt 2, JInt 3])] (\<lambda>i. i = 1) = Some (Inr out) \<and>
     results_of full = results_of out @ rest \<and> results_of full = [JInt 4, JInt 9] \<and> results_of out = [JInt 4]"
proof -
  let ?d = "[(''items'', JList [JInt 2, JInt 3])]"
  have o: "execute demo_machine ''data.transform'' ?d (\<lambda>i. i = 1) = Some (Inr [(''results'', JList [JInt 4]), (''yielded'', JBool True)])"
    by code_simp
  have f: "execute demo_machine ''data.transform'' ?d never = Some (Inr [(''results'', JList [JInt 4, JInt 9]), (''yielded'', JBool False)])"
    by code_simp
  have r: "results_of [(''results'', JList xs), (''yielded'', b)] = xs" for xs b by (simp add: results_of_def dict_get_def)
  obtain rest where "results_of [(''results'', JList [JInt 4, JInt 9]), (''yielded'', JBool False)] =
      results_of [(''results'', JList [JInt 4]), (''yielded'', JBool True)] @ rest"
    using preempted_run_is_prefix [OF _ o f] by auto
  then show ?thesis using o f r by blast
qed

section \<open>The synthetic dataset\<close>

definition stub_record :: "ai_platform \<Rightarrow> conversions \<Rightarrow> json \<Rightarrow> str list \<Rightarrow> int \<Rightarrow> dict" where
  "stub_record A C spec fs i = fold (\<lambda>f r. dict_put f (JStr (fallback_field A C i spec f)) r) fs []"

lemma synth_fallback_row_strings:
  "synth_fallback_row A C i spec (map JStr fs) r = Inr (fold (\<lambda>f r. dict_put f (JStr (fallback_field A C i spec f)) r) fs r)"
  by (induction fs arbitrary: r) auto

lemma dict_put_keys: "fst ` set (dict_put k v d) = insert k (fst ` set d)"
  by (induction k v d rule: dict_put.induct) auto

text \<open>Every record has every requested field.\<close>

lemma stub_record_fields: "fst ` set (stub_record A C spec fs i) = set fs"
proof -
  have "fst ` set (fold (\<lambda>f r. dict_put f (JStr (fallback_field A C i spec f)) r) fs r) = set fs \<union> fst ` set r" for r
    by (induction fs arbitrary: r) (auto simp: dict_put_keys)
  then show ?thesis by (simp add: stub_record_def)
qed

lemma map_err_numbered: "(\<And>i x. f (i, x) = Inr (g x)) \<Longrightarrow> map_err f (numbered xs) = Inr (map g xs)"
proof -
  assume f: "\<And>i x. f (i, x) = Inr (g x)"
  have "map_err f (zip [k..<k + length xs] xs) = Inr (map g xs)" for k
  proof (induction xs arbitrary: k)
    case (Cons x xs)
    show ?case using Cons [of "Suc k"] by (simp add: upt_conv_Cons f del: upt_Suc)
  qed simp
  from this [of 0] show ?thesis by (simp add: numbered_def)
qed

lemma synth_tile_run:
  assumes "detect_ai_backend A = None"
  shows "ai_synth A C (js_input (synth_tile fs model spec a b)) never =
    Inr [(''rows'', JList (map (\<lambda>i. JObj (stub_record A C (JStr spec) fs i)) [a..b - 1])), (''backend'', JStr ''fallback''),
         (''start_index'', JInt a), (''yielded'', JBool False)]"
proof -
  have "map (\<lambda>k. JObj (stub_record A C (JStr spec) fs (a + k))) [0..b - a - 1] = map (\<lambda>i. JObj (stub_record A C (JStr spec) fs i)) [a..b - 1]"
    by (intro nth_equalityI) (auto simp: add.commute)
  moreover have "map_err (synth_row A C None (JStr spec) (map JStr fs) m mt a) (numbered xs) =
      Inr (map (\<lambda>k. JObj (stub_record A C (JStr spec) fs (a + k))) xs)" for m mt xs
    by (rule map_err_numbered) (simp add: synth_row_def synth_fallback_row_strings stub_record_def Let_def)
  ultimately show ?thesis using assms
    by (simp add: ai_synth_def synth_tile_def dict_get_def get_or_def backend_name_def Let_def)
qed

lemma covered_ascending:
  "covered rs = [s..e] \<Longrightarrow> \<forall>(a, b) \<in> set rs. a < b \<Longrightarrow>
   sorted (map fst rs) \<and> distinct (map fst rs) \<and> (\<forall>r \<in> set rs. s \<le> fst r)"
proof (induction rs arbitrary: s)
  case (Cons r rs)
  obtain a b where r: "r = (a, b)" "a < b" using Cons.prems(2) by (cases r) auto
  have c: "[a..b - 1] @ covered rs = [s..e]" using Cons.prems(1) r(1) by simp
  then have s: "s \<le> e" using r(2) by (metis append_is_Nil_conv upto_Nil2 not_le zle_diff1_eq upto_Nil)
  then have a: "s = a" using c r(2) upto_rec1 [of a "b - 1"] upto_rec1 [of s e] by simp
  have "b - 1 \<le> e" 
  proof -
    have "b - 1 \<in> set [s..e]" unfolding c [symmetric] using r(2) by simp
    then show ?thesis by simp
  qed
  then have "[a..e] = [a..b - 1] @ [b..e]" using upto_split1 [of a "b" e] r(2) by (metis less_imp_le upto_split2 diff_add_cancel zle_diff1_eq add.commute)
  then have "covered rs = [b..e]" using c a by simp
  from Cons.IH [OF this] Cons.prems(2) r a show ?case by fastforce
qed simp

text \<open>C31.
  A synthetic-data launch on a fleet without a model yields one reproducible dataset: however it is cut
  and in whatever order the tiles finish, merging their outputs gives the records of rows 0, 1, 2, ... in
  order, none missing or duplicated, each the deterministic stub of its row with every requested field.
\<close>
theorem synth_dataset_in_order:
  assumes "build_synth_jobs n rows fs model spec ws = Inr specs" "split_ok rows ws" "mset finished = mset specs"
    "detect_ai_backend A = None"
  shows "\<exists>outs. map_err (\<lambda>j. ai_synth A C (js_input j) never) finished = Inr outs \<and>
    merge_synth C (map JObj outs) =
      Inr (map (\<lambda>i. JObj (stub_record A C (JStr spec) (case fs of None \<Rightarrow> DEFAULT_FIELDS | Some fs \<Rightarrow> fs) i)) [0..rows - 1]) \<and>
    (\<forall>i. fst ` set (stub_record A C (JStr spec) (case fs of None \<Rightarrow> DEFAULT_FIELDS | Some fs \<Rightarrow> fs) i) =
       set (case fs of None \<Rightarrow> DEFAULT_FIELDS | Some fs \<Rightarrow> fs))"
proof -
  define fl where "fl = (case fs of None \<Rightarrow> DEFAULT_FIELDS | Some fs \<Rightarrow> fs)"
  let ?row = "\<lambda>i. JObj (stub_record A C (JStr spec) fl i)"
  define out where "out a b = [(''rows'', JList (map ?row [a..b - 1])), (''backend'', JStr ''fallback''),
      (''start_index'', JInt a), (''yielded'', JBool False)]" for a b
  have tiles: "tiles_of (synth_tile fl model spec) rows n ws = Inr specs"
    using assms(1) by (auto simp: build_synth_jobs_def fl_def split: if_splits)
  obtain rs where rs: "specs = map (\<lambda>(a, b). synth_tile fl model spec a b) rs" "covered rs = [0..rows - 1]"
      "\<forall>(a, b) \<in> set rs. a < b"
    using tiles_of_work(3) [OF tiles assms(2), of "''ai.synth''"] by (auto simp: synth_tile_def)
  obtain qs where qs: "mset qs = mset rs" "finished = map (\<lambda>(a, b). synth_tile fl model spec a b) qs"
    using assms(3) reordered_map unfolding rs(1) by blast
  let ?outs = "map (\<lambda>(a, b). out a b) qs"
  have run: "map_err (\<lambda>j. ai_synth A C (js_input j) never) finished = Inr ?outs"
    unfolding qs(2) map_err_Inr
    by (auto simp: list_all2_conv_all_nth synth_tile_run [OF assms(4)] out_def split: prod.splits)
  let ?g = "\<lambda>r. (fst r, out (fst r) (snd r))"
  have starts: "map_err (\<lambda>tile. get_int C tile ''start_index'' 0) ?outs = Inr (map fst qs)"
    unfolding map_err_Inr by (auto simp: list_all2_conv_all_nth out_def dict_get_def split: prod.splits)
  have zip: "zip (map fst qs) ?outs = map ?g qs" by (intro nth_equalityI) (auto simp: case_prod_beta)
  have asc: "sorted (map fst rs)" "distinct (map fst rs)" using covered_ascending [OF rs(2,3)] by auto
  have sorted: "sort_key fst (map ?g qs) = map ?g rs"
  proof (rule sort_key_inj_key_eq)
    show "mset (map ?g qs) = mset (map ?g rs)" using qs(1) by simp
    show "inj_on fst (set (map ?g qs))"
      using asc(2) mset_eq_setD [OF qs(1)] by (auto simp: inj_on_def distinct_map)
    show "sorted (map fst (map ?g rs))" using asc(1) by (simp add: comp_def)
  qed
  have "map_err (\<lambda>(_, tile). iterate (get_or tile ''rows'' (JList []))) (map ?g rs) =
      Inr (map (\<lambda>(a, b). map ?row [a..b - 1]) rs)"
    unfolding map_err_Inr by (auto simp: list_all2_conv_all_nth out_def get_or_def dict_get_def split: prod.splits)
  moreover have "concat (map (\<lambda>(a, b). map ?row [a..b - 1]) rs) = map ?row (covered rs)"
    by (simp add: covered_def map_concat comp_def case_prod_unfold)
  moreover have "map_err as_dict (map JObj ?outs) = Inr ?outs" by (simp add: map_err_Inr list.rel_map list_all2_same)
  ultimately have "merge_synth C (map JObj ?outs) = Inr (map ?row [0..rows - 1])"
    using starts by (simp add: merge_synth_def zip sorted rs(2))
  then show ?thesis using run stub_record_fields unfolding fl_def [symmetric] by blast
qed

lemma synth_dataset_in_order_witness:
  "\<exists>outs. map_err (\<lambda>j. ai_synth demo_ai demo_conv (js_input j) never)
       [synth_tile DEFAULT_FIELDS ''m'' ''s'' 2 3, synth_tile DEFAULT_FIELDS ''m'' ''s'' 0 2] = Inr outs \<and>
     merge_synth demo_conv (map JObj outs) = Inr (map (\<lambda>i. JObj (stub_record demo_ai demo_conv (JStr ''s'') DEFAULT_FIELDS i)) [0, 1, 2])"
proof -
  have b: "build_synth_jobs 2 3 None ''m'' ''s'' None =
      Inr [synth_tile DEFAULT_FIELDS ''m'' ''s'' 0 2, synth_tile DEFAULT_FIELDS ''m'' ''s'' 2 3]" by code_simp
  have up: "[0..3 - 1] = [0, 1, 2 :: int]" by code_simp
  have "detect_ai_backend demo_ai = None" by (simp add: demo_ai_def detect_ai_backend_def)
  from synth_dataset_in_order [OF b _ _ this,
      of "[synth_tile DEFAULT_FIELDS ''m'' ''s'' 2 3, synth_tile DEFAULT_FIELDS ''m'' ''s'' 0 2]" demo_conv]
  show ?thesis unfolding up by (auto simp: split_ok_def)
qed

end
