(* ===== verification/Isolation.thy ===== *)
theory Isolation imports Execute_Ai "HOL-Library.Sublist" begin

text \<open>
  \<open>src/isolation/runner.py\<close> with \<open>docker.py\<close>, the running half of \<open>mxc.py\<close> and \<open>jobkit/__main__.py\<close>: how a
  job is run behind the best available boundary. What the operating system does once a boundary is
  started is a parameter: the polls of the supervised process, how it ended and what it left in the
  output file. The result carries the boundaries on which the job's code was started. The lemmas show when
  a job is refused instead of run on the host, and that a job that fails inside Docker is run again on
  the host, against the module's own contract.
\<close>

section \<open>The sandbox entry point\<close>

datatype output_file = Missing | Unparsable str | Written json

record process_end =
  pe_code :: "int option"     \<comment> \<open>\<open>returncode\<close>; \<open>None\<close> while the process cannot be reaped\<close>
  pe_stdout :: str
  pe_stderr :: str
  pe_out :: output_file

text \<open>
  \<open>python -m jobkit in.json out.json\<close>: the result is written only after the job succeeded, an exception
  leaves a traceback (its text is the interpreter's) and exit code 1.
\<close>

definition jobkit_main :: "(py_error \<Rightarrow> str) \<Rightarrow> machine \<Rightarrow> str \<Rightarrow> dict \<Rightarrow> process_end option" where
  "jobkit_main traceback M kind input =
     map_option (\<lambda>r. case r of
         Inr out \<Rightarrow> \<lparr>pe_code = Some 0, pe_stdout = [], pe_stderr = [], pe_out = Written (JObj out)\<rparr>
       | Inl e \<Rightarrow> \<lparr>pe_code = Some 1, pe_stdout = [], pe_stderr = traceback e, pe_out = Missing\<rparr>)
       (execute M kind input (\<lambda>_. False))"

section \<open>Supervising a process\<close>

text \<open>
  Each round of the loop polls the process, then asks for a yield, then looks at the deadline. \<open>None\<close>: the
  rounds given end before the process or the deadline.
\<close>

datatype poll_round = Exited | Running bool bool

datatype supervised = Ok | YieldedRun | TimedOut

fun supervise :: "poll_round list \<Rightarrow> supervised option" where
  "supervise [] = None"
| "supervise (Exited # rs) = Some Ok"
| "supervise (Running yielding late # rs) =
     (if yielding then Some YieldedRun else if late then Some TimedOut else supervise rs)"

datatype isolation_error =
    MxcInfraError str
  | DockerInfraError str
  | TimeoutErr str
  | RuntimeErr str
  | BadOutput str
  | IsolationUnavailableError str

definition yielded_output :: json where
  "yielded_output = JObj [(''yielded'', JBool True), (''results'', JList [])]"

definition read_output :: "output_file \<Rightarrow> isolation_error + json" where
  "read_output f = (case f of Missing \<Rightarrow> Inl (BadOutput ''FileNotFoundError'') | Unparsable e \<Rightarrow> Inl (BadOutput e) | Written v \<Rightarrow> Inr v)"

text \<open>\<open>(text or fallback).strip()\<close>.\<close>

definition message_or :: "str \<Rightarrow> str \<Rightarrow> str" where
  "message_or s fallback = strip (if s = [] then fallback else s)"

text \<open>One boundary's run: the rounds, whether the client was reaped, and the end of the process.\<close>

record boundary_run =
  br_rounds :: "poll_round list"
  br_reaped :: bool
  br_end :: process_end

subsection \<open>The on-host subprocess\<close>

definition run_subprocess :: "boundary_run \<Rightarrow> (isolation_error + json) option" where
  "run_subprocess r =
     (case supervise (br_rounds r) of
        None \<Rightarrow> None
      | Some YieldedRun \<Rightarrow> Some (Inr yielded_output)
      | Some TimedOut \<Rightarrow> Some (Inl (RuntimeErr ''isolated job timed out''))
      | Some Ok \<Rightarrow>
          Some (if pe_code (br_end r) \<noteq> Some 0
                then Inl (RuntimeErr (message_or (pe_stderr (br_end r)) ''isolated job failed''))
                else read_output (pe_out (br_end r))))"

subsection \<open>Docker\<close>

definition DOCKER_INFRA_MARKERS :: "str list" where
  "DOCKER_INFRA_MARKERS = [''cannot connect to the docker daemon'', ''error during connect'', ''request returned 500'',
     ''is the docker daemon running'', ''dial unix'', ''open //./pipe'', ''no such image'', ''unable to find image'',
     ''pull access denied'', ''docker: error response from daemon'']"

definition mentions :: "str list \<Rightarrow> str \<Rightarrow> bool" where
  "mentions markers text \<longleftrightarrow> list_ex (\<lambda>m. sublist m (lower text)) markers"

definition looks_like_docker_infra_error :: "str \<Rightarrow> bool" where
  "looks_like_docker_infra_error stderr = mentions DOCKER_INFRA_MARKERS stderr"

definition IMAGE :: str where "IMAGE = ''python:3.12-slim''"

definition build_docker_command :: "(rat \<Rightarrow> str) \<Rightarrow> str \<Rightarrow> str \<Rightarrow> str \<Rightarrow> limits \<Rightarrow> str \<Rightarrow> str list" where
  "build_docker_command show_float work_dir in_name out_name lims name =
     [''docker'', ''run'', ''--rm'', ''--name'', name, ''--network'',
      (if lm_network lims = ''none'' then ''none'' else ''host''), ''-v'', work_dir @ '':/work'', ''-w'', ''/work'',
      ''-e'', ''PYTHONPATH=/work/src'', ''-e'', ''PYTHONDONTWRITEBYTECODE=1''] @
     (if 0 < lm_mem_gb lims then [''--memory'', show_float (lm_mem_gb lims) @ ''g''] else []) @
     [IMAGE, ''python'', ''-m'', ''jobkit'', ''/work/'' @ in_name, ''/work/'' @ out_name]"

text \<open>\<open>_ensure_image\<close>: the image is there, or one pull brings it.\<close>

record docker_state =
  dk_image_present :: bool
  dk_pull :: "(str + int \<times> str)"      \<comment> \<open>the exception of \<open>docker pull\<close>, or its exit code and stderr\<close>
  dk_image_after_pull :: bool

definition ensure_image :: "docker_state \<Rightarrow> isolation_error + unit" where
  "ensure_image d =
     (if dk_image_present d then Inr ()
      else case dk_pull d of
          Inl e \<Rightarrow> Inl (DockerInfraError (''docker pull '' @ IMAGE @ '' failed: '' @ e))
        | Inr (code, stderr) \<Rightarrow>
            (if code \<noteq> 0 \<or> \<not> dk_image_after_pull d
             then Inl (DockerInfraError (message_or stderr (''docker pull '' @ IMAGE @ '' failed'')))
             else Inr ()))"

definition run_docker :: "docker_state \<Rightarrow> boundary_run \<Rightarrow> (isolation_error + json) option" where
  "run_docker d r =
     (case ensure_image d of
        Inl e \<Rightarrow> Some (Inl e)
      | Inr _ \<Rightarrow>
          (case supervise (br_rounds r) of
             None \<Rightarrow> None
           | Some YieldedRun \<Rightarrow> Some (Inr yielded_output)
           | Some TimedOut \<Rightarrow> Some (Inl (TimeoutErr ''isolated docker job timed out''))
           | Some Ok \<Rightarrow>
               (let stderr = (if br_reaped r then pe_stderr (br_end r) else []);
                    message = message_or stderr ''docker isolated job failed''
                in Some (if pe_code (br_end r) \<noteq> Some 0
                         then Inl (if looks_like_docker_infra_error message \<or> pe_out (br_end r) = Missing
                                   then DockerInfraError message else RuntimeErr message)
                         else read_output (pe_out (br_end r))))))"

subsection \<open>MXC\<close>

definition MXC_INFRA_MARKERS :: "str list" where
  "MXC_INFRA_MARKERS = [''wxc-exec'', ''execution container'', ''processcontainer'', ''process container'', ''probe'',
     ''host preparation'', ''host prep'', ''container failed to start'', ''runtime failed'']"

definition JOB_FAILURE_MARKERS :: "str list" where
  "JOB_FAILURE_MARKERS = [''traceback (most recent call last)'', ''valueerror'', ''runtimeerror'', ''isolated job failed'']"

definition looks_like_mxc_infra_error :: "str \<Rightarrow> bool" where
  "looks_like_mxc_infra_error stderr = mentions MXC_INFRA_MARKERS stderr"

definition looks_like_job_failure :: "str \<Rightarrow> bool" where
  "looks_like_job_failure stderr = mentions JOB_FAILURE_MARKERS stderr"

text \<open>\<open>_run_mxc\<close>; \<open>start\<close> is \<open>start_mxc\<close>'s infrastructure error, if it raises one.\<close>

definition run_mxc :: "str option \<Rightarrow> boundary_run \<Rightarrow> (isolation_error + json) option" where
  "run_mxc start r =
     (case start of
        Some e \<Rightarrow> Some (Inl (MxcInfraError e))
      | None \<Rightarrow>
          (case supervise (br_rounds r) of
             None \<Rightarrow> None
           | Some YieldedRun \<Rightarrow> Some (Inr yielded_output)
           | Some TimedOut \<Rightarrow> Some (Inl (TimeoutErr ''isolated MXC job timed out''))
           | Some Ok \<Rightarrow>
               (let stdout = (if br_reaped r then pe_stdout (br_end r) else []);
                    stderr = (if br_reaped r then pe_stderr (br_end r) else []);
                    message = message_or (if stderr = [] then stdout else stderr) ''mxc isolated job failed''
                in Some (if pe_code (br_end r) \<noteq> Some 0
                         then Inl (if looks_like_job_failure message then RuntimeErr message
                                   else if looks_like_mxc_infra_error message then MxcInfraError message
                                   else RuntimeErr message)
                         else if pe_out (br_end r) = Missing
                         then Inl (MxcInfraError ''mxc job completed without producing an output file'')
                         else read_output (pe_out (br_end r))))))"

section \<open>Choosing the boundary\<close>

datatype boundary = Mxc | Docker | Subprocess

record sandbox_env =
  se_mxc_available :: bool
  se_mxc_start :: "str option"
  se_mxc_run :: boundary_run
  se_docker_available :: bool
  se_docker :: docker_state
  se_docker_run :: boundary_run
  se_subprocess_run :: boundary_run

definition active_boundary :: "sandbox_env \<Rightarrow> str" where
  "active_boundary E = (if se_mxc_available E then ''mxc''
     else if se_docker_available E then ''docker'' else ''subprocess+jobobject'')"

text \<open>An attempt: the job's code was started or not, and what came of it.\<close>

definition started :: "boundary \<Rightarrow> bool \<Rightarrow> boundary list" where
  "started b yes = (if yes then [b] else [])"

definition unavailable_message :: "bool \<Rightarrow> str" where
  "unavailable_message host_side =
     (if host_side then ''host-side execution required (GPU/AI job) but no OS-enforced sandbox is available''
      else ''no OS-enforced sandbox (MXC or Docker) is available'') @
     ''; refusing to run untrusted job code unsandboxed (require-isolation).''"

definition run_on_host :: "sandbox_env \<Rightarrow> bool \<Rightarrow> bool \<Rightarrow> boundary list \<Rightarrow> boundary list \<times> (isolation_error + json) option" where
  "run_on_host E host_side allow_unsandboxed begun =
     (if \<not> allow_unsandboxed then (begun, Some (Inl (IsolationUnavailableError (unavailable_message host_side))))
      else (begun @ [Subprocess], run_subprocess (se_subprocess_run E)))"

definition try_docker :: "sandbox_env \<Rightarrow> bool \<Rightarrow> bool \<Rightarrow> boundary list \<Rightarrow> boundary list \<times> (isolation_error + json) option" where
  "try_docker E host_side allow_unsandboxed begun =
     (if \<not> host_side \<and> se_docker_available E
      then (let begun' = begun @ started Docker (ensure_image (se_docker E) = Inr ())
            in case run_docker (se_docker E) (se_docker_run E) of
                 Some (Inl (DockerInfraError e)) \<Rightarrow> run_on_host E host_side allow_unsandboxed begun'
               | r \<Rightarrow> (begun', r))
      else run_on_host E host_side allow_unsandboxed begun)"

definition run_in_isolation :: "sandbox_env \<Rightarrow> bool \<Rightarrow> bool \<Rightarrow> boundary list \<times> (isolation_error + json) option" where
  "run_in_isolation E host_side allow_unsandboxed =
     (if \<not> host_side \<and> se_mxc_available E
      then (let begun = started Mxc (se_mxc_start E = None)
            in case run_mxc (se_mxc_start E) (se_mxc_run E) of
                 Some (Inl (MxcInfraError e)) \<Rightarrow> try_docker E host_side allow_unsandboxed begun
               | r \<Rightarrow> (begun, r))
      else try_docker E host_side allow_unsandboxed [])"

section \<open>Fail closed\<close>

lemma supervise_returns: "r \<in> set rs \<Longrightarrow> r \<noteq> Running False False \<Longrightarrow> supervise rs \<noteq> None"
  by (induction rs rule: supervise.induct) auto

lemma run_on_host_refuses:
  "run_on_host E h False begun = (begun, Some (Inl (IsolationUnavailableError (unavailable_message h))))"
  by (simp add: run_on_host_def)

lemma try_docker_sandboxed:
  assumes "Subprocess \<notin> set begun"
  shows "Subprocess \<notin> set (fst (try_docker E h False begun))"
  using assms by (auto simp: try_docker_def run_on_host_refuses started_def Let_def
      split: option.split sum.split isolation_error.split)

lemma require_isolation_fails_closed: "Subprocess \<notin> set (fst (run_in_isolation E h False))"
  by (auto simp: run_in_isolation_def try_docker_sandboxed started_def Let_def
      split: option.split sum.split isolation_error.split)

text \<open>A host-side job is never started at all when isolation is required.\<close>

lemma host_side_refused:
  "run_in_isolation E True False = ([], Some (Inl (IsolationUnavailableError (unavailable_message True))))"
  by (simp add: run_in_isolation_def try_docker_def run_on_host_refuses)

text \<open>
  A job whose code raises inside Docker leaves no output file, so its failure counts as Docker's and the
  job runs a second time on the host.
\<close>

lemma docker_job_failure_runs_again_on_host:
  assumes "\<not> se_mxc_available E" "se_docker_available E" "dk_image_present (se_docker E)"
    and "execute M kind input (\<lambda>_. False) = Some (Inl e)"
    and "jobkit_main traceback M kind input = Some (br_end (se_docker_run E))"
    and "supervise (br_rounds (se_docker_run E)) = Some Ok"
  shows "fst (run_in_isolation E False True) = [Docker, Subprocess]"
proof -
  have "pe_code (br_end (se_docker_run E)) = Some 1" "pe_out (br_end (se_docker_run E)) = Missing"
    using arg_cong [OF assms(5), of "map_option pe_code"] arg_cong [OF assms(5), of "map_option pe_out"] assms(4)
    by (simp_all add: jobkit_main_def)
  then have "\<exists>e. run_docker (se_docker E) (se_docker_run E) = Some (Inl (DockerInfraError e))"
    using assms(3,6) by (simp add: run_docker_def ensure_image_def Let_def)
  then show ?thesis using assms(1-3)
    by (auto simp: run_in_isolation_def try_docker_def run_on_host_def started_def ensure_image_def Let_def)
qed

text \<open>A job that succeeds gives the same output on every boundary: that of \<open>execute\<close>.\<close>

definition runs_jobkit :: "boundary_run \<Rightarrow> process_end \<Rightarrow> bool" where
  "runs_jobkit r pe \<longleftrightarrow> supervise (br_rounds r) = Some Ok \<and> br_end r = pe \<and> br_reaped r"

definition isolated_ok :: "dict \<Rightarrow> (isolation_error + json) option \<Rightarrow> bool" where
  "isolated_ok out r \<longleftrightarrow> r = Some (Inr (JObj out)) \<or> (\<exists>t. r = Some (Inl (IsolationUnavailableError t)))"

lemma isolated_output_is_execute:
  assumes "execute M kind input (\<lambda>_. False) = Some (Inr out)" "jobkit_main traceback M kind input = Some pe"
    and "runs_jobkit (se_mxc_run E) pe" "runs_jobkit (se_docker_run E) pe" "runs_jobkit (se_subprocess_run E) pe"
  shows "isolated_ok out (snd (run_in_isolation E h allow))"
    "allow \<Longrightarrow> snd (run_in_isolation E h allow) = Some (Inr (JObj out))"
proof -
  have pe: "pe = \<lparr>pe_code = Some 0, pe_stdout = [], pe_stderr = [], pe_out = Written (JObj out)\<rparr>"
    using assms(1,2) by (simp add: jobkit_main_def)
  define good where "good r \<longleftrightarrow> isolated_ok out r \<and> (allow \<longrightarrow> r = Some (Inr (JObj out)))" for r
  have out: "good (Some (Inr (JObj out)))" by (simp add: good_def isolated_ok_def)
  have host: "good (snd (run_on_host E h allow begun))" for begun
    using assms(5) by (simp add: good_def isolated_ok_def run_on_host_def run_subprocess_def runs_jobkit_def pe read_output_def)
  have d: "run_docker (se_docker E) (se_docker_run E) \<in> {Some (Inr (JObj out))} \<or>
      (\<exists>e. run_docker (se_docker E) (se_docker_run E) = Some (Inl (DockerInfraError e)))"
    using assms(4) by (auto simp: run_docker_def ensure_image_def runs_jobkit_def pe read_output_def Let_def
        split: sum.split)
  have docker: "good (snd (try_docker E h allow begun))" for begun
    using d host out by (auto simp: try_docker_def Let_def)
  have m: "run_mxc (se_mxc_start E) (se_mxc_run E) \<in> {Some (Inr (JObj out))} \<or>
      (\<exists>e. run_mxc (se_mxc_start E) (se_mxc_run E) = Some (Inl (MxcInfraError e)))"
    using assms(3) by (auto simp: run_mxc_def runs_jobkit_def pe read_output_def Let_def split: option.split)
  have "good (snd (run_in_isolation E h allow))"
    using m docker out by (auto simp: run_in_isolation_def Let_def)
  then show "isolated_ok out (snd (run_in_isolation E h allow))"
    "allow \<Longrightarrow> snd (run_in_isolation E h allow) = Some (Inr (JObj out))" by (simp_all add: good_def)
qed

end
