(* ===== verification/Availability.thy ===== *)
theory Availability imports Headroom begin

text \<open>
  \<open>src/measurement/availability.py\<close>: the timing state a measuring worker keeps beside its usage profile,
  and the daily averages derived from it. A long interval between two samples counts as unavailable time,
  a clock that jumps by more than a month or backwards counts as nothing. The lemmas show that the
  accumulated times never go down or negative and that the averages are hours of a day.
\<close>

definition DEFAULT_EXPECTED_INTERVAL_SECONDS :: rat where "DEFAULT_EXPECTED_INTERVAL_SECONDS = 30"
definition MAX_ACCOUNTED_GAP_SECONDS :: rat where "MAX_ACCOUNTED_GAP_SECONDS = 31 * 24 * 3600"
definition MAX_TRACKED_SECONDS :: rat where "MAX_TRACKED_SECONDS = 400 * 24 * 3600"
definition MAX_TRACKED_COUNT :: int where "MAX_TRACKED_COUNT = 10000000"
definition MAX_EXPECTED_INTERVAL_SECONDS :: rat where "MAX_EXPECTED_INTERVAL_SECONDS = 3600"
definition MAX_TIMESTAMP_SECONDS :: rat where "MAX_TIMESTAMP_SECONDS = 4102444800"

text \<open>\<open>_nonnegative_finite\<close> of a stored value and of a float; \<open>_nonnegative_int\<close>.\<close>

definition nonnegative_finite :: "conversions \<Rightarrow> json \<Rightarrow> rat \<Rightarrow> py_error + rat" where
  "nonnegative_finite C v dflt =
     (case to_float C v of
        Inl (OtherError e) \<Rightarrow> Inl (OtherError e)
      | Inl _ \<Rightarrow> Inr dflt
      | Inr (Fin x) \<Rightarrow> Inr (max 0 x)
      | Inr _ \<Rightarrow> Inr dflt)"

definition nonnegative_float :: "pyfloat \<Rightarrow> rat \<Rightarrow> rat" where
  "nonnegative_float v dflt = (case v of Fin x \<Rightarrow> max 0 x | _ \<Rightarrow> dflt)"

definition nonnegative_int :: "conversions \<Rightarrow> json \<Rightarrow> int" where
  "nonnegative_int C v = (case to_int C v of Inl _ \<Rightarrow> 0 | Inr n \<Rightarrow> max 0 n)"

record tracker =
  first_sample_at :: rat
  last_sample_at :: rat
  observed_seconds :: rat
  unavailable_seconds :: rat
  gap_count :: int
  sample_count :: int
  expected_interval_seconds :: rat

definition fresh_tracker :: tracker where
  "fresh_tracker = \<lparr>first_sample_at = 0, last_sample_at = 0, observed_seconds = 0, unavailable_seconds = 0,
     gap_count = 0, sample_count = 0, expected_interval_seconds = DEFAULT_EXPECTED_INTERVAL_SECONDS\<rparr>"

definition tracker_from_dict :: "conversions \<Rightarrow> json \<Rightarrow> py_error + tracker" where
  "tracker_from_dict C raw =
     (case raw of
        JObj d \<Rightarrow>
          (let f = (\<lambda>k dflt. nonnegative_finite C (get_or d k JNull) dflt)
           in bind_err (f ''first_sample_at'' 0) (\<lambda>first. bind_err (f ''last_sample_at'' 0) (\<lambda>last.
              bind_err (f ''observed_seconds'' 0) (\<lambda>observed. bind_err (f ''unavailable_seconds'' 0) (\<lambda>unavailable.
              bind_err (f ''expected_interval_seconds'' DEFAULT_EXPECTED_INTERVAL_SECONDS) (\<lambda>expected.
                Inr \<lparr>first_sample_at = min MAX_TIMESTAMP_SECONDS first, last_sample_at = min MAX_TIMESTAMP_SECONDS last,
                     observed_seconds = min MAX_TRACKED_SECONDS observed,
                     unavailable_seconds = min MAX_TRACKED_SECONDS unavailable,
                     gap_count = min MAX_TRACKED_COUNT (nonnegative_int C (get_or d ''gap_count'' JNull)),
                     sample_count = min MAX_TRACKED_COUNT (nonnegative_int C (get_or d ''sample_count'' JNull)),
                     expected_interval_seconds = min MAX_EXPECTED_INTERVAL_SECONDS (max (fl64 (1 / 1000)) expected)\<rparr>)))))
           )
      | _ \<Rightarrow> Inr fresh_tracker)"

definition span_seconds :: "tracker \<Rightarrow> rat" where
  "span_seconds t = fadd (observed_seconds t) (unavailable_seconds t)"

text \<open>\<open>AvailabilityTracker.record\<close>.\<close>

definition record_sample :: "tracker \<Rightarrow> pyfloat \<Rightarrow> pyfloat \<Rightarrow> tracker" where
  "record_sample t sampled_at interval =
     (let timestamp = nonnegative_float sampled_at 0;
          expected = max (fl64 (1 / 1000)) (nonnegative_float interval DEFAULT_EXPECTED_INTERVAL_SECONDS);
          t1 = t\<lparr>expected_interval_seconds := expected\<rparr>;
          elapsed = fsub timestamp (last_sample_at t);
          t2 = t1\<lparr>sample_count := sample_count t + 1, last_sample_at := timestamp\<rparr>
      in if timestamp \<le> 0 then t
         else if last_sample_at t \<le> 0 then t2\<lparr>first_sample_at := timestamp\<rparr>
         else if elapsed = 0 then t1
         else if elapsed < 0 then t2\<lparr>first_sample_at := min (first_sample_at t) timestamp\<rparr>
         else if MAX_ACCOUNTED_GAP_SECONDS < elapsed then t2
         else if max (fmul 3 expected) (fadd expected 30) < elapsed
           then (let observed = min elapsed expected
                 in t2\<lparr>observed_seconds := fadd (observed_seconds t) observed,
                       unavailable_seconds := fadd (unavailable_seconds t) (fsub elapsed observed),
                       gap_count := gap_count t + 1\<rparr>)
         else t2\<lparr>observed_seconds := fadd (observed_seconds t) elapsed\<rparr>)"

definition tracker_to_dict :: "tracker \<Rightarrow> dict" where
  "tracker_to_dict t =
     [(''first_sample_at'', JFloat (Fin (first_sample_at t))), (''last_sample_at'', JFloat (Fin (last_sample_at t))),
      (''observed_seconds'', JFloat (Fin (observed_seconds t))),
      (''unavailable_seconds'', JFloat (Fin (unavailable_seconds t))), (''gap_count'', JInt (gap_count t)),
      (''sample_count'', JInt (sample_count t)),
      (''expected_interval_seconds'', JFloat (Fin (expected_interval_seconds t)))]"

record availability =
  av_source :: str
  av_span_seconds :: rat
  av_observed_seconds :: rat
  av_unavailable_seconds :: rat
  av_observed_hours_per_day :: rat
  av_unavailable_hours_per_day :: rat
  av_observed_pct :: rat
  av_unavailable_pct :: rat
  av_gap_count :: rat
  av_sample_count :: rat

definition summarize_availability :: "tracker \<Rightarrow> str \<Rightarrow> availability" where
  "summarize_availability t source =
     (let spanned = span_seconds t;
          observed_fraction = fdiv (observed_seconds t) spanned; unavailable_fraction = fdiv (unavailable_seconds t) spanned
      in if spanned \<le> 0
         then \<lparr>av_source = source, av_span_seconds = 0, av_observed_seconds = 0, av_unavailable_seconds = 0,
               av_observed_hours_per_day = 0, av_unavailable_hours_per_day = 0, av_observed_pct = 0,
               av_unavailable_pct = 0, av_gap_count = of_int (gap_count t), av_sample_count = of_int (sample_count t)\<rparr>
         else \<lparr>av_source = source, av_span_seconds = spanned, av_observed_seconds = observed_seconds t,
               av_unavailable_seconds = unavailable_seconds t, av_observed_hours_per_day = fmul 24 observed_fraction,
               av_unavailable_hours_per_day = fmul 24 unavailable_fraction, av_observed_pct = fmul 100 observed_fraction,
               av_unavailable_pct = fmul 100 unavailable_fraction, av_gap_count = of_int (gap_count t),
               av_sample_count = of_int (sample_count t)\<rparr>)"

text \<open>The mean over devices; \<open>round(x, 1)\<close> is the platform's.\<close>

record availability_average =
  aa_mean :: availability
  aa_device_count :: nat
  aa_total_gap_count :: int
  aa_total_sample_count :: int

definition aggregate_availability :: "(rat \<Rightarrow> rat) \<Rightarrow> availability list \<Rightarrow> availability_average" where
  "aggregate_availability round1 summaries =
     (let valid = filter (\<lambda>s. 0 < av_span_seconds s) summaries; mean = (\<lambda>f. fmean (map f valid))
      in if valid = []
         then \<lparr>aa_mean = summarize_availability fresh_tracker ''aggregate'', aa_device_count = 0, aa_total_gap_count = 0,
               aa_total_sample_count = 0\<rparr>
         else \<lparr>aa_mean = \<lparr>av_source = ''aggregate'', av_span_seconds = mean av_span_seconds,
                 av_observed_seconds = mean av_observed_seconds, av_unavailable_seconds = mean av_unavailable_seconds,
                 av_observed_hours_per_day = mean av_observed_hours_per_day,
                 av_unavailable_hours_per_day = mean av_unavailable_hours_per_day, av_observed_pct = mean av_observed_pct,
                 av_unavailable_pct = mean av_unavailable_pct, av_gap_count = round1 (mean av_gap_count),
                 av_sample_count = round1 (mean av_sample_count)\<rparr>,
               aa_device_count = length valid, aa_total_gap_count = sum_list (map (\<lambda>s. py_int (av_gap_count s)) valid),
               aa_total_sample_count = sum_list (map (\<lambda>s. py_int (av_sample_count s)) valid)\<rparr>)"

text \<open>Rebuilding a tracker from sample times: the positive finite ones, in ascending order.\<close>

definition tracker_from_timestamps :: "pyfloat list \<Rightarrow> pyfloat \<Rightarrow> tracker" where
  "tracker_from_timestamps timestamps interval =
     (let valid = sort (filter (\<lambda>x. 0 < x) (map (\<lambda>v. nonnegative_float v 0) timestamps))
      in fold (\<lambda>x t. record_sample t (Fin x) interval) valid fresh_tracker)"

definition availability_from_timestamps :: "pyfloat list \<Rightarrow> pyfloat \<Rightarrow> availability" where
  "availability_from_timestamps timestamps interval =
     summarize_availability (tracker_from_timestamps timestamps interval) ''telemetry''"

section \<open>The accumulated times\<close>

definition tracker_ok :: "tracker \<Rightarrow> bool" where
  "tracker_ok t \<longleftrightarrow> 0 \<le> first_sample_at t \<and> 0 \<le> last_sample_at t \<and> 0 \<le> observed_seconds t \<and>
     0 \<le> unavailable_seconds t \<and> 0 \<le> gap_count t \<and> 0 \<le> sample_count t"

lemma nonnegative_float_nonneg: "0 \<le> dflt \<Longrightarrow> 0 \<le> nonnegative_float v dflt"
  by (simp add: nonnegative_float_def split: pyfloat.split)

lemma fresh_tracker_ok: "tracker_ok fresh_tracker"
  by (simp add: tracker_ok_def fresh_tracker_def)

lemma record_sample_parts:
  fixes t sampled_at interval
  defines "t' \<equiv> record_sample t sampled_at interval"
  assumes "0 < nonnegative_float sampled_at 0"
  shows "first_sample_at t' \<in> {first_sample_at t, nonnegative_float sampled_at 0}"
    "last_sample_at t' \<in> {last_sample_at t, nonnegative_float sampled_at 0}"
    "sample_count t' \<in> {sample_count t, sample_count t + 1}" "gap_count t' \<in> {gap_count t, gap_count t + 1}"
    "observed_seconds t' = observed_seconds t \<or> (\<exists>d\<ge>0. observed_seconds t' = fadd (observed_seconds t) d)"
    "unavailable_seconds t' = unavailable_seconds t \<or> (\<exists>d\<ge>0. unavailable_seconds t' = fadd (unavailable_seconds t) d)"
proof -
  define expected where "expected = max (fl64 (1 / 1000)) (nonnegative_float interval DEFAULT_EXPECTED_INTERVAL_SECONDS)"
  define elapsed where "elapsed = fsub (nonnegative_float sampled_at 0) (last_sample_at t)"
  have e: "0 \<le> expected" unfolding expected_def using fl64_nonneg [of "1/1000"] by (simp add: max.coboundedI1)
  have u: "0 \<le> fsub elapsed (min elapsed expected)" unfolding fsub_def by (intro fl64_nonneg) simp
  note d = t'_def record_sample_def Let_def elapsed_def [symmetric] expected_def [symmetric]
  show "first_sample_at t' \<in> {first_sample_at t, nonnegative_float sampled_at 0}"
    "last_sample_at t' \<in> {last_sample_at t, nonnegative_float sampled_at 0}"
    "sample_count t' \<in> {sample_count t, sample_count t + 1}" "gap_count t' \<in> {gap_count t, gap_count t + 1}"
    using assms(2) unfolding d by (simp_all add: min_def)
  show "unavailable_seconds t' = unavailable_seconds t \<or>
      (\<exists>d\<ge>0. unavailable_seconds t' = fadd (unavailable_seconds t) d)"
    using assms(2) u unfolding d by (cases "elapsed < 0") auto
  show "observed_seconds t' = observed_seconds t \<or> (\<exists>d\<ge>0. observed_seconds t' = fadd (observed_seconds t) d)"
    using assms(2) e unfolding d by (cases "elapsed < 0") (auto simp: min_def intro: exI [of _ elapsed])
qed

lemma record_sample_ignored: "nonnegative_float sampled_at 0 \<le> 0 \<Longrightarrow> record_sample t sampled_at interval = t"
  by (simp add: record_sample_def Let_def)

lemma record_sample_ok: "tracker_ok t \<Longrightarrow> tracker_ok (record_sample t sampled_at interval)"
proof (cases "0 < nonnegative_float sampled_at 0")
  case True
  assume t: "tracker_ok t"
  note p = record_sample_parts [OF True, of t interval]
  have fadd_nonneg: "0 \<le> x \<Longrightarrow> 0 \<le> d \<Longrightarrow> 0 \<le> fadd x d" for x d by (simp add: fadd_def fl64_nonneg)
  have "0 \<le> observed_seconds (record_sample t sampled_at interval)"
    using p(5) t fadd_nonneg unfolding tracker_ok_def by metis
  moreover have "0 \<le> unavailable_seconds (record_sample t sampled_at interval)"
    using p(6) t fadd_nonneg unfolding tracker_ok_def by metis
  moreover have "0 \<le> first_sample_at (record_sample t sampled_at interval)" using p(1) t True by (auto simp: tracker_ok_def)
  moreover have "0 \<le> last_sample_at (record_sample t sampled_at interval)" using p(2) t True by (auto simp: tracker_ok_def)
  moreover have "0 \<le> sample_count (record_sample t sampled_at interval)" using p(3) t by (auto simp: tracker_ok_def)
  moreover have "0 \<le> gap_count (record_sample t sampled_at interval)" using p(4) t by (auto simp: tracker_ok_def)
  ultimately show ?thesis by (simp add: tracker_ok_def)
qed (simp add: record_sample_ignored)

lemma record_sample_exact:
  assumes "f64.exact (observed_seconds t)" "f64.exact (unavailable_seconds t)"
  shows "f64.exact (observed_seconds (record_sample t sampled_at interval))"
    "f64.exact (unavailable_seconds (record_sample t sampled_at interval))"
proof -
  have fe: "f64.exact (fadd x d)" for x d by (simp add: fadd_def)
  show "f64.exact (observed_seconds (record_sample t sampled_at interval))"
    "f64.exact (unavailable_seconds (record_sample t sampled_at interval))"
    using assms fe record_sample_parts(5,6) [of sampled_at t interval] record_sample_ignored [of sampled_at t interval]
    by (metis not_le)+
qed

lemma fold_record_sample_ok: "tracker_ok t \<Longrightarrow> tracker_ok (fold (\<lambda>x t. record_sample t (Fin x) interval) xs t)"
  by (induction xs arbitrary: t) (auto intro: record_sample_ok)

lemma tracker_from_timestamps_ok: "tracker_ok (tracker_from_timestamps ts interval)"
  by (simp add: tracker_from_timestamps_def Let_def fold_record_sample_ok fresh_tracker_ok)

lemma nonnegative_finite_nonneg: "nonnegative_finite C v dflt = Inr x \<Longrightarrow> 0 \<le> dflt \<Longrightarrow> 0 \<le> x"
  by (auto simp: nonnegative_finite_def split: sum.splits py_error.splits pyfloat.splits)

lemma tracker_from_dict_ok: "tracker_from_dict C raw = Inr t \<Longrightarrow> tracker_ok t"
  by (auto simp: tracker_from_dict_def bind_err_Inr Let_def tracker_ok_def nonnegative_int_def
      MAX_TIMESTAMP_SECONDS_def MAX_TRACKED_SECONDS_def MAX_TRACKED_COUNT_def fresh_tracker_def
      dest: nonnegative_finite_nonneg split: json.splits sum.splits)

text \<open>A tracker within the limits \<open>from_dict\<close> enforces is written and read back unchanged.\<close>

definition tracker_bounded :: "tracker \<Rightarrow> bool" where
  "tracker_bounded t \<longleftrightarrow> tracker_ok t \<and> first_sample_at t \<le> MAX_TIMESTAMP_SECONDS \<and>
     last_sample_at t \<le> MAX_TIMESTAMP_SECONDS \<and> observed_seconds t \<le> MAX_TRACKED_SECONDS \<and>
     unavailable_seconds t \<le> MAX_TRACKED_SECONDS \<and> gap_count t \<le> MAX_TRACKED_COUNT \<and>
     sample_count t \<le> MAX_TRACKED_COUNT \<and> fl64 (1 / 1000) \<le> expected_interval_seconds t \<and>
     expected_interval_seconds t \<le> MAX_EXPECTED_INTERVAL_SECONDS"

lemma millisecond: "0 \<le> fl64 (1 / 1000)" "fl64 (1 / 1000) \<le> 30"
  using fl64_nonneg [of "1/1000"] fl64_mono [of "1/1000" 30] by simp_all

lemma tracker_from_dict_bounded: "tracker_from_dict C raw = Inr t \<Longrightarrow> tracker_bounded t"
proof -
  assume t: "tracker_from_dict C raw = Inr t"
  show ?thesis
  proof (cases raw)
    case (JObj d)
    then show ?thesis using t tracker_from_dict_ok [OF t] millisecond
      by (auto simp: tracker_bounded_def tracker_from_dict_def bind_err_Inr Let_def MAX_EXPECTED_INTERVAL_SECONDS_def)
  qed (use t fresh_tracker_ok millisecond in \<open>auto simp: tracker_from_dict_def tracker_bounded_def fresh_tracker_def
        MAX_TIMESTAMP_SECONDS_def MAX_TRACKED_SECONDS_def MAX_TRACKED_COUNT_def MAX_EXPECTED_INTERVAL_SECONDS_def
        DEFAULT_EXPECTED_INTERVAL_SECONDS_def\<close>)
qed

lemma tracker_round_trip:
  assumes "tracker_bounded t"
  shows "tracker_from_dict C (JObj (tracker_to_dict t)) = Inr t"
proof -
  have e: "0 \<le> expected_interval_seconds t" using assms millisecond(1) by (simp add: tracker_bounded_def)
  have get: "dict_get (tracker_to_dict t) ''first_sample_at'' = Some (JFloat (Fin (first_sample_at t)))"
    "dict_get (tracker_to_dict t) ''last_sample_at'' = Some (JFloat (Fin (last_sample_at t)))"
    "dict_get (tracker_to_dict t) ''observed_seconds'' = Some (JFloat (Fin (observed_seconds t)))"
    "dict_get (tracker_to_dict t) ''unavailable_seconds'' = Some (JFloat (Fin (unavailable_seconds t)))"
    "dict_get (tracker_to_dict t) ''gap_count'' = Some (JInt (gap_count t))"
    "dict_get (tracker_to_dict t) ''sample_count'' = Some (JInt (sample_count t))"
    "dict_get (tracker_to_dict t) ''expected_interval_seconds'' = Some (JFloat (Fin (expected_interval_seconds t)))"
    by (simp_all add: tracker_to_dict_def dict_get_def)
  show ?thesis using assms e
    by (simp add: tracker_from_dict_def Let_def get_or_def get nonnegative_finite_def nonnegative_int_def
        tracker_bounded_def tracker_ok_def max_absorb2 min_absorb2)
qed

section \<open>The daily averages\<close>

lemma part_of_sum:
  assumes "0 \<le> a" "0 \<le> b" "0 < fadd a b"
  shows "0 \<le> fdiv a (fadd a b)" "f64.exact a \<Longrightarrow> fdiv a (fadd a b) \<le> 1"
proof -
  show "0 \<le> fdiv a (fadd a b)" unfolding fdiv_def using assms by (intro fl64_nonneg) simp
  assume "f64.exact a"
  then have "a \<le> fadd a b" unfolding fadd_def using assms(2) by (intro f64.rnd_ge) auto
  then show "fdiv a (fadd a b) \<le> 1" unfolding fdiv_def using assms by (intro f64.rnd_le) auto
qed

definition hours :: "rat \<Rightarrow> bool" where
  "hours x \<longleftrightarrow> 0 \<le> x \<and> x \<le> 24"

lemma scaled_fraction:
  assumes "0 \<le> q" "q \<le> 1"
  shows "hours (fmul 24 q)" "pct (fmul 100 q)"
  unfolding hours_def pct_def fmul_def using assms
  by (auto intro!: fl64_nonneg f64.rnd_le simp: f64.exact_numeral)

lemma summarize_availability_ok:
  assumes "tracker_ok t" "f64.exact (observed_seconds t)" "f64.exact (unavailable_seconds t)"
  shows "hours (av_observed_hours_per_day (summarize_availability t source)) \<and>
    hours (av_unavailable_hours_per_day (summarize_availability t source)) \<and>
    pct (av_observed_pct (summarize_availability t source)) \<and>
    pct (av_unavailable_pct (summarize_availability t source)) \<and>
    0 \<le> av_span_seconds (summarize_availability t source)"
proof (cases "span_seconds t \<le> 0")
  case True
  then show ?thesis by (simp add: summarize_availability_def hours_def pct_def)
next
  case False
  have ok: "0 \<le> observed_seconds t" "0 \<le> unavailable_seconds t" using assms(1) by (simp_all add: tracker_ok_def)
  have s: "0 < fadd (observed_seconds t) (unavailable_seconds t)"
    "0 < fadd (unavailable_seconds t) (observed_seconds t)"
    using False by (simp_all add: span_seconds_def fadd_def add.commute)
  have c: "fadd (unavailable_seconds t) (observed_seconds t) = span_seconds t"
    "fadd (observed_seconds t) (unavailable_seconds t) = span_seconds t"
    by (simp_all add: fadd_def span_seconds_def add.commute)
  show ?thesis
    using False part_of_sum [OF ok s(1)] part_of_sum [OF ok(2,1) s(2)] assms
    by (simp add: summarize_availability_def Let_def c scaled_fraction)
qed

end
