(* ===== verification/Profiler.thy ===== *)
theory Profiler imports Availability begin

text \<open>
  \<open>src/worker/profiler.py\<close>: the usage envelope a worker learns, one bucket per hour of the week with
  rolling mean, peak and trough, its decoding from the profile file, and the CPU sampler. The lemmas show
  that every statistic stays a percentage whatever is sampled, rounding included, and that a profile that
  was loaded is written and read back unchanged. Renaming a corrupt file, the probe file and the atomic
  replacement are the platform's; what the code does with their outcome is modelled.
\<close>

definition BUCKETS :: nat where "BUCKETS = 168"
definition EWMA_ALPHA :: rat where "EWMA_ALPHA = fl64 (5 / 100)"
definition EXTREME_DECAY :: rat where "EXTREME_DECAY = fl64 (2 / 100)"
definition STALE_DAYS :: rat where "STALE_DAYS = 35"
definition MAX_PROFILE_BYTES :: nat where "MAX_PROFILE_BYTES = 1000000"
definition MAX_BUCKET_SAMPLES :: int where "MAX_BUCKET_SAMPLES = 10000000"

text \<open>What the code uses of a \<open>datetime\<close>: Monday is weekday 0.\<close>

record local_time =
  lt_weekday :: nat
  lt_hour :: nat
  lt_timestamp :: rat

definition bucket_index :: "local_time \<Rightarrow> nat" where
  "bucket_index now = (lt_weekday now * 24 + lt_hour now) mod BUCKETS"

record bucket_stat =
  st_n :: int
  st_cpu_mean :: rat
  st_cpu_max :: rat
  st_cpu_min :: rat
  st_gpu_mean :: rat
  st_gpu_max :: rat
  st_gpu_n :: int
  st_ram_mean :: rat
  st_ram_max :: rat
  st_ac_mean :: rat
  st_idle_mean :: rat
  st_ac_n :: int
  st_idle_n :: int
  st_updated_at :: rat

definition new_bucket :: bucket_stat where
  "new_bucket = \<lparr>st_n = 0, st_cpu_mean = 0, st_cpu_max = 0, st_cpu_min = 100, st_gpu_mean = 0, st_gpu_max = 0,
     st_gpu_n = 0, st_ram_mean = 0, st_ram_max = 0, st_ac_mean = 0, st_idle_mean = 0, st_ac_n = 0, st_idle_n = 0,
     st_updated_at = 0\<rparr>"

section \<open>Rolling statistics\<close>

definition ewma :: "rat \<Rightarrow> rat \<Rightarrow> int \<Rightarrow> rat" where
  "ewma prev sample n = (if n \<le> 0 then sample else fadd (fmul (fsub 1 EWMA_ALPHA) prev) (fmul EWMA_ALPHA sample))"

definition roll_max :: "rat \<Rightarrow> rat \<Rightarrow> rat \<Rightarrow> rat" where
  "roll_max prev sample mean = max (fsub prev (fmul EXTREME_DECAY (fsub prev mean))) sample"

definition roll_min :: "rat \<Rightarrow> rat \<Rightarrow> rat \<Rightarrow> rat" where
  "roll_min prev sample mean = min (fadd prev (fmul EXTREME_DECAY (fsub mean prev))) sample"

definition percent_float :: "pyfloat \<Rightarrow> rat" where
  "percent_float v = max 0 (min 100 (case v of Fin x \<Rightarrow> x | _ \<Rightarrow> 0))"

section \<open>The profile file\<close>

definition percent :: "conversions \<Rightarrow> dict \<Rightarrow> str \<Rightarrow> rat \<Rightarrow> py_error + rat" where
  "percent C raw k dflt = bind_err (finite_float C (get_or raw k JNull) dflt) (\<lambda>x. Inr (max 0 (min 100 x)))"

text \<open>A count that does not convert is 0.\<close>

definition count_or_zero :: "py_error + int \<Rightarrow> int" where
  "count_or_zero r = (case r of Inl _ \<Rightarrow> 0 | Inr n \<Rightarrow> max 0 n)"

definition bucket_gpu_n :: "conversions \<Rightarrow> dict \<Rightarrow> bool option \<Rightarrow> int \<Rightarrow> rat \<Rightarrow> rat \<Rightarrow> int" where
  "bucket_gpu_n C raw gpu_supported n gpu_mean gpu_max =
     (case dict_get raw ''gpu_n'' of
        Some v \<Rightarrow> count_or_zero (to_int C v)
      | None \<Rightarrow>
          (case gpu_supported of
             Some True \<Rightarrow> n
           | Some False \<Rightarrow> 0
           | None \<Rightarrow> if 0 < gpu_mean \<or> 0 < gpu_max then n else 0))"

definition optional_count :: "conversions \<Rightarrow> dict \<Rightarrow> str \<Rightarrow> str \<Rightarrow> int \<Rightarrow> int" where
  "optional_count C raw count_key mean_key n =
     count_or_zero (to_int C (get_or raw count_key (JInt (if dict_get raw mean_key \<noteq> None then n else 0))))"

definition bucket_from_dict :: "conversions \<Rightarrow> dict \<Rightarrow> bool option \<Rightarrow> py_error + bucket_stat" where
  "bucket_from_dict C raw gpu_supported =
     (let n = min MAX_BUCKET_SAMPLES (count_or_zero (get_int C raw ''n'' 0)); p = percent C raw
      in bind_err (p ''cpu_mean'' 0) (\<lambda>cpu_mean. bind_err (p ''gpu_mean'' 0) (\<lambda>gpu_mean.
         bind_err (p ''ram_mean'' 0) (\<lambda>ram_mean. bind_err (p ''gpu_max'' 0) (\<lambda>gpu_max.
         bind_err (p ''cpu_max'' 0) (\<lambda>cpu_max. bind_err (p ''cpu_min'' 100) (\<lambda>cpu_min.
         bind_err (p ''ram_max'' 0) (\<lambda>ram_max. bind_err (p ''ac_mean'' 0) (\<lambda>ac_mean.
         bind_err (p ''idle_mean'' 0) (\<lambda>idle_mean.
         bind_err (finite_float C (get_or raw ''updated_at'' JNull) 0) (\<lambda>updated_at.
           Inr \<lparr>st_n = n, st_cpu_mean = cpu_mean, st_cpu_max = max cpu_mean cpu_max, st_cpu_min = min cpu_mean cpu_min,
                st_gpu_mean = gpu_mean, st_gpu_max = max gpu_mean gpu_max,
                st_gpu_n = min (bucket_gpu_n C raw gpu_supported n gpu_mean gpu_max) n,
                st_ram_mean = ram_mean, st_ram_max = max ram_mean ram_max, st_ac_mean = ac_mean, st_idle_mean = idle_mean,
                st_ac_n = min (optional_count C raw ''ac_n'' ''ac_mean'' n) n,
                st_idle_n = min (optional_count C raw ''idle_n'' ''idle_mean'' n) n,
                st_updated_at = max 0 updated_at\<rparr>)))))))))))"

definition bucket_to_dict :: "bucket_stat \<Rightarrow> dict" where
  "bucket_to_dict b =
     (let f = (\<lambda>x. JFloat (Fin x))
      in [(''n'', JInt (st_n b)), (''cpu_mean'', f (st_cpu_mean b)), (''cpu_max'', f (st_cpu_max b)),
          (''cpu_min'', f (st_cpu_min b)), (''gpu_mean'', f (st_gpu_mean b)), (''gpu_max'', f (st_gpu_max b)),
          (''gpu_n'', JInt (st_gpu_n b)), (''ram_mean'', f (st_ram_mean b)), (''ram_max'', f (st_ram_max b)),
          (''ac_mean'', f (st_ac_mean b)), (''idle_mean'', f (st_idle_mean b)), (''ac_n'', JInt (st_ac_n b)),
          (''idle_n'', JInt (st_idle_n b)), (''updated_at'', f (st_updated_at b))])"

record usage_profiler =
  up_buckets :: "bucket_stat list"
  up_availability :: tracker
  up_gpu_supported :: "bool option"
  up_load_warning :: bool
  up_recovery_blocked :: bool

definition new_profiler :: usage_profiler where
  "new_profiler = \<lparr>up_buckets = replicate BUCKETS new_bucket, up_availability = fresh_tracker, up_gpu_supported = None,
     up_load_warning = False, up_recovery_blocked = False\<rparr>"

text \<open>What reading the profile path gives; \<open>Unreadable\<close> is any of the errors the code catches.\<close>

datatype profile_file = NoFile | NotAFile | Unreadable | Decoded nat json

fun load_buckets :: "conversions \<Rightarrow> bool option \<Rightarrow> json list \<Rightarrow> bucket_stat list \<Rightarrow> py_error + bucket_stat list" where
  "load_buckets C g (JObj raw # xs) (_ # bs) =
     bind_err (bucket_from_dict C raw g) (\<lambda>b. bind_err (load_buckets C g xs bs) (\<lambda>rest. Inr (b # rest)))"
| "load_buckets C g (_ # xs) (b # bs) = bind_err (load_buckets C g xs bs) (\<lambda>rest. Inr (b # rest))"
| "load_buckets C g _ bs = Inr bs"

definition decode_profile :: "conversions \<Rightarrow> dict \<Rightarrow> py_error + usage_profiler" where
  "decode_profile C data =
     (case get_or data ''buckets'' (JList []) of
        JList raw_buckets \<Rightarrow>
          (let g = (case dict_get data ''gpu_supported'' of Some (JBool b) \<Rightarrow> Some b | _ \<Rightarrow> None)
           in bind_err (load_buckets C g (take BUCKETS raw_buckets) (up_buckets new_profiler)) (\<lambda>bs.
              bind_err (tracker_from_dict C (get_or data ''availability'' JNull)) (\<lambda>t.
                Inr (new_profiler\<lparr>up_buckets := bs, up_availability := t, up_gpu_supported := g\<rparr>))))
      | _ \<Rightarrow> Inl (ValueError ''profile buckets must be a JSON list''))"

text \<open>
  \<open>UsageProfiler.__init__\<close> and \<open>_load\<close>. Whether a corrupt file could be moved away is \<open>preserved\<close>; an
  \<open>OverflowError\<close> of a huge number is not among the errors \<open>_load\<close> catches.
\<close>

definition read_profile :: "conversions \<Rightarrow> profile_file \<Rightarrow> py_error + usage_profiler" where
  "read_profile C f =
     (case f of
        NoFile \<Rightarrow> Inr new_profiler
      | NotAFile \<Rightarrow> Inl (ValueError ''profile path is not a file'')
      | Unreadable \<Rightarrow> Inl (ValueError ''unreadable'')
      | Decoded size_bytes v \<Rightarrow>
          if MAX_PROFILE_BYTES < size_bytes then Inl (ValueError ''profile exceeds the maximum expected size'')
          else (case v of JObj data \<Rightarrow> decode_profile C data
                | _ \<Rightarrow> Inl (ValueError ''profile root must be a JSON object'')))"

definition load :: "conversions \<Rightarrow> profile_file \<Rightarrow> bool \<Rightarrow> py_error + usage_profiler" where
  "load C f preserved =
     (case read_profile C f of
        Inr p \<Rightarrow> Inr p
      | Inl (OtherError e) \<Rightarrow> Inl (OtherError e)
      | Inl _ \<Rightarrow> Inr (new_profiler\<lparr>up_load_warning := True, up_recovery_blocked := f = NotAFile \<or> \<not> preserved\<rparr>))"

definition save_payload :: "usage_profiler \<Rightarrow> dict" where
  "save_payload p =
     [(''version'', JInt 3),
      (''gpu_supported'', (case up_gpu_supported p of None \<Rightarrow> JNull | Some b \<Rightarrow> JBool b)),
      (''buckets'', JList (map (\<lambda>b. JObj (bucket_to_dict b)) (up_buckets p))),
      (''availability'', JObj (tracker_to_dict (up_availability p)))]"

text \<open>\<open>save\<close>: nothing is written while a corrupt profile is still in the way; \<open>written\<close> is the outcome of the write.\<close>

definition save :: "usage_profiler \<Rightarrow> bool \<Rightarrow> bool \<times> dict option" where
  "save p written =
     (if up_recovery_blocked p then (False, None)
      else if written then (True, Some (save_payload p)) else (False, None))"

section \<open>Recording\<close>

definition record_availability :: "usage_profiler \<Rightarrow> pyfloat \<Rightarrow> pyfloat \<Rightarrow> usage_profiler" where
  "record_availability p sampled_at interval = p\<lparr>up_availability := record_sample (up_availability p) sampled_at interval\<rparr>"

definition bucket_record ::
  "bucket_stat \<Rightarrow> rat \<Rightarrow> rat option \<Rightarrow> rat \<Rightarrow> rat \<Rightarrow> bool option \<Rightarrow> bool option \<Rightarrow> bucket_stat" where
  "bucket_record b0 cpu gpu ram ts on_ac idle =
     (let b = (if 0 < st_n b0 \<and> fmul STALE_DAYS 86400 < fsub ts (st_updated_at b0) then new_bucket else b0);
          seen = (st_n b \<noteq> 0);
          cpu_mean = ewma (st_cpu_mean b) cpu (st_n b);
          ram_mean = ewma (st_ram_mean b) ram (st_n b);
          (gpu_mean, gpu_max, gpu_n) =
            (case gpu of
               None \<Rightarrow> (st_gpu_mean b, st_gpu_max b, st_gpu_n b)
             | Some g \<Rightarrow>
                 (let m = ewma (st_gpu_mean b) g (st_gpu_n b)
                  in (m, if st_gpu_n b \<noteq> 0 then roll_max (st_gpu_max b) g m else g, st_gpu_n b + 1)));
          (ac_mean, ac_n) =
            (case on_ac of
               None \<Rightarrow> (st_ac_mean b, st_ac_n b)
             | Some a \<Rightarrow> (ewma (st_ac_mean b) (if a then 100 else 0) (st_ac_n b), st_ac_n b + 1));
          (idle_mean, idle_n) =
            (case idle of
               None \<Rightarrow> (st_idle_mean b, st_idle_n b)
             | Some i \<Rightarrow> (ewma (st_idle_mean b) (if i then 100 else 0) (st_idle_n b), st_idle_n b + 1))
      in \<lparr>st_n = st_n b + 1, st_cpu_mean = cpu_mean,
          st_cpu_max = (if seen then roll_max (st_cpu_max b) cpu cpu_mean else cpu),
          st_cpu_min = (if seen then roll_min (st_cpu_min b) cpu cpu_mean else cpu),
          st_gpu_mean = gpu_mean, st_gpu_max = gpu_max, st_gpu_n = gpu_n, st_ram_mean = ram_mean,
          st_ram_max = (if seen then roll_max (st_ram_max b) ram ram_mean else ram),
          st_ac_mean = ac_mean, st_idle_mean = idle_mean, st_ac_n = ac_n, st_idle_n = idle_n, st_updated_at = ts\<rparr>)"

text \<open>\<open>UsageProfiler.record\<close> and \<open>profile_now\<close>.\<close>

record observation =
  ob_cpu :: pyfloat
  ob_gpu :: "pyfloat option"
  ob_ram :: pyfloat
  ob_at :: local_time
  ob_on_ac :: "bool option"
  ob_idle :: "bool option"

definition record_usage :: "usage_profiler \<Rightarrow> observation \<Rightarrow> usage_profiler" where
  "record_usage p ob =
     (let i = bucket_index (ob_at ob)
      in p\<lparr>up_buckets := (up_buckets p)[i := bucket_record (up_buckets p ! i) (percent_float (ob_cpu ob))
            (map_option percent_float (ob_gpu ob)) (percent_float (ob_ram ob)) (lt_timestamp (ob_at ob))
            (ob_on_ac ob) (ob_idle ob)]\<rparr>)"

definition profile_now :: "usage_profiler \<Rightarrow> local_time \<Rightarrow> bucket_stat" where
  "profile_now p now = up_buckets p ! bucket_index now"

section \<open>The CPU sampler\<close>

text \<open>
  \<open>SystemCpuSampler\<close> keeps the last (idle, total) pair of tick counters; \<open>cur\<close> is what the system call
  gives. \<open>d_idle / d_total\<close> is a true division of integers, correctly rounded.
\<close>

type_synonym cpu_ticks = "(int \<times> int) option"

definition ticks_of :: "nat \<Rightarrow> nat \<Rightarrow> nat" where
  "ticks_of high low = high * 2 ^ 32 + low"

definition cpu_sample :: "cpu_ticks \<Rightarrow> cpu_ticks \<Rightarrow> cpu_ticks \<times> rat option" where
  "cpu_sample prev cur =
     (case cur of
        None \<Rightarrow> (prev, None)
      | Some (idle1, total1) \<Rightarrow>
          (case prev of
             None \<Rightarrow> (cur, None)
           | Some (idle0, total0) \<Rightarrow>
               (let d_total = total1 - total0; d_idle = idle1 - idle0
                in if d_total \<le> 0 then (cur, None)
                   else (cur, Some (max 0 (min 100 (fmul (fsub 1 (fl64 (of_int d_idle / of_int d_total))) 100)))))))"

section \<open>Every statistic stays a percentage\<close>

lemma ewma_pct: "pct prev \<Longrightarrow> pct sample \<Longrightarrow> pct (ewma prev sample n)"
proof -
  assume a: "pct prev" "pct sample"
  have w: "0 \<le> fsub 1 EWMA_ALPHA" "0 \<le> EWMA_ALPHA" unfolding EWMA_ALPHA_def by code_simp+
  have "fl64 (fl64 (fsub 1 EWMA_ALPHA * 100) + fl64 (EWMA_ALPHA * 100)) \<le> 100" unfolding EWMA_ALPHA_def by code_simp
  then show ?thesis using a f64.rnd_blend [OF w, of prev 100 sample]
    by (auto simp: ewma_def pct_def fadd_def fmul_def)
qed

text \<open>Relaxing towards a value never overshoots it, although both steps round.\<close>

lemma decay_bounds: "0 \<le> EXTREME_DECAY" "EXTREME_DECAY \<le> 1 / 32"
  unfolding EXTREME_DECAY_def by code_simp+

lemma fl64_tiny: "fl64 (2 powi (-1074)) = 2 powi (-1074)" "fl64 (2 powi (-1079)) = 0"
proof -
  show "fl64 (2 powi (-1074)) = 2 powi (-1074)" using fl64_exact [of 1 "-1074"] by simp
  define x where "x = (2::rat) powi (-1079)"
  have "expo x = -1079" by (rule expo_unique) (simp_all add: x_def less_imp_le)
  then have u: "ulp_exp x = -1074" by (simp add: ulp_exp_def)
  have "x / 2 powi (-1074) = 1/32" by (simp add: x_def power_int_minus field_simps)
  moreover have "rne (1/32) = 0" by code_simp
  ultimately have "fl64 x = 0" unfolding fl64_def u by (simp only: of_int_0 mult_zero_left if_cancel)
  then show "fl64 (2 powi (-1079)) = 0" by (simp only: x_def)
qed

lemma decay_step:
  assumes "0 \<le> d"
  shows "0 \<le> fmul EXTREME_DECAY (fl64 d)" "fmul EXTREME_DECAY (fl64 d) \<le> d"
proof -
  let ?y = "EXTREME_DECAY * fl64 d"
  have fd: "0 \<le> fl64 d" using assms by (rule fl64_nonneg)
  then have y: "0 \<le> ?y" "?y \<le> fl64 d / 32"
    using mult_right_mono [OF decay_bounds(1) fd] mult_right_mono [OF decay_bounds(2) fd] by simp_all
  show "0 \<le> fmul EXTREME_DECAY (fl64 d)" unfolding fmul_def using y(1) by (rule fl64_nonneg)
  define t where "t = (2::rat) powi (-1074)"
  have t: "0 < t" "2 powi (-1075) = t / 2" "2 powi (-1079) = t / 32"
    by (simp_all add: t_def power_int_minus field_simps)
  show "fmul EXTREME_DECAY (fl64 d) \<le> d"
  proof (cases "d \<le> t")
    case True
    then have "fl64 d \<le> t" using fl64_mono [of d t] fl64_tiny(1) by (simp add: t_def)
    then have "?y \<le> 2 powi (-1079)" using y t by linarith
    then have "fl64 ?y \<le> 0" using fl64_mono [of ?y "2 powi (-1079)"] fl64_tiny(2) by simp
    then show ?thesis using assms by (simp add: fmul_def)
  next
    case False
    have rel: "fl64 x \<le> x + x / 32 + t / 2" if "0 \<le> x" for x
    proof -
      have "x * 2 powi (-53) \<le> x * (1 / 32)" using that by (intro mult_left_mono) (auto simp: power_int_minus)
      then show ?thesis using fl64_rel_error [of x] that t by simp
    qed
    show ?thesis using rel [of d] rel [of ?y] y assms False t unfolding fmul_def by linarith
  qed
qed

lemma relax_pct:
  assumes "pct prev" "pct mean"
  shows "pct (fsub prev (fmul EXTREME_DECAY (fsub prev mean)))" "pct (fadd prev (fmul EXTREME_DECAY (fsub mean prev)))"
proof -
  have *: "0 \<le> prev + fmul EXTREME_DECAY (fsub mean prev)" "prev + fmul EXTREME_DECAY (fsub mean prev) \<le> 100"
  proof -
    have "\<bar>fmul EXTREME_DECAY (fsub mean prev)\<bar> \<le> \<bar>mean - prev\<bar> \<and>
        (mean \<le> prev \<longrightarrow> fmul EXTREME_DECAY (fsub mean prev) \<le> 0) \<and>
        (prev \<le> mean \<longrightarrow> 0 \<le> fmul EXTREME_DECAY (fsub mean prev))"
    proof (cases "prev \<le> mean")
      case True
      then show ?thesis using decay_step [of "mean - prev"] by (auto simp: fsub_def)
    next
      case False
      have "fmul EXTREME_DECAY (fsub mean prev) = - fmul EXTREME_DECAY (fl64 (prev - mean))"
        unfolding fmul_def fsub_def using fl64_minus [of "prev - mean"] fl64_minus [of "EXTREME_DECAY * fl64 (prev - mean)"]
        by simp
      then show ?thesis using False decay_step [of "prev - mean"] by auto
    qed
    then show "0 \<le> prev + fmul EXTREME_DECAY (fsub mean prev)" "prev + fmul EXTREME_DECAY (fsub mean prev) \<le> 100"
      using assms by (auto simp: pct_def abs_le_iff)
  qed
  then show 1: "pct (fadd prev (fmul EXTREME_DECAY (fsub mean prev)))"
    using f64.rnd_percent by (simp add: fadd_def pct_def)
  have "fmul EXTREME_DECAY (fsub prev mean) = - fmul EXTREME_DECAY (fsub mean prev)"
    unfolding fmul_def fsub_def using fl64_minus [of "mean - prev"] fl64_minus [of "EXTREME_DECAY * fl64 (mean - prev)"]
    by simp
  then show "pct (fsub prev (fmul EXTREME_DECAY (fsub prev mean)))" using 1 by (simp add: fsub_def fadd_def)
qed

definition stat_ok :: "bucket_stat \<Rightarrow> bool" where
  "stat_ok b \<longleftrightarrow> pct (st_cpu_mean b) \<and> pct (st_cpu_max b) \<and> pct (st_cpu_min b) \<and> pct (st_gpu_mean b) \<and>
     pct (st_gpu_max b) \<and> pct (st_ram_mean b) \<and> pct (st_ram_max b) \<and> pct (st_ac_mean b) \<and> pct (st_idle_mean b) \<and>
     0 \<le> st_n b \<and> 0 \<le> st_gpu_n b \<and> st_gpu_n b \<le> st_n b \<and> 0 \<le> st_ac_n b \<and> st_ac_n b \<le> st_n b \<and>
     0 \<le> st_idle_n b \<and> st_idle_n b \<le> st_n b"

definition profiler_ok :: "usage_profiler \<Rightarrow> bool" where
  "profiler_ok p \<longleftrightarrow> length (up_buckets p) = BUCKETS \<and> list_all stat_ok (up_buckets p) \<and> tracker_ok (up_availability p)"

lemma pct_0 [simp]: "pct 0" and pct_100 [simp]: "pct 100"
  by (simp_all add: pct_def)

lemma percent_float_pct [simp]: "pct (percent_float v)"
  by (simp add: percent_float_def pct_def)

lemma roll_pct:
  assumes "pct prev" "pct sample" "pct mean"
  shows "pct (roll_max prev sample mean)" "pct (roll_min prev sample mean)"
  using relax_pct [OF assms(1,3)] assms(2) by (simp_all add: roll_max_def roll_min_def max_def min_def)

lemma new_bucket_ok: "stat_ok new_bucket"
  by (simp add: stat_ok_def new_bucket_def)

lemma bucket_record_ok:
  assumes "stat_ok b0" "pct cpu" "case gpu of None \<Rightarrow> True | Some g \<Rightarrow> pct g" "pct ram"
  shows "stat_ok (bucket_record b0 cpu gpu ram ts on_ac idle)"
proof -
  define b where "b = (if 0 < st_n b0 \<and> fmul STALE_DAYS 86400 < fsub ts (st_updated_at b0) then new_bucket else b0)"
  have "stat_ok b" using assms(1) new_bucket_ok by (simp add: b_def)
  then show ?thesis using assms(2-4)
    unfolding bucket_record_def b_def [symmetric] Let_def
    by (cases gpu; cases on_ac; cases idle) (simp_all add: stat_ok_def ewma_pct roll_pct)
qed

lemma bucket_index_less: "bucket_index now < BUCKETS"
  by (simp add: bucket_index_def BUCKETS_def)

lemma record_usage_ok: "profiler_ok p \<Longrightarrow> profiler_ok (record_usage p ob)"
proof -
  assume p: "profiler_ok p"
  let ?i = "bucket_index (ob_at ob)"
  have "stat_ok (up_buckets p ! ?i)" using p bucket_index_less by (simp add: profiler_ok_def list_all_length)
  then have "stat_ok (bucket_record (up_buckets p ! ?i) (percent_float (ob_cpu ob)) (map_option percent_float (ob_gpu ob))
      (percent_float (ob_ram ob)) (lt_timestamp (ob_at ob)) (ob_on_ac ob) (ob_idle ob))"
    by (rule bucket_record_ok) (simp_all split: option.split)
  then show ?thesis using p
    by (auto simp: profiler_ok_def record_usage_def Let_def list_all_iff dest!: set_update_subset_insert [THEN subsetD])
qed

section \<open>A saved profile reads back\<close>

definition stat_settled :: "bucket_stat \<Rightarrow> bool" where
  "stat_settled b \<longleftrightarrow> stat_ok b \<and> st_cpu_mean b \<le> st_cpu_max b \<and> st_gpu_mean b \<le> st_gpu_max b \<and>
     st_ram_mean b \<le> st_ram_max b \<and> st_n b \<le> MAX_BUCKET_SAMPLES \<and> 0 \<le> st_updated_at b"

text \<open>Reading lowers the trough of a bucket that has no samples to its mean.\<close>

definition settle :: "bucket_stat \<Rightarrow> bucket_stat" where
  "settle b = b\<lparr>st_cpu_min := min (st_cpu_mean b) (st_cpu_min b)\<rparr>"

lemma percent_pct: "percent C raw k dflt = Inr x \<Longrightarrow> pct x"
  by (auto simp: percent_def bind_err_Inr pct_def)

lemma count_or_zero_nonneg: "0 \<le> count_or_zero r"
  by (simp add: count_or_zero_def split: sum.split)

lemma bucket_gpu_n_nonneg: "0 \<le> n \<Longrightarrow> 0 \<le> bucket_gpu_n C raw g n a b"
  by (simp add: bucket_gpu_n_def count_or_zero_nonneg split: option.split bool.split)

lemma pct_max_min: "pct a \<Longrightarrow> pct b \<Longrightarrow> pct (max a b)" "pct a \<Longrightarrow> pct b \<Longrightarrow> pct (min a b)"
  by (simp_all add: max_def min_def)

lemma percent_bindE: "bind_err (percent C raw k dflt) f = Inr y \<Longrightarrow> (\<And>x. pct x \<Longrightarrow> f x = Inr y \<Longrightarrow> P) \<Longrightarrow> P"
  by (auto simp: bind_err_Inr dest: percent_pct)

lemma finite_bindE: "bind_err (finite_float C v dflt) f = Inr y \<Longrightarrow> (\<And>x. f x = Inr y \<Longrightarrow> P) \<Longrightarrow> P"
  by (auto simp: bind_err_Inr)

lemma settledI:
  assumes "0 \<le> n" "n \<le> MAX_BUCKET_SAMPLES" "pct a" "pct b" "pct c" "pct d" "pct e" "pct f" "pct g" "pct h" "pct i"
    "0 \<le> gn" "0 \<le> an" "0 \<le> kn"
  shows "stat_settled \<lparr>st_n = n, st_cpu_mean = a, st_cpu_max = max a b, st_cpu_min = min a c, st_gpu_mean = d,
     st_gpu_max = max d e, st_gpu_n = min gn n, st_ram_mean = f, st_ram_max = max f g, st_ac_mean = h,
     st_idle_mean = i, st_ac_n = min an n, st_idle_n = min kn n, st_updated_at = max 0 u\<rparr>"
  unfolding stat_settled_def stat_ok_def bucket_stat.simps
  using assms by (intro conjI) (simp_all add: pct_max_min)

lemma sample_count_range: "0 \<le> min MAX_BUCKET_SAMPLES (count_or_zero r)" "min MAX_BUCKET_SAMPLES (count_or_zero r) \<le> MAX_BUCKET_SAMPLES"
  by (simp_all add: count_or_zero_nonneg MAX_BUCKET_SAMPLES_def)

lemma optional_count_nonneg: "0 \<le> optional_count C raw k m n"
  by (simp add: optional_count_def count_or_zero_nonneg)

lemma bucket_from_dict_settled: "bucket_from_dict C raw g = Inr b \<Longrightarrow> stat_settled b"
  unfolding bucket_from_dict_def Let_def
  by (elim percent_bindE finite_bindE, drule sum.inject(2) [THEN iffD1], erule subst, rule settledI;
      (assumption | intro sample_count_range bucket_gpu_n_nonneg optional_count_nonneg))

lemma new_bucket_settled: "stat_settled new_bucket"
  using new_bucket_ok by (simp add: stat_settled_def) (simp add: new_bucket_def MAX_BUCKET_SAMPLES_def)

lemma finite_float_Fin [simp]: "finite_float C (JFloat (Fin x)) dflt = Inr x"
  by (simp add: finite_float_def)

lemma bucket_to_dict_get:
  "dict_get (bucket_to_dict b) ''cpu_mean'' = Some (JFloat (Fin (st_cpu_mean b)))"
  "dict_get (bucket_to_dict b) ''cpu_max'' = Some (JFloat (Fin (st_cpu_max b)))"
  "dict_get (bucket_to_dict b) ''cpu_min'' = Some (JFloat (Fin (st_cpu_min b)))"
  "dict_get (bucket_to_dict b) ''gpu_mean'' = Some (JFloat (Fin (st_gpu_mean b)))"
  "dict_get (bucket_to_dict b) ''gpu_max'' = Some (JFloat (Fin (st_gpu_max b)))"
  "dict_get (bucket_to_dict b) ''ram_mean'' = Some (JFloat (Fin (st_ram_mean b)))"
  "dict_get (bucket_to_dict b) ''ram_max'' = Some (JFloat (Fin (st_ram_max b)))"
  "dict_get (bucket_to_dict b) ''ac_mean'' = Some (JFloat (Fin (st_ac_mean b)))"
  "dict_get (bucket_to_dict b) ''idle_mean'' = Some (JFloat (Fin (st_idle_mean b)))"
  "dict_get (bucket_to_dict b) ''updated_at'' = Some (JFloat (Fin (st_updated_at b)))"
  "dict_get (bucket_to_dict b) ''n'' = Some (JInt (st_n b))"
  "dict_get (bucket_to_dict b) ''gpu_n'' = Some (JInt (st_gpu_n b))"
  "dict_get (bucket_to_dict b) ''ac_n'' = Some (JInt (st_ac_n b))"
  "dict_get (bucket_to_dict b) ''idle_n'' = Some (JInt (st_idle_n b))"
  by (simp_all add: bucket_to_dict_def dict_get_def)

lemma percent_Fin: "dict_get raw k = Some (JFloat (Fin x)) \<Longrightarrow> pct x \<Longrightarrow> percent C raw k dflt = Inr x"
  by (simp add: percent_def get_or_def pct_def)

lemma bucket_round_trip:
  assumes "stat_settled b"
  shows "bucket_from_dict C (bucket_to_dict b) g = Inr (settle b)"
proof -
  have n: "0 \<le> st_n b" "st_n b \<le> MAX_BUCKET_SAMPLES" using assms by (simp_all add: stat_settled_def stat_ok_def)
  have p: "pct (st_cpu_mean b)" "pct (st_cpu_max b)" "pct (st_cpu_min b)" "pct (st_gpu_mean b)" "pct (st_gpu_max b)"
    "pct (st_ram_mean b)" "pct (st_ram_max b)" "pct (st_ac_mean b)" "pct (st_idle_mean b)"
    using assms by (simp_all add: stat_settled_def stat_ok_def)
  have c: "min (max 0 (st_gpu_n b)) (st_n b) = st_gpu_n b" "min (max 0 (st_ac_n b)) (st_n b) = st_ac_n b"
    "min (max 0 (st_idle_n b)) (st_n b) = st_idle_n b" "max (st_cpu_mean b) (st_cpu_max b) = st_cpu_max b"
    "max (st_gpu_mean b) (st_gpu_max b) = st_gpu_max b" "max (st_ram_mean b) (st_ram_max b) = st_ram_max b"
    "max 0 (st_updated_at b) = st_updated_at b"
    using assms by (simp_all add: stat_settled_def stat_ok_def)
  have "min MAX_BUCKET_SAMPLES (count_or_zero (get_int C (bucket_to_dict b) ''n'' 0)) = st_n b"
    using n by (simp add: bucket_to_dict_get count_or_zero_def)
  then show ?thesis
    unfolding bucket_from_dict_def Let_def
    using p by (simp add: bucket_to_dict_get percent_Fin get_or_def optional_count_def bucket_gpu_n_def count_or_zero_def
        c settle_def)
qed

lemma load_buckets_settled:
  "load_buckets C g xs bs = Inr bs' \<Longrightarrow> list_all stat_settled bs \<Longrightarrow> list_all stat_settled bs' \<and> length bs' = length bs"
  by (induction C g xs bs arbitrary: bs' rule: load_buckets.induct)
    (auto simp: bind_err_Inr bucket_from_dict_settled)

lemma load_buckets_round_trip:
  "list_all stat_settled bs \<Longrightarrow> length bs = length old \<Longrightarrow>
     load_buckets C g (map (\<lambda>b. JObj (bucket_to_dict b)) bs) old = Inr (map settle bs)"
  by (induction bs old rule: list_induct2') (simp_all add: bucket_round_trip)

definition profiler_settled :: "usage_profiler \<Rightarrow> bool" where
  "profiler_settled p \<longleftrightarrow> length (up_buckets p) = BUCKETS \<and> list_all stat_settled (up_buckets p) \<and>
     tracker_bounded (up_availability p) \<and> \<not> up_load_warning p \<and> \<not> up_recovery_blocked p"

lemma new_profiler_buckets: "list_all stat_settled (up_buckets new_profiler)" "length (up_buckets new_profiler) = BUCKETS"
  using new_bucket_settled by (simp_all add: new_profiler_def list_all_iff)

lemma fresh_tracker_bounded: "tracker_bounded fresh_tracker"
  using tracker_from_dict_bounded [of _ JNull fresh_tracker] by (simp add: tracker_from_dict_def)

lemma decode_profile_settled: "decode_profile C data = Inr p \<Longrightarrow> profiler_settled p"
  using new_profiler_buckets
  by (auto simp: decode_profile_def bind_err_Inr Let_def profiler_settled_def tracker_from_dict_bounded
      dest!: load_buckets_settled split: json.splits) (simp_all add: new_profiler_def)

lemma new_profiler_settled: "profiler_settled new_profiler"
  using new_profiler_buckets fresh_tracker_bounded
  by (simp add: profiler_settled_def) (simp add: new_profiler_def)

lemma read_profile_settled: "read_profile C f = Inr p \<Longrightarrow> profiler_settled p"
  using new_profiler_settled
  by (cases f) (auto simp: read_profile_def intro: decode_profile_settled split: if_splits json.splits)

text \<open>
  \<open>profile_survives_restart\<close>: whatever profile was loaded, writing it and starting again gives the same
  profile, apart from the trough of a bucket that has no samples, which the first sample overwrites.
\<close>

theorem profile_survives_restart:
  assumes "read_profile C f = Inr p" "size_bytes \<le> MAX_PROFILE_BYTES"
  shows "save p True = (True, Some (save_payload p)) \<and>
    load C (Decoded size_bytes (JObj (save_payload p))) preserved = Inr (p\<lparr>up_buckets := map settle (up_buckets p)\<rparr>)"
proof -
  have s: "profiler_settled p" using assms(1) by (rule read_profile_settled)
  have get: "get_or (save_payload p) ''buckets'' (JList []) = JList (map (\<lambda>b. JObj (bucket_to_dict b)) (up_buckets p))"
    "get_or (save_payload p) ''availability'' JNull = JObj (tracker_to_dict (up_availability p))"
    "dict_get (save_payload p) ''gpu_supported'' = Some (case up_gpu_supported p of None \<Rightarrow> JNull | Some b \<Rightarrow> JBool b)"
    by (simp_all add: save_payload_def get_or_def dict_get_def)
  have bs: "take BUCKETS (map (\<lambda>b. JObj (bucket_to_dict b)) (up_buckets p)) = map (\<lambda>b. JObj (bucket_to_dict b)) (up_buckets p)"
    using s by (simp add: profiler_settled_def)
  have lb: "load_buckets C g (map (\<lambda>b. JObj (bucket_to_dict b)) (up_buckets p)) (up_buckets new_profiler)
      = Inr (map settle (up_buckets p))" for g
    using s new_profiler_buckets(2) by (intro load_buckets_round_trip) (simp_all add: profiler_settled_def)
  have "decode_profile C (save_payload p) = Inr (p\<lparr>up_buckets := map settle (up_buckets p)\<rparr>)"
  proof -
    have "decode_profile C (save_payload p) = Inr (new_profiler\<lparr>up_buckets := map settle (up_buckets p),
        up_availability := up_availability p, up_gpu_supported := up_gpu_supported p\<rparr>)"
      using s unfolding decode_profile_def get
      by (cases "up_gpu_supported p") (simp_all add: Let_def bs lb tracker_round_trip profiler_settled_def)
    also have "new_profiler\<lparr>up_buckets := map settle (up_buckets p), up_availability := up_availability p,
        up_gpu_supported := up_gpu_supported p\<rparr> = p\<lparr>up_buckets := map settle (up_buckets p)\<rparr>"
      using s by (cases p) (simp add: profiler_settled_def new_profiler_def)
    finally show ?thesis .
  qed
  then show ?thesis using s assms(2) by (simp add: load_def read_profile_def save_def profiler_settled_def)
qed

end
