(* ===== verification/Governor.thy ===== *)
theory Governor imports Profiler "HOL-Library.Word" begin

unbundle bit_operations_syntax

text \<open>
  \<open>src/worker/idle.py\<close> and \<open>src/worker/governor.py\<close>: when a worker may run a job and when it must give
  the machine back. What the operating system reports is a record of readings, one for each call the
  code makes; the decisions are functions of the readings and the governor's state. The lemmas show that
  only a sustained demand makes a job yield, and that a job that was just admitted is not sent away again
  by the load it was admitted under.
\<close>

section \<open>The idle gate\<close>

text \<open>
  Windows counts milliseconds in 32 bits, so the difference of two tick counts wraps; \<open>GetLastInputInfo\<close>
  and \<open>GetSystemPowerStatus\<close> may fail. \<open>gt_gpu\<close> is the first GPU's utilisation, if there is one.
\<close>

record gate_reading =
  gt_ticks :: "32 word"
  gt_last_input :: "32 word option"
  gt_ac_line :: "nat option"
  gt_gpu :: "rat option"

record idle_gate =
  ig_input_idle_threshold_s :: rat
  ig_require_ac :: bool
  ig_gpu_busy_pct :: rat

definition default_gate :: "bool \<Rightarrow> idle_gate" where
  "default_gate require_ac = \<lparr>ig_input_idle_threshold_s = 60, ig_require_ac = require_ac, ig_gpu_busy_pct = 20\<rparr>"

definition input_idle_seconds_sample :: "gate_reading \<Rightarrow> rat option" where
  "input_idle_seconds_sample r =
     map_option (\<lambda>dwTime. max 0 (fl64 (of_nat (unat ((gt_ticks r - dwTime) AND 0xFFFFFFFF)) / 1000))) (gt_last_input r)"

definition input_idle_seconds :: "gate_reading \<Rightarrow> rat" where
  "input_idle_seconds r = (case input_idle_seconds_sample r of Some v \<Rightarrow> v | None \<Rightarrow> 1000000)"

definition on_ac_state :: "gate_reading \<Rightarrow> bool option" where
  "on_ac_state r = (case gt_ac_line r of None \<Rightarrow> None | Some v \<Rightarrow> if v \<in> {0, 1} then Some (v = 1) else None)"

definition on_ac :: "gate_reading \<Rightarrow> bool" where
  "on_ac r = (case on_ac_state r of Some v \<Rightarrow> v | None \<Rightarrow> True)"

definition locked :: bool where "locked = False"

definition user_idle_state :: "idle_gate \<Rightarrow> gate_reading \<Rightarrow> bool option" where
  "user_idle_state g r =
     (if locked then Some True else map_option (\<lambda>s. ig_input_idle_threshold_s g \<le> s) (input_idle_seconds_sample r))"

definition user_idle :: "idle_gate \<Rightarrow> gate_reading \<Rightarrow> bool" where
  "user_idle g r = (case user_idle_state g r of Some v \<Rightarrow> v | None \<Rightarrow> True)"

definition gpu_busy :: "idle_gate \<Rightarrow> gate_reading \<Rightarrow> bool" where
  "gpu_busy g r = (case gt_gpu r of None \<Rightarrow> False | Some u \<Rightarrow> ig_gpu_busy_pct g < u)"

definition gate_should_run :: "idle_gate \<Rightarrow> gate_reading \<Rightarrow> bool" where
  "gate_should_run g r \<longleftrightarrow> ig_input_idle_threshold_s g \<le> input_idle_seconds r \<and> (on_ac r \<or> \<not> ig_require_ac g) \<and>
     \<not> locked \<and> \<not> gpu_busy g r"

definition gate_active_now :: "gate_reading \<Rightarrow> bool" where
  "gate_active_now r \<longleftrightarrow> input_idle_seconds r < 1"

lemma elapsed_wraps: "unat ((now - before :: 32 word) AND 0xFFFFFFFF) = nat ((uint now - uint before) mod 2 ^ 32)"
proof -
  have "(now - before) AND 0xFFFFFFFF = now - before"
  proof -
    have "(0xFFFFFFFF :: 32 word) = - 1" by simp
    then show ?thesis by (simp only: and.right_neutral)
  qed
  then show ?thesis by (simp add: unat_eq_nat_uint uint_word_ariths)
qed

section \<open>The adaptive governor\<close>

record governor_params =
  margin_pct :: rat
  hard_ceiling_pct :: rat
  yield_ceiling_pct :: rat
  hysteresis_pct :: rat
  min_headroom_pct :: rat
  sustained_samples :: nat
  gpu_yield_pct :: rat
  require_ac :: bool

definition default_params :: governor_params where
  "default_params = \<lparr>margin_pct = 25, hard_ceiling_pct = 80, yield_ceiling_pct = 95, hysteresis_pct = 10,
     min_headroom_pct = 15, sustained_samples = 3, gpu_yield_pct = 40, require_ac = True\<rparr>"

text \<open>\<open>last_decision\<close>; its figures are rounded to one decimal by the platform.\<close>

datatype decision = NoDecision | Refused str | Decided bool rat rat rat

record governor =
  gv_params :: governor_params
  gv_gate :: idle_gate
  gv_profiler :: usage_profiler
  gv_our_job_uses_gpu :: bool
  gv_over :: nat
  gv_ticks :: cpu_ticks
  gv_last_decision :: decision

text \<open>
  One decision's readings: \<open>psutil\<close>'s system CPU if it works, the tick counters otherwise, the CPU of the
  worker's child processes (a process that vanished gives none), GPU and memory load, and the gate's.
  \<open>rd_gate 0\<close> is read for the decision, \<open>rd_gate 1\<close> for the record; \<open>rd_now k\<close> is the \<open>k\<close>th look at the clock.
\<close>

record reading =
  rd_psutil :: "rat option"
  rd_cpu_ticks :: cpu_ticks
  rd_children :: "rat option list option"
  rd_cpu_count :: "nat option"
  rd_gpu :: "rat option"
  rd_ram :: "rat option"
  rd_gate :: "nat \<Rightarrow> gate_reading"
  rd_now :: "nat \<Rightarrow> local_time"
  rd_round1 :: "rat \<Rightarrow> rat"

definition system_cpu_sample :: "reading \<Rightarrow> governor \<Rightarrow> governor \<times> rat option" where
  "system_cpu_sample r g =
     (case rd_psutil r of
        Some v \<Rightarrow> (g, Some v)
      | None \<Rightarrow> (let (ticks, v) = cpu_sample (gv_ticks g) (rd_cpu_ticks r) in (g\<lparr>gv_ticks := ticks\<rparr>, v)))"

definition system_cpu :: "reading \<Rightarrow> governor \<Rightarrow> governor \<times> rat" where
  "system_cpu r g = (let (g', v) = system_cpu_sample r g in (g', case v of Some x \<Rightarrow> x | None \<Rightarrow> 0))"

definition our_cpu :: "reading \<Rightarrow> rat" where
  "our_cpu r =
     (case rd_children r of
        None \<Rightarrow> 0
      | Some children \<Rightarrow>
          min 100 (fdiv (fold (\<lambda>c acc. case c of None \<Rightarrow> acc | Some x \<Rightarrow> fadd acc x) children 0)
            (of_nat (case rd_cpu_count r of None \<Rightarrow> 1 | Some n \<Rightarrow> if n = 0 then 1 else n))))"

definition user_cpu :: "reading \<Rightarrow> governor \<Rightarrow> governor \<times> rat" where
  "user_cpu r g = (let (g', v) = system_cpu r g in (g', max 0 (min 100 (fsub v (our_cpu r)))))"

definition note_job :: "governor \<Rightarrow> bool \<Rightarrow> governor" where
  "note_job g needs_gpu = g\<lparr>gv_our_job_uses_gpu := needs_gpu\<rparr>"

definition user_gpu :: "reading \<Rightarrow> governor \<Rightarrow> rat" where
  "user_gpu r g = (if gv_our_job_uses_gpu g then 0 else case rd_gpu r of Some v \<Rightarrow> v | None \<Rightarrow> 0)"

definition admission_threshold :: "governor \<Rightarrow> local_time \<Rightarrow> rat" where
  "admission_threshold g now = min (hard_ceiling_pct (gv_params g))
     (fadd (st_cpu_mean (profile_now (gv_profiler g) now)) (margin_pct (gv_params g)))"

definition yield_threshold :: "governor \<Rightarrow> local_time \<Rightarrow> rat" where
  "yield_threshold g now = min (yield_ceiling_pct (gv_params g))
     (fadd (admission_threshold g now) (hysteresis_pct (gv_params g)))"

definition headroom_now :: "governor \<Rightarrow> local_time \<Rightarrow> rat" where
  "headroom_now g now =
     max 0 (fsub (fsub 100 (st_cpu_mean (profile_now (gv_profiler g) now))) (margin_pct (gv_params g)))"

definition or_zero :: "rat option \<Rightarrow> rat" where
  "or_zero v = (case v of Some x \<Rightarrow> x | None \<Rightarrow> 0)"

definition observe :: "reading \<Rightarrow> governor \<Rightarrow> governor" where
  "observe r g =
     (let (g1, demand) = user_cpu r g
      in g1\<lparr>gv_profiler := record_usage (gv_profiler g1)
           \<lparr>ob_cpu = Fin demand, ob_gpu = Some (Fin (or_zero (rd_gpu r))), ob_ram = Fin (or_zero (rd_ram r)),
            ob_at = rd_now r 0, ob_on_ac = Some (on_ac (rd_gate r 0)),
            ob_idle = Some (user_idle (gv_gate g) (rd_gate r 0))\<rparr>\<rparr>)"

text \<open>\<open>should_run\<close>: decides against the profile as it is, then folds the sample in.\<close>

definition should_run :: "reading \<Rightarrow> governor \<Rightarrow> governor \<times> bool" where
  "should_run r g =
     (if require_ac (gv_params g) \<and> \<not> on_ac (rd_gate r 0)
      then (g\<lparr>gv_last_decision := Refused ''on_battery''\<rparr>, False)
      else if locked \<or> gpu_busy (gv_gate g) (rd_gate r 0)
      then (g\<lparr>gv_last_decision := Refused ''locked_or_gpu''\<rparr>, False)
      else
        (let headroom = headroom_now g (rd_now r 0);
             threshold = admission_threshold g (rd_now r 1);
             (g1, demand) = user_cpu r g;
             p = record_usage (gv_profiler g1)
                   \<lparr>ob_cpu = Fin demand, ob_gpu = map_option Fin (rd_gpu r), ob_ram = Fin (or_zero (rd_ram r)),
                    ob_at = rd_now r 2, ob_on_ac = Some (on_ac (rd_gate r 1)),
                    ob_idle = Some (user_idle (gv_gate g) (rd_gate r 1))\<rparr>;
             admitted = (min_headroom_pct (gv_params g) \<le> headroom \<and> demand < threshold)
         in (g1\<lparr>gv_profiler := p,
                gv_last_decision := Decided admitted (rd_round1 r demand) (rd_round1 r headroom) (rd_round1 r threshold)\<rparr>,
             admitted)))"

definition active_now :: "reading \<Rightarrow> governor \<Rightarrow> governor \<times> bool" where
  "active_now r g =
     (let (g1, demand) = user_cpu r g;
          cpu_spike = (yield_threshold g (rd_now r 0) < demand);
          gpu_spike = (gpu_yield_pct (gv_params g) < user_gpu r g);
          over = (if cpu_spike \<or> gpu_spike then gv_over g1 + 1 else 0)
      in (g1\<lparr>gv_over := over\<rparr>, sustained_samples (gv_params g) \<le> over))"

definition available_now :: "reading \<Rightarrow> governor \<Rightarrow> governor \<times> bool" where
  "available_now r g =
     (if require_ac (gv_params g) \<and> \<not> on_ac (rd_gate r 0) then (g, False)
      else if locked \<or> gpu_busy (gv_gate g) (rd_gate r 0) then (g, False)
      else if min_headroom_pct (gv_params g) \<le> headroom_now g (rd_now r 0)
      then (let (g1, demand) = user_cpu r g in (g1, demand < admission_threshold g (rd_now r 1)))
      else (g, False))"

section \<open>Polling and admission leave the profile alone or add one sample\<close>

lemma user_cpu_state [simp]:
  "gv_profiler (fst (user_cpu r g)) = gv_profiler g" "gv_over (fst (user_cpu r g)) = gv_over g"
  "gv_params (fst (user_cpu r g)) = gv_params g" "gv_gate (fst (user_cpu r g)) = gv_gate g"
  "gv_our_job_uses_gpu (fst (user_cpu r g)) = gv_our_job_uses_gpu g"
  by (simp_all add: user_cpu_def system_cpu_def system_cpu_sample_def split: option.split prod.split)

lemma user_cpu_pct: "pct (snd (user_cpu r g))"
  by (simp add: user_cpu_def split: prod.split) (simp add: pct_def)

lemma user_cpu_exact: "f64.exact (snd (user_cpu r g))"
  by (simp add: user_cpu_def fsub_def max_def min_def f64.exact_numeral split: prod.split)

lemma active_now_profile: "gv_profiler (fst (active_now r g)) = gv_profiler g" "gv_params (fst (active_now r g)) = gv_params g"
  by (simp_all add: active_now_def Let_def split: prod.split)
    (metis user_cpu_state(1,3) fst_conv)+

lemma available_now_mirrors:
  "snd (available_now r g) = snd (should_run r g)" "gv_profiler (fst (available_now r g)) = gv_profiler g"
  by (simp_all add: available_now_def should_run_def Let_def split: prod.split)
    (metis user_cpu_state(1) fst_conv)+

section \<open>Only a sustained demand makes a job yield\<close>

text \<open>The watcher of \<open>worker/agent.py\<close> polls while a job runs and raises the yield flag on the first yes.\<close>

fun watch :: "reading list \<Rightarrow> governor \<Rightarrow> governor \<times> bool" where
  "watch [] g = (g, False)"
| "watch (r # rs) g =
     (let (g1, yield_now) = active_now r g; (g2, later) = watch rs g1 in (g2, yield_now \<or> later))"

text \<open>Whether a poll sees the employee's demand over the line, and the sequence of these along a run.\<close>

definition over_demand :: "reading \<Rightarrow> governor \<Rightarrow> bool" where
  "over_demand r g \<longleftrightarrow> yield_threshold g (rd_now r 0) < snd (user_cpu r g) \<or>
     gpu_yield_pct (gv_params g) < user_gpu r g"

fun demand_trace :: "reading list \<Rightarrow> governor \<Rightarrow> bool list" where
  "demand_trace [] g = []"
| "demand_trace (r # rs) g = over_demand r g # demand_trace rs (fst (active_now r g))"

lemma length_demand_trace [simp]: "length (demand_trace rs g) = length rs"
  by (induction rs arbitrary: g) auto

lemma active_now_over:
  "gv_over (fst (active_now r g)) = (if over_demand r g then gv_over g + 1 else 0)"
  "snd (active_now r g) = (sustained_samples (gv_params g) \<le> (if over_demand r g then gv_over g + 1 else 0))"
proof -
  obtain g1 d where u: "user_cpu r g = (g1, d)" by fastforce
  then have "gv_over g1 = gv_over g" using user_cpu_state(2) [of r g] by simp
  then show "gv_over (fst (active_now r g)) = (if over_demand r g then gv_over g + 1 else 0)"
    "snd (active_now r g) = (sustained_samples (gv_params g) \<le> (if over_demand r g then gv_over g + 1 else 0))"
    by (simp_all add: active_now_def over_demand_def u Let_def)
qed

fun tripped :: "nat \<Rightarrow> nat \<Rightarrow> bool list \<Rightarrow> bool" where
  "tripped k n [] = False"
| "tripped k n (b # bs) = (let n' = (if b then n + 1 else 0) in k \<le> n' \<or> tripped k n' bs)"

lemma watch_Cons:
  "snd (watch (r # rs) g) = (snd (active_now r g) \<or> snd (watch rs (fst (active_now r g))))"
  "fst (watch (r # rs) g) = fst (watch rs (fst (active_now r g)))"
  by (simp_all split: prod.split)

lemma watch_tripped: "snd (watch rs g) = tripped (sustained_samples (gv_params g)) (gv_over g) (demand_trace rs g)"
proof (induction rs arbitrary: g)
  case (Cons r rs)
  show ?case
    unfolding watch_Cons demand_trace.simps tripped.simps Let_def Cons.IH active_now_over active_now_profile ..
qed simp

lemma watch_profile: "gv_profiler (fst (watch rs g)) = gv_profiler g"
proof (induction rs arbitrary: g)
  case (Cons r rs)
  show ?case unfolding watch_Cons Cons.IH active_now_profile ..
qed simp

section \<open>An admitted job is not sent away by the load it was admitted under\<close>

lemma fl64_close: "\<bar>x\<bar> \<le> 200 \<Longrightarrow> \<bar>fl64 x - x\<bar> \<le> 1"
proof -
  assume x: "\<bar>x\<bar> \<le> 200"
  have "\<bar>x\<bar> * 2 powi (-53) \<le> 200 * 2 powi (-53)" using x by (intro mult_right_mono) auto
  moreover have "200 * 2 powi (-53) \<le> (1/2 :: rat)" by (simp add: power_int_minus)
  moreover have "(2::rat) powi (-1075) \<le> 2 powi (-1)" by (rule two_powi_mono) simp
  then have "(2::rat) powi (-1075) \<le> 1/2" by (simp add: power_int_minus)
  ultimately show ?thesis using fl64_rel_error [of x] by linarith
qed

lemma alpha_bounds: "4/100 \<le> EWMA_ALPHA" "EWMA_ALPHA \<le> 6/100" "94/100 \<le> fsub 1 EWMA_ALPHA" "fsub 1 EWMA_ALPHA \<le> 96/100"
  unfolding EWMA_ALPHA_def fsub_def by code_simp+

text \<open>The new mean is not much below the sample, whatever the old one was.\<close>

lemma ewma_near:
  assumes "0 \<le> m" "m \<le> 100" "0 \<le> d" "d \<le> 100" "f64.exact d" "d < fadd m 25"
  shows "d \<le> fadd (fadd (ewma m d n) 25) 10"
proof (cases "n \<le> 0")
  case True
  have "d \<le> fadd d 25" unfolding fadd_def using assms by (intro f64.rnd_ge) auto
  moreover have "fadd d 25 \<le> fadd (fadd d 25) 10" unfolding fadd_def by (intro f64.rnd_ge) auto
  ultimately show ?thesis using True by (simp add: ewma_def)
next
  case False
  let ?a = "fsub 1 EWMA_ALPHA"
  define p where "p = fmul ?a m"
  define q where "q = fmul EWMA_ALPHA d"
  define e where "e = fadd p q"
  have am: "94/100 * m \<le> ?a * m" "?a * m \<le> 96/100 * m" and bd: "4/100 * d \<le> EWMA_ALPHA * d" "EWMA_ALPHA * d \<le> 6/100 * d"
    using mult_right_mono [OF alpha_bounds(3) assms(1)] mult_right_mono [OF alpha_bounds(4) assms(1)]
      mult_right_mono [OF alpha_bounds(1) assms(3)] mult_right_mono [OF alpha_bounds(2) assms(3)] by simp_all
  have p: "\<bar>p - ?a * m\<bar> \<le> 1" unfolding p_def fmul_def using am assms by (intro fl64_close) auto
  have q: "\<bar>q - EWMA_ALPHA * d\<bar> \<le> 1" unfolding q_def fmul_def using bd assms by (intro fl64_close) auto
  have e: "\<bar>e - (p + q)\<bar> \<le> 1" unfolding e_def fadd_def using p q am bd assms by (intro fl64_close) auto
  have f: "\<bar>fadd e 25 - (e + 25)\<bar> \<le> 1" unfolding fadd_def using e p q am bd assms by (intro fl64_close) auto
  have g: "\<bar>fadd (fadd e 25) 10 - (fadd e 25 + 10)\<bar> \<le> 1"
    unfolding fadd_def [of "fadd e 25"] using f e p q am bd assms by (intro fl64_close) auto
  have h: "\<bar>fadd m 25 - (m + 25)\<bar> \<le> 1" unfolding fadd_def using assms by (intro fl64_close) auto
  have "d \<le> fadd (fadd e 25) 10" using assms am bd p q e f g h by linarith
  then show ?thesis using False by (simp add: ewma_def p_def q_def e_def)
qed

lemma user_cpu_psutil: "rd_psutil r \<noteq> None \<Longrightarrow> user_cpu r g = (g, snd (user_cpu r h))"
  by (auto simp: user_cpu_def system_cpu_def system_cpu_sample_def)

lemma active_now_note: "gv_our_job_uses_gpu (fst (active_now r g)) = gv_our_job_uses_gpu g"
  by (simp add: active_now_def Let_def case_prod_unfold)

lemma quiet_polls:
  assumes "\<And>r h. r \<in> set rs \<Longrightarrow> gv_profiler h = gv_profiler g \<Longrightarrow> gv_params h = gv_params g \<Longrightarrow>
      gv_our_job_uses_gpu h = gv_our_job_uses_gpu g \<Longrightarrow> \<not> over_demand r h"
    and "0 < sustained_samples (gv_params g)"
  shows "\<not> snd (watch rs g)"
  using assms
proof (induction rs arbitrary: g)
  case (Cons r rs)
  have "\<not> over_demand r g" using Cons.prems by simp
  then have "\<not> snd (active_now r g)" using Cons.prems(2) by (simp add: active_now_over)
  moreover have "\<not> snd (watch rs (fst (active_now r g)))"
    using Cons.prems by (intro Cons.IH) (simp_all add: active_now_profile active_now_note)
  ultimately show ?case unfolding watch_Cons by simp
qed simp

text \<open>The bucket a sample was folded into.\<close>

lemma profile_now_record:
  assumes "profiler_ok p" "bucket_index now = bucket_index (ob_at ob)" "ob_cpu ob = Fin d" "pct d"
  shows "\<exists>n. st_cpu_mean (profile_now (record_usage p ob) now) = ewma (st_cpu_mean (profile_now p now)) d n"
proof -
  have "bucket_index now < length (up_buckets p)" using assms(1) bucket_index_less by (simp add: profiler_ok_def)
  moreover have "percent_float (Fin d) = d" using assms(4) by (simp add: percent_float_def pct_def)
  moreover have "ewma x d 0 = ewma y d 0" for x y by (simp add: ewma_def)
  ultimately show ?thesis using assms
    by (auto simp: profile_now_def record_usage_def Let_def bucket_record_def new_bucket_def split: prod.split)
qed

lemma profile_now_pct: "profiler_ok p \<Longrightarrow> pct (st_cpu_mean (profile_now p now))"
  using bucket_index_less by (auto simp: profiler_ok_def profile_now_def list_all_length stat_ok_def)

lemma should_run_True:
  assumes "should_run r g = (g', True)"
  shows "snd (user_cpu r g) < admission_threshold g (rd_now r 1)" "min_headroom_pct (gv_params g) \<le> headroom_now g (rd_now r 0)"
    "require_ac (gv_params g) \<Longrightarrow> on_ac (rd_gate r 0)" "\<not> gpu_busy (gv_gate g) (rd_gate r 0)"
    "gv_params g' = gv_params g"
    "gv_profiler g' = record_usage (gv_profiler g)
       \<lparr>ob_cpu = Fin (snd (user_cpu r g)), ob_gpu = map_option Fin (rd_gpu r), ob_ram = Fin (or_zero (rd_ram r)),
        ob_at = rd_now r 2, ob_on_ac = Some (on_ac (rd_gate r 1)), ob_idle = Some (user_idle (gv_gate g) (rd_gate r 1))\<rparr>"
proof -
  obtain g1 d where u: "user_cpu r g = (g1, d)" by fastforce
  then have g1: "gv_params g1 = gv_params g" "gv_profiler g1 = gv_profiler g"
    using user_cpu_state(1,3) [of r g] by simp_all
  show "snd (user_cpu r g) < admission_threshold g (rd_now r 1)" "min_headroom_pct (gv_params g) \<le> headroom_now g (rd_now r 0)"
    "require_ac (gv_params g) \<Longrightarrow> on_ac (rd_gate r 0)" "\<not> gpu_busy (gv_gate g) (rd_gate r 0)" "gv_params g' = gv_params g"
    "gv_profiler g' = record_usage (gv_profiler g)
       \<lparr>ob_cpu = Fin (snd (user_cpu r g)), ob_gpu = map_option Fin (rd_gpu r), ob_ram = Fin (or_zero (rd_ram r)),
        ob_at = rd_now r 2, ob_on_ac = Some (on_ac (rd_gate r 1)), ob_idle = Some (user_idle (gv_gate g) (rd_gate r 1))\<rparr>"
    using assms g1 by (auto simp: should_run_def u Let_def split: if_splits)
qed

text \<open>With polls counted before the first of the run: a full window that ends at a poll of the run.\<close>

lemma tripped_carried:
  assumes "0 < k"
  shows "tripped k n bs \<longleftrightarrow>
    (\<exists>i. n < i + k \<and> i + k \<le> n + length bs \<and> (\<forall>j<k. (replicate n True @ bs) ! (i + j)))"
proof (induction bs arbitrary: n)
  case (Cons b bs)
  let ?run = "\<lambda>i. \<forall>j<k. (replicate n True @ b # bs) ! (i + j)"
  show ?case
  proof (cases b)
    case True
    have shift: "replicate n True @ b # bs = replicate (n + 1) True @ bs"
      using True by (simp add: replicate_app_Cons_same)
    show ?thesis
    proof (cases "k \<le> n + 1")
      case full: True
      have "?run (n + 1 - k)"
      proof (intro allI impI)
        fix j assume "j < k"
        then have "n + 1 - k + j < n + 1" using full by simp
        then show "(replicate n True @ b # bs) ! (n + 1 - k + j)"
          unfolding shift by (simp only: nth_append length_replicate if_True nth_replicate)
      qed
      then have "\<exists>i. n < i + k \<and> i + k \<le> n + length (b # bs) \<and> ?run i"
        using full assms by (intro exI [of _ "n + 1 - k"]) auto
      then show ?thesis using True full by (simp add: Let_def)
    next
      case False
      have "(n + 1 < i + k) = (n < i + k)" for i using False by auto
      then show ?thesis using True False Cons.IH [of "n + 1"] unfolding shift by (simp add: Let_def)
    qed
  next
    case False
    have late: "n < i" if "n < i + k" "?run i" for i
    proof (rule ccontr)
      assume "\<not> n < i"
      then have "(replicate n True @ b # bs) ! (i + (n - i))" using that by (intro that(2) [rule_format]) auto
      then show False using False \<open>\<not> n < i\<close> by (simp add: nth_append)
    qed
    have "(\<exists>i. n < i + k \<and> i + k \<le> n + length (b # bs) \<and> ?run i) \<longleftrightarrow>
        (\<exists>i. i + k \<le> length bs \<and> (\<forall>j<k. bs ! (i + j)))" (is "?L \<longleftrightarrow> ?R")
    proof
      assume ?L
      then obtain i where i: "n < i + k" "i + k \<le> n + length (b # bs)" "?run i" by blast
      from late [OF i(1,3)] obtain i' where "i = n + Suc i'" by (metis less_imp_Suc_add add_Suc_right)
      then show ?R using i(2,3) by (intro exI [of _ i']) (simp add: nth_append)
    next
      assume ?R
      then obtain i where "i + k \<le> length bs" "\<forall>j<k. bs ! (i + j)" by blast
      then show ?L using assms by (intro exI [of _ "n + Suc i"]) (auto simp: nth_append)
    qed
    then show ?thesis using False Cons.IH [of 0] assms by (auto simp: Let_def)
  qed
qed simp

text \<open>C33.
  The watcher of a running job raises the yield flag exactly when the employee's demand (CPU beyond the
  yield threshold, or GPU beyond its line while the job itself uses no GPU) was seen in as many polls in a
  row as the governor is set to wait for, the last of them a poll of this job; the polls over the line
  right before it, which the governor still counts (\<open>gv_over\<close>, never reset between jobs), count too. From a
  count of zero a shorter spike never does. Polling leaves the learned profile as it was.
\<close>
theorem yields_only_on_sustained_demand:
  assumes "0 < sustained_samples (gv_params g)"
  shows "(snd (watch rs g) \<longleftrightarrow> (\<exists>i. gv_over g < i + sustained_samples (gv_params g) \<and>
        i + sustained_samples (gv_params g) \<le> gv_over g + length rs \<and>
        list_all (\<lambda>j. (replicate (gv_over g) True @ demand_trace rs g) ! (i + j)) [0..<sustained_samples (gv_params g)])) \<and>
    gv_profiler (fst (watch rs g)) = gv_profiler g"
  using tripped_carried [OF assms, of "gv_over g" "demand_trace rs g"]
  by (simp add: watch_tripped watch_profile list_all_iff Ball_def)

text \<open>
  The count survives the end of a job: neither admitting the next one nor noting it resets it. After a job
  that yielded, a single poll over the line makes the next job yield.
\<close>

lemma count_survives_jobs: "gv_over (fst (should_run r g)) = gv_over g" "gv_over (note_job g b) = gv_over g"
  using user_cpu_state(2) [of r g]
  by (cases "user_cpu r g"; simp add: should_run_def note_job_def Let_def)+

lemma one_poll_after_a_yield:
  assumes "sustained_samples (gv_params g) \<le> gv_over g + 1" "over_demand r g"
  shows "snd (watch [r] g)"
  unfolding watch_tripped using assms by simp

text \<open>C32.
  Admission and yielding do not flap: with the settings the code ships, a job that was just admitted is
  not asked to yield by any number of later polls in the same hour of the week that see no more CPU demand
  than there was at admission and a quiet GPU, although the admitting sample has changed the learned
  profile and every step rounds.
\<close>
theorem admitted_job_keeps_running:
  assumes "profiler_ok (gv_profiler g)" "gv_params g = default_params" "should_run r g = (g', True)"
    and "bucket_index (rd_now r 2) = bucket_index (rd_now r 1)"
    and "list_all (\<lambda>r'. rd_psutil r' \<noteq> None \<and> snd (user_cpu r' g) \<le> snd (user_cpu r g) \<and>
           (needs_gpu \<or> or_zero (rd_gpu r') \<le> 40) \<and> bucket_index (rd_now r' 0) = bucket_index (rd_now r 1)) rs"
  shows "\<not> snd (watch rs (note_job g' needs_gpu))"
proof (rule quiet_polls)
  note sr = should_run_True [OF assms(3)]
  define d where "d = snd (user_cpu r g)"
  define m where "m = st_cpu_mean (profile_now (gv_profiler g) (rd_now r 1))"
  have d: "pct d" "f64.exact d" unfolding d_def by (rule user_cpu_pct user_cpu_exact)+
  have m: "pct m" unfolding m_def using assms(1) by (rule profile_now_pct)
  have lt: "d < min 80 (fadd m 25)"
    using sr(1) assms(2) by (simp add: admission_threshold_def default_params_def d_def m_def)
  show "0 < sustained_samples (gv_params (note_job g' needs_gpu))"
    using sr(5) assms(2) by (simp add: note_job_def default_params_def)
  fix r' :: reading and h :: governor
  assume r': "r' \<in> set rs" and h: "gv_profiler h = gv_profiler (note_job g' needs_gpu)"
    "gv_params h = gv_params (note_job g' needs_gpu)" "gv_our_job_uses_gpu h = gv_our_job_uses_gpu (note_job g' needs_gpu)"
  then have r'': "rd_psutil r' \<noteq> None" "snd (user_cpu r' g) \<le> d" "needs_gpu \<or> or_zero (rd_gpu r') \<le> 40"
    "bucket_index (rd_now r' 0) = bucket_index (rd_now r 1)"
    using assms(5) by (auto simp: list_all_iff d_def)
  have ph: "gv_params h = default_params" using h(2) sr(5) assms(2) by (simp add: note_job_def)
  have pr: "gv_profiler h = record_usage (gv_profiler g)
       \<lparr>ob_cpu = Fin d, ob_gpu = map_option Fin (rd_gpu r), ob_ram = Fin (or_zero (rd_ram r)),
        ob_at = rd_now r 2, ob_on_ac = Some (on_ac (rd_gate r 1)), ob_idle = Some (user_idle (gv_gate g) (rd_gate r 1))\<rparr>"
    using h(1) sr(6) by (simp add: note_job_def d_def)
  have "profile_now (gv_profiler g) (rd_now r' 0) = profile_now (gv_profiler g) (rd_now r 1)"
    using r''(4) by (simp add: profile_now_def)
  then obtain n where n: "st_cpu_mean (profile_now (gv_profiler h) (rd_now r' 0)) = ewma m d n"
    using profile_now_record [OF assms(1) _ _ d(1), of "rd_now r' 0"] r''(4) assms(4) unfolding pr m_def by fastforce
  have "d \<le> fadd (fadd (ewma m d n) 25) 10" using m d lt by (intro ewma_near) (auto simp: pct_def)
  moreover have "d \<le> fadd 80 10" using lt by (simp add: fadd_def)
  moreover have "d \<le> 95" using lt by simp
  ultimately have "d \<le> yield_threshold h (rd_now r' 0)"
    using lt by (simp add: yield_threshold_def admission_threshold_def ph n default_params_def min_def)
  moreover have "snd (user_cpu r' h) \<le> d" using r''(1,2) user_cpu_psutil [of r' h g] by simp
  moreover have "user_gpu r' h \<le> 40"
    using r''(3) h(3) by (auto simp: user_gpu_def note_job_def or_zero_def)
  ultimately show "\<not> over_demand r' h" by (simp add: over_demand_def ph) (simp add: default_params_def)
qed

definition demo_reading :: "rat \<Rightarrow> reading" where
  "demo_reading cpu =
     \<lparr>rd_psutil = Some cpu, rd_cpu_ticks = None, rd_children = Some [], rd_cpu_count = Some 8, rd_gpu = None,
      rd_ram = Some 40,
      rd_gate = (\<lambda>_. \<lparr>gt_ticks = 5, gt_last_input = Some 4294967290, gt_ac_line = Some 1, gt_gpu = None\<rparr>),
      rd_now = (\<lambda>_. \<lparr>lt_weekday = 1, lt_hour = 9, lt_timestamp = 1000\<rparr>), rd_round1 = (\<lambda>x. x)\<rparr>"

definition demo_governor :: governor where
  "demo_governor = \<lparr>gv_params = default_params, gv_gate = default_gate True, gv_profiler = new_profiler,
     gv_our_job_uses_gpu = False, gv_over = 0, gv_ticks = None, gv_last_decision = NoDecision\<rparr>"

lemma demo_user_cpu: "pct x \<Longrightarrow> f64.exact x \<Longrightarrow> user_cpu (demo_reading x) g = (g, x)"
  by (simp add: user_cpu_def system_cpu_def system_cpu_sample_def demo_reading_def our_cpu_def fsub_def fdiv_def
      pct_def f64.exact_def)

lemma demo_admitted: "snd (should_run (demo_reading 10) demo_governor)"
proof -
  have m: "st_cpu_mean (profile_now new_profiler now) = 0" for now
    using bucket_index_less [of now] by (simp add: profile_now_def new_profiler_def new_bucket_def)
  have u: "user_cpu (demo_reading 10) demo_governor = (demo_governor, 10)"
    by (rule demo_user_cpu) (simp_all add: pct_def f64.exact_numeral)
  show ?thesis unfolding should_run_def u Let_def
    by (simp add: demo_governor_def demo_reading_def default_params_def default_gate_def on_ac_def on_ac_state_def
        gpu_busy_def locked_def headroom_now_def admission_threshold_def m fsub_def fadd_def)
qed

lemma admitted_job_keeps_running_witness:
  "\<not> snd (watch [demo_reading 10, demo_reading 4, demo_reading 7]
     (note_job (fst (should_run (demo_reading 10) demo_governor)) False))"
proof (rule admitted_job_keeps_running [of demo_governor "demo_reading 10"])
  show "profiler_ok (gv_profiler demo_governor)"
    using new_bucket_ok fresh_tracker_ok
    by (simp add: profiler_ok_def demo_governor_def new_profiler_def list_all_iff)
  show "should_run (demo_reading 10) demo_governor = (fst (should_run (demo_reading 10) demo_governor), True)"
    using demo_admitted by (metis prod.collapse)
  show "list_all (\<lambda>r'. rd_psutil r' \<noteq> None \<and>
      snd (user_cpu r' demo_governor) \<le> snd (user_cpu (demo_reading 10) demo_governor) \<and>
      (False \<or> or_zero (rd_gpu r') \<le> 40) \<and> bucket_index (rd_now r' 0) = bucket_index (rd_now (demo_reading 10) 1))
     [demo_reading 10, demo_reading 4, demo_reading 7]"
    by (simp add: demo_user_cpu pct_def f64.exact_numeral) (simp add: demo_reading_def or_zero_def)
qed (simp_all add: demo_governor_def demo_reading_def)

lemma yields_only_on_sustained_demand_witness:
  "snd (watch [demo_reading 90, demo_reading 90, demo_reading 90] demo_governor) \<longleftrightarrow>
     (\<exists>i. 0 < i + 3 \<and> i + 3 \<le> (3 :: nat) \<and> list_all (\<lambda>j. demand_trace [demo_reading 90, demo_reading 90, demo_reading 90]
        demo_governor ! (i + j)) [0..<3])"
  using yields_only_on_sustained_demand [of demo_governor "[demo_reading 90, demo_reading 90, demo_reading 90]"]
  by (simp add: demo_governor_def default_params_def)

end
