(* ===== verification/Agent.thy ===== *)
theory Agent imports Isolation Governor Trust begin

text \<open>
  \<open>src/worker/agent.py\<close>: the worker's side of the control plane. The agent registers, waits for approval,
  polls, verifies an assignment, runs it in process or behind an isolation boundary and reports. What the
  orchestrator answers, the clock and what a boundary does are parameters of the operation that needs
  them; pacing, logging and the HTTP client's transports are left out. Results carry the places where the
  job's code was started. The lemmas show that unverified work is refused before anything runs.
\<close>

section \<open>State and replies\<close>

record agent =
  ag_worker_id :: str
  ag_capability :: capability
  ag_verify :: bool
  ag_isolated :: bool
  ag_require_isolation :: bool
  ag_trusted_public_key_hex :: "str option"
  ag_measurement_only :: bool
  ag_yield :: bool
  ag_job_running :: bool
  ag_worker_token :: "str option"
  ag_registered :: bool
  ag_approved :: bool
  ag_device_code :: "str option"
  ag_active_gate :: "governor option"

text \<open>\<open>Malformed\<close>: a body that does not parse into the expected model.\<close>

datatype 'a reply = Answer 'a | NoContent | StatusError nat | NetworkError | Malformed

definition clear_registration :: "agent \<Rightarrow> agent" where
  "clear_registration a =
     a\<lparr>ag_worker_token := None, ag_registered := False, ag_approved := False, ag_device_code := None\<rparr>"

section \<open>Joining the fleet\<close>

definition registration_capability :: "agent \<Rightarrow> capability" where
  "registration_capability a =
     (if ag_measurement_only a
      then (default_capability (ag_worker_id a))\<lparr>cap_measurement_only := True\<rparr> else ag_capability a)"

definition agent_register :: "register_response reply \<Rightarrow> agent \<Rightarrow> agent \<times> bool" where
  "agent_register rep a =
     (case rep of
        Answer r \<Rightarrow>
          (a\<lparr>ag_worker_token := Some (rr_worker_token r), ag_approved := rr_approved r,
             ag_device_code := rr_device_code r, ag_registered := True\<rparr>, True)
      | _ \<Rightarrow> (clear_registration a, False))"

definition heartbeat_request_of ::
  "agent \<Rightarrow> str option \<Rightarrow> rat \<Rightarrow> rat option \<Rightarrow> bool option \<Rightarrow> rat option \<Rightarrow> heartbeat_request" where
  "heartbeat_request_of a current_job_id cpu_pct gpu_pct idle free_ram_gb =
     (let busy = ((case current_job_id of None \<Rightarrow> False | Some j \<Rightarrow> j \<noteq> []) \<or> ag_job_running a);
          idle_now = (case idle of None \<Rightarrow> \<not> busy | Some i \<Rightarrow> i)
      in if ag_measurement_only a
         then \<lparr>hb_worker_id = ag_worker_id a, hb_idle = True, hb_cpu_pct = 0, hb_gpu_pct = None, hb_on_ac = True,
               hb_free_ram_gb = None, hb_current_job_id = None\<rparr>
         else \<lparr>hb_worker_id = ag_worker_id a, hb_idle = idle_now, hb_cpu_pct = cpu_pct, hb_gpu_pct = gpu_pct,
               hb_on_ac = True, hb_free_ram_gb = free_ram_gb, hb_current_job_id = current_job_id\<rparr>)"

text \<open>A refused token drops the registration; any failure answers with the approval known so far.\<close>

definition agent_heartbeat :: "heartbeat_response reply \<Rightarrow> agent \<Rightarrow> agent \<times> heartbeat_response" where
  "agent_heartbeat rep a =
     (case rep of
        Answer r \<Rightarrow> (if hr_preempt r then a\<lparr>ag_yield := True\<rparr> else a, r)
      | StatusError c \<Rightarrow>
          (let a' = (if c \<in> {401, 403} then clear_registration a else a)
           in (a', \<lparr>hr_ack = False, hr_preempt = False, hr_approved = ag_approved a'\<rparr>))
      | _ \<Rightarrow> (a, \<lparr>hr_ack = False, hr_preempt = False, hr_approved = ag_approved a\<rparr>))"

definition ensure_measurement_enrollment ::
  "register_response reply \<Rightarrow> heartbeat_response reply \<Rightarrow> agent \<Rightarrow> agent \<times> bool" where
  "ensure_measurement_enrollment rg hb a =
     (let (a1, ok) = (if ag_registered a then (a, True) else agent_register rg a)
      in if \<not> ok then (a1, False)
         else if ag_approved a1 then (a1, True)
         else (let (a2, r) = agent_heartbeat hb a1;
                   a3 = (if hr_ack r \<and> hr_approved r then a2\<lparr>ag_approved := True, ag_device_code := None\<rparr> else a2)
               in (a3, ag_approved a3)))"

text \<open>\<open>wait_for_approval\<close>: one pair of replies for each round; \<open>None\<close> when they run out while it waits.\<close>

fun approval_rounds ::
  "bool \<Rightarrow> (register_response reply \<times> heartbeat_response reply) list \<Rightarrow> agent \<Rightarrow> (agent \<times> bool) option" where
  "approval_rounds once [] a = None"
| "approval_rounds once ((rg, hb) # rest) a =
     (let (a1, ok) = (if ag_registered a then (a, True) else agent_register rg a)
      in if \<not> ok then approval_rounds once rest a1
         else (let (a2, r) = agent_heartbeat hb a1
               in if hr_approved r then Some (a2\<lparr>ag_approved := True, ag_device_code := None\<rparr>, True)
                  else if once then Some (a2, False)
                  else approval_rounds once rest a2))"

lemma approval_rounds_preserve:
  assumes "approval_rounds once reps a = Some (a', b)" "\<And>rep x. f (fst (agent_register rep x)) = f x"
    and "\<And>rep x. f (fst (agent_heartbeat rep x)) = f x"
    and "\<And>x. f (x\<lparr>ag_approved := True, ag_device_code := None\<rparr>) = f x"
  shows "f a' = f a"
  using assms(1)
proof (induction reps arbitrary: a)
  case (Cons rep rest)
  obtain rg hb where rep: "rep = (rg, hb)" by (cases rep)
  obtain a1 ok where r: "(if ag_registered a then (a, True) else agent_register rg a) = (a1, ok)" by fastforce
  then have 1: "f a1 = f a" using assms(2) [of rg a] by (auto split: if_splits)
  obtain a2 h where h: "agent_heartbeat hb a1 = (a2, h)" by fastforce
  have 2: "f a2 = f a1" using assms(3) [of hb a1] by (simp add: h)
  show ?case using Cons 1 2 assms(4) [of a2] unfolding rep approval_rounds.simps r Let_def split h
    by (auto split: if_splits)
qed simp

definition wait_for_approval ::
  "bool \<Rightarrow> (register_response reply \<times> heartbeat_response reply) list \<Rightarrow> agent \<Rightarrow> (agent \<times> bool) option" where
  "wait_for_approval once replies a = (if ag_approved a then Some (a, True) else approval_rounds once replies a)"

definition poll_once :: "job_assignment reply \<Rightarrow> job_assignment option" where
  "poll_once rep = (case rep of Answer asg \<Rightarrow> Some asg | _ \<Rightarrow> None)"

section \<open>Verifying and running an assignment\<close>

definition verify_assignment ::
  "primitives \<Rightarrow> manifest_bytes \<Rightarrow> str option \<Rightarrow> time \<Rightarrow> job_assignment \<Rightarrow> bool \<times> str" where
  "verify_assignment P mbytes trusted now asg =
     (let sm = ja_signed_manifest asg; m = sm_manifest sm;
          checked = (if (case mf_expires_at m of None \<Rightarrow> False | Some t \<Rightarrow> t \<le> now)
                     then (False, ''manifest_expired'')
                     else if mf_input_sha256 m \<noteq> [] \<and>
                             sha256_hex (p_sha256 P) (p_float_repr P) (JObj (ja_input asg)) \<noteq> mf_input_sha256 m
                     then (False, ''input_hash_mismatch'') else (True, []))
      in case trusted of
           Some key \<Rightarrow>
             (if key = [] then
                (if sm_signature sm \<noteq> [] \<and> \<not> verify_manifest P mbytes sm None then (False, ''bad_signature'') else checked)
              else if sm_signature sm = [] then (False, ''unsigned_manifest'')
              else if \<not> verify_manifest P mbytes sm (Some key) then (False, ''untrusted_signer'')
              else checked)
         | None \<Rightarrow>
             (if sm_signature sm \<noteq> [] \<and> \<not> verify_manifest P mbytes sm None then (False, ''bad_signature'') else checked))"

datatype place = InProcess | Behind boundary

text \<open>What surrounds one run: the clock, the boundaries, the in-process kit and the texts of exceptions.\<close>

record job_env =
  je_now :: time
  je_duration :: rat
  je_sandbox :: "str \<Rightarrow> dict \<Rightarrow> limits \<Rightarrow> sandbox_env"
  je_runner :: "str \<Rightarrow> dict \<Rightarrow> (py_error + dict) option"
  je_text :: "py_error \<Rightarrow> str"
  je_isolation_text :: "isolation_error \<Rightarrow> str"
  je_attribute_error :: str

definition host_side_job :: "job_manifest \<Rightarrow> bool" where
  "host_side_job m \<longleftrightarrow> rq_needs_gpu (mf_requires m) \<or> sb_type (mf_sandbox m) = ''job_object'' \<or> startswith (mf_kind m) ''ai.''"

definition error_output :: "str \<Rightarrow> dict" where
  "error_output text = [(''error'', JStr text)]"

text \<open>\<open>out.get("yielded")\<close>, which needs a dict.\<close>

definition finished_output :: "job_env \<Rightarrow> json \<Rightarrow> dict \<times> result_status" where
  "finished_output E v =
     (case v of
        JObj d \<Rightarrow> (d, if truthy (get_or d ''yielded'' JNull) then StYielded else StCompleted)
      | _ \<Rightarrow> (error_output (je_attribute_error E), StFailed))"

definition run_code :: "job_env \<Rightarrow> agent \<Rightarrow> job_assignment \<Rightarrow> place list \<times> (dict \<times> result_status) option" where
  "run_code E a asg =
     (let m = sm_manifest (ja_signed_manifest asg)
      in if ag_isolated a
         then (let (begun, r) = run_in_isolation (je_sandbox E (mf_kind m) (ja_input asg) (mf_limits m))
                                  (host_side_job m) (\<not> ag_require_isolation a)
               in (map Behind begun,
                   map_option (\<lambda>r. case r of
                       Inr v \<Rightarrow> finished_output E v
                     | Inl (IsolationUnavailableError t) \<Rightarrow> (error_output (''refused: '' @ t), StFailed)
                     | Inl e \<Rightarrow> (error_output (je_isolation_text E e), StFailed)) r))
         else ([InProcess],
               map_option (\<lambda>r. case r of
                   Inr d \<Rightarrow> finished_output E (JObj d)
                 | Inl e \<Rightarrow> (error_output (je_text E e), StFailed)) (je_runner E (mf_kind m) (ja_input asg))))"

text \<open>\<open>len(input.get("items", [])) or 1\<close>, outside the \<open>try\<close>.\<close>

definition item_units :: "dict \<Rightarrow> py_error + int" where
  "item_units input =
     (let units = (\<lambda>n. Inr (if n = 0 then 1 else int n))
      in case get_or input ''items'' (JList []) of
           JList xs \<Rightarrow> units (length xs)
         | JObj d \<Rightarrow> units (length d)
         | JStr s \<Rightarrow> units (length (utf8_chars s))
         | _ \<Rightarrow> Inl (TypeError ''object has no len()''))"

definition note_job_gpu :: "bool \<Rightarrow> agent \<Rightarrow> agent" where
  "note_job_gpu needs_gpu a = a\<lparr>ag_active_gate := map_option (\<lambda>g. note_job g needs_gpu) (ag_active_gate a)\<rparr>"

definition result_of ::
  "primitives \<Rightarrow> job_env \<Rightarrow> agent \<Rightarrow> job_assignment \<Rightarrow> dict \<Rightarrow> result_status \<Rightarrow> int \<Rightarrow> result_request" where
  "result_of P E a asg out status units =
     \<lparr>rs_worker_id = ag_worker_id a, rs_job_id = mf_job_id (sm_manifest (ja_signed_manifest asg)), rs_status = status,
      rs_output = Some out, rs_proof_sha256 = Some (sha256_hex (p_sha256 P) (p_float_repr P) (JObj out)),
      rs_duration_s = Some (je_duration E), rs_units = units\<rparr>"

text \<open>\<open>None\<close>: the job does not return.\<close>

definition run_job ::
  "primitives \<Rightarrow> manifest_bytes \<Rightarrow> job_env \<Rightarrow> job_assignment \<Rightarrow> agent \<Rightarrow>
   agent \<times> place list \<times> (py_error + result_request) option" where
  "run_job P mbytes E asg a0 =
     (let m = sm_manifest (ja_signed_manifest asg);
          a = note_job_gpu (rq_needs_gpu (mf_requires m)) a0;
          (ok, reason) = (if ag_verify a then verify_assignment P mbytes (ag_trusted_public_key_hex a) (je_now E) asg
                          else (True, []))
      in if \<not> ok
         then (a, [], Some (Inr (result_of P E a asg (error_output (''verification failed: '' @ reason)) StFailed 1)))
         else (let (places, r) = run_code E a asg;
                   a' = note_job_gpu False (a\<lparr>ag_job_running := False, ag_yield := False\<rparr>)
               in (a', places,
                   map_option (\<lambda>(out, status).
                     bind_err (item_units (ja_input asg)) (\<lambda>units. Inr (result_of P E a' asg out status units))) r)))"

definition report_result :: "str \<Rightarrow> result_response reply \<Rightarrow> result_response" where
  "report_result failure rep =
     (case rep of Answer r \<Rightarrow> r | _ \<Rightarrow> \<lparr>rp_accepted = False, rp_credited = 0, rp_reason = Some failure\<rparr>)"

section \<open>One turn of the worker\<close>

record replies =
  sv_register :: "register_response reply"
  sv_heartbeat :: "heartbeat_response reply"
  sv_poll :: "job_assignment reply"
  sv_result :: "result_response reply"

datatype turn = NoWork | Ran "py_error + result_request" | NeverReturns

definition turn_of :: "(py_error + result_request) option \<Rightarrow> turn" where
  "turn_of r = (case r of None \<Rightarrow> NeverReturns | Some v \<Rightarrow> Ran v)"

text \<open>\<open>run_once\<close>; the answer to the report is logged and dropped.\<close>

definition run_once ::
  "primitives \<Rightarrow> manifest_bytes \<Rightarrow> job_env \<Rightarrow> replies \<Rightarrow> agent \<Rightarrow> agent \<times> place list \<times> turn" where
  "run_once P mbytes E R a =
     (let a1 = (if ag_registered a then a else fst (agent_register (sv_register R) a))
      in if \<not> ag_registered a1 then (a1, [], NoWork)
         else (case wait_for_approval True [(sv_register R, sv_heartbeat R)] a1 of
             None \<Rightarrow> (a1, [], NoWork)
           | Some (a2, approved) \<Rightarrow>
               if \<not> approved then (a2, [], NoWork)
               else (case poll_once (sv_poll R) of
                   None \<Rightarrow> (a2, [], NoWork)
                 | Some asg \<Rightarrow> (let (a3, places, r) = run_job P mbytes E asg a2 in (a3, places, turn_of r)))))"

definition run_guarded ::
  "primitives \<Rightarrow> manifest_bytes \<Rightarrow> job_env \<Rightarrow> replies \<Rightarrow> reading \<Rightarrow> governor \<Rightarrow> agent \<Rightarrow>
   governor \<times> agent \<times> place list \<times> turn" where
  "run_guarded P mbytes E R r g a =
     (let (g1, admitted) = should_run r g
      in if \<not> admitted then (g1, a, [], NoWork)
         else (let (a1, places, res) = run_once P mbytes E R (a\<lparr>ag_active_gate := Some g1\<rparr>)
               in (case ag_active_gate a1 of None \<Rightarrow> g1 | Some g2 \<Rightarrow> g2, a1\<lparr>ag_active_gate := None\<rparr>, places, res)))"

end
