(* ===== verification/Agent_Properties.thy ===== *)
theory Agent_Properties imports Agent Demo Job_Properties begin

text \<open>
  Properties of a worker's turn, alone and together with the orchestrator: nothing runs that was not
  verified, nothing runs unsandboxed where isolation is required, and what an honest worker reports for a
  job it holds is credited. Two lemmas record how a badly formed job harms the workers it reaches.
\<close>

section \<open>Joining keeps the worker's settings\<close>

definition settings :: "agent \<Rightarrow> bool \<times> bool \<times> bool \<times> str option \<times> str" where
  "settings a = (ag_verify a, ag_isolated a, ag_require_isolation a, ag_trusted_public_key_hex a, ag_worker_id a)"

lemma settings_register: "settings (fst (agent_register rep a)) = settings a"
  by (simp add: agent_register_def settings_def clear_registration_def split: reply.split)

lemma settings_heartbeat: "settings (fst (agent_heartbeat rep a)) = settings a"
  by (simp add: agent_heartbeat_def settings_def clear_registration_def Let_def split: reply.split)

lemma settings_rounds: "approval_rounds once reps a = Some (a', b) \<Longrightarrow> settings a' = settings a"
  by (rule approval_rounds_preserve [of _ _ _ _ _ settings])
    (rule settings_register settings_heartbeat | assumption | simp add: settings_def)+

lemma settings_wait: "wait_for_approval once reps a = Some (a', b) \<Longrightarrow> settings a' = settings a"
  by (auto simp: wait_for_approval_def settings_rounds split: if_splits)

lemma run_once_ran:
  assumes "run_once P mbytes E R a = (a', places, r)" "places \<noteq> []"
  obtains asg a2 v where "sv_poll R = Answer asg" "settings a2 = settings a"
    "run_job P mbytes E asg a2 = (a', places, v)" "ag_approved a2"
proof -
  define a1 where "a1 = (if ag_registered a then a else fst (agent_register (sv_register R) a))"
  have s1: "settings a1 = settings a" by (simp add: a1_def settings_register)
  have run: "run_once P mbytes E R a =
     (if \<not> ag_registered a1 then (a1, [], NoWork)
      else (case wait_for_approval True [(sv_register R, sv_heartbeat R)] a1 of
             None \<Rightarrow> (a1, [], NoWork)
           | Some (a2, approved) \<Rightarrow>
               if \<not> approved then (a2, [], NoWork)
               else (case poll_once (sv_poll R) of
                   None \<Rightarrow> (a2, [], NoWork)
                 | Some asg \<Rightarrow> (let (a3, places, r) = run_job P mbytes E asg a2 in (a3, places, turn_of r)))))"
    unfolding run_once_def a1_def Let_def ..
  obtain a2 ok where w: "wait_for_approval True [(sv_register R, sv_heartbeat R)] a1 = Some (a2, ok)" and ok
    using assms run by (auto split: if_splits option.splits)
  obtain asg where asg: "sv_poll R = Answer asg"
    using assms run w \<open>ok\<close> by (auto simp: poll_once_def split: if_splits reply.splits)
  obtain b pl v where j: "run_job P mbytes E asg a2 = (b, pl, v)" by (metis prod_cases3)
  have "run_job P mbytes E asg a2 = (a', places, v)"
    using assms run w \<open>ok\<close> asg j by (auto simp: poll_once_def split: if_splits)
  moreover have "settings a2 = settings a" using settings_wait [OF w] s1 by simp
  moreover have "ag_approved a2"
    using w \<open>ok\<close> by (auto simp: wait_for_approval_def Let_def split: if_splits prod.splits)
  ultimately show thesis using that asg by blast
qed

lemma run_job_ran:
  assumes "run_job P mbytes E asg a = (a', places, v)" "places \<noteq> []"
  shows "ag_verify a \<Longrightarrow> fst (verify_assignment P mbytes (ag_trusted_public_key_hex a) (je_now E) asg)"
    and "places = fst (run_code E a asg)"
  using assms
  by (auto simp: run_job_def note_job_gpu_def Let_def run_code_def split: if_splits prod.splits)

lemma verified_assignment:
  assumes "fst (verify_assignment P mbytes trusted now asg)"
  shows "\<forall>t. mf_expires_at (sm_manifest (ja_signed_manifest asg)) = Some t \<longrightarrow> now < t"
    and "mf_input_sha256 (sm_manifest (ja_signed_manifest asg)) \<noteq> [] \<Longrightarrow>
      sha256_hex (p_sha256 P) (p_float_repr P) (JObj (ja_input asg)) = mf_input_sha256 (sm_manifest (ja_signed_manifest asg))"
    and "trusted = Some key \<Longrightarrow> key \<noteq> [] \<Longrightarrow> sm_signature (ja_signed_manifest asg) \<noteq> [] \<and>
      verify_manifest P mbytes (ja_signed_manifest asg) (Some key)"
    and "sm_signature (ja_signed_manifest asg) \<noteq> [] \<Longrightarrow> trusted = None \<or> trusted = Some [] \<Longrightarrow>
      verify_manifest P mbytes (ja_signed_manifest asg) None"
  using assms by (auto simp: verify_assignment_def Let_def not_le split: if_splits option.splits)

lemma sandboxed_places:
  assumes "ag_isolated a" "ag_require_isolation a"
  shows "set (fst (run_code E a asg)) \<subseteq> {Behind Mxc, Behind Docker}"
    "host_side_job (sm_manifest (ja_signed_manifest asg)) \<Longrightarrow> fst (run_code E a asg) = []"
proof -
  let ?m = "sm_manifest (ja_signed_manifest asg)"
  obtain begun r where i: "run_in_isolation (je_sandbox E (mf_kind ?m) (ja_input asg) (mf_limits ?m)) (host_side_job ?m) False = (begun, r)"
    by fastforce
  have "Subprocess \<notin> set begun" using require_isolation_fails_closed [of _ "host_side_job ?m"] i by (metis fst_conv)
  then have "x \<in> {Mxc, Docker}" if "x \<in> set begun" for x using that by (cases x) auto
  then show "set (fst (run_code E a asg)) \<subseteq> {Behind Mxc, Behind Docker}"
    using assms by (auto simp: run_code_def Let_def i)
  show "fst (run_code E a asg) = []" if "host_side_job ?m"
    using assms that i by (simp add: run_code_def Let_def host_side_refused)
qed


section \<open>What an honest worker reports is credited\<close>

text \<open>The boundaries and the in-process runner execute the kit, undisturbed.\<close>

definition faithful_env :: "(py_error \<Rightarrow> str) \<Rightarrow> machine \<Rightarrow> job_env \<Rightarrow> str \<Rightarrow> dict \<Rightarrow> limits \<Rightarrow> bool" where
  "faithful_env traceback M E kind input ls \<longleftrightarrow>
     je_runner E kind input = execute M kind input (\<lambda>_. False) \<and>
     (case jobkit_main traceback M kind input of
        None \<Rightarrow> True
      | Some pe \<Rightarrow> runs_jobkit (se_mxc_run (je_sandbox E kind input ls)) pe \<and>
          runs_jobkit (se_docker_run (je_sandbox E kind input ls)) pe \<and>
          runs_jobkit (se_subprocess_run (je_sandbox E kind input ls)) pe)"

lemma run_job_result:
  assumes "run_job P mbytes E asg a = (a', places, Some (Inr rr))" "rs_status rr = StCompleted"
  obtains out a2 where "run_code E a2 asg = (places, Some (out, StCompleted))" "rs_output rr = Some out" "settings a2 = settings a"
    "rs_proof_sha256 rr = Some (sha256_hex (p_sha256 P) (p_float_repr P) (JObj out))"
    "rs_worker_id rr = ag_worker_id a" "rs_job_id rr = mf_job_id (sm_manifest (ja_signed_manifest asg))"
proof -
  define a2 where "a2 = note_job_gpu (rq_needs_gpu (mf_requires (sm_manifest (ja_signed_manifest asg)))) a"
  obtain pl r where rc: "run_code E a2 asg = (pl, r)" by fastforce
  have s: "settings a2 = settings a" "ag_worker_id a2 = ag_worker_id a" by (simp_all add: a2_def note_job_gpu_def settings_def)
  obtain out status units where r: "pl = places" "r = Some (out, status)"
    "rr = result_of P E (note_job_gpu False (a2\<lparr>ag_job_running := False, ag_yield := False\<rparr>)) asg out status units"
    using assms unfolding run_job_def a2_def [symmetric] Let_def rc
    by (auto simp: result_of_def bind_err_Inr split: if_splits prod.splits option.splits)
  show thesis
    using that [of a2 out] rc r s assms(2) by (simp add: result_of_def note_job_gpu_def)
qed

text \<open>Wherever it runs, a completed job reports what the kit computes.\<close>

lemma completed_output:
  assumes "run_code E a asg = (places, Some (out, StCompleted))"
    and m: "m = sm_manifest (ja_signed_manifest asg)"
    and "faithful_env traceback M E (mf_kind m) (ja_input asg) (mf_limits m)"
    and x: "execute M (mf_kind m) (ja_input asg) (\<lambda>_. False) = Some (Inr good)"
  shows "out = good"
proof (cases "ag_isolated a")
  case False
  then show ?thesis using assms
    by (auto simp: run_code_def Let_def faithful_env_def finished_output_def)
next
  case True
  let ?S = "je_sandbox E (mf_kind m) (ja_input asg) (mf_limits m)"
  obtain pe where pe: "jobkit_main traceback M (mf_kind m) (ja_input asg) = Some pe"
    using x by (simp add: jobkit_main_def)
  have "isolated_ok good (snd (run_in_isolation ?S (host_side_job m) (\<not> ag_require_isolation a)))"
    using assms(3) pe by (intro isolated_output_is_execute [OF x pe]) (simp_all add: faithful_env_def)
  then show ?thesis using True assms(1)
    by (auto simp: run_code_def Let_def m [symmetric] isolated_ok_def finished_output_def error_output_def split: prod.splits)
qed

lemma honest_result_accepted:
  assumes "run_job P mbytes E asg a = (a', places, Some (Inr rr))" "rs_status rr = StCompleted"
    and "find_job (rs_job_id rr) s = Some j" "jb_state j = Leased" "jb_assigned_worker j = Some (ag_worker_id a)"
    and "jb_lease_expires j = Some deadline" "now < deadline"
    and "jb_manifest j = sm_manifest (ja_signed_manifest asg)" "jb_input j = ja_input asg"
    and "length (dumps_ascii (p_float_repr P) (JObj (case rs_output rr of None \<Rightarrow> [] | Some d \<Rightarrow> d))) \<le> MAX_RESULT_OUTPUT_BYTES"
    and "mf_kind (jb_manifest j) = ''challenge'' \<Longrightarrow>
      faithful_env traceback M E ''challenge'' (jb_input j) (mf_limits (jb_manifest j)) \<and>
      dict_get (jb_input j) ''x'' = Some (JInt x)"
  shows "results_section P rr now t s = accept_result P j (ag_worker_id a) (result_output rr) now t s"
proof -
  obtain out a2 where r: "run_code E a2 asg = (places, Some (out, StCompleted))" "rs_output rr = Some out"
    "rs_proof_sha256 rr = Some (sha256_hex (p_sha256 P) (p_float_repr P) (JObj out))" "rs_worker_id rr = ag_worker_id a"
    using run_job_result [OF assms(1,2)] by metis
  have sect: "results_section P rr now t s = completed_result P j rr out now t s"
    using assms r by (simp add: results_section_def Let_def)
  show ?thesis
  proof (cases "mf_kind (jb_manifest j) = ''challenge''")
    case False
    then show ?thesis using r by (simp add: sect completed_result_def result_output_def Let_def)
  next
    case True
    note c = assms(11) [OF True]
    have "execute M ''challenge'' (jb_input j) (\<lambda>_. False) = Some (Inr [(''y'', JInt (x * x + 1))])"
      using c by (simp add: execute_def challenge_def get_key_def)
    then have "out = [(''y'', JInt (x * x + 1))]"
      using c True assms(8,9) by (intro completed_output [OF r(1) refl, of traceback M]) simp_all
    then have "check_challenge out [(''y'', JInt (x * x + 1))]" by (simp add: check_challenge_def dict_get_def exact_int_def)
    then show ?thesis using True r c
      by (simp add: sect completed_result_def challenge_expected_def result_output_def Let_def)
  qed
qed

text \<open>C35.
  What an honest worker reports for a job it still holds is credited, whatever boundary ran it, as long
  as its output, written as JSON, does not exceed the orchestrator's limit of 8 MiB: the proof it sends is
  the one the orchestrator recomputes, and the answer of an integrity challenge is the one it expects, if
  the argument of the challenge is an integer and the kit ran undisturbed.
\<close>
theorem honest_result_credited:
  assumes "run_job P mbytes E asg a = (a', places, Some (Inr rr))" "rs_status rr = StCompleted"
    and "find_job (rs_job_id rr) s = Some j" "jb_state j = Leased" "jb_assigned_worker j = Some (ag_worker_id a)"
    and "jb_lease_expires j = Some deadline" "now < deadline"
    and "jb_manifest j = sm_manifest (ja_signed_manifest asg)" "jb_input j = ja_input asg"
    and "length (dumps_ascii (p_float_repr P) (JObj (case rs_output rr of None \<Rightarrow> [] | Some d \<Rightarrow> d))) \<le> MAX_RESULT_OUTPUT_BYTES"
    and "mf_kind (jb_manifest j) = ''challenge'' \<Longrightarrow>
      faithful_env traceback M E ''challenge'' (jb_input j) (mf_limits (jb_manifest j)) \<and>
      dict_get (jb_input j) ''x'' = Some (JInt x)"
  shows "snd (results_section P rr now t s) = Inr \<lparr>rp_accepted = True, rp_credited = job_credits j, rp_reason = None\<rparr>"
  using honest_result_accepted [OF assms] by (simp add: accept_result_def)

section \<open>Badly formed jobs\<close>

text \<open>A challenge whose argument is not an integer bans the honest worker that answers it.\<close>

lemma fractional_challenge_bans_worker:
  assumes "challenge C [(''x'', JFloat (Fin q))] = Inr out" "jb_input j = [(''x'', JFloat (Fin q))]"
    "mf_kind (jb_manifest j) = ''challenge''" "rs_proof_sha256 req = None"
  shows "completed_result P j req out now t s =
    (emit P t ''blacklisted'' (Some (rs_worker_id req)) (Some (jb_job_id j)) (Some ''failed integrity challenge'')
       (blacklist_worker (rs_worker_id req) (jb_job_id j) now s), Inr (rejected ''cheater_blacklisted''))"
  using assms by (simp add: completed_result_def challenge_expected_def check_challenge_def exact_int_def dict_get_def
      square_plus_one_def Let_def split: option.split)

text \<open>
  A job whose \<open>items\<close> have no length ends the worker's turn in a \<open>TypeError\<close>, whatever the job did: the
  units are counted outside the \<open>try\<close> block. Nothing is reported, so the job is leased to the next worker.
\<close>

lemma items_without_length_crash:
  assumes "dict_get (ja_input asg) ''items'' = Some JNull" "places \<noteq> []"
    and "run_job P mbytes E asg a = (a', places, Some r)"
  shows "r = Inl (TypeError ''object has no len()'')"
  using assms by (auto simp: run_job_def Let_def item_units_def get_or_def split: prod.splits if_splits)

section \<open>A concrete worker\<close>

definition demo_boundary :: boundary_run where
  "demo_boundary = \<lparr>br_rounds = [Running False False, Exited], br_reaped = True,
     br_end = \<lparr>pe_code = Some 0, pe_stdout = [], pe_stderr = [], pe_out = Written (JObj [])\<rparr>\<rparr>"

definition demo_sandbox :: sandbox_env where
  "demo_sandbox = \<lparr>se_mxc_available = False, se_mxc_start = None, se_mxc_run = demo_boundary, se_docker_available = True,
     se_docker = \<lparr>dk_image_present = True, dk_pull = Inr (0, []), dk_image_after_pull = True\<rparr>,
     se_docker_run = demo_boundary, se_subprocess_run = demo_boundary\<rparr>"

definition demo_env :: job_env where
  "demo_env = \<lparr>je_now = 2000010, je_duration = 1, je_sandbox = (\<lambda>_ _ _. demo_sandbox), je_runner = (\<lambda>_ _. Some (Inr [])),
     je_text = (\<lambda>_. []), je_isolation_text = (\<lambda>_. []), je_attribute_error = []\<rparr>"

definition demo_agent :: agent where
  "demo_agent = \<lparr>ag_worker_id = ''w'', ag_capability = default_capability ''w'', ag_verify = True, ag_isolated = True,
     ag_require_isolation = True, ag_trusted_public_key_hex = Some (public_key_hex demo_prims \<lparr>sg_private = ''s''\<rparr>),
     ag_measurement_only = False, ag_yield = False, ag_job_running = False, ag_worker_token = Some ''tok'',
     ag_registered = True, ag_approved = True, ag_device_code = None, ag_active_gate = None\<rparr>"

definition demo_work :: job_assignment where
  "demo_work = \<lparr>ja_signed_manifest = sign demo_prims demo_mbytes \<lparr>sg_private = ''s''\<rparr> (jb_manifest demo_job),
     ja_input = jb_input demo_job\<rparr>"

definition demo_replies :: replies where
  "demo_replies = \<lparr>sv_register = NetworkError, sv_heartbeat = NetworkError, sv_poll = Answer demo_work, sv_result = NetworkError\<rparr>"

lemma demo_work_verifies:
  "verify_assignment demo_prims demo_mbytes (ag_trusted_public_key_hex demo_agent) 2000010 demo_work = (True, [])"
proof -
  have key: "public_key_hex demo_prims \<lparr>sg_private = ''s''\<rparr> = ''6b73''" by code_simp
  have "verify_manifest demo_prims demo_mbytes (ja_signed_manifest demo_work) (Some ''6b73'')"
  proof -
    have "fromhex ''6b73'' = Some ''ks''" by code_simp
    moreover have "lower (strip ''6b73'') = ''6b73''" by code_simp
    ultimately show ?thesis
      by (simp add: verify_manifest_def demo_work_def sign_def key ed_verify_hex_def) (simp add: demo_prims_def)
  qed
  then show ?thesis
    by (simp add: verify_assignment_def demo_agent_def key)
      (simp add: demo_work_def sign_def demo_job_def new_job_def new_manifest_def demo_submit_def Let_def demo_prims_def)
qed

lemma demo_isolated: "run_in_isolation demo_sandbox False False = ([Docker], Some (Inr (JObj [])))"
  by (simp add: run_in_isolation_def try_docker_def run_docker_def demo_sandbox_def demo_boundary_def ensure_image_def
      started_def read_output_def Let_def)

lemma demo_runs: "run_code demo_env (note_job_gpu False demo_agent) demo_work =
   ([Behind Docker], Some ([], StCompleted))"
proof -
  have "\<not> host_side_job (jb_manifest demo_job)"
    by (simp add: host_side_job_def demo_job_def new_job_def new_manifest_def demo_submit_def default_requires_def
        default_sandbox_def)
  then show ?thesis
    by (simp add: run_code_def demo_env_def demo_agent_def demo_work_def sign_def demo_isolated finished_output_def
        note_job_gpu_def get_or_def dict_get_def)
qed

lemma demo_turn: "\<exists>a' rr. run_job demo_prims demo_mbytes demo_env demo_work demo_agent
    = (a', [Behind Docker], Some (Inr rr)) \<and> rs_status rr = StCompleted \<and> rs_job_id rr = ''j'' \<and> rs_output rr = Some []"
proof -
  have gpu: "\<not> rq_needs_gpu (mf_requires (jb_manifest demo_job))"
    by (simp add: default_requires_def)
  have id: "mf_job_id (jb_manifest demo_job) = ''j''" by (simp add: demo_job_def new_job_def new_manifest_def)
  have items: "item_units (ja_input demo_work) = Inr 1"
    by (simp add: item_units_def demo_work_def demo_job_def new_job_def demo_submit_def get_or_def dict_get_def)
  have m: "sm_manifest (ja_signed_manifest demo_work) = jb_manifest demo_job" by (simp add: demo_work_def sign_def)
  have now: "je_now demo_env = 2000010" by (simp add: demo_env_def)
  have set: "ag_verify (note_job_gpu b demo_agent)"
    "ag_trusted_public_key_hex (note_job_gpu b demo_agent) = ag_trusted_public_key_hex demo_agent" for b
    by (simp_all add: note_job_gpu_def demo_agent_def)
  show ?thesis using demo_work_verifies demo_runs gpu items id
    by (simp add: run_job_def Let_def m now set result_of_def)
qed


lemma honest_result_credited_witness:
  "\<exists>rr a' places. run_job demo_prims demo_mbytes demo_env demo_work demo_agent = (a', places, Some (Inr rr)) \<and>
     rp_accepted (case snd (results_section demo_prims rr 3000001 3000002 leased_db) of Inr resp \<Rightarrow> resp)"
proof -
  let ?j = "leased_to ''w'' 22000004 2000005 demo_job"
  obtain a' rr where j: "run_job demo_prims demo_mbytes demo_env demo_work demo_agent = (a', [Behind Docker], Some (Inr rr))"
    and rr: "rs_status rr = StCompleted" "rs_job_id rr = ''j''" "rs_output rr = Some []"
    using demo_turn by blast
  have "snd (results_section demo_prims rr 3000001 3000002 leased_db)
      = Inr \<lparr>rp_accepted = True, rp_credited = job_credits ?j, rp_reason = None\<rparr>"
  proof (rule honest_result_credited [OF j rr(1), where traceback = "\<lambda>_. []" and M = demo_machine and x = 0 and deadline = 22000004])
    show "find_job (rs_job_id rr) leased_db = Some ?j"
      by (simp add: rr find_job_def select_where_def leased_rows)
    show "length (dumps_ascii (p_float_repr demo_prims) (JObj (case rs_output rr of None \<Rightarrow> [] | Some d \<Rightarrow> d)))
        \<le> MAX_RESULT_OUTPUT_BYTES"
      by (simp add: rr MAX_RESULT_OUTPUT_BYTES_def dumps_ascii_def)
  qed (simp_all add: demo_work_def sign_def demo_agent_def)
  then show ?thesis using j by (intro exI [of _ rr] exI [of _ a'] exI [of _ "[Behind Docker]"]) simp
qed

end
