(* ===== verification/Mxc_Policy.thy ===== *)
theory Mxc_Policy imports Isolation begin

text \<open>
  \<open>src/isolation/mxc_policy.py\<close> and the decisions of \<open>mxc.py\<close>: the declarative sandbox policy of a job, the
  questions asked of it, the configuration the MXC runtime is given, and whether a runtime's probe is
  good enough to rely on. Paths are lists of components; resolving a text to a path, the environment, UUIDs,
  case folding and shell quoting are the platform's. The lemmas show that a job may write only below its work directory
  and never into its own code, and that the configuration says the same.
\<close>

type_synonym path = "str list"

record path_platform =
  pf_nt :: bool
  pf_casefold :: "str \<Rightarrow> str"
  pf_text :: "path \<Rightarrow> str"              \<comment> \<open>\<open>str(path)\<close>\<close>
  pf_resolve :: "str \<Rightarrow> path"           \<comment> \<open>\<open>_resolve_path\<close>: expanded, absolute, links followed\<close>
  pf_join :: "path \<Rightarrow> str \<Rightarrow> path"      \<comment> \<open>\<open>_resolve_path(root / sub)\<close>\<close>
  pf_name :: "str \<Rightarrow> str"               \<comment> \<open>the last component of a relative path\<close>
  pf_home :: str
  pf_environ :: "str \<Rightarrow> str option"
  pf_uuid5 :: "str \<Rightarrow> str"              \<comment> \<open>\<open>uuid5(NAMESPACE_URL, name).hex\<close>\<close>
  pf_command_line :: "str list \<Rightarrow> str"

section \<open>Paths\<close>

definition comparison_text :: "path_platform \<Rightarrow> path \<Rightarrow> str" where
  "comparison_text F p =
     (if pf_nt F then pf_casefold F (map (\<lambda>c. if c = CHR ''/'' then CHR 0x5C else c) (pf_text F p)) else pf_text F p)"

definition rstrip_separators :: "str \<Rightarrow> str" where
  "rstrip_separators s = rev (dropWhile (\<lambda>c. c = CHR 0x5C \<or> c = CHR ''/'') (rev s))"

definition separator :: "path_platform \<Rightarrow> char" where
  "separator F = (if pf_nt F then CHR 0x5C else CHR ''/'')"

text \<open>\<open>relative_to\<close> succeeds below the root; otherwise the texts are compared.\<close>

fun below :: "path \<Rightarrow> path \<Rightarrow> bool" where
  "below p [] = True"
| "below [] (r # rs) = False"
| "below (c # p) (r # rs) = (c = r \<and> below p rs)"

definition is_same_or_child :: "path_platform \<Rightarrow> path \<Rightarrow> path \<Rightarrow> bool" where
  "is_same_or_child F candidate base =
     (if below candidate base then True
      else (let candidate_text = comparison_text F candidate; base_text = rstrip_separators (comparison_text F base)
            in candidate_text = base_text \<or> startswith candidate_text (base_text @ [separator F])))"

definition payload_path :: "path_platform \<Rightarrow> path \<Rightarrow> str \<Rightarrow> path" where
  "payload_path F work payload_subdir =
     (let requested = (if payload_subdir = [] then ''src'' else payload_subdir); p = pf_join F work requested
      in if is_same_or_child F p work then p
         else pf_join F work (if pf_name F requested = [] then ''src'' else pf_name F requested))"

section \<open>The policy\<close>

definition access_rule :: "str \<Rightarrow> str list \<Rightarrow> bool \<Rightarrow> bool \<Rightarrow> json" where
  "access_rule p access allow_delete allow_rename =
     JObj [(''effect'', JStr ''allow''), (''path'', JStr p), (''access'', JList (map JStr access)),
           (''allow_delete'', JBool allow_delete), (''allow_rename'', JBool allow_rename)]"

definition network_mode :: "str \<Rightarrow> bool option \<Rightarrow> str" where
  "network_mode limits_network allow_network =
     (case allow_network of
        Some a \<Rightarrow> if a then ''host'' else ''none''
      | None \<Rightarrow> if limits_network = ''host'' then ''host'' else ''none'')"

definition stable_job_id :: "path_platform \<Rightarrow> path \<Rightarrow> str" where
  "stable_job_id F work = ''onecompute-job-'' @ take 12 (pf_uuid5 F (''onecompute:mxc:'' @ pf_text F work))"

definition safe_path_string :: "path_platform \<Rightarrow> str \<Rightarrow> str" where
  "safe_path_string F raw = pf_text F (pf_resolve F raw)"

definition env_or :: "path_platform \<Rightarrow> str \<Rightarrow> str \<Rightarrow> str" where
  "env_or F k dflt = (case pf_environ F k of Some v \<Rightarrow> if v = [] then dflt else v | None \<Rightarrow> dflt)"

definition protected_locations :: "path_platform \<Rightarrow> (str \<times> str) list" where
  "protected_locations F =
     [(''home'', safe_path_string F (pf_home F)), (''user_profile'', safe_path_string F (pf_home F)),
      (''network_share'', [CHR 0x5C, CHR 0x5C, CHR ''*''])] @
     map (\<lambda>(k, raw). (k, safe_path_string F raw))
       (if pf_nt F
        then [(''system_root'', env_or F ''SystemRoot'' (''C:'' @ [CHR 0x5C] @ ''Windows'')),
              (''program_files'', env_or F ''ProgramFiles'' (''C:'' @ [CHR 0x5C] @ ''Program Files'')),
              (''program_files_x86'', env_or F ''ProgramFiles(x86)'' (''C:'' @ [CHR 0x5C] @ ''Program Files (x86)''))]
        else [(''system_root'', ''/''), (''system_config'', ''/etc''), (''system_bin'', ''/usr'')])"

definition policy_rules :: "path_platform \<Rightarrow> path \<Rightarrow> path \<Rightarrow> json list" where
  "policy_rules F payload work =
     [access_rule (pf_text F payload) [''read''] False False, access_rule (pf_text F work) [''read'', ''write''] True True]"

definition policy_filesystem :: "path_platform \<Rightarrow> path \<Rightarrow> path \<Rightarrow> dict" where
  "policy_filesystem F payload work =
     [(''default'', JStr ''deny''), (''work_dir'', JStr (pf_text F work)),
      (''payload_dir'', JStr (pf_text F payload)),
      (''rules'', JList (policy_rules F payload work)),
      (''deny_rules'', JList
        [JObj [(''effect'', JStr ''deny''), (''scope'', JStr ''outside_work_dir''), (''path'', JStr (pf_text F work)),
               (''access'', JList [JStr ''delete'', JStr ''rename''])],
         JObj [(''effect'', JStr ''deny''), (''scope'', JStr ''protected_locations''),
               (''locations'', JList (map (\<lambda>(k, p). JObj [(''kind'', JStr k), (''path'', JStr p)]) (protected_locations F))),
               (''access'', JList [JStr ''read'', JStr ''write'', JStr ''delete'', JStr ''rename'']),
               (''except_under'', JStr (pf_text F work))]])]"

definition build_policy ::
  "path_platform \<Rightarrow> str \<Rightarrow> str \<Rightarrow> str \<Rightarrow> bool option \<Rightarrow> str option \<Rightarrow> dict" where
  "build_policy F work_dir limits_network payload_subdir allow_network job_id =
     (let work = pf_resolve F work_dir; payload = payload_path F work payload_subdir;
          jid = (case job_id of Some j \<Rightarrow> j | None \<Rightarrow> stable_job_id F work);
          mode = network_mode limits_network allow_network
      in [(''schema'', JStr ''mxc-policy/v1''), (''version'', JInt 1), (''default'', JStr ''deny''), (''job_id'', JStr jid),
          (''identity'', JObj [(''job_id'', JStr jid), (''kind'', JStr ''onecompute-job''), (''principal_type'', JStr ''job''),
             (''privilege'', JStr ''low_privilege'')]),
          (''filesystem'', JObj (policy_filesystem F payload work)),
          (''privileges'', JObj [(''elevation'', JStr ''deny''), (''allow_new_privileges'', JBool False),
             (''run_as'', JStr ''low_privilege''), (''allow_admin'', JBool False)]),
          (''network'', JObj [(''default'', JStr ''deny''), (''mode'', JStr mode), (''allowed'', JBool (mode = ''host''))])])"

section \<open>Questions asked of a policy\<close>

definition policy_work_path :: "path_platform \<Rightarrow> dict \<Rightarrow> path option" where
  "policy_work_path F policy =
     (case dict_get policy ''filesystem'' of
        Some (JObj fs) \<Rightarrow> (case dict_get fs ''work_dir'' of Some (JStr w) \<Rightarrow> Some (pf_resolve F w) | _ \<Rightarrow> None)
      | _ \<Rightarrow> None)"

definition denies_delete_outside :: "path_platform \<Rightarrow> dict \<Rightarrow> str \<Rightarrow> bool" where
  "denies_delete_outside F policy some_path =
     (case policy_work_path F policy of
        None \<Rightarrow> True
      | Some work \<Rightarrow> \<not> is_same_or_child F (pf_resolve F some_path) work)"

fun rule_matches :: "path_platform \<Rightarrow> path \<Rightarrow> json \<Rightarrow> bool" where
  "rule_matches F p (JObj rule) =
     (if get_or rule ''effect'' (JStr ''allow'') \<noteq> JStr ''allow'' then False
      else (case dict_get rule ''path'' of
              Some (JStr rule_path) \<Rightarrow> is_same_or_child F p (pf_resolve F rule_path)
            | _ \<Rightarrow> False))"
| "rule_matches F p _ = False"

fun rule_path_length :: "json \<Rightarrow> nat" where
  "rule_path_length (JObj rule) = (case dict_get rule ''path'' of Some (JStr s) \<Rightarrow> length s | _ \<Rightarrow> 0)"
| "rule_path_length _ = 0"

text \<open>\<open>max\<close> keeps the first of the longest.\<close>

definition best_rule :: "json list \<Rightarrow> json \<Rightarrow> json" where
  "best_rule rest first = fold (\<lambda>r best. if rule_path_length best < rule_path_length r then r else best) rest first"

fun allows_write :: "json \<Rightarrow> bool" where
  "allows_write (JObj rule) = (case get_or rule ''access'' (JList []) of JList a \<Rightarrow> JStr ''write'' \<in> set a | _ \<Rightarrow> False)"
| "allows_write _ = False"

definition permits_write :: "path_platform \<Rightarrow> dict \<Rightarrow> str \<Rightarrow> bool" where
  "permits_write F policy some_path =
     (case dict_get policy ''filesystem'' of
        Some (JObj fs) \<Rightarrow>
          (case dict_get fs ''rules'' of
             Some (JList rules) \<Rightarrow>
               (case filter (rule_matches F (pf_resolve F some_path)) rules of
                  [] \<Rightarrow> False
                | r # rest \<Rightarrow> allows_write (best_rule rest r))
           | _ \<Rightarrow> False)
      | _ \<Rightarrow> False)"

section \<open>The runtime configuration\<close>

fun false_or_absent :: "json option \<Rightarrow> bool" where
  "false_or_absent None = True"
| "false_or_absent (Some v) = (\<not> truthy v)"

definition least_privilege :: "dict \<Rightarrow> bool" where
  "least_privilege privileges \<longleftrightarrow> dict_get privileges ''elevation'' = Some (JStr ''deny'') \<and>
     false_or_absent (dict_get privileges ''allow_new_privileges'') \<and> false_or_absent (dict_get privileges ''allow_admin'')"

definition filter_denied_paths :: "path_platform \<Rightarrow> str list \<Rightarrow> path list \<Rightarrow> str list" where
  "filter_denied_paths F paths allowed =
     filter (\<lambda>raw. \<not> list_ex (\<lambda>a. is_same_or_child F a (pf_resolve F raw)) allowed) paths"

text \<open>\<open>_layout_paths\<close>: the three roots, given or below the job's directory.\<close>

record layout =
  ly_input :: path
  ly_payload :: path
  ly_write :: path

definition layout_paths ::
  "path_platform \<Rightarrow> str \<Rightarrow> str option \<Rightarrow> str option \<Rightarrow> str option \<Rightarrow> layout" where
  "layout_paths F root_dir input_dir payload_dir writable_dir =
     (let base_dir = pf_resolve F root_dir; pick = (\<lambda>given sub. case given of Some d \<Rightarrow> pf_resolve F d | None \<Rightarrow> pf_join F base_dir sub)
      in \<lparr>ly_input = pick input_dir ''input'', ly_payload = pick payload_dir ''payload/src'', ly_write = pick writable_dir ''work''\<rparr>)"

definition CONFIG_SCHEMA_VERSION :: str where "CONFIG_SCHEMA_VERSION = ''0.7.0-alpha''"

definition obj_at :: "dict \<Rightarrow> str \<Rightarrow> dict" where
  "obj_at d k = (case dict_get d k of Some (JObj v) \<Rightarrow> v | _ \<Rightarrow> [])"

definition build_mxc_config ::
  "path_platform \<Rightarrow> layout \<Rightarrow> str \<Rightarrow> str \<Rightarrow> str \<Rightarrow> int \<Rightarrow> str \<Rightarrow> dict" where
  "build_mxc_config F L in_name out_name limits_network timeout_s name =
     (let policy = build_policy F (pf_text F (ly_write L)) limits_network ''src'' None (Some name);
          mode = dict_get (obj_at policy ''network'') ''mode'';
          file = (\<lambda>p n. pf_text F p @ [separator F] @ n)
      in [(''version'', JStr CONFIG_SCHEMA_VERSION), (''containerId'', JStr name), (''containment'', JStr ''process''),
          (''fallback'', JObj [(''allowDaclMutation'', JBool False)]),
          (''lifecycle'', JObj [(''destroyOnExit'', JBool True), (''preservePolicy'', JBool False)]),
          (''process'', JObj [(''commandLine'', JStr (pf_command_line F
               [''python'', ''-m'', ''jobkit'', file (ly_input L) in_name, file (ly_write L) out_name])),
             (''cwd'', JStr (pf_text F (ly_write L))),
             (''env'', JList (map JStr [''PYTHONPATH='' @ pf_text F (ly_payload L), ''PYTHONDONTWRITEBYTECODE=1'',
                ''ONECOMPUTE_ISOLATION=mxc'', ''ONECOMPUTE_PRINCIPAL=job'', ''ONECOMPUTE_JOB_ID='' @ name])),
             (''timeout'', JInt (max (py_int (fmul (fl64 (of_int timeout_s)) 1000)) 1))]),
          (''filesystem'', JObj [(''readonlyPaths'', JList [JStr (pf_text F (ly_input L)), JStr (pf_text F (ly_payload L))]),
             (''readwritePaths'', JList [JStr (pf_text F (ly_write L))]),
             (''deniedPaths'', JList (map JStr (filter_denied_paths F (map snd (protected_locations F))
                [ly_input L, ly_payload L, ly_write L])))]),
          (''network'', JObj [(''defaultPolicy'', JStr (if mode = Some (JStr ''host'') then ''allow'' else ''block''))]),
          (''ui'', JObj [(''disable'', JBool True), (''clipboard'', JStr ''none''), (''injection'', JBool False)]),
          (''processContainer'', JObj [(''leastPrivilege'', JBool (least_privilege (obj_at policy ''privileges''))),
             (''capabilities'', JList [])])])"


definition looks_like_config_path :: "str \<Rightarrow> bool" where
  "looks_like_config_path value \<longleftrightarrow>
     suffix ''.json'' (lower value) \<or> list_ex (\<lambda>c. c = CHR 0x5C \<or> c = CHR ''/'') value"

text \<open>
  \<open>build_mxc_command\<close>: the command and the file written, if any. \<open>encode\<close> is the base64 of the JSON text,
  \<open>exe\<close> the executable found. A given policy argument is a path object (\<open>Inl\<close>) or a string.
\<close>

definition build_mxc_command ::
  "(dict \<Rightarrow> str) \<Rightarrow> str \<Rightarrow> dict \<Rightarrow> (str + str) option \<Rightarrow> str list \<times> (str \<times> dict) option" where
  "build_mxc_command encode exe config policy_arg =
     (case policy_arg of
        None \<Rightarrow> ([exe, ''--config-base64'', encode config], None)
      | Some (Inl p) \<Rightarrow> ([exe, ''--config'', p], Some (p, config))
      | Some (Inr raw) \<Rightarrow>
          (if looks_like_config_path raw then ([exe, ''--config'', raw], Some (raw, config))
           else ([exe, ''--config-base64'', raw], None)))"

section \<open>Is the runtime good enough?\<close>

fun support_value_is_true :: "json \<Rightarrow> bool" where
  "support_value_is_true (JBool b) = b"
| "support_value_is_true (JObj d) =
     (if dict_get d ''supported'' = Some (JBool False) \<or> dict_get d ''available'' = Some (JBool False) then False
      else if dict_get d ''supported'' = Some (JBool True) \<or> dict_get d ''available'' = Some (JBool True) then True
      else list_ex (\<lambda>(k, child). support_value_is_true child) d)"
| "support_value_is_true _ = False"

fun support_value_is_false :: "json \<Rightarrow> bool" where
  "support_value_is_false (JBool b) = (\<not> b)"
| "support_value_is_false (JObj d) =
     (dict_get d ''supported'' = Some (JBool False) \<or> dict_get d ''available'' = Some (JBool False))"
| "support_value_is_false _ = False"

definition is_process_container :: "str \<Rightarrow> bool" where
  "is_process_container key \<longleftrightarrow> lower (filter (\<lambda>c. c \<noteq> CHR ''_'') key) = ''processcontainer''"

fun is_container :: "json \<Rightarrow> bool" where
  "is_container (JObj d) = True"
| "is_container (JList xs) = True"
| "is_container _ = False"

text \<open>
  The two searches walk a stack, top first. For an object the entries are looked at in order; the
  containers among them are pushed one by one, so the last is popped first.
\<close>

fun json_size :: "json \<Rightarrow> nat" where
  "json_size (JObj d) = Suc (sum_list (map (\<lambda>(k, v). json_size v) d))"
| "json_size (JList xs) = Suc (sum_list (map json_size xs))"
| "json_size _ = 1"

definition pushed :: "json \<Rightarrow> json list" where
  "pushed item = (case item of JObj d \<Rightarrow> rev (filter is_container (map snd d)) | JList xs \<Rightarrow> rev xs | _ \<Rightarrow> [])"


lemma json_size_pos [simp]: "0 < json_size v"
  by (cases v) simp_all

lemma pushed_smaller: "sum_list (map json_size (pushed item)) < json_size item"
proof (cases item)
  case (JObj d)
  have "sum_list (map json_size (filter is_container (map snd d))) \<le> sum_list (map (\<lambda>(k, v). json_size v) d)"
    by (induction d) auto
  then show ?thesis by (simp add: JObj pushed_def rev_map [symmetric])
qed (simp_all add: pushed_def rev_map [symmetric])

text \<open>Stacks of values, topmost first: what is popped is smaller than what was on it.\<close>

definition stack_size :: "json list \<Rightarrow> nat" where
  "stack_size stack = sum_list (map json_size stack)"

lemma stack_smaller [simp]: "stack_size (pushed item @ stack) < stack_size (item # stack)"
  using pushed_smaller [of item] by (simp add: stack_size_def)

function probe_support :: "json list \<Rightarrow> bool" where
  "probe_support [] = False"
| "probe_support (item # stack) =
     (case item of
        JObj d \<Rightarrow>
          (case find (\<lambda>(k, v). is_process_container k) d of
             Some (k, v) \<Rightarrow> support_value_is_true v
           | None \<Rightarrow> probe_support (pushed item @ stack))
      | _ \<Rightarrow> probe_support (pushed item @ stack))"
  by pat_completeness auto
termination by (relation "measure stack_size") simp_all

fun rejected_entry :: "str \<times> json \<Rightarrow> bool" where
  "rejected_entry (k, v) \<longleftrightarrow> is_process_container k \<and> support_value_is_false v"

function probe_rejection :: "json list \<Rightarrow> bool" where
  "probe_rejection [] = False"
| "probe_rejection (item # stack) =
     (case item of
        JObj d \<Rightarrow> if list_ex rejected_entry d then True else probe_rejection (pushed item @ stack)
      | _ \<Rightarrow> probe_rejection (pushed item @ stack))"
  by pat_completeness auto
termination by (relation "measure stack_size") simp_all

definition SUPPORTED_TIERS :: "str list" where
  "SUPPORTED_TIERS = [''base-container'', ''appcontainer-bfs'', ''appcontainer-dacl'', ''processcontainer'', ''process-container'']"

definition probe_has_supported_tier :: "dict \<Rightarrow> bool" where
  "probe_has_supported_tier payload =
     (case dict_get payload ''tier'' of
        Some (JStr tier) \<Rightarrow> lower tier \<in> set SUPPORTED_TIERS \<and>
          dict_get payload ''needsDaclAugmentation'' \<noteq> Some (JBool True) \<and>
          false_or_absent (dict_get payload ''warnings'')
      | _ \<Rightarrow> False)"

text \<open>\<open>text_of\<close> is the JSON text of the payload, keys sorted.\<close>

fun probe_payload_is_supported :: "(json \<Rightarrow> str) \<Rightarrow> json \<Rightarrow> bool" where
  "probe_payload_is_supported text_of (JObj payload) =
     (if mentions [''host preparation'', ''host prep''] (text_of (JObj payload)) then False
      else if mentions [''not supported'', ''unsupported''] (text_of (JObj payload)) then False
      else if probe_rejection [JObj payload] then False
      else probe_has_supported_tier payload \<or> probe_support [JObj payload])"
| "probe_payload_is_supported text_of _ = False"

definition probe_output_has_blocking_warning :: "str \<Rightarrow> bool" where
  "probe_output_has_blocking_warning output = mentions [''warning'', ''unsupported'', ''not supported'', ''host preparation'',
     ''host prep'', ''allowdaclmutation'', ''dacl'', ''overly permissive''] output"


text \<open>
  What the three trial runs showed. The filesystem trial's script tries to read and to delete a file
  outside the work directory and writes what it found; the kill trial waits for a heartbeat, stops the
  container and looks whether the heart still beats.
\<close>

record trial_run =
  tr_code :: int
  tr_stdout :: str
  tr_stderr :: str

definition probe_policy_dry_run :: "trial_run option \<Rightarrow> bool" where
  "probe_policy_dry_run r =
     (case r of None \<Rightarrow> False
      | Some t \<Rightarrow> tr_code t = 0 \<and> \<not> probe_output_has_blocking_warning (tr_stdout t @ [CHR 0x0A] @ tr_stderr t))"

definition probe_filesystem_denial :: "trial_run option \<Rightarrow> output_file \<Rightarrow> bool \<Rightarrow> bool" where
  "probe_filesystem_denial r result outside_marker_exists =
     (case r of None \<Rightarrow> False
      | Some t \<Rightarrow>
          (if tr_code t \<noteq> 0 \<or> result = Missing then False
           else case result of
               Written (JObj d) \<Rightarrow> dict_get d ''read_denied'' = Some (JBool True) \<and>
                 dict_get d ''delete_denied'' = Some (JBool True) \<and> outside_marker_exists
             | _ \<Rightarrow> False))"

record kill_trial =
  kt_started :: bool
  kt_alive_with_heartbeat :: bool   \<comment> \<open>within two seconds\<close>
  kt_before_stop :: str
  kt_after_stop :: str
  kt_exited :: bool
  kt_stop_seconds :: rat

definition STOP_DEADLINE_S :: rat where "STOP_DEADLINE_S = 1"

definition probe_kill_semantics :: "kill_trial \<Rightarrow> bool" where
  "probe_kill_semantics k =
     (if \<not> kt_started k then False
      else if \<not> kt_alive_with_heartbeat k then False
      else kt_exited k \<and> kt_stop_seconds k < STOP_DEADLINE_S \<and> kt_after_stop k = kt_before_stop k)"

record mxc_host =
  mh_exe :: "str option"
  mh_probe :: "trial_run option"          \<comment> \<open>\<open>None\<close>: it could not be run or timed out\<close>
  mh_loads :: "str \<Rightarrow> json option"
  mh_text_of :: "json \<Rightarrow> str"
  mh_dry_run :: "trial_run option"
  mh_fs_run :: "trial_run option"
  mh_fs_result :: output_file
  mh_outside_marker :: bool
  mh_kill :: kill_trial

definition probe_runtime :: "mxc_host \<Rightarrow> bool" where
  "probe_runtime H =
     (case (mh_exe H, mh_probe H) of
        (Some exe, Some t) \<Rightarrow>
          (if tr_code t \<noteq> 0 then False
           else if strip (tr_stdout t) = [] then False
           else case mh_loads H (strip (tr_stdout t)) of
               None \<Rightarrow> False
             | Some payload \<Rightarrow> probe_payload_is_supported (mh_text_of H) payload \<and>
                 probe_policy_dry_run (mh_dry_run H) \<and>
                 probe_filesystem_denial (mh_fs_run H) (mh_fs_result H) (mh_outside_marker H) \<and>
                 probe_kill_semantics (mh_kill H))
      | _ \<Rightarrow> False)"

text \<open>
  \<open>mxc_available\<close> and \<open>docker_available\<close>: an answer is kept for thirty seconds. \<open>now\<close> is the time of the call,
  \<open>later\<close> the time at which the probe has answered.
\<close>

type_synonym probe_cache = "(rat \<times> bool) option"

definition PROBE_TTL_S :: rat where "PROBE_TTL_S = 30"

definition cached_probe :: "bool \<Rightarrow> rat \<Rightarrow> rat \<Rightarrow> bool \<Rightarrow> probe_cache \<Rightarrow> bool \<times> probe_cache" where
  "cached_probe force now later probe cache =
     (case cache of
        Some (ts, value) \<Rightarrow>
          (if \<not> force \<and> fsub now ts < PROBE_TTL_S then (value, cache) else (probe, Some (later, probe)))
      | None \<Rightarrow> (probe, Some (later, probe)))"

definition mxc_available :: "bool \<Rightarrow> rat \<Rightarrow> rat \<Rightarrow> mxc_host \<Rightarrow> probe_cache \<Rightarrow> bool \<times> probe_cache" where
  "mxc_available force now later H cache = cached_probe force now later (probe_runtime H) cache"

section \<open>What a policy permits\<close>

lemma build_policy_filesystem [simp]:
  "dict_get (build_policy F wd net sub allow jid) ''filesystem'' =
     Some (JObj (policy_filesystem F (payload_path F (pf_resolve F wd) sub) (pf_resolve F wd)))"
  by (simp add: build_policy_def Let_def dict_get_def)

lemma policy_filesystem_get [simp]:
  "dict_get (policy_filesystem F q w) ''work_dir'' = Some (JStr (pf_text F w))"
  "dict_get (policy_filesystem F q w) ''rules'' = Some (JList (policy_rules F q w))"
  by (simp_all add: policy_filesystem_def dict_get_def)

lemma rule_matches_access [simp]:
  "rule_matches F p (access_rule t a d r) \<longleftrightarrow> is_same_or_child F p (pf_resolve F t)"
  by (simp add: access_rule_def get_or_def dict_get_def)

lemma allows_write_access [simp]: "allows_write (access_rule t a d r) \<longleftrightarrow> ''write'' \<in> set a"
  by (auto simp: access_rule_def get_or_def dict_get_def)

lemma rule_path_length_access [simp]: "rule_path_length (access_rule t a d r) = length t"
  by (simp add: access_rule_def dict_get_def)

definition settled :: "path_platform \<Rightarrow> path \<Rightarrow> bool" where
  "settled F p \<longleftrightarrow> pf_resolve F (pf_text F p) = p"

lemma permits_write_build_policy:
  assumes "w = pf_resolve F wd" "q = payload_path F w sub"
    and "settled F w" "settled F q" "length (pf_text F w) < length (pf_text F q)"
  shows "permits_write F (build_policy F wd net sub allow jid) p \<longleftrightarrow>
      is_same_or_child F (pf_resolve F p) w \<and> \<not> is_same_or_child F (pf_resolve F p) q"
  using assms(3-5) by (simp add: permits_write_def policy_rules_def settled_def best_rule_def flip: assms(1,2))

lemma denies_delete_build_policy:
  assumes "settled F (pf_resolve F wd)"
  shows "denies_delete_outside F (build_policy F wd net sub allow jid) p \<longleftrightarrow>
      \<not> is_same_or_child F (pf_resolve F p) (pf_resolve F wd)"
  using assms by (simp add: denies_delete_outside_def policy_work_path_def settled_def)

lemma payload_inside_or_fallback:
  "is_same_or_child F (payload_path F w sub) w \<or>
   payload_path F w sub = pf_join F w (if pf_name F sub = [] then ''src'' else pf_name F sub) \<or> sub = []"
  by (simp add: payload_path_def Let_def)

section \<open>The configuration follows the policy\<close>

lemma build_policy_network:
  "dict_get (obj_at (build_policy F wd net sub allow jid) ''network'') ''mode'' = Some (JStr (network_mode net allow))"
  by (simp add: build_policy_def obj_at_def dict_get_def Let_def)

lemma build_policy_least_privilege:
  "least_privilege (obj_at (build_policy F wd net sub allow jid) ''privileges'')"
  by (simp add: build_policy_def obj_at_def least_privilege_def dict_get_def Let_def)

lemma config_network:
  "obj_at (build_mxc_config F L i n net t name) ''network'' =
     [(''defaultPolicy'', JStr (if net = ''host'' then ''allow'' else ''block''))]"
  using build_policy_network [of F "pf_text F (ly_write L)" net "''src''" None "Some name"]
  unfolding build_mxc_config_def Let_def by (simp add: obj_at_def [of "_ # _"] dict_get_def network_mode_def)

lemma denied_paths_spare_roots:
  assumes "raw \<in> set (filter_denied_paths F ps allowed)" "a \<in> set allowed"
  shows "\<not> is_same_or_child F a (pf_resolve F raw)"
  using assms by (auto simp: filter_denied_paths_def list_ex_iff)

section \<open>A refusal anywhere in the probe's answer counts\<close>

fun refuses :: "json \<Rightarrow> bool" where
  "refuses (JObj d) = (list_ex rejected_entry d \<or> list_ex (\<lambda>(k, v). refuses v) d)"
| "refuses (JList xs) = list_ex refuses xs"
| "refuses _ = False"

lemma refuses_container: "refuses v \<Longrightarrow> is_container v"
  by (cases v) auto

lemma pushed_refuses: "refuses item \<longleftrightarrow> (\<exists>d. item = JObj d \<and> list_ex rejected_entry d) \<or> list_ex refuses (pushed item)"
proof (cases item)
  case (JObj d)
  have "list_ex (\<lambda>(k, v). refuses v) d \<longleftrightarrow> list_ex refuses (filter is_container (map snd d))"
    by (induction d) (auto dest: refuses_container)
  then show ?thesis by (simp add: JObj pushed_def list_ex_rev)
qed (simp_all add: pushed_def list_ex_rev)

lemma probe_rejection_refuses: "probe_rejection stack \<longleftrightarrow> list_ex refuses stack"
proof (induction stack rule: probe_rejection.induct)
  case (2 item stack)
  then show ?case using pushed_refuses [of item] by (cases item) auto
qed simp


lemma refusal_makes_runtime_unavailable:
  assumes "mh_probe H = Some t" "mh_loads H (strip (tr_stdout t)) = Some payload" "refuses payload"
  shows "\<not> probe_runtime H"
proof -
  have "\<not> probe_payload_is_supported (mh_text_of H) payload"
    using assms(3) by (cases payload) (auto simp: probe_rejection_refuses)
  with assms(1,2) show ?thesis by (simp add: probe_runtime_def split: option.split)
qed

text \<open>An answer from the cache is younger than its time to live; a forced call always probes.\<close>

lemma cached_probe_fresh:
  "fst (cached_probe force now later probe cache) \<noteq> probe \<Longrightarrow>
     \<not> force \<and> (\<exists>ts. cache = Some (ts, \<not> probe) \<and> fsub now ts < PROBE_TTL_S)"
  by (auto simp: cached_probe_def split: option.splits prod.splits if_splits)

section \<open>POSIX paths\<close>

fun split_path :: "str \<Rightarrow> path" where
  "split_path [] = [[]]"
| "split_path (c # s) = (case split_path s of
     [] \<Rightarrow> [[c]]
   | w # ws \<Rightarrow> if c = CHR ''/'' then [] # w # ws else (c # w) # ws)"

definition normalize_path :: "path \<Rightarrow> path" where
  "normalize_path p = fold (\<lambda>c acc. if c = [] \<or> c = ''.'' then acc else if c = ''..'' then butlast acc else acc @ [c]) p []"

definition posix_text :: "path \<Rightarrow> str" where
  "posix_text p = (if p = [] then ''/'' else concat (map (\<lambda>c. CHR ''/'' # c) p))"

definition posix :: path_platform where
  "posix = \<lparr>pf_nt = False, pf_casefold = (\<lambda>s. s), pf_text = posix_text,
     pf_resolve = (\<lambda>s. normalize_path (split_path s)), pf_join = (\<lambda>p s. normalize_path (p @ split_path s)),
     pf_name = (\<lambda>s. last ([] # filter (\<lambda>c. c \<noteq> [] \<and> c \<noteq> ''.'') (split_path s))), pf_home = ''/home/u'', pf_environ = (\<lambda>_. None),
     pf_uuid5 = (\<lambda>s. s), pf_command_line = concat\<rparr>"

section \<open>The work directory is the only writable place\<close>

text \<open>C36. The sandbox policy of a job lets it write a path exactly when the path is below its work
  directory and not below the job's own code, whatever the network setting and the job's id; and deleting
  a path is denied exactly when it is outside the work directory. (The two directories are resolved
  paths, and the code's directory is a proper subdirectory, so its path is the longer.)\<close>

theorem job_writes_stay_in_work_dir:
  assumes "w = pf_resolve F wd" "q = payload_path F w sub"
    and "settled F w" "settled F q" "length (pf_text F w) < length (pf_text F q)"
  shows "permits_write F (build_policy F wd net sub allow jid) p =
        (is_same_or_child F (pf_resolve F p) w \<and> \<not> is_same_or_child F (pf_resolve F p) q) \<and>
      denies_delete_outside F (build_policy F wd net sub allow jid) p = (\<not> is_same_or_child F (pf_resolve F p) w)"
  using permits_write_build_policy [OF assms] denies_delete_build_policy [of F wd] assms(1,3) by simp

lemma job_writes_stay_in_work_dir_witness:
  "permits_write posix (build_policy posix ''/tmp/job'' ''none'' ''src'' None None) ''/tmp/job/out.json'' \<and>
   \<not> permits_write posix (build_policy posix ''/tmp/job'' ''none'' ''src'' None None) ''/tmp/job/src/jobkit.py'' \<and>
   \<not> permits_write posix (build_policy posix ''/tmp/job'' ''none'' ''src'' None None) ''/tmp/job/../etc/x''"
proof -
  let ?w = "[''tmp'', ''job'']" and ?q = "[''tmp'', ''job'', ''src'']"
  have w: "?w = pf_resolve posix ''/tmp/job''" and q: "?q = payload_path posix ?w ''src''"
    and s: "settled posix ?w" "settled posix ?q" "length (pf_text posix ?w) < length (pf_text posix ?q)"
    by (code_simp)+
  note perm = job_writes_stay_in_work_dir [OF w q s, of "''none''" None None, THEN conjunct1]
  show ?thesis unfolding perm by code_simp
qed

text \<open>
  The fallback keeps only the last component of the requested directory, but that may itself be the
  parent: the policy then lets the job read the parent of its work directory.
\<close>

lemma payload_fallback_escapes:
  "payload_path posix [''tmp'', ''job''] ''../..'' = [''tmp'']"
  by code_simp

end
