(* ===== verification/Measure.thy ===== *)
theory Measure imports Agent Profiles begin

text \<open>
  The measurement-only mode of \<open>src/worker/__main__.py\<close> with \<open>WorkerAgent.report_profile\<close>: folding samples
  into the on-device profile, saving it, and uploading a derived summary now and then. A round is given
  what the sensors, the disk and the orchestrator answer. The lemmas show that the profile stays well
  formed, that uploads are as rare as promised, that the orchestrator stores exactly what an honest
  worker sends, and that a GPU without a single valid sample is nevertheless reported as idle.
\<close>

section \<open>One upload\<close>

text \<open>What \<open>report_profile\<close> takes from a bucket: the count of GPU samples is not among it.\<close>

definition upload_bucket :: "bucket_stat \<Rightarrow> dict" where
  "upload_bucket b =
     (let f = (\<lambda>x. JFloat (Fin x))
      in [(''n'', JInt (st_n b)), (''cpu_mean'', f (st_cpu_mean b)), (''cpu_max'', f (st_cpu_max b)),
          (''gpu_mean'', f (st_gpu_mean b)), (''gpu_max'', f (st_gpu_max b)), (''ram_mean'', f (st_ram_mean b)),
          (''ram_max'', f (st_ram_max b)), (''ac_mean'', f (st_ac_mean b)), (''idle_mean'', f (st_idle_mean b))])"

definition profile_report_of :: "conversions \<Rightarrow> agent \<Rightarrow> str \<Rightarrow> usage_profiler \<Rightarrow> py_error + profile_report" where
  "profile_report_of C a device_class p =
     bind_err (normalize_buckets C (JList (map (\<lambda>b. JObj (upload_bucket b)) (up_buckets p)))) (\<lambda>local_buckets.
       (let summary = summarize_profile DEFAULT_MARGIN_PCT DEFAULT_HARVEST_LOW DEFAULT_HARVEST_HIGH
              (Some (cap_has_gpu (ag_capability a))) local_buckets;
            availability = summarize_availability (up_availability p) []
        in Inr \<lparr>pr_worker_id = ag_worker_id a, pr_device_class = device_class,
             pr_coverage_buckets = int (su_coverage summary), pr_cpu = summary_metric (su_cpu summary),
             pr_gpu = summary_metric (su_gpu summary), pr_gpu_sampled = su_gpu_sampled summary,
             pr_ram_avg = Fin (su_ram_avg summary), pr_ram_headroom = Fin (su_ram_headroom summary),
             pr_ac_avg = Fin (su_ac_avg summary),
             pr_availability = \<lparr>ai_span_hours = Fin (fdiv (av_span_seconds availability) 3600),
               ai_observed_hours_per_day = Fin (av_observed_hours_per_day availability),
               ai_unavailable_hours_per_day = Fin (av_unavailable_hours_per_day availability),
               ai_sample_count = sample_count (up_availability p)\<rparr>,
             pr_buckets = []\<rparr>))"

text \<open>
  \<open>report_profile\<close>: the agent after it, whether the upload was accepted, and the report that was sent.
  The body of a successful answer is not looked at.
\<close>

definition has_token :: "agent \<Rightarrow> bool" where
  "has_token a \<longleftrightarrow> (case ag_worker_token a of None \<Rightarrow> False | Some t \<Rightarrow> t \<noteq> [])"

definition report_profile ::
  "conversions \<Rightarrow> str \<Rightarrow> usage_profiler \<Rightarrow> unit reply \<Rightarrow> agent \<Rightarrow> agent \<times> bool \<times> profile_report option" where
  "report_profile C device_class p rep a =
     (if \<not> ag_registered a \<or> \<not> has_token a then (a, False, None)
      else case profile_report_of C a device_class p of
          Inl _ \<Rightarrow> (a, False, None)
        | Inr report \<Rightarrow>
            (case rep of
               StatusError c \<Rightarrow> (if c \<in> {401, 403} then clear_registration a else a, False, Some report)
             | NetworkError \<Rightarrow> (a, False, Some report)
             | _ \<Rightarrow> (a, True, Some report)))"

section \<open>Sampling\<close>

definition MIN_MEASURE_INTERVAL_SECONDS :: rat where "MIN_MEASURE_INTERVAL_SECONDS = 5"
definition MAX_MEASURE_INTERVAL_SECONDS :: rat where "MAX_MEASURE_INTERVAL_SECONDS = 3600"
definition PROFILE_SAVE_INTERVAL_SECONDS :: rat where "PROFILE_SAVE_INTERVAL_SECONDS = 60"
definition PROFILE_UPLOAD_INTERVAL_SECONDS :: rat where "PROFILE_UPLOAD_INTERVAL_SECONDS = 300"

definition live_cpu_pct :: "reading \<Rightarrow> governor \<Rightarrow> governor \<times> rat option" where
  "live_cpu_pct r g = (case rd_psutil r of Some v \<Rightarrow> (g, Some v) | None \<Rightarrow> system_cpu_sample r g)"

definition measurement_pct :: "str \<Rightarrow> pyfloat option \<Rightarrow> py_error + rat" where
  "measurement_pct name value =
     (case value of
        None \<Rightarrow> Inl (OtherError (name @ '' utilization is unavailable''))
      | Some (Fin x) \<Rightarrow> Inr (max 0 (min 100 x))
      | Some _ \<Rightarrow> Inl (OtherError (name @ '' utilization is not finite'')))"

text \<open>What one round meets: sensors, wall clock, disk, and the orchestrator's answers.\<close>

record sample_round =
  sn_reading :: reading
  sn_wall :: pyfloat
  sn_written :: bool
  sn_register :: "register_response reply"
  sn_heartbeat :: "heartbeat_response reply"
  sn_post :: "unit reply"

record measure_settings =
  mz_conversions :: conversions
  mz_upload :: bool
  mz_device_class :: str
  mz_interval :: rat
  mz_save_every :: nat
  mz_post_every :: nat

record measure_state =
  ml_agent :: agent
  ml_governor :: governor
  ml_samples :: nat
  ml_last_upload :: nat
  ml_disk :: "dict option"
  ml_sent :: "profile_report list"     \<comment> \<open>every report that left the machine\<close>
  ml_uploads :: nat                     \<comment> \<open>how many of them were accepted\<close>

definition persist :: "bool \<Rightarrow> measure_state \<Rightarrow> measure_state \<times> bool" where
  "persist written st =
     (let (ok, payload) = save (gv_profiler (ml_governor st)) written
      in (case payload of None \<Rightarrow> st | Some d \<Rightarrow> st\<lparr>ml_disk := Some d\<rparr>, ok))"

definition every :: "rat \<Rightarrow> rat \<Rightarrow> nat" where
  "every period interval = (if 0 < interval then nat (max 1 (rne (fdiv period interval))) else 1)"

definition enrolled :: "sample_round \<Rightarrow> measure_state \<Rightarrow> measure_state \<times> bool" where
  "enrolled sn st =
     (let (a, ok) = ensure_measurement_enrollment (sn_register sn) (sn_heartbeat sn) (ml_agent st)
      in (st\<lparr>ml_agent := a\<rparr>, ok))"

definition upload_profile :: "measure_settings \<Rightarrow> sample_round \<Rightarrow> measure_state \<Rightarrow> measure_state" where
  "upload_profile Z sn st =
     (let (a, ok, sent) = report_profile (mz_conversions Z) (mz_device_class Z) (gv_profiler (ml_governor st)) (sn_post sn) (ml_agent st);
          st1 = st\<lparr>ml_agent := a, ml_sent := ml_sent st @ (case sent of None \<Rightarrow> [] | Some r \<Rightarrow> [r])\<rparr>
      in if ok then st1\<lparr>ml_last_upload := ml_samples st, ml_uploads := ml_uploads st + 1\<rparr> else st1)"

text \<open>The enrolment is refreshed first, then the interval is looked at, then the profile is sent.\<close>

definition maybe_upload :: "measure_settings \<Rightarrow> sample_round \<Rightarrow> measure_state \<Rightarrow> measure_state" where
  "maybe_upload Z sn st =
     (let (st1, ready) = enrolled sn st
      in if ready \<and> (ml_last_upload st = 0 \<or> mz_post_every Z \<le> ml_samples st - ml_last_upload st)
         then upload_profile Z sn st1 else st1)"

definition learn :: "measure_settings \<Rightarrow> sample_round \<Rightarrow> rat \<Rightarrow> rat option \<Rightarrow> rat \<Rightarrow> governor \<Rightarrow> governor" where
  "learn Z sn cpu gpu ram g =
     (let rd = sn_reading sn;
          p = record_usage (gv_profiler g) \<lparr>ob_cpu = Fin cpu, ob_gpu = map_option Fin gpu, ob_ram = Fin ram,
                ob_at = rd_now rd 0, ob_on_ac = on_ac_state (rd_gate rd 0),
                ob_idle = user_idle_state (gv_gate g) (rd_gate rd 0)\<rparr>
      in g\<lparr>gv_profiler := record_availability p (sn_wall sn) (Fin (if mz_interval Z = 0 then 30 else mz_interval Z))\<rparr>)"

definition gpu_sample :: "agent \<Rightarrow> reading \<Rightarrow> rat option" where
  "gpu_sample a rd =
     (if cap_has_gpu (ag_capability a)
      then (case measurement_pct ''GPU'' (map_option Fin (rd_gpu rd)) of Inl _ \<Rightarrow> None | Inr x \<Rightarrow> Some x) else None)"

text \<open>One pass of the loop's body: an exception skips the rest of it.\<close>

definition save_and_upload :: "measure_settings \<Rightarrow> sample_round \<Rightarrow> measure_state \<Rightarrow> measure_state" where
  "save_and_upload Z sn st =
     (let save_due = (ml_samples st = 1 \<or> ml_samples st mod mz_save_every Z = 0);
          (st1, persisted) = (if save_due then persist (sn_written sn) st else (st, False))
      in if mz_upload Z \<and> persisted then maybe_upload Z sn st1 else st1)"

definition measure_sample :: "measure_settings \<Rightarrow> sample_round \<Rightarrow> measure_state \<Rightarrow> measure_state" where
  "measure_sample Z sn st =
     (let rd = sn_reading sn; (g, cpu_raw) = live_cpu_pct rd (ml_governor st); st0 = st\<lparr>ml_governor := g\<rparr>
      in case (measurement_pct ''CPU'' (map_option Fin cpu_raw), measurement_pct ''RAM'' (map_option Fin (rd_ram rd))) of
           (Inr cpu, Inr ram) \<Rightarrow>
             save_and_upload Z sn
               (st0\<lparr>ml_governor := learn Z sn cpu (gpu_sample (ml_agent st) rd) ram g, ml_samples := ml_samples st + 1\<rparr>)
         | _ \<Rightarrow> st0)"

text \<open>The last save and upload when the loop is left.\<close>

definition measure_finish :: "measure_settings \<Rightarrow> sample_round \<Rightarrow> measure_state \<Rightarrow> measure_state" where
  "measure_finish Z sn st =
     (let (st1, persisted) = persist (sn_written sn) st
      in if mz_upload Z \<and> persisted \<and> 0 < ml_samples st \<and> ml_last_upload st \<noteq> ml_samples st
         then (let (st2, ready) = enrolled sn st1 in if ready then upload_profile Z sn st2 else st2)
         else st1)"

text \<open>\<open>run_measure_loop\<close> over the rounds it is given until it is interrupted; \<open>once\<close> takes the first only.\<close>

definition settings_for :: "conversions \<Rightarrow> bool \<Rightarrow> str \<Rightarrow> rat \<Rightarrow> measure_settings" where
  "settings_for C upload device_class i =
     \<lparr>mz_conversions = C, mz_upload = upload, mz_device_class = device_class, mz_interval = i,
      mz_save_every = every PROFILE_SAVE_INTERVAL_SECONDS i, mz_post_every = every PROFILE_UPLOAD_INTERVAL_SECONDS i\<rparr>"

definition run_measure_loop ::
  "conversions \<Rightarrow> bool \<Rightarrow> bool \<Rightarrow> str \<Rightarrow> pyfloat \<Rightarrow> sample_round list \<Rightarrow> sample_round \<Rightarrow> measure_state \<Rightarrow> py_error + measure_state" where
  "run_measure_loop C once upload device_class interval rounds final st =
     (case interval of
        Fin i \<Rightarrow>
          (let i = max 0 i;
               Z = settings_for C upload device_class i
           in if \<not> once \<and> i < MIN_MEASURE_INTERVAL_SECONDS then Inl (ValueError ''continuous measurement interval'')
              else if \<not> once \<and> MAX_MEASURE_INTERVAL_SECONDS < i then Inl (ValueError ''continuous measurement interval'')
              else Inr (measure_finish Z final (fold (measure_sample Z) (if once then take 1 rounds else rounds) st)))
      | _ \<Rightarrow> Inl (ValueError ''measurement interval must be finite''))"

definition measure_start :: "agent \<Rightarrow> governor \<Rightarrow> measure_state" where
  "measure_start a g = \<lparr>ml_agent = a, ml_governor = g, ml_samples = 0, ml_last_upload = 0, ml_disk = None,
     ml_sent = [], ml_uploads = 0\<rparr>"

text \<open>\<open>_wait_for_headroom\<close>: the checks until the machine is free (\<open>None\<close>: the check raised), one each step.\<close>

fun wait_for_headroom :: "rat \<Rightarrow> rat \<Rightarrow> rat \<Rightarrow> bool option list \<Rightarrow> nat \<times> bool" where
  "wait_for_headroom step base_interval waited [] = (0, False)"
| "wait_for_headroom step base_interval waited (c # cs) =
     (if waited < base_interval
      then if c = Some True then (1, True)
           else (let (n, found) = wait_for_headroom step base_interval (fadd waited step) cs in (Suc n, found))
      else (0, False))"


section \<open>What is sent\<close>

definition sent_bucket :: "bucket_stat \<Rightarrow> bucket" where
  "sent_bucket b = \<lparr>bk_n = st_n b, bk_gpu_n = -1, bk_cpu_mean = st_cpu_mean b, bk_cpu_max = st_cpu_max b,
     bk_gpu_mean = st_gpu_mean b, bk_gpu_max = st_gpu_max b, bk_ram_mean = st_ram_mean b, bk_ram_max = st_ram_max b,
     bk_ac_mean = st_ac_mean b, bk_idle_mean = st_idle_mean b\<rparr>"

definition measured :: "usage_profiler \<Rightarrow> bucket list" where
  "measured p = map sent_bucket (filter (\<lambda>b. 0 < st_n b) (up_buckets p))"

lemma read_upload_bucket: "read_bucket C (upload_bucket b) (st_n b) = Inr (sent_bucket b)"
  by (simp add: read_bucket_def upload_bucket_def sent_bucket_def get_or_def dict_get_def finite_float_def bucket_gpu_count_def Let_def)

lemma upload_bucket_count: "bucket_count C (upload_bucket b) = (if st_n b \<le> 0 then None else Some (st_n b))"
  by (simp add: bucket_count_def get_int_def get_or_def dict_get_def upload_bucket_def Let_def)

lemma read_upload_buckets:
  "read_buckets C (map (\<lambda>b. JObj (upload_bucket b)) bs) = Inr (map sent_bucket (filter (\<lambda>b. 0 < st_n b) bs))"
  by (induction bs) (simp_all add: read_upload_bucket upload_bucket_count)

lemma normalize_upload:
  "length (up_buckets p) = BUCKETS \<Longrightarrow>
     normalize_buckets C (JList (map (\<lambda>b. JObj (upload_bucket b)) (up_buckets p))) = Inr (measured p)"
  by (simp add: normalize_buckets_def read_upload_buckets measured_def BUCKETS_def BUCKETS_PER_WEEK_def)

lemma measured_ok:
  assumes "profiler_ok p"
  shows "list_all bucket_ok (measured p)" "length (measured p) \<le> 168"
  using assms length_filter_le [of "\<lambda>b. 0 < st_n b" "up_buckets p"]
  by (auto simp: profiler_ok_def measured_def list_all_iff stat_ok_def bucket_ok_def sent_bucket_def BUCKETS_def)

definition profile_summary_of :: "agent \<Rightarrow> usage_profiler \<Rightarrow> profile_summary" where
  "profile_summary_of a p = summarize_profile DEFAULT_MARGIN_PCT DEFAULT_HARVEST_LOW DEFAULT_HARVEST_HIGH
     (Some (cap_has_gpu (ag_capability a))) (measured p)"

lemma profile_summary_ok:
  assumes "profiler_ok p"
  shows "summary_ok (profile_summary_of a p)"
proof -
  have "length (measured p) < 2 ^ 40" using measured_ok(2) [OF assms] by simp
  with measured_ok(1) [OF assms] show ?thesis
    unfolding profile_summary_of_def by (rule summarize_profile_ok) (use harvest_bounds in \<open>simp_all add: DEFAULT_MARGIN_PCT_def\<close>)
qed

definition timing_sent :: "usage_profiler \<Rightarrow> availability_input" where
  "timing_sent p =
     (let availability = summarize_availability (up_availability p) []
      in \<lparr>ai_span_hours = Fin (fdiv (av_span_seconds availability) 3600),
          ai_observed_hours_per_day = Fin (av_observed_hours_per_day availability),
          ai_unavailable_hours_per_day = Fin (av_unavailable_hours_per_day availability),
          ai_sample_count = sample_count (up_availability p)\<rparr>)"

lemma profile_report_of_measured:
  assumes "length (up_buckets p) = BUCKETS"
  obtains r where "profile_report_of C a cls p = Inr r" "pr_worker_id r = ag_worker_id a" "pr_device_class r = cls"
    "pr_coverage_buckets r = int (length (measured p))" "pr_cpu r = summary_metric (su_cpu (profile_summary_of a p))"
    "pr_gpu r = summary_metric (su_gpu (profile_summary_of a p))" "pr_gpu_sampled r = su_gpu_sampled (profile_summary_of a p)"
    "pr_ram_avg r = Fin (su_ram_avg (profile_summary_of a p))" "pr_ac_avg r = Fin (su_ac_avg (profile_summary_of a p))"
    "pr_ram_headroom r = Fin (su_ram_headroom (profile_summary_of a p))" "pr_availability r = timing_sent p"
    "pr_buckets r = []"
proof -
  have "su_coverage (profile_summary_of a p) = length (measured p)"
    by (simp add: profile_summary_of_def summarize_profile_def Let_def)
  then show thesis
    by (intro that [of "projr (profile_report_of C a cls p)"])
      (simp_all add: profile_report_of_def normalize_upload [OF assms] Let_def profile_summary_of_def timing_sent_def)
qed

text \<open>The stored form of a metric: its peak is at least its average.\<close>

definition metric_as_stored :: "metric_summary \<Rightarrow> metric" where
  "metric_as_stored m = \<lparr>mt_avg = ms_avg m, mt_peak = max (ms_avg m) (ms_peak m), mt_recoverable_low = ms_low m,
     mt_recoverable_high = ms_high m\<rparr>"

lemma sanitize_honest_metric: "metric_ok m \<Longrightarrow> sanitize_metric (summary_metric m) = metric_as_stored m"
  by (auto simp: metric_ok_def sanitize_metric_def summary_metric_def metric_as_stored_def Let_def clamp_pct_Fin pct_def)

section \<open>A measured profile stays well formed\<close>

lemma record_availability_ok: "profiler_ok p \<Longrightarrow> profiler_ok (record_availability p w i)"
  by (simp add: profiler_ok_def record_availability_def record_sample_ok)

lemma live_cpu_profiler [simp]: "gv_profiler (fst (live_cpu_pct rd g)) = gv_profiler g"
  by (auto simp: live_cpu_pct_def system_cpu_sample_def split: option.split prod.split)

lemma persist_governor [simp]: "ml_governor (fst (persist w st)) = ml_governor st"
  by (auto simp: persist_def split: prod.split option.split)

lemma enrolled_governor [simp]: "ml_governor (fst (enrolled sn st)) = ml_governor st"
  by (simp add: enrolled_def split: prod.split)

lemma upload_governor [simp]: "ml_governor (upload_profile Z sn st) = ml_governor st"
  by (simp add: upload_profile_def Let_def split: prod.split)

lemma maybe_upload_governor [simp]: "ml_governor (maybe_upload Z sn st) = ml_governor st"
  by (simp add: maybe_upload_def Let_def case_prod_beta)

lemma learn_ok: "profiler_ok (gv_profiler g) \<Longrightarrow> profiler_ok (gv_profiler (learn Z sn c u m g))"
  by (simp add: learn_def Let_def record_availability_ok record_usage_ok)

lemma persist_frame: "\<exists>d. fst (persist w st) = st\<lparr>ml_disk := d\<rparr>"
  by (cases st) (auto simp: persist_def split: prod.split option.split)

text \<open>A pass either records nothing, or takes one sample and may then upload.\<close>

lemma save_and_upload_cases:
  obtains d where "save_and_upload Z sn st \<in> {st\<lparr>ml_disk := d\<rparr>, maybe_upload Z sn (st\<lparr>ml_disk := d\<rparr>)}"
proof -
  obtain d where d: "fst (persist (sn_written sn) st) = st\<lparr>ml_disk := d\<rparr>" using persist_frame by blast
  have same: "st\<lparr>ml_disk := ml_disk st\<rparr> = st" by simp
  show thesis
  proof (cases "ml_samples st = 1 \<or> ml_samples st mod mz_save_every Z = 0")
    case True
    then show ?thesis by (intro that [of d]) (simp add: save_and_upload_def Let_def case_prod_beta d)
  next
    case False
    then show ?thesis by (intro that [of "ml_disk st"]) (simp add: save_and_upload_def Let_def same)
  qed
qed

lemma measure_sample_cases:
  obtains (skipped) g where "measure_sample Z sn st = st\<lparr>ml_governor := g\<rparr>" "gv_profiler g = gv_profiler (ml_governor st)"
  | (recorded) g st' cpu ram d where "gv_profiler g = gv_profiler (ml_governor st)"
      "st' = st\<lparr>ml_governor := learn Z sn cpu (gpu_sample (ml_agent st) (sn_reading sn)) ram g, ml_samples := ml_samples st + 1, ml_disk := d\<rparr>"
      "measure_sample Z sn st \<in> {st', maybe_upload Z sn st'}"
proof -
  obtain g cpu_raw where l: "live_cpu_pct (sn_reading sn) (ml_governor st) = (g, cpu_raw)" by fastforce
  then have g: "gv_profiler g = gv_profiler (ml_governor st)"
    using live_cpu_profiler [of "sn_reading sn" "ml_governor st"] by simp
  show thesis
  proof (cases "\<exists>cpu ram. measurement_pct ''CPU'' (map_option Fin cpu_raw) = Inr cpu \<and>
      measurement_pct ''RAM'' (map_option Fin (rd_ram (sn_reading sn))) = Inr ram")
    case True
    then obtain cpu ram where c: "measurement_pct ''CPU'' (map_option Fin cpu_raw) = Inr cpu"
      "measurement_pct ''RAM'' (map_option Fin (rd_ram (sn_reading sn))) = Inr ram" by blast
    define st1 where "st1 = st\<lparr>ml_governor := learn Z sn cpu (gpu_sample (ml_agent st) (sn_reading sn)) ram g, ml_samples := ml_samples st + 1\<rparr>"
    have "measure_sample Z sn st = save_and_upload Z sn st1" by (simp add: measure_sample_def l c Let_def st1_def)
    moreover obtain d where "save_and_upload Z sn st1 \<in> {st1\<lparr>ml_disk := d\<rparr>, maybe_upload Z sn (st1\<lparr>ml_disk := d\<rparr>)}"
      by (rule save_and_upload_cases)
    ultimately show ?thesis by (intro recorded [where g = g and st' = "st1\<lparr>ml_disk := d\<rparr>" and cpu = cpu and ram = ram and d = d])
        (simp_all add: st1_def g)
  next
    case False
    then have "measure_sample Z sn st = st\<lparr>ml_governor := g\<rparr>" by (auto simp: measure_sample_def l Let_def split: sum.split)
    then show ?thesis using skipped g by blast
  qed
qed

lemma measure_sample_ok:
  assumes "profiler_ok (gv_profiler (ml_governor st))"
  shows "profiler_ok (gv_profiler (ml_governor (measure_sample Z sn st)))"
  by (rule measure_sample_cases [of Z sn st]) (use assms learn_ok in auto)

section \<open>Uploads are rare\<close>

text \<open>
  Between two accepted uploads of the loop there are at least \<open>mz_post_every\<close> samples, so their number is
  bounded by the number of samples; the final one comes on top.
\<close>

definition paced :: "measure_settings \<Rightarrow> measure_state \<Rightarrow> bool" where
  "paced Z st \<longleftrightarrow> ml_last_upload st \<le> ml_samples st \<and>
     (if ml_uploads st = 0 then ml_last_upload st = 0
      else 0 < ml_last_upload st \<and> ml_uploads st * mz_post_every Z < ml_last_upload st + mz_post_every Z)"

lemma upload_profile_counts:
  "ml_samples (upload_profile Z sn st) = ml_samples st"
  "(ml_last_upload (upload_profile Z sn st) = ml_last_upload st \<and> ml_uploads (upload_profile Z sn st) = ml_uploads st) \<or>
   (ml_last_upload (upload_profile Z sn st) = ml_samples st \<and> ml_uploads (upload_profile Z sn st) = ml_uploads st + 1)"
  by (simp_all add: upload_profile_def Let_def case_prod_beta)

lemma enrolled_counts [simp]:
  "ml_samples (fst (enrolled sn st)) = ml_samples st" "ml_last_upload (fst (enrolled sn st)) = ml_last_upload st"
  "ml_uploads (fst (enrolled sn st)) = ml_uploads st"
  by (simp_all add: enrolled_def split: prod.split)

lemma maybe_upload_paced:
  assumes "paced Z st" "0 < ml_samples st" "0 < mz_post_every Z"
  shows "paced Z (maybe_upload Z sn st)"
proof (cases "maybe_upload Z sn st = fst (enrolled sn st)")
  case True
  then show ?thesis using assms(1) by (simp add: paced_def)
next
  case False
  let ?st = "fst (enrolled sn st)"
  have up: "maybe_upload Z sn st = upload_profile Z sn ?st"
    and due: "ml_last_upload st = 0 \<or> mz_post_every Z \<le> ml_samples st - ml_last_upload st"
    using False by (auto simp: maybe_upload_def Let_def case_prod_beta split: if_splits)
  have "ml_uploads st * mz_post_every Z < ml_samples st"
    using assms due by (cases "ml_uploads st = 0") (auto simp: paced_def)
  then show ?thesis using upload_profile_counts [of Z sn ?st] assms(1,2) unfolding up by (auto simp: paced_def)
qed

lemma measure_sample_paced:
  assumes "paced Z st" "0 < mz_post_every Z"
  shows "paced Z (measure_sample Z sn st)"
proof (cases rule: measure_sample_cases [of Z sn st])
  case (skipped g)
  then show ?thesis using assms(1) by (simp add: paced_def)
next
  case (recorded g st' cpu ram d)
  then have "paced Z st'" "0 < ml_samples st'" using assms(1) by (auto simp: paced_def)
  then show ?thesis using recorded(3) maybe_upload_paced assms(2) by auto
qed

lemma fold_measure_sample:
  assumes "paced Z st" "0 < mz_post_every Z"
  shows "paced Z (fold (measure_sample Z) rounds st)"
  using assms by (induction rounds arbitrary: st) (simp_all add: measure_sample_paced)

lemma fold_measure_sample_ok:
  "profiler_ok (gv_profiler (ml_governor st)) \<Longrightarrow> profiler_ok (gv_profiler (ml_governor (fold (measure_sample Z) rounds st)))"
  by (induction rounds arbitrary: st) (simp_all add: measure_sample_ok)

lemma measure_finish_governor: "ml_governor (measure_finish Z sn st) = ml_governor st"
  by (simp add: measure_finish_def Let_def case_prod_beta)

lemma measure_finish_counts:
  "ml_samples (measure_finish Z sn st) = ml_samples st"
  "ml_uploads (measure_finish Z sn st) \<le> ml_uploads st + 1"
proof -
  obtain d where d: "fst (persist (sn_written sn) st) = st\<lparr>ml_disk := d\<rparr>" using persist_frame by blast
  show "ml_samples (measure_finish Z sn st) = ml_samples st" "ml_uploads (measure_finish Z sn st) \<le> ml_uploads st + 1"
    using upload_profile_counts [of Z sn "fst (enrolled sn (st\<lparr>ml_disk := d\<rparr>))"]
    by (auto simp: measure_finish_def Let_def case_prod_beta d)
qed

lemma every_pos: "0 < every period i"
  by (simp add: every_def max_def)

lemma run_measure_loop_continuous:
  assumes "run_measure_loop C False up cls (Fin i) rounds final st = Inr st'"
  shows "5 \<le> i" "i \<le> 3600"
    "st' = measure_finish (settings_for C up cls i) final (fold (measure_sample (settings_for C up cls i)) rounds st)"
proof -
  show i: "5 \<le> i" "i \<le> 3600"
    using assms by (auto simp: run_measure_loop_def Let_def MIN_MEASURE_INTERVAL_SECONDS_def
        MAX_MEASURE_INTERVAL_SECONDS_def split: if_splits)
  then have "max 0 i = i" by simp
  then show "st' = measure_finish (settings_for C up cls i) final (fold (measure_sample (settings_for C up cls i)) rounds st)"
    using assms by (auto simp: run_measure_loop_def Let_def split: if_splits)
qed

text \<open>However a continuous observer's run goes (sensors that fail, a full disk, any answers of the
  orchestrator), it is accepted only with an interval of 5 to 3600 seconds, the profile it has learned
  stays well formed, and beyond the first and the final upload at most one upload is accepted for each
  five minutes' worth of samples.\<close>

theorem observer_uploads_are_rare:
  assumes "run_measure_loop C False up cls (Fin i) rounds final (measure_start a g) = Inr st"
    and "profiler_ok (gv_profiler g)"
  shows "5 \<le> i \<and> i \<le> 3600 \<and> profiler_ok (gv_profiler (ml_governor st)) \<and>
    (ml_uploads st - 2) * every PROFILE_UPLOAD_INTERVAL_SECONDS i \<le> ml_samples st"
proof -
  define Z where "Z = settings_for C up cls i"
  have st: "st = measure_finish Z final (fold (measure_sample Z) rounds (measure_start a g))" and i: "5 \<le> i" "i \<le> 3600"
    using run_measure_loop_continuous [OF assms(1)] by (simp_all add: Z_def)
  let ?k = "every PROFILE_UPLOAD_INTERVAL_SECONDS i" and ?st = "fold (measure_sample Z) rounds (measure_start a g)"
  have k: "mz_post_every Z = ?k" "0 < ?k" by (simp_all add: Z_def settings_for_def every_pos)
  have "paced Z ?st" using k by (intro fold_measure_sample) (simp_all add: paced_def measure_start_def)
  then have "(ml_uploads ?st - 1) * ?k \<le> ml_samples ?st" using k by (auto simp: paced_def diff_mult_distrib split: if_splits)
  moreover have "(ml_uploads st - 2) * ?k \<le> (ml_uploads ?st - 1) * ?k"
    using measure_finish_counts(2) [of Z final ?st] st by (intro mult_le_mono1) simp
  moreover have "ml_samples st = ml_samples ?st" using measure_finish_counts(1) st by simp
  moreover have "profiler_ok (gv_profiler (ml_governor st))"
    using fold_measure_sample_ok [of "measure_start a g"] assms(2) measure_finish_governor st by (simp add: measure_start_def)
  ultimately show ?thesis using i by linarith
qed

section \<open>The orchestrator stores what an honest worker sends\<close>

text \<open>C39. A well formed profile can always be summarised and sent, and the orchestrator's sanitizers store
  the worker's own figures: the number of hours of the week measured, average and recoverable range of CPU
  and GPU with the peak (lifted to the average where it is below), whether a GPU was sampled, memory
  average and headroom and the AC average unchanged; the timing totals cut to the ranges the orchestrator
  documents (9600 hours of span, a day of hours, ten million samples), so unchanged when they lie within
  them. Reading the row back for the fleet view changes nothing, but for hours that add up to more than
  a day, which are scaled again.\<close>

theorem honest_profile_stored_verbatim:
  assumes "profiler_ok p" "cls \<in> set MeasurementDeviceClass" "measured p \<noteq> []"
  shows "\<exists>r c. profile_report_of C a cls p = Inr r \<and> sanitize_profile_report C' r = Inr c \<and>
    cp_device_class c = cls \<and> cp_coverage_buckets c = int (length (measured p)) \<and>
    cp_cpu c = metric_as_stored (su_cpu (profile_summary_of a p)) \<and>
    cp_gpu c = metric_as_stored (su_gpu (profile_summary_of a p)) \<and>
    cp_gpu_sampled c = su_gpu_sampled (profile_summary_of a p) \<and>
    cp_ram_avg c = su_ram_avg (profile_summary_of a p) \<and> cp_ram_headroom c = su_ram_headroom (profile_summary_of a p) \<and>
    cp_ac_avg c = su_ac_avg (profile_summary_of a p) \<and> stores_timing (timing_sent p) (cp_availability c) \<and>
    reads_back c (decode_stored_profile c) \<and> cp_ram_headroom (decode_stored_profile c) = cp_ram_headroom c \<and>
    (let av = summarize_availability (up_availability p) [];
         span = fdiv (av_span_seconds av) 3600; observed = av_observed_hours_per_day av;
         unavailable = av_unavailable_hours_per_day av; samples = sample_count (up_availability p)
     in 0 < span \<and> span \<le> 9600 \<and> hours observed \<and> hours unavailable \<and> fadd observed unavailable \<le> 24 \<and>
        0 \<le> samples \<and> samples \<le> 10000000 \<longrightarrow>
        cp_availability c = \<lparr>pa_span_hours = span, pa_observed_hours_per_day = observed,
          pa_unavailable_hours_per_day = unavailable, pa_sample_count = samples\<rparr> \<and> decode_stored_profile c = c)"
proof -
  let ?s = "profile_summary_of a p"
  have s: "metric_ok (su_cpu ?s)" "metric_ok (su_gpu ?s)" "pct (su_ram_avg ?s)" "pct (su_ac_avg ?s)"
    using profile_summary_ok [OF assms(1), of a] by (simp_all add: summary_ok_def)
  have l: "length (up_buckets p) = BUCKETS" using assms(1) by (simp add: profiler_ok_def)
  have head: "su_ram_headroom ?s = max 0 (fsub 100 (su_ram_avg ?s))"
    using assms(3) by (simp add: profile_summary_of_def summarize_profile_def Let_def)
  obtain r where r: "profile_report_of C a cls p = Inr r" "pr_device_class r = cls"
    "pr_coverage_buckets r = int (length (measured p))" "pr_cpu r = summary_metric (su_cpu ?s)"
    "pr_gpu r = summary_metric (su_gpu ?s)" "pr_gpu_sampled r = su_gpu_sampled ?s" "pr_ram_avg r = Fin (su_ram_avg ?s)"
    "pr_ac_avg r = Fin (su_ac_avg ?s)" "pr_availability r = timing_sent p" "pr_buckets r = []"
    using l by (rule profile_report_of_measured)
  obtain c where c: "sanitize_profile_report C' r = Inr c" "profile_ok c"
    using sanitize_profile_report_ok [of r C'] r(2) assms(2) by (auto simp: valid_report_def)
  have cov: "cp_coverage_buckets c = int (length (measured p))"
    using c(1) r measured_ok(2) [OF assms(1)] by (auto simp: sanitize_profile_report_def Let_def BUCKETS_PER_WEEK_def)
  have timing: "stores_timing (timing_sent p) (cp_availability c)"
    using compact_stores [OF r(10) c(1)] r(9) by (simp add: stores_compact_def)
  have rb: "reads_back c (decode_stored_profile c)"
    by (rule decode_stored [OF c(2) stores_timing_idle [OF timing]])
  have stored: "cp_device_class c = cls" "cp_cpu c = metric_as_stored (su_cpu ?s)" "cp_gpu c = metric_as_stored (su_gpu ?s)"
    "cp_gpu_sampled c = su_gpu_sampled ?s" "cp_ram_avg c = su_ram_avg ?s" "cp_ac_avg c = su_ac_avg ?s"
    "cp_ram_headroom c = su_ram_headroom ?s" "cp_ram_headroom c = fsub 100 (cp_ram_avg c)"
    using c(1) r s head fsub_100_nonneg [OF s(3)]
    by (auto simp: sanitize_profile_report_def Let_def sanitize_honest_metric clamp_pct_Fin)
  note same = reads_back_exact [OF rb stored(8)]
  have exact: "cp_availability c = \<lparr>pa_span_hours = fdiv (av_span_seconds av) 3600,
      pa_observed_hours_per_day = av_observed_hours_per_day av, pa_unavailable_hours_per_day = av_unavailable_hours_per_day av,
      pa_sample_count = sample_count (up_availability p)\<rparr> \<and> decode_stored_profile c = c"
    if "av = summarize_availability (up_availability p) []" "0 < fdiv (av_span_seconds av) 3600"
      "fdiv (av_span_seconds av) 3600 \<le> 9600" "hours (av_observed_hours_per_day av)" "hours (av_unavailable_hours_per_day av)"
      "fadd (av_observed_hours_per_day av) (av_unavailable_hours_per_day av) \<le> 24"
      "0 \<le> sample_count (up_availability p)" "sample_count (up_availability p) \<le> 10000000" for av
  proof -
    have "cp_availability c = \<lparr>pa_span_hours = fdiv (av_span_seconds av) 3600,
        pa_observed_hours_per_day = av_observed_hours_per_day av, pa_unavailable_hours_per_day = av_unavailable_hours_per_day av,
        pa_sample_count = sample_count (up_availability p)\<rparr>"
      using timing that by (cases "cp_availability c") (simp add: stores_timing_def timing_sent_def hours_def Let_def)
    with same(2) that(6) show ?thesis by simp
  qed
  show ?thesis
    by (intro exI [of _ r] exI [of _ c] conjI)
       (use r(1) c(1) cov stored timing rb same(1) exact in \<open>simp_all add: Let_def\<close>)
qed

section \<open>A GPU that was never read counts as idle\<close>

text \<open>
  The upload leaves the number of GPU samples out, so on a machine that declares a GPU every measured hour
  counts as a GPU measurement, also those in which no GPU reading succeeded: the fleet is told of an idle
  GPU. The same profile with its counts says that the GPU was not sampled.
\<close>

lemma sum_list_0_iff_zero: "(\<And>x. x \<in> set xs \<Longrightarrow> f x = (0::rat)) \<Longrightarrow> sum_list (map f xs) = 0"
  by (induction xs) auto

lemma mi_avg_summary: "mi_avg (summary_metric m) = Fin (ms_avg m)"
  by (simp add: summary_metric_def)

lemma unsampled_gpu_reported_idle:
  assumes "length (up_buckets p) = BUCKETS" "cap_has_gpu (ag_capability a)" "measured p \<noteq> []"
    and "\<And>b. b \<in> set (up_buckets p) \<Longrightarrow> st_gpu_n b = 0 \<and> st_gpu_mean b = 0"
  shows "\<exists>r. profile_report_of C a cls p = Inr r \<and> pr_gpu_sampled r \<and> mi_avg (pr_gpu r) = Fin 0"
    "\<not> su_gpu_sampled (summarize_profile margin lo hi (Some True)
        (map (\<lambda>b. (sent_bucket b)\<lparr>bk_gpu_n := st_gpu_n b\<rparr>) (filter (\<lambda>b. 0 < st_n b) (up_buckets p))))"
proof -
  have all: "filter (has_gpu_sample (Some True) (measured p)) (measured p) = measured p"
    by (auto simp: measured_def has_gpu_sample_def sent_bucket_def intro!: filter_True)
  have zero: "sum_list (map bk_gpu_mean (measured p)) = 0"
    using assms(4) by (auto simp: measured_def sent_bucket_def comp_def intro!: sum_list_0_iff_zero)
  have "su_gpu_sampled (profile_summary_of a p) \<and> ms_avg (su_gpu (profile_summary_of a p)) = 0"
    using assms(2,3) all zero
    by (simp add: profile_summary_of_def summarize_profile_def Let_def metric_of_def recoverable_def fmean_def fdiv_def)
  then show "\<exists>r. profile_report_of C a cls p = Inr r \<and> pr_gpu_sampled r \<and> mi_avg (pr_gpu r) = Fin 0"
    using profile_report_of_measured [OF assms(1), of C a cls] by (metis mi_avg_summary)
  show "\<not> su_gpu_sampled (summarize_profile margin lo hi (Some True)
        (map (\<lambda>b. (sent_bucket b)\<lparr>bk_gpu_n := st_gpu_n b\<rparr>) (filter (\<lambda>b. 0 < st_n b) (up_buckets p))))"
    using assms(4) by (auto simp: summarize_profile_def Let_def has_gpu_sample_def filter_map comp_def filter_empty_conv)
qed

section \<open>A run\<close>

definition demo_observer :: agent where
  "demo_observer = \<lparr>ag_worker_id = ''w'', ag_capability = default_capability ''w'', ag_verify = True, ag_isolated = True,
     ag_require_isolation = False, ag_trusted_public_key_hex = None, ag_measurement_only = True, ag_yield = False,
     ag_job_running = False, ag_worker_token = Some ''t'', ag_registered = True, ag_approved = True,
     ag_device_code = None, ag_active_gate = None\<rparr>"

definition demo_round :: sample_round where
  "demo_round = \<lparr>sn_reading = demo_reading 10, sn_wall = Fin 1000, sn_written = True, sn_register = NetworkError,
     sn_heartbeat = NetworkError, sn_post = NoContent\<rparr>"

lemma new_profiler_ok: "profiler_ok new_profiler"
  by (simp add: profiler_ok_def new_profiler_def new_bucket_ok fresh_tracker_ok list_all_iff)

lemma observer_uploads_are_rare_witness:
  "\<exists>st. run_measure_loop demo_conv False True ''laptop'' (Fin 30) [demo_round, demo_round] demo_round
      (measure_start demo_observer demo_governor) = Inr st \<and> (ml_uploads st - 2) * 10 \<le> ml_samples st"
proof -
  have "every PROFILE_UPLOAD_INTERVAL_SECONDS 30 = 10" by code_simp
  moreover obtain st where st: "run_measure_loop demo_conv False True ''laptop'' (Fin 30) [demo_round, demo_round] demo_round
      (measure_start demo_observer demo_governor) = Inr st"
    by (simp add: run_measure_loop_def Let_def MIN_MEASURE_INTERVAL_SECONDS_def MAX_MEASURE_INTERVAL_SECONDS_def)
  moreover have "profiler_ok (gv_profiler demo_governor)" by (simp add: demo_governor_def new_profiler_ok)
  ultimately show ?thesis using observer_uploads_are_rare [OF st] by auto
qed

lemma honest_profile_stored_verbatim_witness:
  "\<exists>p r c. measured p \<noteq> [] \<and> profile_report_of demo_conv demo_observer ''laptop'' p = Inr r \<and>
     sanitize_profile_report demo_conv r = Inr c \<and> cp_ram_avg c = su_ram_avg (profile_summary_of demo_observer p)"
proof -
  define p where "p = new_profiler\<lparr>up_buckets := new_bucket\<lparr>st_n := 1, st_cpu_mean := 12, st_cpu_max := 30,
    st_ram_mean := 40, st_ram_max := 40\<rparr> # replicate 167 new_bucket\<rparr>"
  have "profiler_ok p"
    using new_bucket_ok fresh_tracker_ok
    by (auto simp: profiler_ok_def p_def list_all_iff stat_ok_def new_bucket_def pct_def BUCKETS_def new_profiler_def)
  moreover have m: "measured p \<noteq> []" by (simp add: measured_def p_def)
  moreover have "''laptop'' \<in> set MeasurementDeviceClass" by (simp add: MeasurementDeviceClass_def)
  ultimately show ?thesis using honest_profile_stored_verbatim [of p "''laptop''" demo_conv demo_observer demo_conv] by blast
qed

end
