(* ===== verification/Startup.thy ===== *)
theory Startup imports Enrolment Submit Rate_Limit Measure begin

text \<open>
  How the two programs start: the command line, the environment and the TLS material of
  \<open>src/orchestrator/__main__.py\<close>, \<open>src/orchestrator/mtls_protocol.py\<close>, \<open>src/trust/tls.py\<close>,
  \<open>src/orchestrator/netinfo.py\<close> and the argument checks of \<open>src/worker/__main__.py\<close>. The file system,
  \<open>urlparse\<close>, \<open>int\<close> of a text and the TLS library are parameters. The lemmas show what the preset for a
  remote measurement fleet guarantees of every server it lets start.
\<close>

section \<open>TLS material\<close>

record host_files =
  hf_is_file :: "str \<Rightarrow> bool"
  hf_expanduser :: "str \<Rightarrow> str"
  hf_abspath :: "str \<Rightarrow> str"

text \<open>A \<open>ValueError\<close> is its text.\<close>

definition require_file :: "host_files \<Rightarrow> str \<Rightarrow> str \<Rightarrow> str + str" where
  "require_file F p what =
     (if hf_is_file F (hf_expanduser F p) then Inr (hf_expanduser F p) else Inl (what @ '' not found: '' @ p))"

definition given :: "str option \<Rightarrow> bool" where
  "given v \<longleftrightarrow> (case v of None \<Rightarrow> False | Some s \<Rightarrow> s \<noteq> [])"

text \<open>With a client CA the server requires and verifies a client certificate (\<open>CERT_REQUIRED\<close>).\<close>

record tls_settings =
  tl_certfile :: str
  tl_keyfile :: str
  tl_required_client_ca :: "str option"

definition server_ssl_kwargs :: "host_files \<Rightarrow> str \<Rightarrow> str \<Rightarrow> str option \<Rightarrow> str + tls_settings" where
  "server_ssl_kwargs F cert key client_ca =
     (case require_file F cert ''TLS cert (--tls-cert)'' of
        Inl e \<Rightarrow> Inl e
      | Inr c \<Rightarrow>
          (case require_file F key ''TLS key (--tls-key)'' of
             Inl e \<Rightarrow> Inl e
           | Inr k \<Rightarrow>
               (if given client_ca
                then (case require_file F (the client_ca) ''client CA (--tls-client-ca)'' of
                        Inl e \<Rightarrow> Inl e
                      | Inr a \<Rightarrow> Inr \<lparr>tl_certfile = c, tl_keyfile = k, tl_required_client_ca = Some a\<rparr>)
                else Inr \<lparr>tl_certfile = c, tl_keyfile = k, tl_required_client_ca = None\<rparr>)))"

datatype verification = SystemTrustStore | Context "str option" "(str \<times> str) option"

definition client_ssl_params :: "host_files \<Rightarrow> str option \<Rightarrow> str option \<Rightarrow> str option \<Rightarrow> str + verification" where
  "client_ssl_params F ca_cert client_cert key =
     (if (given client_cert \<or> given key) \<and> \<not> (given client_cert \<and> given key)
      then Inl ''mutual TLS needs BOTH --client-cert and --client-key''
      else if \<not> given ca_cert \<and> \<not> given client_cert then Inr SystemTrustStore
      else (case (if given ca_cert
                  then map_sum id Some (require_file F (the ca_cert) ''TLS CA cert (--tls-ca)'') else Inr None) of
              Inl e \<Rightarrow> Inl e
            | Inr ca \<Rightarrow>
                (if given client_cert
                 then (case require_file F (the client_cert) ''client cert (--client-cert)'' of
                         Inl e \<Rightarrow> Inl e
                       | Inr c \<Rightarrow>
                           (case require_file F (the key) ''client key (--client-key)'' of
                              Inl e \<Rightarrow> Inl e
                            | Inr k \<Rightarrow> Inr (Context ca (Some (c, k)))))
                 else Inr (Context ca None))))"

section \<open>The verified peer certificate\<close>

text \<open>What a connection's \<open>ssl_object\<close> gives: none, one that fails, or the peer's certificate in DER form.\<close>

datatype peer = NoSsl | PeerError | PeerCert "str option"

definition peer_certificate_fingerprint :: "(str \<Rightarrow> str) \<Rightarrow> peer \<Rightarrow> str option" where
  "peer_certificate_fingerprint sha256 transport =
     (case transport of
        NoSsl \<Rightarrow> None
      | PeerError \<Rightarrow> None
      | PeerCert c \<Rightarrow> (if given c then Some (sha256 (the c)) else None))"

section \<open>The orchestrator's command line\<close>

definition DEFAULT_HOST :: str where "DEFAULT_HOST = ''0.0.0.0''"
definition DEFAULT_PORT :: int where "DEFAULT_PORT = 8080"
definition DEFAULT_DB :: str where "DEFAULT_DB = ''reeve-orchestrator.db''"

definition coerce_port :: "(str \<Rightarrow> int option) \<Rightarrow> str \<Rightarrow> int \<Rightarrow> str \<Rightarrow> int \<times> str option" where
  "coerce_port to_int_text raw fallback source =
     (if raw = [] then (fallback, None)
      else case to_int_text raw of
          None \<Rightarrow> (fallback, Some (source @ ''='' @ raw @ '' is not an integer; using '' @ show_int fallback))
        | Some p \<Rightarrow>
            (if 1 \<le> p \<and> p \<le> 65535 then (p, None)
             else (fallback, Some (source @ ''='' @ raw @ '' is out of range 1-65535; using '' @ show_int fallback))))"

definition env_value :: "(str \<Rightarrow> str option) \<Rightarrow> str \<Rightarrow> str" where
  "env_value environ k = strip (case environ k of None \<Rightarrow> [] | Some v \<Rightarrow> v)"

definition or_default :: "str \<Rightarrow> str \<Rightarrow> str" where
  "or_default v dflt = (if v = [] then dflt else v)"

definition resolve_defaults :: "(str \<Rightarrow> int option) \<Rightarrow> (str \<Rightarrow> str option) \<Rightarrow> str \<times> int \<times> str \<times> str option" where
  "resolve_defaults to_int_text environ =
     (let (port, warning) = coerce_port to_int_text (env_value environ ''REEVE_PORT'') DEFAULT_PORT ''REEVE_PORT''
      in (or_default (env_value environ ''REEVE_HOST'') DEFAULT_HOST, port,
          or_default (env_value environ ''REEVE_DB'') DEFAULT_DB, warning))"

text \<open>The parsed arguments; the tokens and the attestation key already default to the environment's.\<close>

record command_line =
  cl_host :: "str option"
  cl_port :: "int option"
  cl_db :: "str option"
  cl_tls_cert :: "str option"
  cl_tls_key :: "str option"
  cl_tls_client_ca :: "str option"
  cl_rate_limit :: int
  cl_submit_token :: "str option"
  cl_admin_token :: "str option"
  cl_require_approval :: bool
  cl_bind_device_identity :: bool
  cl_secure_measurement_pilot :: bool
  cl_attestation_key :: "str option"

text \<open>What \<open>argparse\<close> gives for an empty command line.\<close>

definition default_command_line :: "(str \<Rightarrow> str option) \<Rightarrow> command_line" where
  "default_command_line environ =
     \<lparr>cl_host = None, cl_port = None, cl_db = None, cl_tls_cert = None, cl_tls_key = None, cl_tls_client_ca = None,
      cl_rate_limit = 600, cl_submit_token = environ ''ONECOMPUTE_SUBMIT_TOKEN'',
      cl_admin_token = environ ''ONECOMPUTE_ADMIN_TOKEN'', cl_require_approval = False,
      cl_bind_device_identity = False, cl_secure_measurement_pilot = False,
      cl_attestation_key = environ ''ONECOMPUTE_ATTESTATION_KEY''\<rparr>"

definition pilot_missing :: "command_line \<Rightarrow> str list" where
  "pilot_missing c = map fst (filter (\<lambda>(option, v). \<not> given v)
     [(''--tls-cert'', cl_tls_cert c), (''--tls-key'', cl_tls_key c), (''--tls-client-ca'', cl_tls_client_ca c),
      (''--submit-token'', cl_submit_token c), (''--admin-token'', cl_admin_token c)])"

fun join_comma :: "str list \<Rightarrow> str" where
  "join_comma [] = []"
| "join_comma [x] = x"
| "join_comma (x # xs) = x @ '', '' @ join_comma xs"

definition check_arguments :: "command_line \<Rightarrow> str + command_line" where
  "check_arguments c0 =
     (let refused = (if \<not> cl_secure_measurement_pilot c0 then None
            else if pilot_missing c0 \<noteq> [] then Some (''--secure-measurement-pilot requires '' @ join_comma (pilot_missing c0))
            else if cl_submit_token c0 = cl_admin_token c0
            then Some ''--secure-measurement-pilot requires distinct submit and admin tokens''
            else None);
          c = (if cl_secure_measurement_pilot c0 then c0\<lparr>cl_require_approval := True, cl_bind_device_identity := True\<rparr> else c0)
      in case refused of
           Some e \<Rightarrow> Inl e
         | None \<Rightarrow>
             if cl_bind_device_identity c \<and> \<not> (given (cl_tls_cert c) \<and> given (cl_tls_key c) \<and> given (cl_tls_client_ca c))
             then Inl ''--bind-device-identity requires --tls-cert, --tls-key, and --tls-client-ca'' else Inr c)"

section \<open>The server that is started\<close>

record served =
  sv_host :: str
  sv_port :: int
  sv_db :: str
  sv_config :: config
  sv_rate_limit_per_min :: "int option"
  sv_tls :: "tls_settings option"
  sv_verified_protocol :: bool

text \<open>
  \<open>ArgumentError\<close> is \<open>parser.error\<close>, \<open>Crashed\<close> an exception that leaves \<open>main\<close>: a TLS file that does not exist
  is a \<open>ValueError\<close>, and only \<open>OSError\<close> and \<open>sqlite3.Error\<close> are caught.
\<close>

datatype startup = ArgumentError str | Crashed str | Serving served "str list"

definition configuration :: "signer \<Rightarrow> command_line \<Rightarrow> config" where
  "configuration signer c =
     \<lparr>cf_signer = signer, cf_require_approval = cl_require_approval c, cf_submit_token = cl_submit_token c,
      cf_admin_token = cl_admin_token c, cf_bind_device_identity = cl_bind_device_identity c,
      cf_attestation_pubkey = cl_attestation_key c, cf_foundry_tenants = None\<rparr>"

definition orchestrator_main ::
  "host_files \<Rightarrow> (str \<Rightarrow> int option) \<Rightarrow> (str \<Rightarrow> str option) \<Rightarrow> signer \<Rightarrow> command_line \<Rightarrow> startup" where
  "orchestrator_main F to_int_text environ signer c0 =
     (let (env_host, env_port, env_db, port_warning) = resolve_defaults to_int_text environ
      in case check_arguments c0 of
           Inl e \<Rightarrow> ArgumentError e
         | Inr c \<Rightarrow>
             (let host = (case cl_host c of Some h \<Rightarrow> h | None \<Rightarrow> env_host);
                  (port, warning) = (case cl_port c of
                      Some p \<Rightarrow> coerce_port to_int_text (show_int p) env_port ''--port''
                    | None \<Rightarrow> (env_port, port_warning));
                  db_path = hf_abspath F (case cl_db c of Some d \<Rightarrow> d | None \<Rightarrow> env_db);
                  tls = (given (cl_tls_cert c) \<and> given (cl_tls_key c));
                  warnings = (case warning of Some w \<Rightarrow> [w] | None \<Rightarrow> []) @
                    (if given (cl_tls_cert c) \<noteq> given (cl_tls_key c)
                     then [''--tls-cert and --tls-key must be given together; serving HTTP''] else []) @
                    (if given (cl_tls_client_ca c) \<and> \<not> tls
                     then [''--tls-client-ca needs --tls-cert/--tls-key (HTTPS); mutual TLS disabled''] else []);
                  client_ca = (if tls then cl_tls_client_ca c else None);
                  limit = (if 0 < cl_rate_limit c then Some (cl_rate_limit c) else None);
                  serve = (\<lambda>settings. Serving \<lparr>sv_host = host, sv_port = port, sv_db = db_path,
                      sv_config = configuration signer c, sv_rate_limit_per_min = limit, sv_tls = settings,
                      sv_verified_protocol = given client_ca\<rparr> warnings)
              in if tls
                 then (case server_ssl_kwargs F (the (cl_tls_cert c)) (the (cl_tls_key c)) client_ca of
                         Inl e \<Rightarrow> Crashed e
                       | Inr settings \<Rightarrow> serve (Some settings))
                 else serve None))"

text \<open>The fingerprint a request carries in its scope: only the verifying protocol puts one there.\<close>

definition scope_fingerprint_of :: "(str \<Rightarrow> str) \<Rightarrow> served \<Rightarrow> peer \<Rightarrow> str option" where
  "scope_fingerprint_of sha256 sv transport =
     (if sv_verified_protocol sv then peer_certificate_fingerprint sha256 transport else None)"

section \<open>LAN addresses\<close>

fun split_dots :: "str \<Rightarrow> str list" where
  "split_dots [] = [[]]"
| "split_dots (c # s) = (case split_dots s of
     [] \<Rightarrow> [[c]]
   | w # ws \<Rightarrow> if c = CHR ''.'' then [] # w # ws else (c # w) # ws)"

definition is_usable_ipv4 :: "str \<Rightarrow> bool" where
  "is_usable_ipv4 ip \<longleftrightarrow>
     (if ip = [] \<or> startswith ip ''127.'' \<or> startswith ip ''169.254.'' then False
      else (let parts = split_dots ip
            in length parts = 4 \<and> list_all (\<lambda>p. p \<noteq> [] \<and> list_all is_digit p \<and> read_nat p \<le> 255) parts))"

text \<open>Primary and resolved addresses, without repetition, sorted as text.\<close>

fun insert_text :: "(str \<Rightarrow> str \<Rightarrow> bool) \<Rightarrow> str \<Rightarrow> str list \<Rightarrow> str list" where
  "insert_text le x [] = [x]"
| "insert_text le x (y # ys) = (if x = y then y # ys else if le x y then x # y # ys else y # insert_text le x ys)"

definition lan_ipv4_addresses :: "(str \<Rightarrow> str \<Rightarrow> bool) \<Rightarrow> str option \<Rightarrow> str list option \<Rightarrow> str list" where
  "lan_ipv4_addresses le routed resolved =
     (let primary = (case routed of Some ip \<Rightarrow> if is_usable_ipv4 ip then [ip] else [] | None \<Rightarrow> []);
          others = (case resolved of Some ips \<Rightarrow> filter is_usable_ipv4 ips | None \<Rightarrow> [])
      in fold (insert_text le) (primary @ others) [])"

section \<open>The worker's command line\<close>

text \<open>\<open>urlparse\<close>: the scheme and the host name, if there is one.\<close>

record url_parts =
  ur_scheme :: str
  ur_hostname :: "str option"

definition is_loopback_url :: "url_parts \<Rightarrow> bool" where
  "is_loopback_url u \<longleftrightarrow>
     lower (case ur_hostname u of None \<Rightarrow> [] | Some h \<Rightarrow> h) \<in> {''localhost'', ''127.0.0.1'', ''::1''}"

record worker_args =
  wa_url :: "str option"
  wa_once :: bool
  wa_measure_only :: bool
  wa_measure_interval :: pyfloat
  wa_tls_ca :: "str option"
  wa_client_cert :: "str option"
  wa_client_key :: "str option"

definition interval_of :: "worker_args \<Rightarrow> rat option" where
  "interval_of w = (case wa_measure_interval w of Fin i \<Rightarrow> Some i | _ \<Rightarrow> None)"

text \<open>The checks of \<open>main\<close> up to the client: an error text, or how the server is verified if there is one.\<close>

definition worker_arguments :: "host_files \<Rightarrow> (str \<Rightarrow> url_parts) \<Rightarrow> worker_args \<Rightarrow> str + verification option" where
  "worker_arguments F urlparse w =
     (let has_url = given (wa_url w); u = urlparse (the (wa_url w)); scheme = (if has_url then lower (ur_scheme u) else []);
          continuous = (wa_measure_only w \<and> \<not> wa_once w)
      in if \<not> has_url \<and> \<not> wa_measure_only w then Inl ''--url is required''
         else if has_url \<and> scheme \<notin> {''http'', ''https''} then Inl ''--url must use http:// or https://''
         else if wa_measure_only w \<and> has_url \<and> scheme = ''http'' \<and> \<not> is_loopback_url u
         then Inl ''remote measurement uploads require an https:// --url''
         else if wa_measure_only w \<and> interval_of w = None then Inl ''--measure-interval must be finite''
         else if continuous \<and> (case interval_of w of Some i \<Rightarrow> i < MIN_MEASURE_INTERVAL_SECONDS | None \<Rightarrow> False)
         then Inl ''--measure-interval must be at least 5 seconds for a continuous observer''
         else if continuous \<and> (case interval_of w of Some i \<Rightarrow> MAX_MEASURE_INTERVAL_SECONDS < i | None \<Rightarrow> False)
         then Inl ''--measure-interval must be at most 3600 seconds for a continuous observer''
         else if has_url \<and> scheme \<noteq> ''https'' \<and> (given (wa_tls_ca w) \<or> given (wa_client_cert w) \<or> given (wa_client_key w))
         then Inl ''TLS material requires an https:// --url''
         else if has_url
         then map_sum id Some (client_ssl_params F (wa_tls_ca w) (wa_client_cert w) (wa_client_key w))
         else Inr None)"

text \<open>Accepted arguments never make the measurement loop refuse its interval.\<close>

lemma accepted_interval_runs:
  assumes "worker_arguments F urlparse w = Inr v" "wa_measure_only w"
  shows "\<exists>st'. run_measure_loop C (wa_once w) up cls (wa_measure_interval w) rounds final st = Inr st'"
  using assms
  by (cases "wa_measure_interval w")
    (auto simp: worker_arguments_def Let_def interval_of_def run_measure_loop_def MIN_MEASURE_INTERVAL_SECONDS_def
      MAX_MEASURE_INTERVAL_SECONDS_def split: if_splits)

text \<open>What is measured leaves the machine only to itself or over HTTPS.\<close>

lemma measurement_leaves_over_https:
  "worker_arguments F urlparse w = Inr v \<Longrightarrow> wa_measure_only w \<Longrightarrow> given (wa_url w) \<Longrightarrow>
     lower (ur_scheme (urlparse (the (wa_url w)))) = ''https'' \<or> is_loopback_url (urlparse (the (wa_url w)))"
  by (auto simp: worker_arguments_def Let_def split: if_splits)

section \<open>The preset for a remote fleet\<close>

lemma coerce_port_range: "1 \<le> fallback \<Longrightarrow> fallback \<le> 65535 \<Longrightarrow>
    1 \<le> fst (coerce_port t raw fallback src) \<and> fst (coerce_port t raw fallback src) \<le> 65535"
  by (simp add: coerce_port_def split: option.split)

lemma default_port_range: "1 \<le> fst (snd (resolve_defaults t env)) \<and> fst (snd (resolve_defaults t env)) \<le> 65535"
  using coerce_port_range [of DEFAULT_PORT] by (simp add: resolve_defaults_def DEFAULT_PORT_def case_prod_beta)

lemma check_arguments_pilot:
  assumes "check_arguments c0 = Inr c" "cl_secure_measurement_pilot c0"
  shows "c = c0\<lparr>cl_require_approval := True, cl_bind_device_identity := True\<rparr>"
    "given (cl_tls_cert c)" "given (cl_tls_key c)" "given (cl_tls_client_ca c)"
    "given (cl_submit_token c)" "given (cl_admin_token c)" "cl_submit_token c \<noteq> cl_admin_token c"
  using assms by (auto simp: check_arguments_def pilot_missing_def Let_def split: if_splits)

lemma server_ssl_client_ca:
  "server_ssl_kwargs F cert k ca = Inr t \<Longrightarrow> given ca \<Longrightarrow> tl_required_client_ca t = Some (hf_expanduser F (the ca))"
  by (auto simp: server_ssl_kwargs_def require_file_def split: if_splits sum.splits)

lemma pilot_server:
  assumes "orchestrator_main F t env signer c0 = Serving sv ws" "cl_secure_measurement_pilot c0"
  obtains settings where "sv_tls sv = Some settings" "tl_required_client_ca settings \<noteq> None" "sv_verified_protocol sv"
    "cf_require_approval (sv_config sv)" "cf_bind_device_identity (sv_config sv)"
    "given (cf_submit_token (sv_config sv))" "given (cf_admin_token (sv_config sv))"
    "cf_submit_token (sv_config sv) \<noteq> cf_admin_token (sv_config sv)" "1 \<le> sv_port sv" "sv_port sv \<le> 65535"
proof -
  obtain c where c: "check_arguments c0 = Inr c" using assms(1) by (auto simp: orchestrator_main_def split: sum.splits prod.splits)
  note p = check_arguments_pilot [OF c assms(2)]
  obtain settings where s: "server_ssl_kwargs F (the (cl_tls_cert c)) (the (cl_tls_key c)) (cl_tls_client_ca c) = Inr settings"
    "sv_tls sv = Some settings" "sv_verified_protocol sv" "sv_config sv = configuration signer c"
    using assms(1) p by (auto simp: orchestrator_main_def c Let_def split: prod.splits sum.splits)
  have "1 \<le> sv_port sv \<and> sv_port sv \<le> 65535"
    using assms(1) p s default_port_range [of t env] coerce_port_range [of "fst (snd (resolve_defaults t env))" t]
    by (auto simp: orchestrator_main_def c Let_def prod_eq_iff split: prod.splits option.splits)
  then show thesis using that [of settings] s server_ssl_client_ca [OF s(1)] p by (simp add: configuration_def)
qed

lemma admits_distinct:
  "given tok \<Longrightarrow> given tok' \<Longrightarrow> tok \<noteq> tok' \<Longrightarrow> \<not> (admits tok a \<and> admits tok' a)"
  by (auto simp: admits_def given_def presents_def split: option.splits)

text \<open>C37. Whatever the environment and the other arguments: when the preset for a remote measurement
  fleet lets a server start, it listens on a valid port over HTTPS with client certificates required and
  their fingerprints verified, new workers need approval, no request without credentials may submit, no
  credential opens both submission and administration, and a worker whose connection shows no certificate
  cannot register: the attempt is answered 401 and changes nothing.\<close>

theorem pilot_preset_fails_closed:
  assumes "orchestrator_main F t env signer c0 = Serving sv ws" "cl_secure_measurement_pilot c0"
  shows "1 \<le> sv_port sv \<and> sv_port sv \<le> 65535 \<and>
    (\<exists>settings ca. sv_tls sv = Some settings \<and> tl_required_client_ca settings = Some ca) \<and>
    cf_require_approval (sv_config sv) \<and> cf_bind_device_identity (sv_config sv) \<and>
    \<not> admits (cf_submit_token (sv_config sv)) None \<and>
    \<not> (admits (cf_submit_token (sv_config sv)) a \<and> admits (admin_credential (sv_config sv)) a) \<and>
    register P (sv_config sv) clk tok code (scope_fingerprint_of sha256 sv (PeerCert None)) cap s =
      (s, Inl (HTTPException 401 ''verified client certificate fingerprint required''))"
proof -
  obtain settings where p: "sv_tls sv = Some settings" "tl_required_client_ca settings \<noteq> None" "sv_verified_protocol sv"
    "cf_require_approval (sv_config sv)" "cf_bind_device_identity (sv_config sv)"
    "given (cf_submit_token (sv_config sv))" "given (cf_admin_token (sv_config sv))"
    "cf_submit_token (sv_config sv) \<noteq> cf_admin_token (sv_config sv)" "1 \<le> sv_port sv" "sv_port sv \<le> 65535"
    using assms by (rule pilot_server)
  have "admin_credential (sv_config sv) = cf_admin_token (sv_config sv)"
    using p(7) by (simp add: admin_credential_def given_def split: option.splits)
  then have "\<not> (admits (cf_submit_token (sv_config sv)) a \<and> admits (admin_credential (sv_config sv)) a)"
    using admits_distinct p(6-8) by simp
  moreover have "\<not> admits (cf_submit_token (sv_config sv)) None"
    using p(6) by (auto simp: given_def admits_def presents_def split: option.splits)
  moreover have "register P (sv_config sv) clk tok code (scope_fingerprint_of sha256 sv (PeerCert None)) cap s =
      (s, Inl (HTTPException 401 ''verified client certificate fingerprint required''))"
    using p(5) by (simp add: register_def scope_fingerprint_of_def peer_certificate_fingerprint_def given_def
        verified_client_fingerprint_def)
  ultimately show ?thesis using p by blast
qed

definition demo_files :: host_files where
  "demo_files = \<lparr>hf_is_file = (\<lambda>p. True), hf_expanduser = (\<lambda>p. p), hf_abspath = (\<lambda>p. p)\<rparr>"

definition demo_pilot :: command_line where
  "demo_pilot = (default_command_line (\<lambda>_. None))\<lparr>cl_port := Some 8443, cl_tls_cert := Some ''c'', cl_tls_key := Some ''k'',
     cl_tls_client_ca := Some ''ca'', cl_submit_token := Some ''s'', cl_admin_token := Some ''a'',
     cl_secure_measurement_pilot := True\<rparr>"

lemma pilot_preset_fails_closed_witness:
  "\<exists>sv ws. orchestrator_main demo_files (\<lambda>s. Some (int (read_nat s))) (\<lambda>_. None) \<lparr>sg_private = ''s''\<rparr> demo_pilot = Serving sv ws \<and>
     \<not> (admits (cf_submit_token (sv_config sv)) (Some ''Bearer s'') \<and> admits (admin_credential (sv_config sv)) (Some ''Bearer s''))"
proof -
  obtain sv ws where sv: "orchestrator_main demo_files (\<lambda>s. Some (int (read_nat s))) (\<lambda>_. None) \<lparr>sg_private = ''s''\<rparr> demo_pilot = Serving sv ws"
    by (auto simp: orchestrator_main_def check_arguments_def demo_pilot_def default_command_line_def demo_files_def pilot_missing_def given_def
        server_ssl_kwargs_def require_file_def Let_def case_prod_beta)
  moreover have "cl_secure_measurement_pilot demo_pilot" by (simp add: demo_pilot_def default_command_line_def)
  ultimately show ?thesis using pilot_preset_fails_closed [OF sv] by blast
qed

text \<open>
  A TLS file that is not there ends the program with an exception instead of a message, although the
  module promises that the process never throws on startup.
\<close>

lemma missing_tls_file_crashes:
  "orchestrator_main (demo_files\<lparr>hf_is_file := \<lambda>p. p \<noteq> ''c''\<rparr>) t env signer (demo_pilot\<lparr>cl_port := None\<rparr>) =
     Crashed ''TLS cert (--tls-cert) not found: c''"
  by (simp add: orchestrator_main_def check_arguments_def demo_pilot_def default_command_line_def demo_files_def pilot_missing_def given_def
      server_ssl_kwargs_def require_file_def Let_def case_prod_beta)

end
