(* ===== verification/Observer_Identity.thy ===== *)
theory Observer_Identity imports Pystr "HOL-Library.Sublist" begin

text \<open>
  \<open>src/worker/measurement_identity.py\<close>: how the observers of one machine agree on a stable pseudonymous
  identity through a shared file, whatever the order in which they run, and the rotation of the event log
  of \<open>src/worker/telemetry.py\<close>. The file system is explicit: each observer moves in atomic steps (a read, a
  hard link, an exclusive creation, a write), and any of them may fail or the process may die; an observer
  started with an alias uses that and never looks at the file. The lemmas show that all observers that get
  the identity of the file get the same one as long as a completed write is never taken back, and that it
  can be.
\<close>

section \<open>Valid identities\<close>

definition is_alnum :: "char \<Rightarrow> bool" where
  "is_alnum c \<longleftrightarrow> is_digit c \<or> (65 \<le> code_of c \<and> code_of c \<le> 90) \<or> (97 \<le> code_of c \<and> code_of c \<le> 122)"

definition VALID_ID :: "str \<Rightarrow> bool" where
  "VALID_ID s \<longleftrightarrow> (case s of [] \<Rightarrow> False
     | c # cs \<Rightarrow> is_alnum c \<and> list_all (\<lambda>d. is_alnum d \<or> d \<in> {CHR ''.'', CHR ''_'', CHR ''-''}) cs \<and>
                7 \<le> length cs \<and> length cs \<le> 63)"

text \<open>\<open>None\<close> is the \<open>ValueError\<close>.\<close>

definition validate_measurement_id :: "str \<Rightarrow> str option" where
  "validate_measurement_id v = (if VALID_ID (strip v) then Some (strip v) else None)"

definition newline :: str where "newline = [CHR 0x0A]"

text \<open>One look at the file while waiting for a complete write.\<close>

datatype look = Absent | Incomplete | Invalid | Identity str

definition complete :: "str \<Rightarrow> bool" where
  "complete t \<longleftrightarrow> strip t \<noteq> [] \<and> suffix newline t"

definition read_identity :: "str option \<Rightarrow> look" where
  "read_identity file =
     (case file of
        None \<Rightarrow> Absent
      | Some t \<Rightarrow>
          if \<not> complete t then Incomplete
          else (case validate_measurement_id t of Some v \<Rightarrow> Identity v | None \<Rightarrow> Invalid))"

section \<open>One observer\<close>

text \<open>
  Where an observer stands: started with an explicit alias, before its first read (so many attempts left),
  with its own identity written to a private file and about to link it, about to create the file itself
  where links are not supported, writing it, written and about to be forced to disk, reading the winner's,
  or finished: with the alias it was given (\<open>Named\<close>), with the identity of the file (\<open>Got\<close>) or with an error.
\<close>

datatype observer =
    Requested str | FirstRead nat | Linking | Creating | Writing | Flushed | SecondRead nat
  | Named str | Got str | Broken

definition ATTEMPTS :: nat where "ATTEMPTS = 20"

text \<open>\<open>if requested\<close>: an absent or empty alias means the shared identity.\<close>

definition observer_start :: "str option \<Rightarrow> observer" where
  "observer_start requested =
     (case requested of
        None \<Rightarrow> FirstRead ATTEMPTS
      | Some alias \<Rightarrow> (if alias = [] then FirstRead ATTEMPTS else Requested alias))"

text \<open>
  \<open>move taken_back ident\<close>: one atomic step of the observer that would use \<open>ident\<close>. The failure of forcing a
  completed write to disk, after which the file is unlinked, is possible only if \<open>taken_back\<close>.
\<close>

inductive move :: "bool \<Rightarrow> str \<Rightarrow> str option \<times> observer \<Rightarrow> str option \<times> observer \<Rightarrow> bool" for taken_back ident where
  alias_valid: "validate_measurement_id r = Some v \<Longrightarrow> move taken_back ident (f, Requested r) (f, Named v)"
| alias_invalid: "validate_measurement_id r = None \<Longrightarrow> move taken_back ident (f, Requested r) (f, Broken)"
| first_absent: "read_identity f = Absent \<Longrightarrow> move taken_back ident (f, FirstRead n) (f, Linking)"
| first_found: "read_identity f = Identity v \<Longrightarrow> move taken_back ident (f, FirstRead n) (f, Got v)"
| first_invalid: "read_identity f = Invalid \<Longrightarrow> move taken_back ident (f, FirstRead n) (f, Broken)"
| first_wait: "read_identity f = Incomplete \<Longrightarrow>
    move taken_back ident (f, FirstRead n) (f, if 1 < n then FirstRead (n - 1) else Broken)"
| link_wins: "move taken_back ident (None, Linking) (Some (ident @ newline), Got ident)"
| link_loses: "move taken_back ident (Some t, Linking) (Some t, SecondRead ATTEMPTS)"
| link_unsupported: "move taken_back ident (f, Linking) (f, Creating)"
| create_wins: "move taken_back ident (None, Creating) (Some [], Writing)"
| create_loses: "move taken_back ident (Some t, Creating) (Some t, SecondRead ATTEMPTS)"
| write_partly: "n \<le> length ident \<Longrightarrow> move taken_back ident (Some t, Writing) (Some (take n ident), Writing)"
| write_fails: "f' \<in> {None, f} \<Longrightarrow> move taken_back ident (f, Writing) (f', Broken)"
| write_ends: "move taken_back ident (Some t, Writing) (Some (ident @ newline), Flushed)"
| sync_ok: "move taken_back ident (f, Flushed) (f, Got ident)"
| sync_fails: "taken_back \<Longrightarrow> move taken_back ident (f, Flushed) (None, Broken)"
| second_absent: "read_identity f = Absent \<Longrightarrow> move taken_back ident (f, SecondRead n) (f, Broken)"
| second_found: "read_identity f = Identity v \<Longrightarrow> move taken_back ident (f, SecondRead n) (f, Got v)"
| second_invalid: "read_identity f = Invalid \<Longrightarrow> move taken_back ident (f, SecondRead n) (f, Broken)"
| second_wait: "read_identity f = Incomplete \<Longrightarrow>
    move taken_back ident (f, SecondRead n) (f, if 1 < n then SecondRead (n - 1) else Broken)"
| dies: "move taken_back ident (f, pc) (f, Broken)"

inductive_cases moveE: "move taken_back ident (f, pc) (f', pc')"

section \<open>All observers of a machine\<close>

record identity_state =
  os_file :: "str option"
  os_observers :: "nat \<Rightarrow> observer"

inductive identity_step :: "bool \<Rightarrow> (nat \<Rightarrow> str) \<Rightarrow> identity_state \<Rightarrow> identity_state \<Rightarrow> bool" for taken_back ident where
  "move taken_back (ident i) (os_file s, os_observers s i) (f', pc') \<Longrightarrow>
     identity_step taken_back ident s (s\<lparr>os_file := f', os_observers := (os_observers s)(i := pc')\<rparr>)"

inductive_cases identity_stepE: "identity_step taken_back ident s s'"

text \<open>\<open>asked i\<close> is the alias observer \<open>i\<close> is started with, if any.\<close>

definition observers_start :: "(nat \<Rightarrow> str option) \<Rightarrow> str option \<Rightarrow> identity_state" where
  "observers_start asked f = \<lparr>os_file = f, os_observers = (\<lambda>i. observer_start (asked i))\<rparr>"

definition identity_reachable ::
    "bool \<Rightarrow> (nat \<Rightarrow> str) \<Rightarrow> (nat \<Rightarrow> str option) \<Rightarrow> str option \<Rightarrow> identity_state \<Rightarrow> bool" where
  "identity_reachable taken_back ident asked f s = (identity_step taken_back ident)\<^sup>*\<^sup>* (observers_start asked f) s"

section \<open>Identities read back\<close>

lemma alnum_not_space: "is_alnum c \<or> c \<in> {CHR ''.'', CHR ''_'', CHR ''-''} \<Longrightarrow> \<not> is_space c"
  by (auto simp: is_alnum_def is_digit_def is_space_def)

lemma VALID_ID_chars: "VALID_ID s \<Longrightarrow> c \<in> set s \<Longrightarrow> \<not> is_space c"
  using alnum_not_space by (auto simp: VALID_ID_def list_all_iff split: list.splits)

lemma strip_no_space: "(\<And>c. c \<in> set s \<Longrightarrow> \<not> is_space c) \<Longrightarrow> strip s = s"
proof -
  assume *: "\<And>c. c \<in> set s \<Longrightarrow> \<not> is_space c"
  have "dropWhile is_space t = t" if "set t \<subseteq> set s" for t
    using that * by (cases t) auto
  from this [of s] this [of "rev s"] show ?thesis by (simp add: strip_def)
qed

lemma strip_newline: "(\<And>c. c \<in> set s \<Longrightarrow> \<not> is_space c) \<Longrightarrow> s \<noteq> [] \<Longrightarrow> strip (s @ newline) = s"
proof -
  assume *: "\<And>c. c \<in> set s \<Longrightarrow> \<not> is_space c" and s: "s \<noteq> []"
  then have "dropWhile is_space (s @ newline) = s @ newline" by (cases s) auto
  moreover have "is_space (CHR 0x0A)" by code_simp
  ultimately have "strip (s @ newline) = rev (dropWhile is_space (rev s))" by (simp add: strip_def newline_def)
  moreover have "dropWhile is_space (rev s) = rev s" using * s by (cases s rule: rev_cases) auto
  ultimately show ?thesis by simp
qed

lemma read_written: "VALID_ID s \<Longrightarrow> read_identity (Some (s @ newline)) = Identity s"
proof -
  assume s: "VALID_ID s"
  then have ne: "s \<noteq> []" by (auto simp: VALID_ID_def)
  have "strip (s @ newline) = s" using VALID_ID_chars [OF s] ne by (rule strip_newline)
  then show ?thesis using s ne by (simp add: read_identity_def complete_def validate_measurement_id_def suffix_def)
qed

lemma read_partial: "VALID_ID s \<Longrightarrow> read_identity (Some (take n s)) = Incomplete"
proof -
  assume s: "VALID_ID s"
  have "CHR 0x0A \<notin> set s" using VALID_ID_chars [OF s, of "CHR 0x0A"] by (auto simp: is_space_def)
  then have "CHR 0x0A \<notin> set (take n s)" by (meson in_set_takeD)
  then have "\<not> suffix newline (take n s)" by (auto simp: suffix_def newline_def)
  then show ?thesis by (simp add: read_identity_def complete_def)
qed

lemma read_Identity: "read_identity f = Identity v \<Longrightarrow> VALID_ID v"
  by (auto simp: read_identity_def validate_measurement_id_def split: option.splits if_splits)

section \<open>Agreement\<close>

definition owns :: "observer \<Rightarrow> bool" where
  "owns pc \<longleftrightarrow> pc = Writing \<or> pc = Flushed"

definition identity_inv :: "(nat \<Rightarrow> str) \<Rightarrow> identity_state \<Rightarrow> bool" where
  "identity_inv ident s \<longleftrightarrow>
     (\<forall>i v. os_observers s i = Got v \<longrightarrow> read_identity (os_file s) = Identity v) \<and>
     (\<forall>i. os_observers s i = Writing \<longrightarrow> read_identity (os_file s) = Incomplete) \<and>
     (\<forall>i. os_observers s i = Flushed \<longrightarrow> read_identity (os_file s) = Identity (ident i)) \<and>
     (\<forall>i j. owns (os_observers s i) \<longrightarrow> owns (os_observers s j) \<longrightarrow> i = j)"

lemma read_absent [simp]: "read_identity None = Absent"
  by (simp add: read_identity_def)

lemma read_empty [simp]: "read_identity (Some []) = Incomplete"
  by (simp add: read_identity_def complete_def strip_def)

definition valid_ids :: "(nat \<Rightarrow> str) \<Rightarrow> bool" where
  "valid_ids ident \<longleftrightarrow> (\<forall>i. VALID_ID (ident i))"

text \<open>A step either leaves the file as it is, or is the one of the writer, or finds no file.\<close>

lemma identity_inv_step:
  assumes "valid_ids ident" "identity_inv ident s" "identity_step False ident s s'"
  shows "identity_inv ident s'"
  using assms(3)
proof (rule identity_stepE)
  fix i f' pc'
  assume s': "s' = s\<lparr>os_file := f', os_observers := (os_observers s)(i := pc')\<rparr>"
    and m: "move False (ident i) (os_file s, os_observers s i) (f', pc')"
  note inv = assms(2) [unfolded identity_inv_def]
  have valid: "VALID_ID (ident k)" for k using assms(1) by (simp add: valid_ids_def)
  show ?thesis
    using m
  proof (cases rule: move.cases)
    case (write_partly n t)
    then show ?thesis using inv read_partial [OF valid] s' unfolding identity_inv_def by (auto simp: owns_def)
  qed (use inv read_written [OF valid] s' in \<open>auto simp: identity_inv_def owns_def\<close>)
qed

lemma identity_inv_reachable:
  assumes "valid_ids ident" "identity_reachable False ident asked f s"
  shows "identity_inv ident s"
  using assms(2) unfolding identity_reachable_def
proof (induction rule: rtranclp_induct)
  case base
  show ?case by (auto simp: observers_start_def observer_start_def identity_inv_def owns_def split: option.splits if_splits)
next
  case (step s s')
  then show ?case using identity_inv_step [OF assms(1)] by blast
qed

text \<open>The identities the code makes up are valid.\<close>

lemma fresh_identity_valid:
  "length h = 24 \<Longrightarrow> list_all is_alnum h \<Longrightarrow> VALID_ID (''observer-'' @ h)"
proof -
  assume h: "length h = 24" "list_all is_alnum h"
  have "list_all (\<lambda>d. is_alnum d \<or> d \<in> {CHR ''.'', CHR ''_'', CHR ''-''}) ''bserver-''" "is_alnum (CHR ''o'')"
    by code_simp+
  moreover have "list_all (\<lambda>d. is_alnum d \<or> d \<in> {CHR ''.'', CHR ''_'', CHR ''-''}) h"
    using h(2) by (auto simp: list_all_iff)
  ultimately show ?thesis using h(1) by (simp add: VALID_ID_def)
qed

text \<open>An observer started with an alias uses exactly that, or fails: it never looks at the file.\<close>

definition keeps_alias :: "(nat \<Rightarrow> str option) \<Rightarrow> identity_state \<Rightarrow> bool" where
  "keeps_alias asked s \<longleftrightarrow>
     (\<forall>i. case os_observers s i of
        Requested r \<Rightarrow> asked i = Some r \<and> r \<noteq> []
      | Named v \<Rightarrow> (\<exists>r. asked i = Some r \<and> r \<noteq> [] \<and> validate_measurement_id r = Some v)
      | Broken \<Rightarrow> True
      | _ \<Rightarrow> asked i \<in> {None, Some []})"

lemma keeps_alias_step:
  assumes "keeps_alias asked s" "identity_step tb ident s s'"
  shows "keeps_alias asked s'"
  using assms(2)
proof (rule identity_stepE)
  fix i f' pc'
  assume s': "s' = s\<lparr>os_file := f', os_observers := (os_observers s)(i := pc')\<rparr>"
    and m: "move tb (ident i) (os_file s, os_observers s i) (f', pc')"
  show ?thesis
    using m
    by (cases rule: move.cases) (insert assms(1), auto simp: keeps_alias_def s' split: observer.splits)
qed

lemma keeps_alias_reachable:
  assumes "identity_reachable tb ident asked f s"
  shows "keeps_alias asked s"
  using assms unfolding identity_reachable_def
proof (induction rule: rtranclp_induct)
  case base
  show ?case by (auto simp: observers_start_def observer_start_def keeps_alias_def split: option.splits)
qed (rule keeps_alias_step)

lemma alias_is_used:
  assumes "identity_reachable tb ident asked f s" "os_observers s i = Named v"
  shows "\<exists>r. asked i = Some r \<and> r \<noteq> [] \<and> validate_measurement_id r = Some v"
proof -
  have "case os_observers s i of Named v \<Rightarrow> \<exists>r. asked i = Some r \<and> r \<noteq> [] \<and> validate_measurement_id r = Some v | _ \<Rightarrow> True"
    using keeps_alias_reachable [OF assms(1), unfolded keeps_alias_def, rule_format, of i] by (simp split: observer.splits)
  then show ?thesis using assms(2) by simp
qed

text \<open>C38. However the observers of a machine interleave, on file systems with or without hard links, and
  wherever some of them fail or die, all observers that obtain the machine's identity obtain the same one, it
  is a valid identity, and it is what the file holds; provided no completed write is taken back. Observers
  started with an alias of their own may run among them (\<open>asked\<close>): they do not touch the file.\<close>

theorem observers_agree_on_identity:
  assumes "valid_ids ident" "identity_reachable False ident asked f s"
    and "os_observers s i = Got v" "os_observers s j = Got w"
  shows "v = w \<and> VALID_ID v \<and> read_identity (os_file s) = Identity v"
proof -
  have "identity_inv ident s" using assms(1,2) by (rule identity_inv_reachable)
  then have "\<And>k x. os_observers s k = Got x \<Longrightarrow> read_identity (os_file s) = Identity x" by (simp add: identity_inv_def)
  then have "read_identity (os_file s) = Identity v" "read_identity (os_file s) = Identity w" using assms(3,4) by blast+
  then show ?thesis using read_Identity by auto
qed

lemma identity_reachable_move:
  assumes "identity_reachable tb ident asked f s" "move tb (ident i) (os_file s, os_observers s i) (f', pc')"
  shows "identity_reachable tb ident asked f (s\<lparr>os_file := f', os_observers := (os_observers s)(i := pc')\<rparr>)"
  using assms(1) identity_step.intros [where ident = ident and i = i, OF assms(2)]
  unfolding identity_reachable_def by (rule rtranclp.rtrancl_into_rtrancl)

definition demo_ident :: "nat \<Rightarrow> str" where
  "demo_ident i = (if i = 0 then ''observer'' else ''observer-1'')"

lemma demo_ident_valid: "VALID_ID (demo_ident i)"
proof -
  have "VALID_ID ''observer''" "VALID_ID ''observer-1''" by code_simp+
  then show ?thesis by (simp add: demo_ident_def)
qed

lemma identity_reachable_start: "identity_reachable tb ident asked f (observers_start asked f)"
  by (simp add: identity_reachable_def)

text \<open>Two observers both find no file; the first links its identity, the second must read it. A third one is
  started with an alias.\<close>

definition demo_asked :: "nat \<Rightarrow> str option" where
  "demo_asked i = (if i = 2 then Some ''lab-machine-7 '' else None)"

lemma observers_agree_on_identity_witness:
  "\<exists>s v. identity_reachable False demo_ident demo_asked None s \<and> os_observers s 0 = Got v \<and> os_observers s 1 = Got v \<and> v = ''observer'' \<and>
     os_observers s 2 = Named ''lab-machine-7''"
proof -
  let ?I = "observers_start demo_asked None" and ?id = "demo_ident 0"
  define s1 where "s1 = ?I\<lparr>os_observers := (os_observers ?I)(0 := Linking)\<rparr>"
  define s2 where "s2 = s1\<lparr>os_observers := (os_observers s1)(1 := Linking)\<rparr>"
  define s3 where "s3 = s2\<lparr>os_file := Some (?id @ newline), os_observers := (os_observers s2)(0 := Got ?id)\<rparr>"
  define s4 where "s4 = s3\<lparr>os_observers := (os_observers s3)(1 := SecondRead ATTEMPTS)\<rparr>"
  define s5 where "s5 = s4\<lparr>os_observers := (os_observers s4)(1 := Got ?id)\<rparr>"
  define s6 where "s6 = s5\<lparr>os_observers := (os_observers s5)(2 := Named ''lab-machine-7'')\<rparr>"
  note defs = s1_def s2_def s3_def s4_def s5_def s6_def observers_start_def observer_start_def demo_asked_def
  have "identity_reachable False demo_ident demo_asked None s1"
    using identity_reachable_move [where tb = False and ident = demo_ident and i = 0 and f' = None and pc' = Linking,
        OF identity_reachable_start [of _ _ demo_asked None]]
    by (simp add: defs move.first_absent)
  then have "identity_reachable False demo_ident demo_asked None s2"
    using identity_reachable_move [of False demo_ident demo_asked None s1 1 None Linking] by (simp add: defs move.first_absent)
  then have "identity_reachable False demo_ident demo_asked None s3"
    using identity_reachable_move [of False demo_ident demo_asked None s2 0 "Some (?id @ newline)" "Got ?id"]
    by (simp add: defs move.link_wins)
  then have "identity_reachable False demo_ident demo_asked None s4"
    using identity_reachable_move [of False demo_ident demo_asked None s3 1 "Some (?id @ newline)" "SecondRead ATTEMPTS"]
    by (simp add: defs move.link_loses)
  then have "identity_reachable False demo_ident demo_asked None s5"
    using identity_reachable_move [of False demo_ident demo_asked None s4 1 "Some (?id @ newline)" "Got ?id"]
    by (simp add: defs move.second_found read_written demo_ident_valid)
  moreover have "validate_measurement_id ''lab-machine-7 '' = Some ''lab-machine-7''" by code_simp
  ultimately have r: "identity_reachable False demo_ident demo_asked None s6"
    using identity_reachable_move [of False demo_ident demo_asked None s5 2 "Some (?id @ newline)" "Named ''lab-machine-7''"]
    by (simp add: defs move.alias_valid)
  have g: "os_observers s6 0 = Got ?id" "os_observers s6 1 = Got ?id" "os_observers s6 2 = Named ''lab-machine-7''"
    by (simp_all add: defs)
  have "?id = ?id \<and> VALID_ID ?id \<and> read_identity (os_file s6) = Identity ?id"
    using _ r g(1,2) by (rule observers_agree_on_identity) (simp add: valid_ids_def demo_ident_valid)
  then show ?thesis using r g by (auto simp: demo_ident_def)
qed

section \<open>A completed write that is taken back\<close>

text \<open>
  Where links are not supported the identity file is visible with its final newline before it is forced
  to disk. If that fails the file is unlinked, but another observer may have read it: a third one then
  makes up a new identity, and two observers of one machine use different ones.
\<close>

lemma taken_back_identities_differ:
  "\<exists>s. identity_reachable True demo_ident (\<lambda>_. None) None s \<and> os_observers s 2 = Got ''observer'' \<and> os_observers s 1 = Got ''observer-1''"
proof -
  let ?t = "Some (''observer'' @ newline)" and ?u = "Some (''observer-1'' @ newline)"
  define st where "st f p q r = \<lparr>os_file = f, os_observers = (\<lambda>_. FirstRead ATTEMPTS)(0 := p, 1 := q, 2 := r)\<rparr>" for f p q r
  let ?R = "identity_reachable True demo_ident (\<lambda>_. None) None" and ?F = "FirstRead ATTEMPTS"
  note go = identity_reachable_move [of True demo_ident "\<lambda>_. None" None]
  have d: "demo_ident 0 = ''observer''" "demo_ident 1 = ''observer-1''" by (simp_all add: demo_ident_def)
  have twist: "st f p q r = s" if "os_file s = f" "os_observers s = (\<lambda>_. ?F)(0 := p, 1 := q, 2 := r)" for f p q r s
    using that by (simp add: st_def)
  have upd: "(st f p q r)\<lparr>os_file := f', os_observers := (os_observers (st f p q r))(0 := x)\<rparr> = st f' x q r"
    "(st f p q r)\<lparr>os_file := f', os_observers := (os_observers (st f p q r))(1 := x)\<rparr> = st f' p x r"
    "(st f p q r)\<lparr>os_file := f', os_observers := (os_observers (st f p q r))(2 := x)\<rparr> = st f' p q x" for f p q r f' x
    by (simp_all add: st_def fun_upd_twist)
  have sel: "os_file (st f p q r) = f" "os_observers (st f p q r) 0 = p" "os_observers (st f p q r) 1 = q"
    "os_observers (st f p q r) 2 = r" for f p q r by (simp_all add: st_def)
  have read: "read_identity ?t = Identity ''observer''" using read_written [OF demo_ident_valid [of 0]] by (simp add: d)
  have "?R (st None ?F ?F ?F)"
    using identity_reachable_start [of True demo_ident "\<lambda>_. None" None] by (simp add: st_def observers_start_def observer_start_def fun_upd_idem)
  then have "?R (st None Linking ?F ?F)" using go [of _ 0 None Linking] by (metis upd(1) sel move.first_absent read_absent)
  then have "?R (st None Creating ?F ?F)" using go [of _ 0 None Creating] by (metis upd(1) sel move.link_unsupported)
  then have "?R (st (Some []) Writing ?F ?F)" using go [of _ 0 "Some []" Writing] by (metis upd(1) sel move.create_wins)
  then have "?R (st ?t Flushed ?F ?F)" using go [of _ 0 ?t Flushed] by (metis upd(1) sel d(1) move.write_ends)
  then have "?R (st ?t Flushed ?F (Got ''observer''))"
    using go [of _ 2 ?t "Got ''observer''"] by (metis upd(3) sel read move.first_found)
  then have "?R (st None Broken ?F (Got ''observer''))" using go [of _ 0 None Broken] by (metis upd(1) sel move.sync_fails)
  then have "?R (st None Broken Linking (Got ''observer''))"
    using go [of _ 1 None Linking] by (metis upd(2) sel move.first_absent read_absent)
  then have "?R (st ?u Broken (Got ''observer-1'') (Got ''observer''))"
    using go [of _ 1 ?u "Got ''observer-1''"] by (metis upd(2) sel d(2) move.link_wins)
  then show ?thesis using sel by blast
qed

section \<open>The rotated event log\<close>

text \<open>
  The lines of the current file (index 0) and of its numbered backups; \<open>size\<close> of a file is the length of
  its lines. This is \<open>_rotate_if_needed\<close> and \<open>log\<close> while no file operation fails.
\<close>

type_synonym log_files = "nat \<Rightarrow> str list option"

definition bytes_of :: "str list \<Rightarrow> nat" where
  "bytes_of ls = sum_list (map length ls)"

text \<open>\<open>for index in range(backups - 1, 0, -1)\<close>: move \<open>.index\<close> to \<open>.index+1\<close>.\<close>

fun shift_logs :: "nat \<Rightarrow> log_files \<Rightarrow> log_files" where
  "shift_logs 0 F = F"
| "shift_logs (Suc i) F =
     shift_logs i (case F (Suc i) of None \<Rightarrow> F | Some ls \<Rightarrow> F(Suc (Suc i) := Some ls, Suc i := None))"

definition rotate_if_needed :: "nat \<Rightarrow> nat \<Rightarrow> log_files \<Rightarrow> log_files" where
  "rotate_if_needed max_bytes backups F =
     (case F 0 of
        None \<Rightarrow> F
      | Some current \<Rightarrow>
          (if bytes_of current < max_bytes then F
           else if backups = 0 then F(0 := None)
           else (let G = shift_logs (backups - 1) (F(backups := None)) in G(1 := Some current, 0 := None))))"

definition lines_of :: "log_files \<Rightarrow> nat \<Rightarrow> str list" where
  "lines_of F k = (case F k of None \<Rightarrow> [] | Some ls \<Rightarrow> ls)"

definition log_event :: "nat \<Rightarrow> nat \<Rightarrow> str \<Rightarrow> log_files \<Rightarrow> log_files" where
  "log_event max_bytes backups line F =
     (let G = rotate_if_needed max_bytes backups F in G(0 := Some (lines_of G 0 @ [line])))"

text \<open>Everything kept, oldest first.\<close>

definition kept :: "nat \<Rightarrow> log_files \<Rightarrow> str list" where
  "kept backups F = concat (map (lines_of F) (rev [0..<backups + 1]))"

lemma shift_logs_eq:
  "F (Suc n) = None \<Longrightarrow> shift_logs n F k =
     (if 2 \<le> k \<and> k \<le> n + 1 then F (k - 1) else if k = 1 then None else F k)"
proof (induction n arbitrary: F)
  case (Suc n)
  define G where "G = (case F (Suc n) of None \<Rightarrow> F | Some ls \<Rightarrow> F(Suc (Suc n) := Some ls, Suc n := None))"
  have G: "G = F(Suc (Suc n) := F (Suc n), Suc n := None)" using Suc.prems by (auto simp: G_def split: option.split)
  then have "shift_logs n G k = (if 2 \<le> k \<and> k \<le> n + 1 then G (k - 1) else if k = 1 then None else G k)"
    by (intro Suc.IH) simp
  moreover have "shift_logs (Suc n) F = shift_logs n G" by (simp add: G_def)
  ultimately show ?case using G by auto
qed auto

lemma rotated:
  assumes "F 0 = Some c" "max_bytes \<le> bytes_of c"
  shows "rotate_if_needed max_bytes backups F k = (if k = 0 then None else if k \<le> backups then F (k - 1) else F k)"
proof (cases backups)
  case (Suc n)
  then show ?thesis using assms shift_logs_eq [of "F(Suc n := None)" n k] by (auto simp: rotate_if_needed_def Let_def)
qed (use assms in \<open>simp add: rotate_if_needed_def\<close>)

lemma kept_Suc: "kept (Suc b) F = lines_of F (Suc b) @ kept b F"
  by (simp add: kept_def)

lemma kept_shift: "(\<And>k. k \<le> b \<Longrightarrow> G (Suc k) = F k) \<Longrightarrow> G 0 = None \<Longrightarrow> kept (Suc b) G = kept b F"
  by (induction b) (simp_all add: kept_Suc lines_of_def, simp add: kept_def lines_of_def)

lemma kept_rotate: "suffix (kept backups (rotate_if_needed max_bytes backups F)) (kept backups F)"
proof (cases "\<exists>c. F 0 = Some c \<and> max_bytes \<le> bytes_of c")
  case False
  then have "rotate_if_needed max_bytes backups F = F" by (auto simp: rotate_if_needed_def split: option.split)
  then show ?thesis by simp
next
  case True
  then obtain c where c: "F 0 = Some c" "max_bytes \<le> bytes_of c" by blast
  let ?G = "rotate_if_needed max_bytes backups F"
  show ?thesis
  proof (cases backups)
    case 0
    then show ?thesis using rotated [where F = F and k = 0 and backups = 0, OF c] by (simp add: kept_def lines_of_def)
  next
    case (Suc b)
    have "kept (Suc b) ?G = kept b F" using rotated [where F = F and backups = backups, OF c] Suc by (intro kept_shift) auto
    then show ?thesis unfolding Suc kept_Suc [of b F] by (simp add: suffix_def)
  qed
qed

lemma kept_append: "kept b (F(0 := Some (lines_of F 0 @ [line]))) = kept b F @ [line]"
proof (induction b)
  case (Suc b)
  then show ?case by (simp add: kept_Suc lines_of_def)
qed (simp add: kept_def lines_of_def)

definition log_bounded :: "nat \<Rightarrow> nat \<Rightarrow> nat \<Rightarrow> log_files \<Rightarrow> bool" where
  "log_bounded max_bytes longest backups F \<longleftrightarrow>
     (\<forall>k. bytes_of (lines_of F k) < max_bytes + longest) \<and> (\<forall>k > backups. F k = None)"

lemma log_event_bounded:
  assumes "log_bounded mx longest backups F" "length line \<le> longest" "0 < mx"
  shows "log_bounded mx longest backups (log_event mx backups line F)"
proof -
  let ?G = "rotate_if_needed mx backups F"
  have G: "?G k \<in> {None, F k, F (k - 1)} \<and> (backups < k \<longrightarrow> ?G k = None) \<and> bytes_of (lines_of ?G 0) < mx" for k
  proof (cases "\<exists>c. F 0 = Some c \<and> mx \<le> bytes_of c")
    case True
    then have "?G k = (if k = 0 then None else if k \<le> backups then F (k - 1) else F k)" for k using rotated [of F] by blast
    then show ?thesis using assms by (auto simp: log_bounded_def lines_of_def bytes_of_def)
  next
    case False
    then have "?G = F" by (auto simp: rotate_if_needed_def split: option.split)
    then show ?thesis using assms False by (auto simp: log_bounded_def lines_of_def bytes_of_def not_le split: option.splits)
  qed
  have "bytes_of (lines_of ?G k) < mx + longest" for k
    using G [of k] assms(1) by (auto simp: log_bounded_def lines_of_def bytes_of_def split: option.splits)
  moreover have "bytes_of (lines_of ?G 0 @ [line]) < mx + longest" using G [of 0] assms(2) by (simp add: bytes_of_def)
  ultimately show ?thesis using G by (auto simp: log_bounded_def log_event_def Let_def lines_of_def)
qed

lemma event_log_keeps_recent:
  assumes "0 < mx" "\<And>l. l \<in> set events \<Longrightarrow> length l \<le> longest"
  shows "suffix (kept backups (fold (log_event mx backups) events (\<lambda>_. None))) events"
    "log_bounded mx longest backups (fold (log_event mx backups) events (\<lambda>_. None))"
proof -
  have "suffix (kept backups (fold (log_event mx backups) events (\<lambda>_. None))) events \<and>
      log_bounded mx longest backups (fold (log_event mx backups) events (\<lambda>_. None))"
    using assms(2)
  proof (induction events rule: rev_induct)
    case Nil
    have "kept b (\<lambda>_. None) = []" for b by (induction b) (simp_all add: kept_Suc lines_of_def, simp add: kept_def lines_of_def)
    then show ?case using assms(1) by (simp add: log_bounded_def lines_of_def bytes_of_def)
  next
    case (snoc line events)
    let ?F = "fold (log_event mx backups) events (\<lambda>_. None)"
    have "suffix (kept backups ?F) events" "log_bounded mx longest backups ?F" using snoc by simp_all
    moreover have "kept backups (log_event mx backups line ?F) = kept backups (rotate_if_needed mx backups ?F) @ [line]"
      by (simp add: log_event_def Let_def kept_append)
    ultimately show ?case using kept_rotate [of backups mx ?F] log_event_bounded [of mx longest backups ?F line] snoc.prems assms(1)
      by (auto intro: suffix_order.trans)
  qed
  then show "suffix (kept backups (fold (log_event mx backups) events (\<lambda>_. None))) events"
    "log_bounded mx longest backups (fold (log_event mx backups) events (\<lambda>_. None))" by blast+
qed

end
