(* ===== verification/Business_Case.thy ===== *)
theory Business_Case imports Availability begin

text \<open>
  \<open>src/measurement/business_case.py\<close>: the projection of a measured summary to a fleet's yearly compute and
  savings. Fleet sizes, cores and prices are assumptions of a device class; hours, AC fraction and the
  recoverable range are measured. The lemmas show that no projection credits a device with more than a
  day's hours per day, rounding included, and that the low estimate never exceeds the high one.
\<close>

definition DAYS_PER_YEAR :: rat where "DAYS_PER_YEAR = 365"
definition DEFAULT_WAKE_CPU_FRACTION :: rat where "DEFAULT_WAKE_CPU_FRACTION = 3 / 4"
definition DEFAULT_WAKEABLE_FRACTION :: rat where "DEFAULT_WAKEABLE_FRACTION = 1"

definition bounded :: "pyfloat \<Rightarrow> rat \<Rightarrow> rat" where
  "bounded v upper = (case v of Fin x \<Rightarrow> max 0 (min upper x) | _ \<Rightarrow> 0)"

record device_class =
  dc_name :: str
  dc_count :: int
  dc_vcpu_cores :: rat
  dc_price_per_vcpu_hr :: rat
  dc_always_on :: bool

definition DEVICE_DEFAULTS :: "(str \<times> device_class) list" where
  "DEVICE_DEFAULTS =
     [(''laptop_assigned'', \<lparr>dc_name = ''Assigned laptops'', dc_count = 200000, dc_vcpu_cores = 12,
         dc_price_per_vcpu_hr = fl64 (18 / 1000), dc_always_on = False\<rparr>),
      (''laptop_unassigned'', \<lparr>dc_name = ''Unassigned laptops'', dc_count = 10000, dc_vcpu_cores = 12,
         dc_price_per_vcpu_hr = fl64 (52 / 1000), dc_always_on = True\<rparr>),
      (''devbox'', \<lparr>dc_name = ''Idle dev boxes'', dc_count = 20000, dc_vcpu_cores = 16,
         dc_price_per_vcpu_hr = fl64 (52 / 1000), dc_always_on = True\<rparr>)]"

text \<open>
  A device's summary together with its timing, if the profile has any. The coverage stands beside it: for
  the average of several devices it is not a whole number.
\<close>

record device_summary =
  ds_profile :: profile_summary
  ds_coverage :: rat
  ds_availability :: "availability option"

definition measured_awake_hours_per_day :: "rat \<Rightarrow> rat" where
  "measured_awake_hours_per_day coverage_buckets = max 0 (min 24 (fdiv coverage_buckets 7))"

definition measured_availability_hours_per_day :: "device_summary \<Rightarrow> rat \<times> rat \<times> str" where
  "measured_availability_hours_per_day s =
     (let by_coverage = (let observed = measured_awake_hours_per_day (ds_coverage s)
            in (observed, max 0 (fsub 24 observed), ''coverage''))
      in case ds_availability s of
           None \<Rightarrow> by_coverage
         | Some a \<Rightarrow>
             (if 0 < max 0 (av_span_seconds a)
              then (let observed = bounded (Fin (av_observed_hours_per_day a)) 24
                    in (observed, bounded (Fin (av_unavailable_hours_per_day a)) (fsub 24 observed), av_source a))
              else by_coverage))"

record project_options =
  po_awake_hours_per_day :: "pyfloat option"
  po_ac_fraction :: "pyfloat option"
  po_unavailable_hours_per_day :: "pyfloat option"
  po_include_unavailable :: bool
  po_wakeable_fraction :: pyfloat
  po_wake_cpu_fraction :: pyfloat

definition default_options :: project_options where
  "default_options = \<lparr>po_awake_hours_per_day = None, po_ac_fraction = None, po_unavailable_hours_per_day = None,
     po_include_unavailable = True, po_wakeable_fraction = Fin DEFAULT_WAKEABLE_FRACTION,
     po_wake_cpu_fraction = Fin DEFAULT_WAKE_CPU_FRACTION\<rparr>"

record projection =
  pj_device_class :: str
  pj_availability_source :: str
  pj_awake_hours_per_day :: rat
  pj_unavailable_hours_per_day :: rat
  pj_ac_fraction :: rat
  pj_awake_harvest_hours_per_day :: rat
  pj_wake_enabled :: bool
  pj_wake_hours_per_day :: rat
  pj_harvest_hours_per_day :: rat
  pj_awake_vcpu_hours_day_low :: rat
  pj_awake_vcpu_hours_day_high :: rat
  pj_wake_vcpu_hours_day :: rat
  pj_vcpu_hours_day_low :: rat
  pj_vcpu_hours_day_high :: rat
  pj_measured_ram_headroom_pct :: rat
  pj_vcpu_hours_year_low :: rat
  pj_vcpu_hours_year_high :: rat
  pj_savings_usd_year_low :: rat
  pj_savings_usd_year_high :: rat

text \<open>Awake and unavailable hours and where they come from.\<close>

definition hours_for :: "device_summary \<Rightarrow> device_class \<Rightarrow> project_options \<Rightarrow> rat \<times> rat \<times> str" where
  "hours_for s device opts =
     (let (measured_awake, measured_unavailable, availability_source) = measured_availability_hours_per_day s
      in if dc_always_on device then (24, 0, ''always_on'')
         else (let awake = (case po_awake_hours_per_day opts of Some a \<Rightarrow> bounded a 24 | None \<Rightarrow> measured_awake);
                   dflt = (if po_awake_hours_per_day opts = None then measured_unavailable else max 0 (fsub 24 awake))
               in (awake,
                   (case po_unavailable_hours_per_day opts of Some u \<Rightarrow> bounded u (fsub 24 awake) | None \<Rightarrow> dflt),
                   availability_source)))"

definition ac_for :: "device_summary \<Rightarrow> device_class \<Rightarrow> project_options \<Rightarrow> rat" where
  "ac_for s device opts =
     (case po_ac_fraction opts of
        Some a \<Rightarrow> bounded a 1
      | None \<Rightarrow> if dc_always_on device then 1 else fdiv (bounded (Fin (su_ac_avg (ds_profile s))) 100) 100)"

definition project :: "device_summary \<Rightarrow> device_class \<Rightarrow> project_options \<Rightarrow> projection" where
  "project s device opts =
     (let rec_low = fdiv (max 0 (ms_low (su_cpu (ds_profile s)))) 100;
          rec_high = fdiv (max 0 (ms_high (su_cpu (ds_profile s)))) 100;
          (awake, unavailable, availability_source) = hours_for s device opts;
          ac = ac_for s device opts;
          awake_harvest_hours = fmul awake ac;
          wakeable = bounded (po_wakeable_fraction opts) 1;
          wake_cpu = bounded (po_wake_cpu_fraction opts) 1;
          enabled = (po_include_unavailable opts \<and> \<not> dc_always_on device);
          wake_hours = (if enabled then fmul unavailable wakeable else 0);
          cores = dc_vcpu_cores device;
          awake_day_low = fmul (fmul rec_low cores) awake_harvest_hours;
          awake_day_high = fmul (fmul rec_high cores) awake_harvest_hours;
          wake_day = fmul (fmul wake_cpu cores) wake_hours;
          day_low = fadd awake_day_low wake_day; day_high = fadd awake_day_high wake_day;
          yearly = (\<lambda>day. fmul (fmul day DAYS_PER_YEAR) (fl64 (of_int (dc_count device))))
      in \<lparr>pj_device_class = dc_name device, pj_availability_source = availability_source,
          pj_awake_hours_per_day = awake, pj_unavailable_hours_per_day = unavailable, pj_ac_fraction = ac,
          pj_awake_harvest_hours_per_day = awake_harvest_hours, pj_wake_enabled = enabled,
          pj_wake_hours_per_day = wake_hours, pj_harvest_hours_per_day = fadd awake_harvest_hours wake_hours,
          pj_awake_vcpu_hours_day_low = awake_day_low, pj_awake_vcpu_hours_day_high = awake_day_high,
          pj_wake_vcpu_hours_day = wake_day, pj_vcpu_hours_day_low = day_low, pj_vcpu_hours_day_high = day_high,
          pj_measured_ram_headroom_pct = bounded (Fin (su_ram_headroom (ds_profile s))) 100,
          pj_vcpu_hours_year_low = yearly day_low, pj_vcpu_hours_year_high = yearly day_high,
          pj_savings_usd_year_low = fmul (yearly day_low) (dc_price_per_vcpu_hr device),
          pj_savings_usd_year_high = fmul (yearly day_high) (dc_price_per_vcpu_hr device)\<rparr>)"

record fleet_projection =
  fj_per_class :: "projection list"
  fj_savings_usd_year_low :: rat
  fj_savings_usd_year_high :: rat
  fj_vcpu_hours_year_low :: rat
  fj_vcpu_hours_year_high :: rat

definition project_fleet :: "device_summary \<Rightarrow> device_class list \<Rightarrow> project_options \<Rightarrow> fleet_projection" where
  "project_fleet s devices opts =
     (let per_class = map (\<lambda>d. project s d opts) devices
      in \<lparr>fj_per_class = per_class, fj_savings_usd_year_low = py_sum (map pj_savings_usd_year_low per_class),
          fj_savings_usd_year_high = py_sum (map pj_savings_usd_year_high per_class),
          fj_vcpu_hours_year_low = py_sum (map pj_vcpu_hours_year_low per_class),
          fj_vcpu_hours_year_high = py_sum (map pj_vcpu_hours_year_high per_class)\<rparr>)"

section \<open>A day has twenty-four hours\<close>

lemma bounded_bounds: "0 \<le> upper \<Longrightarrow> 0 \<le> bounded v upper \<and> bounded v upper \<le> upper"
  by (simp add: bounded_def split: pyfloat.split)

lemma fl64_le: "x \<le> b \<Longrightarrow> fl64 b = b \<Longrightarrow> fl64 x \<le> b"
  using fl64_mono [of x b] by simp

text \<open>The rest of the day may be rounded up, but the sum with the awake hours rounds back to 24.\<close>

lemma rest_of_day:
  assumes "0 \<le> a" "a \<le> 24"
  shows "0 \<le> fsub 24 a" "fsub 24 a \<le> 24" "a + fsub 24 a \<le> 24 + 2 powi (-49)"
proof -
  show "0 \<le> fsub 24 a" using assms by (simp add: fsub_def fl64_nonneg)
  show "fsub 24 a \<le> 24" unfolding fsub_def by (rule fl64_le) (use assms in simp_all)
  have "fsub 24 a - (24 - a) \<le> 2 powi (-49)"
  proof (cases "24 - a = 0")
    case False
    have "ulp_exp (24 - a) \<le> ulp_exp 24" using assms False by (intro ulp_exp_mono) auto
    moreover have "ulp_exp 24 = -48" by code_simp
    ultimately have "(2::rat) powi (ulp_exp (24 - a) - 1) \<le> 2 powi (-49)" by (intro two_powi_mono) simp
    then show ?thesis using fl64_error [of "24 - a"] unfolding fsub_def by linarith
  qed (simp add: fsub_def)
  then show "a + fsub 24 a \<le> 24 + 2 powi (-49)" by linarith
qed

lemma day_rounds: "x \<le> 24 + 2 powi (-49) \<Longrightarrow> fl64 x \<le> 24"
proof -
  have "fl64 (24 + 2 powi (-49)) = 24" by code_simp
  then show "x \<le> 24 + 2 powi (-49) \<Longrightarrow> fl64 x \<le> 24" using fl64_mono [of x "24 + 2 powi (-49)"] by simp
qed

text \<open>The hours read from a profile or given as an option are doubles.\<close>

definition float_value :: "pyfloat \<Rightarrow> bool" where
  "float_value v \<longleftrightarrow> (case v of Fin x \<Rightarrow> f64.exact x | _ \<Rightarrow> True)"

definition float_inputs :: "device_summary \<Rightarrow> project_options \<Rightarrow> bool" where
  "float_inputs s opts \<longleftrightarrow>
     (case ds_availability s of None \<Rightarrow> True
      | Some a \<Rightarrow> f64.exact (av_observed_hours_per_day a) \<and> f64.exact (av_unavailable_hours_per_day a)) \<and>
     (case po_awake_hours_per_day opts of None \<Rightarrow> True | Some v \<Rightarrow> float_value v) \<and>
     (case po_unavailable_hours_per_day opts of None \<Rightarrow> True | Some v \<Rightarrow> float_value v)"

lemma exact_24: "f64.exact 24"
  by (simp add: f64.exact_numeral)

lemma exact_max_min: "f64.exact a \<Longrightarrow> f64.exact b \<Longrightarrow> f64.exact (max a b) \<and> f64.exact (min a b)"
  by (simp add: max_def min_def)

lemma bounded_exact: "float_value v \<Longrightarrow> f64.exact upper \<Longrightarrow> f64.exact (bounded v upper)"
  by (auto simp: float_value_def bounded_def exact_max_min split: pyfloat.splits)

lemma exact_fsub: "f64.exact (fsub a b)" and exact_fdiv: "f64.exact (fdiv a b)"
  by (simp_all add: fsub_def fdiv_def)

lemma measured_hours_ok:
  assumes "float_inputs s opts" "measured_availability_hours_per_day s = (a, u, src)"
  shows "hours a" "0 \<le> u \<and> u \<le> fsub 24 a" "f64.exact a" "f64.exact u"
proof -
  have cov: "hours (measured_awake_hours_per_day n)" "f64.exact (measured_awake_hours_per_day n)" for n
    by (simp_all add: measured_awake_hours_per_day_def hours_def exact_max_min exact_fdiv exact_24)
  have day: "0 \<le> fsub 24 a" if "hours a" for a using that rest_of_day [of a] by (simp add: hours_def)
  consider (coverage) n where "a = measured_awake_hours_per_day n" "u = max 0 (fsub 24 a)"
    | (timed) v w where "a = bounded (Fin v) 24" "u = bounded (Fin w) (fsub 24 a)" "f64.exact v" "f64.exact w"
    using assms by (auto simp: measured_availability_hours_per_day_def float_inputs_def Let_def split: option.splits if_splits)
  then have *: "hours a \<and> (0 \<le> u \<and> u \<le> fsub 24 a) \<and> f64.exact a \<and> f64.exact u"
  proof cases
    case coverage
    then show ?thesis using cov [of n] day by (auto simp: exact_max_min exact_fsub)
  next
    case timed
    have a: "hours a" using timed(1) bounded_bounds [of 24 "Fin v"] by (simp add: hours_def)
    have u: "0 \<le> u \<and> u \<le> fsub 24 a" using bounded_bounds [OF day [OF a], of "Fin w"] timed(2) by simp
    have e: "f64.exact a" unfolding timed(1) by (rule bounded_exact) (simp_all add: float_value_def timed(3) exact_24)
    have "f64.exact u" unfolding timed(2) by (rule bounded_exact) (simp_all add: float_value_def timed(4) exact_fsub)
    then show ?thesis using a u e by simp
  qed
  then show "hours a" "0 \<le> u \<and> u \<le> fsub 24 a" "f64.exact a" "f64.exact u" by simp_all
qed

lemma hours_for_ok:
  assumes "float_inputs s opts" "hours_for s d opts = (a, u, src)"
  shows "hours a" "0 \<le> u \<and> u \<le> fsub 24 a" "f64.exact a" "f64.exact u"
proof -
  obtain ma mu ms where m: "measured_availability_hours_per_day s = (ma, mu, ms)" by (cases "measured_availability_hours_per_day s") auto
  note mo = measured_hours_ok [OF assms(1) m]
  have "hours a \<and> (0 \<le> u \<and> u \<le> fsub 24 a) \<and> f64.exact a \<and> f64.exact u"
  proof (cases "dc_always_on d")
    case True
    then show ?thesis using assms(2) by (auto simp: hours_for_def m hours_def fsub_def exact_24)
  next
    case False
    have a: "hours a \<and> f64.exact a"
      using assms mo bounded_bounds [of 24] bounded_exact [OF _ exact_24] False
      by (auto simp: hours_for_def m Let_def float_inputs_def hours_def split: option.splits)
    then have day: "0 \<le> fsub 24 a" using rest_of_day [of a] by (simp add: hours_def)
    show ?thesis
    proof (cases "po_unavailable_hours_per_day opts")
      case None
      then show ?thesis using assms(2) mo a day False
        by (auto simp: hours_for_def m Let_def exact_max_min exact_fsub split: option.splits)
    next
      case (Some v)
      then have "u = bounded v (fsub 24 a)" using assms(2) False by (auto simp: hours_for_def m Let_def)
      moreover have "float_value v" using assms(1) Some by (simp add: float_inputs_def)
      ultimately show ?thesis using a bounded_bounds [OF day, of v] bounded_exact [OF _ exact_fsub, of v 24 a] by simp
    qed
  qed
  then show "hours a" "0 \<le> u \<and> u \<le> fsub 24 a" "f64.exact a" "f64.exact u" by simp_all
qed

lemma ac_for_ok: "0 \<le> ac_for s d opts" "ac_for s d opts \<le> 1"
proof -
  have "fdiv x 100 \<le> 1" if "x \<le> 100" for x
    unfolding fdiv_def by (rule fl64_le) (use that in \<open>simp_all add: field_simps\<close>)
  moreover have "0 \<le> fdiv x 100" if "0 \<le> x" for x using that by (simp add: fdiv_def fl64_nonneg)
  ultimately show "0 \<le> ac_for s d opts" "ac_for s d opts \<le> 1"
    using bounded_bounds [of 1] bounded_bounds [of 100] by (auto simp: ac_for_def split: option.split)
qed

lemma fmul_fraction: "f64.exact x \<Longrightarrow> 0 \<le> x \<Longrightarrow> 0 \<le> f \<Longrightarrow> f \<le> 1 \<Longrightarrow> 0 \<le> fmul x f \<and> fmul x f \<le> x"
  using mult_left_le [of f x] by (auto simp: fmul_def fl64_nonneg intro: f64.rnd_le)

lemma fmul_left_mono: "0 \<le> x \<Longrightarrow> x \<le> y \<Longrightarrow> 0 \<le> z \<Longrightarrow> fmul x z \<le> fmul y z"
  unfolding fmul_def by (intro fl64_mono mult_right_mono)

lemma fmul_nonneg: "0 \<le> x \<Longrightarrow> 0 \<le> y \<Longrightarrow> 0 \<le> fmul x y"
  by (simp add: fmul_def fl64_nonneg)

lemma projection_coherent:
  assumes "float_inputs s opts"
    and lo: "0 \<le> ms_low (su_cpu (ds_profile s))" "ms_low (su_cpu (ds_profile s)) \<le> ms_high (su_cpu (ds_profile s))"
    and "0 \<le> dc_count d" "0 \<le> dc_vcpu_cores d" "0 \<le> dc_price_per_vcpu_hr d"
  shows "0 \<le> pj_harvest_hours_per_day (project s d opts) \<and> pj_harvest_hours_per_day (project s d opts) \<le> 24 \<and>
    0 \<le> pj_vcpu_hours_year_low (project s d opts) \<and>
    pj_vcpu_hours_year_low (project s d opts) \<le> pj_vcpu_hours_year_high (project s d opts) \<and>
    0 \<le> pj_savings_usd_year_low (project s d opts) \<and>
    pj_savings_usd_year_low (project s d opts) \<le> pj_savings_usd_year_high (project s d opts)"
proof -
  obtain a u src where h: "hours_for s d opts = (a, u, src)" by (cases "hours_for s d opts") auto
  note ok = hours_for_ok [OF assms(1) h]
  define A where "A = fmul a (ac_for s d opts)"
  define W where "W = (if po_include_unavailable opts \<and> \<not> dc_always_on d then fmul u (bounded (po_wakeable_fraction opts) 1) else 0)"
  define w where "w = fmul (fmul (bounded (po_wake_cpu_fraction opts) 1) (dc_vcpu_cores d)) W"
  define day where "day x = fadd (fmul (fmul (fdiv (max 0 x) 100) (dc_vcpu_cores d)) A) w" for x
  define year where "year x = fmul (fmul x DAYS_PER_YEAR) (fl64 (of_int (dc_count d)))" for x
  have A: "0 \<le> A" "A \<le> a" using fmul_fraction [of a "ac_for s d opts"] ok ac_for_ok by (simp_all add: A_def hours_def)
  have W: "0 \<le> W" "W \<le> fsub 24 a"
    using fmul_fraction [of u "bounded (po_wakeable_fraction opts) 1"] ok bounded_bounds [of 1 "po_wakeable_fraction opts"]
    by (auto simp: W_def)
  have w: "0 \<le> w" unfolding w_def using W assms(5) bounded_bounds [of 1] by (intro fmul_nonneg) auto
  have harvest: "0 \<le> fadd A W \<and> fadd A W \<le> 24"
    using A W rest_of_day(3) [of a] ok(1) by (auto simp: fadd_def hours_def fl64_nonneg intro: day_rounds)
  have day_mono: "0 \<le> x \<Longrightarrow> x \<le> y \<Longrightarrow> 0 \<le> day x \<and> day x \<le> day y" for x y
  proof -
    assume xy: "0 \<le> x" "x \<le> y"
    have d: "0 \<le> fdiv (max 0 x) 100" "fdiv (max 0 x) 100 \<le> fdiv (max 0 y) 100"
      using xy by (simp_all add: fdiv_def fl64_nonneg fl64_mono divide_right_mono)
    have c: "0 \<le> fmul (fdiv (max 0 x) 100) (dc_vcpu_cores d)" using d(1) assms(5) by (rule fmul_nonneg)
    have "0 \<le> fmul (fmul (fdiv (max 0 x) 100) (dc_vcpu_cores d)) A" using c A(1) by (rule fmul_nonneg)
    moreover have "fmul (fmul (fdiv (max 0 x) 100) (dc_vcpu_cores d)) A \<le> fmul (fmul (fdiv (max 0 y) 100) (dc_vcpu_cores d)) A"
      using c fmul_left_mono [OF d assms(5)] A(1) by (rule fmul_left_mono)
    ultimately show ?thesis unfolding day_def fadd_def using w by (auto intro!: fl64_nonneg fl64_mono)
  qed
  have c: "0 \<le> fl64 (of_int (dc_count d))" using assms(4) by (simp add: fl64_nonneg)
  have year_mono: "0 \<le> x \<Longrightarrow> x \<le> y \<Longrightarrow> 0 \<le> year x \<and> year x \<le> year y" for x y
    unfolding year_def DAYS_PER_YEAR_def using c by (auto intro!: fmul_nonneg fmul_left_mono)
  have y: "0 \<le> year (day (ms_low (su_cpu (ds_profile s))))"
    "year (day (ms_low (su_cpu (ds_profile s)))) \<le> year (day (ms_high (su_cpu (ds_profile s))))"
    using day_mono [OF lo] year_mono by blast+
  have "fmul (year (day (ms_low (su_cpu (ds_profile s))))) (dc_price_per_vcpu_hr d)
      \<le> fmul (year (day (ms_high (su_cpu (ds_profile s))))) (dc_price_per_vcpu_hr d)"
    using y assms(6) by (rule fmul_left_mono)
  moreover have "0 \<le> fmul (year (day (ms_low (su_cpu (ds_profile s))))) (dc_price_per_vcpu_hr d)"
    using y(1) assms(6) by (rule fmul_nonneg)
  ultimately show ?thesis using harvest y
    by (simp add: project_def h Let_def A_def [symmetric] W_def [symmetric] w_def [symmetric]
        day_def [symmetric] year_def [symmetric] flip: max.commute)
qed

text \<open>
  A projection never credits a device with more than twenty-four hours of harvest a day, and for the
  summary of any device its low estimates are non-negative and at most the high ones.
\<close>

theorem projection_is_coherent:
  assumes "float_inputs s opts" "metric_ok (su_cpu (ds_profile s))"
    and "0 \<le> dc_count d" "0 \<le> dc_vcpu_cores d" "0 \<le> dc_price_per_vcpu_hr d"
  shows "0 \<le> pj_harvest_hours_per_day (project s d opts) \<and> pj_harvest_hours_per_day (project s d opts) \<le> 24 \<and>
    0 \<le> pj_vcpu_hours_year_low (project s d opts) \<and>
    pj_vcpu_hours_year_low (project s d opts) \<le> pj_vcpu_hours_year_high (project s d opts) \<and>
    0 \<le> pj_savings_usd_year_low (project s d opts) \<and>
    pj_savings_usd_year_low (project s d opts) \<le> pj_savings_usd_year_high (project s d opts)"
  using projection_coherent [OF assms(1) _ _ assms(3-5)] assms(2) by (simp add: metric_ok_def)

end
