(* ===== verification/Worker_Loop.thy ===== *)
theory Worker_Loop imports Measure begin

text \<open>
  The job mode of \<open>src/worker/__main__.py\<close>: the loop of \<open>main\<close> that asks the gate, waits for headroom when it
  refuses and otherwise lets the agent take a turn, and the usage heartbeat beside it. One pass of the
  loop is given what the sensors and the orchestrator answer. Printing, telemetry and sleeping are left
  out, and what the yield watcher sees during a job is \<open>watch\<close> of theory Governor. The lemmas show that a
  guarded worker starts code only when both of the pass's checks admitted it, and that the two checks
  leave two samples in the learned profile.
\<close>

section \<open>The gate: adaptive or binary\<close>

datatype worker_gate = Adaptive governor | Binary idle_gate

definition gate_admits :: "reading \<Rightarrow> worker_gate \<Rightarrow> worker_gate \<times> bool" where
  "gate_admits r G =
     (case G of
        Adaptive g \<Rightarrow> (let (g', ok) = should_run r g in (Adaptive g', ok))
      | Binary g \<Rightarrow> (Binary g, gate_should_run g (rd_gate r 0)))"

definition gate_free :: "reading \<Rightarrow> worker_gate \<Rightarrow> worker_gate \<times> bool" where
  "gate_free r G =
     (case G of
        Adaptive g \<Rightarrow> (let (g', ok) = available_now r g in (Adaptive g', ok))
      | Binary g \<Rightarrow> (Binary g, gate_should_run g (rd_gate r 0)))"

text \<open>The state of the gate after \<open>_wait_for_headroom\<close>, one reading for each check.\<close>

fun wait_gate :: "rat \<Rightarrow> rat \<Rightarrow> rat \<Rightarrow> reading list \<Rightarrow> worker_gate \<Rightarrow> worker_gate" where
  "wait_gate step base_interval waited [] G = G"
| "wait_gate step base_interval waited (r # rs) G =
     (if waited < base_interval
      then (let (G', free) = gate_free r G
            in if free then G' else wait_gate step base_interval (fadd waited step) rs G')
      else G)"

text \<open>\<open>run_guarded\<close> with either gate; the binary one is not told about the job.\<close>

definition guarded_turn ::
  "primitives \<Rightarrow> manifest_bytes \<Rightarrow> job_env \<Rightarrow> replies \<Rightarrow> reading \<Rightarrow> worker_gate \<Rightarrow> agent \<Rightarrow>
   worker_gate \<times> agent \<times> place list \<times> turn" where
  "guarded_turn P mbytes E R r G a =
     (case G of
        Adaptive g \<Rightarrow> (let (g', rest) = run_guarded P mbytes E R r g a in (Adaptive g', rest))
      | Binary g \<Rightarrow> (if gate_should_run g (rd_gate r 0) then (Binary g, run_once P mbytes E R a)
                    else (Binary g, a, [], NoWork)))"

section \<open>The loop\<close>

record pass =
  ps_check :: reading              \<comment> \<open>the loop's own \<open>should_run\<close>\<close>
  ps_guard :: reading              \<comment> \<open>the one of \<open>run_guarded\<close>\<close>
  ps_waiting :: "reading list"     \<comment> \<open>while waiting for headroom\<close>
  ps_env :: job_env
  ps_replies :: replies

datatype pass_end = Skipped | Took turn

definition loop_pass ::
  "primitives \<Rightarrow> manifest_bytes \<Rightarrow> bool \<Rightarrow> rat \<Rightarrow> pass \<Rightarrow> worker_gate \<times> agent \<Rightarrow>
   (worker_gate \<times> agent) \<times> place list \<times> pass_end" where
  "loop_pass P mbytes gated base_interval ps st =
     (let (G, a) = st;
          (G1, admitted) = (if gated then gate_admits (ps_check ps) G else (G, True))
      in if \<not> admitted
         then ((wait_gate (min (1/2) base_interval) base_interval 0 (ps_waiting ps) G1, a), [], Skipped)
         else if gated
         then (let (G2, a2, places, t) = guarded_turn P mbytes (ps_env ps) (ps_replies ps) (ps_guard ps) G1 a
               in ((G2, a2), places, Took t))
         else (let (a2, places, t) = run_once P mbytes (ps_env ps) (ps_replies ps) a
               in ((G1, a2), places, Took t)))"

text \<open>An exception of the turn leaves the loop, a job that never returns is its last.\<close>

definition leaves :: "pass_end \<Rightarrow> bool" where
  "leaves e = (case e of Took NeverReturns \<Rightarrow> True | Took (Ran (Inl _)) \<Rightarrow> True | _ \<Rightarrow> False)"

fun job_loop ::
  "primitives \<Rightarrow> manifest_bytes \<Rightarrow> bool \<Rightarrow> rat \<Rightarrow> pass list \<Rightarrow> worker_gate \<times> agent \<Rightarrow>
   (worker_gate \<times> agent) \<times> (place list \<times> pass_end) list" where
  "job_loop P mbytes gated base_interval [] st = (st, [])"
| "job_loop P mbytes gated base_interval (ps # later) st =
     (let (st1, places, e) = loop_pass P mbytes gated base_interval ps st
      in if leaves e then (st1, [(places, e)])
         else (let (st2, trace) = job_loop P mbytes gated base_interval later st1 in (st2, (places, e) # trace)))"

section \<open>The usage heartbeat\<close>

text \<open>\<open>cpu\<close> is \<open>None\<close> where \<open>psutil\<close> is missing or fails; \<open>round1\<close> is \<open>round(x, 1)\<close>.\<close>

definition usage_beat :: "(rat \<Rightarrow> rat) \<Rightarrow> agent \<Rightarrow> rat option \<Rightarrow> rat option \<Rightarrow> rat option \<Rightarrow> heartbeat_request" where
  "usage_beat round1 a cpu gpu free_ram =
     heartbeat_request_of a None (round1 (or_zero cpu))
       (if cap_has_gpu (ag_capability a) then map_option round1 gpu else None) None free_ram"

definition usage_period :: "rat \<Rightarrow> rat" where
  "usage_period period_s = max (1/4) period_s"

text \<open>It never names a job, so it cannot move a lease, and it shows whether a job is running.\<close>

lemma usage_beat_names_no_job:
  "hb_current_job_id (usage_beat round1 a cpu gpu free_ram) = None"
  "\<not> ag_measurement_only a \<Longrightarrow> hb_idle (usage_beat round1 a cpu gpu free_ram) = (\<not> ag_job_running a)"
  by (simp_all add: usage_beat_def heartbeat_request_of_def Let_def)

section \<open>Waiting leaves the profile alone\<close>

fun gate_profile :: "worker_gate \<Rightarrow> usage_profiler option" where
  "gate_profile (Adaptive g) = Some (gv_profiler g)"
| "gate_profile (Binary g) = None"

lemma gate_free_profile: "gate_profile (fst (gate_free r G)) = gate_profile G"
  by (cases G) (simp_all add: gate_free_def case_prod_unfold available_now_mirrors)

lemma wait_gate_profile: "gate_profile (wait_gate s b w rs G) = gate_profile G"
  by (induction rs arbitrary: w G) (simp_all add: case_prod_unfold Let_def gate_free_profile)

section \<open>Two checks, two samples\<close>

text \<open>What \<open>should_run\<close> folds in once the machine is on AC and its GPU quiet.\<close>

definition sampled :: "reading \<Rightarrow> governor \<Rightarrow> observation" where
  "sampled r g = \<lparr>ob_cpu = Fin (snd (user_cpu r g)), ob_gpu = map_option Fin (rd_gpu r),
     ob_ram = Fin (or_zero (rd_ram r)), ob_at = rd_now r 2, ob_on_ac = Some (on_ac (rd_gate r 1)),
     ob_idle = Some (user_idle (gv_gate g) (rd_gate r 1))\<rparr>"

definition looked :: "reading \<Rightarrow> governor \<Rightarrow> bool" where
  "looked r g \<longleftrightarrow> (require_ac (gv_params g) \<longrightarrow> on_ac (rd_gate r 0)) \<and> \<not> gpu_busy (gv_gate g) (rd_gate r 0)"

lemma should_run_records:
  "looked r g \<Longrightarrow> gv_profiler (fst (should_run r g)) = record_usage (gv_profiler g) (sampled r g)"
  using user_cpu_state [of r g]
  by (cases "user_cpu r g") (auto simp: looked_def sampled_def should_run_def locked_def Let_def)

lemma should_run_looked: "snd (should_run r g) \<Longrightarrow> looked r g"
  by (auto simp: looked_def should_run_def Let_def split: if_splits)

lemma should_run_keeps:
  "gv_params (fst (should_run r g)) = gv_params g" "gv_gate (fst (should_run r g)) = gv_gate g"
  using user_cpu_state [of r g] by (cases "user_cpu r g"; auto simp: should_run_def Let_def)+

text \<open>The turn itself leaves what the gate learned and its settings alone.\<close>

definition kept :: "governor \<Rightarrow> usage_profiler \<times> governor_params \<times> idle_gate" where
  "kept g = (gv_profiler g, gv_params g, gv_gate g)"

definition active_kept :: "agent \<Rightarrow> (usage_profiler \<times> governor_params \<times> idle_gate) option" where
  "active_kept a = map_option kept (ag_active_gate a)"

lemma active_kept_steps:
  "active_kept (fst (agent_register rep a)) = active_kept a"
  "active_kept (fst (agent_heartbeat rep' a)) = active_kept a"
  "active_kept (note_job_gpu n a) = active_kept a"
  "active_kept (a\<lparr>ag_job_running := b, ag_yield := c\<rparr>) = active_kept a"
  by (auto simp: active_kept_def agent_register_def agent_heartbeat_def clear_registration_def note_job_gpu_def
      note_job_def kept_def [abs_def] option.map_comp comp_def Let_def split: reply.split)

lemma active_kept_once: "active_kept (fst (run_once P mbytes E R a)) = active_kept a"
proof -
  note steps = active_kept_steps
  have rounds: "active_kept a' = active_kept x" if "approval_rounds once reps x = Some (a', b)" for once reps x a' b
    using that by (rule approval_rounds_preserve) (rule steps, rule steps, simp add: active_kept_def)
  have wait: "active_kept a' = active_kept x" if "wait_for_approval once reps x = Some (a', b)" for once reps x a' b
    using that rounds by (auto simp: wait_for_approval_def split: if_splits)
  have job: "active_kept (fst (run_job P mbytes E asg x)) = active_kept x" for asg x
    by (simp add: run_job_def Let_def steps split: prod.split)
  show ?thesis
    using steps(1) [of "sv_register R" a]
    by (auto simp: run_once_def Let_def job wait split: option.split prod.split dest!: arg_cong [of _ _ fst])
qed

lemma run_guarded_kept:
  "kept (fst (run_guarded P mbytes E R r g a)) = kept (fst (should_run r g))"
proof -
  obtain g1 ok where s: "should_run r g = (g1, ok)" by fastforce
  obtain a1 places t where o: "run_once P mbytes E R (a\<lparr>ag_active_gate := Some g1\<rparr>) = (a1, places, t)" by (metis prod_cases3)
  have "active_kept a1 = Some (kept g1)"
    using active_kept_once [of P mbytes E R "a\<lparr>ag_active_gate := Some g1\<rparr>"] o by (simp add: active_kept_def)
  then show ?thesis by (auto simp: run_guarded_def s o active_kept_def Let_def)
qed

lemma guarded_profile:
  assumes "looked r g"
  shows "gate_profile (fst (guarded_turn P mbytes E R r (Adaptive g) a)) = Some (record_usage (gv_profiler g) (sampled r g))"
  using run_guarded_kept [of P mbytes E R r g a] should_run_records [OF assms]
  by (simp add: guarded_turn_def kept_def case_prod_unfold Let_def)

text \<open>
  A pass that is refused leaves at most one sample in the learned profile, however long it waits; a pass
  that is admitted leaves two, since \<open>run_guarded\<close> asks again: its sample covers the moment since the first.
\<close>

lemma refused_pass_samples_once:
  assumes "loop_pass P mbytes True b ps (Adaptive g, a) = ((G', a'), places, Skipped)" "looked (ps_check ps) g"
  shows "gate_profile G' = Some (record_usage (gv_profiler g) (sampled (ps_check ps) g)) \<and> a' = a \<and> places = []"
proof -
  obtain g1 ok where s: "should_run (ps_check ps) g = (g1, ok)" by fastforce
  then have "gv_profiler g1 = record_usage (gv_profiler g) (sampled (ps_check ps) g)"
    using should_run_records [OF assms(2)] by simp
  then show ?thesis
    using assms(1) by (auto simp: loop_pass_def gate_admits_def s Let_def wait_gate_profile split: if_splits prod.splits)
qed

lemma admitted_pass_samples_twice:
  assumes "loop_pass P mbytes True b ps (Adaptive g, a) = ((G', a'), places, Took t)" "looked (ps_guard ps) g"
  shows "gate_profile G' = Some (record_usage (record_usage (gv_profiler g) (sampled (ps_check ps) g))
    (sampled (ps_guard ps) (fst (should_run (ps_check ps) g))))"
proof -
  obtain g1 ok where s: "should_run (ps_check ps) g = (g1, ok)" by fastforce
  have ok using assms(1) by (auto simp: loop_pass_def gate_admits_def s Let_def split: if_splits prod.splits)
  then have p: "gv_profiler g1 = record_usage (gv_profiler g) (sampled (ps_check ps) g)"
    using should_run_records should_run_looked s by (metis fst_conv snd_conv)
  have "looked (ps_guard ps) g1" using assms(2) should_run_keeps [of "ps_check ps" g] s by (simp add: looked_def)
  from guarded_profile [OF this] have "gate_profile G' = Some (record_usage (gv_profiler g1) (sampled (ps_guard ps) g1))"
    using assms(1) \<open>ok\<close> by (auto simp: loop_pass_def gate_admits_def s Let_def split: prod.splits)
      (metis fst_conv)
  then show ?thesis by (simp add: p s)
qed

section \<open>No code runs unless both checks admitted it\<close>

definition quiet_machine :: "worker_gate \<Rightarrow> reading \<Rightarrow> bool" where
  "quiet_machine G r = (case G of Adaptive g \<Rightarrow> looked r g | Binary g \<Rightarrow> gate_should_run g (rd_gate r 0))"

text \<open>The settings a gate keeps while it learns.\<close>

fun gate_settings :: "worker_gate \<Rightarrow> (governor_params \<times> idle_gate) + idle_gate" where
  "gate_settings (Adaptive g) = Inl (gv_params g, gv_gate g)"
| "gate_settings (Binary g) = Inr g"

lemma quiet_machine_settings: "gate_settings G = gate_settings H \<Longrightarrow> quiet_machine G r = quiet_machine H r"
  by (cases G; cases H) (simp_all add: quiet_machine_def looked_def)

lemma admits_quiet: "snd (gate_admits r G) \<Longrightarrow> quiet_machine G r"
  by (cases G) (auto simp: gate_admits_def quiet_machine_def case_prod_unfold Let_def should_run_looked)

lemma admits_settings: "gate_settings (fst (gate_admits r G)) = gate_settings G"
  by (cases G) (simp_all add: gate_admits_def case_prod_unfold Let_def should_run_keeps)

lemma available_now_keeps:
  "gv_params (fst (available_now r g)) = gv_params g" "gv_gate (fst (available_now r g)) = gv_gate g"
  by (simp_all add: available_now_def Let_def case_prod_unfold)

lemma wait_gate_settings: "gate_settings (wait_gate s b w rs G) = gate_settings G"
proof (induction rs arbitrary: w G)
  case (Cons r rs)
  have "gate_settings (fst (gate_free r G)) = gate_settings G"
    by (cases G) (simp_all add: gate_free_def case_prod_unfold Let_def available_now_keeps)
  then show ?case by (simp add: Cons.IH case_prod_unfold Let_def)
qed simp

lemma guarded_settings: "gate_settings (fst (guarded_turn P mbytes E R r G a)) = gate_settings G"
proof (cases G)
  case (Adaptive g)
  then show ?thesis using run_guarded_kept [of P mbytes E R r g a] should_run_keeps [of r g]
    by (simp add: guarded_turn_def kept_def case_prod_unfold Let_def)
qed (simp add: guarded_turn_def)

lemma guarded_quiet:
  assumes "guarded_turn P mbytes E R r G a = (G', a', places, t)" "places \<noteq> []"
  shows "quiet_machine G r"
proof (cases G)
  case (Adaptive g)
  then have "snd (should_run r g)"
    using assms by (auto simp: guarded_turn_def run_guarded_def Let_def split: prod.splits if_splits)
  then show ?thesis by (simp add: Adaptive quiet_machine_def should_run_looked)
next
  case (Binary g)
  then show ?thesis using assms by (auto simp: guarded_turn_def quiet_machine_def split: if_splits)
qed

lemma loop_pass_guarded:
  assumes "loop_pass P mbytes True b ps (G, a) = ((G', a'), places, e)"
  shows "gate_settings G' = gate_settings G"
    "places \<noteq> [] \<Longrightarrow> quiet_machine G (ps_check ps) \<and> quiet_machine G (ps_guard ps)"
proof -
  obtain G1 ok where s: "gate_admits (ps_check ps) G = (G1, ok)" by fastforce
  obtain G2 a2 pl t where g: "guarded_turn P mbytes (ps_env ps) (ps_replies ps) (ps_guard ps) G1 a = (G2, a2, pl, t)"
    by (metis prod_cases4)
  have 1: "gate_settings G1 = gate_settings G" using admits_settings [of "ps_check ps" G] s by simp
  have 2: "gate_settings G2 = gate_settings G1"
    using guarded_settings [of P mbytes "ps_env ps" "ps_replies ps" "ps_guard ps" G1 a] g by simp
  have pass: "loop_pass P mbytes True b ps (G, a) =
      (if \<not> ok then ((wait_gate (min (1/2) b) b 0 (ps_waiting ps) G1, a), [], Skipped) else ((G2, a2), pl, Took t))"
    by (simp add: loop_pass_def s g)
  show "gate_settings G' = gate_settings G"
    using assms 1 2 wait_gate_settings unfolding pass by (auto split: if_splits)
  show "quiet_machine G (ps_check ps) \<and> quiet_machine G (ps_guard ps)" if "places \<noteq> []"
    using assms that admits_quiet [of "ps_check ps" G] guarded_quiet [OF g] quiet_machine_settings [OF 1] s
    unfolding pass by (auto split: if_splits)
qed

text \<open>
  In the gated mode a pass of the loop starts a job's code only if both readings of that pass allowed it
  under the gate's settings: on AC power where that is required, the GPU quiet and, with the binary gate,
  nobody at the keyboard; whatever happened in earlier passes.
\<close>

theorem guarded_work_was_admitted:
  assumes "job_loop P mbytes True b passes (G, a) = (st, trace)" "i < length trace" "fst (trace ! i) \<noteq> []"
  shows "quiet_machine G (ps_check (passes ! i)) \<and> quiet_machine G (ps_guard (passes ! i))"
  using assms
proof (induction passes arbitrary: G a st trace i)
  case (Cons ps later)
  obtain G1 a1 places e where p: "loop_pass P mbytes True b ps (G, a) = ((G1, a1), places, e)" by (metis prod.exhaust)
  obtain st2 rest where l: "job_loop P mbytes True b later (G1, a1) = (st2, rest)" by fastforce
  have tr: "trace = (places, e) # (if leaves e then [] else rest)"
    using Cons.prems(1) by (auto simp: p l)
  show ?case
  proof (cases i)
    case 0
    then show ?thesis using Cons.prems(3) loop_pass_guarded(2) [OF p] by (simp add: tr)
  next
    case (Suc j)
    then have "j < length rest" "fst (rest ! j) \<noteq> []" using Cons.prems(2,3) by (auto simp: tr split: if_splits)
    from Cons.IH [OF l this] show ?thesis
      using quiet_machine_settings [OF loop_pass_guarded(1) [OF p]] by (simp add: Suc)
  qed
qed simp

end
