(* ===== verification/Worker_Host.thy ===== *)
theory Worker_Host imports Contracts Pystr Float64 begin

text \<open>
  \<open>src/worker/capability.py\<close> and \<open>src/worker/profile_lock.py\<close>: what a worker advertises of its machine, and the
  lock that keeps two observers off one profile. The answers of drivers and of the operating system are
  parameters; the operating system grants an exclusive lock to one handle at a time and drops it when the
  handle is closed or its process dies. The lemmas show that the worker keeps the identity it was given,
  that it advertises GPU details only with a GPU, and that a profile has at most one holder.
\<close>

section \<open>Capability\<close>

text \<open>
  \<open>hw_gpus\<close> is \<open>None\<close> where NVML is missing or fails, and otherwise the devices with name and memory;
  \<open>hw_providers\<close> those of ONNX Runtime, if it is installed; \<open>hw_float\<close> is \<open>float\<close> of a string with a finite
  value (the figures of a capability are finite); \<open>hw_hex k\<close> is the \<open>k\<close>th \<open>uuid4().hex\<close>.
\<close>

record hardware =
  hw_hostname :: "str option"
  hw_hex :: "nat \<Rightarrow> str"
  hw_cpu_count :: "nat option"
  hw_total_phys :: "nat option"
  hw_avail_phys :: "nat option"
  hw_gpus :: "(str \<times> nat) list option"
  hw_providers :: "str list option"
  hw_environ :: "str \<Rightarrow> str option"
  hw_float :: "str \<Rightarrow> rat option"
  hw_round2 :: "rat \<Rightarrow> rat"

definition gigabytes :: "hardware \<Rightarrow> nat \<Rightarrow> rat" where
  "gigabytes H n = hw_round2 H (fdiv (fl64 (of_nat n)) (1024 ^ 3))"

definition ram_gb :: "hardware \<Rightarrow> rat" where
  "ram_gb H = (case hw_total_phys H of Some n \<Rightarrow> gigabytes H n | None \<Rightarrow> 8)"

definition free_ram_gb :: "hardware \<Rightarrow> rat option" where
  "free_ram_gb H = map_option (gigabytes H) (hw_avail_phys H)"

definition gpu_info :: "hardware \<Rightarrow> bool \<times> str option \<times> rat option \<times> str list" where
  "gpu_info H =
     (case hw_gpus H of
        Some ((name, memory) # _) \<Rightarrow> (True, Some name, Some (gigabytes H memory), [''cuda''])
      | _ \<Rightarrow> (False, None, None, []))"

definition env_text :: "hardware \<Rightarrow> str \<Rightarrow> str" where
  "env_text H name = strip (case hw_environ H name of Some v \<Rightarrow> v | None \<Rightarrow> [])"

text \<open>A provider of ONNX Runtime first, the opt-in variables after; unreadable TOPS end the attempt.\<close>

definition detect_npu :: "hardware \<Rightarrow> bool \<times> rat option" where
  "detect_npu H =
     (if (case hw_providers H of
            Some providers \<Rightarrow> ''QNNExecutionProvider'' \<in> set providers \<or> ''DmlExecutionProvider'' \<in> set providers
          | None \<Rightarrow> False) then (True, None)
      else if lower (env_text H ''ONECOMPUTE_NPU'') \<in> {''1'', ''true'', ''yes''}
      then (let tops_raw = env_text H ''ONECOMPUTE_NPU_TOPS''
            in if tops_raw = [] then (True, None)
               else (case hw_float H tops_raw of Some x \<Rightarrow> (True, Some x) | None \<Rightarrow> (False, None)))
      else (False, None))"

definition cpus :: "hardware \<Rightarrow> int" where
  "cpus H = (case hw_cpu_count H of Some n \<Rightarrow> if n = 0 then 1 else int n | None \<Rightarrow> 1)"

text \<open>The host name is the only query that can raise; the fallback claims a plain machine.\<close>

definition given_or :: "str option \<Rightarrow> str \<Rightarrow> str" where
  "given_or worker_id other = (case worker_id of Some w \<Rightarrow> if w = [] then other else w | None \<Rightarrow> other)"

definition resolved_worker_id :: "hardware \<Rightarrow> str option \<Rightarrow> str option" where
  "resolved_worker_id H worker_id =
     (if given_or worker_id [] \<noteq> [] then Some (given_or worker_id [])
      else map_option (\<lambda>host. host @ ''-'' @ take 6 (hw_hex H 0)) (hw_hostname H))"

definition detect_capability :: "hardware \<Rightarrow> str option \<Rightarrow> capability" where
  "detect_capability H worker_id =
     (case resolved_worker_id H worker_id of
        Some w \<Rightarrow>
          (let (has_gpu, gpu_model, gpu_vram_gb, accel) = gpu_info H; (has_npu, npu_tops) = detect_npu H
           in (default_capability w)\<lparr>cap_cpus := cpus H, cap_ram_gb := ram_gb H, cap_free_ram_gb := free_ram_gb H,
                cap_has_gpu := has_gpu, cap_gpu_model := gpu_model, cap_gpu_vram_gb := gpu_vram_gb, cap_accel := accel,
                cap_has_npu := has_npu, cap_npu_tops := npu_tops\<rparr>)
      | None \<Rightarrow> (default_capability (given_or worker_id (''worker-'' @ take 6 (hw_hex H 0))))\<lparr>cap_ram_gb := 8\<rparr>)"

lemma detected_identity_is_kept: "w \<noteq> [] \<Longrightarrow> cap_worker_id (detect_capability H (Some w)) = w"
  by (simp add: detect_capability_def resolved_worker_id_def given_or_def default_capability_def split: prod.split)

lemma gpu_details_need_gpu:
  assumes "\<not> cap_has_gpu (detect_capability H w)"
  shows "cap_gpu_model (detect_capability H w) = None \<and> cap_gpu_vram_gb (detect_capability H w) = None \<and>
    cap_accel (detect_capability H w) = []"
  using assms
  by (auto simp: detect_capability_def gpu_info_def default_capability_def Let_def split: option.splits list.splits prod.splits)

lemma npu_details_need_npu:
  "\<not> cap_has_npu (detect_capability H w) \<Longrightarrow> cap_npu_tops (detect_capability H w) = None"
  by (auto simp: detect_capability_def detect_npu_def default_capability_def Let_def
      split: option.splits prod.splits if_splits)

text \<open>A detected worker claims no tier, no attestation and no benchmark; and it has a processor.\<close>

lemma detected_claims_nothing:
  "cap_attested_tier (detect_capability H w) = None" "cap_attestation (detect_capability H w) = None"
  "cap_benchmarked_tops (detect_capability H w) = None" "1 \<le> cap_cpus (detect_capability H w)"
  by (simp_all add: detect_capability_def default_capability_def cpus_def split: option.split prod.split)

text \<open>An operator's NPU declaration is dropped whole when its TOPS figure does not parse.\<close>

lemma unreadable_tops_hide_npu:
  assumes "hw_providers H = None" "hw_float H (env_text H ''ONECOMPUTE_NPU_TOPS'') = None"
    and "env_text H ''ONECOMPUTE_NPU_TOPS'' \<noteq> []"
  shows "detect_npu H = (False, None)"
  using assms by (simp add: detect_npu_def Let_def)

section \<open>The lock on a profile\<close>

text \<open>
  \<open>lw_handle o\<close> says whether lock object \<open>o\<close> has a handle, \<open>lw_locked p\<close> which object's handle holds the system's
  lock on file \<open>p\<close>. \<open>lock_io\<close> is how the file operations of one \<open>acquire\<close> went: \<open>BadOpen\<close> is an error before there
  is a handle to close, \<open>BadFile denied\<close> one after it, with \<open>EACCES\<close> or \<open>EAGAIN\<close> where \<open>denied\<close>.
\<close>

record lock_world =
  lw_handle :: "nat \<Rightarrow> bool"
  lw_locked :: "str \<Rightarrow> nat option"

datatype lock_io = FilesOk | BadOpen | BadFile bool

datatype lock_error = ProfileInUseError | LockOSError

definition lock_path :: "str \<Rightarrow> str" where
  "lock_path profile = profile @ ''.lock''"

definition acquire :: "lock_io \<Rightarrow> str \<Rightarrow> nat \<Rightarrow> lock_world \<Rightarrow> lock_world \<times> (lock_error + unit)" where
  "acquire io p ob W =
     (if lw_handle W ob then (W, Inr ())
      else case io of
          BadOpen \<Rightarrow> (W, Inl LockOSError)
        | BadFile denied \<Rightarrow> (W, Inl (if denied then ProfileInUseError else LockOSError))
        | FilesOk \<Rightarrow>
            (if lw_locked W p \<noteq> None then (W, Inl ProfileInUseError)
             else (W\<lparr>lw_handle := (lw_handle W)(ob := True), lw_locked := (lw_locked W)(p := Some ob)\<rparr>, Inr ())))"

text \<open>\<open>release\<close> closes the handle even where unlocking fails, which drops the lock as well.\<close>

definition release :: "str \<Rightarrow> nat \<Rightarrow> lock_world \<Rightarrow> lock_world" where
  "release p ob W =
     (if lw_handle W ob
      then W\<lparr>lw_handle := (lw_handle W)(ob := False),
             lw_locked := (lw_locked W)(p := if lw_locked W p = Some ob then None else lw_locked W p)\<rparr>
      else W)"

text \<open>Lock objects of any processes acquire and release; \<open>path_of\<close> is the file of each, fixed when it is made.\<close>

inductive lock_step :: "(nat \<Rightarrow> str) \<Rightarrow> lock_world \<Rightarrow> lock_world \<Rightarrow> bool" for path_of where
  Acquire: "lock_step path_of W (fst (acquire io (path_of ob) ob W))"
| Release: "lock_step path_of W (release (path_of ob) ob W)"

definition unlocked_world :: lock_world where
  "unlocked_world = \<lparr>lw_handle = (\<lambda>_. False), lw_locked = (\<lambda>_. None)\<rparr>"

definition locks_ok :: "(nat \<Rightarrow> str) \<Rightarrow> lock_world \<Rightarrow> bool" where
  "locks_ok path_of W \<longleftrightarrow> (\<forall>ob. lw_handle W ob \<longleftrightarrow> lw_locked W (path_of ob) = Some ob)"

lemma lock_step_ok: "lock_step path_of W W' \<Longrightarrow> locks_ok path_of W \<Longrightarrow> locks_ok path_of W'"
  by (induction rule: lock_step.induct)
    (auto simp: locks_ok_def acquire_def release_def split: lock_io.split)

lemma reachable_locks_ok: "(lock_step path_of)\<^sup>*\<^sup>* unlocked_world W \<Longrightarrow> locks_ok path_of W"
proof (induction rule: rtranclp_induct)
  case base
  show ?case by (simp add: unlocked_world_def locks_ok_def)
qed (rule lock_step_ok)

theorem one_holder_per_profile:
  assumes "(lock_step path_of)\<^sup>*\<^sup>* unlocked_world W" "lw_handle W x" "lw_handle W y" "path_of x = path_of y"
  shows "x = y"
  using reachable_locks_ok [OF assms(1)] assms(2-4) by (simp add: locks_ok_def)

text \<open>A released profile can be taken by another observer, and a refused one leaves everything as it was.\<close>

lemma released_can_be_acquired:
  assumes "(lock_step path_of)\<^sup>*\<^sup>* unlocked_world W" "lw_handle W x" "path_of x = path_of y" "\<not> lw_handle W y"
  shows "snd (acquire FilesOk (path_of y) y (release (path_of x) x W)) = Inr ()"
  using reachable_locks_ok [OF assms(1)] assms(2-4) by (auto simp: locks_ok_def acquire_def release_def)

lemma refused_changes_nothing: "snd (acquire io p ob W) = Inl e \<Longrightarrow> fst (acquire io p ob W) = W"
  by (auto simp: acquire_def split: if_splits lock_io.splits)

end
