(* ===== verification/Job_Handle.thy ===== *)
theory Job_Handle imports Isolation "HOL-Library.Word" begin

unbundle bit_operations_syntax

text \<open>
  Around a run of \<open>src/isolation/runner.py\<close>: the environment each boundary gets, the job object of
  \<open>jobobject.py\<close>, stopping a container, \<open>JobHandle\<close> with \<open>start_in_isolation\<close>, and how \<open>mxc.py\<close> and
  \<open>docker.py\<close> look for their tools. Answers of the operating system are parameters. The lemmas show that
  provider keys reach the host only, that a job object always dies with its handle, and that without job
  objects the worker signals the process id of a job that has already ended.
\<close>

section \<open>Environments\<close>

text \<open>\<open>os.environ\<close>: look-up of one name, and the items in their order.\<close>

record environ =
  en_get :: "str \<Rightarrow> str option"
  en_items :: "(str \<times> str) list"

definition setting :: "environ \<Rightarrow> str \<Rightarrow> (str \<times> str) list" where
  "setting env k = (case en_get env k of Some v \<Rightarrow> if v = [] then [] else [(k, v)] | None \<Rightarrow> [])"

definition named :: "environ \<Rightarrow> str list \<Rightarrow> (str \<times> str) list" where
  "named env keys = concat (map (setting env) keys)"

lemma setting_iff: "(k, v) \<in> set (setting env k') \<longleftrightarrow> k = k' \<and> en_get env k = Some v \<and> v \<noteq> []"
  by (cases "k = k'"; cases "en_get env k'") (auto simp: setting_def)

lemma named_iff: "(k, v) \<in> set (named env keys) \<longleftrightarrow> k \<in> set keys \<and> en_get env k = Some v \<and> v \<noteq> []"
  by (auto simp: named_def setting_iff)

definition HOST_KEYS :: "str list" where
  "HOST_KEYS = [''SystemRoot'', ''PATH'', ''COMSPEC'', ''PATHEXT'', ''WINDIR'', ''TEMP'', ''TMP'', ''USERPROFILE'']"

definition API_KEYS :: "str list" where
  "API_KEYS = [''OPENAI_API_KEY'', ''ANTHROPIC_API_KEY'']"

definition mxc_env :: "environ \<Rightarrow> (str \<times> str) list" where
  "mxc_env env = named env HOST_KEYS"

definition gpu_key :: "str \<Rightarrow> bool" where
  "gpu_key k \<longleftrightarrow> startswith k ''CUDA'' \<or> startswith k ''CUPY'' \<or> k = ''NVTOOLSEXT_PATH''"

definition subprocess_env :: "str \<Rightarrow> environ \<Rightarrow> (str \<times> str) list" where
  "subprocess_env src_dir env =
     [(''PYTHONPATH'', src_dir)] @ named env HOST_KEYS @ filter (\<lambda>(k, v). v \<noteq> [] \<and> gpu_key k) (en_items env) @
     named env API_KEYS"

lemma named_keys: "k \<in> fst ` set (named env keys) \<Longrightarrow> k \<in> set keys"
  by (auto simp: named_iff)

lemma sandbox_gets_no_api_key:
  assumes "k \<in> set API_KEYS"
  shows "k \<notin> fst ` set (mxc_env env)"
proof -
  have "k \<notin> set HOST_KEYS" using assms by (auto simp: API_KEYS_def HOST_KEYS_def)
  then show ?thesis unfolding mxc_env_def using named_keys [of k env HOST_KEYS] by blast
qed

text \<open>
  The host gets the keys it has, and of everything else in the worker's environment only the listed names
  and the GPU toolkit's.
\<close>

lemma host_gets_api_key:
  "k \<in> set API_KEYS \<Longrightarrow> en_get env k = Some v \<Longrightarrow> v \<noteq> [] \<Longrightarrow> (k, v) \<in> set (subprocess_env src_dir env)"
  by (simp add: subprocess_env_def named_iff)

lemma host_gets_nothing_else:
  assumes "k \<in> fst ` set (subprocess_env src_dir env)"
  shows "k = ''PYTHONPATH'' \<or> k \<in> set HOST_KEYS \<or> k \<in> set API_KEYS \<or> gpu_key k"
  using assms named_keys [of k env HOST_KEYS] named_keys [of k env API_KEYS]
  by (auto simp: subprocess_env_def image_Un)

section \<open>Job objects\<close>

definition JOB_OBJECT_LIMIT_KILL_ON_JOB_CLOSE :: "32 word" where "JOB_OBJECT_LIMIT_KILL_ON_JOB_CLOSE = 0x2000"
definition JOB_OBJECT_LIMIT_PROCESS_MEMORY :: "32 word" where "JOB_OBJECT_LIMIT_PROCESS_MEMORY = 0x100"

text \<open>The flags and the memory limit that are set; a \<open>size_t\<close> keeps the low 64 bits of what is assigned to it.\<close>

definition job_limits :: "limits option \<Rightarrow> 32 word \<times> 64 word" where
  "job_limits lims =
     (case lims of
        Some l \<Rightarrow>
          (if 0 < lm_mem_gb l
           then (JOB_OBJECT_LIMIT_KILL_ON_JOB_CLOSE OR JOB_OBJECT_LIMIT_PROCESS_MEMORY,
                 word_of_int \<lfloor>fmul (fmul (fmul (lm_mem_gb l) 1024) 1024) 1024\<rfloor>)
           else (JOB_OBJECT_LIMIT_KILL_ON_JOB_CLOSE, 0))
      | None \<Rightarrow> (JOB_OBJECT_LIMIT_KILL_ON_JOB_CLOSE, 0))"

lemma job_dies_with_its_handle:
  "fst (job_limits lims) AND JOB_OBJECT_LIMIT_KILL_ON_JOB_CLOSE = JOB_OBJECT_LIMIT_KILL_ON_JOB_CLOSE"
  by (cases lims) (simp_all add: job_limits_def JOB_OBJECT_LIMIT_KILL_ON_JOB_CLOSE_def JOB_OBJECT_LIMIT_PROCESS_MEMORY_def)

lemma memory_is_limited_when_asked:
  "fst (job_limits (Some l)) AND JOB_OBJECT_LIMIT_PROCESS_MEMORY \<noteq> 0 \<longleftrightarrow> 0 < lm_mem_gb l"
  by (simp add: job_limits_def JOB_OBJECT_LIMIT_KILL_ON_JOB_CLOSE_def JOB_OBJECT_LIMIT_PROCESS_MEMORY_def)

text \<open>Off Windows a handle tracks the root process only. What closing it asks of the system is listed.\<close>

datatype job_object = WindowsJob | NoopJob

datatype os_call = CloseHandle | Terminate nat | SignalPid nat

definition noop_kill :: "bool \<Rightarrow> nat \<Rightarrow> os_call list" where
  "noop_kill exited pid = (if exited then [] else [Terminate pid]) @ [SignalPid pid]"

text \<open>\<open>released\<close> is whether \<open>CloseHandle\<close> did not raise.\<close>

definition close_job :: "job_object option \<Rightarrow> bool \<Rightarrow> bool \<Rightarrow> bool \<Rightarrow> nat \<Rightarrow> os_call list" where
  "close_job jo already released exited pid =
     (case jo of
        None \<Rightarrow> []
      | Some obj \<Rightarrow>
          (if already then []
           else case obj of
               NoopJob \<Rightarrow> noop_kill exited pid
             | WindowsJob \<Rightarrow> CloseHandle # (if released \<or> exited then [] else [Terminate pid])))"

text \<open>
  What \<open>_run_subprocess_with_existing_files\<close> asks of the system once its loop is over: \<open>kill\<close> on a yield or a
  timeout, and the \<open>finally\<close> that closes the handle.
\<close>

definition host_cleanup :: "job_object \<Rightarrow> supervised \<Rightarrow> bool \<Rightarrow> nat \<Rightarrow> os_call list" where
  "host_cleanup obj outcome released pid =
     (case outcome of
        Ok \<Rightarrow> close_job (Some obj) False released True pid
      | _ \<Rightarrow> close_job (Some obj) False released False pid @ close_job (Some obj) True released False pid)"

lemma preempted_job_is_stopped:
  "outcome \<noteq> Ok \<Longrightarrow> host_cleanup NoopJob outcome released pid = [Terminate pid, SignalPid pid]"
  "outcome \<noteq> Ok \<Longrightarrow> host_cleanup WindowsJob outcome True pid = [CloseHandle]"
  by (cases outcome; simp add: host_cleanup_def close_job_def noop_kill_def)+

text \<open>A job that ended by itself was reaped by the poll that saw it end; its id may name another process.\<close>

lemma ended_job_is_signalled: "host_cleanup NoopJob Ok released pid = [SignalPid pid]"
  by (simp add: host_cleanup_def close_job_def noop_kill_def)

section \<open>Stopping a container\<close>

text \<open>
  One round of \<open>_stop_container\<close>: the client is gone, or it runs, a removal is issued, and afterwards it has
  ended or not and the deadline has passed or not. The result counts the removals.
\<close>

datatype stop_round = ClientGone | ClientRuns bool bool

fun stop_container :: "stop_round list \<Rightarrow> nat option" where
  "stop_container [] = None"
| "stop_container (ClientGone # rs) = Some 1"
| "stop_container (ClientRuns ended late # rs) =
     (if ended \<or> late then Some 2 else map_option Suc (stop_container rs))"

lemma container_is_removed: "stop_container rs = Some n \<Longrightarrow> 1 \<le> n"
  by (induction rs arbitrary: n rule: stop_container.induct) (auto split: if_splits)

lemma stop_container_returns: "r \<in> set rs \<Longrightarrow> r \<noteq> ClientRuns False False \<Longrightarrow> stop_container rs \<noteq> None"
  by (induction rs rule: stop_container.induct) auto

section \<open>Handles\<close>

definition job_wait :: "bool \<Rightarrow> process_end \<Rightarrow> isolation_error + json" where
  "job_wait killed pe =
     (if killed then Inr yielded_output
      else if pe_code pe \<noteq> Some 0 then Inl (RuntimeErr (message_or (pe_stderr pe) ''isolated job failed''))
      else read_output (pe_out pe))"

definition start_in_isolation :: "sandbox_env \<Rightarrow> bool \<Rightarrow> boundary" where
  "start_in_isolation E docker_starts =
     (if se_mxc_available E \<and> se_mxc_start E = None then Mxc
      else if se_docker_available E \<and> ensure_image (se_docker E) = Inr () \<and> docker_starts then Docker
      else Subprocess)"

lemma handle_agrees_with_run:
  "supervise (br_rounds r) = Some Ok \<Longrightarrow> run_subprocess r = Some (job_wait False (br_end r))"
  by (simp add: run_subprocess_def job_wait_def)

text \<open>
  The handle starts where \<open>run_in_isolation\<close> would start a job that is not host-side, and there is no way
  to make it refuse the host.
\<close>

lemma handle_starts_where_run_starts:
  assumes "fst (run_in_isolation E False True) = b # bs"
  shows "start_in_isolation E True = b"
  using assms
  by (auto simp: run_in_isolation_def try_docker_def run_on_host_def start_in_isolation_def started_def run_mxc_def
      run_docker_def Let_def split: if_splits option.splits sum.splits isolation_error.splits supervised.splits)

lemma handle_never_refuses_host:
  "\<not> se_mxc_available E \<Longrightarrow> \<not> se_docker_available E \<Longrightarrow> start_in_isolation E docker_starts = Subprocess"
  by (simp add: start_in_isolation_def)

section \<open>Finding the MXC runtime and Docker\<close>

text \<open>\<open>xh_join root parts\<close> is \<open>root / part / ...\<close>; \<open>xh_is_file\<close> is false where looking raises.\<close>

record exe_host =
  xh_get :: "str \<Rightarrow> str option"
  xh_expanduser :: "str \<Rightarrow> str"
  xh_join :: "str \<Rightarrow> str list \<Rightarrow> str"
  xh_is_file :: "str \<Rightarrow> bool"
  xh_which :: "str \<Rightarrow> str option"

definition mxc_exe_names :: "str list" where
  "mxc_exe_names = [''wxc-exec.exe'', ''wxc-exec'']"

definition set_value :: "exe_host \<Rightarrow> str \<Rightarrow> str option" where
  "set_value X k = (case xh_get X k of Some v \<Rightarrow> if v = [] then None else Some v | None \<Rightarrow> None)"

definition candidate_install_dirs :: "exe_host \<Rightarrow> str list" where
  "candidate_install_dirs X =
     concat (map (\<lambda>key. case set_value X key of
         None \<Rightarrow> []
       | Some raw \<Rightarrow> map (xh_join X (xh_expanduser X raw)) [[''Microsoft'', ''MXC''], [''Microsoft Execution Containers''], [''mxc'']])
       [''ProgramFiles'', ''ProgramFiles(x86)'', ''LOCALAPPDATA''])"

definition exes_under :: "exe_host \<Rightarrow> str \<Rightarrow> str list" where
  "exes_under X dir =
     concat (map (\<lambda>arch. map (\<lambda>name. xh_join X dir [arch, name]) mxc_exe_names) [''x64'', ''arm64'']) @
     map (\<lambda>name. xh_join X dir [name]) mxc_exe_names"

definition candidate_mxc_exes :: "exe_host \<Rightarrow> str list" where
  "candidate_mxc_exes X =
     (case set_value X ''MXC_BIN_DIR'' of None \<Rightarrow> [] | Some bin_dir \<Rightarrow> exes_under X (xh_expanduser X bin_dir)) @
     concat (map (exes_under X) (candidate_install_dirs X))"

definition resolve_executable_override :: "exe_host \<Rightarrow> str \<Rightarrow> str option" where
  "resolve_executable_override X raw =
     (if xh_is_file X (xh_expanduser X raw) then Some (xh_expanduser X raw)
      else case xh_which X raw of Some p \<Rightarrow> if p = [] then None else Some p | None \<Rightarrow> None)"

fun first_on_path :: "exe_host \<Rightarrow> str list \<Rightarrow> str option" where
  "first_on_path X [] = None"
| "first_on_path X (n # ns) =
     (case xh_which X n of Some p \<Rightarrow> if p = [] then first_on_path X ns else Some p | None \<Rightarrow> first_on_path X ns)"

definition find_mxc_exe :: "exe_host \<Rightarrow> str option" where
  "find_mxc_exe X =
     (case set_value X ''ONECOMPUTE_MXC_EXE'' of
        Some override \<Rightarrow> resolve_executable_override X override
      | None \<Rightarrow>
          (case List.find (xh_is_file X) (candidate_mxc_exes X) of
             Some p \<Rightarrow> Some p
           | None \<Rightarrow> first_on_path X mxc_exe_names))"

lemma first_on_path_which: "first_on_path X ns = Some p \<Longrightarrow> \<exists>n \<in> set ns. xh_which X n = Some p"
  by (induction ns) (auto split: option.splits if_splits)

text \<open>What is found is an existing file or what the search path names; an override is never passed over.\<close>

lemma found_exe_exists:
  assumes "find_mxc_exe X = Some p"
  shows "xh_is_file X p \<or> (\<exists>n. xh_which X n = Some p)"
  using assms
  by (auto simp: find_mxc_exe_def resolve_executable_override_def find_Some_iff dest!: first_on_path_which
      split: option.splits if_splits)

lemma unusable_override_finds_nothing:
  "set_value X ''ONECOMPUTE_MXC_EXE'' = Some raw \<Longrightarrow> \<not> xh_is_file X (xh_expanduser X raw) \<Longrightarrow> xh_which X raw = None \<Longrightarrow>
     find_mxc_exe X = None"
  by (simp add: find_mxc_exe_def resolve_executable_override_def)

text \<open>Exit code and standard output of a command; \<open>None\<close>: it could not be run. An image once seen is not looked for again.\<close>

definition probe_daemon :: "str option \<Rightarrow> (int \<times> str) option \<Rightarrow> bool" where
  "probe_daemon docker answer =
     (docker \<noteq> None \<and> (case answer of None \<Rightarrow> False | Some (code, out) \<Rightarrow> code = 0 \<and> strip out \<noteq> []))"

definition inspect_image :: "(int \<times> str) option \<Rightarrow> bool" where
  "inspect_image answer = (case answer of None \<Rightarrow> False | Some (code, _) \<Rightarrow> code = 0)"

definition image_present :: "(int \<times> str) option \<Rightarrow> bool option \<Rightarrow> bool \<times> bool option" where
  "image_present answer cache =
     (if cache = Some True then (True, cache) else (inspect_image answer, Some (inspect_image answer)))"

lemma present_image_stays_present:
  "image_present answer cache = (True, cache') \<Longrightarrow> image_present later cache' = (True, cache')"
  by (auto simp: image_present_def split: if_splits)

end
