(* ===== verification/Cosign.thy ===== *)
theory Cosign imports Pystr "HOL-Library.Sublist" begin

text \<open>
  \<open>src/trust/cosign.py\<close>: signing and verifying release artifacts with an external \<open>cosign\<close>. The model holds
  the command lines built, the decision whether to run one, and what is reported afterwards; where the
  executable is found, its answers and the files it leaves are parameters. The lemmas show that a
  signature is reported only if the tool produced one, and that the keyless flow starts only on request.
\<close>

record cosign_result =
  cr_action :: str
  cr_available :: bool
  cr_ok :: bool
  cr_argv :: "str list"
  cr_returncode :: "int option"
  cr_stdout :: str
  cr_stderr :: str
  cr_message :: str
  cr_signature_path :: "str option"
  cr_bundle_path :: "str option"
  cr_signature :: "str option"

definition declined :: "bool \<Rightarrow> str list \<Rightarrow> str \<Rightarrow> cosign_result" where
  "declined available argv message =
     \<lparr>cr_action = ''sign-blob'', cr_available = available, cr_ok = False, cr_argv = argv, cr_returncode = None,
      cr_stdout = [], cr_stderr = [], cr_message = message, cr_signature_path = None, cr_bundle_path = None,
      cr_signature = None\<rparr>"

section \<open>Finding the tool\<close>

text \<open>\<open>wh_is_file\<close> is \<open>None\<close> where looking raises \<open>OSError\<close>.\<close>

record tool_host =
  wh_nt :: bool
  wh_override :: "str option"
  wh_expanduser :: "str \<Rightarrow> str"
  wh_is_file :: "str \<Rightarrow> bool option"
  wh_which :: "str \<Rightarrow> str option"
  wh_version_code :: "str \<Rightarrow> int option"     \<comment> \<open>\<open>cosign version\<close>; \<open>None\<close>: it could not be run\<close>

definition COSIGN_EXE :: "tool_host \<Rightarrow> str" where
  "COSIGN_EXE H = (if wh_nt H then ''cosign.exe'' else ''cosign'')"

definition resolve_override :: "tool_host \<Rightarrow> str \<Rightarrow> str option" where
  "resolve_override H raw =
     (if wh_is_file H (wh_expanduser H raw) = Some True then Some (wh_expanduser H raw) else wh_which H raw)"

fun first_found :: "(str \<Rightarrow> str option) \<Rightarrow> str list \<Rightarrow> str option" where
  "first_found which [] = None"
| "first_found which (n # ns) =
     (case which n of Some p \<Rightarrow> if p = [] then first_found which ns else Some p | None \<Rightarrow> first_found which ns)"

definition find_cosign_exe :: "tool_host \<Rightarrow> str option" where
  "find_cosign_exe H =
     (case wh_override H of
        Some raw \<Rightarrow> if raw = [] then first_found (wh_which H) [''cosign.exe'', ''cosign''] else resolve_override H raw
      | None \<Rightarrow> first_found (wh_which H) [''cosign.exe'', ''cosign''])"

definition cosign_available :: "tool_host \<Rightarrow> bool" where
  "cosign_available H = (case find_cosign_exe H of None \<Rightarrow> False | Some exe \<Rightarrow> wh_version_code H exe = Some 0)"

section \<open>Command lines\<close>

definition option_arg :: "str \<Rightarrow> str option \<Rightarrow> str list" where
  "option_arg flag v = (case v of None \<Rightarrow> [] | Some x \<Rightarrow> [flag, x])"

definition build_sign_argv ::
  "str \<Rightarrow> str \<Rightarrow> str option \<Rightarrow> str option \<Rightarrow> str option \<Rightarrow> bool \<Rightarrow> bool \<Rightarrow> str list \<Rightarrow> str list" where
  "build_sign_argv exe p key signature_path bundle_path tlog_upload yes extra_args =
     [exe, ''sign-blob''] @ (if yes then [''--yes''] else []) @ option_arg ''--key'' key @
     option_arg ''--output-signature'' signature_path @ option_arg ''--bundle'' bundle_path @
     [''--tlog-upload'', if tlog_upload then ''true'' else ''false''] @ extra_args @ [p]"

definition build_verify_argv ::
  "str \<Rightarrow> str \<Rightarrow> str option \<Rightarrow> str option \<Rightarrow> str option \<Rightarrow> bool \<Rightarrow> str list \<Rightarrow> str list" where
  "build_verify_argv exe p key signature_path bundle_path ignore_tlog extra_args =
     [exe, ''verify-blob''] @ option_arg ''--key'' key @ option_arg ''--signature'' signature_path @
     option_arg ''--bundle'' bundle_path @ (if ignore_tlog then [''--insecure-ignore-tlog'', ''true''] else []) @
     extra_args @ [p]"

section \<open>Signing\<close>

text \<open>What the tool did: the exception that running it raised, or its exit and the files it left.\<close>

record tool_run =
  wr_code :: int
  wr_stdout :: str
  wr_stderr :: str
  wr_is_file :: "str \<Rightarrow> bool"
  wr_read :: "str \<Rightarrow> str option"

definition default_signature_path :: "str \<Rightarrow> str" where
  "default_signature_path p = p @ ''.sig''"

definition keyless_message :: str where
  "keyless_message = ''keyless OIDC signing needs network + an identity provider and is not run offline; '' @
     ''pass key=<cosign.key> for offline signing, or allow_keyless=True to run the production path''"

text \<open>
  The result and the commands that were run. \<open>run\<close> gives what running a command does; \<open>target_is_file\<close> is
  asked before.
\<close>

definition sign_blob ::
  "tool_host \<Rightarrow> bool \<Rightarrow> (str list \<Rightarrow> str + tool_run) \<Rightarrow> str \<Rightarrow> str option \<Rightarrow> str option \<Rightarrow> str option \<Rightarrow> bool \<Rightarrow>
     bool \<Rightarrow> str list \<Rightarrow> cosign_result \<times> str list list" where
  "sign_blob H target_is_file run p key signature_path bundle_path tlog_upload allow_keyless extra_args =
     (let sig_path = (case signature_path of Some s \<Rightarrow> s | None \<Rightarrow> default_signature_path p);
          exe_display = (case find_cosign_exe H of Some e \<Rightarrow> if e = [] then COSIGN_EXE H else e | None \<Rightarrow> COSIGN_EXE H);
          argv = build_sign_argv exe_display p key (Some sig_path) bundle_path tlog_upload True extra_args
      in if \<not> cosign_available H
         then ((declined False argv
                 ''cosign not found on PATH or via $COSIGN; fail-closed (inert), no signature produced'')
                 \<lparr>cr_signature_path := Some sig_path, cr_bundle_path := bundle_path\<rparr>, [])
         else if \<not> target_is_file then (declined True argv (''target artifact not found: '' @ p), [])
         else if key = None \<and> \<not> allow_keyless then (declined True argv keyless_message, [])
         else (case run argv of
                 Inl e \<Rightarrow> (declined True argv (''cosign invocation failed: '' @ e), [argv])
               | Inr r \<Rightarrow>
                   (let ok = (wr_code r = 0)
                    in (\<lparr>cr_action = ''sign-blob'', cr_available = True, cr_ok = ok, cr_argv = argv,
                         cr_returncode = Some (wr_code r), cr_stdout = wr_stdout r, cr_stderr = wr_stderr r,
                         cr_message = (if ok then ''signed'' else ''cosign sign-blob returned a non-zero exit''),
                         cr_signature_path = (if ok \<and> wr_is_file r sig_path then Some sig_path else None),
                         cr_bundle_path = (case bundle_path of Some b \<Rightarrow> if ok \<and> wr_is_file r b then Some b else None
                                           | None \<Rightarrow> None),
                         cr_signature = (if ok \<and> wr_is_file r sig_path then map_option strip (wr_read r sig_path) else None)\<rparr>,
                        [argv]))))"

definition verify_blob ::
  "tool_host \<Rightarrow> (str list \<Rightarrow> str + tool_run) \<Rightarrow> str \<Rightarrow> str option \<Rightarrow> str option \<Rightarrow> str option \<Rightarrow> bool \<Rightarrow> str list \<Rightarrow> bool" where
  "verify_blob H run p key signature_path bundle_path ignore_tlog extra_args =
     (case find_cosign_exe H of
        None \<Rightarrow> False
      | Some exe \<Rightarrow>
          (if \<not> cosign_available H then False
           else case run (build_verify_argv exe p key signature_path bundle_path ignore_tlog extra_args) of
               Inl _ \<Rightarrow> False
             | Inr r \<Rightarrow> wr_code r = 0))"

section \<open>No fabricated signature, no keyless flow by accident\<close>

lemma signature_was_produced:
  assumes "sign_blob H tf run p key sp bp up ak xs = (res, cmds)" "cr_ok res \<or> cr_signature res \<noteq> None"
  shows "\<exists>argv r. cmds = [argv] \<and> run argv = Inr r \<and> wr_code r = 0 \<and> cosign_available H \<and> tf"
  using assms by (auto simp: sign_blob_def declined_def Let_def split: if_splits sum.splits)

lemma keyless_only_on_request:
  "sign_blob H tf run p None sp bp up False xs = (res, cmds) \<Longrightarrow> cmds = []"
  by (auto simp: sign_blob_def Let_def split: if_splits)

lemma sign_argv_parts:
  "sublist [''--key'', k] (build_sign_argv e p (Some k) (Some sp) bp False True xs)"
  "sublist [''--tlog-upload'', ''false''] (build_sign_argv e p (Some k) (Some sp) bp False True xs)"
  "last (build_sign_argv e p (Some k) (Some sp) bp False True xs) = p"
proof -
  let ?argv = "build_sign_argv e p (Some k) (Some sp) bp False True xs"
  have 1: "?argv = [e, ''sign-blob'', ''--yes''] @ [''--key'', k] @
      ([''--output-signature'', sp] @ option_arg ''--bundle'' bp @ [''--tlog-upload'', ''false''] @ xs @ [p])"
    by (simp add: build_sign_argv_def option_arg_def)
  have 2: "?argv = ([e, ''sign-blob'', ''--yes'', ''--key'', k, ''--output-signature'', sp] @ option_arg ''--bundle'' bp) @
      [''--tlog-upload'', ''false''] @ (xs @ [p])"
    by (simp add: build_sign_argv_def option_arg_def)
  show "sublist [''--key'', k] ?argv" unfolding 1 by (rule sublist_appendI)
  show "sublist [''--tlog-upload'', ''false''] ?argv" unfolding 2 by (rule sublist_appendI)
  show "last ?argv = p" by (simp add: build_sign_argv_def)
qed

lemma offline_by_default:
  assumes "sign_blob H tf run p (Some k) sp bp False ak xs = (res, [argv])"
  shows "sublist [''--key'', k] argv \<and> sublist [''--tlog-upload'', ''false''] argv \<and> last argv = p"
proof -
  obtain e q where "argv = build_sign_argv e p (Some k) (Some q) bp False True xs"
    using assms by (auto simp: sign_blob_def Let_def split: if_splits sum.splits)
  then show ?thesis using sign_argv_parts by simp
qed

lemma verified_only_by_tool:
  "verify_blob H run p key sp bp ig xs \<Longrightarrow> cosign_available H \<and> (\<exists>argv r. run argv = Inr r \<and> wr_code r = 0)"
  by (auto simp: verify_blob_def split: option.splits if_splits sum.splits)

end
