(* ===== verification/Supply_Chain.thy ===== *)
theory Supply_Chain imports Trust Pyvalue Cosign "HOL-Library.Multiset" "HOL-Library.Product_Lexorder" begin

text \<open>
  The release tooling under \<open>src/scripts\<close>: \<open>generate_sbom.py\<close>, \<open>generate_provenance.py\<close> and
  \<open>cosign_attest.py\<close>. \<open>uv.lock\<close> is given as the tables \<open>uv\<close> writes, the source tree as its files. The
  lemmas show that the attested statement does not depend on the order in which packages and files are
  listed, that a signed statement verifies, what a verified envelope says, and that the signing command
  succeeds only with every artifact signed once the tool is there.
\<close>

section \<open>The bill of materials\<close>

text \<open>A \<open>[[package]]\<close> table: the keys of its source, the sdist if it is a table, the wheels.\<close>

record lock_package =
  lk_name :: "str option"
  lk_version :: "str option"
  lk_source :: "str list"
  lk_sdist :: "dict option"
  lk_wheels :: "dict list"

definition is_third_party :: "lock_package \<Rightarrow> bool" where
  "is_third_party p \<longleftrightarrow> list_all (\<lambda>s. s \<notin> {''editable'', ''virtual'', ''directory'', ''path''}) (lk_source p)"

definition purl :: "str \<Rightarrow> str \<Rightarrow> str" where
  "purl name version = ''pkg:pypi/'' @ name @ ''@'' @ version"

definition package_name :: "lock_package \<Rightarrow> py_error + str" where
  "package_name p = (case lk_name p of Some n \<Rightarrow> Inr n | None \<Rightarrow> Inl (OtherError ''KeyError''))"

definition package_version :: "lock_package \<Rightarrow> str" where
  "package_version p = (case lk_version p of Some v \<Rightarrow> v | None \<Rightarrow> [])"

definition sbom_component :: "str \<times> str \<Rightarrow> json" where
  "sbom_component nv = (case nv of (name, version) \<Rightarrow>
     JObj [(''type'', JStr ''library''), (''name'', JStr name), (''version'', JStr version), (''purl'', JStr (purl name version))])"

definition build_components :: "lock_package list \<Rightarrow> py_error + json list" where
  "build_components packages =
     bind_err (map_err (\<lambda>p. bind_err (package_name p) (\<lambda>n. Inr (n, package_version p))) (filter is_third_party packages))
       (\<lambda>nvs. Inr (map sbom_component (sort nvs)))"

definition generate_sbom :: "str \<Rightarrow> str \<Rightarrow> str \<Rightarrow> str \<Rightarrow> lock_package list \<Rightarrow> py_error + json" where
  "generate_sbom project_name project_version timestamp serial packages =
     bind_err (build_components packages) (\<lambda>components. Inr (JObj
       [(''bomFormat'', JStr ''CycloneDX''), (''specVersion'', JStr ''1.5''), (''serialNumber'', JStr serial),
        (''version'', JInt 1),
        (''metadata'', JObj [(''timestamp'', JStr timestamp),
           (''tools'', JList [JObj [(''name'', JStr ''onecompute-sbom''), (''vendor'', JStr ''OneCompute'')]]),
           (''component'', JObj [(''type'', JStr ''application''), (''name'', JStr project_name),
              (''version'', JStr project_version), (''purl'', JStr (purl project_name project_version))])]),
        (''components'', JList components)]))"

section \<open>The statement\<close>

definition digest_of :: "dict \<Rightarrow> str option" where
  "digest_of d =
     (case get_or d ''hash'' (JStr []) of
        JStr s \<Rightarrow> if startswith s ''sha256:'' then Some (drop 7 s) else None
      | _ \<Rightarrow> None)"

fun first_digest :: "dict list \<Rightarrow> str option" where
  "first_digest [] = None"
| "first_digest (w # ws) = (case digest_of w of Some h \<Rightarrow> Some h | None \<Rightarrow> first_digest ws)"

definition dep_sha256 :: "lock_package \<Rightarrow> str option" where
  "dep_sha256 p = first_digest ((case lk_sdist p of Some d \<Rightarrow> [d] | None \<Rightarrow> []) @ lk_wheels p)"

definition dependency :: "lock_package \<Rightarrow> py_error + str \<times> json" where
  "dependency p =
     bind_err (package_name p) (\<lambda>name. let uri = purl name (package_version p)
       in Inr (uri, JObj ((''uri'', JStr uri) #
            (case dep_sha256 p of None \<Rightarrow> [] | Some h \<Rightarrow> [(''digest'', JObj [(''sha256'', JStr h)])]))))"

definition resolved_dependencies :: "lock_package list \<Rightarrow> py_error + json list" where
  "resolved_dependencies packages =
     bind_err (map_err dependency (filter is_third_party packages)) (\<lambda>deps. Inr (map snd (sort_key fst deps)))"

text \<open>\<open>files\<close>: the relative path and the content of every \<open>src/**/*.py\<close>.\<close>

definition source_tree_digest :: "primitives \<Rightarrow> (str \<times> str) list \<Rightarrow> str" where
  "source_tree_digest P files =
     sha256_hex (p_sha256 P) (p_float_repr P)
       (JList (map (\<lambda>(rel, sha). JList [JStr rel, JStr sha]) (sort (map (\<lambda>(rel, content). (rel, p_sha256 P content)) files))))"

definition subject :: "str \<Rightarrow> str \<Rightarrow> json" where
  "subject name digest = JObj [(''name'', JStr name), (''digest'', JObj [(''sha256'', JStr digest)])]"

definition SBOM_TIMESTAMP :: str where "SBOM_TIMESTAMP = ''2020-01-01T00:00:00Z''"
definition SBOM_SERIAL :: str where "SBOM_SERIAL = ''urn:uuid:00000000-0000-0000-0000-000000000000''"

definition build_statement :: "primitives \<Rightarrow> str \<Rightarrow> str \<Rightarrow> lock_package list \<Rightarrow> (str \<times> str) list \<Rightarrow> py_error + json" where
  "build_statement P project_name project_version packages files =
     bind_err (generate_sbom project_name project_version SBOM_TIMESTAMP SBOM_SERIAL packages) (\<lambda>sbom.
     bind_err (resolved_dependencies packages) (\<lambda>deps.
       Inr (JObj
         [(''_type'', JStr ''https://in-toto.io/Statement/v1''),
          (''subject'', JList [subject ''sbom.cyclonedx.json'' (sha256_hex (p_sha256 P) (p_float_repr P) sbom),
             subject ''src-tree'' (source_tree_digest P files)]),
          (''predicateType'', JStr ''https://slsa.dev/provenance/v1''),
          (''predicate'', JObj
             [(''buildDefinition'', JObj
                [(''buildType'', JStr ''https://onecompute.dev/provenance/buildtypes/offline-attestation/v1''),
                 (''externalParameters'', JObj [(''project'', JStr ''onecompute''),
                    (''entryPoint'', JStr ''scripts/generate_provenance.py''),
                    (''subjects'', JList [JStr ''sbom.cyclonedx.json'', JStr ''src-tree''])]),
                 (''internalParameters'', JObj []), (''resolvedDependencies'', JList deps)]),
              (''runDetails'', JObj
                [(''builder'', JObj [(''id'', JStr ''https://onecompute.dev/provenance/builders/offline-ed25519/v1'')])])])])))"

section \<open>The envelope\<close>

text \<open>\<open>None\<close>: the private key is not 32 bytes in hexadecimal, which raises. \<open>generated\<close> is the key drawn without one.\<close>

definition sign_statement :: "primitives \<Rightarrow> str option \<Rightarrow> str \<Rightarrow> json \<Rightarrow> json option" where
  "sign_statement P private_key generated statement =
     map_option (\<lambda>signer. JObj
       [(''payloadType'', JStr ''application/vnd.in-toto+json''), (''payload'', statement),
        (''signatures'', JList [JObj
           [(''sig'', JStr (sign_bytes P signer (canonical_bytes (p_float_repr P) statement))),
            (''keyid'', JStr (public_key_hex P signer)), (''publicKey'', JStr (public_key_hex P signer))]])])
       (make_signer private_key generated)"

text \<open>\<open>a or b\<close>.\<close>

definition or_else :: "json \<Rightarrow> json \<Rightarrow> json" where
  "or_else a b = (if truthy a then a else b)"

definition entry_verifies :: "primitives \<Rightarrow> str \<Rightarrow> json \<Rightarrow> bool" where
  "entry_verifies P payload_bytes entry =
     (case entry of
        JObj e \<Rightarrow>
          (case (get_or e ''sig'' (JStr []), or_else (get_or e ''publicKey'' JNull) (get_or e ''keyid'' JNull)) of
             (JStr sig, JStr key) \<Rightarrow> sig \<noteq> [] \<and> key \<noteq> [] \<and> ed_verify_hex P key sig payload_bytes
           | _ \<Rightarrow> False)
      | _ \<Rightarrow> False)"

definition verify_envelope :: "primitives \<Rightarrow> json \<Rightarrow> bool" where
  "verify_envelope P envelope =
     (case envelope of
        JObj env \<Rightarrow>
          (case (dict_get env ''payload'', dict_get env ''signatures'') of
             (Some payload, Some (JList entries)) \<Rightarrow>
               entries \<noteq> [] \<and> list_all (entry_verifies P (canonical_bytes (p_float_repr P) payload)) entries
           | _ \<Rightarrow> False)
      | _ \<Rightarrow> False)"

text \<open>A signed statement verifies, whoever's key signed it: verification is self-contained.\<close>

theorem signed_provenance_verifies:
  assumes "ed25519_correct P" "ed25519_nonempty P" "sign_statement P key generated statement = Some envelope"
  shows "verify_envelope P envelope"
  using assms
  by (auto simp: sign_statement_def verify_envelope_def entry_verifies_def dict_get_def get_or_def or_else_def
      sign_bytes_def public_key_hex_def ed25519_correct_def ed25519_nonempty_def)

text \<open>
  A verified envelope carries at least one signature, and each of them is one over the canonical bytes of
  the payload under the key it names; one bad signature refuses the whole.
\<close>

theorem verified_envelope_is_signed:
  assumes "verify_envelope P (JObj env)"
  obtains payload entries where "dict_get env ''payload'' = Some payload" "dict_get env ''signatures'' = Some (JList entries)"
    "entries \<noteq> []"
    "\<And>e. e \<in> set entries \<Longrightarrow> \<exists>d sig key. e = JObj d \<and> dict_get d ''sig'' = Some (JStr sig) \<and>
       (dict_get d ''publicKey'' = Some (JStr key) \<or> dict_get d ''keyid'' = Some (JStr key)) \<and>
       ed_verify_hex P key sig (canonical_bytes (p_float_repr P) payload)"
proof -
  obtain payload entries where e: "dict_get env ''payload'' = Some payload" "dict_get env ''signatures'' = Some (JList entries)"
    "entries \<noteq> []" "list_all (entry_verifies P (canonical_bytes (p_float_repr P) payload)) entries"
    using assms by (auto simp: verify_envelope_def split: option.splits json.splits)
  have "\<exists>d sig key. x = JObj d \<and> dict_get d ''sig'' = Some (JStr sig) \<and>
       (dict_get d ''publicKey'' = Some (JStr key) \<or> dict_get d ''keyid'' = Some (JStr key)) \<and>
       ed_verify_hex P key sig (canonical_bytes (p_float_repr P) payload)" if "x \<in> set entries" for x
  proof -
    have "entry_verifies P (canonical_bytes (p_float_repr P) payload) x" using e(4) that by (simp add: list_all_iff)
    then show ?thesis
      by (auto simp: entry_verifies_def get_or_def or_else_def split: json.splits option.splits if_splits)
  qed
  with e show thesis using that by blast
qed

section \<open>The statement is reproducible\<close>

lemma sort_mset: "mset xs = mset ys \<Longrightarrow> sort xs = (sort ys :: 'a :: linorder list)"
  by (metis mset_sort properties_for_sort sorted_sort)

lemma sort_key_mset:
  assumes "mset xs = mset ys" "inj_on f (set xs)"
  shows "sort_key f xs = sort_key f ys"
  by (rule sort_key_inj_key_eq) (use assms in simp_all)

definition named_packages :: "lock_package list \<Rightarrow> bool" where
  "named_packages packages \<longleftrightarrow> list_all (\<lambda>p. lk_name p \<noteq> None) (filter is_third_party packages)"

definition known_name :: "lock_package \<Rightarrow> str" where
  "known_name p = (case lk_name p of Some n \<Rightarrow> n | None \<Rightarrow> [])"

definition package_uri :: "lock_package \<Rightarrow> str" where
  "package_uri p = purl (known_name p) (package_version p)"

text \<open>The third-party packages, each with its name: both listings fail or give the same ones.\<close>

lemma third_party_order:
  assumes "mset ps = mset qs" "named_packages ps" "\<And>p. lk_name p \<noteq> None \<Longrightarrow> f p = Inr (g p)"
  shows "map_err f (filter is_third_party ps) = Inr (map g (filter is_third_party ps))"
    "map_err f (filter is_third_party qs) = Inr (map g (filter is_third_party qs))"
    "mset (map g (filter is_third_party ps)) = mset (map g (filter is_third_party qs))"
proof -
  have third: "mset (filter is_third_party ps) = mset (filter is_third_party qs)" using assms(1) by (simp add: mset_filter)
  have "lk_name p \<noteq> None" if "p \<in> set (filter is_third_party ps) \<union> set (filter is_third_party qs)" for p
    using assms(2) mset_eq_setD [OF third] that by (auto simp: named_packages_def list_all_iff)
  then show "map_err f (filter is_third_party ps) = Inr (map g (filter is_third_party ps))"
    "map_err f (filter is_third_party qs) = Inr (map g (filter is_third_party qs))"
    using assms(3) by (blast intro: map_err_total)+
  show "mset (map g (filter is_third_party ps)) = mset (map g (filter is_third_party qs))"
    using third by (simp only: mset_map)
qed

lemma package_known: "lk_name p \<noteq> None \<Longrightarrow> package_name p = Inr (known_name p)"
  by (auto simp: package_name_def known_name_def)

lemma components_order:
  assumes "mset ps = mset qs" "named_packages ps"
  shows "\<exists>cs. build_components ps = Inr cs \<and> build_components qs = Inr cs"
proof -
  note third = third_party_order [OF assms, of "\<lambda>p. bind_err (package_name p) (\<lambda>n. Inr (n, package_version p))"
      "\<lambda>p. (known_name p, package_version p)"]
  show ?thesis using sort_mset [OF third(3)] by (simp add: build_components_def third(1,2) package_known)
qed

lemma dependencies_order:
  assumes "mset ps = mset qs" "named_packages ps" "distinct (map package_uri (filter is_third_party ps))"
  shows "\<exists>ds. resolved_dependencies ps = Inr ds \<and> resolved_dependencies qs = Inr ds"
proof -
  let ?g = "\<lambda>p. (package_uri p, JObj ((''uri'', JStr (package_uri p)) #
      (case dep_sha256 p of None \<Rightarrow> [] | Some h \<Rightarrow> [(''digest'', JObj [(''sha256'', JStr h)])])))"
  have dep: "lk_name p \<noteq> None \<Longrightarrow> dependency p = Inr (?g p)" for p
    by (simp add: dependency_def package_known package_uri_def Let_def)
  note third = third_party_order [OF assms(1,2), of dependency ?g, OF dep]
  have "distinct (map fst (map ?g (filter is_third_party ps)))" using assms(3) by (simp add: comp_def)
  then have "inj_on fst (set (map ?g (filter is_third_party ps)))" by (rule distinct_map [THEN iffD1, THEN conjunct2])
  from sort_key_mset [OF third(3) this] show ?thesis by (simp add: resolved_dependencies_def third(1,2))
qed

lemma source_tree_order: "mset fs = mset gs \<Longrightarrow> source_tree_digest P fs = source_tree_digest P gs"
  unfolding source_tree_digest_def by (subst sort_mset [of "map _ fs" "map _ gs"]) (simp_all add: mset_map)

text \<open>
  However the lock file lists its packages and the file system its files, the statement is the same: with
  a name for every package and no purl twice, it exists and only the content decides it.
\<close>

theorem statement_is_reproducible:
  assumes "mset ps = mset qs" "named_packages ps" "distinct (map package_uri (filter is_third_party ps))" "mset fs = mset gs"
  shows "\<exists>st. build_statement P name version ps fs = Inr st \<and> build_statement P name version qs gs = Inr st"
  using components_order [OF assms(1,2)] dependencies_order [OF assms(1-3)] source_tree_order [OF assms(4)]
  by (auto simp: build_statement_def generate_sbom_def)

section \<open>Signing the artifacts\<close>

text \<open>
  \<open>cosign_attest.py\<close>: \<open>out name\<close> is \<open>output_dir / name\<close>. The artifacts are written before they are signed. The
  result is the exit code with what was reported for each artifact.
\<close>

definition attest_targets :: "(str \<Rightarrow> str) \<Rightarrow> bool \<Rightarrow> bool \<Rightarrow> str list" where
  "attest_targets out sbom attestation =
     (if sbom \<or> \<not> attestation then [out ''sbom.cyclonedx.json''] else []) @
     (if attestation \<or> \<not> sbom then [out ''attestation.intoto.jsonl''] else [])"

definition attest_sign ::
  "tool_host \<Rightarrow> (str list \<Rightarrow> str + tool_run) \<Rightarrow> (str \<Rightarrow> str) \<Rightarrow> bool \<Rightarrow> bool \<Rightarrow> str option \<Rightarrow> bool \<Rightarrow> bool \<Rightarrow>
     int \<times> cosign_result list" where
  "attest_sign H run out sbom attestation key with_bundle allow_keyless =
     (let targets = attest_targets out sbom attestation
      in if \<not> cosign_available H
         then (0, map (\<lambda>t. fst (sign_blob H True run t key None None False allow_keyless [])) targets)
         else (let rs = map (\<lambda>t. fst (sign_blob H True run t key None
                       (if with_bundle then Some (t @ ''.cosign.bundle'') else None) False allow_keyless [])) targets
               in (if list_all cr_ok rs then 0 else 1, rs)))"

definition attest_verify ::
  "tool_host \<Rightarrow> (str list \<Rightarrow> str + tool_run) \<Rightarrow> bool \<Rightarrow> str \<Rightarrow> str option \<Rightarrow> str option \<Rightarrow> int" where
  "attest_verify H run is_file blob signature key =
     (if \<not> is_file then 2
      else if \<not> cosign_available H then 1
      else if verify_blob H run blob key
          (Some (case signature of Some s \<Rightarrow> s | None \<Rightarrow> default_signature_path blob)) None True [] then 0
      else 1)"

lemma attest_targets_nonempty: "attest_targets out sbom attestation \<noteq> []"
  by (simp add: attest_targets_def)

text \<open>With the tool there, success means that every artifact was signed; without it nothing is, and the exit code is 0.\<close>

lemma attest_success_is_signed:
  assumes "attest_sign H run out sbom attestation key b ak = (0, rs)" "cosign_available H"
  shows "rs \<noteq> [] \<and> list_all cr_ok rs"
  using assms attest_targets_nonempty [of out sbom attestation] by (auto simp: attest_sign_def Let_def split: if_splits)

lemma attest_without_tool:
  assumes "\<not> cosign_available H"
  shows "\<exists>rs. attest_sign H run out sbom attestation key b ak = (0, rs) \<and> rs \<noteq> [] \<and>
    list_all (\<lambda>r. \<not> cr_ok r \<and> cr_signature r = None) rs"
  using assms attest_targets_nonempty [of out sbom attestation]
  by (auto simp: attest_sign_def sign_blob_def declined_def list_all_iff Let_def)

lemma attest_keyless_needs_consent:
  assumes "cosign_available H"
  shows "fst (attest_sign H run out sbom attestation None b False) = 1"
  using assms attest_targets_nonempty [of out sbom attestation]
  by (cases "attest_targets out sbom attestation") (auto simp: attest_sign_def sign_blob_def declined_def Let_def)

lemma attest_verified_by_tool: "attest_verify H run is_file blob signature key = 0 \<Longrightarrow> cosign_available H \<and> is_file"
  by (simp add: attest_verify_def split: if_splits)

end
