(* ===== verification/Measure_Report.thy ===== *)
theory Measure_Report imports Measure Business_Case begin

text \<open>
  \<open>src/scripts/measure_report.py\<close>: the pilot report over usage profiles that were collected as files. Its
  text layout is left out. The lemmas show that a saved profile is reported as the device measured it, GPU
  sample counts included, that a bad file is skipped without losing the others, and that a range is never
  printed backwards whatever the options are. The last section is the choice of device classes and the
  awake-only figure of \<open>src/scripts/business_case.py\<close>.
\<close>

section \<open>Files\<close>

record device_profile =
  dp_path :: str
  dp_device :: str
  dp_populated :: "bucket list"
  dp_gpu_supported :: json
  dp_availability :: json

text \<open>\<open>stem\<close> is the file's name without its suffix.\<close>

definition load_profile :: "conversions \<Rightarrow> (str \<Rightarrow> str) \<Rightarrow> str \<Rightarrow> profile_file \<Rightarrow> py_error + device_profile option" where
  "load_profile C stem path f =
     (case f of
        Decoded n (JObj data) \<Rightarrow>
          (if MAX_PROFILE_BYTES < n then Inr None
           else case get_or data ''buckets'' JNull of
               JList raw_buckets \<Rightarrow>
                 bind_err (normalize_buckets C (JList raw_buckets)) (\<lambda>populated. Inr (Some
                   \<lparr>dp_path = path, dp_device = stem path, dp_populated = populated,
                    dp_gpu_supported = get_or data ''gpu_supported'' JNull,
                    dp_availability = get_or data ''availability'' JNull\<rparr>))
             | _ \<Rightarrow> Inr None)
      | _ \<Rightarrow> Inr None)"

text \<open>What the given path is; a directory is given by its \<open>*.json\<close> files.\<close>

datatype report_target = Folder "(str \<times> profile_file) list" | OneFile "str \<times> profile_file" | Absent str

record skipped_file =
  sk_path :: str
  sk_reason :: str

definition discover_paths :: "report_target \<Rightarrow> (str \<times> profile_file) list \<times> skipped_file list" where
  "discover_paths t =
     (case t of
        Folder files \<Rightarrow> (sort_key fst files, [])
      | OneFile f \<Rightarrow> ([f], [])
      | Absent p \<Rightarrow> ([], [\<lparr>sk_path = p, sk_reason = ''not found''\<rparr>]))"

section \<open>The report\<close>

text \<open>\<open>is True\<close> and \<open>is False\<close> of what the file holds.\<close>

definition declared_gpu :: "json \<Rightarrow> bool option" where
  "declared_gpu v = (case v of JBool b \<Rightarrow> Some b | _ \<Rightarrow> None)"

record report_options =
  ro_margin :: rat
  ro_low :: rat
  ro_high :: rat

definition normalize_options :: "rat \<Rightarrow> rat \<Rightarrow> rat \<Rightarrow> report_options" where
  "normalize_options margin harvest_low harvest_high =
     (let a = max 0 harvest_low; b = max 0 harvest_high
      in \<lparr>ro_margin = max 0 margin, ro_low = min a b, ro_high = max a b\<rparr>)"

definition summary_for :: "report_options \<Rightarrow> device_profile \<Rightarrow> profile_summary" where
  "summary_for opts d =
     summarize_profile (ro_margin opts) (ro_low opts) (ro_high opts) (declared_gpu (dp_gpu_supported d)) (dp_populated d)"

fun summarize_files ::
  "conversions \<Rightarrow> (str \<Rightarrow> str) \<Rightarrow> report_options \<Rightarrow> (str \<times> profile_file) list \<Rightarrow> py_error + profile_summary list \<times> skipped_file list" where
  "summarize_files C stem opts [] = Inr ([], [])"
| "summarize_files C stem opts ((p, f) # files) =
     bind_err (load_profile C stem p f) (\<lambda>profile. bind_err (summarize_files C stem opts files) (\<lambda>(ss, sks).
       Inr (case profile of
              None \<Rightarrow> (ss, \<lparr>sk_path = p, sk_reason = ''unreadable or malformed''\<rparr> # sks)
            | Some d \<Rightarrow> (summary_for opts d # ss, sks))))"

record pilot_report =
  rp_devices :: "profile_summary list"
  rp_fleet :: fleet_summary
  rp_skipped :: "skipped_file list"

definition measure_report :: "conversions \<Rightarrow> (str \<Rightarrow> str) \<Rightarrow> rat \<Rightarrow> rat \<Rightarrow> rat \<Rightarrow> report_target \<Rightarrow> py_error + pilot_report" where
  "measure_report C stem margin harvest_low harvest_high t =
     (let opts = normalize_options margin harvest_low harvest_high; (paths, skipped) = discover_paths t
      in bind_err (summarize_files C stem opts paths) (\<lambda>(ss, sks).
           Inr \<lparr>rp_devices = ss, rp_fleet = aggregate (ro_low opts) (ro_high opts) ss, rp_skipped = skipped @ sks\<rparr>))"

section \<open>A saved profile is reported as it was measured\<close>

definition local_bucket :: "bucket_stat \<Rightarrow> bucket" where
  "local_bucket b = (sent_bucket b)\<lparr>bk_gpu_n := max 0 (min (st_n b) (st_gpu_n b))\<rparr>"

definition on_device :: "usage_profiler \<Rightarrow> bucket list" where
  "on_device p = map local_bucket (filter (\<lambda>b. 0 < st_n b) (up_buckets p))"

lemma read_saved_buckets:
  "read_buckets C (map (\<lambda>b. JObj (bucket_to_dict b)) bs) = Inr (map local_bucket (filter (\<lambda>b. 0 < st_n b) bs))"
proof (induction bs)
  case (Cons b bs)
  have "bucket_count C (bucket_to_dict b) = (if st_n b \<le> 0 then None else Some (st_n b))"
    by (simp add: bucket_count_def get_int_def get_or_def bucket_to_dict_get Let_def)
  moreover have "read_bucket C (bucket_to_dict b) (st_n b) = Inr (local_bucket b)"
    by (simp add: read_bucket_def get_or_def bucket_to_dict_get bucket_gpu_count_def local_bucket_def sent_bucket_def Let_def)
  ultimately show ?case using Cons.IH by simp
qed simp

theorem saved_profile_is_reported:
  assumes "length (up_buckets p) = BUCKETS" "n \<le> MAX_PROFILE_BYTES"
  shows "\<exists>d. load_profile C stem path (Decoded n (JObj (save_payload p))) = Inr (Some d) \<and> dp_populated d = on_device p \<and>
    declared_gpu (dp_gpu_supported d) = up_gpu_supported p"
proof -
  have "normalize_buckets C (JList (map (\<lambda>b. JObj (bucket_to_dict b)) (up_buckets p))) = Inr (on_device p)"
    using assms(1) by (simp add: normalize_buckets_def read_saved_buckets on_device_def BUCKETS_def BUCKETS_PER_WEEK_def)
  then show ?thesis
    using assms(2) by (auto simp: load_profile_def save_payload_def get_or_def dict_get_def declared_gpu_def split: option.split)
qed

text \<open>Unlike the upload, the report leaves hours without a GPU reading out of the GPU's figures.\<close>

lemma report_excludes_unsampled_gpu:
  assumes "list_all (\<lambda>b. st_gpu_n b = 0) (up_buckets p)"
  shows "\<not> su_gpu_sampled (summarize_profile m lo hi declared (on_device p))"
proof -
  have "filter (has_gpu_sample declared xs) (on_device p) = []" for xs
    using assms by (auto simp: on_device_def local_bucket_def has_gpu_sample_def list_all_iff filter_empty_conv)
  then show ?thesis by (simp add: summarize_profile_def Let_def)
qed

section \<open>Bad files and odd options\<close>

text \<open>Every file is either summarized or named among the skipped ones.\<close>

lemma every_file_is_accounted_for:
  "summarize_files C stem opts files = Inr (ss, sks) \<Longrightarrow> length ss + length sks = length files \<and>
     map sk_path sks = map fst (filter (\<lambda>(p, f). load_profile C stem p f = Inr None) files)"
proof (induction files arbitrary: ss sks)
  case (Cons pf files)
  obtain p f where pf: "pf = (p, f)" by (cases pf)
  obtain profile ss' sks' where l: "load_profile C stem p f = Inr profile" "summarize_files C stem opts files = Inr (ss', sks')"
    using Cons.prems by (auto simp: pf bind_err_Inr)
  then show ?case using Cons.IH [OF l(2)] Cons.prems by (auto simp: pf split: option.splits)
qed simp

text \<open>A file that cannot be read or does not have the form never aborts the report.\<close>

lemma malformed_file_is_skipped:
  assumes "\<not> (\<exists>n data xs. f = Decoded n (JObj data) \<and> dict_get data ''buckets'' = Some (JList xs))"
  shows "load_profile C stem p f = Inr None"
  using assms
  by (auto simp: load_profile_def get_or_def split: profile_file.split json.split option.splits)

lemma normalized_options: "0 \<le> ro_margin (normalize_options m a b)" "0 \<le> ro_low (normalize_options m a b)"
  "ro_low (normalize_options m a b) \<le> ro_high (normalize_options m a b)"
  by (simp_all add: normalize_options_def Let_def min_def)

definition forward :: "metric_summary \<Rightarrow> bool" where
  "forward m \<longleftrightarrow> 0 \<le> ms_mean_spare m \<and> 0 \<le> ms_low m \<and> ms_low m \<le> ms_high m"

lemma metric_of_forward:
  assumes "\<And>x. x \<in> set spares \<Longrightarrow> 0 \<le> x" "0 \<le> lo" "lo \<le> hi"
  shows "forward (metric_of lo hi means peaks spares)"
proof -
  have "0 \<le> sum_list spares" using assms(1) by (simp add: sum_list_nonneg)
  then have m: "0 \<le> fmean spares" unfolding fmean_def fdiv_def by (rule fl64_nonneg [OF divide_nonneg_nonneg [OF fl64_nonneg]]) simp
  then have "0 \<le> fmul (fmean spares) lo" "fmul (fmean spares) lo \<le> fmul (fmean spares) hi"
    unfolding fmul_def using assms(2,3) by (auto intro!: fl64_nonneg fl64_mono mult_left_mono)
  with m show ?thesis by (simp add: forward_def metric_of_def recoverable_def Let_def)
qed

lemma empty_metric_forward: "forward empty_metric"
  by (simp add: forward_def empty_metric_def)

lemma summary_forward:
  assumes "0 \<le> lo" "lo \<le> hi"
  shows "forward (su_cpu (summarize_profile m lo hi g bs)) \<and> forward (su_gpu (summarize_profile m lo hi g bs))"
  unfolding summarize_profile_def Let_def
  using assms by (auto simp: empty_metric_forward intro!: metric_of_forward)

lemma fleet_metric_forward:
  "0 \<le> lo \<Longrightarrow> lo \<le> hi \<Longrightarrow> (\<And>m. m \<in> set ms \<Longrightarrow> forward m) \<Longrightarrow> forward (fleet_metric lo hi ms)"
  unfolding fleet_metric_def by (rule metric_of_forward) (auto simp: forward_def)

lemma fleet_forward:
  assumes "list_all (\<lambda>s. forward (su_cpu s) \<and> forward (su_gpu s)) ss" "0 \<le> lo" "lo \<le> hi"
  shows "forward (fu_cpu (aggregate lo hi ss)) \<and> forward (fu_gpu (aggregate lo hi ss))"
  unfolding aggregate_def Let_def
  using assms by (auto simp: empty_metric_forward list_all_iff intro!: fleet_metric_forward)

lemma summarized_forward:
  "summarize_files C stem opts files = Inr (ss, sks) \<Longrightarrow> 0 \<le> ro_low opts \<Longrightarrow> ro_low opts \<le> ro_high opts \<Longrightarrow>
     list_all (\<lambda>s. forward (su_cpu s) \<and> forward (su_gpu s)) ss"
  by (induction files arbitrary: ss sks)
    (auto simp: bind_err_Inr summary_for_def summary_forward split: option.splits)

theorem ranges_are_never_backwards:
  assumes "measure_report C stem margin harvest_low harvest_high t = Inr r"
  shows "list_all (\<lambda>s. forward (su_cpu s) \<and> forward (su_gpu s)) (rp_devices r) \<and>
    forward (fu_cpu (rp_fleet r)) \<and> forward (fu_gpu (rp_fleet r))"
proof -
  let ?o = "normalize_options margin harvest_low harvest_high"
  obtain ss sks where s: "summarize_files C stem ?o (fst (discover_paths t)) = Inr (ss, sks)" "rp_devices r = ss"
    "rp_fleet r = aggregate (ro_low ?o) (ro_high ?o) ss"
    using assms by (auto simp: measure_report_def bind_err_Inr Let_def split: prod.splits)
  have "list_all (\<lambda>s. forward (su_cpu s) \<and> forward (su_gpu s)) ss"
    using s(1) normalized_options(2,3) by (rule summarized_forward)
  with fleet_forward [OF this normalized_options(2,3)] show ?thesis by (simp add: s)
qed

section \<open>The business case on the command line\<close>

text \<open>\<open>_classes\<close>; \<open>None\<close> for a class that does not exist. A numeric override that is 0 is false in Python.\<close>

definition override_set :: "'a :: zero option \<Rightarrow> bool" where
  "override_set v \<longleftrightarrow> v \<noteq> None \<and> v \<noteq> Some 0"

definition or_given :: "'a option \<Rightarrow> 'a \<Rightarrow> 'a" where
  "or_given v dflt = (case v of Some x \<Rightarrow> x | None \<Rightarrow> dflt)"

definition classes :: "str \<Rightarrow> int option \<Rightarrow> rat option \<Rightarrow> rat option \<Rightarrow> bool \<Rightarrow> device_class list option" where
  "classes device_class n cores price always_on =
     (if device_class = ''all'' then Some (map snd DEVICE_DEFAULTS)
      else map_option (\<lambda>d.
        (if override_set n \<or> override_set cores \<or> override_set price \<or> always_on
         then [\<lparr>dc_name = dc_name d, dc_count = or_given n (dc_count d), dc_vcpu_cores = or_given cores (dc_vcpu_cores d),
                dc_price_per_vcpu_hr = or_given price (dc_price_per_vcpu_hr d),
                dc_always_on = always_on \<or> dc_always_on d\<rparr>]
         else [d])) (map_of DEVICE_DEFAULTS device_class))"

text \<open>An override of 0 counts only beside another one: a fleet of no devices is projected as the default fleet.\<close>

lemma zero_override_is_ignored:
  "classes c (Some 0) None None False = classes c None None None False"
  "map_of DEVICE_DEFAULTS c = Some d \<Longrightarrow> c \<noteq> ''all'' \<Longrightarrow>
     classes c (Some 0) (Some 8) None False = Some [d\<lparr>dc_count := 0, dc_vcpu_cores := 8\<rparr>]"
  by (simp_all add: classes_def override_set_def or_given_def)

definition yearly_value :: "device_class \<Rightarrow> rat \<Rightarrow> rat" where
  "yearly_value d day = fmul (fmul (fmul day DAYS_PER_YEAR) (fl64 (of_int (dc_count d)))) (dc_price_per_vcpu_hr d)"

lemma yearly_value_mono:
  "0 \<le> dc_count d \<Longrightarrow> 0 \<le> dc_price_per_vcpu_hr d \<Longrightarrow> x \<le> y \<Longrightarrow> yearly_value d x \<le> yearly_value d y"
  unfolding yearly_value_def fmul_def DAYS_PER_YEAR_def
  by (intro fl64_mono mult_right_mono fl64_nonneg) auto

text \<open>What the worker can execute today is never shown above the wake-enabled potential of its class.\<close>

lemma awake_value_within_potential:
  assumes "float_inputs s opts" "0 \<le> dc_count d" "0 \<le> dc_vcpu_cores d" "0 \<le> dc_price_per_vcpu_hr d"
  shows "yearly_value d (pj_awake_vcpu_hours_day_low (project s d opts)) \<le> pj_savings_usd_year_low (project s d opts)"
    "yearly_value d (pj_awake_vcpu_hours_day_high (project s d opts)) \<le> pj_savings_usd_year_high (project s d opts)"
proof -
  obtain a u src where h: "hours_for s d opts = (a, u, src)" by (cases "hours_for s d opts") auto
  define W where "W = (if po_include_unavailable opts \<and> \<not> dc_always_on d then fmul u (bounded (po_wakeable_fraction opts) 1) else 0)"
  define w where "w = fmul (fmul (bounded (po_wake_cpu_fraction opts) 1) (dc_vcpu_cores d)) W"
  have b: "0 \<le> bounded v 1" for v using bounded_bounds [of 1 v] by simp
  have "0 \<le> u" using hours_for_ok [OF assms(1) h] by (simp add: hours_def)
  then have "0 \<le> W" unfolding W_def using b by (auto intro: fmul_nonneg)
  then have w: "0 \<le> w" unfolding w_def using assms(3) b by (intro fmul_nonneg)
  have grow: "fmul x y \<le> fadd (fmul x y) w" for x y
    unfolding fadd_def fmul_def using w by (intro f64.rnd_ge) simp_all
  show "yearly_value d (pj_awake_vcpu_hours_day_low (project s d opts)) \<le> pj_savings_usd_year_low (project s d opts)"
    "yearly_value d (pj_awake_vcpu_hours_day_high (project s d opts)) \<le> pj_savings_usd_year_high (project s d opts)"
    using yearly_value_mono [OF assms(2,4) grow]
    by (simp_all add: project_def h Let_def yearly_value_def W_def [symmetric] w_def [symmetric] max.commute)
qed

end
