(* ===== verification/Telemetry.thy ===== *)
theory Telemetry imports Worker_Loop Aggregate "HOL-Library.Multiset" begin

text \<open>
  The local event log of a job-mode worker and what is read back from it: the two events \<open>main\<close> of
  \<open>src/worker/__main__.py\<close> logs through \<open>src/worker/telemetry.py\<close> (the rotation of the file is in
  \<open>Observer_Identity\<close>), the summary of \<open>scripts/pilot_report.py\<close>, and the availability
  \<open>src/measurement/availability.py\<close> rebuilds from the log of an earlier version.
\<close>

section \<open>What is logged\<close>

text \<open>\<open>dict(gate.last_decision)\<close>, empty for the binary gate, completed with the admission.\<close>

definition decision_fields :: "decision \<Rightarrow> dict" where
  "decision_fields d =
     (case d of
        NoDecision \<Rightarrow> []
      | Refused reason \<Rightarrow> [(''admitted'', JBool False), (''reason'', JStr reason)]
      | Decided admitted demand headroom threshold \<Rightarrow>
          [(''admitted'', JBool admitted), (''user_cpu'', JFloat (Fin demand)), (''headroom'', JFloat (Fin headroom)),
           (''admission_threshold'', JFloat (Fin threshold))])"

definition snapshot_fields :: "worker_gate \<Rightarrow> bool \<Rightarrow> dict" where
  "snapshot_fields G admitted =
     (let snap = (case G of Adaptive g \<Rightarrow> decision_fields (gv_last_decision g) | Binary _ \<Rightarrow> [])
      in if dict_get snap ''admitted'' = None then snap @ [(''admitted'', JBool admitted)] else snap)"

definition log_record :: "str \<Rightarrow> str \<Rightarrow> str \<Rightarrow> dict \<Rightarrow> dict" where
  "log_record ts worker_id event more_fields =
     [(''ts'', JStr ts), (''worker_id'', JStr worker_id), (''event'', JStr event)] @ more_fields"

definition tick_record :: "str \<Rightarrow> str \<Rightarrow> str \<Rightarrow> worker_gate \<Rightarrow> bool \<Rightarrow> dict" where
  "tick_record ts worker_id boundary G admitted =
     log_record ts worker_id ''tick'' ((''boundary'', JStr boundary) # snapshot_fields G admitted)"

text \<open>\<open>round3\<close> is \<open>round(x, 3)\<close>; a result without a duration counts as 0.\<close>

definition result_record :: "(rat \<Rightarrow> rat) \<Rightarrow> str \<Rightarrow> str \<Rightarrow> result_request \<Rightarrow> dict" where
  "result_record round3 ts worker_id rr =
     log_record ts worker_id ''result''
       [(''status'', JStr (status_name (rs_status rr))), (''units'', JInt (rs_units rr)),
        (''duration_s'', JFloat (Fin (round3 (or_zero (rs_duration_s rr))))), (''job_id'', JStr (rs_job_id rr))]"

section \<open>The pilot summary\<close>

text \<open>One line of a log: text that is not JSON, or the value it holds.\<close>

datatype log_line = Garbled | Parsed json

record pilot_summary =
  pl_worker_id :: json
  pl_ticks :: int
  pl_admitted :: int
  pl_user_cpus :: "pyfloat list"
  pl_statuses :: "(json \<times> int) list"
  pl_units :: int
  pl_duration :: pyfloat

definition empty_summary :: pilot_summary where
  "empty_summary = \<lparr>pl_worker_id = JNull, pl_ticks = 0, pl_admitted = 0, pl_user_cpus = [], pl_statuses = [],
     pl_units = 0, pl_duration = Fin 0\<rparr>"

text \<open>Keys of a Python dict: numbers are one key when they are equal, lists and objects cannot be keys.\<close>

definition same_key :: "json \<Rightarrow> json \<Rightarrow> bool" where
  "same_key a b = (case (number_of a, number_of b) of
     (Some x, Some y) \<Rightarrow> x = y \<and> x \<noteq> NaN | (None, None) \<Rightarrow> a = b | _ \<Rightarrow> False)"

fun hashable :: "json \<Rightarrow> bool" where
  "hashable (JList _) = False"
| "hashable (JObj _) = False"
| "hashable _ = True"

fun tally :: "json \<Rightarrow> (json \<times> int) list \<Rightarrow> (json \<times> int) list" where
  "tally k [] = [(k, 1)]"
| "tally k ((k', n) # kvs) = (if same_key k k' then (k', n + 1) # kvs else (k', n) # tally k kvs)"

text \<open>\<open>v or 0\<close>\<close>

definition or_0 :: "json \<Rightarrow> json" where
  "or_0 v = (if truthy v then v else JInt 0)"

definition add_tick :: "conversions \<Rightarrow> dict \<Rightarrow> pilot_summary \<Rightarrow> py_error + pilot_summary" where
  "add_tick C r s =
     (let s1 = s\<lparr>pl_ticks := pl_ticks s + 1,
                 pl_admitted := pl_admitted s + (if truthy (get_or r ''admitted'' JNull) then 1 else 0)\<rparr>;
          cpu = get_or r ''user_cpu'' JNull
      in if number_of cpu = None then Inr s1
         else bind_err (to_float C cpu) (\<lambda>x. Inr (s1\<lparr>pl_user_cpus := pl_user_cpus s1 @ [x]\<rparr>)))"

definition add_result :: "conversions \<Rightarrow> dict \<Rightarrow> pilot_summary \<Rightarrow> py_error + pilot_summary" where
  "add_result C r s =
     (let status = get_or r ''status'' (JStr ''?'')
      in if \<not> hashable status then Inl (TypeError ''unhashable type'')
         else bind_err (to_int C (or_0 (get_or r ''units'' (JInt 0)))) (\<lambda>units.
              bind_err (to_float C (or_0 (get_or r ''duration_s'' (JInt 0)))) (\<lambda>duration.
                Inr (s\<lparr>pl_statuses := tally status (pl_statuses s), pl_units := pl_units s + units,
                       pl_duration := pf_add (pl_duration s) duration\<rparr>))))"

definition add_line :: "conversions \<Rightarrow> log_line \<Rightarrow> pilot_summary \<Rightarrow> py_error + pilot_summary" where
  "add_line C l s =
     (case l of
        Garbled \<Rightarrow> Inr s
      | Parsed v \<Rightarrow> bind_err (as_dict v) (\<lambda>r.
          (let s1 = s\<lparr>pl_worker_id := get_or r ''worker_id'' (pl_worker_id s)\<rparr>; event = get_or r ''event'' JNull
           in if event = JStr ''tick'' then add_tick C r s1
              else if event = JStr ''result'' then add_result C r s1 else Inr s1)))"

fun add_lines :: "conversions \<Rightarrow> log_line list \<Rightarrow> pilot_summary \<Rightarrow> py_error + pilot_summary" where
  "add_lines C [] s = Inr s"
| "add_lines C (l # ls) s = bind_err (add_line C l s) (add_lines C ls)"

definition harvesting_pct :: "pilot_summary \<Rightarrow> int" where
  "harvesting_pct s = (if pl_ticks s \<noteq> 0 then 100 * pl_admitted s div pl_ticks s else 0)"

text \<open>\<open>sorted(results.items())\<close> compares the keys: strings with strings, numbers with numbers.\<close>

definition statuses_sortable :: "(json \<times> int) list \<Rightarrow> bool" where
  "statuses_sortable kvs \<longleftrightarrow> length kvs \<le> 1 \<or> list_all (\<lambda>(k, _). number_of k \<noteq> None) kvs \<or>
     list_all (\<lambda>(k, _). case k of JStr _ \<Rightarrow> True | _ \<Rightarrow> False) kvs"

text \<open>\<open>main\<close>: no log is no report; what the lines of a log raise is not caught.\<close>

definition pilot_main :: "conversions \<Rightarrow> log_line list option \<Rightarrow> py_error + pilot_summary option" where
  "pilot_main C file =
     (case file of
        None \<Rightarrow> Inr None
      | Some ls \<Rightarrow> bind_err (add_lines C ls empty_summary) (\<lambda>s.
          if statuses_sortable (pl_statuses s) then Inr (Some s) else Inl (TypeError ''< not supported'')))"

section \<open>Availability from an old log\<close>

definition MAX_LEGACY_TELEMETRY_BYTES :: int where "MAX_LEGACY_TELEMETRY_BYTES = 8 * 1024 * 1024"

text \<open>
  The file as it is read: it cannot be opened, or its size and its lines, which end early at bytes that
  are not UTF-8. \<open>timestamp\<close> is \<open>datetime.fromisoformat(text).timestamp()\<close>, whose \<open>OSError\<close> ends the reading.
\<close>

datatype log_text = No_Log | Log int "log_line list" bool   \<comment> \<open>size, lines, decodes to the end\<close>

definition utc_offset :: "str \<Rightarrow> str" where
  "utc_offset s = concat (map (\<lambda>c. if c = CHR ''Z'' then ''+00:00'' else [c]) s)"

fun old_timestamps :: "conversions \<Rightarrow> (str \<Rightarrow> py_error + pyfloat) \<Rightarrow> log_line list \<Rightarrow> py_error + pyfloat list" where
  "old_timestamps C timestamp [] = Inr []"
| "old_timestamps C timestamp (l # ls) =
     (let rest = old_timestamps C timestamp ls
      in case l of
           Parsed (JObj r) \<Rightarrow>
             if get_or r ''event'' JNull \<noteq> JStr ''measure'' then rest
             else (case timestamp (utc_offset (to_str C (get_or r ''ts'' (JStr [])))) of
                     Inl (OtherError e) \<Rightarrow> Inl (OtherError e)
                   | Inl _ \<Rightarrow> rest
                   | Inr t \<Rightarrow> bind_err rest (\<lambda>ts. Inr (t # ts)))
         | _ \<Rightarrow> rest)"

definition availability_tracker_from_telemetry ::
  "conversions \<Rightarrow> (str \<Rightarrow> py_error + pyfloat) \<Rightarrow> log_text \<Rightarrow> pyfloat \<Rightarrow> py_error + tracker" where
  "availability_tracker_from_telemetry C timestamp file interval =
     (case file of
        No_Log \<Rightarrow> Inr fresh_tracker
      | Log bytes ls whole \<Rightarrow>
          if MAX_LEGACY_TELEMETRY_BYTES < bytes then Inr fresh_tracker
          else (case old_timestamps C timestamp ls of
                  Inl e \<Rightarrow> if e = OtherError ''OSError'' then Inr fresh_tracker else Inl e
                | Inr ts \<Rightarrow> Inr (if whole then tracker_from_timestamps ts interval else fresh_tracker)))"

definition infer_telemetry_availability ::
  "conversions \<Rightarrow> (str \<Rightarrow> py_error + pyfloat) \<Rightarrow> log_text \<Rightarrow> pyfloat \<Rightarrow> py_error + availability" where
  "infer_telemetry_availability C timestamp file interval =
     bind_err (availability_tracker_from_telemetry C timestamp file interval)
       (\<lambda>t. Inr (summarize_availability t ''telemetry''))"

section \<open>What the summary says of a run\<close>

text \<open>One event of a worker's life: a pass of the loop that logged a tick, or a result.\<close>

datatype logged = Tick str str worker_gate bool | Result str result_request

fun record_of :: "(rat \<Rightarrow> rat) \<Rightarrow> str \<Rightarrow> logged \<Rightarrow> dict" where
  "record_of round3 w (Tick ts boundary G admitted) = tick_record ts w boundary G admitted"
| "record_of round3 w (Result ts rr) = result_record round3 ts w rr"

text \<open>A tick of the adaptive gate shows what the gate decided: what \<open>should_run\<close> returns is what it records.\<close>

fun consistent :: "logged \<Rightarrow> bool" where
  "consistent (Tick ts boundary (Adaptive g) admitted) =
     (case gv_last_decision g of NoDecision \<Rightarrow> True | Refused _ \<Rightarrow> \<not> admitted | Decided a _ _ _ \<Rightarrow> a = admitted)"
| "consistent _ = True"

lemma admits_consistent: "gate_admits r G = (G', admitted) \<Longrightarrow> consistent (Tick ts boundary G' admitted)"
  by (cases G) (auto simp: gate_admits_def should_run_def Let_def split: prod.splits if_splits)

fun is_tick :: "logged \<Rightarrow> bool" where
  "is_tick (Tick _ _ _ _) = True" | "is_tick (Result _ _) = False"

fun was_admitted :: "logged \<Rightarrow> bool" where
  "was_admitted (Tick _ _ _ admitted) = admitted" | "was_admitted (Result _ _) = False"

fun units_logged :: "logged \<Rightarrow> int" where
  "units_logged (Tick _ _ _ _) = 0" | "units_logged (Result _ rr) = rs_units rr"

fun status_logged :: "logged \<Rightarrow> str option" where
  "status_logged (Tick _ _ _ _) = None" | "status_logged (Result _ rr) = Some (status_name (rs_status rr))"

lemma snapshot_admitted:
  assumes "consistent (Tick ts boundary G admitted)"
  shows "dict_get (snapshot_fields G admitted) ''admitted'' = Some (JBool admitted)"
  using assms
  by (cases G) (auto simp: snapshot_fields_def decision_fields_def Let_def dict_get_def split: decision.splits)

lemma snapshot_cpu:
  "\<exists>x. dict_get (snapshot_fields G admitted) ''user_cpu'' = x \<and> (x = None \<or> (\<exists>d. x = Some (JFloat (Fin d))))"
  by (cases G) (auto simp: snapshot_fields_def decision_fields_def Let_def dict_get_def split: decision.splits)

lemma dict_get_Cons: "dict_get ((k, v) # d) c = (if k = c then Some v else dict_get d c)"
  by (simp add: dict_get_def)

lemma add_tick_record:
  assumes "consistent (Tick ts boundary G admitted)"
  shows "\<exists>cpus. add_line C (Parsed (JObj (tick_record ts w boundary G admitted))) s =
    Inr (s\<lparr>pl_worker_id := JStr w, pl_ticks := pl_ticks s + 1, pl_admitted := pl_admitted s + (if admitted then 1 else 0),
           pl_user_cpus := cpus\<rparr>)"
proof -
  note adm = snapshot_admitted [OF assms]
  obtain x where x: "dict_get (snapshot_fields G admitted) ''user_cpu'' = x" "x = None \<or> (\<exists>d. x = Some (JFloat (Fin d)))"
    using snapshot_cpu by blast
  from x(2) show ?thesis
    by (elim disjE exE) (auto simp: add_line_def add_tick_def tick_record_def log_record_def bind_err_def Let_def get_or_def
        dict_get_Cons adm x(1) intro: exI [of _ "pl_user_cpus s"] exI [of _ "pl_user_cpus s @ [_]"])
qed

lemma add_result_record:
  "add_line C (Parsed (JObj (result_record round3 ts w rr))) s =
    Inr (s\<lparr>pl_worker_id := JStr w, pl_units := pl_units s + rs_units rr,
           pl_duration := pf_add (pl_duration s) (Fin (round3 (or_zero (rs_duration_s rr)))),
           pl_statuses := tally (JStr (status_name (rs_status rr))) (pl_statuses s)\<rparr>)"
  by (cases s) (simp add: add_line_def add_result_def result_record_def log_record_def bind_err_def Let_def get_or_def dict_get_Cons
      or_0_def int_to_float_def float_max_def)

definition occurs :: "str \<Rightarrow> logged list \<Rightarrow> int" where
  "occurs st es = int (length (filter (\<lambda>e. status_logged e = Some st) es))"

text \<open>The tally of a list of texts: every text with how often it occurs.\<close>

definition tallies :: "(json \<times> int) list \<Rightarrow> (str \<Rightarrow> int) \<Rightarrow> bool" where
  "tallies kvs f \<longleftrightarrow> (\<forall>(k, n) \<in> set kvs. \<exists>st. k = JStr st) \<and>
     (\<forall>st. map_of kvs (JStr st) = (if f st = 0 then None else Some (f st)))"

lemma same_key_str [simp]: "same_key (JStr a) (JStr b) \<longleftrightarrow> a = b"
  by (simp add: same_key_def)

lemma tally_step:
  "tallies kvs f \<Longrightarrow> \<forall>st. 0 \<le> f st \<Longrightarrow> tallies (tally (JStr a) kvs) (f(a := f a + 1))"
proof -
  assume t: "tallies kvs f" and pos: "\<forall>st. 0 \<le> f st"
  have keys: "\<forall>(k, n) \<in> set kvs. \<exists>st. k = JStr st" using t by (simp add: tallies_def)
  have "map_of (tally (JStr a) kvs) (JStr st) =
      (if st = a then Some (case map_of kvs (JStr a) of None \<Rightarrow> 1 | Some n \<Rightarrow> n + 1) else map_of kvs (JStr st))" for st
    using keys by (induction kvs) auto
  moreover have "\<forall>(k, n) \<in> set (tally (JStr a) kvs). \<exists>st. k = JStr st"
    using keys by (induction kvs) (auto split: if_splits)
  moreover have "f a + 1 \<noteq> 0" using pos by (simp add: add_nonneg_eq_0_iff)
  ultimately show ?thesis using t by (auto simp: tallies_def)
qed

lemma add_lines_logged:
  assumes "\<forall>e \<in> set es. consistent e" "filter (\<lambda>l. l \<noteq> Garbled) ls = map (\<lambda>e. Parsed (JObj (record_of round3 w e))) es"
    "tallies (pl_statuses s) f" "\<forall>st. 0 \<le> f st"
  shows "\<exists>s'. add_lines C ls s = Inr s' \<and> pl_ticks s' = pl_ticks s + int (length (filter is_tick es)) \<and>
    pl_admitted s' = pl_admitted s + int (length (filter was_admitted es)) \<and>
    pl_units s' = pl_units s + sum_list (map units_logged es) \<and> tallies (pl_statuses s') (\<lambda>st. f st + occurs st es) \<and>
    pl_worker_id s' = (if es = [] then pl_worker_id s else JStr w)"
  using assms
proof (induction ls arbitrary: es s f)
  case Nil
  then show ?case by (simp add: occurs_def)
next
  case (Cons l ls)
  show ?case
  proof (cases "l = Garbled")
    case True
    then show ?thesis using Cons.IH [of es s f] Cons.prems by (simp add: add_line_def bind_err_def)
  next
    case False
    then obtain e es' where es: "es = e # es'" "l = Parsed (JObj (record_of round3 w e))"
      "filter (\<lambda>l. l \<noteq> Garbled) ls = map (\<lambda>e. Parsed (JObj (record_of round3 w e))) es'"
      using Cons.prems(2) by (cases es) auto
    show ?thesis
    proof (cases e)
      case (Tick ts boundary G admitted)
      obtain cpus where step: "add_line C l s = Inr (s\<lparr>pl_worker_id := JStr w, pl_ticks := pl_ticks s + 1,
          pl_admitted := pl_admitted s + (if admitted then 1 else 0), pl_user_cpus := cpus\<rparr>)" (is "_ = Inr ?s")
        using add_tick_record [of ts boundary G admitted C w s] Cons.prems(1) es Tick by auto
      have "tallies (pl_statuses ?s) f" using Cons.prems(3) by simp
      with Cons.IH [OF _ es(3) this Cons.prems(4)] Cons.prems(1) es(1)
      obtain s' where "add_lines C ls ?s = Inr s'" "pl_ticks s' = pl_ticks ?s + int (length (filter is_tick es'))"
        "pl_admitted s' = pl_admitted ?s + int (length (filter was_admitted es'))"
        "pl_units s' = pl_units ?s + sum_list (map units_logged es')" "tallies (pl_statuses s') (\<lambda>st. f st + occurs st es')"
        "pl_worker_id s' = (if es' = [] then pl_worker_id ?s else JStr w)" by auto
      then show ?thesis using step es Tick by (auto simp: bind_err_def occurs_def)
    next
      case (Result ts rr)
      have step: "add_line C l s = Inr (s\<lparr>pl_worker_id := JStr w, pl_units := pl_units s + rs_units rr,
          pl_duration := pf_add (pl_duration s) (Fin (round3 (or_zero (rs_duration_s rr)))),
          pl_statuses := tally (JStr (status_name (rs_status rr))) (pl_statuses s)\<rparr>)" (is "_ = Inr ?s")
        using add_result_record [of C round3 ts w rr s] es Result by simp
      let ?st = "status_name (rs_status rr)"
      have "tallies (pl_statuses ?s) (f(?st := f ?st + 1))" "\<forall>st. 0 \<le> (f(?st := f ?st + 1)) st"
        using tally_step Cons.prems(3,4) by auto
      with Cons.IH [OF _ es(3) this] Cons.prems(1) es(1)
      obtain s' where s': "add_lines C ls ?s = Inr s'" "pl_ticks s' = pl_ticks ?s + int (length (filter is_tick es'))"
        "pl_admitted s' = pl_admitted ?s + int (length (filter was_admitted es'))"
        "pl_units s' = pl_units ?s + sum_list (map units_logged es')"
        "tallies (pl_statuses s') (\<lambda>st. (f(?st := f ?st + 1)) st + occurs st es')"
        "pl_worker_id s' = (if es' = [] then pl_worker_id ?s else JStr w)" by auto
      have "(\<lambda>st. (f(?st := f ?st + 1)) st + occurs st es') = (\<lambda>st. f st + occurs st es)"
        using es(1) Result by (auto simp: occurs_def)
      then show ?thesis using step es Result s' by (auto simp: bind_err_def)
    qed
  qed
qed

lemma tallies_empty: "tallies [] (\<lambda>_. 0)"
  by (simp add: tallies_def)

lemma tallies_sortable: "tallies kvs f \<Longrightarrow> statuses_sortable kvs"
  by (auto simp: tallies_def statuses_sortable_def list_all_iff split: json.splits)

text \<open>
  The report of a log is the report of the run that wrote it: it counts every tick, every admission,
  every result by status and every unit, also when some lines were cut short by a crash.
\<close>

theorem report_matches_run:
  assumes "\<forall>e \<in> set es. consistent e"
    "filter (\<lambda>l. l \<noteq> Garbled) ls = map (\<lambda>e. Parsed (JObj (record_of round3 w e))) es"
  shows "\<exists>s. pilot_main C (Some ls) = Inr (Some s) \<and> pl_ticks s = int (length (filter is_tick es)) \<and>
    pl_admitted s = int (length (filter was_admitted es)) \<and> pl_units s = sum_list (map units_logged es) \<and>
    (\<forall>st. map_of (pl_statuses s) (JStr st) = (if occurs st es = 0 then None else Some (occurs st es))) \<and>
    0 \<le> harvesting_pct s \<and> harvesting_pct s \<le> 100"
proof -
  have "tallies (pl_statuses empty_summary) (\<lambda>_. 0)" by (simp add: empty_summary_def tallies_empty)
  from add_lines_logged [OF assms this, of C] obtain s where s: "add_lines C ls empty_summary = Inr s"
    "pl_ticks s = int (length (filter is_tick es))" "pl_admitted s = int (length (filter was_admitted es))"
    "pl_units s = sum_list (map units_logged es)" "tallies (pl_statuses s) (\<lambda>st. occurs st es)"
    by (auto simp: empty_summary_def)
  have le: "length (filter was_admitted es) \<le> length (filter is_tick es)"
  proof (induction es)
    case (Cons e es)
    then show ?case by (cases e) auto
  qed simp
  have "0 \<le> harvesting_pct s" using s(2,3) by (auto simp: harvesting_pct_def pos_imp_zdiv_nonneg_iff)
  moreover have "harvesting_pct s \<le> 100"
  proof (cases "pl_ticks s = 0")
    case False
    then have "0 < pl_ticks s" using s(2) by simp
    moreover have "100 * pl_admitted s \<le> 100 * pl_ticks s" using s(2,3) le by simp
    ultimately have "100 * pl_admitted s div pl_ticks s \<le> 100 * pl_ticks s div pl_ticks s" by (intro zdiv_mono1)
    then show ?thesis using False by (simp add: harvesting_pct_def)
  qed (simp add: harvesting_pct_def)
  ultimately show ?thesis using s tallies_sortable [OF s(5)]
    by (auto simp: pilot_main_def bind_err_def tallies_def)
qed

text \<open>A line that is JSON but not an object, which the handler of bad lines does not see, ends the report.\<close>

lemma non_object_line_crashes:
  assumes "add_lines C before empty_summary = Inr s" "\<forall>d. v \<noteq> JObj d"
  shows "pilot_main C (Some (before @ Parsed v # after)) = Inl (OtherError ''AttributeError'')"
proof -
  have "add_lines C (before @ ls) s0 = bind_err (add_lines C before s0) (add_lines C ls)" for ls s0
    by (induction before arbitrary: s0) (auto simp: bind_err_def split: sum.splits)
  moreover have "add_line C (Parsed v) s = Inl (OtherError ''AttributeError'')"
    using assms(2) by (cases v) (auto simp: add_line_def bind_err_def)
  ultimately show ?thesis using assms(1) by (simp add: pilot_main_def bind_err_def)
qed

section \<open>Availability does not depend on the order of the lines\<close>

definition time_of :: "conversions \<Rightarrow> (str \<Rightarrow> py_error + pyfloat) \<Rightarrow> log_line \<Rightarrow> pyfloat option" where
  "time_of C timestamp l =
     (case l of
        Parsed (JObj r) \<Rightarrow>
          if get_or r ''event'' JNull \<noteq> JStr ''measure'' then None
          else (case timestamp (utc_offset (to_str C (get_or r ''ts'' (JStr [])))) of Inr t \<Rightarrow> Some t | Inl _ \<Rightarrow> None)
      | _ \<Rightarrow> None)"

lemma old_timestamps_plain:
  assumes "\<And>t e. timestamp t \<noteq> Inl (OtherError e)"
  shows "old_timestamps C timestamp ls = Inr (List.map_filter (time_of C timestamp) ls)"
proof (induction ls)
  case Nil
  then show ?case by (simp add: List.map_filter_def)
next
  case (Cons l ls)
  show ?case
  proof (cases "\<exists>r. l = Parsed (JObj r)")
    case True
    then obtain r where l: "l = Parsed (JObj r)" by blast
    show ?thesis
    proof (cases "timestamp (utc_offset (to_str C (get_or r ''ts'' (JStr []))))")
      case (Inl e)
      then show ?thesis using Cons assms by (cases e) (auto simp: l time_of_def List.map_filter_def Let_def)
    next
      case (Inr t)
      then show ?thesis using Cons by (auto simp: l time_of_def List.map_filter_def Let_def bind_err_def)
    qed
  next
    case False
    then have "time_of C timestamp l = None" "old_timestamps C timestamp (l # ls) = old_timestamps C timestamp ls"
      by (auto simp: time_of_def Let_def split: log_line.splits json.splits)
    then show ?thesis using Cons by (simp add: List.map_filter_def)
  qed
qed

lemma mset_map_filter: "mset xs = mset ys \<Longrightarrow> mset (List.map_filter f xs) = mset (List.map_filter f ys)"
  unfolding List.map_filter_def by (metis mset_filter mset_map)

lemma tracker_of_mset:
  assumes "mset ts = mset us"
  shows "tracker_from_timestamps ts i = tracker_from_timestamps us i"
proof -
  let ?valid = "\<lambda>ts :: pyfloat list. filter (\<lambda>x. 0 < x) (map (\<lambda>v. nonnegative_float v 0) ts)"
  have "mset (?valid ts) = mset (?valid us)" using assms by (metis mset_filter mset_map)
  then have "sort (?valid ts) = sort (?valid us)" by (intro properties_for_sort) simp_all
  then show ?thesis by (simp add: tracker_from_timestamps_def Let_def)
qed

lemma old_log_order_irrelevant:
  assumes "\<And>t e. timestamp t \<noteq> Inl (OtherError e)" "mset ls = mset ls'"
  shows "availability_tracker_from_telemetry C timestamp (Log n ls True) i = availability_tracker_from_telemetry C timestamp (Log n ls' True) i"
  using tracker_of_mset [OF mset_map_filter [OF assms(2), of "time_of C timestamp"], of i]
  by (simp add: availability_tracker_from_telemetry_def old_timestamps_plain [OF assms(1)])

lemma old_log_tracker_ok: "availability_tracker_from_telemetry C timestamp file i = Inr t \<Longrightarrow> tracker_ok t"
  by (auto simp: availability_tracker_from_telemetry_def fresh_tracker_ok tracker_from_timestamps_ok
      split: log_text.splits sum.splits if_splits)

end
