(* ===== verification/Case_Report.thy ===== *)
theory Case_Report imports Measure_Report Telemetry begin

text \<open>
  \<open>src/scripts/business_case.py\<close> from the files it is given to the figures it prints: one profile or a folder
  of them, the timing of an old event log where that covers more, the clamped options, and the projection
  of every chosen device class. Only the layout of the text is left out. The lemmas show that no files and
  no options make a range run backwards or a class's awake value exceed its potential, that a folder is
  read in one order, and that a profile that measured nothing is projected all the same.
\<close>

section \<open>Options\<close>

record case_args =
  ka_device_class :: str
  ka_count :: "int option"
  ka_cores :: "rat option"
  ka_price :: "rat option"
  ka_always_on :: bool
  ka_awake_hours :: "pyfloat option"
  ka_unavailable_hours :: "pyfloat option"
  ka_ac :: "pyfloat option"
  ka_awake_only :: bool
  ka_wakeable_fraction :: pyfloat
  ka_wake_cpu_fraction :: pyfloat

definition default_case_args :: case_args where
  "default_case_args =
     \<lparr>ka_device_class = ''all'', ka_count = None, ka_cores = None, ka_price = None, ka_always_on = False,
      ka_awake_hours = None, ka_unavailable_hours = None, ka_ac = None, ka_awake_only = False,
      ka_wakeable_fraction = Fin DEFAULT_WAKEABLE_FRACTION, ka_wake_cpu_fraction = Fin DEFAULT_WAKE_CPU_FRACTION\<rparr>"

text \<open>\<open>max(0.0, min(upper, v))\<close>: a NaN compares false, so \<open>min\<close> keeps its first argument.\<close>

definition clamp_arg :: "rat \<Rightarrow> pyfloat \<Rightarrow> pyfloat" where
  "clamp_arg upper v = Fin (case v of Fin x \<Rightarrow> max 0 (min upper x) | NegInf \<Rightarrow> 0 | _ \<Rightarrow> upper)"

definition clamped_args :: "case_args \<Rightarrow> case_args" where
  "clamped_args A =
     A\<lparr>ka_wakeable_fraction := clamp_arg 1 (ka_wakeable_fraction A),
       ka_wake_cpu_fraction := clamp_arg 1 (ka_wake_cpu_fraction A),
       ka_unavailable_hours := map_option (clamp_arg 24) (ka_unavailable_hours A)\<rparr>"

definition project_args :: "case_args \<Rightarrow> project_options" where
  "project_args A =
     \<lparr>po_awake_hours_per_day = ka_awake_hours A, po_ac_fraction = ka_ac A,
      po_unavailable_hours_per_day = ka_unavailable_hours A, po_include_unavailable = (\<not> ka_awake_only A),
      po_wakeable_fraction = ka_wakeable_fraction A, po_wake_cpu_fraction = ka_wake_cpu_fraction A\<rparr>"

section \<open>The measured summary\<close>

text \<open>\<open>summarize_profile\<close> of one file with the timing the file holds.\<close>

definition case_summary :: "conversions \<Rightarrow> device_profile \<Rightarrow> py_error + device_summary" where
  "case_summary C d =
     bind_err (tracker_from_dict C (dp_availability d)) (\<lambda>t.
       (let p = summarize_profile DEFAULT_MARGIN_PCT DEFAULT_HARVEST_LOW DEFAULT_HARVEST_HIGH
              (declared_gpu (dp_gpu_supported d)) (dp_populated d)
        in Inr \<lparr>ds_profile = p, ds_coverage = of_nat (su_coverage p),
             ds_availability = Some (summarize_availability t ''profile'')\<rparr>))"

text \<open>Every usable file of a folder; \<open>load_profile\<close> makes the same checks here as in the pilot report.\<close>

fun case_summaries :: "conversions \<Rightarrow> (str \<Rightarrow> str) \<Rightarrow> (str \<times> profile_file) list \<Rightarrow> py_error + device_summary list" where
  "case_summaries C stem [] = Inr []"
| "case_summaries C stem ((p, f) # files) =
     bind_err (load_profile C stem p f) (\<lambda>profile.
       case profile of
         None \<Rightarrow> case_summaries C stem files
       | Some d \<Rightarrow> bind_err (case_summary C d) (\<lambda>s. bind_err (case_summaries C stem files) (\<lambda>ss. Inr (s # ss))))"

definition contributes :: "device_summary \<Rightarrow> bool" where
  "contributes s \<longleftrightarrow> 0 < su_coverage (ds_profile s)"

text \<open>
  The average contributing device. The dictionary has no whole-number coverage and no flag for GPU samples;
  \<open>project\<close> reads neither.
\<close>

definition average_device :: "(rat \<Rightarrow> rat) \<Rightarrow> device_summary list \<Rightarrow> device_summary" where
  "average_device round1 ss =
     (let agg = aggregate DEFAULT_HARVEST_LOW DEFAULT_HARVEST_HIGH (map ds_profile ss)
      in \<lparr>ds_profile = \<lparr>su_coverage = fu_total_coverage agg, su_cpu = fu_cpu agg, su_gpu = fu_gpu agg,
            su_gpu_sampled = (0 < fu_gpu_device_count agg), su_ram_avg = fu_ram_avg agg, su_ram_peak = 0,
            su_ram_headroom = fu_ram_headroom agg, su_ac_avg = fu_ac_avg agg, su_idle_avg = fu_idle_avg agg\<rparr>,
          ds_coverage = fdiv (of_nat (fu_total_coverage agg)) (of_nat (max 1 (fu_device_count agg))),
          ds_availability = Some (aa_mean (aggregate_availability round1
            (List.map_filter ds_availability (filter contributes ss))))\<rparr>)"

text \<open>The timing of an event log replaces the profile's where it spans more.\<close>

definition longer_timing :: "availability \<Rightarrow> device_summary \<Rightarrow> device_summary" where
  "longer_timing inferred s =
     (if (case ds_availability s of None \<Rightarrow> 0 | Some a \<Rightarrow> av_span_seconds a) < av_span_seconds inferred
      then s\<lparr>ds_availability := Some inferred\<rparr> else s)"

record case_env =
  kv_conversions :: conversions
  kv_stem :: "str \<Rightarrow> str"
  kv_round1 :: "rat \<Rightarrow> rat"
  kv_timestamp :: "str \<Rightarrow> py_error + pyfloat"
  kv_given_log :: "log_text option"      \<comment> \<open>\<open>--telemetry\<close>\<close>
  kv_side_log :: log_text                \<comment> \<open>\<open>pilot-telemetry.jsonl\<close> beside the profile\<close>

definition with_log :: "case_env \<Rightarrow> log_text \<Rightarrow> device_summary \<Rightarrow> py_error + device_summary option" where
  "with_log V file s =
     bind_err (infer_telemetry_availability (kv_conversions V) (kv_timestamp V) file (Fin DEFAULT_EXPECTED_INTERVAL_SECONDS))
       (\<lambda>inferred. Inr (Some (longer_timing inferred s)))"

text \<open>\<open>_load_summary\<close>; a path that does not exist never gets here.\<close>

definition load_summary :: "case_env \<Rightarrow> report_target \<Rightarrow> py_error + device_summary option" where
  "load_summary V t =
     (case t of
        Folder files \<Rightarrow>
          bind_err (case_summaries (kv_conversions V) (kv_stem V) (sort_key fst files)) (\<lambda>ss.
            if filter contributes ss = [] then Inr None
            else (let s = average_device (kv_round1 V) ss
                  in case kv_given_log V of None \<Rightarrow> Inr (Some s) | Some file \<Rightarrow> with_log V file s))
      | OneFile (p, f) \<Rightarrow>
          bind_err (load_profile (kv_conversions V) (kv_stem V) p f) (\<lambda>profile.
            case profile of
              None \<Rightarrow> Inr None
            | Some d \<Rightarrow> bind_err (case_summary (kv_conversions V) d)
                (with_log V (case kv_given_log V of None \<Rightarrow> kv_side_log V | Some file \<Rightarrow> file)))
      | Absent _ \<Rightarrow> Inr None)"

section \<open>The figures\<close>

record case_report =
  ke_classes :: "device_class list"
  ke_per_class :: "projection list"
  ke_total_low :: rat
  ke_total_high :: rat
  ke_deployable_low :: rat
  ke_deployable_high :: rat
  ke_awake_display :: pyfloat
  ke_unavailable_display :: pyfloat
  ke_timing_source :: str
  ke_preliminary :: bool
  ke_ac_shown :: pyfloat

definition format_report :: "device_summary \<Rightarrow> device_class list \<Rightarrow> case_args \<Rightarrow> case_report" where
  "format_report s cs A =
     (let (measured_awake, measured_unavailable, timing_source) = measured_availability_hours_per_day s;
          per_class = map (\<lambda>d. project s d (project_args A)) cs;
          span_hours = fdiv (case ds_availability s of None \<Rightarrow> 0 | Some a \<Rightarrow> av_span_seconds a) 3600
      in \<lparr>ke_classes = cs, ke_per_class = per_class,
          ke_total_low = py_sum (map pj_savings_usd_year_low per_class),
          ke_total_high = py_sum (map pj_savings_usd_year_high per_class),
          ke_deployable_low = py_sum (map2 (\<lambda>d p. yearly_value d (pj_awake_vcpu_hours_day_low p)) cs per_class),
          ke_deployable_high = py_sum (map2 (\<lambda>d p. yearly_value d (pj_awake_vcpu_hours_day_high p)) cs per_class),
          ke_awake_display = or_given (ka_awake_hours A) (Fin measured_awake),
          ke_unavailable_display = or_given (ka_unavailable_hours A) (Fin measured_unavailable),
          ke_timing_source = timing_source,
          ke_preliminary = (timing_source \<noteq> ''coverage'' \<and> span_hours < 168),
          ke_ac_shown = (case ka_ac A of Some v \<Rightarrow> pf_mul v (Fin 100) | None \<Rightarrow> Fin (su_ac_avg (ds_profile s)))\<rparr>)"

text \<open>\<open>_m\<close>: the number shown, its decimals and its unit; small amounts get no unit.\<close>

definition shown_dollars :: "rat \<Rightarrow> rat \<times> nat \<times> str" where
  "shown_dollars x =
     (let a = \<bar>x\<bar>
      in if 10 ^ 9 \<le> a then (fdiv x (10 ^ 9), 2, ''B'')
         else if 10 ^ 6 \<le> a then (fdiv x (10 ^ 6), 1, ''M'')
         else if 10 ^ 5 \<le> a then (fdiv x (10 ^ 3), 0, ''k'')
         else (x, 0, []))"

text \<open>\<open>main\<close>; \<open>None\<close> is the parser's error exit.\<close>

definition case_main :: "case_env \<Rightarrow> case_args \<Rightarrow> report_target \<Rightarrow> py_error + case_report option" where
  "case_main V args t =
     (let A = clamped_args args
      in case classes (ka_device_class A) (ka_count A) (ka_cores A) (ka_price A) (ka_always_on A) of
           None \<Rightarrow> Inr None
         | Some cs \<Rightarrow> bind_err (load_summary V t) (\<lambda>loaded. Inr (map_option (\<lambda>s. format_report s cs A) loaded)))"

section \<open>No files and no options make a range run backwards\<close>

definition device_ok :: "device_summary \<Rightarrow> bool" where
  "device_ok s \<longleftrightarrow> forward (su_cpu (ds_profile s)) \<and> (case ds_availability s of None \<Rightarrow> True
     | Some a \<Rightarrow> f64.exact (av_observed_hours_per_day a) \<and> f64.exact (av_unavailable_hours_per_day a))"

lemma timing_exact:
  "f64.exact (av_observed_hours_per_day (summarize_availability t src))"
  "f64.exact (av_unavailable_hours_per_day (summarize_availability t src))"
  by (simp_all add: summarize_availability_def Let_def fmul_def)

lemma average_timing_exact:
  "f64.exact (av_observed_hours_per_day (aa_mean (aggregate_availability r as)))"
  "f64.exact (av_unavailable_hours_per_day (aa_mean (aggregate_availability r as)))"
  by (simp_all add: aggregate_availability_def Let_def timing_exact fmean_def fdiv_def)

lemma case_summary_ok: "case_summary C d = Inr s \<Longrightarrow> device_ok s"
  using summary_forward [OF harvest_bounds(1,2)] timing_exact
  by (auto simp: case_summary_def bind_err_Inr Let_def device_ok_def)

lemma case_summaries_ok: "case_summaries C stem files = Inr ss \<Longrightarrow> list_all device_ok ss"
  by (induction C stem files arbitrary: ss rule: case_summaries.induct)
    (auto simp: bind_err_Inr case_summary_ok split: option.splits)

lemma average_device_ok:
  assumes "list_all device_ok ss"
  shows "device_ok (average_device r ss)"
proof -
  have "forward (fu_cpu (aggregate DEFAULT_HARVEST_LOW DEFAULT_HARVEST_HIGH (map ds_profile ss)))"
    unfolding aggregate_def Let_def
    using assms harvest_bounds(1,2)
    by (auto simp: empty_metric_forward list_all_iff device_ok_def intro!: fleet_metric_forward)
  then show ?thesis by (simp add: average_device_def Let_def device_ok_def average_timing_exact)
qed

lemma with_log_ok: "with_log V file s = Inr (Some s') \<Longrightarrow> device_ok s \<Longrightarrow> device_ok s'"
  by (auto simp: with_log_def infer_telemetry_availability_def bind_err_Inr longer_timing_def device_ok_def timing_exact
      split: if_splits)

lemma load_summary_ok:
  assumes "load_summary V t = Inr (Some s)"
  shows "device_ok s"
proof (cases t)
  case (Folder files)
  then obtain ss where ss: "case_summaries (kv_conversions V) (kv_stem V) (sort_key fst files) = Inr ss"
    "s = average_device (kv_round1 V) ss \<or> (\<exists>file. with_log V file (average_device (kv_round1 V) ss) = Inr (Some s))"
    using assms by (auto simp: load_summary_def bind_err_Inr Let_def split: if_splits option.splits)
  show ?thesis using ss(2) average_device_ok [OF case_summaries_ok [OF ss(1)]] with_log_ok by blast
next
  case (OneFile pf)
  then obtain d s0 l where "case_summary (kv_conversions V) d = Inr s0" "with_log V l s0 = Inr (Some s)"
    using assms by (cases pf) (auto simp: load_summary_def bind_err_Inr split: option.splits)
  then show ?thesis using case_summary_ok with_log_ok by blast
next
  case (Absent p)
  then show ?thesis using assms by (simp add: load_summary_def)
qed

text \<open>The numbers on the command line are doubles, and overrides of fleet size, cores and price are not negative.\<close>

definition args_ok :: "case_args \<Rightarrow> bool" where
  "args_ok A \<longleftrightarrow> pred_option float_value (ka_awake_hours A) \<and> pred_option float_value (ka_unavailable_hours A) \<and>
     pred_option (\<lambda>n. 0 \<le> n) (ka_count A) \<and> pred_option (\<lambda>x. 0 \<le> x) (ka_cores A) \<and> pred_option (\<lambda>x. 0 \<le> x) (ka_price A)"

definition class_ok :: "device_class \<Rightarrow> bool" where
  "class_ok d \<longleftrightarrow> 0 \<le> dc_count d \<and> 0 \<le> dc_vcpu_cores d \<and> 0 \<le> dc_price_per_vcpu_hr d"

lemma defaults_ok: "(k, d) \<in> set DEVICE_DEFAULTS \<Longrightarrow> class_ok d"
  by (auto simp: DEVICE_DEFAULTS_def class_ok_def fl64_nonneg)

lemma classes_ok:
  assumes "classes c n cores price on = Some cs" "d \<in> set cs" "pred_option (\<lambda>n. 0 \<le> n) n"
    "pred_option (\<lambda>x. 0 \<le> x) cores" "pred_option (\<lambda>x. 0 \<le> x) price"
  shows "class_ok d"
proof (cases "c = ''all''")
  case True
  then show ?thesis using assms(1,2) defaults_ok by (auto simp: classes_def)
next
  case False
  then obtain e where e: "map_of DEVICE_DEFAULTS c = Some e"
    "d \<in> {e, \<lparr>dc_name = dc_name e, dc_count = or_given n (dc_count e), dc_vcpu_cores = or_given cores (dc_vcpu_cores e),
        dc_price_per_vcpu_hr = or_given price (dc_price_per_vcpu_hr e), dc_always_on = on \<or> dc_always_on e\<rparr>}"
    using assms(1,2) by (auto simp: classes_def split: if_splits)
  have "class_ok e" using e(1) by (intro defaults_ok map_of_SomeD)
  then show ?thesis using e(2) assms(3-5) by (auto simp: class_ok_def or_given_def split: option.split)
qed

lemma clamp_arg_float: "f64.exact upper \<Longrightarrow> float_value v \<Longrightarrow> float_value (clamp_arg upper v)"
  by (auto simp: clamp_arg_def float_value_def exact_max_min split: pyfloat.splits)

text \<open>
  Whatever profiles, logs and options the business case is computed from, every class it shows is credited
  with at most a day's hours per day, no range runs backwards, and what the present worker can execute is
  not shown above the wake-enabled potential.
\<close>

theorem business_case_is_coherent:
  assumes "case_main V args t = Inr (Some r)" "args_ok args"
  shows "length (ke_per_class r) = length (ke_classes r) \<and>
    (\<forall>(d, p) \<in> set (zip (ke_classes r) (ke_per_class r)).
       0 \<le> pj_harvest_hours_per_day p \<and> pj_harvest_hours_per_day p \<le> 24 \<and> 0 \<le> pj_savings_usd_year_low p \<and>
       pj_savings_usd_year_low p \<le> pj_savings_usd_year_high p \<and>
       yearly_value d (pj_awake_vcpu_hours_day_low p) \<le> pj_savings_usd_year_low p \<and>
       yearly_value d (pj_awake_vcpu_hours_day_high p) \<le> pj_savings_usd_year_high p)"
proof -
  let ?A = "clamped_args args"
  obtain cs s where cs: "classes (ka_device_class ?A) (ka_count ?A) (ka_cores ?A) (ka_price ?A) (ka_always_on ?A) = Some cs"
    and s: "load_summary V t = Inr (Some s)" and r: "r = format_report s cs ?A"
    using assms(1) by (auto simp: case_main_def Let_def bind_err_Inr split: option.splits)
  have ok: "class_ok d" if "d \<in> set cs" for d
    using classes_ok [OF cs that] assms(2) by (simp add: args_ok_def clamped_args_def)
  have inputs: "float_inputs s (project_args ?A)"
    using load_summary_ok [OF s] assms(2) clamp_arg_float [OF exact_24]
    by (auto simp: float_inputs_def project_args_def clamped_args_def device_ok_def args_ok_def pred_option_def split: option.splits)
  have lo: "0 \<le> ms_low (su_cpu (ds_profile s))" "ms_low (su_cpu (ds_profile s)) \<le> ms_high (su_cpu (ds_profile s))"
    using load_summary_ok [OF s] by (simp_all add: device_ok_def forward_def)
  have row: "0 \<le> pj_harvest_hours_per_day p \<and> pj_harvest_hours_per_day p \<le> 24 \<and> 0 \<le> pj_savings_usd_year_low p \<and>
       pj_savings_usd_year_low p \<le> pj_savings_usd_year_high p \<and>
       yearly_value d (pj_awake_vcpu_hours_day_low p) \<le> pj_savings_usd_year_low p \<and>
       yearly_value d (pj_awake_vcpu_hours_day_high p) \<le> pj_savings_usd_year_high p"
    if "d \<in> set cs" "p = project s d (project_args ?A)" for d p
    using projection_coherent [OF inputs lo] awake_value_within_potential [OF inputs] ok [OF that(1)] that(2)
    by (simp add: class_ok_def)
  have "ke_classes r = cs" "ke_per_class r = map (\<lambda>d. project s d (project_args ?A)) cs"
    by (simp_all add: r format_report_def Let_def case_prod_beta)
  then show ?thesis using row by (auto simp: zip_map2 zip_same_conv_map)
qed

section \<open>A profile that measured nothing\<close>

definition nothing_measured :: device_summary where
  "nothing_measured = \<lparr>ds_profile = summarize_profile DEFAULT_MARGIN_PCT DEFAULT_HARVEST_LOW DEFAULT_HARVEST_HIGH None [],
     ds_coverage = 0, ds_availability = Some (summarize_availability fresh_tracker ''profile'')\<rparr>"

definition assigned_laptops :: device_class where
  "assigned_laptops = snd (hd DEVICE_DEFAULTS)"

lemma nothing_hours:
  "hours_for nothing_measured assigned_laptops (project_args (clamped_args default_case_args)) = (0, 24, ''coverage'')"
proof -
  have t: "measured_availability_hours_per_day nothing_measured = (0, 24, ''coverage'')"
    by (simp add: measured_availability_hours_per_day_def nothing_measured_def summarize_availability_def fresh_tracker_def
        span_seconds_def measured_awake_hours_per_day_def fdiv_def fadd_def fsub_def Let_def)
  show ?thesis
    by (simp add: hours_for_def t assigned_laptops_def DEVICE_DEFAULTS_def project_args_def clamped_args_def default_case_args_def Let_def)
qed

lemma laptop_arithmetic:
  "fmul 24 1 = 24" "fmul (3 / 4) 12 = 9" "fmul 9 24 = 216" "fmul 216 365 = 78840" "fl64 200000 = 200000"
  "fmul 78840 200000 = 15768000000" "283 * 10 ^ 6 < fmul 15768000000 (fl64 (18 / 1000))"
  by code_simp+

lemma nothing_is_worth_millions:
  "pj_wake_hours_per_day (project nothing_measured assigned_laptops (project_args (clamped_args default_case_args))) = 24"
  "283 * 10 ^ 6 < pj_savings_usd_year_low (project nothing_measured assigned_laptops (project_args (clamped_args default_case_args)))"
proof -
  let ?o = "project_args (clamped_args default_case_args)"
  have o: "bounded (po_wakeable_fraction ?o) 1 = 1" "bounded (po_wake_cpu_fraction ?o) 1 = 3 / 4" "po_include_unavailable ?o"
    "ac_for nothing_measured assigned_laptops ?o = 0"
    by (simp_all add: project_args_def clamped_args_def default_case_args_def clamp_arg_def bounded_def ac_for_def
        DEFAULT_WAKEABLE_FRACTION_def DEFAULT_WAKE_CPU_FRACTION_def assigned_laptops_def DEVICE_DEFAULTS_def
        nothing_measured_def summarize_profile_def fdiv_def)
  have d: "dc_vcpu_cores assigned_laptops = 12" "dc_count assigned_laptops = 200000" "\<not> dc_always_on assigned_laptops"
    "dc_price_per_vcpu_hr assigned_laptops = fl64 (18 / 1000)"
    by (simp_all add: assigned_laptops_def DEVICE_DEFAULTS_def)
  have low: "ms_low (su_cpu (ds_profile nothing_measured)) = 0"
    by (simp add: nothing_measured_def summarize_profile_def empty_metric_def Let_def)
  have zero: "fmul 0 x = 0" "fmul x 0 = 0" "fdiv 0 x = 0" "fadd 0 216 = 216" for x
    by (simp_all add: fmul_def fdiv_def fadd_def)
  show "pj_wake_hours_per_day (project nothing_measured assigned_laptops ?o) = 24"
    by (simp add: project_def nothing_hours o d laptop_arithmetic Let_def)
  show "283 * 10 ^ 6 < pj_savings_usd_year_low (project nothing_measured assigned_laptops ?o)"
    using laptop_arithmetic(7) by (simp add: project_def nothing_hours o d low zero DAYS_PER_YEAR_def laptop_arithmetic(1-6) Let_def)
qed

text \<open>
  A folder of profiles without a single sample is refused as unusable; the same file given by itself is
  projected, its missing hours counted as hours the machine could be woken for: over 283 million dollars a
  year for the assigned laptops.
\<close>

lemma unsampled_file_is_projected:
  fixes p n
  assumes "kv_given_log V = None" "kv_side_log V = No_Log" "n \<le> MAX_PROFILE_BYTES"
  defines "f \<equiv> (p, Decoded n (JObj [(''buckets'', JList [])]))"
  shows "case_main V default_case_args (Folder [f]) = Inr None"
    and "\<exists>r. case_main V default_case_args (OneFile f) = Inr (Some r) \<and>
      (\<exists>x ps. ke_per_class r = x # ps \<and> pj_wake_hours_per_day x = 24 \<and> 283 * 10 ^ 6 < pj_savings_usd_year_low x)"
proof -
  let ?d = "\<lparr>dp_path = p, dp_device = kv_stem V p, dp_populated = [], dp_gpu_supported = JNull, dp_availability = JNull\<rparr>"
  have l: "load_profile (kv_conversions V) (kv_stem V) p (Decoded n (JObj [(''buckets'', JList [])])) = Inr (Some ?d)"
    using assms(3) by (simp add: load_profile_def get_or_def dict_get_def normalize_buckets_def bind_err_def)
  have c: "case_summary (kv_conversions V) ?d = Inr nothing_measured"
    by (simp add: case_summary_def tracker_from_dict_def bind_err_def nothing_measured_def declared_gpu_def summarize_profile_def Let_def)
  have "\<not> contributes nothing_measured"
    by (simp add: contributes_def nothing_measured_def summarize_profile_def Let_def)
  then show "case_main V default_case_args (Folder [f]) = Inr None"
    using l c by (simp add: case_main_def clamped_args_def default_case_args_def classes_def load_summary_def f_def bind_err_def)
  have "longer_timing (summarize_availability fresh_tracker ''telemetry'') nothing_measured = nothing_measured"
    by code_simp
  then have "load_summary V (OneFile f) = Inr (Some nothing_measured)"
    using l c assms(1,2) by (simp add: load_summary_def f_def bind_err_def with_log_def infer_telemetry_availability_def
        availability_tracker_from_telemetry_def)
  moreover have "ka_device_class (clamped_args default_case_args) = ''all''"
    by (simp add: clamped_args_def default_case_args_def)
  ultimately show "\<exists>r. case_main V default_case_args (OneFile f) = Inr (Some r) \<and>
      (\<exists>x ps. ke_per_class r = x # ps \<and> pj_wake_hours_per_day x = 24 \<and> 283 * 10 ^ 6 < pj_savings_usd_year_low x)"
    using nothing_is_worth_millions
    by (simp add: case_main_def classes_def bind_err_def format_report_def Let_def case_prod_beta assigned_laptops_def DEVICE_DEFAULTS_def)
qed

end
