(* ===== verification/Submit_Client.thy ===== *)
theory Submit_Client imports Launch begin

text \<open>
  The submitting side: \<open>src/workloads/submit.py\<close>, \<open>src/workloads/gpu.py\<close> and
  \<open>scripts/submit_jobs.py\<close>. A job on its way is the JSON object the client posts; a key it leaves out
  is \<open>None\<close>. The client posts its jobs one after the other to the server of \<open>Submit\<close>, so a batch is
  composed here with the handler that answers it; what the network does to each exchange is a parameter.
\<close>

section \<open>Jobs on the client's side\<close>

record client_job =
  cj_kind :: str
  cj_input :: dict
  cj_requires :: "requires option"
  cj_limits :: "limits option"
  cj_data_classification :: "str option"
  cj_units :: "int option"

text \<open>The object a workload builder returns: \<open>kind\<close>, \<open>input\<close> and \<open>units\<close>.\<close>

definition built_job :: "job_spec \<Rightarrow> client_job" where
  "built_job spec =
     \<lparr>cj_kind = js_kind spec, cj_input = js_input spec, cj_requires = None, cj_limits = None,
      cj_data_classification = None, cj_units = Some (js_units spec)\<rparr>"

text \<open>\<open>SubmitRequest(..).model_dump()\<close>: every field of the model is a key of the object.\<close>

definition dumped_job :: "submit_request \<Rightarrow> client_job" where
  "dumped_job req =
     \<lparr>cj_kind = sr_kind req, cj_input = sr_input req, cj_requires = Some (sr_requires req),
      cj_limits = Some (sr_limits req), cj_data_classification = Some (sr_data_classification req),
      cj_units = Some (sr_units req)\<rparr>"

definition key_or :: "'a \<Rightarrow> 'a option \<Rightarrow> 'a" where
  "key_or d x = (case x of None \<Rightarrow> d | Some v \<Rightarrow> v)"

text \<open>What \<open>POST /jobs\<close> reads from the object: a key left out takes its default.\<close>

definition job_body :: "client_job \<Rightarrow> submit_request" where
  "job_body j =
     \<lparr>sr_kind = cj_kind j, sr_input = cj_input j,
      sr_requires = key_or default_requires (cj_requires j),
      sr_limits = key_or default_limits (cj_limits j),
      sr_data_classification = key_or ''internal'' (cj_data_classification j),
      sr_units = key_or 1 (cj_units j)\<rparr>"

definition generate_gpu_jobs :: "int \<Rightarrow> int \<Rightarrow> int \<Rightarrow> py_error + client_job list" where
  "generate_gpu_jobs n_jobs edge iters =
     check_arg (0 \<le> n_jobs) ''n_jobs must be non-negative''
     (check_arg (0 < edge \<and> 0 < iters) ''size and iters must be positive''
       (Inr (map (\<lambda>i. \<lparr>cj_kind = ''render'',
              cj_input = [(''size'', JInt edge), (''iters'', JInt iters), (''seed'', JInt i)],
              cj_requires = Some (default_requires\<lparr>rq_needs_gpu := True\<rparr>),
              cj_limits = Some (default_limits\<lparr>lm_timeout_s := 120\<rparr>),
              cj_data_classification = None, cj_units = Some iters\<rparr>) [0..n_jobs - 1])))"

text \<open>\<open>{"data_classification": classification, **job}\<close>: a key of the job itself wins.\<close>

definition stamp :: "str \<Rightarrow> client_job \<Rightarrow> client_job" where
  "stamp c j =
     j\<lparr>cj_data_classification := Some (key_or c (cj_data_classification j))\<rparr>"

section \<open>Posting\<close>

text \<open>What the network does to one exchange: it carries both ways, loses the request, or loses the answer.\<close>

datatype transit = Carried | Request_Lost | Answer_Lost

definition post_job ::
  "primitives \<Rightarrow> config \<Rightarrow> clock \<Rightarrow> str \<Rightarrow> transit \<Rightarrow> str option \<Rightarrow> client_job \<Rightarrow> db \<Rightarrow> db \<times> (py_error + str)" where
  "post_job P cf clk fresh net authorization j s =
     (if net = Request_Lost then (s, Inl (OtherError ''TransportError''))
      else case submit P cf clk fresh (job_body j) authorization s of
        (s', r) \<Rightarrow>
          (s', if net = Answer_Lost then Inl (OtherError ''TransportError'')
               else case r of
                 Inl _ \<Rightarrow> Inl (OtherError ''HTTPStatusError'')
               | Inr job_id \<Rightarrow>
                   if job_id = [] then Inl (ValueError ''POST /jobs response did not include a job_id'')
                   else Inr job_id))"

text \<open>\<open>[_post_job(client, job) for job in jobs]\<close>: the first exception ends the comprehension.\<close>

fun post_jobs ::
  "primitives \<Rightarrow> config \<Rightarrow> (nat \<Rightarrow> clock) \<Rightarrow> (nat \<Rightarrow> str) \<Rightarrow> (nat \<Rightarrow> transit) \<Rightarrow> str option \<Rightarrow> nat \<Rightarrow> client_job list
   \<Rightarrow> db \<Rightarrow> db \<times> (py_error + str list)" where
  "post_jobs P cf clk fresh net authorization i [] s = (s, Inr [])"
| "post_jobs P cf clk fresh net authorization i (j # js) s =
     (case post_job P cf (clk i) (fresh i) (net i) authorization j s of
        (s', Inl e) \<Rightarrow> (s', Inl e)
      | (s', Inr job_id) \<Rightarrow>
          (case post_jobs P cf clk fresh net authorization (Suc i) js s' of
             (s'', Inl e) \<Rightarrow> (s'', Inl e)
           | (s'', Inr ids) \<Rightarrow> (s'', Inr (job_id # ids))))"

definition stamped_jobs :: "str option \<Rightarrow> client_job list \<Rightarrow> client_job list" where
  "stamped_jobs classification jobs =
     (case classification of None \<Rightarrow> jobs | Some c \<Rightarrow> map (stamp c) jobs)"

text \<open>With a client of its own the caller's headers are sent (\<open>client = Some a\<close>); otherwise the token's.\<close>

definition sent_authorization :: "str option option \<Rightarrow> str option \<Rightarrow> str option" where
  "sent_authorization client token =
     (case client of
        Some a \<Rightarrow> a
      | None \<Rightarrow> (case token of None \<Rightarrow> None | Some t \<Rightarrow> if t = [] then None else Some (bearer @ t)))"

definition submit_all ::
  "primitives \<Rightarrow> config \<Rightarrow> (nat \<Rightarrow> clock) \<Rightarrow> (nat \<Rightarrow> str) \<Rightarrow> (nat \<Rightarrow> transit) \<Rightarrow> client_job list
   \<Rightarrow> str option option \<Rightarrow> str option \<Rightarrow> str option \<Rightarrow> db \<Rightarrow> db \<times> (py_error + str list)" where
  "submit_all P cf clk fresh net jobs client token classification =
     post_jobs P cf clk fresh net (sent_authorization client token) 0 (stamped_jobs classification jobs)"

section \<open>The command line\<close>

record submit_args =
  sa_kind :: str
  sa_n :: int
  sa_width :: int
  sa_height :: int
  sa_max_iter :: int
  sa_candidates :: int
  sa_dims :: int
  sa_rows :: int
  sa_items :: int
  sa_op :: str
  sa_token :: "str option"

definition default_submit_args :: submit_args where
  "default_submit_args =
     \<lparr>sa_kind = ''fanout'', sa_n = 3, sa_width = 1200, sa_height = 800, sa_max_iter = 256,
      sa_candidates = 200000, sa_dims = 8, sa_rows = 60, sa_items = 120, sa_op = ''square'', sa_token = None\<rparr>"

text \<open>The request for one integrity ringer, of which only the input is chosen at random.\<close>

definition challenge_request :: "int \<Rightarrow> submit_request" where
  "challenge_request r =
     \<lparr>sr_kind = ''challenge'', sr_input = fst (make_challenge r), sr_requires = default_requires,
      sr_limits = default_limits, sr_data_classification = ''internal'', sr_units = 1\<rparr>"

definition build_jobs :: "int \<Rightarrow> submit_args \<Rightarrow> py_error + client_job list" where
  "build_jobs r args =
     (let built = (\<lambda>x. bind_err x (\<lambda>specs. Inr (map built_job specs)))
      in if sa_kind args = ''fractal'' then
           built (build_fractal_jobs (sa_n args) (sa_width args) (sa_height args) (sa_max_iter args) None)
         else if sa_kind args = ''optimize'' then
           built (build_optimize_jobs (sa_n args) (sa_candidates args) (sa_dims args) 0 None)
         else if sa_kind args = ''synth'' then
           built (build_synth_jobs (sa_n args) (sa_rows args) None [] ''a software employee record'' None)
         else if sa_kind args = ''fanout'' then
           built (generate_jobs (sa_n args) (sa_items args) (sa_op args))
         else if sa_kind args = ''ai'' then built (build_prompt_jobs None 3 [] 48)
         else if sa_kind args = ''gpu'' then generate_gpu_jobs (sa_n args) 512 12
         else Inr [dumped_job (challenge_request r)])"

text \<open>\<open>main\<close>: the jobs are built outside the \<open>try\<close>, so a builder's exception leaves the program.\<close>

definition submit_main ::
  "primitives \<Rightarrow> config \<Rightarrow> (nat \<Rightarrow> clock) \<Rightarrow> (nat \<Rightarrow> str) \<Rightarrow> (nat \<Rightarrow> transit) \<Rightarrow> int \<Rightarrow> submit_args
   \<Rightarrow> db \<Rightarrow> db \<times> (py_error + int \<times> str list)" where
  "submit_main P cf clk fresh net r args s =
     (case build_jobs r args of
        Inl e \<Rightarrow> (s, Inl e)
      | Inr jobs \<Rightarrow>
          (case submit_all P cf clk fresh net jobs None (sa_token args) (Some ''public'') s of
             (s', Inl _) \<Rightarrow> (s', Inr (1, []))
           | (s', Inr ids) \<Rightarrow> (s', Inr (0, ids))))"

section \<open>What a batch leaves in the queue\<close>

text \<open>The row \<open>POST /jobs\<close> makes of an object.\<close>

definition queued_from :: "primitives \<Rightarrow> client_job \<Rightarrow> job \<Rightarrow> bool" where
  "queued_from P cj j \<longleftrightarrow> (\<exists>t t'. j = new_job (new_manifest P (job_body cj) None (jb_job_id j) t) (job_body cj) None t')"

lemma queued_from_fields:
  assumes "queued_from P cj j"
  shows "jb_kind j = cj_kind cj" "jb_input j = cj_input cj" "jb_units j = key_or 1 (cj_units cj)"
    "jb_state j = Queued" "jb_attempts j = 0"
    "mf_data_classification (jb_manifest j) = key_or ''internal'' (cj_data_classification cj)"
    "mf_requires (jb_manifest j) = key_or default_requires (cj_requires cj)"
proof -
  obtain t t' where j: "j = new_job (new_manifest P (job_body cj) None (jb_job_id j) t) (job_body cj) None t'"
    using assms by (auto simp: queued_from_def)
  show "jb_kind j = cj_kind cj" "jb_input j = cj_input cj" "jb_units j = key_or 1 (cj_units cj)"
    "jb_state j = Queued" "jb_attempts j = 0"
    "mf_data_classification (jb_manifest j) = key_or ''internal'' (cj_data_classification cj)"
    "mf_requires (jb_manifest j) = key_or default_requires (cj_requires cj)"
    by (subst j; simp add: new_job_def new_manifest_def job_body_def)+
qed

lemma built_job_body [simp]: "job_body (built_job spec) = spec_request spec"
  by (simp add: job_body_def built_job_def spec_request_def key_or_def)

lemma dumped_job_body [simp]: "job_body (dumped_job req) = req"
  by (simp add: job_body_def dumped_job_def key_or_def)

lemma submit_jobs_frame:
  assumes "submit P cf clk jid req a s = (s', r)"
  shows "db_workers s' = db_workers s" "db_ledger s' = db_ledger s"
    "r = Inl e \<Longrightarrow> db_jobs s' = db_jobs s"
    "r = Inr k \<Longrightarrow> k = jid \<and> find_job jid s = None \<and>
       db_jobs s' = db_jobs s @ [new_job (new_manifest P req None jid (clk 1)) req None (clk 2)]"
proof -
  have bad: "db_jobs s' = db_jobs s \<and> db_workers s' = db_workers s \<and> db_ledger s' = db_ledger s" if "r = Inl e" for e
    using submit_Inl_audited [of P cf clk jid req a s s' e] assms that by (auto simp: only_audited_def)
  have good: "k = jid \<and> find_job jid s = None \<and> db_workers s' = db_workers s \<and> db_ledger s' = db_ledger s \<and>
       db_jobs s' = db_jobs s @ [new_job (new_manifest P req None jid (clk 1)) req None (clk 2)]" if "r = Inr k" for k
    using assms that by (auto simp: submit_Inr enqueue_Inr)
  show "db_workers s' = db_workers s" "db_ledger s' = db_ledger s" using bad good by (cases r; blast)+
  show "r = Inl e \<Longrightarrow> db_jobs s' = db_jobs s" using bad by blast
  show "r = Inr k \<Longrightarrow> k = jid \<and> find_job jid s = None \<and>
       db_jobs s' = db_jobs s @ [new_job (new_manifest P req None jid (clk 1)) req None (clk 2)]" using good by blast
qed

text \<open>One exchange queues its job or nothing; the client learns of it unless the answer is lost.\<close>

lemma post_job_cases:
  assumes "post_job P cf clk jid net a cj s = (s', r)"
  obtains (unqueued) e where "r = Inl e" "db_jobs s' = db_jobs s" "db_workers s' = db_workers s" "db_ledger s' = db_ledger s"
  | (queued) j where "db_jobs s' = db_jobs s @ [j]" "queued_from P cj j" "jb_job_id j = jid" "find_job jid s = None"
      "db_workers s' = db_workers s" "db_ledger s' = db_ledger s"
      "r = Inr jid \<and> net = Carried \<or> (\<exists>e. r = Inl e) \<and> (net = Answer_Lost \<or> jid = [])"
proof (cases "net = Request_Lost")
  case True
  then have lost: "r = Inl (OtherError ''TransportError'')" "s' = s" using assms by (auto simp: post_job_def)
  show ?thesis by (rule unqueued [OF lost(1)]) (simp_all add: lost(2))
next
  case False
  obtain s1 x where sub: "submit P cf clk jid (job_body cj) a s = (s1, x)" by fastforce
  have s1: "s' = s1" using assms False sub by (simp add: post_job_def)
  note frame = submit_jobs_frame [OF sub]
  show ?thesis
  proof (cases x)
    case (Inl e)
    then obtain e' where "r = Inl e'" using assms False sub by (auto simp: post_job_def split: if_splits)
    then show ?thesis using unqueued frame Inl s1 by metis
  next
    case (Inr k)
    let ?j = "new_job (new_manifest P (job_body cj) None jid (clk 1)) (job_body cj) None (clk 2)"
    have id: "jb_job_id ?j = jid" by (simp add: new_job_def new_manifest_def)
    then have q: "queued_from P cj ?j" by (auto simp: queued_from_def)
    have "r = Inr jid \<and> net = Carried \<or> (\<exists>e. r = Inl e) \<and> (net = Answer_Lost \<or> jid = [])"
      using assms False sub Inr frame(4) [of k] by (cases net) (auto simp: post_job_def split: if_splits)
    then show ?thesis using queued [of ?j] id q frame(1,2) frame(4) [OF Inr] s1 by simp
  qed
qed

lemma post_jobs_queue:
  assumes "post_jobs P cf clk fresh net a i cjs s = (s', r)"
  shows "\<exists>k js. k \<le> length cjs \<and> db_jobs s' = db_jobs s @ js \<and> list_all2 (queued_from P) (take k cjs) js \<and>
    db_workers s' = db_workers s \<and> db_ledger s' = db_ledger s \<and>
    (\<forall>ids. r = Inr ids \<longrightarrow> k = length cjs \<and> ids = map jb_job_id js) \<and>
    (\<forall>e. r = Inl e \<longrightarrow> k < length cjs \<or> (\<exists>n \<in> {i..<i + length cjs}. net n = Answer_Lost \<or> fresh n = []))"
  using assms
proof (induction cjs arbitrary: i s s' r)
  case Nil
  then show ?case by auto
next
  case (Cons cj cjs)
  obtain s1 x where one: "post_job P cf (clk i) (fresh i) (net i) a cj s = (s1, x)" by fastforce
  from one show ?case
  proof (cases rule: post_job_cases)
    case (unqueued e)
    then show ?thesis using Cons.prems one by (intro exI [of _ 0] exI [of _ "[]"]) auto
  next
    case (queued j)
    show ?thesis
    proof (cases x)
      case (Inl e)
      then have "s' = s1" "r = Inl e" "net i = Answer_Lost \<or> fresh i = []" using Cons.prems one queued by auto
      then show ?thesis using queued by (intro exI [of _ 1] exI [of _ "[j]"]) auto
    next
      case (Inr jid)
      obtain s2 y where rest: "post_jobs P cf clk fresh net a (Suc i) cjs s1 = (s2, y)" by fastforce
      from Cons.IH [OF rest] obtain k js where IH: "k \<le> length cjs" "db_jobs s2 = db_jobs s1 @ js"
        "list_all2 (queued_from P) (take k cjs) js" "db_workers s2 = db_workers s1" "db_ledger s2 = db_ledger s1"
        "\<And>ids. y = Inr ids \<Longrightarrow> k = length cjs \<and> ids = map jb_job_id js"
        "\<And>e. y = Inl e \<Longrightarrow> k < length cjs \<or> (\<exists>n \<in> {Suc i..<Suc i + length cjs}. net n = Answer_Lost \<or> fresh n = [])"
        by blast
      have s': "s' = s2" "r = (case y of Inl e \<Rightarrow> Inl e | Inr ids \<Rightarrow> Inr (jid # ids))" "jid = jb_job_id j"
        using Cons.prems one rest Inr queued by (auto split: sum.splits)
      show ?thesis
      proof (intro exI [of _ "Suc k"] exI [of _ "j # js"] conjI allI impI)
        fix e assume "r = Inl e"
        then have "k < length cjs \<or> (\<exists>n \<in> {Suc i..<Suc i + length cjs}. net n = Answer_Lost \<or> fresh n = [])"
          using IH(7) s'(2) by (auto split: sum.splits)
        then show "Suc k < length (cj # cjs) \<or> (\<exists>n \<in> {i..<i + length (cj # cjs)}. net n = Answer_Lost \<or> fresh n = [])"
          by force
      qed (use IH queued s' in \<open>auto split: sum.splits\<close>)
    qed
  qed
qed

section \<open>What the command line submits\<close>

definition args_params :: "submit_args \<Rightarrow> launch_params option" where
  "args_params args =
     (if sa_kind args = ''fractal'' then Some (FractalParams (sa_width args) (sa_height args) (sa_max_iter args))
      else if sa_kind args = ''optimize'' then Some (OptimizeParams (sa_candidates args) (sa_dims args) 0)
      else if sa_kind args = ''synth'' then Some (SynthParams (sa_rows args) None [] ''a software employee record'')
      else if sa_kind args = ''fanout'' then Some (TransformParams (sa_items args) (sa_op args))
      else if sa_kind args = ''ai'' then Some (PromptParams None 3 [] 48)
      else None)"

text \<open>The command line builds with the builders of a launch, over an even split.\<close>

lemma build_jobs_launch:
  "args_params args = Some prm \<Longrightarrow>
   build_jobs r args = bind_err (build_with (sa_n args) prm None) (\<lambda>specs. Inr (map built_job specs))"
  by (auto simp: args_params_def build_jobs_def Let_def split: if_splits)

lemma gpu_jobs_work:
  assumes "generate_gpu_jobs n edge iters = Inr jobs"
  shows "0 \<le> n" "length jobs = nat n" "0 < iters"
    "\<forall>j \<in> set jobs. cj_kind j = ''render'' \<and> cj_units j = Some iters \<and> cj_data_classification j = None \<and>
       (\<exists>q. cj_requires j = Some q \<and> rq_needs_gpu q)"
  using assms by (auto simp: generate_gpu_jobs_def split: if_splits)

definition args_work :: "submit_args \<Rightarrow> int" where
  "args_work args =
     (case args_params args of Some prm \<Rightarrow> work_of (sa_n args) prm | None \<Rightarrow> sa_n args * 12)"

definition job_units_of :: "client_job list \<Rightarrow> int" where
  "job_units_of js = sum_list (map (\<lambda>j. key_or 1 (cj_units j)) js)"

lemma built_units: "job_units_of (map built_job specs) = units_of specs"
  by (simp add: job_units_of_def units_of_def comp_def built_job_def key_or_def)

lemma build_jobs_work:
  assumes "build_jobs r args = Inr jobs" "sa_kind args \<in> set [''fractal'', ''optimize'', ''ai'', ''synth'', ''fanout'', ''gpu'']"
  shows "job_units_of jobs = args_work args" "\<forall>j \<in> set jobs. cj_data_classification j = None \<and> 0 < key_or 1 (cj_units j)"
proof -
  have "job_units_of jobs = args_work args \<and> (\<forall>j \<in> set jobs. cj_data_classification j = None \<and> 0 < key_or 1 (cj_units j))"
  proof (cases "args_params args")
    case (Some prm)
    then obtain specs where specs: "build_with (sa_n args) prm None = Inr specs" "jobs = map built_job specs"
      using assms(1) by (auto simp: build_jobs_launch bind_err_Inr)
    note w = build_with_work [OF specs(1)]
    show ?thesis using w
      by (auto simp: specs(2) built_units args_work_def Some split_ok_def list_all_iff spec_ok_def built_job_def key_or_def)
  next
    case None
    then have "sa_kind args = ''gpu''" using assms(2) by (auto simp: args_params_def split: if_splits)
    then have gpu: "generate_gpu_jobs (sa_n args) 512 12 = Inr jobs" using assms(1) by (simp add: build_jobs_def)
    have "map (\<lambda>j. key_or 1 (cj_units j)) jobs = replicate (length jobs) 12"
      using gpu_jobs_work(4) [OF gpu] by (auto simp: key_or_def intro!: replicate_eqI)
    then show ?thesis using gpu_jobs_work [OF gpu]
      by (auto simp: job_units_of_def args_work_def None sum_list_replicate key_or_def)
  qed
  then show "job_units_of jobs = args_work args" "\<forall>j \<in> set jobs. cj_data_classification j = None \<and> 0 < key_or 1 (cj_units j)"
    by auto
qed

end
