(* ===== verification/Client_Properties.thy ===== *)
theory Client_Properties imports Submit_Client Demo begin

text \<open>
  What the submitting commands achieve against the orchestrator of \<open>Submit\<close>: how much of a batch is
  queued whatever goes wrong, and that the command line queues the work it was asked for, cleared for
  every device.
\<close>

lemma stamped_units: "job_units_of (stamped_jobs c jobs) = job_units_of jobs"
  by (auto simp: stamped_jobs_def job_units_of_def stamp_def comp_def split: option.splits)

lemma length_stamped [simp]: "length (stamped_jobs c jobs) = length jobs"
  by (auto simp: stamped_jobs_def split: option.splits)

lemma list_all2_origin: "list_all2 R xs ys \<Longrightarrow> y \<in> set ys \<Longrightarrow> \<exists>x \<in> set xs. R x y"
  by (induction xs ys rule: list_all2_induct) auto

lemma queued_units: "list_all2 (queued_from P) cjs js \<Longrightarrow> sum_list (map jb_units js) = job_units_of cjs"
  by (induction cjs js rule: list_all2_induct) (auto simp: job_units_of_def queued_from_fields)

text \<open>
  Whatever fails on the way, the queue has grown by the first jobs of the batch, in order; on success by
  all of them. A failure leaves the last job out unless an answer was lost on its way back.
\<close>

theorem batch_queues_a_prefix:
  assumes "submit_all P cf clk fresh net jobs client token c s = (s', r)"
  shows "\<exists>k js. k \<le> length jobs \<and> db_jobs s' = db_jobs s @ js \<and>
    list_all2 (queued_from P) (take k (stamped_jobs c jobs)) js \<and>
    (\<forall>ids. r = Inr ids \<longrightarrow> k = length jobs \<and> ids = map jb_job_id js) \<and>
    (\<forall>e. r = Inl e \<longrightarrow> k < length jobs \<or> (\<exists>n < length jobs. net n = Answer_Lost \<or> fresh n = []))"
  using post_jobs_queue [OF assms [unfolded submit_all_def]] by fastforce

text \<open>A job whose answer is lost is in the queue although the command reports a failure: running the command again queues it twice.\<close>

lemma lost_answer_is_queued:
  assumes "valid_submit (job_body cj)" "admits (cf_submit_token cf) a" "find_job jid s = None"
    "0 < sr_units (job_body cj)" "int64 (sr_units (job_body cj))"
  obtains s' j e where "post_job P cf clk jid Answer_Lost a cj s = (s', Inl e)"
    "db_jobs s' = db_jobs s @ [j]" "queued_from P cj j"
proof -
  obtain s1 where sub: "submit P cf clk jid (job_body cj) a s = (s1, Inr jid)"
    using assms by (auto simp: submit_Inr enqueue_Inr)
  then have post: "post_job P cf clk jid Answer_Lost a cj s = (s1, Inl (OtherError ''TransportError''))"
    by (simp add: post_job_def)
  have "db_jobs s1 = db_jobs s @ [new_job (new_manifest P (job_body cj) None jid (clk 1)) (job_body cj) None (clk 2)]"
    using submit_jobs_frame(4) [OF sub] by simp
  with post that show thesis by (fastforce simp: queued_from_def new_job_def new_manifest_def)
qed

definition work_kinds :: "str list" where
  "work_kinds = [''fractal'', ''optimize'', ''ai'', ''synth'', ''fanout'', ''gpu'']"

lemma public_routes: "tier \<in> set TIERS \<Longrightarrow> may_route ''public'' tier"
  by (auto simp: TIERS_def may_route_def MIN_TIER_FOR_CLASSIFICATION_def)

text \<open>A successful run of the submit command adds to the queue exactly the jobs whose ids it prints,
  in order: their worth sums to the work asked for, none is worth nothing, and each is classified public,
  so that a device of any trust tier may be given it.\<close>

theorem submitted_batch_is_exact:
  assumes "submit_main P cf clk fresh net rnd args s = (s', Inr (0, ids))" "sa_kind args \<in> set work_kinds"
  shows "\<exists>js. db_jobs s' = db_jobs s @ js \<and> map jb_job_id js = ids \<and> sum_list (map jb_units js) = args_work args \<and>
    (\<forall>j \<in> set js. jb_state j = Queued \<and> 0 < jb_units j \<and> mf_data_classification (jb_manifest j) = ''public'' \<and>
       (\<forall>tier \<in> set TIERS. may_route (mf_data_classification (jb_manifest j)) tier))"
proof -
  obtain jobs where jobs: "build_jobs rnd args = Inr jobs"
    and all: "submit_all P cf clk fresh net jobs None (sa_token args) (Some ''public'') s = (s', Inr ids)"
    using assms(1) by (auto simp: submit_main_def split: sum.splits prod.splits)
  note work = build_jobs_work [OF jobs assms(2) [unfolded work_kinds_def]]
  obtain js where js: "db_jobs s' = db_jobs s @ js" "ids = map jb_job_id js"
    "list_all2 (queued_from P) (map (stamp ''public'') jobs) js"
    using batch_queues_a_prefix [OF all] by (auto simp: stamped_jobs_def)
  have units: "sum_list (map jb_units js) = args_work args"
    using queued_units [OF js(3)] work(1) stamped_units [of "Some ''public''" jobs] by (simp add: stamped_jobs_def)
  have "jb_state j = Queued \<and> 0 < jb_units j \<and> mf_data_classification (jb_manifest j) = ''public''" if j: "j \<in> set js" for j
  proof -
    obtain cj where "cj \<in> set jobs" "queued_from P (stamp ''public'' cj) j"
      using list_all2_origin [OF js(3) j] by auto
    then show ?thesis using work(2) by (auto simp: queued_from_fields stamp_def key_or_def split: option.splits)
  qed
  with js units show ?thesis using public_routes by auto
qed

definition demo_args :: submit_args where
  "demo_args = default_submit_args\<lparr>sa_n := 2, sa_items := 3\<rparr>"

definition demo_fresh :: "nat \<Rightarrow> str" where
  "demo_fresh i = (if i = 0 then ''a'' else ''b'')"

definition clocks :: "nat \<Rightarrow> clock" where
  "clocks i = demo_clock (int i)"

lemma demo_batch:
  "\<exists>s'. submit_main demo_prims demo_config clocks demo_fresh (\<lambda>_. Carried) 0 demo_args init_db
     = (s', Inr (0, [''a'', ''b'']))"
  by (simp add: submit_main_def build_jobs_def demo_args_def default_submit_args_def generate_jobs_def upto_rec1 submit_all_def
      stamped_jobs_def stamp_def built_job_def sent_authorization_def post_job_def job_body_def key_or_def submit_def
      and_then_def require_submit_token_def demo_config_def enqueue_def submit_job_def insert_job_def new_job_def
      new_manifest_def int64_def find_job_def select_where_def init_db_def valid_submit_def JobKind_def
      DataClassification_def demo_fresh_def clocks_def demo_clock_def Let_def)

theorem submitted_batch_is_exact_witness:
  "\<exists>s' js. submit_main demo_prims demo_config clocks demo_fresh (\<lambda>_. Carried) 0 demo_args init_db = (s', Inr (0, [''a'', ''b''])) \<and>
     db_jobs s' = js \<and> sum_list (map jb_units js) = 6"
proof -
  obtain s' where r: "submit_main demo_prims demo_config clocks demo_fresh (\<lambda>_. Carried) 0 demo_args init_db = (s', Inr (0, [''a'', ''b'']))"
    using demo_batch by blast
  have "sa_kind demo_args \<in> set work_kinds" "args_work demo_args = 6"
    by (simp_all add: demo_args_def default_submit_args_def work_kinds_def args_work_def args_params_def)
  with submitted_batch_is_exact [OF r] r show ?thesis by (auto simp: init_db_def)
qed

text \<open>
  The integrity ringer is built with \<open>SubmitRequest(..).model_dump()\<close>, which already holds the
  default classification, so the command's \<open>public\<close> stamp does not reach it: the ringer stays internal
  and is never given to an untrusted device, the device it is meant to test.
\<close>

lemma ringer_stays_internal:
  assumes "submit_main P cf clk fresh net rnd args s = (s', Inr (0, ids))" "sa_kind args = ''challenge''"
  shows "\<exists>j. db_jobs s' = db_jobs s @ [j] \<and> jb_kind j = ''challenge'' \<and>
    mf_data_classification (jb_manifest j) = ''internal'' \<and> \<not> may_route (mf_data_classification (jb_manifest j)) TIER_UNTRUSTED"
proof -
  have "build_jobs rnd args = Inr [dumped_job (challenge_request rnd)]" using assms(2) by (simp add: build_jobs_def)
  then have all: "submit_all P cf clk fresh net [dumped_job (challenge_request rnd)] None (sa_token args) (Some ''public'') s = (s', Inr ids)"
    using assms(1) by (auto simp: submit_main_def split: sum.splits prod.splits)
  obtain js where js: "db_jobs s' = db_jobs s @ js"
    "list_all2 (queued_from P) [stamp ''public'' (dumped_job (challenge_request rnd))] js"
    using batch_queues_a_prefix [OF all] by (auto simp: stamped_jobs_def)
  then obtain j where j: "js = [j]" "queued_from P (stamp ''public'' (dumped_job (challenge_request rnd))) j"
    by (auto simp: list_all2_Cons1)
  have "\<not> may_route ''internal'' TIER_UNTRUSTED"
    by (simp add: may_route_def MIN_TIER_FOR_CLASSIFICATION_def TIERS_def TIER_UNTRUSTED_def)
  then show ?thesis using js j(1) queued_from_fields [OF j(2)]
    by (auto simp: stamp_def dumped_job_def challenge_request_def key_or_def)
qed

end
