(* ===== verification/Workload_Summary.thy ===== *)
theory Workload_Summary imports Views Aggregate Launch begin

text \<open>
  What a dashboard is told about launched work (\<open>src/orchestrator/app.py\<close>): \<open>WORKLOAD_CATALOG\<close>, the
  merged summary \<open>_aggregate_workload\<close> of the outputs workers returned, and \<open>GET /workloads/{id}\<close> with
  it. The outputs are whatever JSON the workers sent, so a merge may raise, and then there is no summary.
\<close>

section \<open>The catalogue\<close>

text \<open>Without the sentence of description (\<open>blurb\<close>) of each entry.\<close>

record catalog_entry =
  ce_kind :: str
  ce_label :: str
  ce_category :: str
  ce_ai :: bool
  ce_default_params :: dict
  ce_split :: str

definition WORKLOAD_CATALOG :: "catalog_entry list" where
  "WORKLOAD_CATALOG =
    [\<lparr>ce_kind = ''fractal'', ce_label = ''Fractal render'', ce_category = ''non-AI'', ce_ai = False,
      ce_default_params = [(''width'', JInt 720), (''height'', JInt 480), (''max_iter'', JInt 120)],
      ce_split = ''per_machine''\<rparr>,
     \<lparr>ce_kind = ''optimize'', ce_label = ''Param-sweep optimize'', ce_category = ''non-AI'', ce_ai = False,
      ce_default_params = [(''n_candidates'', JInt 30000), (''dims'', JInt 8)], ce_split = ''per_machine''\<rparr>,
     \<lparr>ce_kind = ''ai.batch_infer'', ce_label = ''AI inference'', ce_category = ''AI'', ce_ai = True,
      ce_default_params = [(''slice_size'', JInt 3)], ce_split = ''slice_size''\<rparr>,
     \<lparr>ce_kind = ''ai.synth'', ce_label = ''AI synthetic data'', ce_category = ''AI'', ce_ai = True,
      ce_default_params = [(''total_rows'', JInt 30)], ce_split = ''per_machine''\<rparr>,
     \<lparr>ce_kind = ''montecarlo'', ce_label = ''Monte-Carlo finance risk'', ce_category = ''non-AI'', ce_ai = False,
      ce_default_params = [(''total_paths'', JInt 3000000), (''horizon_days'', JInt 252)], ce_split = ''per_machine''\<rparr>,
     \<lparr>ce_kind = ''hashcrack'', ce_label = ''Hash crack (proof-of-work)'', ce_category = ''non-AI'', ce_ai = False,
      ce_default_params = [(''keyspace'', JInt 300000000), (''target_prefix'', JStr ''000000'')], ce_split = ''per_machine''\<rparr>,
     \<lparr>ce_kind = ''ai.infer'', ce_label = ''Local LLM inference'', ce_category = ''AI'', ce_ai = True,
      ce_default_params = [(''n_prompts'', JInt 120)], ce_split = ''per_machine''\<rparr>,
     \<lparr>ce_kind = ''ai.eval'', ce_label = ''Model evaluation (LLM judge)'', ce_category = ''AI'', ce_ai = True,
      ce_default_params = [], ce_split = ''per_machine''\<rparr>,
     \<lparr>ce_kind = ''ai.graph'', ce_label = ''Knowledge graph'', ce_category = ''AI'', ce_ai = True,
      ce_default_params = [], ce_split = ''per_machine''\<rparr>]"

section \<open>The merged summary\<close>

text \<open>
  \<open>aggregate_eval\<close> on the objects of the tiles: the typed merge of \<open>Aggregate\<close> on the converted scores,
  with the mean taken over the scores as they were sent. \<open>float_mean\<close> is \<open>sum(..) / len(..)\<close> of a list of numbers with a float among them.
\<close>

fun plain_int :: "json \<Rightarrow> int option" where
  "plain_int (JInt i) = Some i"
| "plain_int (JBool b) = Some (if b then 1 else 0)"
| "plain_int _ = None"

definition raw_mean :: "(json list \<Rightarrow> py_error + pyfloat) \<Rightarrow> json list \<Rightarrow> py_error + pyfloat" where
  "raw_mean float_mean raws =
     (case those (map plain_int raws) of
        Some ns \<Rightarrow> (let m = mean_of ns in if float_max < \<bar>m\<bar> then Inl (OtherError ''OverflowError'') else Inr (Fin m))
      | None \<Rightarrow> if list_all (\<lambda>v. number_of v \<noteq> None) raws then float_mean raws
                else Inl (TypeError ''unsupported operand type(s) for +''))"

definition eval_rows :: "json list \<Rightarrow> py_error + dict list" where
  "eval_rows outs =
     bind_err (map_err as_dict (filter truthy outs)) (\<lambda>tiles.
     bind_err (map_err (\<lambda>t. iterate (get_or t ''results'' (JList []))) tiles) (\<lambda>rows.
       map_err as_dict (concat rows)))"

definition leader_json :: "leader \<Rightarrow> json" where
  "leader_json e = JObj [(''label'', JStr (ld_label e)), (''mean_score'', JFloat (Fin (ld_mean e))), (''n'', JInt (int (ld_n e)))]"

definition aggregate_eval_json ::
  "conversions \<Rightarrow> (json list \<Rightarrow> py_error + pyfloat) \<Rightarrow> json list \<Rightarrow> py_error + dict" where
  "aggregate_eval_json C float_mean outs =
     bind_err (eval_rows outs) (\<lambda>rows.
     bind_err (map_err (\<lambda>r. get_int C r ''score'' 0) rows) (\<lambda>scores.
     bind_err (if rows = [] then Inr (Fin 0) else raw_mean float_mean (map (\<lambda>r. get_or r ''score'' (JInt 0)) rows)) (\<lambda>mean.
       (let z = aggregate_eval (zip (map (\<lambda>r. to_str C (get_or r ''label'' (JStr ''(unlabeled)''))) rows) scores)
        in Inr [(''n'', JInt (int (es_n z))), (''mean_score'', JFloat mean),
                (''leaderboard'', JList (map leader_json (es_leaderboard z))),
                (''distribution'', JList (map JInt (es_distribution z)))]))))"

text \<open>The completions of the two inference kinds: \<open>out.get("results") or []\<close>, the first 200 of them shown.\<close>

definition merge_infer :: "dict list \<Rightarrow> py_error + dict" where
  "merge_infer outputs =
     bind_err (map_err (\<lambda>out. let v = get_or out ''results'' JNull in if truthy v then iterate v else Inr []) outputs) (\<lambda>rs.
       (let items = concat rs
        in Inr [(''count'', JInt (int (length items))), (''backend'', get_or (hd outputs) ''backend'' JNull),
                (''results'', JList (take 200 items))]))"

definition synth_summary :: "conversions \<Rightarrow> dict list \<Rightarrow> py_error + dict" where
  "synth_summary C outputs =
     bind_err (merge_synth C (map JObj outputs)) (\<lambda>rows.
       Inr [(''count'', JInt (int (length rows))), (''backend'', get_or (hd outputs) ''backend'' JNull),
            (''rows'', JList (take 500 rows))])"

text \<open>
  \<open>merge_risk\<close> is \<open>aggregate_montecarlo\<close> on the objects of the tiles; its arithmetic is
  \<open>Aggregate.aggregate_montecarlo\<close>. Whatever is raised, the caller gets no summary.
\<close>

record merge_env =
  me_conv :: conversions
  me_float_mean :: "json list \<Rightarrow> py_error + pyfloat"
  me_risk :: "json list \<Rightarrow> py_error + dict"

definition merge_of :: "merge_env \<Rightarrow> str \<Rightarrow> dict list \<Rightarrow> py_error + dict option" where
  "merge_of M kind outputs =
     (let C = me_conv M; objs = map JObj outputs; some = (\<lambda>r. bind_err r (\<lambda>d. Inr (Some d)))
      in if kind = ''montecarlo'' then some (me_risk M objs)
         else if kind = ''hashcrack'' then some (aggregate_hashcrack C objs)
         else if kind = ''optimize'' then some (aggregate_optimize C objs)
         else if kind = ''ai.eval'' then some (aggregate_eval_json C (me_float_mean M) objs)
         else if kind = ''ai.graph'' then some (aggregate_graph C objs)
         else if kind \<in> {''ai.infer'', ''ai.batch_infer''} then some (merge_infer outputs)
         else if kind = ''ai.synth'' then some (synth_summary C outputs)
         else Inr None)"

definition aggregate_workload :: "merge_env \<Rightarrow> str \<Rightarrow> dict list \<Rightarrow> dict option" where
  "aggregate_workload M kind outputs =
     (if outputs = [] then None
      else case merge_of M kind outputs of Inl _ \<Rightarrow> None | Inr summary \<Rightarrow> summary)"

section \<open>\<open>GET /workloads/{id}\<close> with its summary\<close>

definition workload_panel ::
  "merge_env \<Rightarrow> primitives \<Rightarrow> config \<Rightarrow> time \<Rightarrow> str \<Rightarrow> str option \<Rightarrow> (workload_view \<times> dict option) handler" where
  "workload_panel M P cf now wid authorization =
     and_then (workload_detail P cf now wid authorization)
       (\<lambda>v s. (s, Inr (v, aggregate_workload M (wo_kind v) (workload_outputs wid s))))"

end
