(* ===== verification/Summary_Properties.thy ===== *)
theory Summary_Properties imports Workload_Summary Fleet_Compute Service_Properties begin

text \<open>
  From a launch to the panel of the dashboard: once every tile of an optimize workload has been done
  honestly, whatever the fleet did in between, the panel shows the best candidate one machine would
  have found.
\<close>

section \<open>The catalogue and the summaries\<close>

lemma catalog_kinds:
  "distinct (map ce_kind WORKLOAD_CATALOG)" "list_all (\<lambda>e. ce_kind e \<in> set LAUNCHABLE_KINDS) WORKLOAD_CATALOG"
  "list_all (\<lambda>e. ce_ai e = (take 3 (ce_kind e) = ''ai.'')) WORKLOAD_CATALOG"
  by code_simp+

text \<open>Every kind offered has a merge, except the fractal, whose tiles the dashboard assembles itself.\<close>

lemma catalog_merges:
  "list_all (\<lambda>e. ce_kind e \<in> set [''fractal'', ''montecarlo'', ''hashcrack'', ''optimize'', ''ai.eval'', ''ai.graph'',
     ''ai.infer'', ''ai.batch_infer'', ''ai.synth'']) WORKLOAD_CATALOG"
  by code_simp

lemma no_output_no_summary: "aggregate_workload M kind [] = None"
  by (simp add: aggregate_workload_def)

lemma infer_counts_all:
  assumes "merge_infer outs = Inr d"
  shows "\<exists>rs. d = [(''count'', JInt (int (length (concat rs)))), (''backend'', get_or (hd outs) ''backend'' JNull),
      (''results'', JList (take 200 (concat rs)))] \<and>
    list_all2 (\<lambda>out r. (let v = get_or out ''results'' JNull in if truthy v then iterate v else Inr []) = Inr r) outs rs"
  using assms by (auto simp: merge_infer_def bind_err_Inr map_err_Inr Let_def)

section \<open>The rows of a workload\<close>

lemma build_with_kind: "build_with n params ws = Inr specs \<Longrightarrow> \<forall>j \<in> set specs. js_kind j = build_for params"
  by (cases params)
     (auto simp: build_fractal_jobs_def build_optimize_jobs_def build_synth_jobs_def build_prompt_jobs_def generate_jobs_def
       build_montecarlo_jobs_def build_hashcrack_jobs_def build_infer_jobs_def build_eval_jobs_def build_graph_jobs_def
       tiles_of_def bind_err_Inr fractal_tile_def optimize_tile_def synth_tile_def montecarlo_tile_def hashcrack_tile_def
       infer_tile_def eval_tile_def graph_tile_def Let_def split: if_splits)

lemma mset_workload_rows: "mset (workload_rows wid s) = mset (filter (\<lambda>j. jb_workload_id j = Some wid) (db_jobs s))"
  by (simp add: workload_rows_def select_where_def)

lemma workload_outputs_done:
  assumes "\<forall>j \<in> set (workload_rows wid s). jb_state j = Completed \<and> jb_result j \<noteq> None"
  shows "workload_outputs wid s = map (the \<circ> jb_result) (workload_rows wid s)"
proof -
  have "filter (\<lambda>j. jb_state j = Completed \<and> jb_result j \<noteq> None) (workload_rows wid s) = workload_rows wid s"
    using assms by (intro filter_True) auto
  then show ?thesis by (simp add: workload_outputs_def)
qed

text \<open>
  After a launch, whatever the fleet does, the rows of the workload are the jobs launched, with their
  inputs: nothing is lost, and nothing joins unless another launch draws the same workload id.
\<close>

definition only_launched :: "str \<Rightarrow> str list \<Rightarrow> db \<Rightarrow> bool" where
  "only_launched wid ids s \<longleftrightarrow> (\<forall>j \<in> set (db_jobs s). jb_workload_id j = Some wid \<longrightarrow> jb_job_id j \<in> set ids)"

lemma rows_of_kept_jobs:
  assumes keep: "jobs_keep js0 (db_jobs s)" and uniq: "jt.unique_keys js0" "jt.unique_keys (db_jobs s)"
    and sub: "set js \<subseteq> set js0" "distinct (map jb_job_id js)" "\<forall>j \<in> set js. jb_workload_id j = Some wid"
    and only: "only_launched wid (map jb_job_id js) s"
  shows "\<exists>js'. mset (workload_rows wid s) = mset js' \<and> list_all2 job_keeps js js'"
proof -
  define g where "g j = the (jt.lookup (jb_job_id j) (db_jobs s))" for j :: job
  have g: "jt.lookup (jb_job_id j) (db_jobs s) = Some (g j) \<and> job_keeps j (g j)" if "j \<in> set js" for j
  proof -
    have "jt.lookup (jb_job_id j) js0 = Some j" using jt.lookup_unique [OF uniq(1)] sub(1) that by blast
    then obtain j' where "jt.lookup (jb_job_id j) (db_jobs s) = Some j'" "job_keeps j j'"
      using keep unfolding jobs_keep_def by blast
    then show ?thesis by (simp add: g_def)
  qed
  have gid: "jb_job_id (g j) = jb_job_id j" "g j \<in> set (db_jobs s)" if "j \<in> set js" for j
    using g [OF that] jt.lookup_Some_in by (auto simp: job_keeps_def)
  let ?rows = "filter (\<lambda>j. jb_workload_id j = Some wid) (db_jobs s)"
  have "set ?rows = g ` set js"
  proof (intro equalityI subsetI)
    fix r assume r: "r \<in> set ?rows"
    then obtain j where j: "j \<in> set js" "jb_job_id r = jb_job_id j" using only by (auto simp: only_launched_def)
    have "jt.lookup (jb_job_id r) (db_jobs s) = Some r" using jt.lookup_unique [OF uniq(2)] r by auto
    then show "r \<in> g ` set js" using g [OF j(1)] j by auto
  next
    fix r assume "r \<in> g ` set js"
    then show "r \<in> set ?rows" using g gid sub(3) by (auto simp: job_keeps_def)
  qed
  moreover have "distinct ?rows" using uniq(2) by (auto simp: jt.unique_keys_def distinct_map)
  moreover have "map jb_job_id (map g js) = map jb_job_id js" using gid by auto
  then have "distinct (map g js)" using sub(2) by (metis distinct_map)
  ultimately have "mset ?rows = mset (map g js)" by (metis set_eq_iff_mset_eq_distinct set_map)
  moreover have "list_all2 job_keeps js (map g js)" using g by (simp add: list_all2_conv_all_nth)
  ultimately show ?thesis by (metis mset_workload_rows)
qed

lemma launched_workload_rows:
  assumes s0: "reachable P s0" and launch: "launch_workload P cf clk ids wid req a s0 = (s1, Inr resp)"
    and steps: "(fleet_step P)\<^sup>*\<^sup>* s1 s2" and only: "only_launched wid (wl_job_ids resp) s2"
  shows "\<exists>specs. build_with (resolve_tile_count s0 req) (lr_params req) (capability_tile_weights s0 (resolve_tile_count s0 req)) = Inr specs \<and>
    mset (map jb_input (workload_rows wid s2)) = mset (map js_input specs) \<and>
    (\<forall>r \<in> set (workload_rows wid s2). jb_kind r = lr_kind req) \<and> build_for (lr_params req) = lr_kind req"
proof -
  let ?n = "resolve_tile_count s0 req"
  obtain specs jids where l:
    "build_workload_jobs (lr_kind req) ?n (lr_params req) (capability_tile_weights s0 ?n) = Inr specs"
    "launch_specs P clk ids (lr_kind req) wid 0 specs s0 = (s1, Inr jids)" "wl_job_ids resp = jids"
    using launch by (auto simp: launch_workload_Inr)
  from launch_specs_jobs [OF l(2)] obtain js where js: "db_jobs s1 = db_jobs s0 @ js"
    "list_all2 (launched wid) specs js" "map jb_job_id js = jids" "distinct jids" by auto
  have b: "build_for (lr_params req) = lr_kind req" "build_with ?n (lr_params req) (capability_tile_weights s0 ?n) = Inr specs"
    using l(1) by (auto simp: build_workload_jobs_def split: if_splits)
  have kinds: "\<forall>j \<in> set specs. js_kind j = lr_kind req" using build_with_kind [OF b(2)] b(1) by simp
  have s1: "reachable P s1" using serve_reachable [OF s0, of demo_mbytes cf clk "ReqLaunch ids wid req a"] launch by simp
  have uniq: "jt.unique_keys (db_jobs s1)" "jt.unique_keys (db_jobs s2)"
    using reachable_job_part [OF s1] reachable_job_part [OF reachable_steps [OF s1 steps]]
    by (auto simp: job_part_def jobs_wf_def)
  have mem: "\<forall>j \<in> set js. jb_workload_id j = Some wid"
    using js(2) by (induction rule: list_all2_induct) (auto simp: launched_def)
  obtain js' where js': "mset (workload_rows wid s2) = mset js'" "list_all2 job_keeps js js'"
    using rows_of_kept_jobs [OF jobs_keep_steps [OF steps] uniq, of js wid] js mem only l(3) by auto
  have both: "list_all2 (\<lambda>spec j. jb_input j = js_input spec \<and> jb_kind j = js_kind spec) specs js'"
    by (rule list_all2_trans [OF _ js(2) js'(2)]) (auto simp: launched_def job_keeps_def)
  then have "map jb_input js' = map js_input specs" by (induction rule: list_all2_induct) auto
  moreover have "mset (map jb_input (workload_rows wid s2)) = mset (map jb_input js')" using js'(1) by (metis mset_map)
  moreover have "jb_kind r = lr_kind req" if "r \<in> set js'" for r
    using both that kinds by (induction rule: list_all2_induct) auto
  then have "\<forall>r \<in> set (workload_rows wid s2). jb_kind r = lr_kind req" using mset_eq_setD [OF js'(1)] by simp
  ultimately show ?thesis using b by auto
qed

section \<open>From the launch to the panel\<close>

text \<open>The job was done as asked: its row holds what a run of its input that nothing interrupts computes.\<close>

definition done_honestly :: "(dict \<Rightarrow> py_error + dict) \<Rightarrow> job \<Rightarrow> bool" where
  "done_honestly f j \<longleftrightarrow> jb_state j = Completed \<and> (\<exists>out. jb_result j = Some out \<and> f (jb_input j) = Inr out)"

lemma honest_outputs:
  assumes "\<forall>j \<in> set (workload_rows wid s). done_honestly f j"
  shows "map_err f (map jb_input (workload_rows wid s)) = Inr (workload_outputs wid s)"
    "length (filter (\<lambda>j. jb_state j = Completed) (workload_rows wid s)) = length (workload_rows wid s)"
proof -
  have "workload_outputs wid s = map (the \<circ> jb_result) (workload_rows wid s)"
    using assms by (intro workload_outputs_done) (auto simp: done_honestly_def)
  then show "map_err f (map jb_input (workload_rows wid s)) = Inr (workload_outputs wid s)"
    using assms by (auto simp: map_err_Inr list_all2_conv_all_nth done_honestly_def dest!: nth_mem)
  have "filter (\<lambda>j. jb_state j = Completed) (workload_rows wid s) = workload_rows wid s"
    using assms by (intro filter_True) (auto simp: done_honestly_def)
  then show "length (filter (\<lambda>j. jb_state j = Completed) (workload_rows wid s)) = length (workload_rows wid s)" by simp
qed

lemma workload_panel_Inr:
  assumes "workload_panel M P cf now wid a s = (s', Inr (v, summary))"
  obtains row rows where "workload_rows wid s = row # rows" "wo_kind v = jb_kind row"
    "wo_total v = length (workload_rows wid s)"
    "wo_completed v = length (filter (\<lambda>j. jb_state j = Completed) (workload_rows wid s))"
    "summary = aggregate_workload M (jb_kind row) (workload_outputs wid s)"
proof -
  from assms obtain t where v: "workload_detail P cf now wid a s = (t, Inr v)"
    and sum: "summary = aggregate_workload M (wo_kind v) (workload_outputs wid t)"
    by (auto simp: workload_panel_def and_then_Inr)
  have t: "t = s" using v by (auto simp: workload_detail_def and_then_Inr require_operator_read_token_Inr split: list.splits)
  obtain row rows where "workload_rows wid s = row # rows"
    using v t by (cases "workload_rows wid s") (auto simp: workload_detail_def and_then_Inr require_operator_read_token_Inr)
  moreover from this have "wo_kind v = jb_kind row" "wo_total v = length (workload_rows wid s)"
    "wo_completed v = length (filter (\<lambda>j. jb_state j = Completed) (workload_rows wid s))"
    using v by (auto simp: workload_detail_def and_then_Inr require_operator_read_token_Inr)
  ultimately show thesis using that sum t by auto
qed

text \<open>C26. From launch to panel: after an optimize launch, once the fleet has done each of its jobs honestly
  (in whatever interleaving of requests, weighted split and order of completion), the panel shows every
  tile completed and, as its summary, the score, parameters and index of the best candidate that one
  machine searching all of them would have found, with every candidate counted once.\<close>

theorem optimize_panel_shows_best:
  assumes "reachable P s0" "launch_workload P cf clk ids wid req a s0 = (s1, Inr resp)"
    "lr_params req = OptimizeParams k dims seed" "k \<le> 2 ^ 34"
    "(fleet_step P)\<^sup>*\<^sup>* s1 s2" "only_launched wid (wl_job_ids resp) s2"
    "\<forall>j \<in> set (workload_rows wid s2). done_honestly (\<lambda>input. optimize L (me_conv M) input never) j"
    "workload_panel M P cf now wid b s2 = (s3, Inr (v, summary))"
  shows "wo_completed v = wo_total v \<and>
    (\<exists>whole. optimize L (me_conv M) (js_input (optimize_tile dims seed 0 k)) never = Inr whole \<and> summary = Some (butlast whole))"
proof -
  let ?n = "resolve_tile_count s0 req" and ?run = "\<lambda>input. optimize L (me_conv M) input never"
  obtain specs where specs: "build_with ?n (OptimizeParams k dims seed) (capability_tile_weights s0 ?n) = Inr specs"
    "mset (map jb_input (workload_rows wid s2)) = mset (map js_input specs)"
    "\<forall>r \<in> set (workload_rows wid s2). jb_kind r = ''optimize''"
    using launched_workload_rows [OF assms(1,2,5,6)] by (auto simp: assms(3))
  have split: "split_ok k (capability_tile_weights s0 ?n)"
    using fleet_weights_ok(1) [OF _ resolve_tile_count_bounds(2)] reachable_class_weight [OF assms(1)] assms(4)
    by (auto simp: split_ok_def split: option.splits)
  obtain finished where fin: "mset finished = mset specs" "map jb_input (workload_rows wid s2) = map js_input finished"
    using reordered_map [OF specs(2)] by auto
  obtain outs whole where merged: "map_err (\<lambda>j. ?run (js_input j)) finished = Inr outs"
    "?run (js_input (optimize_tile dims seed 0 k)) = Inr whole" "aggregate_optimize (me_conv M) (map JObj outs) = Inr (butlast whole)"
    using optimize_split_independent [OF specs(1) [simplified] split fin(1), of L "me_conv M"] by blast
  note honest = honest_outputs [OF assms(7)]
  have "map_err ?run (map js_input finished) = Inr outs" using merged(1) by (simp add: map_err_Inr list.rel_map)
  then have outs: "workload_outputs wid s2 = outs" using honest(1) by (simp add: fin(2))
  from assms(8) show ?thesis
  proof (cases rule: workload_panel_Inr)
    case (1 row rows)
    have "length outs = length (workload_rows wid s2)"
      using honest(1) outs unfolding map_err_Inr by (auto dest: list_all2_lengthD)
    then have "outs \<noteq> []" using 1(1) by auto
    moreover have "jb_kind row = ''optimize''" using specs(3) 1(1) by simp
    ultimately have "summary = Some (butlast whole)"
      using merged(3) outs 1(5) by (simp add: aggregate_workload_def merge_of_def Let_def bind_err_def)
    then show ?thesis using 1 honest(2) merged(2) by simp
  qed
qed

section \<open>A concrete workload\<close>

definition tiered_db :: db where
  "tiered_db = tier_section ''w'' ''managed'' registered_db"
definition panel_launch :: launch_request where
  "panel_launch = \<lparr>lr_kind = ''optimize'', lr_n_tiles = Some 1, lr_oversubscribe = 1, lr_params = OptimizeParams 2 1 7\<rparr>"
lemma tiered_rows: "db_workers tiered_db = [demo_row\<lparr>wk_trust_tier := ''managed'', wk_tier_pinned := True\<rparr>]" "db_jobs tiered_db = []"
  "db_ledger tiered_db = []"
  by (simp_all add: tiered_db_def tier_section_def registered_rows)
definition panel_spec :: job_spec where "panel_spec = optimize_tile 1 7 0 2"

lemma panel_specs: "build_optimize_jobs 1 2 1 7 None = Inr [panel_spec]"
  unfolding panel_spec_def by code_simp
lemma fsub_same: "fsub x x = 0"
  by (simp add: fsub_def)
lemma panel_weights: "capability_tile_weights tiered_db 1 = None"
  by (simp add: capability_tile_weights_def tile_workers_def tiered_rows select_where_def Let_def fsub_same fl64_nonneg)
definition panel_job :: job where
  "panel_job = new_job (new_manifest demo_prims (spec_request panel_spec) None ''p'' 4000001) (spec_request panel_spec) (Some ''wl'') 4000002"
lemma panel_spec_simps: "js_kind panel_spec = ''optimize''" "js_units panel_spec = 2"
  by (simp_all add: panel_spec_def optimize_tile_def)

lemma panel_submit:
  assumes "db_jobs s = []"
  shows "submit_job demo_prims (spec_request panel_spec) (Some ''wl'') None ''p'' 4000001 4000002 s = (s\<lparr>db_jobs := [panel_job]\<rparr>, Inr ''p'')"
proof -
  have "find_job ''p'' s = None" using assms by (simp add: find_job_def select_where_def)
  then show ?thesis using assms
    by (subst submit_job_Inr) (simp add: panel_job_def spec_request_def panel_spec_simps int64_def)
qed

lemma panel_launched:
  "\<exists>s1. launch_workload demo_prims demo_config (demo_clock 4) (\<lambda>_. ''p'') ''wl'' panel_launch None tiered_db
     = (s1, Inr \<lparr>wl_workload_id = ''wl'', wl_kind = ''optimize'', wl_job_ids = [''p'']\<rparr>) \<and>
     db_workers s1 = db_workers tiered_db \<and> db_jobs s1 = [panel_job]"
proof -
  have valid: "valid_submit (spec_request panel_spec)"
    by (simp add: valid_submit_def spec_request_def panel_spec_simps JobKind_def DataClassification_def)
  have build: "build_workload_jobs ''optimize'' 1 (OptimizeParams 2 1 7) None = Inr [panel_spec]"
    by (simp add: build_workload_jobs_def LAUNCHABLE_KINDS_def panel_specs)
  have req: "lr_kind panel_launch = ''optimize''" "lr_params panel_launch = OptimizeParams 2 1 7" "resolve_tile_count tiered_db panel_launch = 1"
    "valid_launch panel_launch"
    by (simp_all add: resolve_tile_count_def panel_launch_def MAX_WORKLOAD_TILES_def valid_launch_def)
  have clk: "demo_clock 4 (3 * 0 + 1) = 4000001" "demo_clock 4 (3 * 0 + 2) = 4000002"
    by (simp_all add: demo_clock_def seconds_def)
  have specs: "launch_specs demo_prims (demo_clock 4) (\<lambda>_. ''p'') ''optimize'' ''wl'' 0 [panel_spec] tiered_db =
      (emit demo_prims (demo_clock 4 (3 * 0 + 3)) ''submitted'' None (Some ''p'') (Some ''optimize'') (tiered_db\<lparr>db_jobs := [panel_job]\<rparr>), Inr [''p''])"
    unfolding launch_specs.simps clk panel_submit [OF tiered_rows(2)] by (simp add: valid and_then_def)
  have "admits (cf_submit_token demo_config) None" by (simp add: demo_config_def admits_def)
  moreover have "''optimize'' \<in> set LAUNCHABLE_KINDS" by (simp add: LAUNCHABLE_KINDS_def)
  ultimately show ?thesis using specs build by (simp add: launch_workload_Inr req panel_weights)
qed

definition panel_out :: dict where
  "panel_out = (case optimize demo_lib demo_conv (js_input panel_spec) never of Inr x \<Rightarrow> x | Inl _ \<Rightarrow> [])"

lemma length_esc_plain: "35 \<le> n \<Longrightarrow> n < 92 \<or> 92 < n \<and> n < 127 \<Longrightarrow> length (esc_code_point n) = 1"
  by (auto simp: esc_code_point_def esc_char_def Let_def)

lemma panel_out: "optimize demo_lib demo_conv (js_input panel_spec) never = Inr panel_out"
  "length (dumps_ascii (p_float_repr demo_prims) (JObj panel_out)) < 1000"
proof -
  let ?b = "fold (consider_candidate demo_lib 1 7) [0..2 - 1] no_best"
  have run: "optimize demo_lib demo_conv (js_input panel_spec) never = Inr (finished_output ?b)"
    unfolding panel_spec_def by (rule optimize_tile_run)
  then show "optimize demo_lib demo_conv (js_input panel_spec) never = Inr panel_out" by (simp add: panel_out_def)
  have best: "champion demo_lib 1 7 {0..<2} ?b" "bf_evaluated ?b = 2" using search_champion [of 0 2 demo_lib 1 7] by auto
  then have "bf_index ?b = 0 \<or> bf_index ?b = 1" by (auto simp: champion_def)
  moreover obtain r where "bf_score ?b = Fin r" using best by (auto simp: champion_def)
  moreover obtain q where "bf_params ?b = [q]" using best by (auto simp: champion_def optimize_config_def)
  moreover note best(2)
  ultimately obtain r q where b: "bf_score ?b = Fin r" "bf_params ?b = [q]" "bf_evaluated ?b = 2" "bf_index ?b = 0 \<or> bf_index ?b = 1"
    by blast
  have "length (dumps_ascii (\<lambda>_. ''0.0'') (JObj [(''best_score'', JFloat (Fin r)), (''best_params'', JList [JFloat (Fin q)]),
      (''best_index'', JInt k), (''evaluated'', JInt 2), (''yielded'', JBool False)])) < 1000" if "k = 0 \<or> k = 1" for k
  proof -
    have "length (show_int 0) = 1" "length (show_int 1) = 1" "length (show_int 2) = 1" by code_simp+
    then have "length (show_int k) = 1" "length (show_int 2) = 1" using that by auto
    then show ?thesis by (simp add: dumps_ascii_def float_text_def quote_ascii_def length_esc_plain)
  qed
  then show "length (dumps_ascii (p_float_repr demo_prims) (JObj panel_out)) < 1000"
    using b by (simp add: panel_out_def run best_output_def demo_prims_def)
qed

lemma panel_job_simps [simp]:
  "jb_job_id panel_job = ''p''" "jb_state panel_job = Queued" "jb_kind panel_job = ''optimize''"
  "jb_workload_id panel_job = Some ''wl''" "jb_input panel_job = js_input panel_spec"
  "mf_kind (jb_manifest panel_job) = ''optimize''" "mf_requires (jb_manifest panel_job) = default_requires"
  "mf_data_classification (jb_manifest panel_job) = ''internal''"
  by (simp_all add: panel_job_def new_job_def new_manifest_def spec_request_def panel_spec_def optimize_tile_def)

definition panel_result :: result_request where
  "panel_result = \<lparr>rs_worker_id = ''w'', rs_job_id = ''p'', rs_status = StCompleted, rs_output = Some panel_out,
     rs_proof_sha256 = None, rs_duration_s = None, rs_units = 2\<rparr>"

definition demo_merge :: merge_env where
  "demo_merge = \<lparr>me_conv = demo_conv, me_float_mean = (\<lambda>_. Inr (Fin 0)), me_risk = (\<lambda>_. Inr [])\<rparr>"

lemma panel_done:
  assumes "db_workers s = db_workers tiered_db" "db_jobs s = [panel_job]"
  shows "\<exists>s2. (fleet_step demo_prims)\<^sup>*\<^sup>* s s2 \<and> (\<exists>j. db_jobs s2 = [j] \<and> jb_workload_id j = Some ''wl'' \<and> jb_job_id j = ''p'' \<and>
     jb_kind j = ''optimize'' \<and> jb_state j = Completed \<and> jb_result j = Some panel_out \<and> jb_input j = js_input panel_spec)"
proof -
  let ?s1 = "take_lease ''w'' ''p'' 50000000 5000001 s"
  let ?j = "leased_to ''w'' 50000000 5000001 panel_job"
  have route: "may_route ''internal'' ''managed''"
    by (simp add: may_route_def MIN_TIER_FOR_CLASSIFICATION_def TIERS_def)
  have pick: "pick_job_for s (default_capability ''w'') None = Some panel_job"
    using assms route by (simp add: pick_job_for_def queued_jobs_def select_where_def device_tier_def find_worker_def tiered_rows
      capability_match_def default_requires_def default_capability_def)
  have lease: "lease_section ''w'' (default_capability ''w'') None 0 30000000 5000001 s = (?s1, Some panel_job)"
    using pick assms by (simp add: lease_section_def worker_busy_def holds_lease_def defer_to_less_loaded_def live_free_peer_def
        select_where_def tiered_rows lease_deadline_def LEASE_SECONDS_def seconds_def find_worker_def)
  have jobs1: "db_jobs ?s1 = [?j]" using assms by (simp add: take_lease_def queued_with_id_def)
  have small: "\<not> MAX_RESULT_OUTPUT_BYTES < length (dumps_ascii (p_float_repr demo_prims) (JObj panel_out))"
    using panel_out(2) by (simp add: MAX_RESULT_OUTPUT_BYTES_def)
  have res: "results_section demo_prims panel_result 6000000 6000000 ?s1
      = accept_result demo_prims ?j ''w'' panel_out 6000000 6000000 ?s1"
    using jobs1 small by (simp add: results_section_def panel_result_def completed_result_def Let_def find_job_def select_where_def)
  let ?s2 = "fst (accept_result demo_prims ?j ''w'' panel_out 6000000 6000000 ?s1)"
  have "fleet_step demo_prims s ?s1" using fleet_step.Lease [OF lease] .
  moreover have "fleet_step demo_prims ?s1 ?s2"
    using fleet_step.Result [of demo_prims panel_result 6000000 6000000 ?s1 ?s2 "snd (accept_result demo_prims ?j ''w'' panel_out 6000000 6000000 ?s1)"] res by simp
  ultimately have "(fleet_step demo_prims)\<^sup>*\<^sup>* s ?s2" by simp
  moreover have "db_jobs ?s2 = [completed_with panel_out 6000000 ?j]"
    using jobs1 by (simp add: accept_result_def held_by_def)
  ultimately show ?thesis by (intro exI [of _ ?s2]) (auto simp: completed_with_def)
qed

theorem optimize_panel_shows_best_witness:
  "\<exists>s1 s2 v whole. launch_workload demo_prims demo_config (demo_clock 4) (\<lambda>_. ''p'') ''wl'' panel_launch None tiered_db = (s1, Inr v) \<and>
     (fleet_step demo_prims)\<^sup>*\<^sup>* s1 s2 \<and> optimize demo_lib demo_conv (js_input panel_spec) never = Inr whole \<and>
     aggregate_workload demo_merge ''optimize'' (workload_outputs ''wl'' s2) = Some (butlast whole)"
proof -
  let ?resp = "\<lparr>wl_workload_id = ''wl'', wl_kind = ''optimize'', wl_job_ids = [''p'']\<rparr>"
  obtain s1 where s1: "launch_workload demo_prims demo_config (demo_clock 4) (\<lambda>_. ''p'') ''wl'' panel_launch None tiered_db = (s1, Inr ?resp)"
    "db_workers s1 = db_workers tiered_db" "db_jobs s1 = [panel_job]" using panel_launched by blast
  obtain s2 j where s2: "(fleet_step demo_prims)\<^sup>*\<^sup>* s1 s2" "db_jobs s2 = [j]" "jb_workload_id j = Some ''wl''" "jb_job_id j = ''p''"
    "jb_kind j = ''optimize''" "jb_state j = Completed" "jb_result j = Some panel_out" "jb_input j = js_input panel_spec"
    using panel_done [OF s1(2,3)] by blast
  have reach: "reachable demo_prims tiered_db" unfolding tiered_db_def
    by (rule reachable.step [OF demo_reachable(1) fleet_step.Tier]) (simp add: is_valid_tier_def TIERS_def)
  have only: "only_launched ''wl'' (wl_job_ids ?resp) s2" by (simp add: only_launched_def s2)
  have rows: "workload_rows ''wl'' s2 = [j]" by (simp add: workload_rows_def select_where_def s2)
  have honest: "\<forall>j \<in> set (workload_rows ''wl'' s2). done_honestly (\<lambda>input. optimize demo_lib (me_conv demo_merge) input never) j"
    using panel_out(1) by (simp add: rows done_honestly_def s2 demo_merge_def)
  obtain v where panel: "workload_panel demo_merge demo_prims demo_config 0 ''wl'' None s2 =
      (s2, Inr (v, aggregate_workload demo_merge ''optimize'' (workload_outputs ''wl'' s2)))"
    by (simp add: workload_panel_def workload_detail_def and_then_def require_operator_read_token_def demo_config_def rows s2(5))
  from optimize_panel_shows_best [OF reach s1(1) _ _ s2(1) only honest panel, of 2 1 7] s1(1) s2(1)
  show ?thesis by (auto simp: panel_launch_def panel_spec_def demo_merge_def)
qed

end
