(* ===== verification/Migration.thy ===== *)
theory Migration imports Fleet Pyvalue begin

text \<open>
  Opening the database (\<open>src/orchestrator/db.py\<close>, \<open>src/contracts/schema.sql\<close>). A database file is its
  tables as SQLite holds them, columns and rows of cells, so that files of earlier versions, which lack
  some columns, are states too: \<open>init_db\<close> runs the schema script and then adds the columns, each statement
  failing where SQLite fails. \<open>Store.init_db\<close> is what it makes of a new file. The buffered cursor every
  query result is read through is modelled at the end.
\<close>

section \<open>Tables as SQLite holds them\<close>

datatype cell = Null | Text str | Integer int | Real rat

record column =
  co_name :: str
  co_not_null :: bool
  co_default :: cell

record raw_table =
  rt_columns :: "column list"
  rt_rows :: "cell list list"

record raw_db =
  rd_tables :: "(str \<times> raw_table) list"
  rd_indexes :: "(str \<times> str \<times> str) list"   \<comment> \<open>name, table, column\<close>

definition has_column :: "str \<Rightarrow> raw_table \<Rightarrow> bool" where
  "has_column c t \<longleftrightarrow> c \<in> set (map co_name (rt_columns t))"

definition create_table :: "str \<Rightarrow> column list \<Rightarrow> raw_db \<Rightarrow> raw_db" where
  "create_table name cols d =
     (case map_of (rd_tables d) name of
        Some _ \<Rightarrow> d
      | None \<Rightarrow> d\<lparr>rd_tables := rd_tables d @ [(name, \<lparr>rt_columns = cols, rt_rows = []\<rparr>)]\<rparr>)"

definition create_index :: "str \<Rightarrow> str \<Rightarrow> str \<Rightarrow> raw_db \<Rightarrow> py_error + raw_db" where
  "create_index index tbl c d =
     (if index \<in> fst ` set (rd_indexes d) then Inr d
      else case map_of (rd_tables d) tbl of
        None \<Rightarrow> Inl (OtherError ''OperationalError'')
      | Some t \<Rightarrow>
          if has_column c t then Inr (d\<lparr>rd_indexes := rd_indexes d @ [(index, tbl, c)]\<rparr>)
          else Inl (OtherError ''OperationalError''))"

text \<open>\<open>ALTER TABLE .. ADD COLUMN\<close>: the rows there are take the default of the new column.\<close>

definition add_column :: "str \<Rightarrow> column \<Rightarrow> raw_db \<Rightarrow> py_error + raw_db" where
  "add_column tbl c d =
     (case map_of (rd_tables d) tbl of
        None \<Rightarrow> Inl (OtherError ''OperationalError'')
      | Some t \<Rightarrow>
          if has_column (co_name c) t \<or> co_not_null c \<and> co_default c = Null then Inl (OtherError ''OperationalError'')
          else Inr (d\<lparr>rd_tables := map (\<lambda>(n, u). if n = tbl
                   then (n, \<lparr>rt_columns = rt_columns u @ [c], rt_rows = map (\<lambda>r. r @ [co_default c]) (rt_rows u)\<rparr>)
                   else (n, u)) (rd_tables d)\<rparr>))"

text \<open>\<open>try: .. except sqlite3.OperationalError: pass\<close>\<close>

definition swallow :: "(py_error + raw_db) \<Rightarrow> raw_db \<Rightarrow> raw_db" where
  "swallow r d = (case r of Inl _ \<Rightarrow> d | Inr d' \<Rightarrow> d')"

section \<open>The schema\<close>

abbreviation plain :: "str \<Rightarrow> column" where
  "plain n \<equiv> \<lparr>co_name = n, co_not_null = False, co_default = Null\<rparr>"

abbreviation required :: "str \<Rightarrow> column" where
  "required n \<equiv> \<lparr>co_name = n, co_not_null = True, co_default = Null\<rparr>"

abbreviation defaulted :: "str \<Rightarrow> cell \<Rightarrow> column" where
  "defaulted n v \<equiv> \<lparr>co_name = n, co_not_null = True, co_default = v\<rparr>"

definition worker_columns :: "column list" where
  "worker_columns =
     [plain ''worker_id'', required ''token'', required ''capability_json'', defaulted ''class_weight'' (Integer 1),
      plain ''free_ram_gb'', defaulted ''idle'' (Integer 1), plain ''cpu_pct'', plain ''gpu_pct'',
      defaulted ''on_ac'' (Integer 1), defaulted ''blacklisted'' (Integer 0), defaulted ''approved'' (Integer 1),
      defaulted ''trust_tier'' (Text ''untrusted''), defaulted ''tier_pinned'' (Integer 0), plain ''device_code'',
      plain ''last_heartbeat'', required ''registered_at'', plain ''cert_fingerprint'']"

definition job_columns :: "column list" where
  "job_columns =
     [plain ''job_id'', required ''kind'', required ''manifest_json'', plain ''input_json'',
      defaulted ''state'' (Text ''queued''), defaulted ''units'' (Integer 1), plain ''workload_id'',
      plain ''assigned_worker'', plain ''lease_expires'', plain ''result_json'', defaulted ''attempts'' (Integer 0),
      required ''created_at'', required ''updated_at'']"

definition ledger_columns :: "column list" where
  "ledger_columns = [plain ''id'', required ''worker_id'', plain ''job_id'', required ''credits'', plain ''reason'', required ''created_at'']"

definition event_columns :: "column list" where
  "event_columns =
     [plain ''id'', required ''ts'', required ''type'', plain ''worker_id'', plain ''job_id'', plain ''detail'',
      plain ''prev_hash'', plain ''hash'']"

definition profile_columns :: "column list" where
  "profile_columns = [plain ''worker_id'', required ''buckets_json'', defaulted ''coverage'' (Integer 0), required ''updated_at'']"

definition run_schema :: "raw_db \<Rightarrow> py_error + raw_db" where
  "run_schema d =
     bind_err (create_index ''idx_jobs_state'' ''jobs'' ''state''
         (create_table ''ledger'' ledger_columns (create_table ''jobs'' job_columns (create_table ''workers'' worker_columns d))))
       (\<lambda>d. bind_err (create_index ''idx_ledger_worker'' ''ledger'' ''worker_id'' d)
       (\<lambda>d. Inr (create_table ''worker_profiles'' profile_columns (create_table ''events'' event_columns d))))"

text \<open>The columns added since the first version, in the order \<open>init_db\<close> adds them.\<close>

definition added_columns :: "(str \<times> column) list" where
  "added_columns =
     [(''events'', plain ''prev_hash''), (''events'', plain ''hash''), (''workers'', plain ''cert_fingerprint''),
      (''workers'', defaulted ''trust_tier'' (Text ''untrusted'')), (''workers'', defaulted ''tier_pinned'' (Integer 0))]"

definition add_columns :: "(str \<times> column) list \<Rightarrow> raw_db \<Rightarrow> raw_db" where
  "add_columns cs d = fold (\<lambda>(tbl, c) d. swallow (add_column tbl c d) d) cs d"

definition open_db :: "raw_db \<Rightarrow> py_error + raw_db" where
  "open_db d = bind_err (run_schema d) (\<lambda>d. Inr (add_columns added_columns d))"

definition empty_file :: raw_db where
  "empty_file = \<lparr>rd_tables = [], rd_indexes = []\<rparr>"

section \<open>What a statement keeps\<close>

text \<open>
  A table keeps its data: the old columns come first, in place, every old row keeps its cells, and the
  cells it gains are defaults of columns from the list \<open>A\<close>.
\<close>

definition table_extends :: "column set \<Rightarrow> raw_table \<Rightarrow> raw_table \<Rightarrow> bool" where
  "table_extends A t u \<longleftrightarrow> (\<exists>cs. set cs \<subseteq> A \<and> rt_columns u = rt_columns t @ cs \<and>
     rt_rows u = map (\<lambda>r. r @ map co_default cs) (rt_rows t))"

definition db_extends :: "(str \<times> column) list \<Rightarrow> raw_db \<Rightarrow> raw_db \<Rightarrow> bool" where
  "db_extends cs d e \<longleftrightarrow> (\<forall>n t. map_of (rd_tables d) n = Some t \<longrightarrow>
     (\<exists>u. map_of (rd_tables e) n = Some u \<and> table_extends {c. (n, c) \<in> set cs} t u)) \<and>
     set (rd_indexes d) \<subseteq> set (rd_indexes e)"

lemma table_extends_refl [simp]: "table_extends A t t"
  by (auto simp: table_extends_def)

lemma table_extends_trans: "table_extends A t u \<Longrightarrow> table_extends A u v \<Longrightarrow> table_extends A t v"
proof -
  assume "table_extends A t u" "table_extends A u v"
  then obtain cs ds where "set cs \<subseteq> A" "rt_columns u = rt_columns t @ cs" "rt_rows u = map (\<lambda>r. r @ map co_default cs) (rt_rows t)"
    "set ds \<subseteq> A" "rt_columns v = rt_columns u @ ds" "rt_rows v = map (\<lambda>r. r @ map co_default ds) (rt_rows u)"
    by (auto simp: table_extends_def)
  then show ?thesis unfolding table_extends_def by (intro exI [of _ "cs @ ds"]) auto
qed

lemma table_extends_column: "table_extends A t u \<Longrightarrow> has_column c t \<Longrightarrow> has_column c u"
  by (auto simp: table_extends_def has_column_def)

lemma db_extends_refl [simp]: "db_extends cs d d"
  by (simp add: db_extends_def)

lemma db_extends_trans: "db_extends cs d e \<Longrightarrow> db_extends cs e f \<Longrightarrow> db_extends cs d f"
  unfolding db_extends_def by (meson table_extends_trans subset_trans)

lemma create_table_extends: "db_extends A d (create_table n cs d)"
  by (auto simp: db_extends_def create_table_def map_add_Some_iff split: option.splits)

lemma create_index_extends: "create_index i t c d = Inr e \<Longrightarrow> db_extends A d e"
  by (auto simp: create_index_def db_extends_def split: if_splits option.splits)

lemma map_of_map_table:
  "map_of (map (\<lambda>(n, u). if n = k then (n, f u) else (n, u)) ts) m = (if m = k then map_option f (map_of ts m) else map_of ts m)"
  by (induction ts) auto

lemma add_column_extends:
  "add_column tbl c d = Inr e \<Longrightarrow> (tbl, c) \<in> set A \<Longrightarrow> db_extends A d e"
  by (auto simp: add_column_def db_extends_def map_of_map_table table_extends_def split: option.splits if_splits
      intro!: exI [of _ "[c]"])

lemma add_columns_extends: "set cs \<subseteq> set A \<Longrightarrow> db_extends A d (add_columns cs d)"
proof (induction cs arbitrary: d)
  case (Cons tc cs)
  obtain tbl c where tc: "tc = (tbl, c)" by (cases tc)
  have "db_extends A d (swallow (add_column tbl c d) d)"
    using Cons.prems tc by (auto simp: swallow_def split: sum.splits intro: add_column_extends)
  then show ?case using Cons.IH [of "swallow (add_column tbl c d) d"] Cons.prems tc
    by (auto simp: add_columns_def intro: db_extends_trans)
qed (simp add: add_columns_def)

lemma create_table_after: "db_extends A c d \<Longrightarrow> db_extends A c (create_table n cs d)"
  by (rule db_extends_trans [OF _ create_table_extends])

lemma run_schema_extends:
  assumes "run_schema d = Inr e"
  shows "db_extends A d e"
proof -
  obtain d1 d2 where i: "create_index ''idx_jobs_state'' ''jobs'' ''state''
        (create_table ''ledger'' ledger_columns (create_table ''jobs'' job_columns (create_table ''workers'' worker_columns d))) = Inr d1"
    "create_index ''idx_ledger_worker'' ''ledger'' ''worker_id'' d1 = Inr d2"
    and e: "e = create_table ''worker_profiles'' profile_columns (create_table ''events'' event_columns d2)"
    using assms by (auto simp: run_schema_def bind_err_Inr)
  have "db_extends A d d1" by (rule db_extends_trans [OF _ create_index_extends [OF i(1)]]) (intro create_table_after db_extends_refl)
  then have "db_extends A d d2" by (rule db_extends_trans [OF _ create_index_extends [OF i(2)]])
  then show ?thesis unfolding e by (intro create_table_after)
qed

lemma open_db_extends: "open_db d = Inr e \<Longrightarrow> db_extends added_columns d e"
  by (auto simp: open_db_def bind_err_Inr intro: db_extends_trans run_schema_extends add_columns_extends)

section \<open>After opening, every column is there\<close>

definition has :: "raw_db \<Rightarrow> str \<Rightarrow> str \<Rightarrow> bool" where
  "has d tbl c \<longleftrightarrow> (\<exists>t. map_of (rd_tables d) tbl = Some t \<and> has_column c t)"

definition schema :: "(str \<times> column list) list" where
  "schema = [(''workers'', worker_columns), (''jobs'', job_columns), (''ledger'', ledger_columns), (''events'', event_columns),
     (''worker_profiles'', profile_columns)]"

text \<open>
  What is known of the releases, written out column by column and apart from the code above: the columns
  every release had from the start, and those that came later, with the value a row of before has in them.
\<close>

definition first_columns :: "(str \<times> str list) list" where
  "first_columns =
     [(''workers'', [''worker_id'', ''token'', ''capability_json'', ''class_weight'', ''free_ram_gb'', ''idle'', ''cpu_pct'',
         ''gpu_pct'', ''on_ac'', ''blacklisted'', ''approved'', ''device_code'', ''last_heartbeat'', ''registered_at'']),
      (''jobs'', [''job_id'', ''kind'', ''manifest_json'', ''input_json'', ''state'', ''units'', ''workload_id'',
         ''assigned_worker'', ''lease_expires'', ''result_json'', ''attempts'', ''created_at'', ''updated_at'']),
      (''ledger'', [''id'', ''worker_id'', ''job_id'', ''credits'', ''reason'', ''created_at'']),
      (''events'', [''id'', ''ts'', ''type'', ''worker_id'', ''job_id'', ''detail'']),
      (''worker_profiles'', [''worker_id'', ''buckets_json'', ''coverage'', ''updated_at''])]"

definition later_columns :: "(str \<times> str \<times> cell) list" where
  "later_columns =
     [(''events'', ''prev_hash'', Null), (''events'', ''hash'', Null), (''workers'', ''cert_fingerprint'', Null),
      (''workers'', ''trust_tier'', Text ''untrusted''), (''workers'', ''tier_pinned'', Integer 0)]"

text \<open>A file of any release: a table may be missing, but one that is there has its first columns.\<close>

definition known_file :: "raw_db \<Rightarrow> bool" where
  "known_file d \<longleftrightarrow> list_all (\<lambda>(tbl, names). case map_of (rd_tables d) tbl of
       None \<Rightarrow> True
     | Some t \<Rightarrow> list_all (\<lambda>c. has_column c t) names) first_columns"

text \<open>What the proofs use of it: only columns \<open>init_db\<close> adds are missing.\<close>

definition only_added_missing :: "raw_db \<Rightarrow> bool" where
  "only_added_missing d \<longleftrightarrow> list_all (\<lambda>(tbl, cols). case map_of (rd_tables d) tbl of
       None \<Rightarrow> True
     | Some t \<Rightarrow> list_all (\<lambda>c. has_column (co_name c) t \<or> (tbl, c) \<in> set added_columns) cols) schema"

lemma known_only_added_missing: "known_file d \<Longrightarrow> only_added_missing d"
  by (simp add: known_file_def only_added_missing_def first_columns_def schema_def worker_columns_def job_columns_def
      ledger_columns_def event_columns_def profile_columns_def added_columns_def split: option.splits)

lemma has_extends: "db_extends A d e \<Longrightarrow> has d tbl c \<Longrightarrow> has e tbl c"
proof -
  assume ext: "db_extends A d e" and "has d tbl c"
  then obtain t where t: "map_of (rd_tables d) tbl = Some t" "has_column c t" by (auto simp: has_def)
  with ext obtain u where "map_of (rd_tables e) tbl = Some u" "table_extends {c. (tbl, c) \<in> set A} t u"
    unfolding db_extends_def by blast
  with t show ?thesis by (auto simp: has_def intro: table_extends_column)
qed

lemma known_column:
  assumes "only_added_missing d" "(tbl, cols) \<in> set schema" "c \<in> set cols" "(tbl, c) \<notin> set added_columns"
    "map_of (rd_tables d) tbl = Some t"
  shows "has_column (co_name c) t"
proof -
  have "case (tbl, cols) of (tbl, cols) \<Rightarrow> (case map_of (rd_tables d) tbl of None \<Rightarrow> True
     | Some t \<Rightarrow> list_all (\<lambda>c. has_column (co_name c) t \<or> (tbl, c) \<in> set added_columns) cols)"
    using assms(1,2) unfolding only_added_missing_def list_all_iff by (rule bspec)
  then show ?thesis using assms(3-5) by (auto simp: list_all_iff)
qed

text \<open>The schema script runs: every table it indexes has the indexed column, and after it every table is there.\<close>

lemma create_table_has:
  "map_of (rd_tables (create_table n cols d)) m =
     (case map_of (rd_tables d) m of Some t \<Rightarrow> Some t
      | None \<Rightarrow> if m = n then Some \<lparr>rt_columns = cols, rt_rows = []\<rparr> else None)"
  by (auto simp: create_table_def map_add_def split: option.splits)

lemma create_index_runs: "map_of (rd_tables d) tbl = Some t \<Longrightarrow> has_column c t \<Longrightarrow>
    \<exists>e. create_index i tbl c d = Inr e \<and> rd_tables e = rd_tables d"
  by (auto simp: create_index_def)

lemma run_schema_runs:
  assumes "only_added_missing d"
  shows "\<exists>e. run_schema d = Inr e \<and> (\<forall>(tbl, cols) \<in> set schema. map_of (rd_tables e) tbl =
    (case map_of (rd_tables d) tbl of Some t \<Rightarrow> Some t | None \<Rightarrow> Some \<lparr>rt_columns = cols, rt_rows = []\<rparr>))"
proof -
  let ?d3 = "create_table ''ledger'' ledger_columns (create_table ''jobs'' job_columns (create_table ''workers'' worker_columns d))"
  obtain t where t: "map_of (rd_tables ?d3) ''jobs'' = Some t" "has_column ''state'' t"
  proof (cases "map_of (rd_tables d) ''jobs''")
    case None
    then show thesis by (intro that [of "\<lparr>rt_columns = job_columns, rt_rows = []\<rparr>"])
        (simp_all add: create_table_has has_column_def job_columns_def)
  next
    case (Some u)
    have "has_column (co_name (defaulted ''state'' (Text ''queued''))) u"
      by (rule known_column [OF assms, of "''jobs''" job_columns]) (simp_all add: schema_def job_columns_def added_columns_def Some)
    then show thesis using Some by (intro that [of u]) (simp_all add: create_table_has)
  qed
  obtain d1 where d1: "create_index ''idx_jobs_state'' ''jobs'' ''state'' ?d3 = Inr d1" "rd_tables d1 = rd_tables ?d3"
    using create_index_runs [OF t] by blast
  obtain u where u: "map_of (rd_tables d1) ''ledger'' = Some u" "has_column ''worker_id'' u"
  proof (cases "map_of (rd_tables d) ''ledger''")
    case None
    then show thesis by (intro that [of "\<lparr>rt_columns = ledger_columns, rt_rows = []\<rparr>"])
        (simp_all add: d1(2) create_table_has has_column_def ledger_columns_def)
  next
    case (Some u)
    have "has_column (co_name (required ''worker_id'')) u"
      by (rule known_column [OF assms, of "''ledger''" ledger_columns]) (simp_all add: schema_def ledger_columns_def added_columns_def Some)
    then show thesis using Some by (intro that [of u]) (simp_all add: d1(2) create_table_has)
  qed
  obtain d2 where d2: "create_index ''idx_ledger_worker'' ''ledger'' ''worker_id'' d1 = Inr d2" "rd_tables d2 = rd_tables d1"
    using create_index_runs [OF u] by blast
  have "run_schema d = Inr (create_table ''worker_profiles'' profile_columns (create_table ''events'' event_columns d2))"
    using d1(1) d2(1) by (simp add: run_schema_def bind_err_def)
  then show ?thesis by (intro exI conjI) (auto simp: schema_def create_table_has d2(2) d1(2) split: option.splits)
qed

lemma add_column_has:
  assumes "map_of (rd_tables d) tbl = Some t" "\<not> (co_not_null c \<and> co_default c = Null)"
  shows "has (swallow (add_column tbl c d) d) tbl (co_name c)"
  using assms by (auto simp: swallow_def add_column_def has_def map_of_map_table has_column_def)

lemma add_columns_has:
  assumes "(tbl, c) \<in> set cs" "\<forall>(tbl, c) \<in> set cs. (\<exists>t. map_of (rd_tables d) tbl = Some t) \<and> \<not> (co_not_null c \<and> co_default c = Null)"
  shows "has (add_columns cs d) tbl (co_name c)"
  using assms
proof (induction cs arbitrary: d)
  case (Cons tc cs)
  obtain tbl' c' where tc: "tc = (tbl', c')" by (cases tc)
  let ?d = "swallow (add_column tbl' c' d) d"
  have ext: "db_extends [tc] d ?d"
    by (auto simp: swallow_def tc split: sum.splits intro: add_column_extends)
  have step: "add_columns (tc # cs) d = add_columns cs ?d" by (simp add: add_columns_def tc)
  show ?case
  proof (cases "(tbl, c) = tc")
    case True
    then have "has ?d tbl (co_name c)" using Cons.prems(2) tc by (auto intro: add_column_has)
    then show ?thesis unfolding step by (rule has_extends [OF add_columns_extends [OF order_refl]])
  next
    case False
    moreover have "\<exists>u. map_of (rd_tables ?d) n = Some u" if "map_of (rd_tables d) n = Some t" for n t
      using ext that unfolding db_extends_def by blast
    ultimately show ?thesis unfolding step using Cons.prems by (intro Cons.IH) (simp, fastforce)
  qed
qed simp

definition opened :: "raw_db \<Rightarrow> bool" where
  "opened e \<longleftrightarrow> (\<forall>(tbl, cols) \<in> set schema. \<forall>c \<in> set cols. has e tbl (co_name c)) \<and>
     {''idx_jobs_state'', ''idx_ledger_worker''} \<subseteq> fst ` set (rd_indexes e)"

lemma has_table: "has d tbl c \<Longrightarrow> create_table tbl cols d = d"
  by (auto simp: has_def create_table_def)

lemma opened_again:
  assumes "opened e"
  shows "open_db e = Inr e"
proof -
  have t: "has e ''workers'' ''worker_id''" "has e ''jobs'' ''job_id''" "has e ''ledger'' ''id''" "has e ''events'' ''id''"
    "has e ''worker_profiles'' ''worker_id''" "has e ''events'' ''prev_hash''" "has e ''events'' ''hash''"
    "has e ''workers'' ''cert_fingerprint''" "has e ''workers'' ''trust_tier''" "has e ''workers'' ''tier_pinned''"
    using assms by (simp_all add: opened_def schema_def worker_columns_def job_columns_def ledger_columns_def event_columns_def
        profile_columns_def)
  have "run_schema e = Inr e"
    using assms t has_table [OF t(1)] has_table [OF t(2)] has_table [OF t(3)] has_table [OF t(4)] has_table [OF t(5)]
    by (auto simp: run_schema_def create_index_def opened_def bind_err_def)
  moreover have "swallow (add_column tbl c e) e = e" if "has e tbl (co_name c)" for tbl c
    using that by (auto simp: swallow_def add_column_def has_def)
  then have "add_columns added_columns e = e" using t by (simp add: add_columns_def added_columns_def)
  ultimately show ?thesis by (simp add: open_db_def bind_err_def)
qed

lemma run_schema_indexes:
  assumes "run_schema d = Inr e"
  shows "{''idx_jobs_state'', ''idx_ledger_worker''} \<subseteq> fst ` set (rd_indexes e)"
proof -
  define names where "names d = fst ` set (rd_indexes d)" for d :: raw_db
  have idx: "i \<in> names d2 \<and> names d1 \<subseteq> names d2" if "create_index i t c d1 = Inr d2" for i t c d1 d2
    using that by (auto simp: create_index_def names_def split: if_splits option.splits)
  have keep: "names (create_table n cols d) = names d" for n cols d
    by (auto simp: create_table_def names_def split: option.splits)
  have "{''idx_jobs_state'', ''idx_ledger_worker''} \<subseteq> names e"
    using assms by (auto simp: run_schema_def bind_err_Inr keep dest!: idx)
  then show ?thesis by (simp add: names_def)
qed

lemma open_db_opens:
  assumes "only_added_missing d"
  shows "\<exists>e. open_db d = Inr e \<and> opened e"
proof -
  obtain e0 where e0: "run_schema d = Inr e0" and tables: "\<And>tbl cols. (tbl, cols) \<in> set schema \<Longrightarrow> map_of (rd_tables e0) tbl =
    (case map_of (rd_tables d) tbl of Some t \<Rightarrow> Some t | None \<Rightarrow> Some \<lparr>rt_columns = cols, rt_rows = []\<rparr>)"
    using run_schema_runs [OF assms] by blast
  let ?e = "add_columns added_columns e0"
  have there: "\<exists>t. map_of (rd_tables e0) tbl = Some t" if "(tbl, cols) \<in> set schema" for tbl cols
    using tables [OF that] by (cases "map_of (rd_tables d) tbl") auto
  have ext: "db_extends added_columns e0 ?e" by (rule add_columns_extends) simp
  have "has ?e tbl (co_name c)" if in_schema: "(tbl, cols) \<in> set schema" "c \<in> set cols" for tbl cols c
  proof (cases "(tbl, c) \<in> set added_columns")
    case True
    then show ?thesis
    proof (rule add_columns_has)
      show "\<forall>(tbl, c) \<in> set added_columns. (\<exists>t. map_of (rd_tables e0) tbl = Some t) \<and> \<not> (co_not_null c \<and> co_default c = Null)"
        using there [of "''events''" event_columns] there [of "''workers''" worker_columns]
        by (simp add: added_columns_def schema_def)
    qed
  next
    case False
    have "has e0 tbl (co_name c)"
      using tables [OF in_schema(1)] known_column [OF assms in_schema False] in_schema(2)
      by (cases "map_of (rd_tables d) tbl") (auto simp: has_def has_column_def)
    then show ?thesis by (rule has_extends [OF ext])
  qed
  moreover have "{''idx_jobs_state'', ''idx_ledger_worker''} \<subseteq> fst ` set (rd_indexes ?e)"
    using run_schema_indexes [OF e0] ext by (fastforce simp: db_extends_def)
  ultimately have "opened ?e" unfolding opened_def by blast
  then show ?thesis using e0 by (auto simp: open_db_def bind_err_def)
qed

section \<open>Devices of an earlier version\<close>

definition cell_of :: "raw_table \<Rightarrow> cell list \<Rightarrow> str \<Rightarrow> cell option" where
  "cell_of t r c = map_of (zip (map co_name (rt_columns t)) r) c"

definition table_wf :: "raw_table \<Rightarrow> bool" where
  "table_wf t \<longleftrightarrow> (\<forall>r \<in> set (rt_rows t). length r = length (rt_columns t))"

lemma cell_of_extends:
  assumes "rt_columns u = rt_columns t @ cs" "length r = length (rt_columns t)"
  shows "cell_of u (r @ map co_default cs) c =
    (if has_column c t then cell_of t r c else map_option co_default (map_of (map (\<lambda>k. (co_name k, k)) cs) c))"
proof -
  have new: "map_of (zip (map co_name cs) (map co_default cs)) = map_option co_default \<circ> map_of (map (\<lambda>k. (co_name k, k)) cs)" for cs
    by (induction cs) auto
  have "cell_of u (r @ map co_default cs) c =
      (case cell_of t r c of None \<Rightarrow> map_of (zip (map co_name cs) (map co_default cs)) c | Some v \<Rightarrow> Some v)"
    using assms by (simp add: cell_of_def map_add_def)
  moreover have "cell_of t r c = None \<longleftrightarrow> \<not> has_column c t"
    using assms(2) by (simp add: cell_of_def has_column_def map_of_zip_is_None)
  ultimately show ?thesis by (cases "cell_of t r c") (auto simp: new)
qed

lemma gained_cells:
  assumes ext: "table_extends {k. (tbl, k) \<in> set added_columns} t u" "table_wf t" "has_column c u"
    "\<not> has_column c t" "i < length (rt_rows t)" "(tbl, c, v) \<in> set later_columns"
  shows "cell_of u (rt_rows u ! i) c = Some v"
proof -
  obtain cs where cs: "set cs \<subseteq> {k. (tbl, k) \<in> set added_columns}" "rt_columns u = rt_columns t @ cs"
    "rt_rows u = map (\<lambda>r. r @ map co_default cs) (rt_rows t)" using ext(1) by (auto simp: table_extends_def)
  have len: "length (rt_rows t ! i) = length (rt_columns t)" using assms(2,5) by (auto simp: table_wf_def)
  have "c \<in> set (map co_name cs)" using assms(3,4) cs(2) by (auto simp: has_column_def)
  then obtain k where k: "map_of (map (\<lambda>k. (co_name k, k)) cs) c = Some k"
    by (cases "map_of (map (\<lambda>k. (co_name k, k)) cs) c") (auto simp: map_of_eq_None_iff image_image)
  then have "k \<in> set cs" "co_name k = c" using map_of_SomeD [OF k] by auto
  then have "co_default k = v" using cs(1) assms(6) by (auto simp: added_columns_def later_columns_def)
  then show ?thesis using cell_of_extends [OF cs(2) len, of c] assms(4,5) k by (simp add: cs(3))
qed

lemma opened_columns:
  assumes "opened e"
  shows "\<forall>(tbl, names) \<in> set first_columns. \<forall>c \<in> set names. has e tbl c" "\<forall>(tbl, c, v) \<in> set later_columns. has e tbl c"
  using assms by (simp_all add: opened_def first_columns_def later_columns_def schema_def worker_columns_def job_columns_def
      ledger_columns_def event_columns_def profile_columns_def)

lemma table_extends_mono: "table_extends A t u \<Longrightarrow> A \<subseteq> B \<Longrightarrow> table_extends B t u"
  unfolding table_extends_def by blast

text \<open>C24. Opening a database file of any release succeeds and upgrades it: afterwards every column the first
  release had and every column that came later (certificate fingerprint, trust tier, tier pin, and the two
  hashes of the audit chain) is there, no table loses a row, a column or a cell, and opening it again
  changes nothing. A row from before such a column existed reads as the value fixed for it: no certificate,
  no hashes, an unpinned tier, and the lowest tier, which may only be given public work.\<close>

theorem opening_upgrades:
  assumes "known_file d"
  shows "\<exists>e. open_db d = Inr e \<and> open_db e = Inr e \<and>
    (\<forall>(tbl, names) \<in> set first_columns. \<forall>c \<in> set names. has e tbl c) \<and>
    (\<forall>(tbl, c, v) \<in> set later_columns. has e tbl c) \<and>
    (\<forall>tbl t. map_of (rd_tables d) tbl = Some t \<longrightarrow> (\<exists>u. map_of (rd_tables e) tbl = Some u \<and> table_extends UNIV t u \<and>
       (\<forall>c v i. (tbl, c, v) \<in> set later_columns \<longrightarrow> table_wf t \<longrightarrow> \<not> has_column c t \<longrightarrow> i < length (rt_rows t) \<longrightarrow>
          cell_of u (rt_rows u ! i) c = Some v))) \<and>
    (\<forall>c. may_route c ''untrusted'' \<longleftrightarrow> c = ''public'')"
proof -
  obtain e where e: "open_db d = Inr e" "opened e"
    using open_db_opens [OF known_only_added_missing [OF assms]] by blast
  have ext: "db_extends added_columns d e" by (rule open_db_extends [OF e(1)])
  have route: "may_route c ''untrusted'' \<longleftrightarrow> c = ''public''" for c
    by (auto simp: may_route_def MIN_TIER_FOR_CLASSIFICATION_def TIERS_def)
  have rows: "\<exists>u. map_of (rd_tables e) tbl = Some u \<and> table_extends UNIV t u \<and>
      (\<forall>c v i. (tbl, c, v) \<in> set later_columns \<longrightarrow> table_wf t \<longrightarrow> \<not> has_column c t \<longrightarrow> i < length (rt_rows t) \<longrightarrow>
         cell_of u (rt_rows u ! i) c = Some v)" if t: "map_of (rd_tables d) tbl = Some t" for tbl t
  proof -
    from ext t obtain u where u: "map_of (rd_tables e) tbl = Some u" "table_extends {k. (tbl, k) \<in> set added_columns} t u"
      unfolding db_extends_def by blast
    have "has_column c u" if "(tbl, c, v) \<in> set later_columns" for c v
      using bspec [OF opened_columns(2) [OF e(2)] that] u(1) by (simp add: has_def)
    then show ?thesis using u table_extends_mono [OF u(2) subset_UNIV] gained_cells [OF u(2)]
      by (intro exI [of _ u]) blast
  qed
  show ?thesis using rows route opened_columns [OF e(2)]
    by (intro exI [of _ e] conjI e(1) opened_again [OF e(2)]) blast+
qed

definition first_version :: raw_db where
  "first_version = \<lparr>rd_tables = [(''workers'', \<lparr>rt_columns = filter (\<lambda>c. co_name c \<notin> {''trust_tier'', ''tier_pinned'', ''cert_fingerprint''}) worker_columns,
       rt_rows = [[Text ''w'', Text ''tok'', Text ''{}'', Integer 1, Null, Integer 1, Null, Null, Integer 1, Integer 0, Integer 1, Null, Null, Text ''t'']]\<rparr>)],
     rd_indexes = []\<rparr>"

theorem opening_upgrades_witness:
  "\<exists>e u. open_db first_version = Inr e \<and> map_of (rd_tables e) ''workers'' = Some u \<and>
     cell_of u (rt_rows u ! 0) ''trust_tier'' = Some (Text ''untrusted'') \<and>
     cell_of u (rt_rows u ! 0) ''tier_pinned'' = Some (Integer 0)"
proof -
  let ?t = "\<lparr>rt_columns = filter (\<lambda>c. co_name c \<notin> {''trust_tier'', ''tier_pinned'', ''cert_fingerprint''}) worker_columns,
       rt_rows = [[Text ''w'', Text ''tok'', Text ''{}'', Integer 1, Null, Integer 1, Null, Null, Integer 1, Integer 0, Integer 1, Null, Null, Text ''t'']]\<rparr>"
  have known: "known_file first_version"
    by (simp add: known_file_def first_columns_def first_version_def has_column_def worker_columns_def)
  have t: "map_of (rd_tables first_version) ''workers'' = Some ?t" "table_wf ?t" "\<not> has_column ''trust_tier'' ?t"
    "\<not> has_column ''tier_pinned'' ?t" "0 < length (rt_rows ?t)"
    by (simp_all add: first_version_def table_wf_def has_column_def worker_columns_def)
  have later: "(''workers'', ''trust_tier'', Text ''untrusted'') \<in> set later_columns"
    "(''workers'', ''tier_pinned'', Integer 0) \<in> set later_columns" by (simp_all add: later_columns_def)
  obtain e where e: "open_db first_version = Inr e"
    "\<forall>tbl t. map_of (rd_tables first_version) tbl = Some t \<longrightarrow> (\<exists>u. map_of (rd_tables e) tbl = Some u \<and> table_extends UNIV t u \<and>
       (\<forall>c v i. (tbl, c, v) \<in> set later_columns \<longrightarrow> table_wf t \<longrightarrow> \<not> has_column c t \<longrightarrow> i < length (rt_rows t) \<longrightarrow>
          cell_of u (rt_rows u ! i) c = Some v))"
    using opening_upgrades [OF known] by (elim exE conjE) (rule that)
  from e(2) [rule_format, OF t(1)] obtain u where u: "map_of (rd_tables e) ''workers'' = Some u"
    "\<And>c v i. (''workers'', c, v) \<in> set later_columns \<Longrightarrow> table_wf ?t \<Longrightarrow> \<not> has_column c ?t \<Longrightarrow> i < length (rt_rows ?t) \<Longrightarrow>
       cell_of u (rt_rows u ! i) c = Some v"
    by (elim exE conjE) (rule that, assumption, elim allE impE, assumption+)
  show ?thesis
    using e(1) u(1) u(2) [OF later(1) t(2,3,5)] u(2) [OF later(2) t(2,4,5)] by blast
qed

section \<open>The audit log of an earlier version\<close>

text \<open>
  The hash columns of events recorded before the chain existed are \<open>NULL\<close>, so \<open>verify_audit_chain\<close> reports
  the oldest of them as a broken link, and goes on reporting it whatever is appended.
\<close>

lemma upgraded_log_never_verifies:
  assumes "sort_key ev_id (db_events s) = e # es" "ev_hash e = None"
  shows "verify_audit_chain P s = \<lparr>ar_ok = False, ar_count = 1, ar_broken_at = Some (ev_id e)\<rparr>"
  using assms by (simp add: verify_audit_chain_def Let_def)

lemma sort_key_append_last: "\<forall>x \<in> set xs. f x < f v \<Longrightarrow> sort_key f (xs @ [v]) = sort_key f xs @ [v]"
proof (induction xs)
  case (Cons x xs)
  have "insort_key f x (ys @ [v]) = insort_key f x ys @ [v]" for ys using Cons.prems by (induction ys) auto
  then show ?case using Cons by simp
qed simp

lemma upgraded_log_stays_broken:
  assumes "sort_key ev_id (db_events s) = e # es" "ev_hash e = None" "\<forall>v \<in> set (db_events s). ev_id v \<le> db_event_seq s"
  shows "ar_broken_at (verify_audit_chain P (emit P now t w j d s)) = Some (ev_id e)"
proof -
  obtain v where v: "db_events (emit P now t w j d s) = db_events s @ [v]" "\<forall>x \<in> set (db_events s). ev_id x < ev_id v"
    using assms(3) by (fastforce simp: emit_def Let_def)
  have "sort_key ev_id (db_events s @ [v]) = sort_key ev_id (db_events s) @ [v]"
    using v(2) by (intro sort_key_append_last) auto
  then have "sort_key ev_id (db_events (emit P now t w j d s)) = e # es @ [v]" using v(1) assms(1) by simp
  then show ?thesis using upgraded_log_never_verifies [OF _ assms(2)] by simp
qed

section \<open>The buffered cursor\<close>

record 'r cursor =
  cu_rows :: "'r list"
  cu_idx :: nat

text \<open>\<open>None\<close>: the statement returns no rows (\<open>fetchall\<close> raises).\<close>

definition buffered :: "'r list option \<Rightarrow> 'r cursor" where
  "buffered fetched = \<lparr>cu_rows = (case fetched of None \<Rightarrow> [] | Some rows \<Rightarrow> rows), cu_idx = 0\<rparr>"

definition cursor_fetchone :: "'r cursor \<Rightarrow> 'r cursor \<times> 'r option" where
  "cursor_fetchone c =
     (if cu_idx c < length (cu_rows c) then (c\<lparr>cu_idx := cu_idx c + 1\<rparr>, Some (cu_rows c ! cu_idx c)) else (c, None))"

definition cursor_fetchall :: "'r cursor \<Rightarrow> 'r cursor \<times> 'r list" where
  "cursor_fetchall c = (c\<lparr>cu_idx := length (cu_rows c)\<rparr>, drop (cu_idx c) (cu_rows c))"

definition cursor_iter :: "'r cursor \<Rightarrow> 'r cursor \<times> 'r list" where
  "cursor_iter c = (c\<lparr>cu_idx := length (cu_rows c)\<rparr>, drop (cu_idx c) (cu_rows c))"

fun fetch_times :: "nat \<Rightarrow> 'r cursor \<Rightarrow> 'r cursor \<times> 'r list" where
  "fetch_times 0 c = (c, [])"
| "fetch_times (Suc n) c =
     (case cursor_fetchone c of
        (c', None) \<Rightarrow> (c', [])
      | (c', Some r) \<Rightarrow> (case fetch_times n c' of (c'', rs) \<Rightarrow> (c'', r # rs)))"

text \<open>However a result is read, one row at a time and then the rest, every row is seen once and in order.\<close>

lemma cursor_reads_once:
  "fetch_times n c = (c', rs) \<Longrightarrow> cu_idx c \<le> length (cu_rows c) \<Longrightarrow>
   rs @ snd (cursor_fetchall c') = drop (cu_idx c) (cu_rows c) \<and> snd (cursor_fetchall (fst (cursor_fetchall c'))) = []"
proof (induction n arbitrary: c c' rs)
  case 0
  then show ?case by (simp add: cursor_fetchall_def)
next
  case (Suc n)
  show ?case
  proof (cases "cu_idx c < length (cu_rows c)")
    case True
    let ?c = "c\<lparr>cu_idx := cu_idx c + 1\<rparr>"
    obtain c2 rs2 where rest: "fetch_times n ?c = (c2, rs2)" by fastforce
    then have "c' = c2" "rs = (cu_rows c ! cu_idx c) # rs2" using Suc.prems True by (auto simp: cursor_fetchone_def)
    then show ?thesis using Suc.IH [OF rest] True by (simp add: Cons_nth_drop_Suc)
  next
    case False
    then show ?thesis using Suc.prems by (simp add: cursor_fetchone_def cursor_fetchall_def)
  qed
qed

end
