(* ===== verification/Observer_Run.thy ===== *)
theory Observer_Run imports Telemetry Measure Worker_Host Startup begin

text \<open>
  \<open>main\<close> of \<open>src/worker/__main__.py\<close> after its arguments are accepted, from taking the profile lock to
  releasing it: the measurement-only observer with its lock, profile, enrolment, restored availability,
  sampling loop and final save, and the job-mode worker. Each run is given what files, sensors and the
  orchestrator answer; \<open>assert_writable\<close> of \<open>src/worker/profiler.py\<close> and the constructor of the
  governor are here too.
\<close>

section \<open>Parts\<close>

text \<open>\<open>AdaptiveGovernor.__init__\<close> with its defaults; \<open>ticks\<close> is the sample that primes the CPU counters.\<close>

definition new_governor :: "usage_profiler \<Rightarrow> idle_gate \<Rightarrow> cpu_ticks \<Rightarrow> governor" where
  "new_governor p ig ticks =
     \<lparr>gv_params = default_params, gv_gate = ig, gv_profiler = p, gv_our_job_uses_gpu = False, gv_over = 0,
      gv_ticks = ticks, gv_last_decision = NoDecision\<rparr>"

definition adaptive_governor :: "rat \<Rightarrow> usage_profiler \<Rightarrow> cpu_ticks \<Rightarrow> governor" where
  "adaptive_governor idle_threshold p ticks =
     new_governor p ((default_gate True)\<lparr>ig_input_idle_threshold_s := idle_threshold\<rparr>) ticks"

text \<open>\<open>assert_writable\<close>: whether it returns, given that the folder could be made and the probe written.\<close>

definition assert_writable :: "bool \<Rightarrow> bool \<Rightarrow> profile_file \<Rightarrow> usage_profiler \<Rightarrow> bool" where
  "assert_writable mkdir_ok probe_ok f p \<longleftrightarrow> mkdir_ok \<and> f \<noteq> NotAFile \<and> \<not> up_recovery_blocked p \<and> probe_ok"

section \<open>The measurement-only observer\<close>

record observer_options =
  op_local_only :: bool
  op_profile :: "str option"
  op_idle_threshold :: rat
  op_interval :: pyfloat
  op_once :: bool
  op_device_class :: str

record observer_env =
  oe_conversions :: conversions
  oe_default_path :: str
  oe_lock_io :: lock_io
  oe_file :: profile_file
  oe_preserved :: bool
  oe_mkdir :: bool
  oe_probe :: bool
  oe_ticks :: cpu_ticks
  oe_register :: "register_response reply"
  oe_timestamp :: "str \<Rightarrow> py_error + pyfloat"   \<comment> \<open>\<open>datetime.fromisoformat(...).timestamp()\<close>\<close>
  oe_log :: log_text                          \<comment> \<open>the event log of an earlier version\<close>
  oe_restored_written :: bool
  oe_rounds :: "sample_round list"
  oe_final :: sample_round
  oe_last_written :: bool

datatype observer_end = Refused_Start str | Crash py_error | Observed measure_state

text \<open>What a run leaves: the locks, its agent, the profile it wrote last, whether it moved a bad profile away.\<close>

record observer_result =
  ob_world :: lock_world
  ob_end :: observer_end
  ob_agent :: agent
  ob_disk :: "dict option"
  ob_set_aside :: bool

definition observed_path :: "observer_env \<Rightarrow> observer_options \<Rightarrow> str" where
  "observed_path E opt = (if given (op_profile opt) then the (op_profile opt) else oe_default_path E)"

definition write_profile :: "usage_profiler \<Rightarrow> bool \<Rightarrow> dict option \<Rightarrow> dict option" where
  "write_profile p written disk = (case snd (save p written) of None \<Rightarrow> disk | Some d \<Rightarrow> Some d)"

text \<open>The availability an earlier version logged is taken over once, into a default profile without any.\<close>

definition restore_history ::
  "observer_env \<Rightarrow> observer_options \<Rightarrow> governor \<Rightarrow> py_error + governor \<times> dict option" where
  "restore_history E opt g =
     (if \<not> given (op_profile opt) \<and> span_seconds (up_availability (gv_profiler g)) \<le> 0
      then bind_err (availability_tracker_from_telemetry (oe_conversions E) (oe_timestamp E) (oe_log E) (op_interval opt)) (\<lambda>historic.
        if 0 < span_seconds historic
        then (let p = (gv_profiler g)\<lparr>up_availability := historic\<rparr>
              in Inr (g\<lparr>gv_profiler := p\<rparr>, write_profile p (oe_restored_written E) None))
        else Inr (g, None))
      else Inr (g, None))"

text \<open>From the governor to the end of the loop: the governor as it is when the run ends, for the last save.\<close>

definition observe_loop ::
  "observer_env \<Rightarrow> observer_options \<Rightarrow> governor \<Rightarrow> agent \<Rightarrow> governor \<times> dict option \<times> agent \<times> observer_end" where
  "observe_loop E opt g a =
     (case restore_history E opt g of
        Inl e \<Rightarrow> (g, None, a, Crash e)
      | Inr (g1, disk) \<Rightarrow>
          (case run_measure_loop (oe_conversions E) (op_once opt) (\<not> op_local_only opt) (op_device_class opt) (op_interval opt)
                  (oe_rounds E) (oe_final E) ((measure_start a g1)\<lparr>ml_disk := disk\<rparr>) of
             Inl e \<Rightarrow> (g1, disk, a, Crash e)
           | Inr st \<Rightarrow> (ml_governor st, ml_disk st, ml_agent st, Observed st)))"

definition observer_main ::
  "observer_env \<Rightarrow> observer_options \<Rightarrow> nat \<Rightarrow> agent \<Rightarrow> lock_world \<Rightarrow> observer_result" where
  "observer_main E opt ob a W =
     (let p = lock_path (observed_path E opt);
          stop = (\<lambda>W en a disk moved. \<lparr>ob_world = W, ob_end = en, ob_agent = a, ob_disk = disk, ob_set_aside = moved\<rparr>)
      in case acquire (oe_lock_io E) p ob W of
           (W1, Inl _) \<Rightarrow> stop W1 (Refused_Start ''measurement profile is not writable'') a None False
         | (W1, Inr _) \<Rightarrow>
             (case load (oe_conversions E) (oe_file E) (oe_preserved E) of
                Inl e \<Rightarrow> stop (release p ob W1) (Crash e) a None False
              | Inr loaded \<Rightarrow>
                  (let moved = (up_load_warning loaded \<and> \<not> up_recovery_blocked loaded);
                       profiler = loaded\<lparr>up_gpu_supported := Some (cap_has_gpu (ag_capability a))\<rparr>
                   in if \<not> assert_writable (oe_mkdir E) (oe_probe E) (oe_file E) profiler
                      then stop (release p ob W1) (Refused_Start ''measurement profile is not writable'') a None moved
                      else
                        (let g = adaptive_governor (op_idle_threshold opt) profiler (oe_ticks E);
                             a1 = (if op_local_only opt \<or> ag_registered a then a else fst (agent_register (oe_register E) a));
                             (g2, disk, a2, en) = observe_loop E opt g a1
                         in stop (release p ob W1) en a2 (write_profile (gv_profiler g2) (oe_last_written E) disk) moved))))"

section \<open>The job-mode worker\<close>

text \<open>
  \<open>--once\<close> runs at most one job; otherwise the worker joins, waits to be approved (\<open>None\<close>: it never is
  with the answers given), builds its gate, and loops until it is stopped; on the way out an adaptive
  governor's profile is saved. No profile lock is taken on this path.
\<close>

record worker_options =
  wo_once :: bool
  wo_gated :: bool
  wo_adaptive :: bool
  wo_idle_threshold :: rat
  wo_poll_interval :: rat

record worker_run =
  wr_conversions :: conversions
  wr_register :: "register_response reply"
  wr_rounds :: "(register_response reply \<times> heartbeat_response reply) list"
  wr_file :: profile_file
  wr_preserved :: bool
  wr_ticks :: cpu_ticks
  wr_env :: job_env
  wr_replies :: replies
  wr_passes :: "pass list"
  wr_written :: bool

definition join_fleet :: "worker_run \<Rightarrow> agent \<Rightarrow> agent option" where
  "join_fleet R a =
     (let a1 = (if ag_registered a then a else fst (agent_register (wr_register R) a))
      in if ag_registered a1 \<and> \<not> ag_approved a1 then map_option fst (wait_for_approval False (wr_rounds R) a1) else Some a1)"

definition new_gate :: "worker_options \<Rightarrow> worker_run \<Rightarrow> py_error + worker_gate" where
  "new_gate opt R =
     (if wo_adaptive opt
      then bind_err (load (wr_conversions R) (wr_file R) (wr_preserved R))
             (\<lambda>p. Inr (Adaptive (adaptive_governor (wo_idle_threshold opt) p (wr_ticks R))))
      else Inr (Binary ((default_gate True)\<lparr>ig_input_idle_threshold_s := wo_idle_threshold opt\<rparr>)))"

definition final_save :: "worker_gate \<Rightarrow> bool \<Rightarrow> dict option" where
  "final_save G written = (case G of Adaptive g \<Rightarrow> write_profile (gv_profiler g) written None | Binary _ \<Rightarrow> None)"

definition worker_main ::
  "primitives \<Rightarrow> manifest_bytes \<Rightarrow> worker_options \<Rightarrow> worker_run \<Rightarrow> agent
   \<Rightarrow> (agent \<times> (py_error + (place list \<times> pass_end) list \<times> dict option)) option" where
  "worker_main P mbytes opt R a =
     (if wo_once opt then
        (let (a1, places, t) = run_once P mbytes (wr_env R) (wr_replies R) a in Some (a1, Inr ([(places, Took t)], None)))
      else case join_fleet R a of
        None \<Rightarrow> None
      | Some a1 \<Rightarrow>
          (case new_gate opt R of
             Inl e \<Rightarrow> Some (a1, Inl e)
           | Inr gate0 \<Rightarrow>
               (let ((G, a2), trace) = job_loop P mbytes (wo_gated opt) (wo_poll_interval opt) (wr_passes R) (gate0, a1)
                in Some (a2, Inr (trace, final_save G (wr_written R))))))"

section \<open>What a run does to its profile\<close>

lemma unlocked_again:
  assumes "\<not> lw_handle W ob" "lw_locked W p = None"
  shows "release p ob (W\<lparr>lw_handle := (lw_handle W)(ob := True), lw_locked := (lw_locked W)(p := Some ob)\<rparr>) = W"
  using assms by (cases W) (auto simp: release_def fun_eq_iff)

lemma acquire_fresh:
  assumes "\<not> lw_handle W ob"
  shows "(\<exists>x. acquire io p ob W = (W, Inl x)) \<or>
    (\<exists>W1. acquire io p ob W = (W1, Inr ()) \<and> release p ob W1 = W \<and> lw_locked W p = None)"
  using assms unlocked_again [OF assms, of p] by (cases io) (auto simp: acquire_def)

lemma loaded_profile_ok: "load C f preserved = Inr p \<Longrightarrow> profiler_ok p"
proof -
  assume l: "load C f preserved = Inr p"
  have "profiler_ok q" if "read_profile C f = Inr q" for q
    using read_profile_settled [OF that]
    by (auto simp: profiler_settled_def profiler_ok_def tracker_bounded_def stat_settled_def list_all_iff)
  then show ?thesis
    using l new_profiler_ok by (auto simp: load_def profiler_ok_def split: sum.splits py_error.splits)
qed

lemma learn_keeps_block [simp]:
  "up_recovery_blocked (gv_profiler (learn Z sn c u m g)) = up_recovery_blocked (gv_profiler g)"
  by (simp add: learn_def Let_def record_availability_def record_usage_def)

lemma measure_sample_keeps_block:
  "up_recovery_blocked (gv_profiler (ml_governor (measure_sample Z sn st))) = up_recovery_blocked (gv_profiler (ml_governor st))"
  by (rule measure_sample_cases [of Z sn st]) auto

lemma fold_keeps_block:
  "up_recovery_blocked (gv_profiler (ml_governor (fold (measure_sample Z) rounds st))) =
     up_recovery_blocked (gv_profiler (ml_governor st))"
  by (induction rounds arbitrary: st) (simp_all add: measure_sample_keeps_block)

text \<open>With uploads off, nothing is sent and the agent is not touched.\<close>

lemma offline_sample:
  "\<not> mz_upload Z \<Longrightarrow> ml_agent (measure_sample Z sn st) = ml_agent st \<and> ml_sent (measure_sample Z sn st) = ml_sent st"
  by (auto simp: measure_sample_def save_and_upload_def persist_def Let_def case_prod_beta
      split: sum.splits option.splits)

lemma offline_samples:
  "\<not> mz_upload Z \<Longrightarrow> ml_agent (fold (measure_sample Z) rounds st) = ml_agent st \<and>
     ml_sent (fold (measure_sample Z) rounds st) = ml_sent st"
  by (induction rounds arbitrary: st) (simp_all add: offline_sample)

lemma offline_finish:
  "\<not> mz_upload Z \<Longrightarrow> ml_agent (measure_finish Z sn st) = ml_agent st \<and> ml_sent (measure_finish Z sn st) = ml_sent st"
  by (auto simp: measure_finish_def persist_def Let_def case_prod_beta split: option.splits)

lemma restore_history_ok:
  assumes "restore_history E opt g = Inr (g1, disk)" "profiler_ok (gv_profiler g)"
  shows "profiler_ok (gv_profiler g1)" "up_recovery_blocked (gv_profiler g1) = up_recovery_blocked (gv_profiler g)"
  using assms old_log_tracker_ok
  by (auto simp: restore_history_def bind_err_Inr Let_def profiler_ok_def split: if_splits)

lemma observe_loop_ends:
  assumes "observe_loop E opt g a = (g2, disk, a2, en)" "profiler_ok (gv_profiler g)" "\<not> up_recovery_blocked (gv_profiler g)"
  shows "en = Observed st \<Longrightarrow> g2 = ml_governor st \<and> profiler_ok (gv_profiler g2) \<and> \<not> up_recovery_blocked (gv_profiler g2)"
    and "op_local_only opt \<Longrightarrow> a2 = a \<and> (\<forall>st. en = Observed st \<longrightarrow> ml_sent st = [])"
  using assms restore_history_ok [of E opt g]
  by (auto simp: observe_loop_def run_measure_loop_def Let_def measure_finish_governor fold_keeps_block measure_start_def
      settings_for_def offline_finish offline_samples intro!: fold_measure_sample_ok
      split: sum.splits prod.splits pyfloat.splits if_splits)

text \<open>C40. However a measurement run goes (files, sensors, disk, log and orchestrator as they will), it leaves
  the profile locks of the machine as it found them; a second observer of a locked profile does nothing at
  all; a run that got to sampling has on disk exactly the profile it ended with, well formed, if the last
  write went through; and a local-only run sends nothing and never touches its enrolment.\<close>

theorem observer_run_is_clean:
  assumes "\<not> lw_handle W ob"
  shows "ob_world (observer_main E opt ob a W) = W \<and>
    (lw_locked W (lock_path (observed_path E opt)) \<noteq> None \<longrightarrow>
       observer_main E opt ob a W = \<lparr>ob_world = W, ob_end = Refused_Start ''measurement profile is not writable'',
         ob_agent = a, ob_disk = None, ob_set_aside = False\<rparr>) \<and>
    (\<forall>st. ob_end (observer_main E opt ob a W) = Observed st \<longrightarrow> profiler_ok (gv_profiler (ml_governor st)) \<and>
       (oe_last_written E \<longrightarrow> ob_disk (observer_main E opt ob a W) = Some (save_payload (gv_profiler (ml_governor st))))) \<and>
    (op_local_only opt \<longrightarrow> ob_agent (observer_main E opt ob a W) = a \<and>
       (\<forall>st. ob_end (observer_main E opt ob a W) = Observed st \<longrightarrow> ml_sent st = []))"
proof -
  let ?p = "lock_path (observed_path E opt)" and ?R = "observer_main E opt ob a W"
  consider (refused) x where "acquire (oe_lock_io E) ?p ob W = (W, Inl x)"
    | (held) W1 where "acquire (oe_lock_io E) ?p ob W = (W1, Inr ())" "release ?p ob W1 = W" "lw_locked W ?p = None"
    using acquire_fresh [OF assms] by blast
  then show ?thesis
  proof cases
    case refused
    then show ?thesis by (simp add: observer_main_def Let_def)
  next
    case held
    show ?thesis
    proof (cases "load (oe_conversions E) (oe_file E) (oe_preserved E)")
      case (Inl e)
      then show ?thesis using held by (simp add: observer_main_def Let_def)
    next
      case (Inr p)
      let ?q = "p\<lparr>up_gpu_supported := Some (cap_has_gpu (ag_capability a))\<rparr>"
      have ok: "profiler_ok ?q" using loaded_profile_ok [OF Inr] by (simp add: profiler_ok_def)
      show ?thesis
      proof (cases "assert_writable (oe_mkdir E) (oe_probe E) (oe_file E) ?q")
        case False
        then show ?thesis using held Inr by (simp add: observer_main_def Let_def)
      next
        case True
        define g where "g = adaptive_governor (op_idle_threshold opt) ?q (oe_ticks E)"
        define a1 where "a1 = (if op_local_only opt \<or> ag_registered a then a else fst (agent_register (oe_register E) a))"
        obtain g2 disk a2 en where l: "observe_loop E opt g a1 = (g2, disk, a2, en)" by (metis prod_cases4)
        have "gv_profiler g = ?q" by (simp add: g_def adaptive_governor_def new_governor_def)
        then have g: "profiler_ok (gv_profiler g)" "\<not> up_recovery_blocked (gv_profiler g)"
          using ok True by (simp_all add: assert_writable_def)
        have R: "?R = \<lparr>ob_world = W, ob_end = en, ob_agent = a2, ob_disk = write_profile (gv_profiler g2) (oe_last_written E) disk,
            ob_set_aside = up_load_warning p \<and> \<not> up_recovery_blocked p\<rparr>"
          using held Inr True l by (simp add: observer_main_def Let_def g_def a1_def)
        note e = observe_loop_ends [OF l g]
        show ?thesis using held(3) e(1) e(2) by (auto simp: R a1_def write_profile_def save_def)
      qed
    qed
  qed
qed

definition demo_options :: observer_options where
  "demo_options = \<lparr>op_local_only = True, op_profile = Some ''p.json'', op_idle_threshold = 60, op_interval = Fin 30,
     op_once = False, op_device_class = ''laptop''\<rparr>"

definition demo_env :: observer_env where
  "demo_env = \<lparr>oe_conversions = demo_conv, oe_default_path = ''d.json'', oe_lock_io = FilesOk, oe_file = NoFile,
     oe_preserved = True, oe_mkdir = True, oe_probe = True, oe_ticks = None, oe_register = NetworkError,
     oe_timestamp = (\<lambda>_. Inl (ValueError ''isoformat'')), oe_log = No_Log, oe_restored_written = True,
     oe_rounds = [demo_round, demo_round], oe_final = demo_round, oe_last_written = True\<rparr>"

lemma observer_run_is_clean_witness:
  "\<exists>st. ob_end (observer_main demo_env demo_options 7 demo_observer unlocked_world) = Observed st \<and> ml_sent st = [] \<and>
     profiler_ok (gv_profiler (ml_governor st)) \<and>
     ob_disk (observer_main demo_env demo_options 7 demo_observer unlocked_world) = Some (save_payload (gv_profiler (ml_governor st)))"
proof -
  let ?R = "observer_main demo_env demo_options 7 demo_observer unlocked_world"
  have "\<exists>st. ob_end ?R = Observed st"
    by (simp add: observer_main_def Let_def acquire_def demo_env_def demo_options_def unlocked_world_def load_def read_profile_def
        assert_writable_def new_profiler_def observe_loop_def restore_history_def given_def run_measure_loop_def
        MIN_MEASURE_INTERVAL_SECONDS_def MAX_MEASURE_INTERVAL_SECONDS_def split: prod.split)
  moreover have "\<not> lw_handle unlocked_world 7" by (simp add: unlocked_world_def)
  moreover have "op_local_only demo_options" "oe_last_written demo_env" by (simp_all add: demo_options_def demo_env_def)
  ultimately show ?thesis
    using observer_run_is_clean [of unlocked_world 7 demo_env demo_options demo_observer] by blast
qed

text \<open>
  The worker that runs jobs takes no lock: what it writes when it stops does not depend on who holds the
  profile, which by default is the observer's own.
\<close>

lemma worker_saves_without_lock:
  assumes "\<not> wo_once opt" "join_fleet R a = Some a1" "new_gate opt R = Inr G" "wr_written R"
    "job_loop P m (wo_gated opt) (wo_poll_interval opt) (wr_passes R) (G, a1) = ((Adaptive g, a2), trace)"
    "\<not> up_recovery_blocked (gv_profiler g)"
  shows "worker_main P m opt R a = Some (a2, Inr (trace, Some (save_payload (gv_profiler g))))"
  using assms by (simp add: worker_main_def final_save_def write_profile_def save_def)

end
