(* ===== verification/Fleet_Driver.thy ===== *)
theory Fleet_Driver imports Agent_Properties Client_Properties Measure "HOL-Library.AList" begin

text \<open>
  A fleet of agents against a live orchestrator: one turn of an agent is \<open>run_once\<close> of
  \<open>src/worker/agent.py\<close> with the handlers answering it, and \<open>_drain\<close> of \<open>scripts/demo_fleet.py\<close> (the loop
  of \<open>scripts/demo.py\<close> with its own bound, and of \<open>scripts/smoke.py\<close> with none) takes turns round robin until the fleet is idle. The
  theorem composes scheduling, leasing, verification, execution, reporting and crediting: honest agents
  that take turns complete every job one of them may run.
\<close>

section \<open>A turn with a live server\<close>

text \<open>
  What the agents share: the server they call, the clock of each request, and what surrounds each run.
  Turn \<open>k\<close> polls at the times \<open>sx_clock (2 * k)\<close> and reports at \<open>sx_clock (2 * k + 1)\<close>.
\<close>

record site =
  sx_prims :: primitives
  sx_mbytes :: manifest_bytes
  sx_config :: config
  sx_clock :: "nat \<Rightarrow> clock"
  sx_env :: "nat \<Rightarrow> job_env"

definition http_reply :: "'a option outcome \<Rightarrow> 'a reply" where
  "http_reply r =
     (case r of
        Inl (HTTPException code _) \<Rightarrow> StatusError code
      | Inl (Uncaught _) \<Rightarrow> StatusError 500
      | Inr None \<Rightarrow> NoContent
      | Inr (Some x) \<Rightarrow> Answer x)"

definition auth_header :: "agent \<Rightarrow> str option" where
  "auth_header a = (if has_token a then map_option (\<lambda>t. bearer @ t) (ag_worker_token a) else None)"

text \<open>
  The programs register their agents, and have them approved, before they take turns; so the turn of an
  agent that has joined is all there is to a turn here. The answer to the report is logged and dropped.
\<close>

definition live_turn :: "site \<Rightarrow> nat \<Rightarrow> agent \<Rightarrow> db \<Rightarrow> db \<times> agent \<times> turn" where
  "live_turn S k a s =
     (case jobs_next (sx_prims S) (sx_mbytes S) (sx_config S) (sx_clock S (2 * k)) (ag_worker_id a) None (auth_header a) s of
        (s1, r) \<Rightarrow>
          (case run_once (sx_prims S) (sx_mbytes S) (sx_env S k)
              \<lparr>sv_register = NetworkError, sv_heartbeat = NetworkError, sv_poll = http_reply r, sv_result = NetworkError\<rparr> a of
             (a1, _, Ran (Inr rr)) \<Rightarrow>
               (fst (results (sx_prims S) (sx_config S) (sx_clock S (2 * k + 1)) (rs_job_id rr) None rr (auth_header a1) s1),
                a1, Ran (Inr rr))
           | (a1, _, t) \<Rightarrow> (s1, a1, t)))"

section \<open>Draining the queue\<close>

text \<open>One round over the fleet; \<open>None\<close>: an agent's turn raised, or does not return.\<close>

fun drain_round :: "site \<Rightarrow> nat \<Rightarrow> agent list \<Rightarrow> db \<Rightarrow> (db \<times> agent list \<times> result_request list) option" where
  "drain_round S k [] s = Some (s, [], [])"
| "drain_round S k (a # as) s =
     (case live_turn S k a s of
        (s1, a1, NoWork) \<Rightarrow> map_option (\<lambda>(s2, as', rrs). (s2, a1 # as', rrs)) (drain_round S (Suc k) as s1)
      | (s1, a1, Ran (Inr rr)) \<Rightarrow> map_option (\<lambda>(s2, as', rrs). (s2, a1 # as', rr # rrs)) (drain_round S (Suc k) as s1)
      | _ \<Rightarrow> None)"

fun drain :: "site \<Rightarrow> nat \<Rightarrow> nat \<Rightarrow> nat \<Rightarrow> agent list \<Rightarrow> db \<Rightarrow> (db \<times> agent list \<times> result_request list) option" where
  "drain S 0 idle k as s = Some (s, as, [])"
| "drain S (Suc max_rounds) idle k as s =
     (if idle < length as
      then (case drain_round S k as s of
              None \<Rightarrow> None
            | Some (s1, as1, rrs) \<Rightarrow>
                map_option (\<lambda>(s2, as2, later). (s2, as2, rrs @ later))
                  (drain S max_rounds (if rrs \<noteq> [] then 0 else idle + 1) (k + length as) as1 s1))
      else Some (s, as, []))"

text \<open>\<open>collect\<close>: the outputs of the completed jobs and who made each, by job.\<close>

definition collected :: "result_request list \<Rightarrow> (str \<times> dict) list" where
  "collected rrs =
     fold (\<lambda>rr d. case (rs_status rr, rs_output rr) of (StCompleted, Some out) \<Rightarrow> AList.update (rs_job_id rr) out d | _ \<Rightarrow> d) rrs []"

definition collected_by :: "result_request list \<Rightarrow> (str \<times> str) list" where
  "collected_by rrs =
     fold (\<lambda>rr d. case (rs_status rr, rs_output rr) of
         (StCompleted, Some _) \<Rightarrow> AList.update (rs_job_id rr) (rs_worker_id rr) d | _ \<Rightarrow> d) rrs []"

section \<open>What a turn needs and what it leaves\<close>

text \<open>The row of an agent's device lets it work: its token is the one stored, it is admitted, and it is no observer.\<close>

definition seat :: "site \<Rightarrow> db \<Rightarrow> agent \<Rightarrow> worker \<Rightarrow> bool" where
  "seat S s a row \<longleftrightarrow> find_worker (ag_worker_id a) s = Some row \<and>
     check_worker_token (sx_config S) (Some row) (auth_header a) (verified_client_fingerprint None) = Inr None \<and>
     wk_approved row \<and> \<not> wk_blacklisted row \<and> \<not> cap_measurement_only (wk_capability row) \<and>
     cap_worker_id (wk_capability row) = ag_worker_id a \<and> ag_registered a \<and> ag_approved a"

definition fits :: "worker \<Rightarrow> job \<Rightarrow> bool" where
  "fits row j \<longleftrightarrow> eligible (wk_capability row) (wk_free_ram_gb row)
     (if wk_trust_tier row \<noteq> [] then wk_trust_tier row else DEFAULT_TRUST_TIER) j"

definition nobody_leases :: "db \<Rightarrow> bool" where
  "nobody_leases s \<longleftrightarrow> (\<forall>j \<in> set (db_jobs s). jb_state j \<noteq> Leased)"

lemma seat_auth:
  "seat S s a row \<Longrightarrow> require_worker_token P (sx_config S) now (ag_worker_id a) (auth_header a) (verified_client_fingerprint None) s = (s, Inr row)"
  by (simp add: seat_def require_worker_token_def)

lemma seat_tier: "seat S s a row \<Longrightarrow> device_tier (cap_worker_id (wk_capability row)) s =
    (if wk_trust_tier row \<noteq> [] then wk_trust_tier row else DEFAULT_TRUST_TIER)"
  by (simp add: seat_def device_tier_def)

lemma nothing_to_reap: "nobody_leases s \<Longrightarrow> reap_expired t1 t2 s = s"
proof -
  assume "nobody_leases s"
  then have "update_where (lease_before t2) (requeued t1) (db_jobs s) = db_jobs s"
    by (intro update_where_none) (auto simp: nobody_leases_def lease_before_def)
  then show ?thesis by (simp add: reap_expired_def update_jobs_def)
qed

lemma joined_waits: "ag_registered a \<Longrightarrow> ag_approved a \<Longrightarrow> run_once P mb E R a =
    (case poll_once (sv_poll R) of
       None \<Rightarrow> (a, [], NoWork)
     | Some asg \<Rightarrow> (let (a3, places, r) = run_job P mb E asg a in (a3, places, turn_of r)))"
  by (simp add: run_once_def wait_for_approval_def)

text \<open>Nothing fits: the poll is answered with no content and nothing changes.\<close>

lemma idle_turn:
  assumes "seat S s a row" "nobody_leases s" "\<forall>j \<in> set (db_jobs s). jb_state j = Queued \<longrightarrow> \<not> fits row j"
  shows "live_turn S k a s = (s, a, NoWork)"
proof -
  have "pick_job_for s (wk_capability row) (wk_free_ram_gb row) = None"
    using assms(3) seat_tier [OF assms(1)] by (simp add: pick_job_for_None fits_def)
  moreover have "\<not> worker_busy (ag_worker_id a) s"
    using assms(2) by (auto simp: worker_busy_def holds_lease_def nobody_leases_def)
  ultimately have "jobs_next (sx_prims S) (sx_mbytes S) (sx_config S) clk (ag_worker_id a) None (auth_header a) s = (s, Inr None)" for clk
    using assms(1) seat_auth [OF assms(1)] nothing_to_reap [OF assms(2)]
    by (simp add: jobs_next_def and_then_def lease_section_def seat_def Let_def)
  then show ?thesis
    using assms(1) by (simp add: live_turn_def http_reply_def joined_waits poll_once_def seat_def)
qed

section \<open>A turn that works\<close>

text \<open>A device's row after it was given a lease: nothing the checks look at has changed.\<close>

definition touched :: "time \<Rightarrow> worker \<Rightarrow> worker" where
  "touched t r = r\<lparr>wk_idle := False, wk_last_heartbeat := Some t\<rparr>"

lemma fits_touched [simp]: "fits (touched t r) = fits r"
  by (simp add: fits_def touched_def fun_eq_iff)

lemma token_touched [simp]: "check_worker_token cf (Some (touched t r)) h fp = check_worker_token cf (Some r) h fp"
  by (cases h) (auto simp: check_worker_token_def check_device_def touched_def Let_def split: option.splits)

lemma touched_simps [simp]:
  "wk_worker_id (touched t r) = wk_worker_id r" "wk_approved (touched t r) = wk_approved r"
  "wk_blacklisted (touched t r) = wk_blacklisted r" "wk_capability (touched t r) = wk_capability r"
  by (simp_all add: touched_def)

lemma find_touched:
  assumes "db_workers s' = update_where (\<lambda>r. wk_worker_id r = w) (touched t) (db_workers s)"
  shows "find_worker v s' = map_option (\<lambda>r. if wk_worker_id r = w then touched t r else r) (find_worker v s)"
  using assms by (simp add: find_worker_lookup wt.lookup_update)

lemma seat_kept:
  assumes "db_workers s' = update_where (\<lambda>r. wk_worker_id r = w) (touched t) (db_workers s)" "seat S s a row"
  obtains row' where "seat S s' a row'" "fits row' = fits row"
  using assms(2) find_touched [OF assms(1), of "ag_worker_id a"]
  by (intro that [of "if wk_worker_id row = w then touched t row else row"]) (auto simp: seat_def)

definition same_agent :: "agent \<Rightarrow> agent \<Rightarrow> bool" where
  "same_agent a b \<longleftrightarrow> settings b = settings a \<and> ag_registered b = ag_registered a \<and> ag_approved b = ag_approved a \<and>
     ag_worker_token b = ag_worker_token a"

lemma same_agent_refl [simp]: "same_agent a a"
  by (simp add: same_agent_def)

lemma same_agent_trans: "same_agent a b \<Longrightarrow> same_agent b c \<Longrightarrow> same_agent a c"
  by (simp add: same_agent_def)

lemma run_job_same: "run_job P mb E asg a = (a', places, r) \<Longrightarrow> same_agent a a'"
  by (auto simp: run_job_def note_job_gpu_def same_agent_def settings_def Let_def split: if_splits prod.splits)

lemma same_agent_seat: "same_agent a b \<Longrightarrow> seat S s a row \<longleftrightarrow> seat S s b row"
  by (auto simp: same_agent_def seat_def settings_def auth_header_def has_token_def)

text \<open>
  Agents set up like \<open>a\<close> finish job \<open>j\<close> with a result of acceptable size; an integrity challenge is run by
  the unmodified kit on a whole number. Nothing is asked of the output of other jobs.
\<close>

definition finishes :: "site \<Rightarrow> agent \<Rightarrow> job \<Rightarrow> bool" where
  "finishes S a j \<longleftrightarrow> (\<forall>k b. same_agent a b \<longrightarrow>
     (\<exists>b' places rr. run_job (sx_prims S) (sx_mbytes S) (sx_env S k)
          \<lparr>ja_signed_manifest = sign (sx_prims S) (sx_mbytes S) (cf_signer (sx_config S)) (jb_manifest j), ja_input = jb_input j\<rparr> b
        = (b', places, Some (Inr rr)) \<and> rs_status rr = StCompleted \<and>
      length (dumps_ascii (p_float_repr (sx_prims S)) (JObj (case rs_output rr of None \<Rightarrow> [] | Some d \<Rightarrow> d))) \<le> MAX_RESULT_OUTPUT_BYTES \<and>
      (mf_kind (jb_manifest j) = ''challenge'' \<longrightarrow> (\<exists>traceback M x.
         faithful_env traceback M (sx_env S k) ''challenge'' (jb_input j) (mf_limits (jb_manifest j)) \<and>
         dict_get (jb_input j) ''x'' = Some (JInt x)))))"

lemma finishes_same: "same_agent a b \<Longrightarrow> finishes S a j \<Longrightarrow> finishes S b j"
  unfolding finishes_def using same_agent_trans by blast

text \<open>The clocks: no queued job is fresh any more when it is looked at, and a lease outlasts the run.\<close>

definition paced_clock :: "site \<Rightarrow> nat \<Rightarrow> db \<Rightarrow> bool" where
  "paced_clock S k s \<longleftrightarrow> (\<forall>j \<in> set (db_jobs s). sx_clock S (2 * k) 3 - jb_created_at j \<ge> 1500000) \<and>
     sx_clock S (2 * k + 1) 1 < sx_clock S (2 * k) 4 + seconds 20"

definition finished_by :: "str \<Rightarrow> str \<Rightarrow> time \<Rightarrow> time \<Rightarrow> time \<Rightarrow> dict \<Rightarrow> job \<Rightarrow> job" where
  "finished_by jid w deadline t1 t2 out i =
     (if jb_job_id i = jid then completed_with out t2 (leased_to w deadline t1 i) else i)"

lemma leased_poll:
  assumes "reachable (sx_prims S) s" "seat S s a row" "nobody_leases s" "paced_clock S k s"
    and "j0 \<in> set (db_jobs s)" "jb_state j0 = Queued" "fits row j0"
  obtains j s1 where
    "jobs_next (sx_prims S) (sx_mbytes S) (sx_config S) (sx_clock S (2 * k)) (ag_worker_id a) None (auth_header a) s =
       (s1, Inr (Some \<lparr>ja_signed_manifest = sign (sx_prims S) (sx_mbytes S) (cf_signer (sx_config S)) (jb_manifest j), ja_input = jb_input j\<rparr>))"
    "j \<in> set (db_jobs s)" "jb_state j = Queued" "fits row j"
    "db_jobs s1 = update_where (queued_with_id (jb_job_id j))
       (leased_to (ag_worker_id a) (sx_clock S (2 * k) 4 + seconds 20) (sx_clock S (2 * k) 5)) (db_jobs s)"
    "db_workers s1 = update_where (\<lambda>r. wk_worker_id r = ag_worker_id a) (touched (sx_clock S (2 * k) 5)) (db_workers s)"
proof -
  let ?clk = "sx_clock S (2 * k)" and ?cap = "wk_capability row" and ?f = "wk_free_ram_gb row"
  obtain j where pick: "pick_job_for s ?cap ?f = Some j"
    using assms(5-7) seat_tier [OF assms(2)] by (cases "pick_job_for s ?cap ?f") (auto simp: pick_job_for_None fits_def)
  note j = pick_job_for_Some [OF pick, unfolded seat_tier [OF assms(2)], folded fits_def]
  have "\<not> defer_to_less_loaded s (ag_worker_id a) (jb_created_at j) (?clk 3)"
    using j(1) assms(4) by (fastforce simp: paced_clock_def dest: defer_only_while_fresh)
  moreover have "\<not> worker_busy (ag_worker_id a) s"
    using assms(3) by (auto simp: worker_busy_def holds_lease_def nobody_leases_def)
  ultimately have sec: "lease_section (ag_worker_id a) ?cap ?f (?clk 3) (?clk 4) (?clk 5) s =
      (take_lease (ag_worker_id a) (jb_job_id j) (lease_deadline (?clk 4)) (?clk 5) s, Some j)"
    using pick by (simp add: lease_section_def)
  have "jobs_next (sx_prims S) (sx_mbytes S) (sx_config S) ?clk (ag_worker_id a) None (auth_header a) s =
      (emit (sx_prims S) (?clk 6) ''assigned'' (Some (ag_worker_id a)) (Some (jb_job_id j)) (Some (mf_kind (jb_manifest j)))
         (take_lease (ag_worker_id a) (jb_job_id j) (lease_deadline (?clk 4)) (?clk 5) s),
       Inr (Some \<lparr>ja_signed_manifest = sign (sx_prims S) (sx_mbytes S) (cf_signer (sx_config S)) (jb_manifest j), ja_input = jb_input j\<rparr>))"
    using assms(2) seat_auth [OF assms(2)] nothing_to_reap [OF assms(3)] sec
    by (simp add: jobs_next_def and_then_def seat_def Let_def)
  then show thesis
    by (rule that [OF _ j]) (simp_all add: take_lease_def lease_deadline_def LEASE_SECONDS_def update_jobs_def update_worker_def touched_def [abs_def])
qed

lemma working_turn:
  assumes "reachable (sx_prims S) s" "seat S s a row" "nobody_leases s" "paced_clock S k s"
    and "j0 \<in> set (db_jobs s)" "jb_state j0 = Queued" "fits row j0"
    and able: "\<And>j. j \<in> set (db_jobs s) \<Longrightarrow> jb_state j = Queued \<Longrightarrow> fits row j \<Longrightarrow> finishes S a j"
  obtains s' a' rr j out d t1 t2 t where "live_turn S k a s = (s', a', Ran (Inr rr))" "j \<in> set (db_jobs s)"
    "jb_state j = Queued" "rs_job_id rr = jb_job_id j" "rs_status rr = StCompleted" "rs_output rr = Some out"
    "db_jobs s' = map (finished_by (jb_job_id j) (ag_worker_id a) d t1 t2 out) (db_jobs s)"
    "db_workers s' = update_where (\<lambda>r. wk_worker_id r = ag_worker_id a) (touched t) (db_workers s)" "same_agent a a'"
proof -
  let ?P = "sx_prims S" and ?w = "ag_worker_id a" and ?d = "sx_clock S (2 * k) 4 + seconds 20" and ?t1 = "sx_clock S (2 * k) 5"
  obtain j s1 where poll:
    "jobs_next ?P (sx_mbytes S) (sx_config S) (sx_clock S (2 * k)) ?w None (auth_header a) s =
       (s1, Inr (Some \<lparr>ja_signed_manifest = sign ?P (sx_mbytes S) (cf_signer (sx_config S)) (jb_manifest j), ja_input = jb_input j\<rparr>))"
    and j: "j \<in> set (db_jobs s)" "jb_state j = Queued" "fits row j"
    and jobs1: "db_jobs s1 = update_where (queued_with_id (jb_job_id j)) (leased_to ?w ?d ?t1) (db_jobs s)"
    and workers1: "db_workers s1 = update_where (\<lambda>r. wk_worker_id r = ?w) (touched ?t1) (db_workers s)"
    by (rule leased_poll [OF assms(1-7)])
  let ?asg = "\<lparr>ja_signed_manifest = sign ?P (sx_mbytes S) (cf_signer (sx_config S)) (jb_manifest j), ja_input = jb_input j\<rparr>"
  obtain a' places rr where run: "run_job ?P (sx_mbytes S) (sx_env S k) ?asg a = (a', places, Some (Inr rr))" "rs_status rr = StCompleted"
    and small: "length (dumps_ascii (p_float_repr ?P) (JObj (case rs_output rr of None \<Rightarrow> [] | Some d \<Rightarrow> d))) \<le> MAX_RESULT_OUTPUT_BYTES"
    and chal: "mf_kind (jb_manifest j) = ''challenge'' \<longrightarrow> (\<exists>traceback M x.
         faithful_env traceback M (sx_env S k) ''challenge'' (jb_input j) (mf_limits (jb_manifest j)) \<and>
         dict_get (jb_input j) ''x'' = Some (JInt x))"
    using able [OF j] same_agent_refl unfolding finishes_def by meson
  have same: "same_agent a a'" by (rule run_job_same [OF run(1)])
  have jp: "job_part s" by (rule reachable_job_part [OF assms(1)])
  then have wf: "job_wf j" and uniq: "jt.unique_keys (db_jobs s)" using j(1) by (simp_all add: job_part_def jobs_wf_def)
  obtain out where out: "rs_output rr = Some out" and ids: "rs_worker_id rr = ?w" "rs_job_id rr = jb_job_id j"
    using run_job_result [OF run] wf by (metis (no_types, lifting) job_assignment.select_convs(1) job_wf_def sign_def signed_manifest.select_convs(1))
  let ?l = "leased_to ?w ?d ?t1 j"
  have found: "find_job (jb_job_id j) s1 = Some ?l"
    using jt.lookup_unique [OF uniq j(1)] j(2) by (simp add: find_job_lookup jobs1 jt.lookup_update queued_with_id_def)
  have lt: "sx_clock S (2 * k + 1) 1 < ?d" using assms(4) unfolding paced_clock_def by (rule conjunct2)
  have acc: "results_section ?P rr (sx_clock S (2 * k + 1) 1) (sx_clock S (2 * k + 1) 2) s1 =
      accept_result ?P ?l ?w (result_output rr) (sx_clock S (2 * k + 1) 1) (sx_clock S (2 * k + 1) 2) s1"
  proof (cases "mf_kind (jb_manifest j) = ''challenge''")
    case True
    then obtain traceback M x where "faithful_env traceback M (sx_env S k) ''challenge'' (jb_input j) (mf_limits (jb_manifest j))"
      "dict_get (jb_input j) ''x'' = Some (JInt x)" using chal by blast
    then show ?thesis using found ids(2) small
      by (intro honest_result_accepted [OF run _ _ _ _ lt, where traceback = traceback and M = M and x = x]) (simp_all add: sign_def)
  next
    case False
    then show ?thesis using found ids(2) small
      by (intro honest_result_accepted [OF run _ _ _ _ lt]) (simp_all add: sign_def)
  qed
  obtain row1 where seat1: "seat S s1 a row1" by (rule seat_kept [OF workers1 assms(2)])
  let ?s' = "fst (results ?P (sx_config S) (sx_clock S (2 * k + 1)) (rs_job_id rr) None rr (auth_header a') s1)"
  have hdr: "auth_header a' = auth_header a" using same by (simp add: same_agent_def auth_header_def has_token_def)
  have s': "?s' = fst (accept_result ?P ?l ?w out (sx_clock S (2 * k + 1) 1) (sx_clock S (2 * k + 1) 2) s1)"
    using seat_auth [OF seat1, of ?P "sx_clock S (2 * k + 1) 0"] seat1 acc
    by (simp add: results_def and_then_def hdr ids seat_def result_output_def out)
  have turn: "live_turn S k a s = (?s', a', Ran (Inr rr))"
    using assms(2) poll run(1) by (simp add: live_turn_def joined_waits seat_def http_reply_def poll_once_def turn_of_def)
  have held: "held_by (jb_job_id j) ?w (leased_to ?w ?d ?t1 i) \<longleftrightarrow> jb_job_id i = jb_job_id j" for i
    by (simp add: held_by_def)
  have upd: "(let i' = (if queued_with_id (jb_job_id j) i then leased_to ?w ?d ?t1 i else i)
      in if held_by (jb_job_id j) ?w i' then completed_with out t2 i' else i') = finished_by (jb_job_id j) ?w ?d ?t1 t2 out i"
    if "i \<in> set (db_jobs s)" for i t2
    using jt.unique_keys_eq [OF uniq that j(1)] j(2) held by (auto simp: finished_by_def queued_with_id_def held_by_def Let_def)
  have "db_jobs ?s' = map (\<lambda>i. let i' = (if queued_with_id (jb_job_id j) i then leased_to ?w ?d ?t1 i else i)
      in if held_by (jb_job_id j) ?w i' then completed_with out (sx_clock S (2 * k + 1) 1) i' else i') (db_jobs s)"
    unfolding s' by (simp add: accept_result_def jobs1 update_where_def Let_def)
  also have "\<dots> = map (finished_by (jb_job_id j) ?w ?d ?t1 (sx_clock S (2 * k + 1) 1) out) (db_jobs s)"
    by (intro map_cong refl upd)
  finally have "db_jobs ?s' = map (finished_by (jb_job_id j) ?w ?d ?t1 (sx_clock S (2 * k + 1) 1) out) (db_jobs s)" .
  moreover have "db_workers ?s' = update_where (\<lambda>r. wk_worker_id r = ?w) (touched ?t1) (db_workers s)"
    unfolding s' by (simp add: accept_result_def workers1)
  ultimately show thesis using that [OF turn j(1,2) ids(2) run(2) out _ _ same] by blast
qed

section \<open>Rounds\<close>

definition ready :: "site \<Rightarrow> agent list \<Rightarrow> db \<Rightarrow> bool" where
  "ready S fleet s \<longleftrightarrow> reachable (sx_prims S) s \<and> nobody_leases s \<and> (\<forall>k. paced_clock S k s) \<and>
     (\<forall>a \<in> set fleet. \<exists>row. seat S s a row \<and>
        (\<forall>j \<in> set (db_jobs s). jb_state j = Queued \<longrightarrow> fits row j \<longrightarrow> finishes S a j))"

definition settled_for :: "agent list \<Rightarrow> db \<Rightarrow> bool" where
  "settled_for fleet s \<longleftrightarrow> (\<forall>a \<in> set fleet. \<forall>row. find_worker (ag_worker_id a) s = Some row \<longrightarrow>
     (\<forall>j \<in> set (db_jobs s). jb_state j = Queued \<longrightarrow> \<not> fits row j))"

text \<open>What a list of reported results did to a job: its own result completed it, or it is as it was.\<close>

definition advanced :: "result_request list \<Rightarrow> job \<Rightarrow> job \<Rightarrow> bool" where
  "advanced rrs j j' \<longleftrightarrow>
     (if jb_job_id j \<in> rs_job_id ` set rrs
      then jb_state j = Queued \<and> jb_state j' = Completed \<and> jb_job_id j' = jb_job_id j \<and> jb_manifest j' = jb_manifest j \<and>
        jb_units j' = jb_units j \<and> jb_created_at j' = jb_created_at j \<and>
        (\<exists>rr \<in> set rrs. rs_job_id rr = jb_job_id j \<and> rs_status rr = StCompleted \<and> jb_result j' = rs_output rr)
      else j' = j)"

definition done_jobs :: "db \<Rightarrow> db \<Rightarrow> result_request list \<Rightarrow> bool" where
  "done_jobs s s' rrs \<longleftrightarrow> list_all2 (advanced rrs) (db_jobs s) (db_jobs s') \<and> distinct (map rs_job_id rrs) \<and>
     rs_job_id ` set rrs \<subseteq> jb_job_id ` set (db_jobs s) \<and>
     (\<forall>v. map_option fits (find_worker v s') = map_option fits (find_worker v s))"

lemma done_jobs_refl [simp]: "done_jobs s s []"
  by (simp add: done_jobs_def advanced_def list.rel_refl)

lemma done_jobs_trans:
  assumes "done_jobs s s1 xs" "done_jobs s1 s2 ys"
  shows "done_jobs s s2 (xs @ ys)"
proof -
  have two: "\<exists>j1 j2. j1 \<in> set (db_jobs s1) \<and> advanced xs j j1 \<and> advanced ys j1 j2" if "j \<in> set (db_jobs s)" for j
    using assms that unfolding done_jobs_def by (metis in_set_conv_nth list_all2_conv_all_nth)
  have disjoint: False if "i \<in> rs_job_id ` set xs" "i \<in> rs_job_id ` set ys" for i
  proof -
    have "i \<in> jb_job_id ` set (db_jobs s)" using assms(1) that(1) unfolding done_jobs_def by blast
    then obtain j where j: "j \<in> set (db_jobs s)" "jb_job_id j = i" by blast
    obtain j1 j2 where "advanced xs j j1" "advanced ys j1 j2" using two [OF j(1)] by blast
    then show False using that j(2) by (auto simp: advanced_def split: if_splits)
  qed
  have "list_all2 (advanced (xs @ ys)) (db_jobs s) (db_jobs s2)"
  proof (rule list_all2_trans [of "advanced xs" "advanced ys"])
    show "list_all2 (advanced xs) (db_jobs s) (db_jobs s1)" "list_all2 (advanced ys) (db_jobs s1) (db_jobs s2)"
      using assms by (simp_all add: done_jobs_def)
    show "advanced (xs @ ys) a c" if "advanced xs a b" "advanced ys b c" for a b c
      using that disjoint by (cases "jb_job_id a \<in> rs_job_id ` set xs") (auto simp: advanced_def split: if_splits)
  qed
  moreover have "jb_job_id ` set (db_jobs s1) = jb_job_id ` set (db_jobs s)"
  proof -
    have "map jb_job_id (db_jobs s1) = map jb_job_id (db_jobs s)"
      using assms(1) by (auto simp: done_jobs_def list_all2_conv_all_nth advanced_def intro!: nth_equalityI split: if_splits)
    then show ?thesis by (metis list.set_map)
  qed
  ultimately show ?thesis using assms disjoint by (auto simp: done_jobs_def) blast
qed

definition waiting :: "db \<Rightarrow> nat" where
  "waiting s = length (filter (\<lambda>j. jb_state j = Queued) (db_jobs s))"

lemma done_jobs_waiting:
  assumes "done_jobs s s' rrs" "rrs \<noteq> []"
  shows "waiting s' < waiting s"
proof -
  have le: "length (filter (\<lambda>j. jb_state j = Queued) ys) \<le> length (filter (\<lambda>j. jb_state j = Queued) xs)"
    if "list_all2 (advanced rrs) xs ys" for xs ys
    using that by (induction xs ys rule: list_all2_induct) (auto simp: advanced_def split: if_splits)
  have lt: "length (filter (\<lambda>j. jb_state j = Queued) ys) < length (filter (\<lambda>j. jb_state j = Queued) xs)"
    if "list_all2 (advanced rrs) xs ys" "\<exists>j \<in> set xs. jb_job_id j \<in> rs_job_id ` set rrs" for xs ys
    using that
  proof (induction xs ys rule: list_all2_induct)
    case (Cons x xs y ys)
    show ?case
    proof (cases "jb_job_id x \<in> rs_job_id ` set rrs")
      case True
      then show ?thesis using Cons(1) le [OF Cons(2)] by (simp add: advanced_def)
    next
      case False
      then show ?thesis using Cons by (simp add: advanced_def)
    qed
  qed simp
  obtain rr where rr: "rr \<in> set rrs" using assms(2) by (cases rrs) auto
  then have "rs_job_id rr \<in> jb_job_id ` set (db_jobs s)" using assms(1) unfolding done_jobs_def by blast
  then obtain j where "j \<in> set (db_jobs s)" "jb_job_id j = rs_job_id rr" by force
  then have "\<exists>j \<in> set (db_jobs s). jb_job_id j \<in> rs_job_id ` set rrs" using rr by force
  moreover have "list_all2 (advanced rrs) (db_jobs s) (db_jobs s')" using assms(1) by (simp add: done_jobs_def)
  ultimately show ?thesis unfolding waiting_def by (intro lt)
qed

lemma live_turn_reachable:
  assumes "reachable (sx_prims S) s"
  shows "reachable (sx_prims S) (fst (live_turn S k a s))"
proof -
  have r1: "reachable (sx_prims S) (fst (jobs_next (sx_prims S) mb cf clk w fp h s))" for mb cf clk w fp h
    using serve_reachable [OF assms, of mb cf clk "ReqNext w fp h"] by simp
  have r2: "reachable (sx_prims S) (fst (results (sx_prims S) cf clk jid fp rr h s1))"
    if "reachable (sx_prims S) s1" for cf clk jid fp rr h s1
    using serve_reachable [OF that, of undefined cf clk "ReqResults jid fp rr h"] by simp
  obtain s1 r where p: "jobs_next (sx_prims S) (sx_mbytes S) (sx_config S) (sx_clock S (2 * k)) (ag_worker_id a) None (auth_header a) s = (s1, r)"
    by fastforce
  have "reachable (sx_prims S) s1" using r1 p by (metis fst_conv)
  then show ?thesis using r2 unfolding live_turn_def p
    by (auto split: prod.splits turn.splits sum.splits)
qed

lemma ready_finished:
  assumes "ready S fleet s" "reachable (sx_prims S) s'" "j \<in> set (db_jobs s)" "jb_state j = Queued"
    and jobs: "db_jobs s' = map (finished_by (jb_job_id j) w d t1 t2 out) (db_jobs s)"
    and workers: "db_workers s' = update_where (\<lambda>r. wk_worker_id r = v) (touched t) (db_workers s)"
  shows "ready S fleet s'"
proof -
  have queued: "i \<in> set (db_jobs s)" if "i \<in> set (db_jobs s')" "jb_state i = Queued" for i
    using that by (auto simp: jobs finished_by_def split: if_splits)
  have "nobody_leases s'" using assms(1) by (auto simp: ready_def nobody_leases_def jobs finished_by_def)
  moreover have "paced_clock S k s'" for k
  proof -
    have "jb_created_at (finished_by (jb_job_id j) w d t1 t2 out i) = jb_created_at i" for i
      by (simp add: finished_by_def completed_with_def)
    then show ?thesis using assms(1) by (auto simp: ready_def paced_clock_def jobs)
  qed
  moreover have "\<exists>row. seat S s' a row \<and> (\<forall>j \<in> set (db_jobs s'). jb_state j = Queued \<longrightarrow> fits row j \<longrightarrow> finishes S a j)"
    if a: "a \<in> set fleet" for a
  proof -
    obtain row where row: "seat S s a row" "\<forall>j \<in> set (db_jobs s). jb_state j = Queued \<longrightarrow> fits row j \<longrightarrow> finishes S a j"
      using assms(1) a unfolding ready_def by blast
    obtain row' where "seat S s' a row'" "fits row' = fits row" by (rule seat_kept [OF workers row(1)])
    then show ?thesis using row(2) queued by metis
  qed
  ultimately show ?thesis using assms(2) by (simp add: ready_def)
qed

lemma ready_turn:
  assumes "ready S fleet s" "a \<in> set fleet"
  obtains (idle) "live_turn S k a s = (s, a, NoWork)" "settled_for [a] s"
  | (worked) s' a' rr where "live_turn S k a s = (s', a', Ran (Inr rr))" "same_agent a a'" "done_jobs s s' [rr]" "ready S fleet s'"
proof -
  obtain row where row: "seat S s a row" "\<forall>j \<in> set (db_jobs s). jb_state j = Queued \<longrightarrow> fits row j \<longrightarrow> finishes S a j"
    and r: "reachable (sx_prims S) s" "nobody_leases s" "paced_clock S k s"
    using assms unfolding ready_def by blast
  show thesis
  proof (cases "\<exists>j \<in> set (db_jobs s). jb_state j = Queued \<and> fits row j")
    case False
    then have "live_turn S k a s = (s, a, NoWork)" using row(1) r(2) by (intro idle_turn) auto
    moreover have "settled_for [a] s" using False row(1) by (auto simp: settled_for_def seat_def)
    ultimately show thesis by (rule idle)
  next
    case True
    then obtain j0 where j0: "j0 \<in> set (db_jobs s)" "jb_state j0 = Queued" "fits row j0" by blast
    have able: "finishes S a j" if "j \<in> set (db_jobs s)" "jb_state j = Queued" "fits row j" for j
      using row(2) that by blast
    obtain s' a' rr j out d t1 t2 t where w: "live_turn S k a s = (s', a', Ran (Inr rr))" "j \<in> set (db_jobs s)"
      "jb_state j = Queued" "rs_job_id rr = jb_job_id j" "rs_status rr = StCompleted" "rs_output rr = Some out"
      "db_jobs s' = map (finished_by (jb_job_id j) (ag_worker_id a) d t1 t2 out) (db_jobs s)"
      "db_workers s' = update_where (\<lambda>r. wk_worker_id r = ag_worker_id a) (touched t) (db_workers s)" "same_agent a a'"
      by (rule working_turn [OF r(1) row(1) r(2,3) j0 able])
    have uniq: "jt.unique_keys (db_jobs s)" using reachable_job_part [OF r(1)] by (simp add: job_part_def jobs_wf_def)
    have "advanced [rr] i (finished_by (jb_job_id j) (ag_worker_id a) d t1 t2 out i)" if "i \<in> set (db_jobs s)" for i
      using jt.unique_keys_eq [OF uniq that w(2)] w(3-6)
      by (auto simp: advanced_def finished_by_def completed_with_def leased_to_def)
    moreover have "map_option fits (find_worker v s') = map_option fits (find_worker v s)" for v
      using find_touched [OF w(8), of v] by (cases "find_worker v s") auto
    ultimately have "done_jobs s s' [rr]"
      using w(2,4,7) by (auto simp: done_jobs_def list_all2_map2 list_all2_same)
    moreover have "reachable (sx_prims S) s'" using live_turn_reachable [OF r(1), of k a] w(1) by simp
    then have "ready S fleet s'" by (rule ready_finished [OF assms(1) _ w(2,3,7,8)])
    ultimately show thesis by (rule worked [OF w(1,9)])
  qed
qed

lemma ready_same:
  assumes "ready S fleet s" "list_all2 same_agent fleet fleet'"
  shows "ready S fleet' s"
proof -
  have "\<exists>row. seat S s b row \<and> (\<forall>j \<in> set (db_jobs s). jb_state j = Queued \<longrightarrow> fits row j \<longrightarrow> finishes S b j)"
    if b: "b \<in> set fleet'" for b
  proof -
    obtain a where a: "a \<in> set fleet" "same_agent a b"
      using assms(2) b by (metis in_set_conv_nth list_all2_conv_all_nth)
    then show ?thesis using assms(1) same_agent_seat [OF a(2)] finishes_same [OF a(2)] unfolding ready_def by blast
  qed
  then show ?thesis using assms(1) by (simp add: ready_def)
qed

lemma settled_same:
  assumes "list_all2 same_agent fleet fleet'"
  shows "settled_for fleet' s \<longleftrightarrow> settled_for fleet s"
proof -
  have "map ag_worker_id fleet' = map ag_worker_id fleet"
    using assms by (auto simp: list_all2_conv_all_nth same_agent_def settings_def intro!: nth_equalityI)
  then have "ag_worker_id ` set fleet' = ag_worker_id ` set fleet" by (metis list.set_map)
  moreover have "settled_for as s \<longleftrightarrow> (\<forall>w \<in> ag_worker_id ` set as. \<forall>row. find_worker w s = Some row \<longrightarrow>
      (\<forall>j \<in> set (db_jobs s). jb_state j = Queued \<longrightarrow> \<not> fits row j))" for as
    by (simp add: settled_for_def)
  ultimately show ?thesis by (simp only:)
qed

lemma same_agents_refl: "list_all2 same_agent as as"
  by (simp add: list.rel_refl)

lemma settled_round:
  assumes "ready S fleet s" "settled_for fleet s" "set as \<subseteq> set fleet"
  shows "drain_round S k as s = Some (s, as, [])"
  using assms(3)
proof (induction as arbitrary: k)
  case (Cons a as)
  then obtain row where row: "seat S s a row" "nobody_leases s" using assms(1) by (auto simp: ready_def)
  have "a \<in> set fleet" using Cons.prems by simp
  then have "\<forall>j \<in> set (db_jobs s). jb_state j = Queued \<longrightarrow> \<not> fits row j"
    using row(1) assms(2) unfolding settled_for_def seat_def by blast
  then have "live_turn S k a s = (s, a, NoWork)" by (rule idle_turn [OF row])
  then show ?case using Cons by simp
qed simp

definition rounded :: "agent list \<Rightarrow> agent list \<Rightarrow> db \<Rightarrow> db \<Rightarrow> agent list \<Rightarrow> result_request list \<Rightarrow> site \<Rightarrow> bool" where
  "rounded fleet as s s' as' rrs S \<longleftrightarrow> ready S fleet s' \<and> list_all2 same_agent as as' \<and> done_jobs s s' rrs \<and>
     (rrs = [] \<longrightarrow> s' = s \<and> settled_for as s)"

lemma ready_round:
  "ready S fleet s \<Longrightarrow> set as \<subseteq> set fleet \<Longrightarrow>
     \<exists>s' as' rrs. drain_round S k as s = Some (s', as', rrs) \<and> rounded fleet as s s' as' rrs S"
proof (induction as arbitrary: k s)
  case Nil
  then show ?case by (simp add: settled_for_def rounded_def)
next
  case (Cons a as)
  have sub: "set as \<subseteq> set fleet" and a: "a \<in> set fleet" using Cons.prems(2) by simp_all
  show ?case
  proof (cases rule: ready_turn [OF Cons.prems(1) a, of k])
    case 1
    obtain s' as' rrs where r: "drain_round S (Suc k) as s = Some (s', as', rrs)" "rounded fleet as s s' as' rrs S"
      using Cons.IH [OF Cons.prems(1) sub] by blast
    have "drain_round S k (a # as) s = Some (s', a # as', rrs)" using r(1) 1(1) by simp
    moreover have "rounded fleet (a # as) s s' (a # as') rrs S"
      using r(2) 1(2) by (simp add: rounded_def settled_for_def)
    ultimately show ?thesis by blast
  next
    case (2 s1 a' rr)
    obtain s' as' rrs where r: "drain_round S (Suc k) as s1 = Some (s', as', rrs)" "rounded fleet as s1 s' as' rrs S"
      using Cons.IH [OF 2(4) sub] by blast
    have "drain_round S k (a # as) s = Some (s', a' # as', rr # rrs)" using r(1) 2(1) by simp
    moreover have "done_jobs s s' (rr # rrs)" using done_jobs_trans [OF 2(3), of s' rrs] r(2) by (simp add: rounded_def)
    then have "rounded fleet (a # as) s s' (a' # as') (rr # rrs) S" using r(2) 2(2) by (simp add: rounded_def)
    ultimately show ?thesis by blast
  qed
qed

section \<open>The fleet drains its queue\<close>

lemma drain_drains:
  "ready S as s \<Longrightarrow> idle = 0 \<or> settled_for as s \<Longrightarrow> waiting s < m \<or> settled_for as s \<Longrightarrow>
     \<exists>s' as' rrs. drain S m idle k as s = Some (s', as', rrs) \<and> done_jobs s s' rrs \<and> ready S as s' \<and> settled_for as s'"
proof (induction m arbitrary: idle k as s)
  case 0
  then show ?case by auto
next
  case (Suc m)
  show ?case
  proof (cases "idle < length as")
    case False
    then have "settled_for as s" using Suc.prems(2) by (cases as) (auto simp: settled_for_def)
    then show ?thesis using False Suc.prems(1) by simp
  next
    case True
    obtain s1 as1 rrs where r: "drain_round S k as s = Some (s1, as1, rrs)" "rounded as as s s1 as1 rrs S"
      using ready_round [OF Suc.prems(1) subset_refl] by blast
    have ready1: "ready S as1 s1" and same: "list_all2 same_agent as as1" and dn: "done_jobs s s1 rrs"
      using r(2) ready_same by (auto simp: rounded_def)
    have "\<exists>s' as' later. drain S m (if rrs \<noteq> [] then 0 else idle + 1) (k + length as) as1 s1 = Some (s', as', later) \<and>
        done_jobs s1 s' later \<and> ready S as1 s' \<and> settled_for as1 s'"
    proof (rule Suc.IH [OF ready1])
      show "(if rrs \<noteq> [] then 0 else idle + 1) = 0 \<or> settled_for as1 s1"
        using r(2) settled_same [OF same] by (auto simp: rounded_def)
      show "waiting s1 < m \<or> settled_for as1 s1"
      proof (cases "rrs = []")
        case True
        then show ?thesis using r(2) settled_same [OF same] by (auto simp: rounded_def)
      next
        case False
        then have "\<not> settled_for as s" using settled_round [OF Suc.prems(1) _ subset_refl, of k] r(1) by auto
        then show ?thesis using done_jobs_waiting [OF dn False] Suc.prems(3) by linarith
      qed
    qed
    then obtain s' as' later where d: "drain S m (if rrs \<noteq> [] then 0 else idle + 1) (k + length as) as1 s1 = Some (s', as', later)"
      "done_jobs s1 s' later" "ready S as1 s'" "settled_for as1 s'" by blast
    have "drain S (Suc m) idle k as s = Some (s', as', rrs @ later)" using True r(1) d(1) by simp
    moreover have "done_jobs s s' (rrs @ later)" by (rule done_jobs_trans [OF dn d(2)])
    moreover have "list_all2 same_agent as1 as"
      using same by (auto simp: list_all2_conv_all_nth same_agent_def)
    then have "ready S as s'" using ready_same [OF d(3)] by blast
    moreover have "settled_for as s'" using d(4) settled_same [OF same] by simp
    ultimately show ?thesis by blast
  qed
qed

lemma advanced_job:
  assumes "done_jobs s s' rrs" "j \<in> set (db_jobs s)"
  obtains j' where "j' \<in> set (db_jobs s')" "advanced rrs j j'" "jb_job_id j' = jb_job_id j"
proof -
  obtain j' where j': "j' \<in> set (db_jobs s')" "advanced rrs j j'"
    using assms unfolding done_jobs_def by (metis in_set_conv_nth list_all2_conv_all_nth)
  then have "jb_job_id j' = jb_job_id j" by (simp add: advanced_def split: if_splits)
  with j' show thesis by (rule that)
qed

lemma drain_completes:
  assumes "ready S fleet s" "waiting s < max_rounds"
  obtains s' fleet' rrs where "drain S max_rounds 0 k fleet s = Some (s', fleet', rrs)" "reachable (sx_prims S) s'"
    "nobody_leases s'" "distinct (map rs_job_id rrs)" "rs_job_id ` set rrs \<subseteq> jb_job_id ` set (db_jobs s)"
    "\<And>j a row. j \<in> set (db_jobs s) \<Longrightarrow> jb_state j = Queued \<Longrightarrow> a \<in> set fleet \<Longrightarrow>
       find_worker (ag_worker_id a) s = Some row \<Longrightarrow> fits row j \<Longrightarrow>
       \<exists>j' rr. find_job (jb_job_id j) s' = Some j' \<and> jb_state j' = Completed \<and> jb_manifest j' = jb_manifest j \<and>
          rr \<in> set rrs \<and> rs_job_id rr = jb_job_id j \<and> rs_status rr = StCompleted \<and> jb_result j' = rs_output rr"
proof -
  obtain s' fleet' rrs where d: "drain S max_rounds 0 k fleet s = Some (s', fleet', rrs)" "done_jobs s s' rrs"
    "ready S fleet s'" "settled_for fleet s'"
    using drain_drains [OF assms(1), of 0 max_rounds k] assms(2) by blast
  have r: "reachable (sx_prims S) s'" "nobody_leases s'" using d(3) by (simp_all add: ready_def)
  then have uniq: "jt.unique_keys (db_jobs s')" using reachable_job_part by (simp add: job_part_def jobs_wf_def)
  have "\<exists>j' rr. find_job (jb_job_id j) s' = Some j' \<and> jb_state j' = Completed \<and> jb_manifest j' = jb_manifest j \<and>
      rr \<in> set rrs \<and> rs_job_id rr = jb_job_id j \<and> rs_status rr = StCompleted \<and> jb_result j' = rs_output rr"
    if j: "j \<in> set (db_jobs s)" "jb_state j = Queued"
      and a: "a \<in> set fleet" "find_worker (ag_worker_id a) s = Some row" "fits row j" for j a row
  proof -
    obtain j' where j': "j' \<in> set (db_jobs s')" "advanced rrs j j'" "jb_job_id j' = jb_job_id j"
      by (rule advanced_job [OF d(2) j(1)])
    have "map_option fits (find_worker (ag_worker_id a) s') = Some (fits row)"
      using d(2) a(2) by (simp add: done_jobs_def)
    then obtain row' where row': "find_worker (ag_worker_id a) s' = Some row'" "fits row' = fits row" by auto
    have "jb_job_id j \<in> rs_job_id ` set rrs"
    proof (rule ccontr)
      assume "jb_job_id j \<notin> rs_job_id ` set rrs"
      then have "j' = j" using j'(2) by (simp add: advanced_def)
      then show False using d(4) a row' j j'(1) by (auto simp: settled_for_def)
    qed
    then show ?thesis
      using j' jt.lookup_unique [OF uniq j'(1)] by (auto simp: advanced_def find_job_lookup)
  qed
  then show thesis using that d(1,2) r by (simp add: done_jobs_def)
qed


definition demo_site :: site where
  "demo_site = \<lparr>sx_prims = demo_prims, sx_mbytes = demo_mbytes, sx_config = demo_config,
     sx_clock = (\<lambda>_. demo_clock 9), sx_env = (\<lambda>_. demo_env)\<rparr>"

lemma demo_finishes: "settings a = settings demo_agent \<Longrightarrow> finishes demo_site a demo_job"
proof -
  assume a: "settings a = settings demo_agent"
  have "\<exists>b' places rr. run_job demo_prims demo_mbytes demo_env demo_work b = (b', places, Some (Inr rr)) \<and>
      rs_status rr = StCompleted \<and> rs_output rr = Some []" if b: "same_agent a b" for b
  proof -
    have set: "ag_verify b" "ag_isolated b" "ag_require_isolation b"
      "ag_trusted_public_key_hex b = ag_trusted_public_key_hex demo_agent"
      using a b by (simp_all add: same_agent_def settings_def demo_agent_def)
    have m: "sm_manifest (ja_signed_manifest demo_work) = jb_manifest demo_job" by (simp add: demo_work_def sign_def)
    have items: "item_units (ja_input demo_work) = Inr 1"
      by (simp add: item_units_def demo_work_def demo_job_def new_job_def demo_submit_def get_or_def dict_get_def)
    have host: "\<not> host_side_job (jb_manifest demo_job)" "\<not> rq_needs_gpu (mf_requires (jb_manifest demo_job))"
      by (simp_all add: host_side_job_def demo_job_def new_job_def new_manifest_def demo_submit_def default_requires_def
          default_sandbox_def)
    have code: "run_code demo_env (note_job_gpu False b) demo_work = ([Behind Docker], Some ([], StCompleted))"
      using host set(2,3) by (simp add: run_code_def m demo_env_def demo_isolated finished_output_def
          note_job_gpu_def get_or_def dict_get_def)
    have now: "je_now demo_env = 2000010" by (simp add: demo_env_def)
    have noted: "ag_verify (note_job_gpu g b)" "ag_trusted_public_key_hex (note_job_gpu g b) = ag_trusted_public_key_hex demo_agent" for g
      using set by (simp_all add: note_job_gpu_def)
    show ?thesis
      using demo_work_verifies host(2) code items by (simp add: run_job_def Let_def m now noted result_of_def)
  qed
  moreover have "cf_signer demo_config = \<lparr>sg_private = ''s''\<rparr>" by (simp add: demo_config_def)
  then have "\<lparr>ja_signed_manifest = sign demo_prims demo_mbytes (cf_signer demo_config) (jb_manifest demo_job), ja_input = jb_input demo_job\<rparr> = demo_work"
    by (simp add: demo_work_def)
  moreover have "length (dumps_ascii (p_float_repr demo_prims) (JObj [])) \<le> MAX_RESULT_OUTPUT_BYTES"
    by (simp add: MAX_RESULT_OUTPUT_BYTES_def dumps_ascii_def)
  ultimately show ?thesis
    unfolding finishes_def demo_site_def by simp (metis option.simps(5))
qed

lemma demo_ready: "ready demo_site [demo_agent] submitted_db"
proof -
  have "find_worker ''w'' submitted_db = Some demo_row" by (rule demo_found [OF submitted_rows(1)])
  moreover have "auth_header demo_agent = Some ''Bearer tok''"
    by (simp add: auth_header_def has_token_def demo_agent_def bearer_def)
  ultimately have "seat demo_site submitted_db demo_agent demo_row"
    by (simp add: seat_def demo_site_def demo_token default_capability_def) (simp add: demo_agent_def)
  moreover have "paced_clock demo_site k submitted_db" for k
    by (simp add: paced_clock_def demo_site_def submitted_rows demo_clock_def seconds_def)
  moreover have "nobody_leases submitted_db" by (simp add: nobody_leases_def submitted_rows)
  ultimately show ?thesis
    using demo_reachable(2) demo_finishes [OF refl] by (auto simp: ready_def demo_site_def submitted_rows)
qed


text \<open>
  \<open>scripts/demo.py\<close> submits its jobs unmarked, so they are internal, and never gives its freshly registered
  workers a tier: it drains at once with nothing done, and its cheater is never tested.
\<close>

lemma untiered_fleet_idles:
  assumes "nobody_leases s" "\<forall>j \<in> set (db_jobs s). mf_data_classification (jb_manifest j) = ''internal''"
    and "\<forall>a \<in> set fleet. \<exists>row. seat S s a row \<and> wk_trust_tier row \<in> {[], TIER_UNTRUSTED}"
  shows "drain S m 0 k fleet s = Some (s, fleet, [])"
proof -
  have "\<not> may_route ''internal'' TIER_UNTRUSTED" "DEFAULT_TRUST_TIER = TIER_UNTRUSTED"
    by (simp_all add: may_route_def MIN_TIER_FOR_CLASSIFICATION_def TIERS_def TIER_UNTRUSTED_def DEFAULT_TRUST_TIER_def)
  then have none: "\<not> fits row j" if "j \<in> set (db_jobs s)" "wk_trust_tier row \<in> {[], TIER_UNTRUSTED}" for row j
    using assms(2) that by (auto simp: fits_def eligible_def)
  have turn: "live_turn S k a s = (s, a, NoWork)" if "a \<in> set fleet" for k a
    using assms(3) that none by (meson assms(1) idle_turn)
  have "drain_round S k as s = Some (s, as, [])" if "set as \<subseteq> set fleet" for as k
    using that turn by (induction as arbitrary: k) auto
  then have same: "drain_round S k fleet s = Some (s, fleet, [])" for k by simp
  have "drain S m idle k fleet s = Some (s, fleet, [])" for idle
    using same by (induction m arbitrary: idle k) auto
  then show ?thesis .
qed

end
