(* ===== verification/Fleet_Demo.thy ===== *)
theory Fleet_Demo imports Fleet_Driver Standing begin

text \<open>
  The programme of \<open>scripts/demo_fleet.py\<close> around its drain loop: \<open>_approve_fleet\<close> registers the machines,
  admits them and gives them their trust tier; \<open>submit_all\<close> queues a batch; \<open>_drain\<close> works it off; the
  pulse thread posts heartbeats on the side. Everything runs against the handlers of the orchestrator.
\<close>

section \<open>Joining\<close>

text \<open>
  What joining draws on: the clock of each request, the token and the code the server makes for each
  registration, and the free memory each machine measures.
\<close>

record joining =
  jn_clock :: "nat \<Rightarrow> clock"
  jn_token :: "nat \<Rightarrow> str"
  jn_code :: "nat \<Rightarrow> str"
  jn_free_ram :: "str \<Rightarrow> rat option"

definition answered :: "'a outcome \<Rightarrow> 'a reply" where
  "answered r = http_reply (case r of Inl e \<Rightarrow> Inl e | Inr x \<Rightarrow> Inr (Some x))"

definition live_register :: "site \<Rightarrow> joining \<Rightarrow> nat \<Rightarrow> agent \<Rightarrow> db \<Rightarrow> db \<times> agent" where
  "live_register S J k a s =
     (case register (sx_prims S) (sx_config S) (jn_clock J k) (jn_token J k) (jn_code J k) None (registration_capability a) s of
        (s1, r) \<Rightarrow> (s1, fst (agent_register (answered r) a)))"

definition live_heartbeat :: "site \<Rightarrow> joining \<Rightarrow> nat \<Rightarrow> agent \<Rightarrow> db \<Rightarrow> db \<times> agent \<times> heartbeat_response" where
  "live_heartbeat S J k a s =
     (case heartbeat (sx_prims S) (sx_config S) (jn_clock J k) None
             (heartbeat_request_of a None 0 None None (jn_free_ram J (ag_worker_id a))) (auth_header a) s of
        (s1, r) \<Rightarrow> (s1, agent_heartbeat (answered r) a))"

fun register_all :: "site \<Rightarrow> joining \<Rightarrow> nat \<Rightarrow> agent list \<Rightarrow> db \<Rightarrow> db \<times> agent list" where
  "register_all S J k [] s = (s, [])"
| "register_all S J k (a # as) s =
     (let (s1, a1) = live_register S J k a s; (s2, as') = register_all S J (Suc k) as s1 in (s2, a1 # as'))"

text \<open>\<open>None\<close>: \<open>raise_for_status\<close> raised and the program ends.\<close>

fun admit_all :: "site \<Rightarrow> joining \<Rightarrow> nat \<Rightarrow> agent list \<Rightarrow> db \<Rightarrow> db \<times> agent list option" where
  "admit_all S J k [] s = (s, Some [])"
| "admit_all S J k (a # as) s =
     (case approve (sx_prims S) (sx_config S) (jn_clock J k) (ag_worker_id a) None s of
        (s1, Inl _) \<Rightarrow> (s1, None)
      | (s1, Inr _) \<Rightarrow>
          (let (s2, a1, r) = live_heartbeat S J (Suc k) a s1;
               a2 = (if hr_approved r then a1\<lparr>ag_approved := True, ag_device_code := None\<rparr> else a1);
               (s3, rest) = admit_all S J (Suc (Suc k)) as s2
           in (s3, map_option (\<lambda>as'. a2 # as') rest)))"

fun tier_all :: "site \<Rightarrow> joining \<Rightarrow> nat \<Rightarrow> agent list \<Rightarrow> db \<Rightarrow> db \<times> bool" where
  "tier_all S J k [] s = (s, True)"
| "tier_all S J k (a # as) s =
     (case set_tier (sx_prims S) (sx_config S) (jn_clock J k) (ag_worker_id a) ''managed'' None s of
        (s1, Inl _) \<Rightarrow> (s1, False)
      | (s1, Inr _) \<Rightarrow> tier_all S J (Suc k) as s1)"

definition approve_fleet :: "site \<Rightarrow> joining \<Rightarrow> agent list \<Rightarrow> db \<Rightarrow> db \<times> agent list option" where
  "approve_fleet S J fleet s =
     (let (s1, as1) = register_all S J 0 fleet s
      in case admit_all S J (length fleet) as1 s1 of
           (s2, None) \<Rightarrow> (s2, None)
         | (s2, Some as2) \<Rightarrow>
             (let (s3, ok) = tier_all S J (3 * length fleet) as2 s2 in (s3, if ok then Some as2 else None)))"

section \<open>The pulse\<close>

text \<open>One beat of \<open>_start_heartbeat_pulse\<close>: the readings are made up, and no credential is sent.\<close>

definition pulse_request :: "(str \<Rightarrow> bool) \<Rightarrow> str set \<Rightarrow> (str \<Rightarrow> rat) \<Rightarrow> (str \<Rightarrow> rat) \<Rightarrow> str \<Rightarrow> heartbeat_request" where
  "pulse_request busy gpu_ids cpu gpu wid =
     \<lparr>hb_worker_id = wid, hb_idle = (\<not> busy wid), hb_cpu_pct = cpu wid,
      hb_gpu_pct = (if wid \<in> gpu_ids then Some (gpu wid) else None), hb_on_ac = True,
      hb_free_ram_gb = None, hb_current_job_id = None\<rparr>"

fun pulse_beat ::
  "primitives \<Rightarrow> config \<Rightarrow> (nat \<Rightarrow> clock) \<Rightarrow> nat \<Rightarrow> (str \<Rightarrow> heartbeat_request) \<Rightarrow> str list \<Rightarrow> db \<Rightarrow> db" where
  "pulse_beat P cf clk k req [] s = s"
| "pulse_beat P cf clk k req (wid # ids) s =
     pulse_beat P cf clk (Suc k) req ids (fst (heartbeat P cf (clk k) None (req wid) None s))"

text \<open>
  No beat of the pulse reaches a row: the handler wants the worker's token, so every post is answered 401
  and leaves an \<open>auth_failed\<close> event in the audit log.
\<close>

lemma pulse_post_refused:
  assumes "hb_worker_id req = w" "find_worker w s = Some row"
  shows "fst (heartbeat P cf clk None req None s) = emit P (clk 0) ''auth_failed'' (Some w) None (Some ''missing bearer token'') s"
  using assms by (simp add: heartbeat_def and_then_def require_worker_token_def check_worker_token_def worker_auth_detail_def)

lemma pulse_is_refused:
  assumes "\<forall>w. hb_worker_id (req w) = w" "\<forall>w \<in> set ids. find_worker w s \<noteq> None"
  shows "\<exists>es n. pulse_beat P cf clk k req ids s = s\<lparr>db_events := db_events s @ es, db_event_seq := n\<rparr> \<and>
    map (\<lambda>e. (ev_type e, ev_worker_id e)) es = map (\<lambda>w. (''auth_failed'', Some w)) ids"
  using assms(2)
proof (induction ids arbitrary: k s)
  case Nil
  show ?case by (rule exI [of _ "[]"], rule exI [of _ "db_event_seq s"]) simp
next
  case (Cons w ids)
  obtain row where "find_worker w s = Some row" using Cons.prems by auto
  then obtain e where e: "fst (heartbeat P cf (clk k) None (req w) None s) =
      s\<lparr>db_events := db_events s @ [e], db_event_seq := Suc (db_event_seq s)\<rparr>" (is "_ = ?s1")
    "ev_type e = ''auth_failed''" "ev_worker_id e = Some w"
    using assms(1) by (auto simp: pulse_post_refused emit_def Let_def)
  have "\<forall>v \<in> set ids. find_worker v ?s1 \<noteq> None" using Cons.prems by (auto simp: find_worker_def)
  from Cons.IH [OF this, of "Suc k"] obtain es n where
    "pulse_beat P cf clk (Suc k) req ids ?s1 = ?s1\<lparr>db_events := db_events ?s1 @ es, db_event_seq := n\<rparr>"
    "map (\<lambda>e. (ev_type e, ev_worker_id e)) es = map (\<lambda>w. (''auth_failed'', Some w)) ids" by blast
  with e show ?case by (intro exI [of _ "e # es"] exI [of _ n]) simp
qed

section \<open>What joining achieves\<close>

text \<open>An agent as the constructor makes it, for a machine the server has not seen.\<close>

definition newcomer :: "db \<Rightarrow> agent \<Rightarrow> bool" where
  "newcomer s a \<longleftrightarrow> find_worker (ag_worker_id a) s = None \<and> cap_worker_id (ag_capability a) = ag_worker_id a \<and>
     \<not> cap_measurement_only (ag_capability a) \<and> \<not> ag_measurement_only a"

definition plain_token :: "str \<Rightarrow> bool" where
  "plain_token t \<longleftrightarrow> t \<noteq> [] \<and> is_ascii t \<and> strip t = t"

definition same_setup :: "agent \<Rightarrow> agent \<Rightarrow> bool" where
  "same_setup a b \<longleftrightarrow> settings b = settings a \<and> ag_capability b = ag_capability a \<and> ag_measurement_only b = ag_measurement_only a"

text \<open>The agent holds the token of its row, which describes its machine.\<close>

definition signed_up :: "agent \<Rightarrow> db \<Rightarrow> bool" where
  "signed_up a s \<longleftrightarrow> (\<exists>row t. find_worker (ag_worker_id a) s = Some row \<and> wk_capability row = ag_capability a \<and>
     \<not> wk_blacklisted row \<and> wk_free_ram_gb row = register_free_ram (ag_capability a) \<and>
     wk_token row = t \<and> plain_token t \<and> ag_worker_token a = Some t \<and> ag_registered a \<and>
     cap_worker_id (ag_capability a) = ag_worker_id a \<and> \<not> cap_measurement_only (ag_capability a) \<and> \<not> ag_measurement_only a)"

definition joined_ram :: "joining \<Rightarrow> agent \<Rightarrow> rat option" where
  "joined_ram J a = (case jn_free_ram J (ag_worker_id a) of Some f \<Rightarrow> Some f | None \<Rightarrow> register_free_ram (ag_capability a))"

definition admitted :: "joining \<Rightarrow> agent \<Rightarrow> db \<Rightarrow> bool" where
  "admitted J a s \<longleftrightarrow> (\<exists>row t. find_worker (ag_worker_id a) s = Some row \<and> wk_capability row = ag_capability a \<and>
     \<not> wk_blacklisted row \<and> wk_free_ram_gb row = joined_ram J a \<and> wk_approved row \<and>
     wk_token row = t \<and> plain_token t \<and> ag_worker_token a = Some t \<and> ag_registered a \<and> ag_approved a \<and>
     cap_worker_id (ag_capability a) = ag_worker_id a \<and> \<not> cap_measurement_only (ag_capability a))"

lemma token_accepted:
  assumes "plain_token t" "wk_token row = t" "\<not> cf_bind_device_identity cf"
  shows "check_worker_token cf (Some row) (Some (bearer @ t)) fp = Inr None"
proof -
  have "provided_token (bearer @ t) = t" using assms(1) by (simp add: provided_token_def plain_token_def)
  then show ?thesis
    using assms by (simp add: check_worker_token_def plain_token_def check_device_def Let_def compare_digest_def)
qed

lemma header_plain: "ag_worker_token a = Some t \<Longrightarrow> plain_token t \<Longrightarrow> auth_header a = Some (bearer @ t)"
  by (simp add: auth_header_def has_token_def plain_token_def)

lemma register_joins:
  assumes new: "newcomer s a" "\<not> cf_bind_device_identity (sx_config S)" "plain_token (jn_token J k)"
    and r: "live_register S J k a s = (s', a')"
  shows "signed_up a' s'" "same_setup a a'" "db_jobs s' = db_jobs s"
    "\<And>v. v \<noteq> ag_worker_id a \<Longrightarrow> find_worker v s' = find_worker v s"
    "reachable (sx_prims S) s \<Longrightarrow> reachable (sx_prims S) s'"
proof -
  let ?cap = "ag_capability a" and ?P = "sx_prims S" and ?cf = "sx_config S" and ?c = "jn_clock J k"
  have cap: "registration_capability a = ?cap" "measured_capability ?cap = ?cap"
    using new by (simp_all add: newcomer_def registration_capability_def measured_capability_def)
  obtain resp where reg: "register ?P ?cf ?c (jn_token J k) (jn_code J k) None ?cap s = (s', Inr resp)"
    and a': "a' = a\<lparr>ag_worker_token := Some (rr_worker_token resp), ag_approved := rr_approved resp,
             ag_device_code := rr_device_code resp, ag_registered := True\<rparr>"
    using r new by (auto simp: live_register_def cap register_def Let_def register_section_def check_binding_def
        find_worker_upsert answered_def http_reply_def agent_register_def newcomer_def split: prod.splits option.splits)
  from reg obtain args s1 where g: "ra_cap args = ?cap" "ra_token args = jn_token J k"
    "s1 = emit ?P (?c 1) ''registered'' (Some (cap_worker_id ?cap)) None (Some (if cap_has_gpu ?cap then ''gpu'' else ''cpu'')) (upsert_worker args s)"
    "s' = attest ?P ?cf ?cap (?c 2) (?c 3) s1" "rr_worker_token resp = jn_token J k"
    by (rule register_Inr) (simp add: cap)
  have row: "find_worker v s1 = (if v = ag_worker_id a then Some (registered_row args) else find_worker v s)" for v
    using new by (simp add: g find_worker_upsert newcomer_def)
  then obtain row where own: "find_worker (ag_worker_id a) s' = Some row" "wk_capability row = ?cap"
    "\<not> wk_blacklisted row" "wk_free_ram_gb row = register_free_ram ?cap" "wk_token row = jn_token J k"
    using g new by (cases "attested_tier ?P ?cf ?cap (?c 2)") (auto simp: find_worker_attest registered_row_def newcomer_def)
  show "signed_up a' s'" using own new g by (auto simp: signed_up_def a' newcomer_def)
  show "same_setup a a'" by (simp add: same_setup_def a' settings_def)
  show "find_worker v s' = find_worker v s" if "v \<noteq> ag_worker_id a" for v
  proof -
    have "wk_worker_id r = v" if "find_worker v s = Some r" for r using find_worker_Some [OF that] by simp
    with that row new show ?thesis
      by (cases "find_worker v s"; cases "attested_tier ?P ?cf ?cap (?c 2)") (auto simp: g(4) find_worker_attest newcomer_def)
  qed
  show "db_jobs s' = db_jobs s" by (simp add: g(3,4) attest_jobs)
  show "reachable ?P s'" if "reachable ?P s"
    using serve_reachable [OF that, of "\<lambda>_. []" ?cf ?c "ReqRegister (jn_token J k) (jn_code J k) None ?cap"] by (simp add: reg)
qed

lemma heartbeat_admits:
  assumes en: "signed_up a s" "\<not> cf_bind_device_identity (sx_config S)" "admin_credential (sx_config S) = None"
    and ap: "approve (sx_prims S) (sx_config S) (jn_clock J k) (ag_worker_id a) None s = (s1, x)"
    and hb: "live_heartbeat S J (Suc k) a s1 = (s', a', r)"
  shows "\<exists>u. x = Inr u" "hr_approved r" "a' = a" "admitted J (a\<lparr>ag_approved := True, ag_device_code := None\<rparr>) s'"
    "db_jobs s' = db_jobs s" "\<And>v. v \<noteq> ag_worker_id a \<Longrightarrow> find_worker v s' = find_worker v s"
    "reachable (sx_prims S) s \<Longrightarrow> reachable (sx_prims S) s'"
proof -
  let ?P = "sx_prims S" and ?cf = "sx_config S" and ?w = "ag_worker_id a"
  let ?req = "heartbeat_request_of a None 0 None None (jn_free_ram J ?w)"
  obtain row t where row: "find_worker ?w s = Some row" "wk_capability row = ag_capability a" "\<not> wk_blacklisted row"
    "wk_free_ram_gb row = register_free_ram (ag_capability a)" "wk_token row = t" "plain_token t"
    "ag_worker_token a = Some t" "ag_registered a" "cap_worker_id (ag_capability a) = ?w"
    "\<not> cap_measurement_only (ag_capability a)" "\<not> ag_measurement_only a"
    using en(1) by (auto simp: signed_up_def)
  obtain u where x: "x = Inr u" using ap row(1) en(3)
    by (auto simp: approve_def and_then_def require_admin_token_def admin_credential_def worker_or_404_def split: option.splits)
  then have s1: "s1 = emit ?P (jn_clock J k 1) ''approved'' (Some ?w) None (Some ''admitted via dashboard'') (approve_section ?w s)"
    using ap by (simp add: approve_Inr)
  let ?row1 = "row\<lparr>wk_approved := True, wk_device_code := None\<rparr>"
  have row1: "find_worker ?w s1 = Some ?row1" using row(1) find_worker_Some [OF row(1)] by (simp add: s1 find_worker_approve)
  have hdr: "auth_header a = Some (bearer @ t)" using row(6,7) by (rule header_plain [rotated])
  have req: "hb_worker_id ?req = ?w" "hb_free_ram_gb ?req = jn_free_ram J ?w" "hb_current_job_id ?req = None"
    using row(11) by (simp_all add: heartbeat_request_of_def)
  have ans: "heartbeat ?P ?cf (jn_clock J (Suc k)) None ?req (Some (bearer @ t)) s1 =
      (heartbeat_section ?req False (jn_clock J (Suc k) 1) (jn_clock J (Suc k) 2) s1,
       Inr \<lparr>hr_ack = True, hr_preempt = False, hr_approved = True\<rparr>)"
    using row(2,5,6,10) row1 req(1) token_accepted [of t ?row1 ?cf] en(2)
    by (simp add: heartbeat_def and_then_def require_worker_token_def)
  then have s': "s' = heartbeat_section ?req False (jn_clock J (Suc k) 1) (jn_clock J (Suc k) 2) s1"
    and a': "a' = a" "r = \<lparr>hr_ack = True, hr_preempt = False, hr_approved = True\<rparr>"
    using hb hdr by (auto simp: live_heartbeat_def answered_def http_reply_def agent_heartbeat_def)
  have found: "find_worker v s' = map_option (\<lambda>r. if wk_worker_id r = ?w then heartbeat_row ?req False (jn_clock J (Suc k) 1) r else r)
      (find_worker v s1)" for v
    by (simp add: s' find_worker_lookup wt.lookup_update req(1) del: One_nat_def)
  show "\<exists>u. x = Inr u" "hr_approved r" "a' = a" using x a' by simp_all
  show "db_jobs s' = db_jobs s" by (simp add: s' s1 heartbeat_section_jobs req(3))
  show "find_worker v s' = find_worker v s" if "v \<noteq> ?w" for v
    using that by (cases "find_worker v s") (auto simp: found s1 find_worker_approve dest: find_worker_Some)
  show "admitted J (a\<lparr>ag_approved := True, ag_device_code := None\<rparr>) s'"
    using row find_worker_Some [OF row(1)]
    by (auto simp: admitted_def found row1 heartbeat_row_def req(2) joined_ram_def split: option.splits)
  show "reachable ?P s'" if "reachable ?P s"
  proof -
    have "reachable ?P s1"
      using serve_reachable [OF that, of "\<lambda>_. []" ?cf "jn_clock J k" "ReqApprove ?w None"] by (simp add: ap)
    from serve_reachable [OF this, of "\<lambda>_. []" ?cf "jn_clock J (Suc k)" "ReqHeartbeat None ?req (Some (bearer @ t))"]
    show ?thesis by (simp add: ans s')
  qed
qed

lemma tier_given:
  assumes "admitted J a s" "admin_credential (sx_config S) = None"
    and st: "set_tier (sx_prims S) (sx_config S) c (ag_worker_id a) ''managed'' None s = (s', x)"
  shows "\<exists>u. x = Inr u" "admitted J a s'" "map_option wk_trust_tier (find_worker (ag_worker_id a) s') = Some ''managed''"
    "db_jobs s' = db_jobs s" "\<And>v. v \<noteq> ag_worker_id a \<Longrightarrow> find_worker v s' = find_worker v s"
    "reachable (sx_prims S) s \<Longrightarrow> reachable (sx_prims S) s'"
proof -
  let ?w = "ag_worker_id a"
  obtain row where row: "find_worker ?w s = Some row" using assms(1) by (auto simp: admitted_def)
  have "is_valid_tier ''managed''" by (simp add: is_valid_tier_def TIERS_def)
  then obtain u where x: "x = Inr u" using st row assms(2)
    by (auto simp: set_tier_def and_then_def require_admin_token_def admin_credential_def worker_or_404_def split: option.splits)
  then have s': "s' = emit (sx_prims S) (c 1) ''tier_assigned'' (Some ?w) None (Some ''managed'') (tier_section ?w ''managed'' s)"
    using st by (simp add: set_tier_Inr)
  show "\<exists>u. x = Inr u" using x by simp
  show "admitted J a s'" "map_option wk_trust_tier (find_worker ?w s') = Some ''managed''"
    using assms(1) find_worker_Some [OF row] by (auto simp: admitted_def s' find_worker_tier row)
  show "db_jobs s' = db_jobs s" by (simp add: s')
  show "find_worker v s' = find_worker v s" if "v \<noteq> ?w" for v
    using that by (cases "find_worker v s") (auto simp: s' find_worker_tier dest: find_worker_Some)
  show "reachable (sx_prims S) s'" if "reachable (sx_prims S) s"
    using serve_reachable [OF that, of "\<lambda>_. []" "sx_config S" c "ReqTier ?w ''managed'' None"] by (simp add: st)
qed

section \<open>The whole fleet\<close>

lemma signed_up_cong: "find_worker (ag_worker_id a) s' = find_worker (ag_worker_id a) s \<Longrightarrow> signed_up a s' = signed_up a s"
  by (simp add: signed_up_def)

lemma admitted_cong: "find_worker (ag_worker_id a) s' = find_worker (ag_worker_id a) s \<Longrightarrow> admitted J a s' = admitted J a s"
  by (simp add: admitted_def)

lemma newcomer_cong: "find_worker (ag_worker_id a) s' = find_worker (ag_worker_id a) s \<Longrightarrow> newcomer s' a = newcomer s a"
  by (simp add: newcomer_def)

lemma same_setup_id: "same_setup a b \<Longrightarrow> ag_worker_id b = ag_worker_id a"
  by (simp add: same_setup_def settings_def)

lemma register_all_joins:
  assumes "register_all S J k fleet s = (s', fleet')" "\<forall>a \<in> set fleet. newcomer s a" "distinct (map ag_worker_id fleet)"
    "\<not> cf_bind_device_identity (sx_config S)" "\<forall>i. plain_token (jn_token J i)"
  shows "list_all2 same_setup fleet fleet' \<and> (\<forall>b \<in> set fleet'. signed_up b s') \<and> db_jobs s' = db_jobs s \<and>
    (\<forall>v. v \<notin> ag_worker_id ` set fleet \<longrightarrow> find_worker v s' = find_worker v s) \<and>
    (reachable (sx_prims S) s \<longrightarrow> reachable (sx_prims S) s')"
  using assms
proof (induction fleet arbitrary: k s fleet')
  case (Cons a as)
  obtain s1 a1 where one: "live_register S J k a s = (s1, a1)" by fastforce
  obtain as' where rest: "register_all S J (Suc k) as s1 = (s', as')" "fleet' = a1 # as'"
    using Cons.prems(1) one by (auto simp: Let_def split: prod.splits)
  have na: "newcomer s a" "plain_token (jn_token J k)" using Cons.prems(2,5) by auto
  note j = register_joins [OF na(1) Cons.prems(4) na(2) one]
  have "newcomer s1 b" if "b \<in> set as" for b
  proof -
    have "ag_worker_id b \<noteq> ag_worker_id a" "newcomer s b" using Cons.prems(2,3) that by (auto simp: image_iff)
    then show ?thesis using j(4) newcomer_cong by metis
  qed
  then have "\<forall>b \<in> set as. newcomer s1 b" by blast
  note IH = Cons.IH [OF rest(1) this _ Cons.prems(4,5)]
  have d: "distinct (map ag_worker_id as)" "ag_worker_id a \<notin> ag_worker_id ` set as" using Cons.prems(3) by auto
  have "find_worker (ag_worker_id a1) s' = find_worker (ag_worker_id a1) s1"
    using IH d same_setup_id [OF j(2)] by metis
  from signed_up_cong [OF this] j(1) have "signed_up a1 s'" by blast
  moreover have "find_worker v s' = find_worker v s" if "v \<notin> ag_worker_id ` set (a # as)" for v
    using IH [OF d(1)] j(4) [of v] that by (metis image_insert insert_iff list.simps(15))
  ultimately show ?case using IH [OF d(1)] j(2,3,5) by (simp only: rest(2) list.simps list_all2_Cons ball_simps) metis
qed simp

lemma admit_all_admits:
  assumes "admit_all S J k fleet s = (s', r)" "\<forall>a \<in> set fleet. signed_up a s" "distinct (map ag_worker_id fleet)"
    "\<not> cf_bind_device_identity (sx_config S)" "admin_credential (sx_config S) = None"
  shows "(\<exists>fleet'. r = Some fleet' \<and> list_all2 same_setup fleet fleet' \<and> (\<forall>b \<in> set fleet'. admitted J b s')) \<and>
    db_jobs s' = db_jobs s \<and> (\<forall>v. v \<notin> ag_worker_id ` set fleet \<longrightarrow> find_worker v s' = find_worker v s) \<and>
    (reachable (sx_prims S) s \<longrightarrow> reachable (sx_prims S) s')"
  using assms
proof (induction fleet arbitrary: k s r)
  case (Cons a as)
  obtain s1 x where ap: "approve (sx_prims S) (sx_config S) (jn_clock J k) (ag_worker_id a) None s = (s1, x)" by fastforce
  obtain s2 a1 h where hb: "live_heartbeat S J (Suc k) a s1 = (s2, a1, h)" by (metis prod_cases3)
  have en: "signed_up a s" using Cons.prems(2) by simp
  note j = heartbeat_admits [OF en Cons.prems(4,5) ap hb]
  obtain u where x: "x = Inr u" using j(1) by blast
  let ?a2 = "a\<lparr>ag_approved := True, ag_device_code := None\<rparr>"
  obtain r' where rest: "admit_all S J (Suc (Suc k)) as s2 = (s', r')" "r = map_option (\<lambda>as'. ?a2 # as') r'"
    using Cons.prems(1) ap hb x j(2,3) by (auto simp: Let_def split: prod.splits)
  have "signed_up b s2" if "b \<in> set as" for b
  proof -
    have "ag_worker_id b \<noteq> ag_worker_id a" "signed_up b s" using Cons.prems(2,3) that by (auto simp: image_iff)
    then show ?thesis using j(6) signed_up_cong by metis
  qed
  then have "\<forall>b \<in> set as. signed_up b s2" by blast
  note IH = Cons.IH [OF rest(1) this _ Cons.prems(4,5)]
  have d: "distinct (map ag_worker_id as)" "ag_worker_id a \<notin> ag_worker_id ` set as" using Cons.prems(3) by auto
  note IH = IH [OF d(1)]
  obtain as' where as': "r' = Some as'" "list_all2 same_setup as as'" "\<forall>b \<in> set as'. admitted J b s'" using IH by blast
  have "find_worker (ag_worker_id ?a2) s' = find_worker (ag_worker_id ?a2) s2" using IH d(2) by simp
  from admitted_cong [OF this] j(4) have "admitted J ?a2 s'" by blast
  moreover have "same_setup a ?a2" by (simp add: same_setup_def settings_def)
  ultimately have "\<exists>fleet'. r = Some fleet' \<and> list_all2 same_setup (a # as) fleet' \<and> (\<forall>b \<in> set fleet'. admitted J b s')"
    using as' rest(2) by (intro exI [of _ "?a2 # as'"]) simp
  moreover have "find_worker v s' = find_worker v s" if "v \<notin> ag_worker_id ` set (a # as)" for v
    using IH j(6) [of v] that by (metis image_insert insert_iff list.simps(15))
  ultimately show ?case using IH j(5,7) by metis
qed simp

lemma tier_all_gives:
  assumes "tier_all S J k fleet s = (s', ok)" "\<forall>a \<in> set fleet. admitted J a s" "distinct (map ag_worker_id fleet)"
    "admin_credential (sx_config S) = None"
  shows "ok \<and> (\<forall>a \<in> set fleet. admitted J a s' \<and> map_option wk_trust_tier (find_worker (ag_worker_id a) s') = Some ''managed'') \<and>
    db_jobs s' = db_jobs s \<and> (\<forall>v. v \<notin> ag_worker_id ` set fleet \<longrightarrow> find_worker v s' = find_worker v s) \<and>
    (reachable (sx_prims S) s \<longrightarrow> reachable (sx_prims S) s')"
  using assms
proof (induction fleet arbitrary: k s)
  case (Cons a as)
  obtain s1 x where st: "set_tier (sx_prims S) (sx_config S) (jn_clock J k) (ag_worker_id a) ''managed'' None s = (s1, x)" by fastforce
  have ad: "admitted J a s" using Cons.prems(2) by simp
  note j = tier_given [OF ad Cons.prems(4) st]
  have rest: "tier_all S J (Suc k) as s1 = (s', ok)" using Cons.prems(1) st j(1) by auto
  have "admitted J b s1" if "b \<in> set as" for b
  proof -
    have "ag_worker_id b \<noteq> ag_worker_id a" "admitted J b s" using Cons.prems(2,3) that by (auto simp: image_iff)
    then show ?thesis using j(5) admitted_cong by metis
  qed
  then have "\<forall>b \<in> set as. admitted J b s1" by blast
  note IH = Cons.IH [OF rest this _ Cons.prems(4)]
  have d: "distinct (map ag_worker_id as)" "ag_worker_id a \<notin> ag_worker_id ` set as" using Cons.prems(3) by auto
  note IH = IH [OF d(1)]
  have same: "find_worker (ag_worker_id a) s' = find_worker (ag_worker_id a) s1" using IH d(2) by blast
  have "admitted J a s'" "map_option wk_trust_tier (find_worker (ag_worker_id a) s') = Some ''managed''"
    using j(2,3) admitted_cong [OF same] by (simp_all only: same)
  moreover have "find_worker v s' = find_worker v s" if "v \<notin> ag_worker_id ` set (a # as)" for v
    using IH j(5) [of v] that by (metis image_insert insert_iff list.simps(15))
  ultimately show ?case using IH j(4,6) by (metis set_ConsD)
qed simp

text \<open>Every machine ends up admitted, holding its token, with the tier for internal work; no job was touched.\<close>

theorem approved_fleet_is_seated:
  assumes "\<forall>a \<in> set fleet. newcomer s a" "distinct (map ag_worker_id fleet)" "\<forall>i. plain_token (jn_token J i)"
    "\<not> cf_bind_device_identity (sx_config S)" "admin_credential (sx_config S) = None"
  shows "\<exists>s' fleet'. approve_fleet S J fleet s = (s', Some fleet') \<and> list_all2 same_setup fleet fleet' \<and>
    (\<forall>a \<in> set fleet'. \<exists>row. seat S s' a row \<and> wk_trust_tier row = ''managed'' \<and>
       wk_capability row = ag_capability a \<and> wk_free_ram_gb row = joined_ram J a) \<and>
    db_jobs s' = db_jobs s \<and> (reachable (sx_prims S) s \<longrightarrow> reachable (sx_prims S) s')"
proof -
  obtain s1 as1 where r: "register_all S J 0 fleet s = (s1, as1)" by fastforce
  note R = register_all_joins [OF r assms(1,2,4,3)]
  have ids: "map ag_worker_id as1 = map ag_worker_id fleet" if "list_all2 same_setup fleet as1" for fleet as1
    using that by (induction rule: list_all2_induct) (auto dest: same_setup_id)
  have d1: "distinct (map ag_worker_id as1)" using R assms(2) ids by metis
  obtain s2 r2 where a: "admit_all S J (length fleet) as1 s1 = (s2, r2)" by fastforce
  note A = admit_all_admits [OF a _ d1 assms(4,5)]
  obtain as2 where as2: "r2 = Some as2" "list_all2 same_setup as1 as2" "\<forall>b \<in> set as2. admitted J b s2"
    using A R by auto
  have d2: "distinct (map ag_worker_id as2)" using d1 as2(2) ids by metis
  obtain s3 ok where t: "tier_all S J (3 * length fleet) as2 s2 = (s3, ok)" by fastforce
  note T = tier_all_gives [OF t as2(3) d2 assms(5)]
  have "list_all2 same_setup fleet as2"
    using R as2(2) by (auto intro: list_all2_trans [of same_setup same_setup] simp: same_setup_def)
  moreover have "\<exists>row. seat S s3 b row \<and> wk_trust_tier row = ''managed'' \<and>
       wk_capability row = ag_capability b \<and> wk_free_ram_gb row = joined_ram J b" if "b \<in> set as2" for b
    using T that assms(4) by (fastforce simp: admitted_def seat_def header_plain token_accepted)
  ultimately show ?thesis using r a as2(1) t T A R by (auto simp: approve_fleet_def)
qed

section \<open>A beat of the demo\<close>

lemma collected_other: "i \<notin> rs_job_id ` set rrs \<Longrightarrow> map_of (collected rrs) i = None"
  by (induction rrs rule: rev_induct)
     (auto simp: collected_def update_conv' split: option.split result_status.split)

lemma collected_lookup:
  assumes "distinct (map rs_job_id rrs)" "rr \<in> set rrs" "rs_status rr = StCompleted"
  shows "map_of (collected rrs) (rs_job_id rr) = rs_output rr \<and>
    (rs_output rr \<noteq> None \<longrightarrow> map_of (collected_by rrs) (rs_job_id rr) = Some (rs_worker_id rr))"
  using assms(1,2)
proof (induction rrs rule: rev_induct)
  case (snoc x rrs)
  show ?case
  proof (cases "rr = x")
    case True
    then show ?thesis using assms(3) snoc.prems(1) collected_other [of "rs_job_id x" rrs]
      by (auto simp: collected_def collected_by_def update_conv' split: option.split)
  next
    case False
    then have "rr \<in> set rrs" "rs_job_id x \<noteq> rs_job_id rr" using snoc.prems by (auto simp: image_iff)
    then show ?thesis
      using snoc by (auto simp: collected_def collected_by_def update_conv' split: option.split result_status.split)
  qed
qed simp

text \<open>A result names the machine whose turn it was.\<close>

lemma run_job_names:
  "run_job P mb E asg a = (a', places, Some (Inr rr)) \<Longrightarrow> rs_worker_id rr = ag_worker_id a"
  "run_job P mb E asg a = (a', places, Some (Inr rr)) \<Longrightarrow> rs_job_id rr = mf_job_id (sm_manifest (ja_signed_manifest asg))"
  by (auto simp: run_job_def Let_def result_of_def note_job_gpu_def bind_err_Inr split: if_splits prod.splits)

lemma run_once_names:
  assumes "run_once P mb E R a = (a', places, t)"
  shows "ag_worker_id a' = ag_worker_id a \<and> (\<forall>rr. t = Ran (Inr rr) \<longrightarrow> rs_worker_id rr = ag_worker_id a)"
proof -
  have reg: "ag_worker_id (fst (agent_register rep b)) = ag_worker_id b" for rep b
    using settings_register [of rep b] by (simp add: settings_def)
  have wait: "ag_worker_id c = ag_worker_id b" if "wait_for_approval True reps b = Some (c, ok)" for reps b c ok
    using settings_wait [OF that] by (simp add: settings_def)
  have job: "ag_worker_id c = ag_worker_id b \<and> (\<forall>rr. r = Some (Inr rr) \<longrightarrow> rs_worker_id rr = ag_worker_id b)"
    if "run_job P mb E asg b = (c, p, r)" for asg b c p r
    using run_job_same [OF that] run_job_names(1) that by (auto simp: same_agent_def settings_def)
  show ?thesis using assms
    by (auto simp: run_once_def Let_def turn_of_def reg split: if_splits option.splits prod.splits
        dest!: wait job)
qed

lemma live_turn_names:
  assumes "live_turn S k a s = (s', a', t)"
  shows "ag_worker_id a' = ag_worker_id a \<and> (\<forall>rr. t = Ran (Inr rr) \<longrightarrow> rs_worker_id rr = ag_worker_id a)"
  using assms
  by (auto simp: live_turn_def split: prod.splits turn.splits sum.splits dest!: run_once_names)

lemma drain_round_names:
  "drain_round S k as s = Some (s', as', rrs) \<Longrightarrow>
   map ag_worker_id as' = map ag_worker_id as \<and> rs_worker_id ` set rrs \<subseteq> ag_worker_id ` set as"
  by (induction as arbitrary: k s as' rrs)
     (auto split: prod.splits turn.splits sum.splits dest!: live_turn_names, blast+)

lemma drain_names:
  "drain S m idle k as s = Some (s', as', rrs) \<Longrightarrow> rs_worker_id ` set rrs \<subseteq> ag_worker_id ` set as"
proof (induction m arbitrary: idle k as s as' rrs)
  case (Suc m)
  show ?case
  proof (cases "idle < length as")
    case True
    then obtain s1 as1 r1 later where r: "drain_round S k as s = Some (s1, as1, r1)" "rrs = r1 @ later"
      "drain S m (if r1 \<noteq> [] then 0 else idle + 1) (k + length as) as1 s1 = Some (s', as', later)"
      using Suc.prems by (auto split: option.splits if_splits)
    have "ag_worker_id ` set as1 = ag_worker_id ` set as" using drain_round_names [OF r(1)] by (metis list.set_map)
    then show ?thesis using Suc.IH [OF r(3)] drain_round_names [OF r(1)] r(2) by auto
  qed (use Suc.prems in simp)
qed simp

text \<open>The admitted machine may be given what the object of a batch asks for.\<close>

definition takes :: "joining \<Rightarrow> agent \<Rightarrow> client_job \<Rightarrow> bool" where
  "takes J a cj \<longleftrightarrow> capability_match (key_or default_requires (cj_requires cj)) (ag_capability a) (joined_ram J a) \<and>
     may_route (key_or ''internal'' (cj_data_classification cj)) ''managed''"

text \<open>\<open>submit_all(base, jobs)\<close>, then \<open>_drain(fleet, collect)\<close>; \<open>None\<close>: one of them raised.\<close>

definition beat ::
  "site \<Rightarrow> (nat \<Rightarrow> clock) \<Rightarrow> (nat \<Rightarrow> str) \<Rightarrow> (nat \<Rightarrow> transit) \<Rightarrow> nat \<Rightarrow> nat \<Rightarrow> client_job list \<Rightarrow> agent list \<Rightarrow> db
   \<Rightarrow> (db \<times> agent list \<times> str list \<times> (str \<times> dict) list \<times> (str \<times> str) list) option" where
  "beat S clk fresh net max_rounds k jobs fleet s =
     (case submit_all (sx_prims S) (sx_config S) clk fresh net jobs None None None s of
        (s1, Inl _) \<Rightarrow> None
      | (s1, Inr ids) \<Rightarrow>
          map_option (\<lambda>(s2, fleet', rrs). (s2, fleet', ids, collected rrs, collected_by rrs))
            (drain S max_rounds 0 k fleet s1))"

lemma post_jobs_reachable:
  "reachable P s \<Longrightarrow> reachable P (fst (post_jobs P cf clk fresh net a i cjs s))"
proof (induction cjs arbitrary: i s)
  case (Cons cj cjs)
  have "reachable P (fst (submit P cf (clk i) (fresh i) (job_body cj) a s))"
    using serve_reachable [OF Cons.prems, of "\<lambda>_. []" cf "clk i" "ReqSubmit (fresh i) (job_body cj) a"] by simp
  then have one: "reachable P (fst (post_job P cf (clk i) (fresh i) (net i) a cj s))"
    using Cons.prems by (auto simp: post_job_def split: prod.splits)
  obtain s1 x where s1: "post_job P cf (clk i) (fresh i) (net i) a cj s = (s1, x)" by fastforce
  show ?case using Cons.IH [of s1 "Suc i"] one by (auto simp: s1 split: sum.splits prod.splits)
qed simp

text \<open>What the batch left in the queue, with everything the drain needs.\<close>

lemma posted_batch:
  assumes "submit_all P cf clk fresh net jobs None None None s = (s', Inr ids)" "nobody_leases s"
  shows "db_workers s' = db_workers s \<and> nobody_leases s' \<and>
    (\<exists>js. db_jobs s' = db_jobs s @ js \<and> list_all2 (queued_from P) jobs js \<and> ids = map jb_job_id js)"
proof -
  have "post_jobs P cf clk fresh net None 0 jobs s = (s', Inr ids)"
    using assms(1) by (simp add: submit_all_def sent_authorization_def stamped_jobs_def)
  from post_jobs_queue [OF this] obtain js where js: "db_jobs s' = db_jobs s @ js" "list_all2 (queued_from P) jobs js"
    "db_workers s' = db_workers s" "ids = map jb_job_id js" by auto
  have "jb_state j = Queued" if "j \<in> set js" for j
    using list_all2_origin [OF js(2) that] queued_from_fields(4) by blast
  then show ?thesis using js assms(2) by (auto simp: nobody_leases_def)
qed

lemma takes_fits:
  assumes "takes J a cj" "queued_from P cj j" "wk_capability row = ag_capability a" "wk_free_ram_gb row = joined_ram J a"
    "wk_trust_tier row = ''managed''"
  shows "fits row j"
  using assms by (simp add: takes_def fits_def eligible_def queued_from_fields)

lemma same_setup_takes: "same_setup a b \<Longrightarrow> takes J b cj = takes J a cj"
  by (cases "jn_free_ram J (ag_worker_id a)") (simp_all add: same_setup_def settings_def takes_def joined_ram_def)

lemma posted_fleet_ready:
  assumes fleet: "\<forall>a \<in> set fleet. newcomer s a" "distinct (map ag_worker_id fleet)"
    and server: "\<forall>i. plain_token (jn_token J i)" "\<not> cf_bind_device_identity (sx_config S)" "admin_credential (sx_config S) = None"
      "reachable (sx_prims S) s" "nobody_leases s"
    and joined: "approve_fleet S J fleet s = (s1, Some fleet1)"
    and posted: "submit_all (sx_prims S) (sx_config S) clk fresh net jobs None None None s1 = (s2, Inr ids)"
    and runs: "\<forall>t. paced_clock S t s2" "\<forall>a \<in> set fleet. \<forall>b. same_setup a b \<longrightarrow>
      (\<forall>j \<in> set (db_jobs s2). jb_state j = Queued \<longrightarrow> finishes S b j)"
  obtains js where "ready S fleet1 s2" "list_all2 same_setup fleet fleet1" "db_jobs s2 = db_jobs s @ js"
    "list_all2 (queued_from (sx_prims S)) jobs js" "ids = map jb_job_id js"
    "\<forall>a \<in> set fleet1. \<exists>row. find_worker (ag_worker_id a) s2 = Some row \<and> wk_trust_tier row = ''managed'' \<and>
       wk_capability row = ag_capability a \<and> wk_free_ram_gb row = joined_ram J a"
proof -
  let ?P = "sx_prims S"
  have seated: "list_all2 same_setup fleet fleet1" "reachable ?P s1" "nobody_leases s1" "db_jobs s1 = db_jobs s"
    "\<And>a. a \<in> set fleet1 \<Longrightarrow> \<exists>row. seat S s1 a row \<and> wk_trust_tier row = ''managed'' \<and>
       wk_capability row = ag_capability a \<and> wk_free_ram_gb row = joined_ram J a"
    using approved_fleet_is_seated [OF fleet server(1-3)] server(4,5) joined by (auto simp: nobody_leases_def)
  have origin: "\<exists>a \<in> set fleet. same_setup a b" if "b \<in> set fleet1" for b
    by (rule list_all2_origin [OF seated(1) that])
  obtain js where q: "db_workers s2 = db_workers s1" "nobody_leases s2" "db_jobs s2 = db_jobs s1 @ js"
    "list_all2 (queued_from ?P) jobs js" "ids = map jb_job_id js"
    using posted_batch [OF posted seated(3)] by blast
  have r2: "reachable ?P s2"
    using post_jobs_reachable [OF seated(2)] posted unfolding submit_all_def by (metis fst_conv)
  have found: "find_worker v s2 = find_worker v s1" for v using q(1) by (simp add: find_worker_def)
  have seat2: "seat S s2 a row = seat S s1 a row" for a row by (simp add: seat_def found)
  have ready: "ready S fleet1 s2"
    unfolding ready_def using r2 q(2) runs seated(5) origin by (meson seat2)
  have "\<exists>row. find_worker (ag_worker_id a) s2 = Some row \<and> wk_trust_tier row = ''managed'' \<and>
       wk_capability row = ag_capability a \<and> wk_free_ram_gb row = joined_ram J a" if "a \<in> set fleet1" for a
    using seated(5) [OF that] by (auto simp: seat_def found)
  then show thesis using that ready seated(1,4) q(3-5) by simp
qed

lemma beat_works:
  assumes fleet: "\<forall>a \<in> set fleet. newcomer s a" "distinct (map ag_worker_id fleet)"
    and server: "\<forall>i. plain_token (jn_token J i)" "\<not> cf_bind_device_identity (sx_config S)" "admin_credential (sx_config S) = None"
      "reachable (sx_prims S) s" "nobody_leases s"
    and joined: "approve_fleet S J fleet s = (s1, Some fleet1)"
    and posted: "submit_all (sx_prims S) (sx_config S) clk fresh net jobs None None None s1 = (s2, Inr ids)"
    and takes: "\<forall>cj \<in> set jobs. \<exists>a \<in> set fleet. takes J a cj"
    and runs: "\<forall>t. paced_clock S t s2" "\<forall>a \<in> set fleet. \<forall>b. same_setup a b \<longrightarrow>
      (\<forall>j \<in> set (db_jobs s2). jb_state j = Queued \<longrightarrow> finishes S b j)"
    and rounds: "length (db_jobs s2) < max_rounds"
  obtains s' fleet' rrs js where "drain S max_rounds 0 k fleet1 s2 = Some (s', fleet', rrs)"
    "reachable (sx_prims S) s2" "reachable (sx_prims S) s'" "db_jobs s2 = db_jobs s @ js"
    "list_all2 (queued_from (sx_prims S)) jobs js" "ids = map jb_job_id js"
    "distinct (map rs_job_id rrs)" "rs_job_id ` set rrs \<subseteq> jb_job_id ` set (db_jobs s2)"
    "\<And>i. i \<in> set ids \<Longrightarrow> \<exists>j' rr out a. find_job i s' = Some j' \<and> jb_state j' = Completed \<and> jb_result j' = Some out \<and>
       rr \<in> set rrs \<and> rs_job_id rr = i \<and> rs_status rr = StCompleted \<and> rs_output rr = Some out \<and>
       a \<in> set fleet \<and> rs_worker_id rr = ag_worker_id a"
proof -
  let ?P = "sx_prims S"
  obtain js where q: "ready S fleet1 s2" "list_all2 same_setup fleet fleet1" "db_jobs s2 = db_jobs s @ js"
    "list_all2 (queued_from ?P) jobs js" "ids = map jb_job_id js"
    "\<forall>a \<in> set fleet1. \<exists>row. find_worker (ag_worker_id a) s2 = Some row \<and> wk_trust_tier row = ''managed'' \<and>
       wk_capability row = ag_capability a \<and> wk_free_ram_gb row = joined_ram J a"
    by (rule posted_fleet_ready [OF fleet server joined posted runs])
  have r2: "reachable ?P s2" using q(1) by (simp add: ready_def)
  have "waiting s2 < max_rounds" using rounds unfolding waiting_def by (meson le_less_trans length_filter_le)
  obtain s' fleet' rrs where
    d: "drain S max_rounds 0 k fleet1 s2 = Some (s', fleet', rrs)" "reachable ?P s'" "distinct (map rs_job_id rrs)"
      "rs_job_id ` set rrs \<subseteq> jb_job_id ` set (db_jobs s2)"
    and completes: "\<And>j a row. j \<in> set (db_jobs s2) \<Longrightarrow> jb_state j = Queued \<Longrightarrow> a \<in> set fleet1 \<Longrightarrow>
       find_worker (ag_worker_id a) s2 = Some row \<Longrightarrow> fits row j \<Longrightarrow>
       \<exists>j' rr. find_job (jb_job_id j) s' = Some j' \<and> jb_state j' = Completed \<and> jb_manifest j' = jb_manifest j \<and>
         rr \<in> set rrs \<and> rs_job_id rr = jb_job_id j \<and> rs_status rr = StCompleted \<and> jb_result j' = rs_output rr"
    using \<open>waiting s2 < max_rounds\<close> by (rule drain_completes [OF q(1)]) blast
  have "\<exists>j' rr out a. find_job i s' = Some j' \<and> jb_state j' = Completed \<and> jb_result j' = Some out \<and>
       rr \<in> set rrs \<and> rs_job_id rr = i \<and> rs_status rr = StCompleted \<and> rs_output rr = Some out \<and>
       a \<in> set fleet \<and> rs_worker_id rr = ag_worker_id a"
    if i: "i \<in> set ids" for i
  proof -
    obtain j where j: "j \<in> set js" "jb_job_id j = i" using i q(5) by auto
    then obtain cj where cj: "cj \<in> set jobs" "queued_from ?P cj j" using list_all2_origin [OF q(4)] by blast
    then obtain a0 where a0: "a0 \<in> set fleet" "takes J a0 cj" using takes by blast
    then obtain a where a: "a \<in> set fleet1" "same_setup a0 a"
      using q(2) by (metis in_set_conv_nth list_all2_conv_all_nth)
    obtain row where row: "find_worker (ag_worker_id a) s2 = Some row" "wk_trust_tier row = ''managed''" "wk_capability row = ag_capability a"
      "wk_free_ram_gb row = joined_ram J a" using q(6) a(1) by blast
    have fit: "fits row j" using takes_fits [OF _ cj(2) row(3,4,2)] a0(2) same_setup_takes [OF a(2)] by blast
    have "j \<in> set (db_jobs s2)" "jb_state j = Queued" using j(1) q(3) queued_from_fields(4) [OF cj(2)] by auto
    from completes [OF this a(1) row(1) fit] obtain j' rr where
      c: "find_job i s' = Some j'" "jb_state j' = Completed" "rr \<in> set rrs" "rs_job_id rr = i" "rs_status rr = StCompleted"
        "jb_result j' = rs_output rr" using j(2) by blast
    have "j' \<in> set (db_jobs s')" using c(1) by (rule find_job_Some [THEN conjunct1])
    then have "job_wf j'" using reachable_job_part [OF d(2)] by (auto simp: job_part_def jobs_wf_def)
    then obtain out where out: "jb_result j' = Some out" using c(2) by (auto simp: job_wf_def)
    obtain b where "b \<in> set fleet1" "rs_worker_id rr = ag_worker_id b" using drain_names [OF d(1)] c(3) by auto
    then obtain b0 where "b0 \<in> set fleet" "rs_worker_id rr = ag_worker_id b0" using list_all2_origin [OF q(2)] same_setup_id by metis
    moreover have "rs_output rr = Some out" using c(6) out by simp
    ultimately show ?thesis using c out by blast
  qed
  then show thesis by (intro that [OF d(1) r2 d(2) q(3,4,5) d(3,4)]) simp_all
qed

text \<open>The fleet demo does what it shows: machines the server has not seen register, are admitted and
  tiered, each keeping its seat; then a batch that is posted (and no other work) is worked off by taking
  turns: every job of the batch that one of the machines has the resources for ends completed, and the
  collected outputs are those the server stored, each attributed to a machine.\<close>

theorem demo_beat_completes:
  assumes fleet: "\<forall>a \<in> set fleet. newcomer s a" "distinct (map ag_worker_id fleet)"
    and server: "\<forall>i. plain_token (jn_token J i)" "\<not> cf_bind_device_identity (sx_config S)" "admin_credential (sx_config S) = None"
      "reachable (sx_prims S) s" "nobody_leases s"
    and joined: "approve_fleet S J fleet s = (s1, Some fleet1)"
    and posted: "submit_all (sx_prims S) (sx_config S) clk fresh net jobs None None None s1 = (s2, Inr ids)"
    and takes: "\<forall>cj \<in> set jobs. \<exists>a \<in> set fleet. takes J a cj"
    and runs: "\<forall>t. paced_clock S t s2" "\<forall>a \<in> set fleet. \<forall>b. same_setup a b \<longrightarrow>
      (\<forall>j \<in> set (db_jobs s2). jb_state j = Queued \<longrightarrow> finishes S b j)"
    and rounds: "length (db_jobs s2) < max_rounds"
  shows "\<exists>s' fleet' outputs by_whom. beat S clk fresh net max_rounds k jobs fleet1 s1 = Some (s', fleet', ids, outputs, by_whom) \<and>
    length ids = length jobs \<and>
    (\<forall>i \<in> set ids. \<exists>j' out a. find_job i s' = Some j' \<and> jb_state j' = Completed \<and> jb_result j' = Some out \<and>
       map_of outputs i = Some out \<and> a \<in> set fleet \<and> map_of by_whom i = Some (ag_worker_id a))"
  using assms
proof (rule beat_works)
  fix s' fleet' rrs js
  assume d: "drain S max_rounds 0 k fleet1 s2 = Some (s', fleet', rrs)" and js: "list_all2 (queued_from (sx_prims S)) jobs js"
    "ids = map jb_job_id js" and dist: "distinct (map rs_job_id rrs)"
    and all: "\<And>i. i \<in> set ids \<Longrightarrow> \<exists>j' rr out a. find_job i s' = Some j' \<and> jb_state j' = Completed \<and> jb_result j' = Some out \<and>
       rr \<in> set rrs \<and> rs_job_id rr = i \<and> rs_status rr = StCompleted \<and> rs_output rr = Some out \<and>
       a \<in> set fleet \<and> rs_worker_id rr = ag_worker_id a"
  have "\<exists>j' out a. find_job i s' = Some j' \<and> jb_state j' = Completed \<and> jb_result j' = Some out \<and>
       map_of (collected rrs) i = Some out \<and> a \<in> set fleet \<and> map_of (collected_by rrs) i = Some (ag_worker_id a)"
    if i: "i \<in> set ids" for i
    using all [OF i] collected_lookup [OF dist] by (metis option.distinct(1))
  moreover have "length ids = length jobs" using js by (simp add: list_all2_lengthD)
  ultimately show ?thesis using posted d by (auto simp: beat_def)
qed

definition demo_joining :: joining where
  "demo_joining = \<lparr>jn_clock = (\<lambda>_. demo_clock 0), jn_token = (\<lambda>_. ''tok''), jn_code = (\<lambda>_. []), jn_free_ram = (\<lambda>_. None)\<rparr>"

lemma demo_posted:
  assumes "db_jobs s = []"
  shows "\<exists>s'. submit_all demo_prims demo_config (\<lambda>_. demo_clock 1) (\<lambda>_. ''j'') (\<lambda>_. Carried) [dumped_job demo_submit] None None None s
    = (s', Inr [''j'']) \<and> db_jobs s' = [demo_job]"
  by (simp add: submit_all_def sent_authorization_def stamped_jobs_def post_job_def job_body_def dumped_job_def key_or_def
      submit_def and_then_def require_submit_token_def demo_config_def enqueue_def submit_job_def insert_job_def find_job_def
      select_where_def assms demo_submit_def valid_submit_def JobKind_def DataClassification_def new_job_def new_manifest_def
      int64_def demo_job_def demo_clock_def seconds_def Let_def)

lemma demo_beat_completes_witness:
  "\<exists>s1 fleet1 s' fleet' outputs by_whom. approve_fleet demo_site demo_joining [demo_agent] init_db = (s1, Some fleet1) \<and>
     beat demo_site (\<lambda>_. demo_clock 1) (\<lambda>_. ''j'') (\<lambda>_. Carried) 400 0 [dumped_job demo_submit] fleet1 s1
       = Some (s', fleet', [''j''], outputs, by_whom) \<and>
     (\<exists>j' out. find_job ''j'' s' = Some j' \<and> jb_state j' = Completed \<and> map_of outputs ''j'' = Some out)"
proof -
  have fleet: "\<forall>a \<in> set [demo_agent]. newcomer init_db a" "distinct (map ag_worker_id [demo_agent])"
    by (simp_all add: newcomer_def demo_agent_def init_db_def find_worker_def select_where_def)
  have "plain_token ''tok''" unfolding plain_token_def by code_simp
  then have server: "\<forall>i. plain_token (jn_token demo_joining i)" "\<not> cf_bind_device_identity (sx_config demo_site)"
    "admin_credential (sx_config demo_site) = None" "reachable (sx_prims demo_site) init_db" "nobody_leases init_db"
    using reachable.start [of demo_prims]
    by (simp_all add: demo_joining_def demo_site_def demo_config_def admin_credential_def nobody_leases_def, simp add: init_db_def)
  obtain s1 fleet1 where joined: "approve_fleet demo_site demo_joining [demo_agent] init_db = (s1, Some fleet1)"
    and empty: "db_jobs s1 = []"
    using approved_fleet_is_seated [OF fleet server(1-3)] by (auto simp: init_db_def)
  obtain s2 where posted: "submit_all (sx_prims demo_site) (sx_config demo_site) (\<lambda>_. demo_clock 1) (\<lambda>_. ''j'') (\<lambda>_. Carried)
      [dumped_job demo_submit] None None None s1 = (s2, Inr [''j''])" and jobs: "db_jobs s2 = [demo_job]"
    using demo_posted [OF empty] by (auto simp: demo_site_def)
  have takes: "\<forall>cj \<in> set [dumped_job demo_submit]. \<exists>a \<in> set [demo_agent]. takes demo_joining a cj"
    by (simp add: takes_def dumped_job_def demo_submit_def key_or_def capability_match_def default_requires_def demo_agent_def
        default_capability_def may_route_def MIN_TIER_FOR_CLASSIFICATION_def TIERS_def)
  have runs: "\<forall>t. paced_clock demo_site t s2" "\<forall>a \<in> set [demo_agent]. \<forall>b. same_setup a b \<longrightarrow>
      (\<forall>j \<in> set (db_jobs s2). jb_state j = Queued \<longrightarrow> finishes demo_site b j)"
    using demo_finishes by (simp_all add: paced_clock_def demo_site_def jobs demo_clock_def seconds_def same_setup_def)
  from demo_beat_completes [OF fleet server joined posted takes runs, of 400 0] joined jobs show ?thesis by auto
qed

end
