(* ===== verification/Demo_Picture.thy ===== *)
theory Demo_Picture imports Fleet_Demo Job_Properties begin

text \<open>
  What the first beat of \<open>scripts/demo_fleet.py\<close> saves: the tiles of a fractal are posted, computed by the
  machines that took them, reported, stored, collected and assembled. Joining, scheduling, verification,
  execution and crediting are those of the other theories; here they are followed from a batch to the
  picture.
\<close>

section \<open>Where a reported output comes from\<close>

lemma live_turn_steps: "fleet_steps (sx_prims S) s (fst (live_turn S k a s))"
proof -
  let ?P = "sx_prims S" and ?w = "ag_worker_id a"
  obtain s1 r where p: "jobs_next ?P (sx_mbytes S) (sx_config S) (sx_clock S (2 * k)) ?w None (auth_header a) s = (s1, r)"
    by fastforce
  have one: "fleet_steps ?P s s1"
    using serve_steps [of ?P s "sx_mbytes S" "sx_config S" "sx_clock S (2 * k)" "ReqNext ?w None (auth_header a)"] by (simp add: p)
  have two: "fleet_steps ?P s (fst (results ?P (sx_config S) c jid None rr h s1))" for c jid rr h
    using serve_steps [of ?P s1 undefined "sx_config S" c "ReqResults jid None rr h"] one
    by (auto simp: fleet_steps_def)
  show ?thesis using one two unfolding live_turn_def p by (auto split: prod.splits turn.splits sum.splits)
qed

definition assignment_of :: "site \<Rightarrow> job \<Rightarrow> job_assignment" where
  "assignment_of S j =
     \<lparr>ja_signed_manifest = sign (sx_prims S) (sx_mbytes S) (cf_signer (sx_config S)) (jb_manifest j), ja_input = jb_input j\<rparr>"

text \<open>A result was computed, by some agent, from the manifest and input the server still has under its id.\<close>

definition computed :: "site \<Rightarrow> db \<Rightarrow> result_request \<Rightarrow> bool" where
  "computed S s rr \<longleftrightarrow> (\<exists>t b b' places j. find_job (rs_job_id rr) s = Some j \<and>
     run_job (sx_prims S) (sx_mbytes S) (sx_env S t) (assignment_of S j) b = (b', places, Some (Inr rr)))"

lemma computed_kept:
  assumes "computed S s rr" "fleet_steps (sx_prims S) s s'"
  shows "computed S s' rr"
proof -
  obtain t b b' places j where c: "find_job (rs_job_id rr) s = Some j"
    "run_job (sx_prims S) (sx_mbytes S) (sx_env S t) (assignment_of S j) b = (b', places, Some (Inr rr))"
    using assms(1) by (auto simp: computed_def)
  obtain j' where j': "find_job (rs_job_id rr) s' = Some j'" "job_keeps j j'"
    using jobs_keep_steps [OF assms(2) [unfolded fleet_steps_def]] c(1) by (auto simp: jobs_keep_def find_job_lookup)
  then have "assignment_of S j' = assignment_of S j" by (simp add: assignment_of_def job_keeps_def)
  then show ?thesis using c(2) j'(1) by (auto simp: computed_def)
qed

lemma live_turn_computed:
  assumes "reachable (sx_prims S) s" "live_turn S k a s = (s', a', Ran (Inr rr))"
  shows "computed S s' rr"
proof -
  let ?P = "sx_prims S" and ?w = "ag_worker_id a" and ?c = "sx_clock S (2 * k)"
  obtain s1 r where p: "jobs_next ?P (sx_mbytes S) (sx_config S) ?c ?w None (auth_header a) s = (s1, r)"
    by fastforce
  obtain places where ran: "run_once ?P (sx_mbytes S) (sx_env S k)
      \<lparr>sv_register = NetworkError, sv_heartbeat = NetworkError, sv_poll = http_reply r, sv_result = NetworkError\<rparr> a = (a', places, Ran (Inr rr))"
    using assms(2) by (auto simp: live_turn_def p split: prod.splits turn.splits sum.splits)
  then obtain b asg where b: "poll_once (http_reply r) = Some asg"
    "run_job ?P (sx_mbytes S) (sx_env S k) asg b = (a', places, Some (Inr rr))"
    by (auto simp: run_once_def Let_def turn_of_def split: if_splits option.splits prod.splits)
  from p show ?thesis
  proof (cases rule: jobs_next_cases)
    case (assigned worker j)
    have asg: "asg = assignment_of S j" using b(1) assigned(1) by (simp add: poll_once_def http_reply_def assignment_of_def)
    have "j \<in> set (db_jobs (reap_expired (?c 1) (?c 2) s))" using assigned(9) by (rule pick_job_for_Some(1))
    then obtain j0 where j0: "j0 \<in> set (db_jobs s)" "job_keeps j0 j"
      by (auto simp: reap_expired_def update_jobs_def set_update_where lease_before_def intro: job_keeps_simps)
    have wf: "job_wf j0" "jt.unique_keys (db_jobs s)"
      using reachable_job_part [OF assms(1)] j0(1) by (simp_all add: job_part_def jobs_wf_def)
    have same: "assignment_of S j = assignment_of S j0" using j0(2) by (simp add: assignment_of_def job_keeps_def)
    have "rs_job_id rr = mf_job_id (jb_manifest j0)"
      using run_job_names(2) [OF b(2)] by (simp add: asg same) (simp add: assignment_of_def sign_def)
    then have "find_job (rs_job_id rr) s = Some j0"
      using jt.lookup_unique [OF wf(2) j0(1)] wf(1) unfolding find_job_lookup job_wf_def by metis
    then have "computed S s rr" using b(2) unfolding computed_def asg same by blast
    moreover have "fleet_steps ?P s s'" using live_turn_steps [of S s k a] by (simp add: assms(2))
    ultimately show ?thesis by (rule computed_kept)
  qed (use b(1) in \<open>auto simp: poll_once_def http_reply_def split: http_error.splits\<close>)
qed

lemma drain_round_computed:
  "reachable (sx_prims S) s \<Longrightarrow> drain_round S k as s = Some (s', as', rrs) \<Longrightarrow>
   fleet_steps (sx_prims S) s s' \<and> (\<forall>rr \<in> set rrs. computed S s' rr)"
proof (induction as arbitrary: k s as' rrs)
  case Nil
  then show ?case by (simp add: fleet_steps_def)
next
  case (Cons a as)
  obtain s1 a1 t where turn: "live_turn S k a s = (s1, a1, t)" by (metis prod_cases3)
  have r1: "reachable (sx_prims S) s1" "fleet_steps (sx_prims S) s s1"
    using live_turn_reachable [OF Cons.prems(1), of k a] live_turn_steps [of S s k a] by (simp_all add: turn)
  obtain as1 later where rest: "drain_round S (Suc k) as s1 = Some (s', as1, later)"
    and rrs: "(t = NoWork \<and> rrs = later) \<or> (\<exists>rr. t = Ran (Inr rr) \<and> rrs = rr # later)"
    using Cons.prems(2) turn by (auto split: turn.splits sum.splits)
  note IH = Cons.IH [OF r1(1) rest]
  have "computed S s' rr" if "t = Ran (Inr rr)" for rr
    using live_turn_computed [OF Cons.prems(1)] turn that IH computed_kept by blast
  then show ?case using IH rrs r1(2) by (auto simp: fleet_steps_def)
qed

lemma drain_computed:
  "reachable (sx_prims S) s \<Longrightarrow> drain S m idle k as s = Some (s', as', rrs) \<Longrightarrow>
   fleet_steps (sx_prims S) s s' \<and> (\<forall>rr \<in> set rrs. computed S s' rr)"
proof (induction m arbitrary: idle k as s as' rrs)
  case 0
  then show ?case by (simp add: fleet_steps_def)
next
  case (Suc m)
  show ?case
  proof (cases "idle < length as")
    case True
    then obtain s1 as1 r1 later where r: "drain_round S k as s = Some (s1, as1, r1)" "rrs = r1 @ later"
      "drain S m (if r1 \<noteq> [] then 0 else idle + 1) (k + length as) as1 s1 = Some (s', as', later)"
      using Suc.prems by (auto split: option.splits if_splits)
    note one = drain_round_computed [OF Suc.prems(1) r(1)]
    have "reachable (sx_prims S) s1" using Suc.prems(1) one unfolding fleet_steps_def by (blast intro: reachable_steps)
    note IH = Suc.IH [OF this r(3)]
    have "computed S s' rr" if "rr \<in> set r1" for rr using one IH that computed_kept by blast
    then show ?thesis using IH one r(2) by (auto simp: fleet_steps_def)
  qed (use Suc.prems in \<open>simp add: fleet_steps_def\<close>)
qed

section \<open>From a batch to its outputs\<close>

lemma collected_distinct: "distinct (map fst (collected rrs))"
  by (induction rrs rule: rev_induct)
     (auto simp: collected_def distinct_update split: option.split result_status.split)

lemma collected_keys: "fst ` set (collected rrs) \<subseteq> rs_job_id ` set rrs"
  using collected_other [of _ rrs] by (force simp: map_of_eq_None_iff)

text \<open>Each machine runs the kit of \<open>M\<close> on every queued job, whatever boundary it uses.\<close>

definition all_faithful :: "(py_error \<Rightarrow> str) \<Rightarrow> machine \<Rightarrow> site \<Rightarrow> db \<Rightarrow> bool" where
  "all_faithful traceback M S s \<longleftrightarrow> (\<forall>t. \<forall>j \<in> set (db_jobs s).
     faithful_env traceback M (sx_env S t) (mf_kind (jb_manifest j)) (jb_input j) (mf_limits (jb_manifest j)))"

lemma computed_output:
  assumes "computed S s' rr" "rs_status rr = StCompleted" "find_job (rs_job_id rr) s = Some j" "fleet_steps (sx_prims S) s s'"
    and "all_faithful traceback M S s" "execute M (mf_kind (jb_manifest j)) (jb_input j) never = Some (Inr good)"
  shows "rs_output rr = Some good"
proof -
  obtain t b b' places j' where c: "find_job (rs_job_id rr) s' = Some j'"
    "run_job (sx_prims S) (sx_mbytes S) (sx_env S t) (assignment_of S j') b = (b', places, Some (Inr rr))"
    using assms(1) by (auto simp: computed_def)
  have "job_keeps j j'"
    using jobs_keep_steps [OF assms(4) [unfolded fleet_steps_def]] c(1) assms(3)
    unfolding jobs_keep_def find_job_lookup by fastforce
  then have a: "sm_manifest (ja_signed_manifest (assignment_of S j')) = jb_manifest j" "ja_input (assignment_of S j') = jb_input j"
    by (simp_all add: assignment_of_def sign_def job_keeps_def)
  obtain out b2 where r: "run_code (sx_env S t) b2 (assignment_of S j') = (places, Some (out, StCompleted))" "rs_output rr = Some out"
    by (rule run_job_result [OF c(2) assms(2)]) blast
  have "j \<in> set (db_jobs s)" using assms(3) by (rule find_job_Some [THEN conjunct1])
  then have "out = good"
    using assms(5,6) by (intro completed_output [OF r(1) a(1) [symmetric], of traceback M]) (simp_all add: all_faithful_def a)
  then show ?thesis using r(2) by simp
qed

text \<open>The collected outputs are what the kit computes from the objects of the batch, in some order.\<close>

lemma collected_permutation:
  assumes "reachable P s2" "db_jobs s2 = js" "list_all2 (queued_from P) (map built_job specs) js"
    and keys: "distinct (map fst outputs)" "fst ` set outputs = jb_job_id ` set js"
    and each: "\<And>spec j out. spec \<in> set specs \<Longrightarrow> j \<in> set js \<Longrightarrow> queued_from P (built_job spec) j \<Longrightarrow>
       (jb_job_id j, out) \<in> set outputs \<Longrightarrow> out = good spec"
  shows "\<exists>finished. mset finished = mset specs \<and> map snd outputs = map good finished"
proof -
  let ?ids = "map jb_job_id js" and ?keys = "map fst outputs"
  have d: "distinct ?ids" using reachable_job_part [OF assms(1)] by (simp add: job_part_def jobs_wf_def jt.unique_keys_def assms(2))
  have len: "length js = length specs" using list_all2_lengthD [OF assms(3)] by simp
  define f where "f = the \<circ> map_of (zip ?ids specs)"
  have nth: "f (jb_job_id (js ! n)) = specs ! n" if "n < length js" for n
    using map_of_zip_nth [of ?ids specs n] that len d by (simp add: f_def)
  then have specs: "specs = map f ?ids" using len by (intro nth_equalityI) simp_all
  have "mset ?keys = mset ?ids" using set_eq_iff_mset_eq_distinct [OF keys(1) d] keys(2) by simp
  then have "mset (map f ?keys) = mset specs" unfolding specs by (metis mset_map)
  moreover have "out = good (f i)" if "(i, out) \<in> set outputs" for i out
  proof -
    have "i \<in> jb_job_id ` set js" using that keys(2) by force
    then obtain n where n: "n < length js" "i = jb_job_id (js ! n)" by (auto simp: in_set_conv_nth)
    then have "queued_from P (built_job (specs ! n)) (js ! n)" using assms(3) len by (auto simp: list_all2_conv_all_nth)
    then show ?thesis using each [of "specs ! n" "js ! n" out] n len that nth [OF n(1)] by simp
  qed
  then have "map snd outputs = map good (map f ?keys)" by auto
  ultimately show ?thesis by blast
qed

lemma beat_collects:
  assumes fleet: "\<forall>a \<in> set fleet. newcomer s a" "distinct (map ag_worker_id fleet)"
    and server: "\<forall>i. plain_token (jn_token J i)" "\<not> cf_bind_device_identity (sx_config S)" "admin_credential (sx_config S) = None"
      "reachable (sx_prims S) s" "db_jobs s = []"
    and joined: "approve_fleet S J fleet s = (s1, Some fleet1)"
    and posted: "submit_all (sx_prims S) (sx_config S) clk fresh net (map built_job specs) None None None s1 = (s2, Inr ids)"
    and takes: "\<forall>cj \<in> set (map built_job specs). \<exists>a \<in> set fleet. takes J a cj"
    and runs: "\<forall>t. paced_clock S t s2" "\<forall>a \<in> set fleet. \<forall>b. same_setup a b \<longrightarrow>
      (\<forall>j \<in> set (db_jobs s2). jb_state j = Queued \<longrightarrow> finishes S b j)"
    and rounds: "length (db_jobs s2) < max_rounds"
    and kit: "all_faithful traceback M S s2"
      "\<forall>spec \<in> set specs. execute M (js_kind spec) (js_input spec) never = Some (Inr (good spec))"
  obtains s' fleet' outputs by_whom finished where
    "beat S clk fresh net max_rounds k (map built_job specs) fleet1 s1 = Some (s', fleet', ids, outputs, by_whom)"
    "mset finished = mset specs" "map snd outputs = map good finished"
proof -
  have free: "nobody_leases s" using server(5) by (simp add: nobody_leases_def)
  obtain s' fleet' rrs js where w: "drain S max_rounds 0 k fleet1 s2 = Some (s', fleet', rrs)" "reachable (sx_prims S) s2"
    "db_jobs s2 = db_jobs s @ js" "list_all2 (queued_from (sx_prims S)) (map built_job specs) js" "ids = map jb_job_id js"
    "distinct (map rs_job_id rrs)" "rs_job_id ` set rrs \<subseteq> jb_job_id ` set (db_jobs s2)"
    and each: "\<And>i. i \<in> set ids \<Longrightarrow> \<exists>j' rr out a. find_job i s' = Some j' \<and> jb_state j' = Completed \<and> jb_result j' = Some out \<and>
       rr \<in> set rrs \<and> rs_job_id rr = i \<and> rs_status rr = StCompleted \<and> rs_output rr = Some out \<and>
       a \<in> set fleet \<and> rs_worker_id rr = ag_worker_id a"
    by (rule beat_works [OF fleet server(1-4) free joined posted takes runs rounds, of k]) blast
  have js: "db_jobs s2 = js" using w(3) server(5) by simp
  note steps = drain_computed [OF w(2,1)]
  let ?outputs = "collected rrs"
  have hit: "\<exists>rr \<in> set rrs. rs_job_id rr = i \<and> rs_status rr = StCompleted \<and> map_of ?outputs i = rs_output rr \<and> rs_output rr \<noteq> None"
    if "i \<in> set ids" for i
    using each [OF that] collected_lookup [OF w(6)] by fastforce
  have "fst ` set ?outputs = jb_job_id ` set js"
  proof
    show "fst ` set ?outputs \<subseteq> jb_job_id ` set js" using collected_keys w(7) js by blast
    show "jb_job_id ` set js \<subseteq> fst ` set ?outputs"
      using hit w(5) by (metis list.set_map map_of_eq_None_iff subsetI)
  qed
  moreover have "out = good spec"
    if j: "spec \<in> set specs" "j \<in> set js" "queued_from (sx_prims S) (built_job spec) j" "(jb_job_id j, out) \<in> set ?outputs" for spec j out
  proof -
    obtain rr where rr: "rr \<in> set rrs" "rs_job_id rr = jb_job_id j" "rs_status rr = StCompleted" "map_of ?outputs (jb_job_id j) = rs_output rr"
      using hit [of "jb_job_id j"] j(2) w(5) by auto
    have wf: "job_wf j" "jt.unique_keys (db_jobs s2)"
      using reachable_job_part [OF w(2)] j(2) js by (simp_all add: job_part_def jobs_wf_def)
    have "find_job (rs_job_id rr) s2 = Some j" using jt.lookup_unique [OF wf(2)] j(2) js rr(2) by (simp add: find_job_lookup)
    moreover have "mf_kind (jb_manifest j) = js_kind spec" "jb_input j = js_input spec"
      using wf(1) queued_from_fields(1,2) [OF j(3)] by (simp_all add: job_wf_def built_job_def)
    ultimately have "rs_output rr = Some (good spec)"
      using steps rr(1,3) kit j(1) by (intro computed_output [where s' = s' and traceback = traceback and M = M and j = j]) auto
    moreover have "map_of ?outputs (jb_job_id j) = Some out" using collected_distinct j(4) by (rule map_of_is_SomeI)
    ultimately show ?thesis using rr(4) by simp
  qed
  ultimately obtain finished where "mset finished = mset specs" "map snd ?outputs = map good finished"
    using collected_permutation [OF w(2) js w(4) collected_distinct, of rrs good] by blast
  moreover have "beat S clk fresh net max_rounds k (map built_job specs) fleet1 s1 = Some (s', fleet', ids, ?outputs, collected_by rrs)"
    using posted w(1) by (simp add: beat_def)
  ultimately show thesis using that by blast
qed

lemma fractal_specs:
  assumes "build_fractal_jobs n w h m ws = Inr specs" "spec \<in> set specs"
  shows "js_kind spec = ''fractal''"
  using assms by (auto simp: build_fractal_jobs_def tiles_of_def bind_err_Inr fractal_tile_def split: if_splits)


section \<open>A picture of one pixel\<close>

definition kit_boundary :: "machine \<Rightarrow> str \<Rightarrow> dict \<Rightarrow> boundary_run" where
  "kit_boundary M kind input =
     \<lparr>br_rounds = [Exited], br_reaped = True, br_end = the (jobkit_main (\<lambda>_. []) M kind input)\<rparr>"

definition kit_env :: "machine \<Rightarrow> job_env" where
  "kit_env M = demo_env
     \<lparr>je_sandbox := (\<lambda>kind input _. demo_sandbox
        \<lparr>se_mxc_run := kit_boundary M kind input, se_docker_run := kit_boundary M kind input,
         se_subprocess_run := kit_boundary M kind input\<rparr>),
      je_runner := (\<lambda>kind input. execute M kind input never)\<rparr>"

lemma kit_env_faithful: "faithful_env (\<lambda>_. []) M (kit_env M) kind input ls"
  by (auto simp: faithful_env_def kit_env_def kit_boundary_def runs_jobkit_def split: option.split)

definition plain_agent :: agent where
  "plain_agent = demo_agent\<lparr>ag_verify := False, ag_isolated := False, ag_require_isolation := False\<rparr>"

definition picture_site :: site where
  "picture_site = demo_site\<lparr>sx_env := (\<lambda>_. kit_env demo_machine)\<rparr>"

definition dot_output :: dict where
  "dot_output = [(''width'', JInt 1), (''row_start'', JInt 0), (''row_end'', JInt 1), (''max_iter'', JInt 1),
     (''rows'', JList [JList [JInt 1]]), (''yielded'', JBool False)]"

lemma dot: "fractal C (js_input (fractal_tile 1 1 1 0 1)) never = Inr dot_output"
proof -
  have i: "fractal_input C (js_input (fractal_tile 1 1 1 0 1)) = Inr ((plane 1 1 1)\<lparr>bd_row_start := 0, bd_row_end := 1\<rparr>)"
    by (simp add: fractal_input_def fractal_tile_def plane_def dict_get_def)
  obtain dx dy where "pixel_step (Fin (- 5 / 2)) (Fin 1) 1 = Inr dx" "pixel_step (Fin (- 5 / 4)) (Fin (5 / 4)) 1 = Inr dy"
    using pixel_step_small [of 1] by fastforce
  moreover have "pf_round 0 = Fin 0" by (simp add: pf_round_def float_max_def)
  ultimately show ?thesis by (simp add: fractal_def i) (simp add: plane_def fractal_row_def dot_output_def pf_le_def Let_def)
qed

lemma dot_small: "length (dumps_ascii (p_float_repr demo_prims) (JObj dot_output)) \<le> MAX_RESULT_OUTPUT_BYTES"
proof -
  have "length (dumps_ascii (\<lambda>_. ''0.0'') (JObj [(''width'', JInt 1), (''row_start'', JInt 0), (''row_end'', JInt 1),
      (''max_iter'', JInt 1), (''rows'', JList [JList [JInt 1]]), (''yielded'', JBool False)])) = 79" by code_simp
  then show ?thesis by (simp add: dot_output_def demo_prims_def MAX_RESULT_OUTPUT_BYTES_def)
qed

definition dot_job :: job where
  "dot_job = new_job (new_manifest demo_prims (job_body (built_job (fractal_tile 1 1 1 0 1))) None ''j'' 1000001)
     (job_body (built_job (fractal_tile 1 1 1 0 1))) None 1000002"

lemma dot_job_fields: "jb_input dot_job = js_input (fractal_tile 1 1 1 0 1)" "mf_kind (jb_manifest dot_job) = ''fractal''"
  "jb_created_at dot_job = 1000002"
  by (simp_all add: dot_job_def new_job_def new_manifest_def job_body_def built_job_def, simp_all add: fractal_tile_def)

lemma dot_finishes:
  assumes "settings a = settings plain_agent"
  shows "finishes picture_site a dot_job"
  unfolding finishes_def
proof (intro allI impI)
  fix k b assume b: "same_agent a b"
  then have set: "\<not> ag_verify b" "\<not> ag_isolated b"
    using assms by (simp_all add: same_agent_def settings_def plain_agent_def)
  let ?asg = "\<lparr>ja_signed_manifest = sign (sx_prims picture_site) (sx_mbytes picture_site) (cf_signer (sx_config picture_site)) (jb_manifest dot_job),
     ja_input = jb_input dot_job\<rparr>"
  have "run_code (kit_env demo_machine) b ?asg = ([InProcess], Some (dot_output, StCompleted))" if "\<not> ag_isolated b" for b
    using that
    by (simp add: run_code_def kit_env_def sign_def dot_job_fields execute_def dot Let_def)
      (simp add: finished_output_def dot_output_def get_or_def dict_get_def)
  moreover have "item_units (jb_input dot_job) = Inr 1"
    by (simp add: dot_job_fields item_units_def fractal_tile_def get_or_def dict_get_def)
  ultimately have "\<exists>b' places rr. run_job (sx_prims picture_site) (sx_mbytes picture_site) (sx_env picture_site k) ?asg b
      = (b', places, Some (Inr rr)) \<and> rs_status rr = StCompleted \<and> rs_output rr = Some dot_output"
    using set by (simp add: run_job_def Let_def note_job_gpu_def result_of_def) (simp add: picture_site_def)
  then show "\<exists>b' places rr. run_job (sx_prims picture_site) (sx_mbytes picture_site) (sx_env picture_site k) ?asg b
      = (b', places, Some (Inr rr)) \<and> rs_status rr = StCompleted \<and>
      length (dumps_ascii (p_float_repr (sx_prims picture_site)) (JObj (case rs_output rr of None \<Rightarrow> [] | Some d \<Rightarrow> d))) \<le> MAX_RESULT_OUTPUT_BYTES \<and>
      (mf_kind (jb_manifest dot_job) = ''challenge'' \<longrightarrow> (\<exists>traceback M x.
         faithful_env traceback M (sx_env picture_site k) ''challenge'' (jb_input dot_job) (mf_limits (jb_manifest dot_job)) \<and>
         dict_get (jb_input dot_job) ''x'' = Some (JInt x)))"
    using dot_small by (fastforce simp: picture_site_def demo_site_def dot_job_fields)
qed

lemma dot_posted:
  assumes "db_jobs s = []"
  shows "\<exists>s'. submit_all demo_prims demo_config (\<lambda>_. demo_clock 1) (\<lambda>_. ''j'') (\<lambda>_. Carried) (map built_job [fractal_tile 1 1 1 0 1])
      None None None s = (s', Inr [''j'']) \<and> db_jobs s' = [dot_job]"
  by (simp add: submit_all_def sent_authorization_def stamped_jobs_def post_job_def dot_job_def, simp add: spec_request_def fractal_tile_def
      submit_def and_then_def require_submit_token_def demo_config_def enqueue_def submit_job_def insert_job_def find_job_def
      select_where_def assms valid_submit_def JobKind_def DataClassification_def new_job_def new_manifest_def
      int64_def demo_clock_def seconds_def Let_def)


end
