(* ===== verification/Spec2Isabelle.thy ===== *)
theory Spec2Isabelle imports Fleet_Properties Access_Properties Trust_Properties Service_Properties Rate_Limit Job_Properties
  Agent_Properties Mxc_Policy Startup Observer_Identity Business_Case
  Worker_Loop Worker_Host Job_Handle Supply_Chain Case_Report
  Client_Properties Summary_Properties Migration Observer_Run Demo_Picture begin

text \<open>
  OneCompute, modelled from its Python sources under \<open>src/src\<close>.

  \<^bold>\<open>The program.\<close> An orchestrator (FastAPI over SQLite) queues jobs, leases them to worker machines and
  records signed manifests, results, credits and a hash-chained audit log. Workers enrol, are approved,
  poll, verify what they are given, run it behind the best isolation boundary they have, yield to their
  user, and report. Workloads are cut into tiles that are merged again. A measurement mode only learns
  how busy a machine is and uploads a summary.

  \<^bold>\<open>Foundations.\<close>
  \<^item> \<open>Prelude\<close>: statements on tables as lists of rows (locale \<open>keyed_table\<close>, interpreted in \<open>Store\<close> for
    workers, jobs and profiles). \<open>Pystr\<close>: strings as UTF-8 bytes and the string methods the code uses.
  \<^item> \<open>Float64\<close>, \<open>Float_Error\<close>: IEEE double arithmetic as rounding of rationals (locale \<open>rounding\<close>), the
    compensated \<open>sum\<close>, error bounds, and \<open>pyfloat\<close> for floats that arrive from outside and may be infinite
    or NaN. Computed floats are finite; overflow to infinity and negative zero are not modelled.
  \<^item> \<open>Hashing\<close>, \<open>Contracts\<close>, \<open>Pyvalue\<close>: \<open>contracts/hashing.py\<close>, the records of \<open>contracts/models.py\<close>, and
    reading Python values out of JSON with every exception a branch.

  \<^bold>\<open>The orchestrator\<close> (\<open>orchestrator/app.py\<close>, \<open>submit.py\<close>, \<open>scheduler.py\<close>, \<open>routing_policy.py\<close>,
  \<open>ratelimit.py\<close>, \<open>db.py\<close>, \<open>trust/*.py\<close>). A handler maps the database to a new one and an outcome; wall
  clock, tokens, UUIDs, SHA-256, Ed25519 and number formatting are parameters.
  \<^item> \<open>Store\<close>, \<open>Audit_Chain\<close>, \<open>Trust\<close>, \<open>Routing_Policy\<close> (locale \<open>ladder\<close>), \<open>Scheduler\<close>, \<open>Auth\<close>, \<open>Submit\<close>,
    \<open>Enrolment\<close>, \<open>Dispatch\<close>, \<open>Results\<close>, \<open>Views\<close>, \<open>Launch\<close>, \<open>Profiles\<close>, \<open>Rate_Limit\<close>: one group of
    definitions per endpoint or module, guards and audit events included.
  \<^item> \<open>Migration\<close>: opening a database file of any version (\<open>db.py\<close>, \<open>contracts/schema.sql\<close>): the schema script,
    the columns added since, and the buffered cursor, judged by tables of columns written out apart from the
    code's. \<open>Workload_Summary\<close>: the catalogue of workloads and the
    merged summary the dashboard's panel shows.
  \<^item> \<open>Lifecycle\<close>, \<open>Fleet\<close>, \<open>Handlers\<close>, \<open>Standing\<close>, \<open>Board\<close>: one step of \<open>fleet_step\<close> is one section under
    the write lock, so reachable states cover every interleaving of requests. The invariants (job rows,
    single leases, ledger, audit chain) and the proof that every endpoint is a sequence of steps (locale
    \<open>stepping\<close>) are here; \<open>Standing\<close> says who can change a worker's tier, approval or ban (locale
    \<open>kept_relation\<close>). \<open>Board\<close> is the contract of the job table: labelled, guarded moves on an abstract
    board, and which sequences of them each request may make.
  \<^item> \<open>Fleet_Properties\<close>, \<open>Access_Properties\<close>, \<open>Trust_Properties\<close>, \<open>Service_Properties\<close>: the promises of the
    control plane. \<open>Summary_Properties\<close> follows a launch through any interleaving to the panel.
    \<open>Demo\<close> holds the small history their witnesses use.

  \<^bold>\<open>Workloads and jobs\<close> (\<open>workloads/*.py\<close>, \<open>jobkit/execute.py\<close>).
  \<^item> \<open>Partition\<close>, \<open>Workloads\<close>, \<open>Aggregate\<close>: splitting work exactly, building tiles, merging results.
  \<^item> \<open>Execute\<close>, \<open>Execute_Ai\<close>: every job kind, its yield points and fallbacks; what a model answers, whether a
    process pool starts, takes its tasks or loses some of them, are parameters. Loops whose end depends on outside choices take the list of those choices
    and give \<open>None\<close> when it is exhausted; lemmas say when it is not.
  \<^item> \<open>Fleet_Compute\<close> (locale \<open>picture\<close>), \<open>Fleet_Search\<close>, \<open>Job_Properties\<close>: a fleet's merged answer is that of
    one machine, whatever the split and the order of completion; of a search, as long as no pool loses a
    task, which is the one way a tile can report less than it was asked without saying so.

  \<^item> \<open>Submit_Client\<close>, \<open>Client_Properties\<close>: the programs that build a batch and post it
    (\<open>workloads/submit.py\<close>, \<open>gpu.py\<close>, \<open>scripts/submit_jobs.py\<close>), composed with the server's handler over a
    network that may lose a request or an answer.

  \<^bold>\<open>The worker\<close> (\<open>worker/*.py\<close>, \<open>isolation/*.py\<close>, \<open>measurement/*.py\<close>).
  \<^item> \<open>Headroom\<close>, \<open>Availability\<close>, \<open>Profiler\<close>, \<open>Business_Case\<close>: the learned usage profile, its file, the
    estimates and projections made from it. All statistics stay percentages and all hours within a day,
    rounding included.
  \<^item> \<open>Governor\<close>: the idle gate and the adaptive governor; tick counters are 32-bit words that wrap, and the
    count of polls over the line goes on from one job to the next.
  \<^item> \<open>Isolation\<close>, \<open>Mxc_Policy\<close>: choice of a boundary, supervision, refusal when isolation is required; the
    sandbox policy, the runtime's configuration, and the probe that decides whether to rely on it.
    \<open>Job_Handle\<close>: the environment each boundary gets, job objects, stopping containers, finding the tools.
  \<^item> \<open>Agent\<close>, \<open>Agent_Properties\<close>: enrolment, polling, verification, running and reporting; the composition
    with the orchestrator's handling of results. \<open>Fleet_Driver\<close>: a fleet of agents taking turns against the
    live handlers (\<open>_drain\<close> of \<open>scripts/demo_fleet.py\<close>) finishes every job it may run and stops. \<open>Fleet_Demo\<close>: the demo around
    it, from machines the server has not seen to the collected outputs; \<open>Demo_Picture\<close>: those of a fractal
    assemble to the picture of one machine.
  \<^item> \<open>Worker_Loop\<close>: the job-mode loop of \<open>main\<close> with either gate: code starts only in a pass both of whose
    checks admitted it. \<open>Worker_Host\<close>: capability detection and the lock on a profile.
  \<^item> \<open>Measure\<close>: the measurement loop and its uploads, composed with the orchestrator's sanitizers.
  \<^item> \<open>Observer_Identity\<close>: the file protocol by which observers of one machine agree on an identity, as a step
    relation over interleaved processes, with or without an alias of their own, that may fail at any step,
    and the rotated event log.
  \<^item> \<open>Startup\<close>: both command lines, TLS material and the preset for a remote fleet.
  \<^item> \<open>Observer_Run\<close>: the worker's \<open>main\<close> from its accepted arguments to its exit, in either mode: profile lock,
    loading, enrolment, the loop, and the last save.
  \<^item> \<open>Telemetry\<close>: the events a worker logs and the two readers of the log (\<open>scripts/pilot_report.py\<close>, the
    restored availability). \<open>Measure_Report\<close>, \<open>Case_Report\<close> (\<open>scripts/measure_report.py\<close>,
    \<open>scripts/business_case.py\<close>): reports over collected profiles, from the files to the figures.

  \<^bold>\<open>Releases.\<close> \<open>Cosign\<close> (\<open>trust/cosign.py\<close>): signing artifacts with an external tool, and when it declines to.
  \<open>Supply_Chain\<close> (\<open>scripts/generate_sbom.py\<close>, \<open>generate_provenance.py\<close>, \<open>cosign_attest.py\<close>): the bill of materials
  and the signed provenance statement, which depends on content and not on listing order.

  \<^bold>\<open>Bounds.\<close> The limits are the program's: 168 buckets of a week, 20-second leases, a rate window, the sizes
  of requests and results. The rounds of a supervised process, a poll loop or an approval wait are lists
  of rounds; a run that needs more rounds than it is given is the value \<open>None\<close>, never a result. Claims on launches
  hold for works of up to \<open>2 ^ 34\<close> units, for which the rounded shares are known to be exact enough.

  \<^bold>\<open>Not modelled.\<close> HTTP framing, pydantic's error texts and the SQL engine (statements are list operations);
  the interior of SHA-256, Ed25519, TLS, Docker, MXC and language models; operating-system calls, whose
  answers are parameters; sleeping, printing and the staging of files; the dashboard's page; the
  remaining scenes of the demo scripts, and the text layout of the reports. Concurrency inside one write-lock section does not exist in the program.

  \<^bold>\<open>What the model showed.\<close> Lemmas record behaviour that departs from the code's own statements, among them:
  \<open>Measure.unsampled_gpu_reported_idle\<close>, \<open>Isolation.docker_job_failure_runs_again_on_host\<close>,
  \<open>Agent_Properties.fractional_challenge_bans_worker\<close>, \<open>Agent_Properties.items_without_length_crash\<close>,
  \<open>Access_Properties.reregistration_inherits_approval\<close>, \<open>Observer_Identity.taken_back_identities_differ\<close>,
  \<open>Startup.missing_tls_file_crashes\<close>, \<open>Mxc_Policy.payload_fallback_escapes\<close>,
  \<open>Aggregate.flat_returns_have_no_stdev\<close>, \<open>Worker_Loop.admitted_pass_samples_twice\<close>,
  \<open>Job_Handle.ended_job_is_signalled\<close>, \<open>Measure_Report.zero_override_is_ignored\<close>,
  \<open>Client_Properties.ringer_stays_internal\<close>, \<open>Migration.upgraded_log_stays_broken\<close>,
  \<open>Telemetry.non_object_line_crashes\<close>, \<open>Case_Report.unsampled_file_is_projected\<close>,
  \<open>Fleet_Driver.untiered_fleet_idles\<close>, \<open>Fleet_Demo.pulse_is_refused\<close>,
  \<open>Fleet_Search.lost_part_hides_a_hit\<close>, \<open>Governor.count_survives_jobs\<close>.
\<close>

end
